(* ===== verification/Go_Prelude.thy ===== *)
theory Go_Prelude
  imports
    Complex_Main
    "HOL-Library.Multiset"
    "HOL-Library.List_Lexorder"
    "HOL-Library.Char_ord"
    "HOL-Library.Signed_Division"
    "HOL-Library.Word"
begin

text \<open>
  The part of Go that every component shares: error values and the \<open>(T, error)\<close> results,
  instants and durations of package \<open>time\<close>, string keyed maps, the duplicate-detection loops,
  the slice sorts of package \<open>slices\<close> with their comparator contract, and the collections of
  facts the component proofs are run with.
\<close>

named_theorems go_defs \<open>definitions the component proofs unfold\<close>
named_theorems go_result \<open>inversion rules for results and errors\<close>

section \<open>Errors\<close>

text \<open>
  \<^verbatim>\<open>errors.New\<close> is \<open>ErrorsNew\<close>, \<^verbatim>\<open>fmt.Errorf\<close> with the arguments of its verbs is \<open>Errorf\<close> (the
  last argument is the wrapped error of \<^verbatim>\<open>%w\<close>, if any), \<^verbatim>\<open>errors.Join\<close> is \<open>ErrorsJoin\<close>. An error
  returned alone is a \<open>goerr option\<close> (\<open>None\<close> is \<^verbatim>\<open>nil\<close>), a pair \<^verbatim>\<open>(T, error)\<close> is \<open>goerr + 'a\<close>.
\<close>

datatype fmtarg = ArgS string | ArgI int | ArgF real

datatype goerr =
    ErrorsNew string
  | Errorf string "fmtarg list" "goerr option"
  | ErrorsJoin goerr goerr

type_synonym 'a result = "goerr + 'a"
type_synonym error = "goerr option"

text \<open>\<^verbatim>\<open>errors.Is\<close>: the target is somewhere in the chain of wrapped errors.\<close>

fun errors_Is :: "goerr \<Rightarrow> goerr \<Rightarrow> bool" where
  "errors_Is (ErrorsNew m) t = (ErrorsNew m = t)"
| "errors_Is (Errorf f a None) t = (Errorf f a None = t)"
| "errors_Is (Errorf f a (Some e)) t = (Errorf f a (Some e) = t \<or> errors_Is e t)"
| "errors_Is (ErrorsJoin a b) t = (ErrorsJoin a b = t \<or> errors_Is a t \<or> errors_Is b t)"

lemma errors_Is_refl [simp]: "errors_Is e e"
  by (cases "(e, e)" rule: errors_Is.cases) auto

text \<open>Sequencing: \<^verbatim>\<open>x, err := r; if err != nil { return err }\<close>, and the same for a lone error.\<close>

fun rbind :: "'a result \<Rightarrow> ('a \<Rightarrow> 'b result) \<Rightarrow> 'b result" where
  "rbind (Inl e) f = Inl e"
| "rbind (Inr x) f = f x"

fun guardE :: "error \<Rightarrow> 'a result \<Rightarrow> 'a result" where
  "guardE (Some e) r = Inl e"
| "guardE None r = r"

fun wrapE :: "string \<Rightarrow> fmtarg list \<Rightarrow> error \<Rightarrow> error" where
  "wrapE f a None = None"
| "wrapE f a (Some e) = Some (Errorf f a (Some e))"

fun wrapR :: "string \<Rightarrow> fmtarg list \<Rightarrow> 'a result \<Rightarrow> 'a result" where
  "wrapR f a (Inr x) = Inr x"
| "wrapR f a (Inl e) = Inl (Errorf f a (Some e))"

fun andthenE :: "error \<Rightarrow> error \<Rightarrow> error" where
  "andthenE (Some e) r = Some e"
| "andthenE None r = r"

definition failIf :: "bool \<Rightarrow> goerr \<Rightarrow> error" where
  "failIf b e = (if b then Some e else None)"

lemma rbind_Inr [simp, go_result]: "rbind r f = Inr y \<longleftrightarrow> (\<exists>x. r = Inr x \<and> f x = Inr y)"
  by (cases r) auto

lemma guardE_Inr [simp, go_result]: "guardE e r = Inr y \<longleftrightarrow> e = None \<and> r = Inr y"
  by (cases e) auto

lemma wrapE_None [simp, go_result]: "wrapE f a e = None \<longleftrightarrow> e = None"
  by (cases e) auto

lemma wrapR_Inr [simp, go_result]: "wrapR f a r = Inr y \<longleftrightarrow> r = Inr y"
  by (cases r) auto

lemma andthenE_None [simp, go_result]: "andthenE e r = None \<longleftrightarrow> e = None \<and> r = None"
  by (cases e) auto

lemma failIf_None [simp, go_result]: "failIf b e = None \<longleftrightarrow> \<not> b"
  by (simp add: failIf_def)

lemma failIf_simps [simp]: "failIf True e = Some e" "failIf False e = None"
  by (simp_all add: failIf_def)

lemma rbind_assoc: "rbind (rbind r f) g = rbind r (\<lambda>x. rbind (f x) g)"
  by (cases r) simp_all

text \<open>A loop over a slice that returns at the first error.\<close>

fun forE :: "('a \<Rightarrow> error) \<Rightarrow> 'a list \<Rightarrow> error" where
  "forE f [] = None"
| "forE f (x # xs) = andthenE (f x) (forE f xs)"

lemma forE_None [simp, go_result]: "forE f xs = None \<longleftrightarrow> (\<forall>x \<in> set xs. f x = None)"
  by (induction xs) auto

fun mapR :: "('a \<Rightarrow> 'b result) \<Rightarrow> 'a list \<Rightarrow> 'b list result" where
  "mapR f [] = Inr []"
| "mapR f (x # xs) = rbind (f x) (\<lambda>y. rbind (mapR f xs) (\<lambda>ys. Inr (y # ys)))"

lemma mapR_Inr: "mapR f xs = Inr ys \<longleftrightarrow> list_all2 (\<lambda>x y. f x = Inr y) xs ys"
  by (induction xs arbitrary: ys) (auto simp: list_all2_Cons1)

lemma mapR_length: "mapR f xs = Inr ys \<Longrightarrow> length ys = length xs"
  by (auto simp: mapR_Inr dest: list_all2_lengthD)

lemma mapR_total: "(\<And>x. x \<in> set xs \<Longrightarrow> f x = Inr (g x)) \<Longrightarrow> mapR f xs = Inr (map g xs)"
  by (induction xs) auto

lemma mapR_member: "\<lbrakk>mapR f xs = Inr ys; y \<in> set ys\<rbrakk> \<Longrightarrow> \<exists>x \<in> set xs. f x = Inr y"
  by (auto simp: mapR_Inr list_all2_conv_all_nth in_set_conv_nth) (metis nth_mem)

lemma mapR_covers: "\<lbrakk>mapR f xs = Inr ys; x \<in> set xs\<rbrakk> \<Longrightarrow> \<exists>y \<in> set ys. f x = Inr y"
  by (induction xs arbitrary: ys) auto

text \<open>Go's \<^verbatim>\<open>for index, x := range xs\<close>.\<close>

definition indexed :: "'a list \<Rightarrow> (nat \<times> 'a) list" where
  "indexed xs = zip [0..<length xs] xs"

lemma snd_indexed [simp]: "map snd (indexed xs) = xs"
  by (simp add: indexed_def)

lemma length_indexed [simp]: "length (indexed xs) = length xs"
  by (simp add: indexed_def)

lemma ball_indexed [simp]: "(\<forall>p \<in> set (indexed xs). P (snd p)) \<longleftrightarrow> (\<forall>x \<in> set xs. P x)"
  by (metis (no_types, lifting) in_set_conv_nth length_map nth_map snd_indexed)

lemma indexed_all:
  assumes "\<And>i x. Q (i, x) \<longleftrightarrow> P x"
  shows "(\<forall>p \<in> set (indexed xs). Q p) \<longleftrightarrow> (\<forall>x \<in> set xs. P x)"
proof -
  have "Q p \<longleftrightarrow> P (snd p)" for p using assms [of "fst p" "snd p"] by simp
  then show ?thesis by simp
qed

lemma set_indexed: "(i, x) \<in> set (indexed xs) \<longleftrightarrow> i < length xs \<and> xs ! i = x"
  by (force simp: indexed_def set_zip)

lemma indexed_mem: "x \<in> set xs \<longleftrightarrow> (\<exists>i. (i, x) \<in> set (indexed xs))"
  using in_set_conv_nth [of x xs] by (auto simp: set_indexed)

section \<open>Instants and durations\<close>

text \<open>
  A \<^verbatim>\<open>time.Time\<close> is an instant: nanoseconds after Go's zero time, so \<open>IsZero\<close> is \<open>t = 0\<close>. Locations
  and monotonic readings do not take part in \<open>Before\<close>, \<open>After\<close>, \<open>Equal\<close> and \<open>Compare\<close>. A
  \<^verbatim>\<open>time.Duration\<close> is a signed 64-bit count of nanoseconds; \<open>Sub\<close> saturates at its range.
\<close>

type_synonym time = int
type_synonym duration = int

definition max_duration :: duration where "max_duration = 2 ^ 63 - 1"
definition min_duration :: duration where "min_duration = - (2 ^ 63)"

definition is_duration :: "duration \<Rightarrow> bool" where
  "is_duration d \<longleftrightarrow> min_duration \<le> d \<and> d \<le> max_duration"

abbreviation (input) IsZero :: "time \<Rightarrow> bool" where "IsZero t \<equiv> t = 0"
abbreviation (input) Before :: "time \<Rightarrow> time \<Rightarrow> bool" where "Before t u \<equiv> t < u"
abbreviation (input) After :: "time \<Rightarrow> time \<Rightarrow> bool" where "After t u \<equiv> u < t"
abbreviation (input) time_Add :: "time \<Rightarrow> duration \<Rightarrow> time" where "time_Add t d \<equiv> t + d"

definition time_Sub :: "time \<Rightarrow> time \<Rightarrow> duration" where
  "time_Sub t u = max min_duration (min max_duration (t - u))"

definition time_Compare :: "time \<Rightarrow> time \<Rightarrow> int" where
  "time_Compare t u = (if t < u then -1 else if u < t then 1 else 0)"

definition nanosecond :: duration where "nanosecond = 1"
definition millisecond :: duration where "millisecond = 1000000"
definition second :: duration where "second = 1000000000"
definition minute :: duration where "minute = 60 * second"
definition hour :: duration where "hour = 60 * minute"

lemmas duration_units = nanosecond_def millisecond_def second_def minute_def hour_def
lemmas duration_range = max_duration_def min_duration_def

lemma time_Sub_mono: "t \<le> t' \<Longrightarrow> time_Sub t u \<le> time_Sub t' u"
  by (auto simp: time_Sub_def)

lemma time_Sub_nonneg_iff [simp]: "0 \<le> time_Sub t u \<longleftrightarrow> u \<le> t"
  by (auto simp: time_Sub_def duration_range)

lemma time_Sub_exact: "is_duration (t - u) \<Longrightarrow> time_Sub t u = t - u"
  by (auto simp: time_Sub_def is_duration_def)

text \<open>Go's division truncates; on a non-negative dividend it is the mathematical one.\<close>

lemma trunc_division:
  assumes "0 \<le> a" "0 < (b :: int)"
  shows "a sdiv b = a div b" "a smod b = a mod b"
  using assms by (cases "a = 0"; simp add: signed_divide_int_def signed_modulo_int_def)+

text \<open>\<^verbatim>\<open>math.MaxUint64\<close>, the one counter value that cannot be incremented.\<close>

definition MaxUint64 :: "64 word" where "MaxUint64 = - 1"

lemma uint_succ: "r \<noteq> MaxUint64 \<Longrightarrow> uint (r + 1) = uint r + 1"
proof -
  assume "r \<noteq> MaxUint64"
  then have "1 + r \<noteq> 0" by (metis MaxUint64_def add.commute add_eq_0_iff2)
  then have "unat (1 + r) = Suc (unat r)" by (rule unatSuc)
  then have "int (unat (r + 1)) = int (unat r) + 1" by (simp add: add.commute)
  then show ?thesis by (simp only: uint_nat)
qed

section \<open>Identifier sets\<close>

text \<open>
  The loops that fill a \<^verbatim>\<open>map[string]struct{}\<close> and return an error at the first key that is already
  there: \<open>firstDup\<close> walks the keys with the set seen so far.
\<close>

fun noDup :: "'a list \<Rightarrow> 'a list \<Rightarrow> bool" where
  "noDup seen [] = True"
| "noDup seen (x # xs) = (x \<notin> set seen \<and> noDup (x # seen) xs)"

lemma noDup_iff: "noDup seen xs \<longleftrightarrow> distinct xs \<and> set xs \<inter> set seen = {}"
  by (induction xs arbitrary: seen) auto

text \<open>Assignment \<^verbatim>\<open>m[k] = v\<close> of a Go map kept as an association list with distinct keys.\<close>

fun map_put :: "'k \<Rightarrow> 'v \<Rightarrow> ('k \<times> 'v) list \<Rightarrow> ('k \<times> 'v) list" where
  "map_put k v [] = [(k, v)]"
| "map_put k v (e # es) = (if fst e = k then (k, v) # es else e # map_put k v es)"

lemma map_of_map_put [simp]: "map_of (map_put k v m) = (map_of m)(k \<mapsto> v)"
  by (induction m) (auto simp: fun_eq_iff)

lemma map_put_keys [simp]:
  "map fst (map_put k v m) = (if k \<in> set (map fst m) then map fst m else map fst m @ [k])"
  by (induction m) auto

lemma map_put_fst [simp]: "fst ` set (map_put k v m) = insert k (fst ` set m)"
  by (induction m) auto

section \<open>Sorting with a comparator\<close>

text \<open>
  \<^verbatim>\<open>slices.SortStableFunc\<close> with a comparison function (negative, zero, positive). The result of a
  stable sort is determined by the comparison when that is a total preorder, which is the contract of
  the package; insertion sort computes it. \<^verbatim>\<open>slices.SortFunc\<close> is not stable, so it is only used here
  where the contract makes the order of equal elements irrelevant.
\<close>

fun insert_cmp :: "('a \<Rightarrow> 'a \<Rightarrow> int) \<Rightarrow> 'a \<Rightarrow> 'a list \<Rightarrow> 'a list" where
  "insert_cmp cmp x [] = [x]"
| "insert_cmp cmp x (y # ys) = (if cmp x y \<le> 0 then x # y # ys else y # insert_cmp cmp x ys)"

fun sort_cmp :: "('a \<Rightarrow> 'a \<Rightarrow> int) \<Rightarrow> 'a list \<Rightarrow> 'a list" where
  "sort_cmp cmp [] = []"
| "sort_cmp cmp (x # xs) = insert_cmp cmp x (sort_cmp cmp xs)"

lemma mset_insert_cmp [simp]: "mset (insert_cmp cmp x xs) = add_mset x (mset xs)"
  by (induction xs) auto

lemma mset_sort_cmp [simp]: "mset (sort_cmp cmp xs) = mset xs"
  by (induction xs) auto

lemma set_sort_cmp [simp]: "set (sort_cmp cmp xs) = set xs"
  by (metis mset_sort_cmp set_mset_mset)

lemma length_sort_cmp [simp]: "length (sort_cmp cmp xs) = length xs"
  by (metis mset_sort_cmp size_mset)

lemma sort_cmp_Nil_iff [simp]: "sort_cmp cmp xs = [] \<longleftrightarrow> xs = []"
  by (metis length_0_conv length_sort_cmp)

locale go_compare =
  fixes cmp :: "'a \<Rightarrow> 'a \<Rightarrow> int" and A :: "'a set"
  assumes cmp_antisym: "\<lbrakk>x \<in> A; y \<in> A\<rbrakk> \<Longrightarrow> cmp x y \<le> 0 \<longleftrightarrow> 0 \<le> cmp y x"
    and cmp_trans: "\<lbrakk>x \<in> A; y \<in> A; z \<in> A; cmp x y \<le> 0; cmp y z \<le> 0\<rbrakk> \<Longrightarrow> cmp x z \<le> 0"
begin

lemma cmp_total: "\<lbrakk>x \<in> A; y \<in> A\<rbrakk> \<Longrightarrow> cmp x y \<le> 0 \<or> cmp y x \<le> 0"
  using cmp_antisym [of x y] by linarith

lemma sorted_insert_cmp:
  "\<lbrakk>x \<in> A; set ys \<subseteq> A; sorted_wrt (\<lambda>a b. cmp a b \<le> 0) ys\<rbrakk>
     \<Longrightarrow> sorted_wrt (\<lambda>a b. cmp a b \<le> 0) (insert_cmp cmp x ys)"
proof (induction ys)
  case (Cons y ys)
  then have y: "y \<in> A" by simp
  show ?case
  proof (cases "cmp x y \<le> 0")
    case True
    have "cmp x z \<le> 0" if z: "z \<in> set ys" for z
      by (rule cmp_trans [of x y z]) (use True Cons.prems z in auto)
    then show ?thesis using True Cons.prems by simp
  next
    case False
    then have "cmp y x \<le> 0" using cmp_total Cons.prems(1) y by blast
    moreover have "set (insert_cmp cmp x ys) = insert x (set ys)"
      by (metis mset_insert_cmp set_mset_add_mset_insert set_mset_mset)
    ultimately show ?thesis using False Cons by auto
  qed
qed simp

lemma sorted_sort_cmp: "set xs \<subseteq> A \<Longrightarrow> sorted_wrt (\<lambda>a b. cmp a b \<le> 0) (sort_cmp cmp xs)"
  by (induction xs) (auto intro!: sorted_insert_cmp)

lemma hd_sort_cmp_least:
  assumes "set xs \<subseteq> A" "xs \<noteq> []" "y \<in> set xs"
  shows "cmp (hd (sort_cmp cmp xs)) y \<le> 0"
proof -
  obtain z zs where z: "sort_cmp cmp xs = z # zs"
    using assms(2) by (cases "sort_cmp cmp xs") auto
  have mem: "set (z # zs) = set xs" by (metis set_sort_cmp z)
  have "sorted_wrt (\<lambda>a b. cmp a b \<le> 0) (z # zs)"
    using sorted_sort_cmp [OF assms(1)] by (simp add: z)
  moreover have "cmp z z \<le> 0" using cmp_total [of z z] assms(1) mem by auto
  ultimately show ?thesis using assms(3) mem by (auto simp: z)
qed

lemma insert_cmp_stable:
  "\<lbrakk>x \<in> A; set ys \<subseteq> A; \<And>a b. \<lbrakk>a \<in> A; b \<in> A; P a; P b\<rbrakk> \<Longrightarrow> cmp a b = 0\<rbrakk>
     \<Longrightarrow> filter P (insert_cmp cmp x ys) = (if P x then x # filter P ys else filter P ys)"
proof (induction ys)
  case (Cons y ys)
  have "cmp x y = 0" if "P x" "P y"
    by (rule Cons.prems(3)) (use Cons.prems that in auto)
  moreover have "filter P (insert_cmp cmp x ys) = (if P x then x # filter P ys else filter P ys)"
    by (rule Cons.IH) (use Cons.prems in auto)
  ultimately show ?case by auto
qed simp

lemma sort_cmp_stable:
  assumes "set xs \<subseteq> A" and "\<And>a b. \<lbrakk>a \<in> A; b \<in> A; P a; P b\<rbrakk> \<Longrightarrow> cmp a b = 0"
  shows "filter P (sort_cmp cmp xs) = filter P xs"
  using assms(1)
proof (induction xs)
  case (Cons x xs)
  have "filter P (insert_cmp cmp x (sort_cmp cmp xs))
      = (if P x then x # filter P (sort_cmp cmp xs) else filter P (sort_cmp cmp xs))"
    by (rule insert_cmp_stable) (use Cons.prems assms(2) in auto)
  then show ?case using Cons by simp
qed simp

end

text \<open>
  A comparison that is zero only for equal keys: on a list with distinct keys the sort depends on the multiset
  of elements alone, so the unstable \<^verbatim>\<open>slices.SortFunc\<close> is determined too.
\<close>

lemma sorted_wrt_unique:
  assumes "mset xs = mset ys" "sorted_wrt R xs" "sorted_wrt R ys"
    and "\<And>x y. \<lbrakk>x \<in> set xs; y \<in> set xs; R x y; R y x\<rbrakk> \<Longrightarrow> x = y"
  shows "xs = ys"
  using assms
proof (induction xs arbitrary: ys)
  case (Cons x xs)
  obtain y ys' where ys: "ys = y # ys'" using Cons.prems(1) by (cases ys) auto
  have sets: "set ys = set (x # xs)" using Cons.prems(1) by (metis set_mset_mset)
  have "x = y"
  proof (rule ccontr)
    assume "x \<noteq> y"
    then have "y \<in> set xs" "x \<in> set ys'" using sets ys by auto
    then have "R x y" "R y x" using Cons.prems(2,3) ys by auto
    then show False using Cons.prems(4) [of x y] \<open>y \<in> set xs\<close> \<open>x \<noteq> y\<close> by simp
  qed
  moreover have "xs = ys'"
    by (rule Cons.IH) (use Cons.prems ys \<open>x = y\<close> in auto)
  ultimately show ?case by (simp add: ys)
qed simp

locale go_key_compare = go_compare cmp UNIV
  for cmp :: "'a \<Rightarrow> 'a \<Rightarrow> int" +
  fixes key :: "'a \<Rightarrow> 'k"
  assumes cmp_key: "cmp x y = 0 \<Longrightarrow> key x = key y"
begin

lemma sort_cmp_perm:
  assumes "mset xs = mset ys" "distinct (map key xs)"
  shows "sort_cmp cmp xs = sort_cmp cmp ys"
proof (rule sorted_wrt_unique)
  show "mset (sort_cmp cmp xs) = mset (sort_cmp cmp ys)" using assms(1) by simp
  show "sorted_wrt (\<lambda>a b. cmp a b \<le> 0) (sort_cmp cmp xs)" "sorted_wrt (\<lambda>a b. cmp a b \<le> 0) (sort_cmp cmp ys)"
    by (simp_all add: sorted_sort_cmp)
next
  fix x y
  assume x: "x \<in> set (sort_cmp cmp xs)" and y: "y \<in> set (sort_cmp cmp xs)" and le: "cmp x y \<le> 0" "cmp y x \<le> 0"
  have "cmp x y = 0" using le cmp_antisym [of y x] by simp
  then have "key x = key y" by (rule cmp_key)
  then show "x = y" using assms(2) x y by (auto simp: distinct_map dest: inj_onD)
qed

end

end
