(* ===== verification/Go_Float.thy ===== *)
theory Go_Float
  imports Go_Prelude
begin

text \<open>
  Go's \<^verbatim>\<open>float64\<close>: IEEE 754 binary64 with round to nearest, ties to even. A value is a NaN, an
  infinity or a real number; every operation computes on the reals and rounds once, so overflow to
  an infinity, gradual underflow and the 53-bit rounding of every intermediate result are those of
  the machine. The two zeros are one value: the sources never divide by a computed zero of negative
  sign and never look at a sign bit. The rounding is executable, so closed float expressions are
  evaluated by the kernel. \<^verbatim>\<open>math.Exp\<close> and \<^verbatim>\<open>math.Log\<close>, whose last bits depend on the platform, are
  parameters of the definitions that call them.
\<close>

section \<open>Rounding\<close>

text \<open>
  The binary exponent of a magnitude below \<open>2 ^ 1024\<close>, clamped at \<open>-1022\<close> as subnormals are: the two
  loops divide or multiply by two at most 1023 and 1022 times, which reaches \<open>[1, 2)\<close> from every
  normal magnitude.
\<close>

fun expo_up :: "nat \<Rightarrow> real \<Rightarrow> int" where
  "expo_up 0 x = 0"
| "expo_up (Suc n) x = (if x < 2 then 0 else 1 + expo_up n (x / 2))"

fun expo_down :: "nat \<Rightarrow> real \<Rightarrow> int" where
  "expo_down 0 x = 0"
| "expo_down (Suc n) x = (if 1 \<le> x then 0 else expo_down n (2 * x) - 1)"

definition expo :: "real \<Rightarrow> int" where
  "expo x = (if 1 \<le> x then expo_up 1023 x else expo_down 1022 x)"

text \<open>Round half to even.\<close>

definition rne :: "real \<Rightarrow> int" where
  "rne x = (let f = \<lfloor>x\<rfloor>; d = x - of_int f in
     if d < 1 / 2 then f else if 1 / 2 < d then f + 1 else if even f then f else f + 1)"

definition round_mag :: "real \<Rightarrow> real" where
  "round_mag x = (let u = 2 powi (expo x - 52) in of_int (rne (x / u)) * u)"

definition f64_threshold :: real where
  "f64_threshold = 2 ^ 1024 - 2 ^ 970"

lemma expo_up_bounds:
  "\<lbrakk>1 \<le> x; x < 2 * 2 ^ n\<rbrakk> \<Longrightarrow>
     2 powi (expo_up n x) \<le> x \<and> x < 2 powi (expo_up n x + 1) \<and> 0 \<le> expo_up n x \<and> expo_up n x \<le> int n"
proof (induction n arbitrary: x)
  case (Suc n)
  show ?case
  proof (cases "x < 2")
    case False
    have "2 powi (expo_up n (x / 2)) \<le> x / 2 \<and> x / 2 < 2 powi (expo_up n (x / 2) + 1)
        \<and> 0 \<le> expo_up n (x / 2) \<and> expo_up n (x / 2) \<le> int n"
      by (rule Suc.IH) (use False Suc.prems in auto)
    then show ?thesis using False by (auto simp: power_int_add)
  qed (use Suc.prems in auto)
qed auto

lemma expo_down_bounds:
  "\<lbrakk>0 \<le> x; x < 2\<rbrakk> \<Longrightarrow>
     x < 2 powi (expo_down n x + 1) \<and> - int n \<le> expo_down n x \<and> expo_down n x \<le> 0
     \<and> (- int n < expo_down n x \<longrightarrow> 2 powi (expo_down n x) \<le> x)"
proof (induction n arbitrary: x)
  case (Suc n)
  show ?case
  proof (cases "1 \<le> x")
    case False
    have "2 * x < 2 powi (expo_down n (2 * x) + 1) \<and> - int n \<le> expo_down n (2 * x)
        \<and> expo_down n (2 * x) \<le> 0
        \<and> (- int n < expo_down n (2 * x) \<longrightarrow> 2 powi (expo_down n (2 * x)) \<le> 2 * x)"
      by (rule Suc.IH) (use False Suc.prems in auto)
    then show ?thesis using False by (auto simp: power_int_add power_int_diff field_simps)
  qed (use Suc.prems in auto)
qed auto

lemma expo_bounds:
  assumes "0 \<le> x" "x < 2 ^ 1024"
  shows expo_upper: "x < 2 powi (expo x + 1)"
    and expo_lower: "-1022 < expo x \<Longrightarrow> 2 powi (expo x) \<le> x"
    and expo_range: "-1022 \<le> expo x" "expo x \<le> 1023"
proof -
  have "x < 2 * 2 ^ 1023" using assms(2) by simp
  then have up: "1 \<le> x \<Longrightarrow> 2 powi (expo_up 1023 x) \<le> x \<and> x < 2 powi (expo_up 1023 x + 1)
      \<and> 0 \<le> expo_up 1023 x \<and> expo_up 1023 x \<le> int 1023"
    using expo_up_bounds [of x 1023] by blast
  have down: "x < 2 \<Longrightarrow> x < 2 powi (expo_down 1022 x + 1) \<and> - int 1022 \<le> expo_down 1022 x
      \<and> expo_down 1022 x \<le> 0 \<and> (- int 1022 < expo_down 1022 x \<longrightarrow> 2 powi (expo_down 1022 x) \<le> x)"
    by (rule expo_down_bounds [OF assms(1)])
  have "x < 2 powi (expo x + 1) \<and> (-1022 < expo x \<longrightarrow> 2 powi (expo x) \<le> x)
      \<and> -1022 \<le> expo x \<and> expo x \<le> 1023"
  proof (cases "1 \<le> x")
    case True
    then have "expo x = expo_up 1023 x" by (simp only: expo_def if_True)
    then show ?thesis using up [OF True] by simp
  next
    case False
    then have "expo x = expo_down 1022 x" by (simp only: expo_def if_False)
    then show ?thesis using down False by simp
  qed
  then show "x < 2 powi (expo x + 1)" "-1022 < expo x \<Longrightarrow> 2 powi (expo x) \<le> x"
      "-1022 \<le> expo x" "expo x \<le> 1023"
    by blast+
qed

lemma powi2_le_iff [simp]: "(2::real) powi a \<le> 2 powi b \<longleftrightarrow> a \<le> b"
  by (metis less_le_not_le linorder_not_le one_less_numeral_iff power_int_increasing power_int_strict_increasing semiring_norm(76) less_imp_le)

lemma powi2_less_iff [simp]: "(2::real) powi a < 2 powi b \<longleftrightarrow> a < b"
  by (metis linorder_not_le powi2_le_iff)

lemma expo_eqI:
  assumes "0 \<le> x" "x < 2 ^ 1024" "-1022 \<le> e" "x < 2 powi (e + 1)" "-1022 < e \<Longrightarrow> 2 powi e \<le> x"
  shows "expo x = e"
proof (rule ccontr)
  note b = expo_bounds [OF assms(1,2)]
  assume "expo x \<noteq> e"
  then consider "expo x < e" | "e < expo x" by linarith
  then show False
  proof cases
    case 1
    then have "2 powi e < (2::real) powi (expo x + 1)"
      using assms(3,5) b(1,3) by (meson le_less_trans order_less_le_trans)
    then show False using 1 by simp
  next
    case 2
    then have "2 powi (expo x) < (2::real) powi (e + 1)"
      using assms(3,4) b(2) by (meson le_less_trans order_less_le_trans)
    then show False using 2 by simp
  qed
qed

lemma expo_mono:
  assumes "0 \<le> x" "x \<le> y" "y < 2 ^ 1024"
  shows "expo x \<le> expo y"
proof (rule ccontr)
  assume c: "\<not> expo x \<le> expo y"
  then have "2 powi (expo x) \<le> x"
    using expo_lower [of x] expo_range [of y] assms by simp
  moreover have "y < 2 powi (expo y + 1)" using expo_upper [of y] assms by simp
  ultimately have "(2::real) powi (expo x) < 2 powi (expo y + 1)" using assms(2) by linarith
  then show False using c by simp
qed

lemma rne_of_int [simp]: "rne (of_int k) = k"
  by (simp add: rne_def)

lemma rne_cases: "rne x = \<lfloor>x\<rfloor> \<or> rne x = \<lfloor>x\<rfloor> + 1 \<and> 1 / 2 \<le> x - of_int \<lfloor>x\<rfloor>"
  by (auto simp: rne_def Let_def)

lemma rne_mono: "x \<le> y \<Longrightarrow> rne x \<le> rne y"
proof (cases "\<lfloor>x\<rfloor> = \<lfloor>y\<rfloor>")
  case True
  assume "x \<le> y"
  then show ?thesis using True by (auto simp: rne_def Let_def)
next
  case False
  assume "x \<le> y"
  then have "\<lfloor>x\<rfloor> < \<lfloor>y\<rfloor>" using False floor_mono [of x y] by linarith
  then show ?thesis using rne_cases [of x] rne_cases [of y] by linarith
qed

lemma rne_ge: "of_int k \<le> x \<Longrightarrow> k \<le> rne x"
  using rne_mono [of "of_int k" x] by simp

lemma rne_le: "x \<le> of_int k \<Longrightarrow> rne x \<le> k"
  using rne_mono [of x "of_int k"] by simp

lemma rne_half_below: "x < of_int k + 1 / 2 \<Longrightarrow> rne x \<le> k"
  using rne_cases [of x] by linarith

lemma scaled_bounds:
  assumes "0 \<le> x" "x < 2 ^ 1024"
  shows scaled_upper: "x / 2 powi (expo x - 52) < of_int (2 ^ 53)"
    and scaled_lower: "-1022 < expo x \<Longrightarrow> of_int (2 ^ 52) \<le> x / 2 powi (expo x - 52)"
proof -
  have u: "(0::real) < 2 powi (expo x - 52)" by simp
  have "of_int (2 ^ 53) * (2::real) powi (expo x - 52) = 2 powi (expo x + 1)"
    by (simp add: power_int_add power_int_diff)
  then show "x / 2 powi (expo x - 52) < of_int (2 ^ 53)"
    using expo_upper [OF assms] u by (simp add: divide_less_eq)
  have "of_int (2 ^ 52) * (2::real) powi (expo x - 52) = 2 powi (expo x)"
    by (simp add: power_int_diff)
  then show "-1022 < expo x \<Longrightarrow> of_int (2 ^ 52) \<le> x / 2 powi (expo x - 52)"
    using expo_lower [OF assms] u by (simp add: le_divide_eq)
qed

lemma round_mag_upper:
  assumes "0 \<le> x" "x < 2 ^ 1024"
  shows "round_mag x \<le> 2 powi (expo x + 1)"
proof -
  have "rne (x / 2 powi (expo x - 52)) \<le> 2 ^ 53"
    by (rule rne_le) (use scaled_upper [OF assms] in simp)
  then have "real_of_int (rne (x / 2 powi (expo x - 52))) \<le> of_int (2 ^ 53)"
    by (simp only: of_int_le_iff)
  then have "round_mag x \<le> of_int (2 ^ 53) * 2 powi (expo x - 52)"
    by (simp only: round_mag_def Let_def mult_right_mono zero_le_power_int zero_le_numeral)
  then show ?thesis by (simp add: power_int_add power_int_diff)
qed

lemma round_mag_lower:
  assumes "0 \<le> x" "x < 2 ^ 1024" "-1022 < expo x"
  shows "2 powi (expo x) \<le> round_mag x"
proof -
  have "2 ^ 52 \<le> rne (x / 2 powi (expo x - 52))"
    by (rule rne_ge) (use scaled_lower [OF assms] in simp)
  then have "of_int (2 ^ 52) \<le> real_of_int (rne (x / 2 powi (expo x - 52)))"
    by (simp only: of_int_le_iff)
  then have "of_int (2 ^ 52) * 2 powi (expo x - 52) \<le> round_mag x"
    by (simp only: round_mag_def Let_def mult_right_mono zero_le_power_int zero_le_numeral)
  then show ?thesis by (simp add: power_int_diff)
qed

lemma round_mag_nonneg: "0 \<le> x \<Longrightarrow> 0 \<le> round_mag x"
  by (simp add: round_mag_def Let_def rne_ge)

lemma round_mag_mono:
  assumes "0 \<le> x" "x \<le> y" "y < 2 ^ 1024"
  shows "round_mag x \<le> round_mag y"
proof (cases "expo x = expo y")
  case True
  have "x / 2 powi (expo y - 52) \<le> y / 2 powi (expo y - 52)"
    by (simp add: divide_right_mono assms(2))
  then show ?thesis
    by (simp add: round_mag_def Let_def True rne_mono mult_right_mono)
next
  case False
  then have less: "expo x < expo y" using expo_mono [OF assms] by simp
  have "round_mag x \<le> 2 powi (expo x + 1)"
    using round_mag_upper [of x] assms by simp
  also have "\<dots> \<le> 2 powi (expo y)" using less by simp
  also have "\<dots> \<le> round_mag y"
    by (rule round_mag_lower) (use assms less expo_range [of x] in auto)
  finally show ?thesis .
qed

lemma powi2_shift:
  assumes "a \<le> b"
  shows "(2::real) powi b = of_int (2 ^ nat (b - a)) * 2 powi a"
proof -
  have "(2::real) powi b = 2 powi (b - a) * 2 powi a" by (simp flip: power_int_add)
  also have "(2::real) powi (b - a) = of_int (2 ^ nat (b - a))"
    using assms by (simp add: power_int_def)
  finally show ?thesis .
qed

lemma round_mag_exact:
  assumes x: "x = of_int m * 2 powi k" and m: "0 \<le> m" "m \<le> 2 ^ 53" and k: "-1074 \<le> k"
    and lt: "x < 2 ^ 1024"
  shows "round_mag x = x"
proof -
  let ?e = "expo x"
  have nonneg: "0 \<le> x" using x m by simp
  have "\<exists>n. x = of_int n * 2 powi (?e - 52)"
  proof (cases "?e - 52 \<le> k")
    case True
    have "x = of_int (m * 2 ^ nat (k - (?e - 52))) * 2 powi (?e - 52)"
      using powi2_shift [OF True] x by simp
    then show ?thesis by blast
  next
    case False
    then have e: "-1022 < ?e" using k by linarith
    have mk: "of_int m * (2::real) powi k \<le> of_int (2 ^ 53) * 2 powi k"
      using m(2) by (intro mult_right_mono) (simp_all flip: of_int_power)
    have "of_int (2 ^ 53) * 2 powi k = (2::real) powi (53 + k)" by (simp add: power_int_add)
    then have "2 powi ?e \<le> (2::real) powi (53 + k)"
      using order_trans [OF expo_lower [OF nonneg lt e]] mk x by metis
    then have ek: "?e = k + 53" using False by simp
    have "2 powi (k + 53) \<le> x" using expo_lower [OF nonneg lt e] ek by simp
    then have "of_int (2 ^ 53) * (2::real) powi k \<le> of_int m * 2 powi k"
      using x by (simp add: power_int_add mult.commute)
    then have "real_of_int (2 ^ 53) \<le> of_int m"
      by (rule mult_right_le_imp_le) simp
    then have "(2 ^ 53 :: int) \<le> m" by (simp only: of_int_le_iff)
    then have "m = 2 ^ 53" using m(2) by linarith
    then have "x = of_int (2 ^ 52) * 2 powi (?e - 52)"
      using x ek by (simp add: power_int_add)
    then show ?thesis by blast
  qed
  then obtain n where n: "x = of_int n * 2 powi (?e - 52)" by blast
  then have "x / 2 powi (?e - 52) = of_int n"
    by (metis nonzero_mult_div_cancel_right power_int_not_zero zero_neq_numeral)
  then show ?thesis using n by (simp add: round_mag_def Let_def)
qed

lemma threshold_below: "f64_threshold < 2 ^ 1024"
  by (simp add: f64_threshold_def)

lemma round_mag_max:
  assumes "0 \<le> x" "x < f64_threshold"
  shows "round_mag x \<le> 2 ^ 1024 - 2 ^ 971"
proof -
  have lt: "x < 2 ^ 1024" using assms(2) threshold_below by linarith
  show ?thesis
  proof (cases "expo x = 1023")
    case True
    have u: "(2::real) powi (expo x - 52) = 2 ^ 971" by (simp add: True)
    have "x / 2 powi (expo x - 52) < of_int (2 ^ 53 - 1) + 1 / 2"
      using assms(2) by (simp add: u f64_threshold_def divide_less_eq)
    then have "rne (x / 2 powi (expo x - 52)) \<le> 2 ^ 53 - 1" by (rule rne_half_below)
    then have "real_of_int (rne (x / 2 powi (expo x - 52))) \<le> of_int (2 ^ 53 - 1)"
      by (simp only: of_int_le_iff)
    then have "round_mag x \<le> of_int (2 ^ 53 - 1) * 2 ^ 971"
      by (simp add: round_mag_def Let_def u)
    then show ?thesis by simp
  next
    case False
    then have "expo x + 1 \<le> 1023" using expo_range [OF assms(1) lt] by linarith
    then have "(2::real) powi (expo x + 1) \<le> 2 powi 1023" by (subst powi2_le_iff)
    moreover have "round_mag x \<le> 2 powi (expo x + 1)" by (rule round_mag_upper [OF assms(1) lt])
    moreover have "(2::real) powi 1023 \<le> 2 ^ 1024 - 2 ^ 971" by simp
    ultimately show ?thesis by linarith
  qed
qed

lemma round_mag_below: "\<lbrakk>0 \<le> x; x < f64_threshold\<rbrakk> \<Longrightarrow> round_mag x < f64_threshold"
  using round_mag_max [of x] by (simp add: f64_threshold_def)

lemma round_mag_idem:
  assumes "0 \<le> x" "x < f64_threshold"
  shows "round_mag (round_mag x) = round_mag x"
proof (rule round_mag_exact)
  have lt: "x < 2 ^ 1024" using assms(2) threshold_below by linarith
  show "round_mag x = of_int (rne (x / 2 powi (expo x - 52))) * 2 powi (expo x - 52)"
    by (simp add: round_mag_def Let_def)
  show "0 \<le> rne (x / 2 powi (expo x - 52))" by (rule rne_ge) (use assms(1) in simp)
  show "rne (x / 2 powi (expo x - 52)) \<le> 2 ^ 53"
    by (rule rne_le) (use scaled_upper [OF assms(1) lt] in simp)
  show "-1074 \<le> expo x - 52" using expo_range [OF assms(1) lt] by simp
  show "round_mag x < 2 ^ 1024" using round_mag_below [OF assms] threshold_below by linarith
qed

text \<open>Half a unit in the last place, relative to the argument.\<close>

lemma round_mag_rel:
  assumes "2 powi (-1021) \<le> x" "x < 2 ^ 1024"
  shows "round_mag x \<le> x * (1 + 1 / 2 ^ 53)"
proof -
  have x: "0 \<le> x" using assms(1) by (meson order.trans zero_le_numeral zero_le_power_int)
  let ?u = "2 powi (expo x - 52) :: real"
  have "(2::real) powi (-1021) < 2 powi (expo x + 1)" using assms expo_upper [OF x] by linarith
  then have "-1021 < expo x + 1" by (simp only: powi2_less_iff)
  then have "-1022 < expo x" by simp
  then have "of_int (2 ^ 52) \<le> x / ?u" by (rule scaled_lower [OF x assms(2)])
  moreover define y where "y = x / ?u"
  ultimately have "2 ^ 52 \<le> y" by simp
  moreover have "of_int (rne y) \<le> y + 1 / 2" using rne_cases [of y] by linarith
  ultimately have "of_int (rne y) \<le> y * (1 + 1 / 2 ^ 53)" by (simp add: field_simps)
  then have "of_int (rne y) * ?u \<le> y * (1 + 1 / 2 ^ 53) * ?u" by (rule mult_right_mono) simp
  then show ?thesis by (simp add: round_mag_def Let_def y_def)
qed

lemma round_mag_grid:
  assumes "0 \<le> x" "x < 2 ^ 1024"
  shows "\<exists>k :: int. round_mag x = of_int k * 2 powi (-1074)"
proof -
  define n where "n = nat (expo x + 1022)"
  have e: "expo x - 52 = int n + -1074" using expo_range(1) [OF assms] by (simp add: n_def)
  have "(2::real) powi (expo x - 52) = of_int (2 ^ n) * 2 powi (-1074)"
    unfolding e by (subst power_int_add) (simp_all only: power_int_of_nat of_int_power of_int_numeral, simp)
  then have "round_mag x = of_int (rne (x / 2 powi (expo x - 52)) * 2 ^ n) * 2 powi (-1074)"
    by (simp add: round_mag_def Let_def)
  then show ?thesis by blast
qed

section \<open>Values, comparison and arithmetic\<close>

datatype f64 = NaN | PInf | NInf | Fin real

definition f64_round :: "real \<Rightarrow> f64" where
  "f64_round x =
     (if \<bar>x\<bar> < f64_threshold then Fin (sgn x * round_mag \<bar>x\<bar>)
      else if 0 < x then PInf else NInf)"

text \<open>\<open>is_f64\<close> holds of the values a \<^verbatim>\<open>float64\<close> variable can have: reals that rounding keeps.\<close>

fun is_f64 :: "f64 \<Rightarrow> bool" where
  "is_f64 (Fin x) = (f64_round x = Fin x)"
| "is_f64 _ = True"

fun f64_finite :: "f64 \<Rightarrow> bool" where
  "f64_finite (Fin x) = True"
| "f64_finite _ = False"

instantiation f64 :: ord
begin

fun less_eq_f64 :: "f64 \<Rightarrow> f64 \<Rightarrow> bool" where
  "less_eq_f64 NaN y = False"
| "less_eq_f64 x NaN = False"
| "less_eq_f64 NInf y = True"
| "less_eq_f64 x PInf = True"
| "less_eq_f64 PInf y = False"
| "less_eq_f64 x NInf = False"
| "less_eq_f64 (Fin a) (Fin b) = (a \<le> b)"

fun less_f64 :: "f64 \<Rightarrow> f64 \<Rightarrow> bool" where
  "less_f64 NaN y = False"
| "less_f64 x NaN = False"
| "less_f64 x NInf = False"
| "less_f64 NInf y = True"
| "less_f64 PInf y = False"
| "less_f64 x PInf = True"
| "less_f64 (Fin a) (Fin b) = (a < b)"

instance ..

end

text \<open>Go's \<^verbatim>\<open>==\<close> on \<^verbatim>\<open>float64\<close>: a NaN differs from everything.\<close>

definition f64_eq :: "f64 \<Rightarrow> f64 \<Rightarrow> bool" where
  "f64_eq x y \<longleftrightarrow> x = y \<and> x \<noteq> NaN"

instantiation f64 :: "{zero, one, plus, uminus, minus, times, inverse}"
begin

definition zero_f64 :: f64 where "0 = Fin 0"
definition one_f64 :: f64 where "1 = Fin 1"

fun plus_f64 :: "f64 \<Rightarrow> f64 \<Rightarrow> f64" where
  "plus_f64 (Fin a) (Fin b) = f64_round (a + b)"
| "plus_f64 NaN y = NaN"
| "plus_f64 x NaN = NaN"
| "plus_f64 PInf NInf = NaN"
| "plus_f64 NInf PInf = NaN"
| "plus_f64 PInf y = PInf"
| "plus_f64 NInf y = NInf"
| "plus_f64 x PInf = PInf"
| "plus_f64 x NInf = NInf"

fun uminus_f64 :: "f64 \<Rightarrow> f64" where
  "uminus_f64 NaN = NaN"
| "uminus_f64 PInf = NInf"
| "uminus_f64 NInf = PInf"
| "uminus_f64 (Fin a) = Fin (- a)"

definition minus_f64 :: "f64 \<Rightarrow> f64 \<Rightarrow> f64" where
  "x - y = x + - (y :: f64)"

definition signed_inf :: "real \<Rightarrow> f64" where
  "signed_inf s = (if s = 0 then NaN else if 0 < s then PInf else NInf)"

fun f64_sgn :: "f64 \<Rightarrow> real" where
  "f64_sgn PInf = 1"
| "f64_sgn NInf = -1"
| "f64_sgn (Fin a) = sgn a"
| "f64_sgn NaN = 0"

definition times_f64 :: "f64 \<Rightarrow> f64 \<Rightarrow> f64" where
  "x * y =
     (case (x, y) of
        (NaN, _) \<Rightarrow> NaN
      | (_, NaN) \<Rightarrow> NaN
      | (Fin a, Fin b) \<Rightarrow> f64_round (a * b)
      | _ \<Rightarrow> signed_inf (f64_sgn x * f64_sgn y))"

definition divide_f64 :: "f64 \<Rightarrow> f64 \<Rightarrow> f64" where
  "x div y =
     (case (x, y) of
        (NaN, _) \<Rightarrow> NaN
      | (_, NaN) \<Rightarrow> NaN
      | (Fin a, Fin b) \<Rightarrow> if b = 0 then signed_inf (sgn a) else f64_round (a / b)
      | (Fin a, _) \<Rightarrow> Fin 0
      | (_, Fin b) \<Rightarrow> signed_inf (f64_sgn x * (if b < 0 then -1 else 1))
      | _ \<Rightarrow> NaN)"

definition inverse_f64 :: "f64 \<Rightarrow> f64" where
  "inverse x = 1 div (x :: f64)"

instance ..

end

fun f64_abs :: "f64 \<Rightarrow> f64" where
  "f64_abs (Fin a) = Fin \<bar>a\<bar>"
| "f64_abs NaN = NaN"
| "f64_abs _ = PInf"

text \<open>\<^verbatim>\<open>math.Min\<close> and \<^verbatim>\<open>math.Max\<close>, with their order of special cases.\<close>

definition math_Min :: "f64 \<Rightarrow> f64 \<Rightarrow> f64" where
  "math_Min x y =
     (if x = NInf \<or> y = NInf then NInf else if x = NaN \<or> y = NaN then NaN
      else if x < y then x else y)"

definition math_Max :: "f64 \<Rightarrow> f64 \<Rightarrow> f64" where
  "math_Max x y =
     (if x = PInf \<or> y = PInf then PInf else if x = NaN \<or> y = NaN then NaN
      else if y < x then x else y)"

text \<open>
  \<^verbatim>\<open>math.Sqrt\<close> is correctly rounded; \<^verbatim>\<open>math.Hypot\<close> is the algorithm of the Go library over it.
\<close>

fun math_Sqrt :: "f64 \<Rightarrow> f64" where
  "math_Sqrt (Fin a) = (if a < 0 then NaN else f64_round (sqrt a))"
| "math_Sqrt PInf = PInf"
| "math_Sqrt _ = NaN"

definition math_Hypot :: "f64 \<Rightarrow> f64 \<Rightarrow> f64" where
  "math_Hypot x y =
     (let p = f64_abs x; q = f64_abs y in
      if p = PInf \<or> q = PInf then PInf
      else if p = NaN \<or> q = NaN then NaN
      else let (p, q) = (if p < q then (q, p) else (p, q)) in
        if f64_eq p 0 then 0
        else let q = q / p in p * math_Sqrt (1 + q * q))"

definition f64_of_int :: "int \<Rightarrow> f64" where
  "f64_of_int i = f64_round (of_int i)"

text \<open>Conversion of a float that is in range to \<^verbatim>\<open>int\<close> truncates towards zero.\<close>

fun f64_to_int :: "f64 \<Rightarrow> int" where
  "f64_to_int (Fin a) = (if 0 \<le> a then \<lfloor>a\<rfloor> else - \<lfloor>- a\<rfloor>)"
| "f64_to_int _ = 0"

section \<open>Facts about rounding and the operations\<close>

lemma f64_round_0 [simp]: "f64_round 0 = Fin 0"
  by (simp add: f64_round_def f64_threshold_def)

lemma f64_round_uminus: "f64_round (- x) = - f64_round x"
  using threshold_below by (cases "x = 0") (auto simp: f64_round_def f64_threshold_def sgn_if)

lemma f64_round_pos:
  "0 < x \<Longrightarrow> f64_round x = (if x < f64_threshold then Fin (round_mag x) else PInf)"
  by (simp add: f64_round_def)

lemma f64_round_neg:
  "x < 0 \<Longrightarrow> f64_round x = (if - x < f64_threshold then Fin (- round_mag (- x)) else NInf)"
  by (simp add: f64_round_def)

lemma f64_round_not_NaN [simp]: "f64_round x \<noteq> NaN" "NaN \<noteq> f64_round x"
  by (auto simp: f64_round_def)

lemma f64_round_exact:
  assumes "x = of_int m * 2 powi k" "\<bar>m\<bar> \<le> 2 ^ 53" "-1074 \<le> k" "\<bar>x\<bar> < f64_threshold"
  shows "f64_round x = Fin x"
proof -
  have "round_mag \<bar>x\<bar> = \<bar>x\<bar>"
    by (rule round_mag_exact [of _ "\<bar>m\<bar>" k]) (use assms threshold_below in \<open>auto simp: abs_mult\<close>)
  then show ?thesis using assms(4) by (simp add: f64_round_def sgn_mult_abs)
qed

lemma f64_round_of_int:
  assumes "\<bar>n\<bar> \<le> 2 ^ 53"
  shows "f64_round (of_int n) = Fin (of_int n)"
proof (rule f64_round_exact [of _ n 0])
  have "\<bar>real_of_int n\<bar> \<le> of_int (2 ^ 53)"
    using assms by (simp only: of_int_abs [symmetric] of_int_le_iff)
  also have "\<dots> < f64_threshold" by (simp add: f64_threshold_def)
  finally show "\<bar>real_of_int n\<bar> < f64_threshold" .
qed (use assms in simp_all)

lemma f64_round_numeral [simp]:
  "(numeral w :: int) \<le> 2 ^ 53 \<Longrightarrow> f64_round (numeral w) = Fin (numeral w)"
  using f64_round_of_int [of "numeral w"] by simp

lemma f64_round_neg_numeral [simp]:
  "(numeral w :: int) \<le> 2 ^ 53 \<Longrightarrow> f64_round (- numeral w) = Fin (- numeral w)"
  using f64_round_of_int [of "- numeral w"] by simp

lemma f64_round_1 [simp]: "f64_round 1 = Fin 1" "f64_round (-1) = Fin (-1)"
  using f64_round_of_int [of 1] f64_round_of_int [of "-1"] by simp_all

lemma f64_round_half [simp]: "f64_round (1 / 2) = Fin (1 / 2)"
  by (rule f64_round_exact [of _ 1 "-1"]) (simp_all add: f64_threshold_def)

lemma f64_round_idem: "f64_round x = Fin y \<Longrightarrow> f64_round y = Fin y"
proof -
  have pos: "f64_round y = Fin y" if "0 < x" "f64_round x = Fin y" for x y
  proof -
    have x: "x < f64_threshold" and y: "y = round_mag x"
      using that by (auto simp: f64_round_pos split: if_splits)
    have "0 \<le> y" using y that(1) round_mag_nonneg [of x] by simp
    then show ?thesis
      using round_mag_idem [of x] round_mag_below [of x] x y that(1)
      by (cases "y = 0") (simp_all add: f64_round_pos)
  qed
  assume a: "f64_round x = Fin y"
  consider "x = 0" | "0 < x" | "0 < - x" by linarith
  then show ?thesis
  proof cases
    case 3
    have "f64_round (- x) = Fin (- y)" using a by (simp add: f64_round_uminus)
    then have "f64_round (- y) = Fin (- y)" by (rule pos [OF 3])
    then show ?thesis using f64_round_uminus [of "- y"] by simp
  qed (use a pos in auto)
qed

lemma f64_round_bounded: "f64_round x = Fin y \<Longrightarrow> \<bar>y\<bar> \<le> 2 ^ 1024 - 2 ^ 971"
  using round_mag_max [of "\<bar>x\<bar>"] round_mag_nonneg [of "\<bar>x\<bar>"] threshold_below
  by (auto simp: f64_round_def sgn_if split: if_splits)

lemma f64_round_maxfloat: "f64_round (2 ^ 1024 - 2 ^ 971) = Fin (2 ^ 1024 - 2 ^ 971)"
  by (rule f64_round_exact [of _ "2 ^ 53 - 1" 971]) (simp_all add: f64_threshold_def)

lemma f64_round_finite:
  assumes "\<bar>x\<bar> \<le> 2 ^ 1024 - 2 ^ 971"
  shows "\<exists>y. f64_round x = Fin y"
proof -
  have "(2::real) ^ 1024 - 2 ^ 971 < f64_threshold" by (simp add: f64_threshold_def)
  then have "\<bar>x\<bar> < f64_threshold" using assms by linarith
  then show ?thesis by (simp add: f64_round_def)
qed

lemma is_f64_round [simp]: "is_f64 (f64_round x)"
  by (cases "f64_round x") (auto intro: f64_round_idem)

lemma f64_round_mono: "x \<le> y \<Longrightarrow> f64_round x \<le> f64_round y"
proof -
  have pos: "f64_round x \<le> f64_round y" if "0 \<le> x" "x \<le> y" for x y
    using that round_mag_mono [of x y] round_mag_nonneg [of x] round_mag_nonneg [of y]
      threshold_below
    by (cases "x = 0"; cases "y = 0") (auto simp: f64_round_pos)
  assume le: "x \<le> y"
  consider "0 \<le> x" | "x < 0" "0 \<le> y" | "x < 0" "y < 0" by linarith
  then show ?thesis
  proof cases
    case 2
    then show ?thesis
      using round_mag_nonneg [of "- x"] round_mag_nonneg [of y]
      by (cases "y = 0") (auto simp: f64_round_pos f64_round_neg)
  next
    case 3
    have "f64_round (- y) \<le> f64_round (- x)" by (rule pos) (use le 3 in auto)
    then show ?thesis
      using 3 by (cases "f64_round x"; cases "f64_round y") (auto simp: f64_round_uminus)
  qed (use pos le in blast)
qed

lemma f64_zero [simp]: "(0 = Fin x) = (x = 0)" "(Fin x = 0) = (x = 0)"
  by (auto simp: zero_f64_def)

lemma f64_one [simp]: "(1 = Fin x) = (x = 1)" "(Fin x = 1) = (x = 1)"
  by (auto simp: one_f64_def)

lemma f64_le_Fin [simp]:
  "(Fin a \<le> Fin b) = (a \<le> b)" "(0 \<le> Fin b) = (0 \<le> b)" "(Fin a \<le> 0) = (a \<le> 0)"
  "(1 \<le> Fin b) = (1 \<le> b)" "(Fin a \<le> 1) = (a \<le> 1)" "(0::f64) \<le> 0" "(0::f64) \<le> 1" "(1::f64) \<le> 1"
  by (auto simp: zero_f64_def one_f64_def)

lemma f64_less_Fin [simp]:
  "(Fin a < Fin b) = (a < b)" "(0 < Fin b) = (0 < b)" "(Fin a < 0) = (a < 0)"
  "(1 < Fin b) = (1 < b)" "(Fin a < 1) = (a < 1)" "\<not> (0::f64) < 0" "(0::f64) < 1"
  by (auto simp: zero_f64_def one_f64_def)

lemma f64_NaN_order [simp]:
  "\<not> NaN \<le> x" "\<not> x \<le> NaN" "\<not> NaN < x" "\<not> x < NaN"
  by (cases x; simp)+

lemma f64_finite_iff: "f64_finite x \<longleftrightarrow> (\<exists>r. x = Fin r)"
  by (cases x) auto

lemma f64_finite_const [simp]: "f64_finite 0" "f64_finite 1"
  by (auto simp: zero_f64_def one_f64_def)

lemma f64_eq_Fin [simp]: "f64_eq (Fin a) (Fin b) \<longleftrightarrow> a = b"
  by (simp add: f64_eq_def)

lemma f64_eq_refl: "f64_finite x \<Longrightarrow> f64_eq x x"
  by (cases x) (auto simp: f64_eq_def)

lemma f64_le_trans: "(x::f64) \<le> y \<Longrightarrow> y \<le> z \<Longrightarrow> x \<le> z"
  by (cases x; cases y; cases z) auto

lemma f64_less_imp_le: "(x::f64) < y \<Longrightarrow> x \<le> y"
  by (cases x; cases y) auto

lemma f64_not_less: "\<lbrakk>x \<noteq> NaN; y \<noteq> NaN\<rbrakk> \<Longrightarrow> \<not> x < y \<longleftrightarrow> y \<le> (x::f64)"
  by (cases x; cases y) auto

lemma f64_finite_le: "\<lbrakk>f64_finite x; f64_finite y\<rbrakk> \<Longrightarrow> x \<le> y \<longleftrightarrow> \<not> y < (x::f64)"
  by (cases x; cases y) auto

lemma f64_less_trans: "(x::f64) < y \<Longrightarrow> y < z \<Longrightarrow> x < z"
  by (cases x; cases y; cases z) auto

lemma f64_le_not_NaN: "(x::f64) \<le> y \<Longrightarrow> x \<noteq> NaN \<and> y \<noteq> NaN"
  by (cases x; cases y) auto

lemma f64_NaN_arith [simp]:
  "NaN + x = NaN" "x + NaN = NaN" "NaN * x = NaN" "x * NaN = NaN" "NaN / x = NaN" "x / NaN = NaN"
  "NaN - x = NaN" "x - NaN = NaN"
  by (cases x; simp add: times_f64_def divide_f64_def minus_f64_def)+

lemma f64_add_Fin [simp]: "Fin a + Fin b = f64_round (a + b)"
  by simp

lemma f64_add_0 [simp]: "0 + Fin b = f64_round b" "Fin b + 0 = f64_round b" "(0::f64) + 0 = 0"
  by (simp_all add: zero_f64_def)

lemma f64_minus_Fin [simp]: "Fin a - Fin b = f64_round (a - b)"
  by (simp add: minus_f64_def)

lemma f64_times_Fin [simp]: "Fin a * Fin b = f64_round (a * b)"
  by (simp add: times_f64_def)

lemma f64_div_Fin [simp]: "b \<noteq> 0 \<Longrightarrow> Fin a / Fin b = f64_round (a / b)"
  by (simp add: divide_f64_def)

lemma f64_round_nonneg: "0 \<le> x \<Longrightarrow> 0 \<le> f64_round x"
  using f64_round_mono [of 0 x] by (simp add: zero_f64_def)

lemma f64_round_ge: "\<lbrakk>is_f64 (Fin a); a \<le> x\<rbrakk> \<Longrightarrow> Fin a \<le> f64_round x"
  using f64_round_mono [of a x] by simp

lemma f64_round_le: "\<lbrakk>is_f64 (Fin a); x \<le> a\<rbrakk> \<Longrightarrow> f64_round x \<le> Fin a"
  using f64_round_mono [of x a] by simp

lemma f64_add_nonneg: "\<lbrakk>0 \<le> x; 0 \<le> y\<rbrakk> \<Longrightarrow> (0::f64) \<le> x + y"
  by (cases x; cases y) (auto simp: zero_f64_def f64_round_nonneg [unfolded zero_f64_def])

lemma f64_add_ge: "\<lbrakk>is_f64 x; x \<noteq> NaN; x \<noteq> NInf; 0 \<le> y\<rbrakk> \<Longrightarrow> x \<le> x + (y::f64)"
  by (cases x; cases y) (auto simp: zero_f64_def intro: f64_round_ge)

lemma f64_add_le: "\<lbrakk>is_f64 x; x \<noteq> NaN; x \<noteq> PInf; y \<le> 0\<rbrakk> \<Longrightarrow> x + y \<le> (x::f64)"
  by (cases x; cases y) (auto simp: zero_f64_def intro: f64_round_le)

lemma math_Max_Fin [simp]: "math_Max (Fin a) (Fin b) = Fin (max a b)"
  by (simp add: math_Max_def max_def)

lemma math_Min_Fin [simp]: "math_Min (Fin a) (Fin b) = Fin (min a b)"
  by (simp add: math_Min_def min_def)

lemma math_Max_ge: "\<lbrakk>x \<noteq> NaN; y \<noteq> NaN\<rbrakk> \<Longrightarrow> x \<le> math_Max x y \<and> y \<le> math_Max x y"
  by (cases x; cases y) (auto simp: math_Max_def)

lemma f64_between_Fin:
  "\<lbrakk>Fin a \<le> x; x \<le> Fin b\<rbrakk> \<Longrightarrow> \<exists>s. x = Fin s \<and> a \<le> s \<and> s \<le> b"
  by (cases x) auto

lemma f64_round_between:
  assumes "is_f64 (Fin a)" "is_f64 (Fin b)" "a \<le> x" "x \<le> b"
  shows "\<exists>s. f64_round x = Fin s \<and> a \<le> s \<and> s \<le> b"
  by (rule f64_between_Fin) (use assms f64_round_ge f64_round_le in blast)+

lemma f64_round_unit:
  "\<lbrakk>0 \<le> x; x \<le> 1\<rbrakk> \<Longrightarrow> \<exists>s. f64_round x = Fin s \<and> 0 \<le> s \<and> s \<le> 1"
  by (rule f64_round_between) simp_all

lemma f64_round_one_two:
  "\<lbrakk>1 \<le> x; x \<le> 2\<rbrakk> \<Longrightarrow> \<exists>s. f64_round x = Fin s \<and> 1 \<le> s \<and> s \<le> 2"
  by (rule f64_round_between) simp_all

lemma math_Hypot_Fin:
  assumes "0 \<le> b" "b \<le> a" "0 < a"
  shows "\<exists>s. 1 \<le> s \<and> s \<le> 2 \<and> math_Hypot (Fin a) (Fin b) = f64_round (a * s) \<and>
             math_Hypot (Fin b) (Fin a) = f64_round (a * s)"
proof -
  obtain t where t: "f64_round (b / a) = Fin t" "0 \<le> t" "t \<le> 1"
    using f64_round_unit [of "b / a"] assms by auto
  obtain q where q: "f64_round (t * t) = Fin q" "0 \<le> q" "q \<le> 1"
    using f64_round_unit [of "t * t"] t(2,3) by (auto simp: mult_le_one)
  obtain w where w: "f64_round (1 + q) = Fin w" "1 \<le> w" "w \<le> 2"
    using f64_round_one_two [of "1 + q"] q(2,3) by auto
  have "sqrt w \<le> 2" using w(2,3) real_sqrt_le_mono [of w 4] by simp
  then obtain s where s: "f64_round (sqrt w) = Fin s" "1 \<le> s" "s \<le> 2"
    using f64_round_one_two [of "sqrt w"] w(2) by auto
  have "math_Hypot (Fin a) (Fin b) = f64_round (a * s)"
      "math_Hypot (Fin b) (Fin a) = f64_round (a * s)"
    using assms t q w s by (auto simp: math_Hypot_def Let_def one_f64_def f64_eq_def)
  then show ?thesis using s(2,3) by blast
qed

lemma math_Hypot_ge1:
  assumes "1 \<le> x" "y \<noteq> NaN"
  shows "1 \<le> math_Hypot x y"
proof (cases x)
  case (Fin a)
  show ?thesis
  proof (cases y)
    case y: (Fin b)
    let ?a = "max a \<bar>b\<bar>" and ?b = "min a \<bar>b\<bar>"
    have a: "1 \<le> a" using assms(1) Fin by simp
    obtain s where s: "1 \<le> s" "math_Hypot (Fin ?a) (Fin ?b) = f64_round (?a * s)"
        "math_Hypot (Fin ?b) (Fin ?a) = f64_round (?a * s)"
      using math_Hypot_Fin [of ?b ?a] a by force
    have "math_Hypot x y = math_Hypot (Fin a) (Fin \<bar>b\<bar>)"
      using a by (simp add: Fin y math_Hypot_def)
    then have "math_Hypot x y = f64_round (?a * s)"
      using s by (auto simp: max_def min_def split: if_splits)
    moreover have "1 \<le> ?a * s" using mult_mono [of 1 ?a 1 s] a s(1) by simp
    ultimately show ?thesis using f64_round_mono [of 1 "?a * s"] by (simp add: one_f64_def)
  qed (use Fin assms in \<open>auto simp: math_Hypot_def one_f64_def\<close>)
qed (use assms in \<open>auto simp: math_Hypot_def one_f64_def\<close>)

lemma f64_round_two_power: "k \<le> 1000 \<Longrightarrow> f64_round (2 ^ k) = Fin (2 ^ k)"
proof (rule f64_round_exact [of _ 1 "int k"])
  assume "k \<le> 1000"
  then have "(2::real) ^ k \<le> 2 ^ 1000" by (intro power_increasing) simp_all
  also have "\<dots> < f64_threshold" by (simp add: f64_threshold_def)
  finally show "\<bar>2 ^ k :: real\<bar> < f64_threshold" by simp
qed simp_all

lemma math_Hypot_range:
  assumes "0 \<le> a" "a \<le> 2 ^ k" "1 \<le> b" "b \<le> 2 ^ k" "k < 1000"
  shows "\<exists>r. math_Hypot (Fin a) (Fin b) = Fin r \<and> math_Hypot (Fin b) (Fin a) = Fin r \<and> 1 \<le> r \<and> r \<le> 2 ^ Suc k"
proof -
  let ?a = "max a b" and ?b = "min a b"
  have "0 \<le> ?b" "?b \<le> ?a" "0 < ?a" using assms by auto
  then obtain s where s: "1 \<le> s" "s \<le> 2" "math_Hypot (Fin ?a) (Fin ?b) = f64_round (?a * s)"
      "math_Hypot (Fin ?b) (Fin ?a) = f64_round (?a * s)"
    using math_Hypot_Fin by blast
  have "1 \<le> ?a * s" using mult_mono [of 1 ?a 1 s] assms(3) s(1) by simp
  moreover have "?a * s \<le> 2 ^ k * 2" using assms s(1,2) by (intro mult_mono) auto
  ultimately obtain r where "f64_round (?a * s) = Fin r" "1 \<le> r" "r \<le> 2 ^ Suc k"
    using f64_round_between [of 1 "2 ^ Suc k" "?a * s"] f64_round_two_power [of "Suc k"] assms(5) by auto
  then show ?thesis using s(3,4) by (auto simp: max_def min_def split: if_splits)
qed

lemma math_Hypot_not_NaN:
  assumes "x \<noteq> NaN" "y \<noteq> NaN"
  shows "math_Hypot x y \<noteq> NaN"
proof (cases "\<exists>a b. x = Fin a \<and> y = Fin b")
  case True
  then obtain a b where ab: "x = Fin a" "y = Fin b" by blast
  let ?a = "max \<bar>a\<bar> \<bar>b\<bar>" and ?b = "min \<bar>a\<bar> \<bar>b\<bar>"
  have eq: "math_Hypot x y = math_Hypot (Fin \<bar>a\<bar>) (Fin \<bar>b\<bar>)"
    by (simp add: ab math_Hypot_def)
  show ?thesis
  proof (cases "?a = 0")
    case True
    then have "a = 0" "b = 0" by auto
    then show ?thesis unfolding eq by (simp add: math_Hypot_def f64_eq_def zero_f64_def)
  next
    case False
    then have "0 \<le> ?b" "?b \<le> ?a" "0 < ?a" by linarith+
    then obtain s where "math_Hypot (Fin ?a) (Fin ?b) = f64_round (?a * s)"
        "math_Hypot (Fin ?b) (Fin ?a) = f64_round (?a * s)"
      using math_Hypot_Fin by blast
    then show ?thesis using eq by (auto simp: max_def min_def split: if_splits)
  qed
next
  case False
  then show ?thesis using assms by (cases x; cases y) (auto simp: math_Hypot_def)
qed

lemma f64_div_antimono:
  assumes "0 \<le> c" "0 < y" "y \<le> x"
  shows "f64_round (c / x) \<le> f64_round (c / y)"
  by (rule f64_round_mono) (use assms in \<open>simp add: frac_le\<close>)

text \<open>Sign facts that tolerate a NaN, as the accumulating loops need them.\<close>

definition f64_nneg :: "f64 \<Rightarrow> bool" where "f64_nneg x \<longleftrightarrow> x = NaN \<or> 0 \<le> x"
definition f64_npos :: "f64 \<Rightarrow> bool" where "f64_npos x \<longleftrightarrow> x = NaN \<or> x \<le> 0"

lemma f64_nneg_add: "f64_nneg x \<Longrightarrow> f64_nneg y \<Longrightarrow> f64_nneg (x + y)"
  by (auto simp: f64_nneg_def intro: f64_add_nonneg)

lemma f64_npos_add: "f64_npos x \<Longrightarrow> f64_npos y \<Longrightarrow> f64_npos (x + y)"
  using f64_round_mono [of _ 0]
  by (cases x; cases y) (auto simp: f64_npos_def zero_f64_def)

lemma f64_sign_0 [simp]: "f64_nneg 0" "f64_npos 0"
  by (simp_all add: f64_nneg_def f64_npos_def)

section \<open>Linear interpolation\<close>

lemma f64_value_grid:
  assumes "f64_round r = Fin r" "0 \<le> r"
  shows "\<exists>k :: int. r = of_int k * 2 powi (-1074)"
proof (cases "r = 0")
  case False
  then have "r = round_mag r" "r < f64_threshold" using assms by (auto simp: f64_round_pos split: if_splits)
  then show ?thesis using round_mag_grid [of r] assms(2) threshold_below by auto
qed auto

lemma f64_sub_exact_small:
  assumes "f64_round a = Fin a" "f64_round b = Fin b" "0 \<le> a" "a \<le> b" "b - a \<le> 2 powi (-1021)"
  shows "f64_round (b - a) = Fin (b - a)"
proof -
  obtain j k :: int where jk: "a = of_int j * 2 powi (-1074)" "b = of_int k * 2 powi (-1074)"
    using f64_value_grid assms by (metis order.trans)
  then have ba: "b - a = of_int (k - j) * 2 powi (-1074)" by (simp add: left_diff_distrib)
  have pos: "(0::real) < 2 powi (-1074)" by simp
  have "of_int 0 * (2::real) powi (-1074) \<le> of_int (k - j) * 2 powi (-1074)" using assms(4) ba by simp
  then have "0 \<le> k - j" using mult_right_le_imp_le [OF _ pos] by (metis of_int_le_iff)
  moreover have "of_int (k - j) * (2::real) powi (-1074) \<le> of_int (2 ^ 53) * 2 powi (-1074)"
    using assms(5) ba by simp
  then have "k - j \<le> 2 ^ 53" using mult_right_le_imp_le [OF _ pos] by (metis of_int_le_iff)
  moreover have "\<bar>b - a\<bar> < f64_threshold"
  proof -
    have "(2::real) powi (-1021) \<le> 1" by (simp add: power_int_minus)
    then show ?thesis using assms(4,5) by (simp add: f64_threshold_def)
  qed
  ultimately show ?thesis using ba by (intro f64_round_exact [of _ "k - j" "-1074"]) auto
qed

lemma f64_round_rel:
  assumes "2 powi (-1021) \<le> x" "f64_round x = Fin y"
  shows "y \<le> x * (1 + 1 / 2 ^ 53)"
proof -
  have "(0::real) < 2 powi (-1021)" by simp
  then have "0 < x" using assms(1) by linarith
  then show ?thesis
    using assms round_mag_rel [of x] threshold_below by (auto simp: f64_round_pos split: if_splits)
qed

lemma f64_interpolate_le:
  assumes ab: "f64_round a = Fin a" "f64_round b = Fin b" "0 \<le> a" "a \<le> b" and q: "0 \<le> q" "q \<le> 1 - 1 / 2 ^ 52"
    and d: "f64_round (b - a) = Fin d" and e: "f64_round (d * q) = Fin e"
  shows "a + e \<le> b"
proof (cases "b - a \<le> 2 powi (-1021)")
  case True
  then have "d = b - a" using f64_sub_exact_small [OF ab True] d by simp
  then have "d * q \<le> d" using q ab(4) by (simp add: mult_left_le)
  then have "e \<le> d" using f64_round_le [of d "d * q"] f64_round_idem [OF d] e by simp
  then show ?thesis using \<open>d = b - a\<close> by simp
next
  case False
  then have big: "2 powi (-1021) < b - a" by simp
  have d1: "d \<le> (b - a) * (1 + 1 / 2 ^ 53)" using f64_round_rel [OF less_imp_le [OF big] d] .
  have "d * q \<le> (b - a) * (1 + 1 / 2 ^ 53) * (1 - 1 / 2 ^ 52)"
    using mult_mono [OF d1 q(2)] ab(4) q(1) by simp
  show ?thesis
  proof (cases "2 powi (-1021) \<le> d * q")
    case True
    have "e \<le> d * q * (1 + 1 / 2 ^ 53)" using f64_round_rel [OF True e] .
    also have "\<dots> \<le> (b - a) * (1 + 1 / 2 ^ 53) * (1 - 1 / 2 ^ 52) * (1 + 1 / 2 ^ 53)"
      using \<open>d * q \<le> (b - a) * (1 + 1 / 2 ^ 53) * (1 - 1 / 2 ^ 52)\<close> by (rule mult_right_mono) simp
    also have "\<dots> = (b - a) * ((1 + 1 / 2 ^ 53) * (1 - 1 / 2 ^ 52) * (1 + 1 / 2 ^ 53))" by (simp add: mult_ac)
    also have "\<dots> \<le> (b - a) * 1" by (rule mult_left_mono) (use ab(4) in \<open>simp_all add: field_simps\<close>)
    finally show ?thesis by simp
  next
    case False
    have "f64_round (2 powi (-1021)) = Fin (2 powi (-1021))"
      by (rule f64_round_exact [of _ 1 "-1021"]) (simp_all add: f64_threshold_def power_int_minus)
    then have "Fin e \<le> Fin (2 powi (-1021))" using f64_round_mono [of "d * q" "2 powi (-1021)"] False e by simp
    then show ?thesis using big by simp
  qed
qed

end
