(* ===== verification/Rating_Types.thy ===== *)
theory Rating_Types
  imports Go_Float
begin

text \<open>
  \<^verbatim>\<open>pkg/rating/types.go\<close>: estimates, optional gameplay features, participant results and finalized
  match results, with their validation. A nil pointer field is \<open>None\<close>; \<^verbatim>\<open>uint64\<close> counters are
  64-bit words, \<^verbatim>\<open>int64\<close> and \<^verbatim>\<open>int\<close> fields are integers.
\<close>

definition MinRoomSize :: nat where "MinRoomSize = 5"
definition MaxRoomSize :: nat where "MaxRoomSize = 7"

lemmas room_size_defs = MinRoomSize_def MaxRoomSize_def

record Estimate =
  est_Mean :: f64
  est_Uncertainty :: f64
  est_PerformanceDeviation :: "f64 option"
  est_Games :: "64 word"
  est_ModelVersion :: string
  est_UpdatedAt :: time

definition Estimate_Validate :: "Estimate \<Rightarrow> error" where
  "Estimate_Validate e =
     (if \<not> f64_finite (est_Mean e) \<or> \<not> f64_finite (est_Uncertainty e) \<or> est_Uncertainty e \<le> 0
      then Some (ErrorsNew ''rating requires a finite mean and positive finite uncertainty'')
      else if (case est_PerformanceDeviation e of None \<Rightarrow> False
               | Some d \<Rightarrow> \<not> f64_finite d \<or> d < 0)
      then Some (ErrorsNew ''performance deviation must be finite and non-negative'')
      else if est_ModelVersion e = '''' \<or> IsZero (est_UpdatedAt e)
      then Some (ErrorsNew ''rating model version and update time are required'')
      else None)"

record Features =
  feat_Score :: "int option"
  feat_ElapsedMillis :: "int option"
  feat_Completed :: "bool option"
  feat_Moves :: "int option"
  feat_UndoMoves :: "int option"
  feat_RevealedCards :: "int option"

fun negativeField :: "int option \<Rightarrow> bool" where
  "negativeField None = False"
| "negativeField (Some v) = (v < 0)"

definition Features_Validate :: "Features \<Rightarrow> error" where
  "Features_Validate f =
     (if negativeField (feat_ElapsedMillis f)
      then Some (ErrorsNew ''elapsed milliseconds must be non-negative'')
      else if negativeField (feat_Moves f) then Some (ErrorsNew ''moves must be non-negative'')
      else if negativeField (feat_UndoMoves f) then Some (ErrorsNew ''undo moves must be non-negative'')
      else if negativeField (feat_RevealedCards f)
      then Some (ErrorsNew ''revealed cards must be non-negative'')
      else None)"

record ParticipantResult =
  pr_PlayerID :: string
  pr_Place :: int
  pr_Features :: Features

record MatchResult =
  mr_EventID :: string
  mr_RoomID :: string
  mr_ModeID :: string
  mr_DeckID :: string
  mr_ScoringRulesVersion :: string
  mr_FinishedAt :: time
  mr_AvailableAt :: time
  mr_Participants :: "ParticipantResult list"

text \<open>
  The participant loop of \<^verbatim>\<open>MatchResult.Validate\<close>: the players seen so far, whether a first place was
  seen, and the room size \<open>n\<close>; it returns the final \<^verbatim>\<open>hasWinner\<close>.
\<close>

fun validateParticipants ::
  "nat \<Rightarrow> string list \<Rightarrow> bool \<Rightarrow> ParticipantResult list \<Rightarrow> bool result" where
  "validateParticipants n players hasWinner [] = Inr hasWinner"
| "validateParticipants n players hasWinner (p # ps) =
     (if pr_PlayerID p = ''''
      then Inl (ErrorsNew ''rating result participant player id is required'')
      else if pr_PlayerID p \<in> set players
      then Inl (Errorf ''rating result contains duplicate player %q'' [ArgS (pr_PlayerID p)] None)
      else if pr_Place p < 1 \<or> int n < pr_Place p
      then Inl (Errorf ''rating result place for player %q is outside the room'' [ArgS (pr_PlayerID p)] None)
      else guardE (wrapE ''rating result features for player %q: %w'' [ArgS (pr_PlayerID p)]
                     (Features_Validate (pr_Features p)))
             (validateParticipants n (pr_PlayerID p # players) (hasWinner \<or> pr_Place p = 1) ps))"

definition MatchResult_Validate :: "MatchResult \<Rightarrow> error" where
  "MatchResult_Validate r =
     (if mr_EventID r = '''' \<or> mr_RoomID r = '''' \<or> mr_ModeID r = '''' \<or> mr_DeckID r = ''''
         \<or> mr_ScoringRulesVersion r = ''''
      then Some (ErrorsNew ''rating result identifiers and scoring rules version are required'')
      else if IsZero (mr_FinishedAt r) \<or> IsZero (mr_AvailableAt r)
         \<or> Before (mr_AvailableAt r) (mr_FinishedAt r)
      then Some (ErrorsNew ''rating result requires valid finish and availability times'')
      else if length (mr_Participants r) < MinRoomSize \<or> MaxRoomSize < length (mr_Participants r)
      then Some (Errorf ''rating result requires %d to %d participants''
                   [ArgI (int MinRoomSize), ArgI (int MaxRoomSize)] None)
      else (case validateParticipants (length (mr_Participants r)) [] False (mr_Participants r) of
              Inl e \<Rightarrow> Some e
            | Inr hasWinner \<Rightarrow>
                if \<not> hasWinner
                then Some (ErrorsNew ''rating result requires at least one first-place participant'')
                else None))"

section \<open>What validation establishes\<close>

lemma Estimate_Validate_None:
  "Estimate_Validate e = None \<longleftrightarrow>
     f64_finite (est_Mean e) \<and> f64_finite (est_Uncertainty e) \<and> 0 < est_Uncertainty e \<and>
     (\<forall>d. est_PerformanceDeviation e = Some d \<longrightarrow> f64_finite d \<and> 0 \<le> d) \<and>
     est_ModelVersion e \<noteq> '''' \<and> est_UpdatedAt e \<noteq> 0"
  by (auto simp: Estimate_Validate_def f64_finite_le split: option.splits)

lemma Features_Validate_None:
  "Features_Validate f = None \<longleftrightarrow>
     \<not> negativeField (feat_ElapsedMillis f) \<and> \<not> negativeField (feat_Moves f) \<and>
     \<not> negativeField (feat_UndoMoves f) \<and> \<not> negativeField (feat_RevealedCards f)"
  by (simp add: Features_Validate_def)

lemma validateParticipants_Inr:
  "validateParticipants n seen w ps = Inr w' \<longleftrightarrow>
     (\<forall>p \<in> set ps. pr_PlayerID p \<noteq> '''' \<and> 1 \<le> pr_Place p \<and> pr_Place p \<le> int n
        \<and> Features_Validate (pr_Features p) = None) \<and>
     distinct (map pr_PlayerID ps) \<and> set (map pr_PlayerID ps) \<inter> set seen = {} \<and>
     w' = (w \<or> (\<exists>p \<in> set ps. pr_Place p = 1))"
  by (induction ps arbitrary: seen w) auto

text \<open>
  The declarative reading of \<^verbatim>\<open>MatchResult.Validate\<close>: it accepts exactly the complete results of five
  to seven distinct, named players whose places lie in the room and include a first place.
\<close>

definition completeResult :: "MatchResult \<Rightarrow> bool" where
  "completeResult r \<longleftrightarrow>
     '''' \<notin> {mr_EventID r, mr_RoomID r, mr_ModeID r, mr_DeckID r, mr_ScoringRulesVersion r} \<and>
     mr_FinishedAt r \<noteq> 0 \<and> mr_AvailableAt r \<noteq> 0 \<and> mr_FinishedAt r \<le> mr_AvailableAt r \<and>
     length (mr_Participants r) \<in> {5..7} \<and>
     distinct (map pr_PlayerID (mr_Participants r)) \<and>
     (\<exists>p \<in> set (mr_Participants r). pr_Place p = 1) \<and>
     (\<forall>p \<in> set (mr_Participants r). pr_PlayerID p \<noteq> '''' \<and>
        pr_Place p \<in> {1..int (length (mr_Participants r))} \<and>
        Features_Validate (pr_Features p) = None)"

lemma validateParticipants_Inl:
  "validateParticipants n [] False ps = Inl e \<Longrightarrow>
     \<not> ((\<forall>p \<in> set ps. pr_PlayerID p \<noteq> '''' \<and> 1 \<le> pr_Place p \<and> pr_Place p \<le> int n
        \<and> Features_Validate (pr_Features p) = None) \<and> distinct (map pr_PlayerID ps))"
  using validateParticipants_Inr [of n "[]" False ps "\<exists>p \<in> set ps. pr_Place p = 1"] by auto

lemma MatchResult_Validate_complete: "MatchResult_Validate r = None \<longleftrightarrow> completeResult r"
  by (auto simp: MatchResult_Validate_def completeResult_def validateParticipants_Inr room_size_defs
      split: sum.splits if_splits dest!: validateParticipants_Inl)

end
