(* ===== verification/Rating_Baseline.thy ===== *)
theory Rating_Baseline
  imports Rating_Types
begin

text \<open>
  \<^verbatim>\<open>pkg/rating/baseline.go\<close>: the configuration of the placement baseline, its validation, and the
  update of Gaussian skill estimates from one finalized room. A \<^verbatim>\<open>*Baseline\<close> is its configuration.
  \<^verbatim>\<open>math.Exp\<close> is the parameter \<open>Exp\<close> of the definitions that reach it; the interface \<open>go_exp\<close> states
  what the update relies on.
\<close>

section \<open>Configuration\<close>

record BaselineConfig =
  bc_Version :: string
  bc_InitialMean :: f64
  bc_InitialUncertainty :: f64
  bc_MinimumUncertainty :: f64
  bc_MaximumUncertainty :: f64
  bc_DefaultPerformanceDeviation :: f64

definition DefaultBaselineConfig :: "string \<Rightarrow> BaselineConfig" where
  "DefaultBaselineConfig version =
     \<lparr>bc_Version = version,
      bc_InitialMean = Fin 25,
      bc_InitialUncertainty = f64_round (25 / 3),
      bc_MinimumUncertainty = Fin 1,
      bc_MaximumUncertainty = Fin 25,
      bc_DefaultPerformanceDeviation = f64_round (25 / 6)\<rparr>"

definition positiveFinite :: "f64 \<Rightarrow> bool" where
  "positiveFinite v \<longleftrightarrow> 0 < v \<and> f64_finite v"

definition BaselineConfig_validate :: "BaselineConfig \<Rightarrow> error" where
  "BaselineConfig_validate c =
     (if bc_Version c = '''' then Some (ErrorsNew ''baseline rating model version is required'')
      else if \<not> f64_finite (bc_InitialMean c)
      then Some (ErrorsNew ''baseline initial mean must be finite'')
      else if \<not> positiveFinite (bc_InitialUncertainty c) \<or> \<not> positiveFinite (bc_MinimumUncertainty c)
         \<or> \<not> positiveFinite (bc_MaximumUncertainty c)
      then Some (ErrorsNew ''baseline uncertainty values must be positive and finite'')
      else if bc_InitialUncertainty c < bc_MinimumUncertainty c
         \<or> bc_MaximumUncertainty c < bc_InitialUncertainty c
      then Some (ErrorsNew ''baseline uncertainty bounds must contain the initial uncertainty'')
      else if \<not> positiveFinite (bc_DefaultPerformanceDeviation c)
      then Some (ErrorsNew ''baseline performance deviation must be positive and finite'')
      else None)"

definition NewBaseline :: "BaselineConfig \<Rightarrow> BaselineConfig result" where
  "NewBaseline c = guardE (BaselineConfig_validate c) (Inr c)"

definition InitialEstimate :: "BaselineConfig \<Rightarrow> time \<Rightarrow> Estimate result" where
  "InitialEstimate b at0 =
     (if IsZero at0 then Inl (ErrorsNew ''initial rating timestamp is required'')
      else Inr \<lparr>est_Mean = bc_InitialMean b,
                est_Uncertainty = bc_InitialUncertainty b,
                est_PerformanceDeviation = None,
                est_Games = 0,
                est_ModelVersion = bc_Version b,
                est_UpdatedAt = at0\<rparr>)"

definition cloneEstimate :: "Estimate \<Rightarrow> Estimate" where
  "cloneEstimate e = e"

definition Baseline_validateEstimate :: "BaselineConfig \<Rightarrow> string \<Rightarrow> Estimate \<Rightarrow> error" where
  "Baseline_validateEstimate b playerID e =
     andthenE (wrapE ''pre-game rating for player %q: %w'' [ArgS playerID] (Estimate_Validate e))
      (if est_ModelVersion e \<noteq> bc_Version b
       then Some (Errorf ''pre-game rating for player %q uses model %q, want %q''
                    [ArgS playerID, ArgS (est_ModelVersion e), ArgS (bc_Version b)] None)
       else if est_Uncertainty e < bc_MinimumUncertainty b \<or> bc_MaximumUncertainty b < est_Uncertainty e
       then Some (Errorf ''pre-game uncertainty for player %q is outside model bounds'' [ArgS playerID] None)
       else None)"

section \<open>One pairwise comparison\<close>

definition deviationOr :: "f64 \<Rightarrow> Estimate \<Rightarrow> f64" where
  "deviationOr fallback e =
     (case est_PerformanceDeviation e of None \<Rightarrow> fallback | Some d \<Rightarrow> d)"

definition comparisonScale :: "Estimate \<Rightarrow> Estimate \<Rightarrow> f64 \<Rightarrow> f64" where
  "comparisonScale left right fallbackDeviation =
     (let leftDeviation = deviationOr fallbackDeviation left;
          rightDeviation = deviationOr fallbackDeviation right;
          skillScale = math_Hypot (est_Uncertainty left) (est_Uncertainty right);
          performanceScale = math_Hypot leftDeviation rightDeviation
      in math_Hypot skillScale performanceScale)"

definition pairwiseOutcome :: "int \<Rightarrow> int \<Rightarrow> f64" where
  "pairwiseOutcome place opponentPlace =
     (if place < opponentPlace then Fin 1 else if opponentPlace < place then Fin 0 else Fin (1 / 2))"

definition logistic :: "(f64 \<Rightarrow> f64) \<Rightarrow> f64 \<Rightarrow> f64" where
  "logistic Exp value =
     (if 0 \<le> value then 1 / (1 + Exp (- value))
      else let exponential = Exp value in exponential / (1 + exponential))"

section \<open>The update\<close>

record RatingUpdate =
  ru_PlayerID :: string
  ru_SourceEventID :: string
  ru_ModelVersion :: string
  ru_Before :: Estimate
  ru_After :: Estimate
  ru_ProcessedAt :: time

definition strCompare :: "string \<Rightarrow> string \<Rightarrow> int" where
  "strCompare a b = (if a < b then -1 else if b < a then 1 else 0)"

definition compareParticipantID :: "ParticipantResult \<Rightarrow> ParticipantResult \<Rightarrow> int" where
  "compareParticipantID a other = strCompare (pr_PlayerID a) (pr_PlayerID other)"

text \<open>Reading a key that is absent from a Go map of structs gives the zero struct.\<close>

definition zeroEstimate :: Estimate where
  "zeroEstimate = \<lparr>est_Mean = 0, est_Uncertainty = 0, est_PerformanceDeviation = None, est_Games = 0,
     est_ModelVersion = '''', est_UpdatedAt = 0\<rparr>"

definition estimateAt :: "(string \<rightharpoonup> Estimate) \<Rightarrow> string \<Rightarrow> Estimate" where
  "estimateAt m k = (case m k of None \<Rightarrow> zeroEstimate | Some e \<Rightarrow> e)"

fun loadBefore ::
  "BaselineConfig \<Rightarrow> (string \<rightharpoonup> Estimate) \<Rightarrow> ParticipantResult list \<Rightarrow> (string \<rightharpoonup> Estimate)
     \<Rightarrow> (string \<rightharpoonup> Estimate) result" where
  "loadBefore b estimates [] before = Inr before"
| "loadBefore b estimates (p # ps) before =
     (case estimates (pr_PlayerID p) of
        None \<Rightarrow> Inl (Errorf ''pre-game rating for player %q is required'' [ArgS (pr_PlayerID p)] None)
      | Some estimate \<Rightarrow>
          guardE (Baseline_validateEstimate b (pr_PlayerID p) estimate)
            (if est_Games estimate = - 1
             then Inl (Errorf ''pre-game count for player %q cannot be incremented''
                         [ArgS (pr_PlayerID p)] None)
             else loadBefore b estimates ps (before(pr_PlayerID p \<mapsto> cloneEstimate estimate))))"

text \<open>The body of the inner loop over opponents: the accumulated gradient and information.\<close>

definition opponentStep ::
  "(f64 \<Rightarrow> f64) \<Rightarrow> BaselineConfig \<Rightarrow> (string \<rightharpoonup> Estimate) \<Rightarrow> ParticipantResult
     \<Rightarrow> ParticipantResult \<Rightarrow> f64 \<times> f64 \<Rightarrow> f64 \<times> f64" where
  "opponentStep Exp b before participant opponent acc =
     (case acc of (gradient, information) \<Rightarrow>
        if pr_PlayerID opponent = pr_PlayerID participant then (gradient, information)
        else
          let current = estimateAt before (pr_PlayerID participant);
              opponentEstimate = estimateAt before (pr_PlayerID opponent);
              scale = comparisonScale current opponentEstimate (bc_DefaultPerformanceDeviation b);
              probability = logistic Exp ((est_Mean current - est_Mean opponentEstimate) / scale);
              outcome = pairwiseOutcome (pr_Place participant) (pr_Place opponent)
          in (gradient + (outcome - probability) / scale,
              information + probability * (1 - probability) / (scale * scale)))"

definition posteriorVariance :: "f64 \<Rightarrow> f64 \<Rightarrow> f64" where
  "posteriorVariance uncertainty information =
     (let priorVariance = uncertainty * uncertainty in 1 / (1 / priorVariance + information))"

definition updateParticipant ::
  "(f64 \<Rightarrow> f64) \<Rightarrow> BaselineConfig \<Rightarrow> MatchResult \<Rightarrow> (string \<rightharpoonup> Estimate) \<Rightarrow> ParticipantResult list
     \<Rightarrow> time \<Rightarrow> ParticipantResult \<Rightarrow> RatingUpdate result" where
  "updateParticipant Exp b r before participants processedAt participant =
     (let current = estimateAt before (pr_PlayerID participant);
          (gradient, information) = fold (opponentStep Exp b before participant) participants (0, 0);
          variance = posteriorVariance (est_Uncertainty current) information;
          mean = est_Mean current + variance * gradient
      in if \<not> f64_finite mean
         then Inl (Errorf ''rating update for player %q produced a non-finite mean''
                     [ArgS (pr_PlayerID participant)] None)
         else Inr \<lparr>ru_PlayerID = pr_PlayerID participant,
                   ru_SourceEventID = mr_EventID r,
                   ru_ModelVersion = bc_Version b,
                   ru_Before = cloneEstimate current,
                   ru_After = (cloneEstimate current)
                     \<lparr>est_Mean := mean,
                      est_Uncertainty := math_Max (bc_MinimumUncertainty b) (math_Sqrt variance),
                      est_Games := est_Games current + 1,
                      est_UpdatedAt := processedAt\<rparr>,
                   ru_ProcessedAt = processedAt\<rparr>)"

definition Baseline_Update ::
  "(f64 \<Rightarrow> f64) \<Rightarrow> BaselineConfig \<Rightarrow> MatchResult \<Rightarrow> (string \<rightharpoonup> Estimate) \<Rightarrow> time
     \<Rightarrow> RatingUpdate list result" where
  "Baseline_Update Exp b r estimates processedAt =
     guardE (MatchResult_Validate r)
      (if IsZero processedAt \<or> Before processedAt (mr_AvailableAt r)
       then Inl (ErrorsNew ''rating processing time must be at or after result availability'')
       else
         let participants = sort_cmp compareParticipantID (mr_Participants r)
         in rbind (loadBefore b estimates participants Map.empty)
              (\<lambda>before. mapR (updateParticipant Exp b r before participants processedAt) participants))"

section \<open>Sorting by player id\<close>

lemma strCompare_le: "strCompare a b \<le> 0 \<longleftrightarrow> a \<le> b"
  by (auto simp: strCompare_def)

lemma strCompare_ge: "0 \<le> strCompare a b \<longleftrightarrow> b \<le> a"
  by (auto simp: strCompare_def)

interpretation byPlayerID: go_compare compareParticipantID UNIV
  by unfold_locales (auto simp: compareParticipantID_def strCompare_le strCompare_ge)

lemma sorted_participants:
  "sorted (map pr_PlayerID (sort_cmp compareParticipantID ps))"
  using byPlayerID.sorted_sort_cmp [of ps]
  by (simp add: sorted_map sorted_wrt_map compareParticipantID_def strCompare_le)

lemma sort_participants_perm:
  assumes "mset ps = mset qs" "distinct (map pr_PlayerID ps)"
  shows "sort_cmp compareParticipantID ps = sort_cmp compareParticipantID qs"
proof (rule map_sorted_distinct_set_unique)
  let ?s = "sort_cmp compareParticipantID"
  have ms: "mset (map pr_PlayerID (?s ps)) = mset (map pr_PlayerID ps)"
      "mset (map pr_PlayerID (?s qs)) = mset (map pr_PlayerID ps)"
    using assms(1) by simp_all
  show "distinct (map pr_PlayerID (?s ps))" "distinct (map pr_PlayerID (?s qs))"
    using ms assms(2) mset_eq_imp_distinct_iff by blast+
  show "sorted (map pr_PlayerID (?s ps))" "sorted (map pr_PlayerID (?s qs))"
    by (rule sorted_participants)+
  show "set (?s ps) = set (?s qs)"
    using assms(1) by (metis set_mset_mset set_sort_cmp)
  show "inj_on pr_PlayerID (set (?s ps) \<union> set (?s qs))"
    using assms by (metis Un_absorb distinct_map set_mset_mset set_sort_cmp)
qed

section \<open>What the update relies on from \<open>math.Exp\<close>\<close>

locale go_exp =
  fixes Exp :: "f64 \<Rightarrow> f64"
  assumes exp_unit: "x \<le> 0 \<Longrightarrow> 0 \<le> Exp x \<and> Exp x \<le> 1"
    and exp_NaN: "Exp NaN = NaN"
begin

lemma exp_unit_Fin: "x \<le> 0 \<Longrightarrow> \<exists>r. Exp x = Fin r \<and> 0 \<le> r \<and> r \<le> 1"
  using exp_unit [of x] f64_between_Fin [of 0 "Exp x" 1] by (auto simp: zero_f64_def one_f64_def)

lemma logistic_unit:
  assumes "v \<noteq> NaN"
  shows "\<exists>p. logistic Exp v = Fin p \<and> 0 \<le> p \<and> p \<le> 1"
proof (cases "0 \<le> v")
  case True
  then have "- v \<le> 0" by (cases v) (auto simp: zero_f64_def)
  then obtain r where r: "Exp (- v) = Fin r" "0 \<le> r" "r \<le> 1" using exp_unit_Fin by blast
  then obtain s where "f64_round (1 + r) = Fin s" "1 \<le> s" using f64_round_one_two [of "1 + r"] by auto
  then show ?thesis
    using True r f64_round_unit [of "1 / s"] by (auto simp: logistic_def one_f64_def)
next
  case False
  then have "v \<le> 0" using assms by (cases v) (auto simp: zero_f64_def)
  then obtain r where r: "Exp v = Fin r" "0 \<le> r" "r \<le> 1" using exp_unit_Fin by blast
  then obtain s where "f64_round (1 + r) = Fin s" "1 \<le> s" using f64_round_one_two [of "1 + r"] by auto
  then show ?thesis
    using False r f64_round_unit [of "r / s"] by (auto simp: logistic_def one_f64_def)
qed

lemma logistic_NaN: "logistic Exp NaN = NaN"
  by (simp add: logistic_def exp_NaN zero_f64_def one_f64_def divide_f64_def)

end

text \<open>The exponential rounded once: an implementation that meets the interface.\<close>

fun math_Exp_rounded :: "f64 \<Rightarrow> f64" where
  "math_Exp_rounded (Fin x) = f64_round (exp x)"
| "math_Exp_rounded PInf = PInf"
| "math_Exp_rounded NInf = 0"
| "math_Exp_rounded NaN = NaN"

interpretation rounded_exp: go_exp math_Exp_rounded
proof
  fix x :: f64
  assume "x \<le> 0"
  then show "0 \<le> math_Exp_rounded x \<and> math_Exp_rounded x \<le> 1"
  proof (cases x)
    case (Fin r)
    then show ?thesis using f64_round_unit [of "exp r"] \<open>x \<le> 0\<close> by auto
  qed (auto simp: zero_f64_def)
qed simp

section \<open>One comparison keeps the accumulators sane\<close>

definition ratedEstimate :: "Estimate \<Rightarrow> bool" where
  "ratedEstimate e \<longleftrightarrow> Estimate_Validate e = None \<and> 1 \<le> est_Uncertainty e"

lemma comparisonScale_ge1:
  assumes "ratedEstimate l" "ratedEstimate r" "f64_finite d"
  shows "1 \<le> comparisonScale l r d"
proof -
  have nn: "deviationOr d e \<noteq> NaN" if "Estimate_Validate e = None" for e
    using that assms(3) by (auto simp: deviationOr_def Estimate_Validate_None split: option.splits)
  have "1 \<le> math_Hypot (est_Uncertainty l) (est_Uncertainty r)"
    using assms by (intro math_Hypot_ge1) (auto simp: ratedEstimate_def dest: f64_le_not_NaN)
  then show ?thesis
    using nn assms unfolding comparisonScale_def Let_def ratedEstimate_def
    by (intro math_Hypot_ge1 math_Hypot_not_NaN) auto
qed

context go_exp
begin

lemma comparison_probability:
  "logistic Exp v = NaN \<or> (\<exists>p. logistic Exp v = Fin p \<and> 0 \<le> p \<and> p \<le> 1)"
  by (metis logistic_NaN logistic_unit)

lemma information_term_Fin:
  assumes "1 \<le> scale" and q: "p = Fin q" "0 \<le> q" "q \<le> 1"
  shows "0 \<le> p * (1 - p) / (scale * scale)"
proof -
  obtain c where c: "f64_round (1 - q) = Fin c" "0 \<le> c" "c \<le> 1"
    using f64_round_unit [of "1 - q"] q by auto
  obtain n where n: "f64_round (q * c) = Fin n" "0 \<le> n" "n \<le> 1"
    using f64_round_unit [of "q * c"] q c by (auto simp: mult_le_one)
  have num: "p * (1 - p) = Fin n" using q c n by (simp add: one_f64_def)
  have "1 \<le> scale * scale"
  proof (cases scale)
    case (Fin s)
    then have "1 \<le> s * s" using assms(1) mult_mono [of 1 s 1 s] by simp
    then show ?thesis using Fin f64_round_mono [of 1 "s * s"] by (simp add: one_f64_def)
  qed (use assms(1) in \<open>auto simp: one_f64_def times_f64_def signed_inf_def\<close>)
  then show ?thesis
    unfolding num using n
    by (cases "scale * scale") (auto simp: one_f64_def divide_f64_def intro: f64_round_nonneg)
qed

lemma information_term:
  assumes "1 \<le> scale" "p = NaN \<or> (\<exists>q. p = Fin q \<and> 0 \<le> q \<and> q \<le> 1)"
  shows "f64_nneg (p * (1 - p) / (scale * scale))"
  using information_term_Fin [OF assms(1)] assms(2) by (auto simp: f64_nneg_def)

lemma gradient_term:
  assumes "1 \<le> scale" "p = NaN \<or> (\<exists>q. p = Fin q \<and> 0 \<le> q \<and> q \<le> 1)"
  shows "f64_nneg ((Fin 1 - p) / scale)" and "f64_npos ((Fin 0 - p) / scale)"
proof -
  have "f64_nneg ((Fin 1 - p) / scale) \<and> f64_npos ((Fin 0 - p) / scale)"
  proof (cases "p = NaN")
    case False
    then obtain q where q: "p = Fin q" "0 \<le> q" "q \<le> 1" using assms(2) by blast
    obtain c where c: "f64_round (1 - q) = Fin c" "0 \<le> c" using f64_round_unit [of "1 - q"] q by auto
    obtain d where d: "f64_round (- q) = Fin d" "d \<le> 0"
      using f64_round_unit [OF q(2,3)] by (auto simp: f64_round_uminus)
    show ?thesis
      using q c d assms(1) f64_round_mono [of "d / s" 0 for s]
      by (cases scale)
        (auto simp: f64_nneg_def f64_npos_def one_f64_def divide_f64_def zero_f64_def divide_nonpos_pos
          intro: f64_round_nonneg [unfolded zero_f64_def])
  qed (simp add: f64_nneg_def f64_npos_def)
  then show "f64_nneg ((Fin 1 - p) / scale)" and "f64_npos ((Fin 0 - p) / scale)" by blast+
qed

end

lemma loadBefore_Inr:
  "loadBefore b estimates ps before = Inr m \<Longrightarrow>
     (\<forall>p \<in> set ps. \<exists>e. estimates (pr_PlayerID p) = Some e \<and> m (pr_PlayerID p) = Some e \<and>
        Baseline_validateEstimate b (pr_PlayerID p) e = None \<and> est_Games e \<noteq> -1) \<and>
     (\<forall>k. k \<notin> pr_PlayerID ` set ps \<longrightarrow> m k = before k)"
proof (induction ps arbitrary: before)
  case (Cons p ps)
  then obtain e where e: "estimates (pr_PlayerID p) = Some e"
      "Baseline_validateEstimate b (pr_PlayerID p) e = None" "est_Games e \<noteq> -1"
      "loadBefore b estimates ps (before(pr_PlayerID p \<mapsto> e)) = Inr m"
    by (auto simp: cloneEstimate_def split: option.splits if_splits)
  note IH = Cons.IH [OF e(4)]
  show ?case
  proof (cases "pr_PlayerID p \<in> pr_PlayerID ` set ps")
    case True
    then show ?thesis using IH e by auto
  next
    case False
    then have "m (pr_PlayerID p) = Some e" using IH by simp
    then show ?thesis using IH e by auto
  qed
qed simp

lemma Baseline_validateEstimate_None:
  "Baseline_validateEstimate b k e = None \<longleftrightarrow>
     Estimate_Validate e = None \<and> est_ModelVersion e = bc_Version b \<and>
     \<not> est_Uncertainty e < bc_MinimumUncertainty b \<and> \<not> bc_MaximumUncertainty b < est_Uncertainty e"
  by (auto simp: Baseline_validateEstimate_def)

lemma posterior_default_eval:
  "f64_round (1 / 625) = Fin (7378697629483821 / 4611686018427387904)"
  "f64_round (4611686018427387904 / 7378697629483821) = Fin 625"
proof -
  have 1: "round_mag (1 / 625) = 7378697629483821 / 4611686018427387904" by code_simp
  have 2: "round_mag (4611686018427387904 / 7378697629483821) = 625" by code_simp
  show "f64_round (1 / 625) = Fin (7378697629483821 / 4611686018427387904)"
    by (simp add: f64_round_pos 1 f64_threshold_def)
  show "f64_round (4611686018427387904 / 7378697629483821) = Fin 625"
    by (simp add: f64_round_pos 2 f64_threshold_def)
qed

lemma posteriorVariance_default:
  assumes a: "1 \<le> a" "a \<le> 25" and info: "0 \<le> information"
  shows "\<exists>v. posteriorVariance (Fin a) information = Fin v \<and> 0 \<le> v \<and> v \<le> 625"
proof -
  let ?c0 = "7378697629483821 / 4611686018427387904 :: real"
  have c0: "is_f64 (Fin ?c0)" "is_f64 (Fin 625)"
    using f64_round_idem [OF posterior_default_eval(1)] by simp_all
  have "1 \<le> a * a" using mult_mono [of 1 a 1 a] a by simp
  moreover have "a * a \<le> 625" using mult_mono [of a 25 a 25] a by simp
  ultimately obtain b where b: "f64_round (a * a) = Fin b" "1 \<le> b" "b \<le> 625"
    using f64_round_between [of 1 625 "a * a"] by auto
  have "Fin ?c0 \<le> f64_round (1 / b)"
    using f64_div_antimono [of 1 b 625] b by (simp add: posterior_default_eval)
  then obtain c where c: "f64_round (1 / b) = Fin c" "?c0 \<le> c"
    using f64_round_unit [of "1 / b"] b by auto
  have pv: "posteriorVariance (Fin a) information = 1 / (Fin c + information)"
    using b c by (simp add: posteriorVariance_def Let_def one_f64_def)
  have "Fin ?c0 \<le> Fin c + information"
    using info c f64_round_ge [OF c0(1), of "c + i" for i]
    by (cases information) (auto simp: zero_f64_def)
  then show ?thesis
  proof (cases "Fin c + information")
    case (Fin d)
    then have d: "?c0 \<le> d" using \<open>Fin ?c0 \<le> Fin c + information\<close> by simp
    have "f64_round (1 / d) \<le> Fin 625"
      using f64_div_antimono [of 1 ?c0 d] d by (simp add: posterior_default_eval)
    moreover have "Fin 0 \<le> f64_round (1 / d)"
      using f64_round_nonneg [of "1 / d"] d by (simp add: zero_f64_def)
    ultimately have "\<exists>s. f64_round (1 / d) = Fin s \<and> 0 \<le> s \<and> s \<le> 625" by (intro f64_between_Fin)
    then show ?thesis using d by (auto simp: pv Fin one_f64_def)
  qed (auto simp: pv one_f64_def divide_f64_def)
qed

context go_exp
begin

lemma opponents_information:
  assumes "\<And>q. q \<in> set opponents \<Longrightarrow> ratedEstimate (estimateAt before (pr_PlayerID q))"
    and "ratedEstimate (estimateAt before (pr_PlayerID p))"
    and "f64_finite (bc_DefaultPerformanceDeviation b)"
  shows "f64_nneg (snd (fold (opponentStep Exp b before p) opponents (0, 0)))"
proof (rule fold_invariant [where Q = "\<lambda>q. q \<in> set opponents" and P = "\<lambda>acc. f64_nneg (snd acc)"])
  fix x and s :: "f64 \<times> f64"
  assume x: "x \<in> set opponents" and s: "f64_nneg (snd s)"
  show "f64_nneg (snd (opponentStep Exp b before p x s))"
    using s information_term [OF comparisonScale_ge1 [OF assms(2) assms(1) [OF x] assms(3)]
        comparison_probability]
    by (auto simp: opponentStep_def Let_def split: prod.splits intro: f64_nneg_add)
qed auto

lemma winner_gradient:
  assumes rated: "\<And>q. q \<in> set opponents \<Longrightarrow> ratedEstimate (estimateAt before (pr_PlayerID q))"
    and self: "ratedEstimate (estimateAt before (pr_PlayerID p))"
    and dev: "f64_finite (bc_DefaultPerformanceDeviation b)"
    and win: "\<And>q. q \<in> set opponents \<Longrightarrow> pr_PlayerID q \<noteq> pr_PlayerID p \<Longrightarrow> pr_Place p < pr_Place q"
  shows "f64_nneg (fst (fold (opponentStep Exp b before p) opponents (0, 0)))"
proof (rule fold_invariant [where Q = "\<lambda>q. q \<in> set opponents" and P = "\<lambda>acc. f64_nneg (fst acc)"])
  fix x and s :: "f64 \<times> f64"
  assume x: "x \<in> set opponents" and s: "f64_nneg (fst s)"
  show "f64_nneg (fst (opponentStep Exp b before p x s))"
    using s win [OF x] gradient_term(1) [OF comparisonScale_ge1 [OF self rated [OF x] dev]
        comparison_probability]
    by (auto simp: opponentStep_def Let_def pairwiseOutcome_def split: prod.splits intro: f64_nneg_add)
qed auto

lemma loser_gradient:
  assumes rated: "\<And>q. q \<in> set opponents \<Longrightarrow> ratedEstimate (estimateAt before (pr_PlayerID q))"
    and self: "ratedEstimate (estimateAt before (pr_PlayerID p))"
    and dev: "f64_finite (bc_DefaultPerformanceDeviation b)"
    and lose: "\<And>q. q \<in> set opponents \<Longrightarrow> pr_PlayerID q \<noteq> pr_PlayerID p \<Longrightarrow> pr_Place q < pr_Place p"
  shows "f64_npos (fst (fold (opponentStep Exp b before p) opponents (0, 0)))"
proof (rule fold_invariant [where Q = "\<lambda>q. q \<in> set opponents" and P = "\<lambda>acc. f64_npos (fst acc)"])
  fix x and s :: "f64 \<times> f64"
  assume x: "x \<in> set opponents" and s: "f64_npos (fst s)"
  show "f64_npos (fst (opponentStep Exp b before p x s))"
    using s lose [OF x] gradient_term(2) [OF comparisonScale_ge1 [OF self rated [OF x] dev]
        comparison_probability]
    by (auto simp: opponentStep_def Let_def pairwiseOutcome_def split: prod.splits intro: f64_npos_add)
qed auto

end

section \<open>The update as a whole\<close>

lemma Baseline_Update_Inr:
  "Baseline_Update Exp b r estimates t = Inr us \<longleftrightarrow>
     completeResult r \<and> t \<noteq> 0 \<and> mr_AvailableAt r \<le> t \<and>
     (\<exists>before. loadBefore b estimates (sort_cmp compareParticipantID (mr_Participants r)) Map.empty = Inr before \<and>
        mapR (updateParticipant Exp b r before (sort_cmp compareParticipantID (mr_Participants r)) t)
          (sort_cmp compareParticipantID (mr_Participants r)) = Inr us)"
  by (auto simp: Baseline_Update_def MatchResult_Validate_complete Let_def)

lemma loaded_estimate:
  assumes "loadBefore b estimates ps Map.empty = Inr before" "p \<in> set ps"
  shows "estimates (pr_PlayerID p) = Some (estimateAt before (pr_PlayerID p))"
    and "Baseline_validateEstimate b (pr_PlayerID p) (estimateAt before (pr_PlayerID p)) = None"
    and "est_Games (estimateAt before (pr_PlayerID p)) \<noteq> -1"
  using loadBefore_Inr [OF assms(1)] assms(2) by (auto simp: estimateAt_def)

lemma DefaultBaselineConfig_sel [simp]:
  "bc_Version (DefaultBaselineConfig v) = v"
  "bc_MinimumUncertainty (DefaultBaselineConfig v) = Fin 1"
  "bc_MaximumUncertainty (DefaultBaselineConfig v) = Fin 25"
  "bc_DefaultPerformanceDeviation (DefaultBaselineConfig v) = f64_round (25 / 6)"
  by (simp_all add: DefaultBaselineConfig_def)

lemma default_deviation_finite: "f64_finite (f64_round (25 / 6))"
  using f64_round_between [of 4 5 "25 / 6"] by auto

lemma default_estimate_bounds:
  assumes "Baseline_validateEstimate (DefaultBaselineConfig v) k e = None"
  shows "\<exists>a. est_Uncertainty e = Fin a \<and> 1 \<le> a \<and> a \<le> 25" and "ratedEstimate e"
  using assms
  by (cases "est_Uncertainty e"; auto simp: Baseline_validateEstimate_None Estimate_Validate_None ratedEstimate_def)+

lemma unat_Suc_no_wrap: "(w :: 64 word) \<noteq> -1 \<Longrightarrow> unat (w + 1) = unat w + 1"
  by (metis Suc_eq_plus1 add.commute add_eq_0_iff2 unatSuc)

lemma finite_mean_needs_variance: "f64_finite (m + v * g) \<Longrightarrow> v \<noteq> NaN"
  by auto

lemma posteriorVariance_NaN: "posteriorVariance a NaN = NaN"
  by (simp add: posteriorVariance_def Let_def)

lemma default_deviation_step:
  assumes "go_exp Exp" "p \<in> set ps"
    and load: "loadBefore (DefaultBaselineConfig v) estimates ps Map.empty = Inr before"
  shows "f64_nneg (snd (fold (opponentStep Exp (DefaultBaselineConfig v) before p) ps (0, 0)))"
proof (rule go_exp.opponents_information [OF assms(1)])
  show "ratedEstimate (estimateAt before (pr_PlayerID q))" if "q \<in> set ps" for q
    using default_estimate_bounds(2) [OF loaded_estimate(2) [OF load that]] .
  then show "ratedEstimate (estimateAt before (pr_PlayerID p))" using assms(2) .
qed (simp add: default_deviation_finite)

lemma sqrt_posterior_default:
  assumes "0 \<le> v" "v \<le> 625"
  shows "\<exists>s. math_Sqrt (Fin v) = Fin s \<and> 0 \<le> s \<and> s \<le> 25"
proof -
  have "sqrt v \<le> 25" using real_sqrt_le_mono [OF assms(2)] by (simp add: real_sqrt_eq_iff [symmetric])
  then show ?thesis using assms f64_round_between [of 0 25 "sqrt v"] by simp
qed

lemma updateParticipant_default:
  assumes exp: "go_exp Exp" and p: "p \<in> set ps"
    and load: "loadBefore (DefaultBaselineConfig v) estimates ps Map.empty = Inr before"
    and u: "updateParticipant Exp (DefaultBaselineConfig v) r before ps t p = Inr u" and t: "t \<noteq> 0"
  shows "Baseline_validateEstimate (DefaultBaselineConfig v) (pr_PlayerID p) (ru_After u) = None"
    and "\<exists>w. 0 \<le> w \<and> est_Mean (ru_After u) = est_Mean (ru_Before u) +
           Fin w * fst (fold (opponentStep Exp (DefaultBaselineConfig v) before p) ps (0, 0))"
proof -
  let ?b = "DefaultBaselineConfig v" and ?e = "estimateAt before (pr_PlayerID p)"
  obtain g i where gi: "fold (opponentStep Exp ?b before p) ps (0, 0) = (g, i)" by fastforce
  obtain a where a: "est_Uncertainty ?e = Fin a" "1 \<le> a" "a \<le> 25"
    using default_estimate_bounds(1) [OF loaded_estimate(2) [OF load p]] by blast
  have fin: "f64_finite (est_Mean ?e + posteriorVariance (Fin a) i * g)"
    using u a(1) by (auto simp: updateParticipant_def gi Let_def split: if_splits)
  have "i \<noteq> NaN" using finite_mean_needs_variance [OF fin] posteriorVariance_NaN by auto
  then have "0 \<le> i" using default_deviation_step [OF exp p load] by (simp add: gi f64_nneg_def)
  then obtain w where w: "posteriorVariance (Fin a) i = Fin w" "0 \<le> w" "w \<le> 625"
    using posteriorVariance_default [OF a(2,3)] by blast
  obtain s where s: "math_Sqrt (Fin w) = Fin s" "s \<le> 25" using sqrt_posterior_default [OF w(2,3)] by blast
  have after: "ru_After u = ?e \<lparr>est_Mean := est_Mean ?e + Fin w * g, est_Uncertainty := Fin (max 1 s),
      est_Games := est_Games ?e + 1, est_UpdatedAt := t\<rparr>" "ru_Before u = ?e"
    using u a(1) w(1) s(1) by (auto simp: updateParticipant_def gi Let_def cloneEstimate_def split: if_splits)
  show "Baseline_validateEstimate ?b (pr_PlayerID p) (ru_After u) = None"
    using loaded_estimate(2) [OF load p] fin w(1) s(2) t
    by (auto simp: after Baseline_validateEstimate_None Estimate_Validate_None)
  show "\<exists>w. 0 \<le> w \<and> est_Mean (ru_After u) = est_Mean (ru_Before u) +
           Fin w * fst (fold (opponentStep Exp ?b before p) ps (0, 0))"
    using w(2) by (auto simp: after gi)
qed

lemma updateParticipant_Inr:
  "updateParticipant Exp b r before ps t p = Inr u \<Longrightarrow>
     ru_PlayerID u = pr_PlayerID p \<and> ru_Before u = estimateAt before (pr_PlayerID p) \<and>
     ru_SourceEventID u = mr_EventID r \<and> ru_ModelVersion u = bc_Version b \<and> ru_ProcessedAt u = t \<and>
     est_Games (ru_After u) = est_Games (ru_Before u) + 1 \<and> est_UpdatedAt (ru_After u) = t"
  by (auto simp: updateParticipant_def Let_def cloneEstimate_def split: if_splits prod.splits)

lemma Baseline_Update_member:
  assumes "Baseline_Update Exp b r estimates t = Inr us" "u \<in> set us"
  obtains before p where
    "loadBefore b estimates (sort_cmp compareParticipantID (mr_Participants r)) Map.empty = Inr before"
    "p \<in> set (mr_Participants r)"
    "updateParticipant Exp b r before (sort_cmp compareParticipantID (mr_Participants r)) t p = Inr u"
  using assms by (auto simp: Baseline_Update_Inr dest!: mapR_member)

lemma mean_step_sign:
  assumes "is_f64 m" "f64_finite m" "f64_finite (m + Fin w * g)" "0 \<le> w"
  shows "f64_nneg g \<Longrightarrow> m \<le> m + Fin w * g" and "f64_npos g \<Longrightarrow> m + Fin w * g \<le> m"
proof -
  have g: "g \<noteq> NaN" "Fin w * g \<noteq> NaN" using assms(3) by auto
  show "m \<le> m + Fin w * g" if "f64_nneg g"
  proof (rule f64_add_ge)
    show "0 \<le> Fin w * g"
      using that g assms(4) f64_round_nonneg [of "w * x" for x]
      by (cases g) (auto simp: f64_nneg_def zero_f64_def times_f64_def signed_inf_def sgn_if split: if_splits)
  qed (use assms in auto)
  show "m + Fin w * g \<le> m" if "f64_npos g"
  proof (rule f64_add_le)
    show "Fin w * g \<le> 0"
      using that g assms(4) f64_round_mono [of "w * x" 0 for x]
      by (cases g) (auto simp: f64_npos_def zero_f64_def times_f64_def signed_inf_def sgn_if mult_nonneg_nonpos
          split: if_splits)
  qed (use assms in auto)
qed

section \<open>The update returns\<close>

context go_exp
begin

lemma opponentStep_bounded:
  assumes scale: "1 \<le> comparisonScale (estimateAt before (pr_PlayerID p)) (estimateAt before (pr_PlayerID q))
      (bc_DefaultPerformanceDeviation b)"
    and mean: "est_Mean (estimateAt before (pr_PlayerID p)) = Fin m" "\<bar>m\<bar> \<le> 2 ^ 900"
      "est_Mean (estimateAt before (pr_PlayerID q)) = Fin m'" "\<bar>m'\<bar> \<le> 2 ^ 900"
    and acc: "\<bar>g\<bar> \<le> real k" "0 \<le> i" "k < 2 ^ 53"
  shows "\<exists>g' i'. opponentStep Exp b before p q (Fin g, i) = (Fin g', i') \<and> \<bar>g'\<bar> \<le> real (k + 1) \<and> 0 \<le> i'"
proof (cases "pr_PlayerID q = pr_PlayerID p")
  case False
  define s where "s = comparisonScale (estimateAt before (pr_PlayerID p)) (estimateAt before (pr_PlayerID q))
      (bc_DefaultPerformanceDeviation b)"
  have s1: "1 \<le> s" using scale by (simp add: s_def)
  have p901: "f64_round (2 ^ 901) = Fin (2 ^ 901)"
    by (rule f64_round_exact [of _ 1 901]) (simp_all add: f64_threshold_def)
  have "\<exists>d. f64_round (m - m') = Fin d \<and> - (2 ^ 901) \<le> d \<and> d \<le> 2 ^ 901"
    by (rule f64_round_between) (use mean p901 f64_round_uminus [of "2 ^ 901"] in auto)
  then obtain d where d: "f64_round (m - m') = Fin d" "\<bar>d\<bar> \<le> 2 ^ 901" by auto
  have small: "\<exists>c. Fin x / s = Fin c \<and> \<bar>c\<bar> \<le> 2 ^ j" if "f64_round (2 ^ j) = Fin (2 ^ j)" "\<bar>x\<bar> \<le> 2 ^ j" for x j
  proof (cases s)
    case (Fin r)
    then have r: "1 \<le> r" using s1 by simp
    then have "\<bar>x / r\<bar> \<le> 2 ^ j"
      using that(2) frac_le [of "\<bar>x\<bar>" "\<bar>x\<bar>" 1 r] by (simp add: abs_divide)
    then have "- (2 ^ j) \<le> x / r" "x / r \<le> 2 ^ j" by (simp_all only: abs_le_iff) linarith
    then have "\<exists>c. f64_round (x / r) = Fin c \<and> - (2 ^ j) \<le> c \<and> c \<le> 2 ^ j"
      using f64_round_between [of "- (2 ^ j)" "2 ^ j" "x / r"] that(1) f64_round_uminus [of "2 ^ j"] by auto
    then show ?thesis using Fin r by auto
  qed (use s1 in \<open>auto simp: divide_f64_def one_f64_def\<close>)
  obtain c where "Fin d / s = Fin c" using small [OF p901] d by auto
  then obtain pr where pr: "logistic Exp ((Fin m - Fin m') / s) = Fin pr" "0 \<le> pr" "pr \<le> 1"
    using logistic_unit [of "Fin d / s"] d by auto
  obtain oc where oc: "pairwiseOutcome (pr_Place p) (pr_Place q) = Fin oc" "0 \<le> oc" "oc \<le> 1"
    by (rule that [of "if pr_Place p < pr_Place q then 1 else if pr_Place q < pr_Place p then 0 else 1 / 2"])
      (auto simp: pairwiseOutcome_def)
  obtain e where e: "f64_round (oc - pr) = Fin e" "\<bar>e\<bar> \<le> 1"
    using f64_round_between [of "-1" 1 "oc - pr"] oc pr by auto
  obtain h where h: "Fin e / s = Fin h" "\<bar>h\<bar> \<le> 1" using small [of 0 e] e(2) by auto
  have k1: "f64_round (real (k + 1)) = Fin (real (k + 1))" "f64_round (- real (k + 1)) = Fin (- real (k + 1))"
    using f64_round_of_int [of "int (k + 1)"] f64_round_of_int [of "- int (k + 1)"] acc(3) by simp_all
  have bnd: "- real (k + 1) \<le> g + h" "g + h \<le> real (k + 1)" using acc(1) h(2) by linarith+
  have "\<exists>g'. f64_round (g + h) = Fin g' \<and> - real (k + 1) \<le> g' \<and> g' \<le> real (k + 1)"
    by (rule f64_round_between) (use k1 bnd in auto)
  then obtain g' where "f64_round (g + h) = Fin g'" "\<bar>g'\<bar> \<le> real (k + 1)" by fastforce
  moreover have "0 \<le> i + Fin pr * (1 - Fin pr) / (s * s)"
    using f64_add_nonneg [OF acc(2)] information_term_Fin [OF s1 refl pr(2,3)] by blast
  ultimately show ?thesis
    using False mean pr oc e h by (simp add: opponentStep_def Let_def s_def [symmetric])
qed (use acc in \<open>auto simp: opponentStep_def\<close>)

end

context go_exp
begin

lemma opponents_bounded:
  assumes rated: "\<And>q. q \<in> set qs \<Longrightarrow> ratedEstimate (estimateAt before (pr_PlayerID q))"
    and mean: "\<And>q. q \<in> set qs \<Longrightarrow> \<exists>m. est_Mean (estimateAt before (pr_PlayerID q)) = Fin m \<and> \<bar>m\<bar> \<le> 2 ^ 900"
    and self: "ratedEstimate (estimateAt before (pr_PlayerID p))"
      "\<exists>m. est_Mean (estimateAt before (pr_PlayerID p)) = Fin m \<and> \<bar>m\<bar> \<le> 2 ^ 900"
    and dev: "f64_finite (bc_DefaultPerformanceDeviation b)"
    and acc: "\<bar>g\<bar> \<le> real k" "0 \<le> i" "k + length qs \<le> 2 ^ 53"
  shows "\<exists>g' i'. fold (opponentStep Exp b before p) qs (Fin g, i) = (Fin g', i') \<and>
           \<bar>g'\<bar> \<le> real (k + length qs) \<and> 0 \<le> i'"
  using rated mean acc
proof (induction qs arbitrary: g i k)
  case (Cons q qs)
  have sc: "1 \<le> comparisonScale (estimateAt before (pr_PlayerID p)) (estimateAt before (pr_PlayerID q))
      (bc_DefaultPerformanceDeviation b)"
    by (rule comparisonScale_ge1) (use self dev Cons.prems(1) in auto)
  obtain m where m: "est_Mean (estimateAt before (pr_PlayerID p)) = Fin m" "\<bar>m\<bar> \<le> 2 ^ 900"
    using self(2) by blast
  obtain m' where m': "est_Mean (estimateAt before (pr_PlayerID q)) = Fin m'" "\<bar>m'\<bar> \<le> 2 ^ 900"
    using Cons.prems(2) [of q] by force
  obtain g1 i1 where 1: "opponentStep Exp b before p q (Fin g, i) = (Fin g1, i1)"
      "\<bar>g1\<bar> \<le> real (k + 1)" "0 \<le> i1"
    using opponentStep_bounded [OF sc m m', of g k i] Cons.prems(3-5) by auto
  show ?case using Cons.IH [of g1 "k + 1" i1] 1 Cons.prems by auto
qed (use acc in simp)

end

lemma updateParticipant_returns:
  assumes exp: "go_exp Exp" and p: "p \<in> set ps" and n: "length ps \<le> 7"
    and load: "loadBefore (DefaultBaselineConfig v) estimates ps Map.empty = Inr before"
    and mean: "\<And>q. q \<in> set ps \<Longrightarrow> \<exists>m. est_Mean (estimateAt before (pr_PlayerID q)) = Fin m \<and> \<bar>m\<bar> \<le> 2 ^ 900"
  shows "\<exists>u. updateParticipant Exp (DefaultBaselineConfig v) r before ps t p = Inr u"
proof -
  let ?b = "DefaultBaselineConfig v" and ?e = "estimateAt before (pr_PlayerID p)"
  have rated: "ratedEstimate (estimateAt before (pr_PlayerID q))" if "q \<in> set ps" for q
    using default_estimate_bounds(2) [OF loaded_estimate(2) [OF load that]] .
  obtain g i where gi: "fold (opponentStep Exp ?b before p) ps (0, 0) = (Fin g, i)" "\<bar>g\<bar> \<le> 7" "0 \<le> i"
    using go_exp.opponents_bounded [OF exp, of ps before p ?b 0 0 0] rated mean p n
    by (force simp: zero_f64_def default_deviation_finite)
  obtain a where a: "est_Uncertainty ?e = Fin a" "1 \<le> a" "a \<le> 25"
    using default_estimate_bounds(1) [OF loaded_estimate(2) [OF load p]] by blast
  obtain w where w: "posteriorVariance (Fin a) i = Fin w" "0 \<le> w" "w \<le> 625"
    using posteriorVariance_default [OF a(2,3) gi(3)] by blast
  have wg: "\<bar>w * g\<bar> \<le> 4375" using mult_mono [of w 625 "\<bar>g\<bar>" 7] w gi(2) by (simp add: abs_mult)
  then obtain z where z: "f64_round (w * g) = Fin z" "- 4375 \<le> z" "z \<le> 4375"
    using f64_round_between [of "- 4375" 4375 "w * g"] by (auto simp: abs_le_iff)
  obtain m where m: "est_Mean ?e = Fin m" "\<bar>m\<bar> \<le> 2 ^ 900" using mean [OF p] by blast
  have p901: "f64_round (2 ^ 901) = Fin (2 ^ 901)"
    by (rule f64_round_exact [of _ 1 901]) (simp_all add: f64_threshold_def)
  have "- (2 ^ 901) \<le> m + z" "m + z \<le> 2 ^ 901" using m(2) z(2,3) by (simp_all add: abs_le_iff)
  then have "f64_finite (f64_round (m + z))"
    using f64_round_between [of "- (2 ^ 901)" "2 ^ 901" "m + z"] p901 f64_round_uminus [of "2 ^ 901"] by auto
  then show ?thesis using a w m z by (simp add: updateParticipant_def gi Let_def)
qed

lemma loadBefore_total:
  assumes "\<And>p. p \<in> set ps \<Longrightarrow> \<exists>e. estimates (pr_PlayerID p) = Some e \<and>
     Baseline_validateEstimate b (pr_PlayerID p) e = None \<and> est_Games e \<noteq> -1"
  shows "\<exists>before'. loadBefore b estimates ps before = Inr before'"
  using assms
proof (induction ps arbitrary: before)
  case (Cons p ps)
  obtain e where "estimates (pr_PlayerID p) = Some e"
      "Baseline_validateEstimate b (pr_PlayerID p) e = None" "est_Games e \<noteq> -1"
    using Cons.prems [of p] by auto
  then show ?case using Cons by simp
qed simp

text \<open>
  The precondition of an update: a complete result, processed after it is available, and for every
  participant a stored valid estimate of the model, a game counter that can still grow and a mean of
  ordinary size.
\<close>

definition updatable :: "BaselineConfig \<Rightarrow> MatchResult \<Rightarrow> (string \<rightharpoonup> Estimate) \<Rightarrow> time \<Rightarrow> bool" where
  "updatable b r estimates t \<longleftrightarrow>
     completeResult r \<and> t \<noteq> 0 \<and> mr_AvailableAt r \<le> t \<and>
     (\<forall>p \<in> set (mr_Participants r).
        \<exists>e m. estimates (pr_PlayerID p) = Some e \<and> Baseline_validateEstimate b (pr_PlayerID p) e = None \<and>
              est_Games e \<noteq> -1 \<and> est_Mean e = Fin m \<and> \<bar>m\<bar> \<le> 2 ^ 900)"

lemma Update_total:
  assumes exp: "go_exp Exp" and ok: "updatable (DefaultBaselineConfig v) r estimates t"
  shows "\<exists>us. Baseline_Update Exp (DefaultBaselineConfig v) r estimates t = Inr us"
proof -
  let ?b = "DefaultBaselineConfig v" and ?ps = "sort_cmp compareParticipantID (mr_Participants r)"
  have "\<exists>before. loadBefore ?b estimates ?ps Map.empty = Inr before"
    by (rule loadBefore_total) (use ok in \<open>auto simp: updatable_def\<close>)
  then obtain before where l: "loadBefore ?b estimates ?ps Map.empty = Inr before" by blast
  have mean: "\<exists>m. est_Mean (estimateAt before (pr_PlayerID q)) = Fin m \<and> \<bar>m\<bar> \<le> 2 ^ 900" if "q \<in> set ?ps" for q
    using loaded_estimate(1) [OF l that] ok that unfolding updatable_def by fastforce
  have n: "length ?ps \<le> 7" using ok by (simp add: updatable_def completeResult_def)
  have "\<exists>u. updateParticipant Exp ?b r before ?ps t p = Inr u" if "p \<in> set ?ps" for p
    using updateParticipant_returns [OF exp that n l mean] .
  then obtain f where "\<And>p. p \<in> set ?ps \<Longrightarrow> updateParticipant Exp ?b r before ?ps t p = Inr (f p)" by metis
  then have "mapR (updateParticipant Exp ?b r before ?ps t) ?ps = Inr (map f ?ps)" by (rule mapR_total)
  then show ?thesis using ok l by (auto simp: Baseline_Update_Inr updatable_def)
qed

lemma Update_players:
  assumes "Baseline_Update Exp b r estimates t = Inr us"
  shows "map ru_PlayerID us = sort (map pr_PlayerID (mr_Participants r))"
proof -
  let ?ps = "sort_cmp compareParticipantID (mr_Participants r)"
  obtain before where "list_all2 (\<lambda>p u. updateParticipant Exp b r before ?ps t p = Inr u) ?ps us"
    using assms by (auto simp: Baseline_Update_Inr mapR_Inr)
  then have "map ru_PlayerID us = map pr_PlayerID ?ps"
    by (induction rule: list_all2_induct) (auto dest: updateParticipant_Inr)
  moreover have "sort (map pr_PlayerID (mr_Participants r)) = map pr_PlayerID ?ps"
    by (rule properties_for_sort) (simp_all add: sorted_participants)
  ultimately show ?thesis by simp
qed

section \<open>Properties of the update\<close>

text \<open>A room of five players at the prior, for the concrete instances.\<close>

definition noFeatures :: Features where
  "noFeatures = \<lparr>feat_Score = None, feat_ElapsedMillis = None, feat_Completed = None, feat_Moves = None,
     feat_UndoMoves = None, feat_RevealedCards = None\<rparr>"

definition sampleParticipants :: "ParticipantResult list" where
  "sampleParticipants =
     map (\<lambda>(k, n). \<lparr>pr_PlayerID = k, pr_Place = n, pr_Features = noFeatures\<rparr>)
       [(''eve'', 3), (''ann'', 1), (''bob'', 2), (''dan'', 5), (''cyd'', 4)]"

definition sampleResult :: MatchResult where
  "sampleResult = \<lparr>mr_EventID = ''ev'', mr_RoomID = ''room'', mr_ModeID = ''mode'', mr_DeckID = ''deck'',
     mr_ScoringRulesVersion = ''s1'', mr_FinishedAt = 10, mr_AvailableAt = 20,
     mr_Participants = sampleParticipants\<rparr>"

definition sampleEstimate :: Estimate where
  "sampleEstimate = \<lparr>est_Mean = Fin 25, est_Uncertainty = Fin 8, est_PerformanceDeviation = None,
     est_Games = 3, est_ModelVersion = ''m1'', est_UpdatedAt = 5\<rparr>"

lemma sample_updatable: "updatable (DefaultBaselineConfig ''m1'') sampleResult (\<lambda>_. Some sampleEstimate) 30"
  by (auto simp: updatable_def completeResult_def sampleResult_def sampleParticipants_def sampleEstimate_def
      noFeatures_def Features_Validate_None Baseline_validateEstimate_None Estimate_Validate_None)

lemma sample_update:
  obtains us where "Baseline_Update math_Exp_rounded (DefaultBaselineConfig ''m1'') sampleResult
      (\<lambda>_. Some sampleEstimate) 30 = Inr us" "map ru_PlayerID us = [''ann'', ''bob'', ''cyd'', ''dan'', ''eve'']"
proof -
  obtain us where us: "Baseline_Update math_Exp_rounded (DefaultBaselineConfig ''m1'') sampleResult
      (\<lambda>_. Some sampleEstimate) 30 = Inr us"
    using Update_total [OF rounded_exp.go_exp_axioms sample_updatable] by blast
  moreover have "sort (map pr_PlayerID (mr_Participants sampleResult)) = [''ann'', ''bob'', ''cyd'', ''dan'', ''eve'']"
    by code_simp
  ultimately show thesis using that Update_players [OF us] by simp
qed

text \<open>
  C8. With the default configuration every posterior estimate that \<^verbatim>\<open>Update\<close> returns is again a valid
  pre-game estimate of the same model, whatever the placements, under the rounding of every
  intermediate float: its mean is finite and its uncertainty lies in \<open>[1, 25]\<close>. The game counter
  grows by exactly one without wrapping, and the prior recorded in the update is the stored one.
\<close>

theorem Update_keeps_valid:
  assumes "go_exp Exp" "Baseline_Update Exp (DefaultBaselineConfig v) r estimates t = Inr us" "u \<in> set us"
  shows "Baseline_validateEstimate (DefaultBaselineConfig v) (ru_PlayerID u) (ru_After u) = None \<and>
         estimates (ru_PlayerID u) = Some (ru_Before u) \<and>
         unat (est_Games (ru_After u)) = unat (est_Games (ru_Before u)) + 1 \<and>
         est_UpdatedAt (ru_After u) = t"
proof -
  let ?ps = "sort_cmp compareParticipantID (mr_Participants r)"
  obtain before p where l: "loadBefore (DefaultBaselineConfig v) estimates ?ps Map.empty = Inr before"
    and p: "p \<in> set ?ps" and u: "updateParticipant Exp (DefaultBaselineConfig v) r before ?ps t p = Inr u"
    using Baseline_Update_member [OF assms(2,3)] by auto
  have "t \<noteq> 0" using assms(2) by (simp add: Baseline_Update_Inr)
  then show ?thesis
    using updateParticipant_default(1) [OF assms(1) p l u] updateParticipant_Inr [OF u]
      loaded_estimate [OF l p] unat_Suc_no_wrap by auto
qed

theorem Update_keeps_valid_witness:
  "\<exists>us u. Baseline_Update math_Exp_rounded (DefaultBaselineConfig ''m1'') sampleResult
       (\<lambda>_. Some sampleEstimate) 30 = Inr us \<and> u \<in> set us \<and>
     Baseline_validateEstimate (DefaultBaselineConfig ''m1'') (ru_PlayerID u) (ru_After u) = None \<and>
     unat (est_Games (ru_After u)) = 4 \<and> est_UpdatedAt (ru_After u) = 30"
proof -
  obtain us where us: "Baseline_Update math_Exp_rounded (DefaultBaselineConfig ''m1'') sampleResult
      (\<lambda>_. Some sampleEstimate) 30 = Inr us" "map ru_PlayerID us = [''ann'', ''bob'', ''cyd'', ''dan'', ''eve'']"
    by (rule sample_update)
  then obtain u where u: "u \<in> set us" by (cases us) auto
  have v: "Baseline_validateEstimate (DefaultBaselineConfig ''m1'') (ru_PlayerID u) (ru_After u) = None"
      "sampleEstimate = ru_Before u" "unat (est_Games (ru_After u)) = unat (est_Games (ru_Before u)) + 1"
      "est_UpdatedAt (ru_After u) = 30"
    using Update_keeps_valid [OF rounded_exp.go_exp_axioms us(1) u] by auto
  have "unat (est_Games sampleEstimate) = 3" by (simp add: sampleEstimate_def)
  then have "unat (est_Games (ru_After u)) = 4" using v(2,3) by simp
  then show ?thesis using us(1) u v by blast
qed

text \<open>
  C19. \<^verbatim>\<open>Update\<close> with the default configuration returns on every updatable input: no comparison, however
  far apart the players are, drives an intermediate value to a NaN or an infinity, and the answer has
  exactly one update per participant, in the order of the player ids.
\<close>

theorem Update_returns:
  assumes "go_exp Exp" "updatable (DefaultBaselineConfig v) r estimates t"
  shows "\<exists>us. Baseline_Update Exp (DefaultBaselineConfig v) r estimates t = Inr us \<and>
           map ru_PlayerID us = sort (map pr_PlayerID (mr_Participants r)) \<and> distinct (map ru_PlayerID us)"
proof -
  obtain us where us: "Baseline_Update Exp (DefaultBaselineConfig v) r estimates t = Inr us"
    using Update_total [OF assms] by blast
  moreover have "distinct (map pr_PlayerID (mr_Participants r))"
    using assms(2) by (simp add: updatable_def completeResult_def)
  ultimately show ?thesis using Update_players [OF us] by auto
qed

theorem Update_returns_witness:
  "\<exists>us. Baseline_Update math_Exp_rounded (DefaultBaselineConfig ''m1'') sampleResult
       (\<lambda>_. Some sampleEstimate) 30 = Inr us \<and> distinct (map ru_PlayerID us)"
  using Update_returns [OF rounded_exp.go_exp_axioms sample_updatable] by blast

text \<open>
  C20. Placements move the means the right way: the mean of a sole winner never decreases and the mean
  of a sole last player never increases, for every configuration of opponents and under the rounding
  of every intermediate float.
\<close>

theorem Update_monotone_in_place:
  assumes exp: "go_exp Exp" and upd: "Baseline_Update Exp (DefaultBaselineConfig v) r estimates t = Inr us"
    and u: "u \<in> set us" and p: "p \<in> set (mr_Participants r)" "pr_PlayerID p = ru_PlayerID u"
    and f: "is_f64 (est_Mean (ru_Before u))"
  shows "((\<forall>q \<in> set (mr_Participants r). q \<noteq> p \<longrightarrow> pr_Place p < pr_Place q) \<longrightarrow>
            est_Mean (ru_Before u) \<le> est_Mean (ru_After u)) \<and>
         ((\<forall>q \<in> set (mr_Participants r). q \<noteq> p \<longrightarrow> pr_Place q < pr_Place p) \<longrightarrow>
            est_Mean (ru_After u) \<le> est_Mean (ru_Before u))"
proof -
  let ?b = "DefaultBaselineConfig v" and ?ps = "sort_cmp compareParticipantID (mr_Participants r)"
  obtain before p' where l: "loadBefore ?b estimates ?ps Map.empty = Inr before" and p': "p' \<in> set ?ps"
    and pu: "updateParticipant Exp ?b r before ?ps t p' = Inr u"
    using Baseline_Update_member [OF upd u] by auto
  have cr: "completeResult r" "t \<noteq> 0" using upd by (auto simp: Baseline_Update_Inr)
  have "p' = p"
    using cr(1) p p' updateParticipant_Inr [OF pu]
    by (auto simp: completeResult_def distinct_map dest: inj_onD)
  note pu = pu [unfolded this] and p = p(1)
  let ?g = "fst (fold (opponentStep Exp ?b before p) ?ps (0, 0))"
  have ps: "p \<in> set ?ps" using p by simp
  have rated: "ratedEstimate (estimateAt before (pr_PlayerID q))" if "q \<in> set ?ps" for q
    using default_estimate_bounds(2) [OF loaded_estimate(2) [OF l that]] .
  have dev: "f64_finite (bc_DefaultPerformanceDeviation ?b)" by (simp add: default_deviation_finite)
  obtain w where w: "0 \<le> w" "est_Mean (ru_After u) = est_Mean (ru_Before u) + Fin w * ?g"
    using updateParticipant_default(2) [OF exp ps l pu cr(2)] by blast
  have fin: "f64_finite (est_Mean (ru_Before u))" "f64_finite (est_Mean (ru_Before u) + Fin w * ?g)"
    using loaded_estimate(2) [OF l ps] updateParticipant_default(1) [OF exp ps l pu cr(2)]
      updateParticipant_Inr [OF pu] w(2)
    by (auto simp: Baseline_validateEstimate_None Estimate_Validate_None)
  note sign = mean_step_sign [OF f fin w(1)]
  show ?thesis
    using sign(1) [OF go_exp.winner_gradient [OF exp rated rated [OF ps] dev]]
      sign(2) [OF go_exp.loser_gradient [OF exp rated rated [OF ps] dev]]
    by (metis (no_types, lifting) set_sort_cmp w(2))
qed

theorem Update_monotone_in_place_witness:
  "\<exists>us u. Baseline_Update math_Exp_rounded (DefaultBaselineConfig ''m1'') sampleResult
       (\<lambda>_. Some sampleEstimate) 30 = Inr us \<and> u \<in> set us \<and> ru_PlayerID u = ''ann'' \<and>
     Fin 25 \<le> est_Mean (ru_After u)"
proof -
  obtain us where us: "Baseline_Update math_Exp_rounded (DefaultBaselineConfig ''m1'') sampleResult
      (\<lambda>_. Some sampleEstimate) 30 = Inr us" "map ru_PlayerID us = [''ann'', ''bob'', ''cyd'', ''dan'', ''eve'']"
    by (rule sample_update)
  then obtain u where u: "u \<in> set us" "ru_PlayerID u = ''ann''" by (cases us) auto
  have b: "ru_Before u = sampleEstimate"
    using Baseline_Update_member [OF us(1) u(1)] updateParticipant_Inr loaded_estimate(1)
    by (metis option.inject set_sort_cmp)
  let ?p = "\<lparr>pr_PlayerID = ''ann'', pr_Place = 1, pr_Features = noFeatures\<rparr>"
  have "est_Mean (ru_Before u) \<le> est_Mean (ru_After u)"
    using Update_monotone_in_place [OF rounded_exp.go_exp_axioms us(1) u(1), of ?p]
    by (auto simp: u(2) b sampleEstimate_def sampleResult_def sampleParticipants_def)
  then show ?thesis using us(1) u b by (auto simp: sampleEstimate_def)
qed

text \<open>C21. The result does not depend on the order in which the participants were reported.\<close>

theorem Update_order_independent:
  assumes "MatchResult_Validate r = None" "mset ps = mset (mr_Participants r)"
  shows "Baseline_Update Exp b (r\<lparr>mr_Participants := ps\<rparr>) estimates t = Baseline_Update Exp b r estimates t"
proof -
  let ?s = "sort_cmp compareParticipantID"
  have cr: "completeResult r" using assms(1) by (simp add: MatchResult_Validate_complete)
  then have eq: "?s (mr_Participants r) = ?s ps"
    by (intro sort_participants_perm) (simp_all add: assms(2) completeResult_def)
  have "set ps = set (mr_Participants r)" "length ps = length (mr_Participants r)"
    using assms(2) by (auto dest: mset_eq_setD mset_eq_length)
  moreover have "distinct (map pr_PlayerID ps)"
    using cr assms(2) mset_map mset_eq_imp_distinct_iff unfolding completeResult_def by metis
  ultimately have "completeResult (r\<lparr>mr_Participants := ps\<rparr>)" using cr by (simp add: completeResult_def)
  moreover have "updateParticipant Exp b (r\<lparr>mr_Participants := ps\<rparr>) = updateParticipant Exp b r"
    by (intro ext) (simp add: updateParticipant_def Let_def split: prod.split)
  ultimately show ?thesis
    using cr eq by (simp add: Baseline_Update_def MatchResult_Validate_complete [THEN iffD2])
qed

theorem Update_order_independent_witness:
  "Baseline_Update math_Exp_rounded (DefaultBaselineConfig ''m1'')
     (sampleResult\<lparr>mr_Participants := rev sampleParticipants\<rparr>) (\<lambda>_. Some sampleEstimate) 30 =
   Baseline_Update math_Exp_rounded (DefaultBaselineConfig ''m1'') sampleResult (\<lambda>_. Some sampleEstimate) 30"
proof (rule Update_order_independent)
  show "MatchResult_Validate sampleResult = None"
    using sample_updatable by (simp add: MatchResult_Validate_complete updatable_def)
qed (simp add: sampleResult_def)

end
