(* ===== verification/Rating_Prediction.thy ===== *)
theory Rating_Prediction
  imports Rating_Baseline
begin

text \<open>
  \<^verbatim>\<open>pkg/rating/prediction.go\<close>: the Plackett-Luce placement distribution of a room. The loop nest of
  \<^verbatim>\<open>plackettLuceDistributions\<close> is written over an arbitrary arithmetic: its instance at \<^typ>\<open>f64\<close> is the
  code, its instance at \<^typ>\<open>real\<close> is the same computation without rounding, for which the distribution
  is proved coherent. A Go map is an association list with distinct keys; its iteration order is never
  observed, because the keys are sorted first.
\<close>

unbundle bit_operations_syntax

record PredictionRequest =
  preq_RoomID :: string
  preq_ModeID :: string
  preq_GeneratedAt :: time
  preq_Estimates :: "(string \<times> Estimate) list"

record PlacementPrediction =
  pp_PlayerID :: string
  pp_PlaceProbabilities :: "f64 list"
  pp_FirstPlaceProbability :: f64
  pp_ExpectedPlace :: f64

record RoomPrediction =
  rp_RoomID :: string
  rp_ModeID :: string
  rp_ModelVersion :: string
  rp_GeneratedAt :: time
  rp_Participants :: "PlacementPrediction list"

definition maximumLogitRange :: f64 where "maximumLogitRange = Fin 700"

definition MaxFloat64 :: f64 where "MaxFloat64 = Fin (2 ^ 1024 - 2 ^ 971)"

section \<open>Plackett-Luce over any arithmetic\<close>

text \<open>\<^verbatim>\<open>bits.OnesCount\<close> of a 64-bit word.\<close>

definition OnesCount :: "nat \<Rightarrow> nat" where
  "OnesCount s = length (filter (bit s) [0..<64])"

text \<open>\<^verbatim>\<open>selected|(1<<playerIndex)\<close>.\<close>

definition withBit :: "nat \<Rightarrow> nat \<Rightarrow> nat" where
  "withBit selected playerIndex = (selected OR push_bit playerIndex 1)"

definition remainingWeight :: "('a::{zero,plus}) list \<Rightarrow> nat \<Rightarrow> 'a" where
  "remainingWeight weights selected =
     fold (\<lambda>(playerIndex, weight) acc. if bit selected playerIndex then acc else acc + weight)
       (indexed weights) 0"

definition choiceStep ::
  "nat \<Rightarrow> nat \<Rightarrow> ('a::{zero,one,plus,times,inverse}) \<Rightarrow> 'a \<Rightarrow> nat \<times> 'a
     \<Rightarrow> 'a list list \<times> 'a list \<Rightarrow> 'a list list \<times> 'a list" where
  "choiceStep selectedCount selected stateProbability remaining choice st =
     (case choice of (playerIndex, weight) \<Rightarrow> case st of (distributions, nextP) \<Rightarrow>
        if bit selected playerIndex then st
        else
          let choiceProbability = weight / remaining;
              jointProbability = stateProbability * choiceProbability;
              target = withBit selected playerIndex;
              row = distributions ! playerIndex
          in (distributions[playerIndex := row[selectedCount := row ! selectedCount + jointProbability]],
              nextP[target := nextP ! target + jointProbability]))"

definition stateStep ::
  "('a::{zero,one,plus,times,inverse}) list \<Rightarrow> nat \<Rightarrow> nat \<times> 'a
     \<Rightarrow> 'a list list \<times> 'a list \<Rightarrow> 'a list list \<times> 'a list" where
  "stateStep weights selectedCount state st =
     (case state of (selected, stateProbability) \<Rightarrow>
        if stateProbability = 0 \<or> OnesCount selected \<noteq> selectedCount then st
        else fold (choiceStep selectedCount selected stateProbability (remainingWeight weights selected))
               (indexed weights) st)"

definition placeStep ::
  "('a::{zero,one,plus,times,inverse}) list \<Rightarrow> nat \<Rightarrow> 'a list list \<times> 'a list \<Rightarrow> 'a list list \<times> 'a list" where
  "placeStep weights selectedCount st =
     (case st of (distributions, stateProbabilities) \<Rightarrow>
        fold (stateStep weights selectedCount) (indexed stateProbabilities)
          (distributions, replicate (2 ^ length weights) 0))"

definition plackettLuceDistributions :: "('a::{zero,one,plus,times,inverse}) list \<Rightarrow> 'a list list" where
  "plackettLuceDistributions weights =
     (let playerCount = length weights in
      fst (fold (placeStep weights) [0..<playerCount]
             (replicate playerCount (replicate playerCount 0),
              (replicate (2 ^ playerCount) 0)[0 := 1])))"

section \<open>Weights and the prediction\<close>

definition scaleStep :: "BaselineConfig \<Rightarrow> Estimate \<Rightarrow> f64 \<times> f64 \<times> f64 \<Rightarrow> f64 \<times> f64 \<times> f64" where
  "scaleStep b estimate acc =
     (case acc of (minimumMean, maximumMean, varianceNorm) \<Rightarrow>
        (math_Min minimumMean (est_Mean estimate),
         math_Max maximumMean (est_Mean estimate),
         math_Hypot varianceNorm
           (math_Hypot (est_Uncertainty estimate) (deviationOr (bc_DefaultPerformanceDeviation b) estimate))))"

definition clampLogit :: "f64 \<Rightarrow> f64" where
  "clampLogit logit =
     (if logit = PInf then maximumLogitRange / Fin 2
      else if logit = NInf then - maximumLogitRange / Fin 2 else logit)"

definition placementWeights :: "(f64 \<Rightarrow> f64) \<Rightarrow> BaselineConfig \<Rightarrow> Estimate list \<Rightarrow> f64 list result" where
  "placementWeights Exp b estimates =
     (let firstMean = est_Mean (hd estimates);
          (minimumMean, maximumMean, varianceNorm) = fold (scaleStep b) estimates (firstMean, firstMean, 0);
          roomScale = math_Sqrt (Fin 2) * varianceNorm / math_Sqrt (f64_of_int (int (length estimates)))
      in if \<not> positiveFinite roomScale
         then Inl (ErrorsNew ''prediction room scale must be positive and finite'')
         else
           let center = minimumMean / Fin 2 + maximumMean / Fin 2;
               logits = map (\<lambda>estimate. clampLogit ((est_Mean estimate - center) / roomScale)) estimates;
               maximumLogit = fold (\<lambda>logit acc. math_Max acc logit) logits (- MaxFloat64)
           in Inr (map (\<lambda>logit. Exp (math_Max (logit - maximumLogit) (- maximumLogitRange))) logits))"

definition loadEstimate ::
  "BaselineConfig \<Rightarrow> PredictionRequest \<Rightarrow> string \<Rightarrow> Estimate result" where
  "loadEstimate b request playerID =
     (let estimate = estimateAt (map_of (preq_Estimates request)) playerID in
      if playerID = '''' then Inl (ErrorsNew ''prediction player id is required'')
      else guardE (Baseline_validateEstimate b playerID estimate)
        (if After (est_UpdatedAt estimate) (preq_GeneratedAt request)
         then Inl (Errorf ''pre-game rating for player %q was updated after prediction time'' [ArgS playerID] None)
         else Inr estimate))"

definition expectedPlace :: "f64 list \<Rightarrow> f64" where
  "expectedPlace placeProbabilities =
     fold (\<lambda>(placeIndex, probability) acc. acc + f64_of_int (int placeIndex + 1) * probability)
       (indexed placeProbabilities) 0"

definition placementPrediction :: "string \<times> f64 list \<Rightarrow> PlacementPrediction" where
  "placementPrediction row =
     (case row of (playerID, placeProbabilities) \<Rightarrow>
        \<lparr>pp_PlayerID = playerID, pp_PlaceProbabilities = placeProbabilities,
         pp_FirstPlaceProbability = hd placeProbabilities,
         pp_ExpectedPlace = expectedPlace placeProbabilities\<rparr>)"

definition Baseline_Predict :: "(f64 \<Rightarrow> f64) \<Rightarrow> BaselineConfig \<Rightarrow> PredictionRequest \<Rightarrow> RoomPrediction result" where
  "Baseline_Predict Exp b request =
     (if preq_RoomID request = '''' \<or> preq_ModeID request = '''' \<or> IsZero (preq_GeneratedAt request)
      then Inl (ErrorsNew ''prediction room, mode and generation time are required'')
      else if length (preq_Estimates request) < MinRoomSize \<or> MaxRoomSize < length (preq_Estimates request)
      then Inl (Errorf ''prediction requires %d to %d players''
                  [ArgI (int MinRoomSize), ArgI (int MaxRoomSize)] None)
      else
        let playerIDs = sort (map fst (preq_Estimates request)) in
        rbind (mapR (loadEstimate b request) playerIDs) (\<lambda>estimates.
        rbind (placementWeights Exp b estimates) (\<lambda>weights.
          Inr \<lparr>rp_RoomID = preq_RoomID request, rp_ModeID = preq_ModeID request,
               rp_ModelVersion = bc_Version b, rp_GeneratedAt = preq_GeneratedAt request,
               rp_Participants =
                 map placementPrediction (zip playerIDs (plackettLuceDistributions weights))\<rparr>)))"

section \<open>The loop nest as a fold over transitions\<close>

lemma sum_list_indexed: "sum_list (map f (indexed xs)) = (\<Sum>i<length xs. f (i, xs ! i))"
proof -
  have "sum_list (map f (indexed xs)) = (\<Sum>i = 0..<length xs. map f (indexed xs) ! i)"
    by (subst sum_list_sum_nth) simp
  also have "\<dots> = (\<Sum>i<length xs. f (i, xs ! i))"
    by (intro sum.cong) (auto simp: indexed_def)
  finally show ?thesis .
qed

lemma fold_concat_map: "fold f (concat (map g xs)) s = fold (\<lambda>x. fold f (g x)) xs s"
  by (induction xs arbitrary: s) auto

lemma fold_filter_map:
  assumes "\<And>x s. h x s = (if P x then f (g x) s else s)"
  shows "fold h xs s = fold f (map g (filter P xs)) s"
  by (induction xs arbitrary: s) (auto simp: assms)

definition applyTransition :: "nat \<Rightarrow> nat \<times> nat \<times> real \<Rightarrow> real list list \<times> real list \<Rightarrow> real list list \<times> real list" where
  "applyTransition k tr st = (case tr of (i, t, x) \<Rightarrow> case st of (d, q) \<Rightarrow>
     (d[i := (d ! i)[k := d ! i ! k + x]], q[t := q ! t + x]))"

definition choices :: "real list \<Rightarrow> nat \<Rightarrow> nat \<times> real \<Rightarrow> (nat \<times> nat \<times> real) list" where
  "choices w k sp = (case sp of (s, p) \<Rightarrow>
     if p = 0 \<or> OnesCount s \<noteq> k then []
     else map (\<lambda>(i, wi). (i, withBit s i, p * (wi / remainingWeight w s)))
            (filter (\<lambda>(i, _). \<not> bit s i) (indexed w)))"

definition transitions :: "real list \<Rightarrow> nat \<Rightarrow> real list \<Rightarrow> (nat \<times> nat \<times> real) list" where
  "transitions w k P = concat (map (choices w k) (indexed P))"

lemma placeStep_transitions:
  "placeStep w k (d, P) = fold (applyTransition k) (transitions w k P) (d, replicate (2 ^ length w) 0)"
proof -
  have inner: "fold (choiceStep k s p (remainingWeight w s)) (indexed w) st =
      fold (applyTransition k) (map (\<lambda>(i, wi). (i, withBit s i, p * (wi / remainingWeight w s)))
            (filter (\<lambda>(i, _). \<not> bit s i) (indexed w))) st" for s p st
    by (rule fold_filter_map) (auto simp: choiceStep_def applyTransition_def Let_def split: prod.splits)
  have "stateStep w k sp st = fold (applyTransition k) (choices w k sp) st" for sp st
    by (cases sp) (simp add: stateStep_def choices_def inner)
  then have "stateStep w k = (\<lambda>sp. fold (applyTransition k) (choices w k sp))" by blast
  then show ?thesis by (simp add: placeStep_def transitions_def fold_concat_map)
qed

lemma fold_applyTransition:
  assumes "\<forall>(i, t, x) \<in> set trs. i < n \<and> t < m" "length d = n" "\<forall>i<n. length (d ! i) = n" "length q = m" "k < n"
    and "fold (applyTransition k) trs (d, q) = (d', q')"
  shows "length d' = n \<and> (\<forall>i<n. length (d' ! i) = n) \<and> length q' = m \<and>
    (\<forall>i<n. \<forall>j<n. d' ! i ! j = d ! i ! j + (if j = k then (\<Sum>(i', t, x)\<leftarrow>trs. if i' = i then x else 0) else 0)) \<and>
    (\<forall>t<m. q' ! t = q ! t + (\<Sum>(i', t', x)\<leftarrow>trs. if t' = t then x else 0))"
  using assms
proof (induction trs arbitrary: d q)
  case (Cons tr trs)
  obtain i t x where tr: "tr = (i, t, x)" by (cases tr) auto
  let ?d = "d[i := (d ! i)[k := d ! i ! k + x]]" and ?q = "q[t := q ! t + x]"
  have "i < n" "t < m" using Cons.prems(1) tr by auto
  moreover have "length d' = n \<and> (\<forall>i<n. length (d' ! i) = n) \<and> length q' = m \<and>
    (\<forall>i<n. \<forall>j<n. d' ! i ! j = ?d ! i ! j + (if j = k then (\<Sum>(i', t, x)\<leftarrow>trs. if i' = i then x else 0) else 0)) \<and>
    (\<forall>t<m. q' ! t = ?q ! t + (\<Sum>(i', t', x)\<leftarrow>trs. if t' = t then x else 0))"
    by (rule Cons.IH) (use Cons.prems \<open>i < n\<close> in \<open>auto simp: tr applyTransition_def nth_list_update\<close>)
  ultimately show ?case using Cons.prems by (auto simp: tr nth_list_update)
qed auto

section \<open>The exact distribution is coherent\<close>

lemma remainingWeight_sum:
  "remainingWeight (w :: real list) s = (\<Sum>i<length w. if bit s i then 0 else w ! i)"
proof -
  have "fold (\<lambda>(i, wi) acc. if bit s i then acc else acc + wi) xs a
      = a + (\<Sum>(i, wi)\<leftarrow>xs. if bit s i then 0 else wi)" for xs and a :: real
    by (induction xs arbitrary: a) auto
  then show ?thesis by (simp add: remainingWeight_def sum_list_indexed)
qed

definition joint :: "real list \<Rightarrow> nat \<Rightarrow> real list \<Rightarrow> nat \<Rightarrow> nat \<Rightarrow> real" where
  "joint w k P s i =
     (if OnesCount s = k \<and> \<not> bit s i then P ! s * (w ! i / remainingWeight w s) else 0)"

lemma sum_transitions:
  "(\<Sum>(i, t, x)\<leftarrow>transitions w k P. if Q i t then x else 0) =
     (\<Sum>s<length P. \<Sum>i<length w. if Q i (withBit s i) then joint w k P s i else 0)"
proof -
  let ?f = "\<lambda>(i, t, x :: real). if Q i t then x else 0"
  have filt: "sum_list (map g (filter p xs)) = sum_list (map (\<lambda>x. if p x then g x else 0) xs)"
    for g :: "nat \<times> real \<Rightarrow> real" and p xs by (induction xs) auto
  have "sum_list (map ?f (choices w k (s, P ! s))) =
      (\<Sum>i<length w. if Q i (withBit s i) then joint w k P s i else 0)" for s
    by (cases "P ! s = 0 \<or> OnesCount s \<noteq> k")
      (auto simp: choices_def joint_def comp_def filt sum_list_indexed split_def intro!: sum.cong sum.neutral)
  then have "sum_list (map (\<lambda>sp. sum_list (map ?f (choices w k sp))) (indexed P)) =
      (\<Sum>s<length P. \<Sum>i<length w. if Q i (withBit s i) then joint w k P s i else 0)"
    by (simp add: sum_list_indexed)
  moreover have "sum_list (map ?f (concat (map g xs))) = sum_list (map (\<lambda>x. sum_list (map ?f (g x))) xs)"
    for xs :: "(nat \<times> real) list" and g by (induction xs) auto
  ultimately show ?thesis by (simp add: transitions_def)
qed

lemma OnesCount_card: "s < 2 ^ n \<Longrightarrow> n \<le> 64 \<Longrightarrow> OnesCount s = card {i. i < n \<and> bit s i}"
proof -
  assume s: "s < 2 ^ n" and n: "n \<le> 64"
  have "i < n" if "bit s i" for i
  proof (rule ccontr)
    assume "\<not> i < n"
    then have "(2::nat) ^ n \<le> 2 ^ i" by simp
    then have "s div 2 ^ i = 0" using less_le_trans [OF s] by (simp add: div_less)
    then show False using that by (simp add: bit_iff_odd)
  qed
  then have "{i. i < n \<and> bit s i} = set (filter (bit s) [0..<64])" using n by force
  then show ?thesis using distinct_card [of "filter (bit s) [0..<64]"] by (simp add: OnesCount_def)
qed

lemma bit_withBit: "bit (withBit s i) j \<longleftrightarrow> bit s j \<or> j = i"
  by (auto simp: withBit_def bit_or_iff bit_exp_iff)

lemma withBit_below:
  assumes "s < 2 ^ n" "i < n"
  shows "withBit s i < 2 ^ n"
proof -
  have "take_bit n s = s" using assms(1) by (simp add: take_bit_nat_eq_self_iff)
  moreover have "take_bit n (push_bit i 1) = (push_bit i 1 :: nat)"
    using assms(2) by (simp add: take_bit_nat_eq_self_iff push_bit_eq_mult)
  ultimately have "take_bit n (withBit s i) = withBit s i"
    unfolding withBit_def by (simp only: take_bit_or)
  then show ?thesis by (metis take_bit_nat_less_exp)
qed

lemma OnesCount_withBit:
  assumes "s < 2 ^ n" "i < n" "n \<le> 64" "\<not> bit s i"
  shows "OnesCount (withBit s i) = Suc (OnesCount s)"
proof -
  have "{j. j < n \<and> bit (withBit s i) j} = insert i {j. j < n \<and> bit s j}"
    using assms(2) by (auto simp: bit_withBit)
  then show ?thesis using assms withBit_below [OF assms(1,2)] by (simp add: OnesCount_card)
qed

lemma OnesCount_full:
  assumes "s < 2 ^ n" "n \<le> 64" "OnesCount s = n" "i < n"
  shows "bit s i"
proof -
  have "{i. i < n \<and> bit s i} = {..<n}"
    by (rule card_subset_eq) (use assms OnesCount_card [of s n] in auto)
  then show ?thesis using assms(4) by blast
qed

lemma remainingWeight_pos:
  assumes "\<forall>x \<in> set w. 0 < (x :: real)" "s < 2 ^ length w" "length w \<le> 64" "OnesCount s < length w"
  shows "0 < remainingWeight w s"
proof -
  have "\<exists>i<length w. \<not> bit s i"
  proof (rule ccontr)
    assume "\<not> (\<exists>i<length w. \<not> bit s i)"
    then have "{i. i < length w \<and> bit s i} = {..<length w}" by auto
    then show False using OnesCount_card [OF assms(2,3)] assms(4) by simp
  qed
  then obtain i where i: "i < length w" "\<not> bit s i" by blast
  have "0 < (\<Sum>i<length w. if bit s i then 0 else w ! i)"
    by (rule sum_pos2 [of _ i]) (use i assms(1) in \<open>auto simp: less_imp_le\<close>)
  then show ?thesis by (simp add: remainingWeight_sum)
qed

lemma sum_joint:
  assumes "\<forall>x \<in> set w. 0 < (x :: real)" "s < 2 ^ length w" "length w \<le> 64" "k < length w"
    and "P ! s \<noteq> 0 \<Longrightarrow> OnesCount s = k"
  shows "(\<Sum>i<length w. joint w k P s i) = P ! s"
proof (cases "P ! s = 0")
  case False
  then have k: "OnesCount s = k" using assms(5) by blast
  have R: "0 < remainingWeight w s" using remainingWeight_pos assms k by blast
  have "(\<Sum>i<length w. joint w k P s i)
      = (\<Sum>i<length w. P ! s / remainingWeight w s * (if bit s i then 0 else w ! i))"
    by (intro sum.cong) (auto simp: joint_def k)
  also have "\<dots> = P ! s / remainingWeight w s * remainingWeight w s"
    by (simp only: sum_distrib_left [symmetric] remainingWeight_sum)
  finally show ?thesis using R by simp
qed (simp add: joint_def cong: if_cong)

lemma joint_nonneg: "\<lbrakk>\<forall>x \<in> set w. 0 < (x :: real); 0 \<le> P ! s; i < length w\<rbrakk> \<Longrightarrow> 0 \<le> joint w k P s i"
  by (auto simp: joint_def remainingWeight_sum less_imp_le
      intro!: mult_nonneg_nonneg divide_nonneg_nonneg sum_nonneg)

text \<open>The invariant of the outer loop after \<open>k\<close> places are filled.\<close>

definition placed :: "real list \<Rightarrow> nat \<Rightarrow> real list list \<times> real list \<Rightarrow> bool" where
  "placed w k st = (case st of (d, P) \<Rightarrow>
     length d = length w \<and> (\<forall>i<length w. length (d ! i) = length w) \<and> length P = 2 ^ length w \<and>
     (\<forall>s<2 ^ length w. 0 \<le> P ! s \<and> (P ! s \<noteq> 0 \<longrightarrow> OnesCount s = k)) \<and>
     (\<Sum>s<2 ^ length w. P ! s) = 1 \<and>
     (\<forall>i<length w. \<forall>j<length w. 0 \<le> d ! i ! j \<and> (k \<le> j \<longrightarrow> d ! i ! j = 0)) \<and>
     (\<forall>i<length w. (\<Sum>s<2 ^ length w. if bit s i then P ! s else 0) = (\<Sum>j<k. d ! i ! j)) \<and>
     (\<forall>j<k. (\<Sum>i<length w. d ! i ! j) = 1))"

lemma transitions_bounded:
  assumes "(i, t, x) \<in> set (transitions w k P)" "length P = 2 ^ length w"
  shows "i < length w \<and> t < 2 ^ length w"
proof -
  obtain s p where "(s, p) \<in> set (indexed P)" "(i, t, x) \<in> set (choices w k (s, p))"
    using assms(1) by (auto simp: transitions_def)
  then have "s < 2 ^ length w" "i < length w" "t = withBit s i"
    using assms(2) by (auto simp: choices_def set_indexed split: if_splits)
  then show ?thesis by (simp add: withBit_below)
qed

text \<open>The arrays after one pass, entry by entry.\<close>

lemma placeStep_entries:
  assumes k: "k < length w" "length w \<le> 64" and inv: "placed w k (d, P)" and eq: "placeStep w k (d, P) = (d', P')"
  shows "length d' = length w \<and> (\<forall>i<length w. length (d' ! i) = length w) \<and> length P' = 2 ^ length w \<and>
    (\<forall>i<length w. \<forall>j<length w. d' ! i ! j = d ! i ! j + (if j = k then \<Sum>s<2 ^ length w. joint w k P s i else 0)) \<and>
    (\<forall>t<2 ^ length w. P' ! t =
       (\<Sum>s<2 ^ length w. \<Sum>i<length w. if withBit s i = t then joint w k P s i else 0))"
proof -
  let ?n = "length w"
  have len: "length d = ?n" "\<forall>i<?n. length (d ! i) = ?n" "length P = 2 ^ ?n" using inv by (auto simp: placed_def)
  have bounds: "\<forall>(i, t, x) \<in> set (transitions w k P). i < ?n \<and> t < 2 ^ ?n"
    using transitions_bounded len(3) by fastforce
  note fold = fold_applyTransition [OF bounds len(1,2) length_replicate k(1)
      eq [unfolded placeStep_transitions]]
  have rows: "(\<Sum>(i', t, x)\<leftarrow>transitions w k P. if i' = i then x else 0) = (\<Sum>s<2 ^ ?n. joint w k P s i)"
    if "i < ?n" for i
    using sum_transitions [of "\<lambda>i' t. i' = i" w k P] that by (simp add: len sum.delta)
  show ?thesis using fold rows sum_transitions [of "\<lambda>i t'. t' = t" w k P for t] by (simp add: len)
qed

lemma sum_next:
  assumes "\<forall>t<2 ^ n. P' ! t = (\<Sum>s<2 ^ n. \<Sum>i<n. if withBit s i = t then (J s i :: real) else 0)"
  shows "(\<Sum>t<2 ^ n. if B t then P' ! t else 0) = (\<Sum>s<2 ^ n. \<Sum>i<n. if B (withBit s i) then J s i else 0)"
proof -
  have "(\<Sum>t<2 ^ n. if B t then P' ! t else 0) =
      (\<Sum>t<2 ^ n. \<Sum>s<2 ^ n. \<Sum>i<n. if withBit s i = t \<and> B t then J s i else 0)"
    by (rule sum.cong) (use assms in auto)
  also have "\<dots> = (\<Sum>s<2 ^ n. \<Sum>t<2 ^ n. \<Sum>i<n. if withBit s i = t \<and> B t then J s i else 0)"
    by (rule sum.swap)
  also have "\<dots> = (\<Sum>s<2 ^ n. \<Sum>i<n. \<Sum>t<2 ^ n. if withBit s i = t \<and> B t then J s i else 0)"
    by (intro sum.cong refl sum.swap)
  also have "\<dots> = (\<Sum>s<2 ^ n. \<Sum>i<n. if B (withBit s i) then J s i else 0)"
  proof (intro sum.cong refl)
    fix s i :: nat assume si: "s \<in> {..<2 ^ n}" "i \<in> {..<n}"
    have "(\<Sum>t<2 ^ n. if withBit s i = t \<and> B t then J s i else 0)
        = (\<Sum>t<2 ^ n. if t = withBit s i then (if B (withBit s i) then J s i else 0) else 0)"
      by (rule sum.cong) auto
    then show "(\<Sum>t<2 ^ n. if withBit s i = t \<and> B t then J s i else 0)
        = (if B (withBit s i) then J s i else 0)"
      using withBit_below [of s n i] si by simp
  qed
  finally show ?thesis .
qed

lemma placed_step:
  assumes pos: "\<forall>x \<in> set w. 0 < (x :: real)" and k: "k < length w" "length w \<le> 64" and inv: "placed w k (d, P)"
    and eq: "placeStep w k (d, P) = (d', P')"
  shows "placed w (Suc k) (d', P')"
proof -
  let ?n = "length w" and ?J = "joint w k P"
  have inv': "\<forall>s<2 ^ ?n. 0 \<le> P ! s \<and> (P ! s \<noteq> 0 \<longrightarrow> OnesCount s = k)" "(\<Sum>s<2 ^ ?n. P ! s) = 1"
      "\<forall>i<?n. \<forall>j<?n. 0 \<le> d ! i ! j \<and> (k \<le> j \<longrightarrow> d ! i ! j = 0)"
      "\<forall>i<?n. (\<Sum>s<2 ^ ?n. if bit s i then P ! s else 0) = (\<Sum>j<k. d ! i ! j)" "\<forall>j<k. (\<Sum>i<?n. d ! i ! j) = 1"
    using inv by (auto simp: placed_def)
  note e = placeStep_entries [OF k inv eq]
  then have d': "d' ! i ! j = d ! i ! j + (if j = k then \<Sum>s<2 ^ ?n. ?J s i else 0)" if "i < ?n" "j < ?n" for i j
    using that by blast
  have P': "\<forall>t<2 ^ ?n. P' ! t = (\<Sum>s<2 ^ ?n. \<Sum>i<?n. if withBit s i = t then ?J s i else 0)" using e by blast
  have J: "(\<Sum>i<?n. ?J s i) = P ! s" if "s < 2 ^ ?n" for s
    using sum_joint [OF pos that k(2,1)] inv'(1) that by blast
  have Jnn: "0 \<le> ?J s i" if "s < 2 ^ ?n" "i < ?n" for s i
    using joint_nonneg [OF pos] inv'(1) that by blast
  have nn: "0 \<le> P' ! t" if "t < 2 ^ ?n" for t
    using P' that Jnn by (auto intro!: sum_nonneg)
  have supp: "OnesCount t = Suc k" if "t < 2 ^ ?n" "P' ! t \<noteq> 0" for t
  proof -
    have "(\<Sum>s<2 ^ ?n. \<Sum>i<?n. if withBit s i = t then ?J s i else 0) \<noteq> 0" using P' that by simp
    then obtain s where s: "s < 2 ^ ?n" "(\<Sum>i<?n. if withBit s i = t then ?J s i else 0) \<noteq> 0"
      by (rule sum.not_neutral_contains_not_neutral) auto
    from s(2) obtain i where "i < ?n" "(if withBit s i = t then ?J s i else 0) \<noteq> 0"
      by (rule sum.not_neutral_contains_not_neutral) auto
    then show ?thesis using OnesCount_withBit [OF s(1) _ k(2)] by (auto simp: joint_def split: if_splits)
  qed
  have total: "(\<Sum>t<2 ^ ?n. P' ! t) = 1"
    using sum_next [OF P', of "\<lambda>_. True"] J inv'(2) by simp
  have row: "(\<Sum>t<2 ^ ?n. if bit t i then P' ! t else 0) = (\<Sum>j<Suc k. d' ! i ! j)" if i: "i < ?n" for i
  proof -
    have "(\<Sum>i'<?n. if bit (withBit s i') i then ?J s i' else 0) = (if bit s i then P ! s else 0) + ?J s i"
      if "s < 2 ^ ?n" for s
    proof (cases "bit s i")
      case True
      then have "?J s i = 0" by (simp add: joint_def)
      then show ?thesis using True J [OF that] by (simp add: bit_withBit)
    next
      case False
      then show ?thesis using i by (simp add: bit_withBit)
    qed
    then have "(\<Sum>t<2 ^ ?n. if bit t i then P' ! t else 0) = (\<Sum>j<k. d ! i ! j) + (\<Sum>s<2 ^ ?n. ?J s i)"
      using sum_next [OF P', of "\<lambda>t. bit t i"] inv'(4) i by (simp add: sum.distrib)
    then show ?thesis using d' [OF i] k(1) inv'(3) i by simp
  qed
  have col: "(\<Sum>i<?n. d' ! i ! j) = 1" if "j < Suc k" for j
  proof (cases "j = k")
    case True
    have "(\<Sum>i<?n. d' ! i ! k) = (\<Sum>i<?n. \<Sum>s<2 ^ ?n. ?J s i)"
      by (rule sum.cong) (use d' inv'(3) k(1) in auto)
    also have "\<dots> = (\<Sum>s<2 ^ ?n. \<Sum>i<?n. ?J s i)" by (rule sum.swap)
    finally show ?thesis using J inv'(2) True by simp
  next
    case False
    then show ?thesis using d' inv'(5) k(1) that by simp
  qed
  have dnn: "\<forall>i<?n. \<forall>j<?n. 0 \<le> d' ! i ! j \<and> (Suc k \<le> j \<longrightarrow> d' ! i ! j = 0)"
    using d' inv'(3) Jnn by (auto intro!: sum_nonneg add_nonneg_nonneg)
  show ?thesis using e nn supp total row col dnn by (auto simp: placed_def)
qed

definition initialPlaces :: "nat \<Rightarrow> real list list \<times> real list" where
  "initialPlaces n = (replicate n (replicate n 0), (replicate (2 ^ n) 0)[0 := 1])"

lemma OnesCount_0 [simp]: "OnesCount 0 = 0"
  by (simp add: OnesCount_def)

lemma placed_initial: "placed w 0 (initialPlaces (length w))"
proof -
  have nth: "((replicate (2 ^ n) 0)[0 := 1] :: real list) ! s = (if s = 0 then 1 else 0)" if "s < 2 ^ n" for s n :: nat
    using that by (simp add: nth_list_update)
  have "(\<Sum>s<2 ^ n. ((replicate (2 ^ n) 0)[0 := 1] :: real list) ! s) = (\<Sum>s<2 ^ n. if s = (0 :: nat) then 1 else 0)" for n :: nat
    by (rule sum.cong) (auto simp: nth)
  moreover have "(\<Sum>s<2 ^ n. if bit s i then ((replicate (2 ^ n) 0)[0 := 1] :: real list) ! s else 0) = 0" for n i :: nat
    by (rule sum.neutral) (auto simp: nth)
  ultimately show ?thesis by (simp add: placed_def initialPlaces_def nth)
qed

lemma placed_places:
  assumes "\<forall>x \<in> set w. 0 < (x :: real)" "length w \<le> 64" "k \<le> length w"
  shows "placed w k (fold (placeStep w) [0..<k] (initialPlaces (length w)))"
  using assms(3)
proof (induction k)
  case (Suc k)
  obtain d P where dP: "fold (placeStep w) [0..<k] (initialPlaces (length w)) = (d, P)" by fastforce
  obtain d' P' where "placeStep w k (d, P) = (d', P')" by fastforce
  then show ?case using placed_step [OF assms(1) _ assms(2), of k d P] Suc dP by simp
qed (simp add: placed_initial)

lemma plackettLuce_first:
  assumes w: "\<forall>x \<in> set w. 0 < (x :: real)" and n: "length w \<le> 64" "i < length w" "k \<le> length w" "0 < k"
  shows "fst (fold (placeStep w) [0..<k] (initialPlaces (length w))) ! i ! 0 = w ! i / sum_list w"
  using n(3,4)
proof (induction k)
  case (Suc k)
  let ?n = "length w"
  obtain d P where dP: "fold (placeStep w) [0..<k] (initialPlaces ?n) = (d, P)" by fastforce
  have inv: "placed w k (d, P)" using placed_places [OF w n(1), of k] Suc.prems dP by simp
  obtain d' P' where eq: "placeStep w k (d, P) = (d', P')" by fastforce
  have d': "d' ! i ! 0 = d ! i ! 0 + (if 0 = k then \<Sum>s<2 ^ ?n. joint w k P s i else 0)"
  proof -
    have "0 < ?n" using n(2) by linarith
    then show ?thesis using placeStep_entries [OF _ n(1) inv eq] Suc.prems n(2) by (metis Suc_le_eq)
  qed
  show ?case
  proof (cases "k = 0")
    case True
    then have P: "P ! s = (if s = 0 then 1 else 0)" if "s < 2 ^ ?n" for s
      using dP that by (auto simp: initialPlaces_def nth_list_update)
    have "0 < ?n" using n(2) by linarith
    then have d0: "d ! i ! 0 = 0" using True dP n(2) by (auto simp: initialPlaces_def simp del: length_greater_0_conv)
    have "(\<Sum>s<2 ^ ?n. joint w k P s i) = (\<Sum>s<2 ^ ?n. if s = (0 :: nat) then w ! i / remainingWeight w 0 else 0)"
      by (rule sum.cong) (use True P in \<open>auto simp: joint_def\<close>)
    moreover have "remainingWeight w 0 = sum_list w"
      by (simp add: remainingWeight_sum sum_list_sum_nth atLeast0LessThan)
    ultimately show ?thesis using True d' d0 dP eq by simp
  next
    case False
    then show ?thesis using Suc d' dP eq by simp
  qed
qed simp

text \<open>
  C22. In exact arithmetic the subset dynamic programme yields a coherent placement distribution: for
  positive weights the entries are probabilities, every player's places sum to one, every place's
  players sum to one, and a player is first with probability proportional to the weight.
\<close>

theorem plackettLuce_coherent:
  assumes "\<forall>x \<in> set w. 0 < (x :: real)" "length w \<le> 64"
  shows "length (plackettLuceDistributions w) = length w \<and>
    (\<forall>i<length w. length (plackettLuceDistributions w ! i) = length w \<and>
       (\<forall>j<length w. 0 \<le> plackettLuceDistributions w ! i ! j) \<and>
       (\<Sum>j<length w. plackettLuceDistributions w ! i ! j) = 1 \<and>
       plackettLuceDistributions w ! i ! 0 = w ! i / sum_list w) \<and>
    (\<forall>j<length w. (\<Sum>i<length w. plackettLuceDistributions w ! i ! j) = 1)"
proof -
  let ?n = "length w"
  obtain d P where dP: "fold (placeStep w) [0..<?n] (initialPlaces ?n) = (d, P)" by fastforce
  have pl: "plackettLuceDistributions w = d"
    using dP by (simp add: plackettLuceDistributions_def initialPlaces_def)
  have inv: "placed w ?n (d, P)" using placed_places [OF assms, of ?n] dP by simp
  have "(\<Sum>j<?n. d ! i ! j) = 1" if i: "i < ?n" for i
  proof -
    have "(\<Sum>s<2 ^ ?n. if bit s i then P ! s else 0) = (\<Sum>s<2 ^ ?n. P ! s)"
      by (rule sum.cong) (use inv OnesCount_full [OF _ assms(2)] i in \<open>auto simp: placed_def\<close>)
    then show ?thesis using inv i by (auto simp: placed_def)
  qed
  moreover have "d ! i ! 0 = w ! i / sum_list w" if "i < ?n" for i
    using plackettLuce_first [OF assms that, of ?n] that dP by (cases w) simp_all
  ultimately show ?thesis using inv by (auto simp: pl placed_def)
qed

theorem plackettLuce_coherent_witness:
  "(\<Sum>j<5. plackettLuceDistributions [1, 2, 3, 4, 5 :: real] ! 2 ! j) = 1 \<and>
   plackettLuceDistributions [1, 2, 3, 4, 5 :: real] ! 2 ! 0 = 3 / 15"
proof -
  let ?w = "[1, 2, 3, 4, 5 :: real]"
  have "\<forall>x \<in> set ?w. 0 < x" "length ?w \<le> 64" by simp_all
  note coherent = plackettLuce_coherent [OF this]
  have "length ?w = 5" "2 < length ?w" "?w ! 2 / sum_list ?w = 3 / 15" by simp_all
  then show ?thesis using coherent by metis
qed

section \<open>The weights handed to the programme are positive\<close>

text \<open>
  What \<^verbatim>\<open>placementWeights\<close> relies on from \<^verbatim>\<open>math.Exp\<close>: the clamp at \<open>-700\<close> keeps the exponential away
  from underflow.
\<close>

locale go_exp_pos = go_exp +
  assumes exp_pos: "\<lbrakk>Fin (- 700) \<le> x; x \<le> 0\<rbrakk> \<Longrightarrow> 0 < Exp x"
begin

lemma exp_clamped:
  "\<lbrakk>Fin (- 700) \<le> x; x \<le> 0\<rbrakk> \<Longrightarrow> \<exists>r. Exp x = Fin r \<and> 0 < r \<and> r \<le> 1"
  using exp_unit_Fin [of x] exp_pos [of x] by auto

end

lemma exp_700: "exp 700 \<le> (2 ^ 1074 :: real)"
proof -
  have "exp (1 / 8) \<le> (1 + 1 / 8 + (1 / 8)\<^sup>2 :: real)" by (rule exp_bound) simp_all
  then have "exp (1 / 8) \<le> (73 / 64 :: real)" by (simp add: power2_eq_square)
  then have "exp (1 / 8 :: real) ^ 79 \<le> (73 / 64) ^ 79" by (intro power_mono) simp_all
  also have "\<dots> \<le> 2 ^ 15" by (simp add: power_divide)
  finally have "(exp (1 / 8 :: real) ^ 79) ^ 71 \<le> (2 ^ 15) ^ 71" by (intro power_mono) simp_all
  then have "exp (5609 / 8 :: real) \<le> 2 ^ 1065" by (simp add: exp_of_nat_mult [symmetric] power_mult [symmetric])
  moreover have "exp 700 \<le> exp (5609 / 8 :: real)" by simp
  moreover have "(2 :: real) ^ 1065 \<le> 2 ^ 1074" by (rule power_increasing) simp_all
  ultimately show ?thesis by linarith
qed

interpretation rounded_exp_pos: go_exp_pos math_Exp_rounded
proof
  fix x :: f64
  assume x: "Fin (- 700) \<le> x" "x \<le> 0"
  then obtain r where r: "x = Fin r" "- 700 \<le> r" using f64_between_Fin [of "- 700" x 0] by (auto simp: zero_f64_def)
  have "inverse (2 ^ 1074) \<le> inverse (exp 700 :: real)" using exp_700 by (intro le_imp_inverse_le) simp_all
  also have "inverse (exp 700) = exp (- 700 :: real)" by (simp add: exp_minus)
  also have "\<dots> \<le> exp r" using r(2) by simp
  finally have "f64_round (inverse (2 ^ 1074)) \<le> f64_round (exp r)" by (rule f64_round_mono)
  moreover have "f64_round (inverse (2 ^ 1074)) = Fin (inverse (2 ^ 1074))"
    by (rule f64_round_exact [of _ 1 "- 1074"]) (simp_all add: f64_threshold_def power_int_minus)
  ultimately show "0 < math_Exp_rounded x" by (cases "f64_round (exp r)") (auto simp: r zero_f64_def less_le_trans)
qed

definition f64_value :: "f64 \<Rightarrow> bool" where
  "f64_value x \<longleftrightarrow> f64_finite x \<and> is_f64 x"

lemma f64_value_Fin: "f64_value x \<longleftrightarrow> (\<exists>r. x = Fin r \<and> f64_round r = Fin r)"
  by (cases x) (auto simp: f64_value_def)

lemma f64_value_min_max:
  "f64_value x \<Longrightarrow> f64_value y \<Longrightarrow> f64_value (math_Min x y) \<and> f64_value (math_Max x y)"
  by (auto simp: f64_value_Fin min_def max_def)

lemma scaleStep_means:
  assumes "\<forall>e \<in> set es. f64_value (est_Mean e)" "f64_value mn" "f64_value mx"
  shows "\<exists>mn' mx' v. fold (scaleStep b) es (mn, mx, v0) = (mn', mx', v) \<and> f64_value mn' \<and> f64_value mx'"
  using assms
proof (induction es arbitrary: mn mx v0)
  case (Cons e es)
  then show ?case
    using f64_value_min_max [of mn "est_Mean e"] f64_value_min_max [of mx "est_Mean e"]
    by (auto simp: scaleStep_def)
qed simp

lemma center_finite:
  assumes "f64_value mn" "f64_value mx"
  shows "\<exists>c. mn / Fin 2 + mx / Fin 2 = Fin c"
proof -
  have half: "\<exists>h. x / Fin 2 = Fin h \<and> \<bar>h\<bar> \<le> 2 ^ 1023 - 2 ^ 970" if "f64_value x" for x
  proof -
    obtain r where r: "x = Fin r" "f64_round r = Fin r" using \<open>f64_value x\<close> by (auto simp: f64_value_Fin)
    have M: "f64_round (2 ^ 1023 - 2 ^ 970) = Fin (2 ^ 1023 - 2 ^ 970)"
      by (rule f64_round_exact [of _ "2 ^ 53 - 1" 970]) (simp_all add: f64_threshold_def)
    then have M': "f64_round (- (2 ^ 1023 - 2 ^ 970)) = Fin (- (2 ^ 1023 - 2 ^ 970))"
      using f64_round_uminus by (metis uminus_f64.simps(4))
    have "- (2 ^ 1023 - 2 ^ 970) \<le> r / 2" "r / 2 \<le> 2 ^ 1023 - 2 ^ 970"
      using f64_round_bounded [OF r(2)] by (simp_all add: abs_le_iff)
    then have "\<exists>h. f64_round (r / 2) = Fin h \<and> - (2 ^ 1023 - 2 ^ 970) \<le> h \<and> h \<le> 2 ^ 1023 - 2 ^ 970"
      by (intro f64_round_between) (simp_all only: is_f64.simps M M')
    then obtain h where h: "f64_round (r / 2) = Fin h" "- (2 ^ 1023 - 2 ^ 970) \<le> h" "h \<le> 2 ^ 1023 - 2 ^ 970" by blast
    have "\<bar>h\<bar> \<le> 2 ^ 1023 - 2 ^ 970" using h(2,3) by (simp add: abs_le_iff)
    then show ?thesis using h(1) r(1) by auto
  qed
  obtain h k where hk: "mn / Fin 2 = Fin h" "\<bar>h\<bar> \<le> 2 ^ 1023 - 2 ^ 970" "mx / Fin 2 = Fin k" "\<bar>k\<bar> \<le> 2 ^ 1023 - 2 ^ 970"
    using half [OF assms(1)] half [OF assms(2)] by blast
  have "\<bar>h + k\<bar> \<le> 2 ^ 1024 - 2 ^ 971" using abs_triangle_ineq [of h k] hk(2,4) by simp
  then show ?thesis using f64_round_finite [of "h + k"] hk by simp
qed

lemma logit_finite:
  assumes "f64_finite m" "positiveFinite scale"
  shows "f64_finite (clampLogit ((m - Fin c) / scale))"
proof -
  obtain r s where rs: "m = Fin r" "scale = Fin s" "0 < s"
    using assms by (cases m; cases scale) (auto simp: positiveFinite_def)
  have "(m - Fin c) / scale \<noteq> NaN"
    using rs by (cases "f64_round (r - c)") (auto simp: divide_f64_def signed_inf_def)
  then show ?thesis
    by (cases "(m - Fin c) / scale") (auto simp: clampLogit_def maximumLogitRange_def)
qed

lemma fold_math_Max:
  assumes "\<forall>x \<in> set xs. f64_finite x" "f64_finite a"
  shows "f64_finite (fold (\<lambda>x acc. math_Max acc x) xs a) \<and> a \<le> fold (\<lambda>x acc. math_Max acc x) xs a \<and>
    (\<forall>x \<in> set xs. x \<le> fold (\<lambda>x acc. math_Max acc x) xs a)"
  using assms
proof (induction xs arbitrary: a)
  case (Cons x xs)
  obtain p q where "x = Fin p" "a = Fin q" using Cons.prems by (auto simp: f64_finite_iff)
  then show ?case
    using Cons.IH [of "Fin (max q p)"] Cons.prems(1)
      f64_le_trans [of "Fin p" "Fin (max q p)"] f64_le_trans [of "Fin q" "Fin (max q p)"] by auto
qed (auto simp: f64_finite_iff)

lemma normalized_range:
  assumes "f64_finite l" "f64_finite m" "l \<le> m"
  shows "Fin (- 700) \<le> math_Max (l - m) (- maximumLogitRange) \<and> math_Max (l - m) (- maximumLogitRange) \<le> 0"
proof -
  obtain p q where pq: "l = Fin p" "m = Fin q" "p \<le> q" using assms by (auto simp: f64_finite_iff)
  have "f64_round (p - q) \<le> Fin 0" using f64_round_mono [of "p - q" 0] pq(3) by simp
  then show ?thesis
    by (cases "f64_round (p - q)") (auto simp: pq maximumLogitRange_def math_Max_def zero_f64_def)
qed

text \<open>Estimates of ordinary size, for which the room scale cannot overflow.\<close>

definition ordinaryEstimate :: "BaselineConfig \<Rightarrow> Estimate \<Rightarrow> bool" where
  "ordinaryEstimate b e \<longleftrightarrow> f64_value (est_Mean e) \<and>
     Fin 1 \<le> est_Uncertainty e \<and> est_Uncertainty e \<le> Fin (2 ^ 900) \<and>
     Fin 0 \<le> deviationOr (bc_DefaultPerformanceDeviation b) e \<and>
     deviationOr (bc_DefaultPerformanceDeviation b) e \<le> Fin (2 ^ 900)"

lemma ordinary_norm:
  assumes "ordinaryEstimate b e"
  shows "\<exists>r. math_Hypot (est_Uncertainty e) (deviationOr (bc_DefaultPerformanceDeviation b) e) = Fin r \<and>
    1 \<le> r \<and> r \<le> 2 ^ 901"
proof -
  obtain u d where "est_Uncertainty e = Fin u" "1 \<le> u" "u \<le> 2 ^ 900"
      "deviationOr (bc_DefaultPerformanceDeviation b) e = Fin d" "0 \<le> d" "d \<le> 2 ^ 900"
    using assms f64_between_Fin [of 1 "est_Uncertainty e" "2 ^ 900"]
      f64_between_Fin [of 0 "deviationOr (bc_DefaultPerformanceDeviation b) e" "2 ^ 900"]
    by (auto simp only: ordinaryEstimate_def)
  then show ?thesis using math_Hypot_range [of d 900 u] by auto
qed

lemma scaleStep_norm:
  assumes "\<forall>e \<in> set es. ordinaryEstimate b e" "0 \<le> v" "v \<le> 2 ^ k" "901 \<le> k" "k + length es < 1000"
  shows "\<exists>mn' mx' v'. fold (scaleStep b) es (mn, mx, Fin v) = (mn', mx', Fin v') \<and>
    (es \<noteq> [] \<longrightarrow> 1 \<le> v') \<and> (1 \<le> v \<longrightarrow> 1 \<le> v') \<and> v' \<le> 2 ^ (k + length es)"
  using assms
proof (induction es arbitrary: mn mx v k)
  case (Cons e es)
  obtain r where r: "math_Hypot (est_Uncertainty e) (deviationOr (bc_DefaultPerformanceDeviation b) e) = Fin r"
      "1 \<le> r" "r \<le> 2 ^ 901"
    using ordinary_norm Cons.prems(1) by (metis list.set_intros(1))
  have "(2::real) ^ 901 \<le> 2 ^ k" using Cons.prems(4) by (intro power_increasing) simp_all
  then have "r \<le> 2 ^ k" using r(3) by linarith
  then obtain v1 where v1: "math_Hypot (Fin v) (Fin r) = Fin v1" "1 \<le> v1" "v1 \<le> 2 ^ Suc k"
    using math_Hypot_range [of v k r] Cons.prems(2,3,5) r(2) by auto
  obtain mn' mx' v' where "fold (scaleStep b) es (math_Min mn (est_Mean e), math_Max mx (est_Mean e), Fin v1)
      = (mn', mx', Fin v')" "1 \<le> v'" "v' \<le> 2 ^ (Suc k + length es)"
    using Cons.IH [of v1 "Suc k" "math_Min mn (est_Mean e)" "math_Max mx (est_Mean e)"] Cons.prems v1 by auto
  moreover have "scaleStep b e (mn, mx, Fin v) = (math_Min mn (est_Mean e), math_Max mx (est_Mean e), Fin v1)"
    by (simp add: scaleStep_def r v1)
  ultimately show ?case by auto
qed simp

lemma f64_round_positive:
  assumes "1 / 4 \<le> x" "x \<le> 2 ^ 1000"
  shows "\<exists>r. f64_round x = Fin r \<and> 1 / 4 \<le> r"
proof -
  have "f64_round (1 / 4) = Fin (1 / 4)"
    by (rule f64_round_exact [of _ 1 "- 2"]) (simp_all add: f64_threshold_def)
  then show ?thesis using f64_round_between [of "1 / 4" "2 ^ 1000" x] f64_round_two_power [of 1000] assms by auto
qed

lemma roomScale_positive:
  assumes "1 \<le> v" "v \<le> 2 ^ 990" "1 \<le> n" "n \<le> (7 :: int)"
  shows "positiveFinite (math_Sqrt (Fin 2) * Fin v / math_Sqrt (f64_of_int n))"
proof -
  have "sqrt 2 \<le> 2" using real_sqrt_le_mono [of 2 4] by simp
  then obtain a where a: "f64_round (sqrt 2) = Fin a" "1 \<le> a" "a \<le> 2" using f64_round_one_two [of "sqrt 2"] by auto
  have "1 \<le> a * v" using mult_mono [of 1 a 1 v] a assms(1) by simp
  moreover have "a * v \<le> 2 ^ 991" using mult_mono [of a 2 v "2 ^ 990"] a assms(1,2) by simp
  ultimately obtain x where x: "f64_round (a * v) = Fin x" "1 \<le> x" "x \<le> 2 ^ 991"
    using f64_round_between [of 1 "2 ^ 991" "a * v"] f64_round_two_power [of 991] by auto
  have n: "f64_of_int n = Fin (of_int n)" using assms by (simp add: f64_of_int_def f64_round_of_int)
  have "1 \<le> sqrt (of_int n :: real)" using assms(3) by simp
  moreover have "sqrt (of_int n :: real) \<le> 4" using real_sqrt_le_mono [of "of_int n" 16] assms(4) by simp
  ultimately obtain c where c: "f64_round (sqrt (of_int n)) = Fin c" "1 \<le> c" "c \<le> 4"
    using f64_round_between [of 1 4 "sqrt (of_int n)"] by auto
  have "1 / 4 \<le> x / c" using c x frac_le [of x 1 c 4] by simp
  moreover have "x / c \<le> 2 ^ 1000" using c x frac_le [of "2 ^ 991" x 1 c] by simp
  ultimately obtain r where "f64_round (x / c) = Fin r" "1 / 4 \<le> r" using f64_round_positive by blast
  then show ?thesis using a x c n assms by (auto simp: positiveFinite_def)
qed

lemma placementWeights_total:
  assumes "\<forall>e \<in> set es. ordinaryEstimate b e" "es \<noteq> []" "length es \<le> 7"
  shows "\<exists>ws. placementWeights Exp b es = Inr ws"
proof -
  let ?m = "est_Mean (hd es)"
  obtain mn mx v where f: "fold (scaleStep b) es (?m, ?m, Fin 0) = (mn, mx, Fin v)" "1 \<le> v" "v \<le> 2 ^ (901 + length es)"
    using scaleStep_norm [OF assms(1), of 0 901 ?m ?m] assms(2,3) by auto
  have "(2::real) ^ (901 + length es) \<le> 2 ^ 990" using assms(3) by (intro power_increasing) simp_all
  then have v: "v \<le> 2 ^ 990" using f(3) by linarith
  have "1 \<le> int (length es)" "int (length es) \<le> 7" using assms(2,3) by (cases es; simp)+
  then show ?thesis
    using roomScale_positive [OF f(2) v] f(1) by (simp add: placementWeights_def Let_def zero_f64_def)
qed

text \<open>
  The weights handed to the Plackett-Luce programme always lie in \<open>(0, 1]\<close>: whatever the finite
  means of the room are, no logit is a NaN, an overflowing logit is clamped and the exponential of the
  clamped difference neither underflows to zero nor exceeds one. There is one weight per estimate.
\<close>

theorem placementWeights_positive:
  assumes "go_exp_pos Exp" "\<forall>e \<in> set es. f64_value (est_Mean e)" "es \<noteq> []"
    and "placementWeights Exp b es = Inr ws"
  shows "length ws = length es \<and> (\<forall>x \<in> set ws. \<exists>r. x = Fin r \<and> 0 < r \<and> r \<le> 1)"
proof -
  let ?m = "est_Mean (hd es)"
  have m: "f64_value ?m" using assms(2,3) by simp
  obtain mn mx v where f: "fold (scaleStep b) es (?m, ?m, 0) = (mn, mx, v)" "f64_value mn" "f64_value mx"
    using scaleStep_means [OF assms(2) m m, of b 0] by blast
  obtain c where c: "mn / Fin 2 + mx / Fin 2 = Fin c" using center_finite [OF f(2,3)] by blast
  define scale where "scale = math_Sqrt (Fin 2) * v / math_Sqrt (f64_of_int (int (length es)))"
  define ls where "ls = map (\<lambda>e. clampLogit ((est_Mean e - Fin c) / scale)) es"
  define mxl where "mxl = fold (\<lambda>l acc. math_Max acc l) ls (- MaxFloat64)"
  have ws: "ws = map (\<lambda>l. Exp (math_Max (l - mxl) (- maximumLogitRange))) ls" and sc: "positiveFinite scale"
    using assms(4) by (auto simp: placementWeights_def f(1) c Let_def scale_def ls_def mxl_def split: if_splits)
  have fin: "\<forall>l \<in> set ls. f64_finite l"
    using logit_finite [OF _ sc] assms(2) by (auto simp: ls_def f64_value_def)
  have mx: "f64_finite mxl" "\<forall>l \<in> set ls. l \<le> mxl"
    using fold_math_Max [OF fin, of "- MaxFloat64"] by (simp_all add: mxl_def MaxFloat64_def)
  show ?thesis
    using go_exp_pos.exp_clamped [OF assms(1)] normalized_range fin mx by (auto simp: ws ls_def)
qed

lemma ordinary_sample: "ordinaryEstimate (DefaultBaselineConfig v) sampleEstimate"
  using f64_round_between [of 4 5 "25 / 6"]
  by (auto simp: ordinaryEstimate_def sampleEstimate_def f64_value_Fin deviationOr_def)

theorem placementWeights_positive_witness:
  "\<exists>ws. placementWeights math_Exp_rounded (DefaultBaselineConfig ''m1'') (replicate 5 sampleEstimate) = Inr ws \<and>
     length ws = 5 \<and> (\<forall>x \<in> set ws. \<exists>r. x = Fin r \<and> 0 < r \<and> r \<le> 1)"
proof -
  let ?es = "replicate 5 sampleEstimate" and ?b = "DefaultBaselineConfig ''m1''"
  have es: "\<forall>e \<in> set ?es. ordinaryEstimate ?b e" "?es \<noteq> []" "length ?es \<le> 7" by (simp_all add: ordinary_sample)
  obtain ws where ws: "placementWeights math_Exp_rounded ?b ?es = Inr ws"
    using placementWeights_total [OF es] by blast
  have "\<forall>e \<in> set ?es. f64_value (est_Mean e)" using es(1) by (simp add: ordinaryEstimate_def)
  from placementWeights_positive [OF rounded_exp_pos.go_exp_pos_axioms this es(2) ws]
  show ?thesis using ws by auto
qed

section \<open>The prediction\<close>

lemma length_plackettLuce: "length (plackettLuceDistributions (w :: f64 list)) = length w"
proof -
  have choice: "length (fst (fold (choiceStep k s p r) cs st)) = length (fst st)"
    for k s cs and p r :: f64 and st :: "f64 list list \<times> f64 list"
    by (induction cs arbitrary: st) (auto simp: choiceStep_def Let_def split: prod.splits)
  have state: "length (fst (fold (stateStep w k) ss st)) = length (fst st)" for k ss and st :: "f64 list list \<times> f64 list"
    by (induction ss arbitrary: st) (auto simp: stateStep_def choice split: prod.splits)
  have "length (fst (fold (placeStep w) ks st)) = length (fst st)" for ks and st :: "f64 list list \<times> f64 list"
    by (induction ks arbitrary: st) (auto simp: placeStep_def state split: prod.splits)
  then show ?thesis by (simp add: plackettLuceDistributions_def Let_def)
qed

lemma loadEstimate_Inr:
  "loadEstimate b request k = Inr e \<longleftrightarrow>
     e = estimateAt (map_of (preq_Estimates request)) k \<and> k \<noteq> '''' \<and>
     Baseline_validateEstimate b k e = None \<and> est_UpdatedAt e \<le> preq_GeneratedAt request"
  by (auto simp: loadEstimate_def Let_def)

lemma placementWeights_length: "placementWeights Exp b es = Inr ws \<Longrightarrow> length ws = length es"
  by (auto simp: placementWeights_def Let_def split: if_splits prod.splits)

text \<open>
  C23. A prediction is made only from information available when it is generated: every estimate of the
  room is valid for the model version and was updated no later than the generation time. The prediction
  lists each player of the request exactly once, in id order, under the version of the model.
\<close>

theorem Predict_pregame_only:
  assumes "Baseline_Predict Exp b request = Inr p" "distinct (map fst (preq_Estimates request))"
  shows "(\<forall>(k, e) \<in> set (preq_Estimates request). k \<noteq> '''' \<and> Baseline_validateEstimate b k e = None \<and>
            est_UpdatedAt e \<le> preq_GeneratedAt request) \<and>
         map pp_PlayerID (rp_Participants p) = sort (map fst (preq_Estimates request)) \<and>
         rp_ModelVersion p = bc_Version b \<and> rp_GeneratedAt p = preq_GeneratedAt request \<and>
         length (rp_Participants p) \<in> {5..7}"
proof -
  let ?ids = "sort (map fst (preq_Estimates request))"
  obtain es ws where es: "mapR (loadEstimate b request) ?ids = Inr es" and ws: "placementWeights Exp b es = Inr ws"
    and p: "rp_Participants p = map placementPrediction (zip ?ids (plackettLuceDistributions ws))"
      "rp_ModelVersion p = bc_Version b" "rp_GeneratedAt p = preq_GeneratedAt request"
    and n: "length (preq_Estimates request) \<in> {5..7}"
    using assms(1) by (auto simp: Baseline_Predict_def Let_def room_size_defs split: if_splits)
  have len: "length (plackettLuceDistributions ws) = length ?ids"
    using mapR_length [OF es] placementWeights_length [OF ws] by (simp add: length_plackettLuce)
  then have "map pp_PlayerID (rp_Participants p) = ?ids"
    by (simp add: p placementPrediction_def comp_def split_def)
  moreover have "k \<noteq> '''' \<and> Baseline_validateEstimate b k e = None \<and> est_UpdatedAt e \<le> preq_GeneratedAt request"
    if "(k, e) \<in> set (preq_Estimates request)" for k e
  proof -
    have "k \<in> set ?ids" using that by force
    then obtain e' where "loadEstimate b request k = Inr e'" using mapR_covers [OF es] by blast
    moreover have "estimateAt (map_of (preq_Estimates request)) k = e" using that assms(2) by (simp add: estimateAt_def)
    ultimately show ?thesis by (auto simp: loadEstimate_Inr)
  qed
  ultimately show ?thesis using p n len by auto
qed

definition sampleRequest :: PredictionRequest where
  "sampleRequest = \<lparr>preq_RoomID = ''room'', preq_ModeID = ''mode'', preq_GeneratedAt = 9,
     preq_Estimates = map (\<lambda>k. (k, sampleEstimate)) [''bob'', ''ann'', ''eve'', ''cyd'', ''dan'']\<rparr>"

lemma sample_prediction: "\<exists>p. Baseline_Predict Exp (DefaultBaselineConfig ''m1'') sampleRequest = Inr p"
proof -
  let ?b = "DefaultBaselineConfig ''m1''" and ?ids = "sort [''bob'', ''ann'', ''eve'', ''cyd'', ''dan'']"
  have ids: "map fst (preq_Estimates sampleRequest) = [''bob'', ''ann'', ''eve'', ''cyd'', ''dan'']"
    by (simp add: sampleRequest_def)
  have "loadEstimate ?b sampleRequest k = Inr sampleEstimate" if "k \<in> set ?ids" for k
    using that by (auto simp: loadEstimate_Inr sampleRequest_def estimateAt_def sampleEstimate_def
        Baseline_validateEstimate_None Estimate_Validate_None)
  then have load: "mapR (loadEstimate ?b sampleRequest) ?ids = Inr (map (\<lambda>_. sampleEstimate) ?ids)"
    by (rule mapR_total)
  have "\<exists>ws. placementWeights Exp ?b (map (\<lambda>_. sampleEstimate) ?ids) = Inr ws"
    by (rule placementWeights_total) (auto simp: ordinary_sample)
  moreover have "length (preq_Estimates sampleRequest) = 5" by (simp add: sampleRequest_def)
  ultimately show ?thesis
    using load by (auto simp: Baseline_Predict_def ids Let_def room_size_defs) (auto simp: sampleRequest_def)
qed

theorem Predict_pregame_only_witness:
  "\<exists>p. Baseline_Predict math_Exp_rounded (DefaultBaselineConfig ''m1'') sampleRequest = Inr p \<and>
     map pp_PlayerID (rp_Participants p) = [''ann'', ''bob'', ''cyd'', ''dan'', ''eve'']"
proof -
  obtain p where p: "Baseline_Predict math_Exp_rounded (DefaultBaselineConfig ''m1'') sampleRequest = Inr p"
    using sample_prediction by blast
  have "distinct (map fst (preq_Estimates sampleRequest))" by (simp add: sampleRequest_def)
  from Predict_pregame_only [OF p this] p show ?thesis
    by (auto simp: sampleRequest_def)
qed

end
