(* ===== verification/Rating_Calibration.thy ===== *)
theory Rating_Calibration
  imports Rating_Prediction
begin

text \<open>
  \<^verbatim>\<open>pkg/rating/calibration.go\<close>: scoring of placement predictions against later verified results, over one
  homogeneous segment, and the holdout boundary that keeps training data out of an evaluation.
  \<^verbatim>\<open>math.Log\<close> is the parameter \<open>Log\<close>.
\<close>

section \<open>Data\<close>

definition predictionTolerance :: f64 where "predictionTolerance = f64_round (1 / 10 ^ 9)"
definition minimumLogProbability :: f64 where "minimumLogProbability = f64_round (1 / 10 ^ 15)"

record CalibrationObservation =
  co_Prediction :: RoomPrediction
  co_Result :: MatchResult

record CalibrationBin =
  cb_LowerBound :: f64
  cb_UpperBound :: f64
  cb_Count :: int
  cb_MeanPredicted :: f64
  cb_ObservedFrequency :: f64

record CalibrationReport =
  cr_ModelVersion :: string
  cr_ModeID :: string
  cr_ScoringRulesVersion :: string
  cr_RoomSize :: int
  cr_Rooms :: int
  cr_Players :: int
  cr_MulticlassBrierScore :: f64
  cr_MeanLogLoss :: f64
  cr_ExpectedCalibrationError :: f64
  cr_Bins :: "CalibrationBin list"

record HoldoutCalibrationConfig =
  hc_TrainingCutoff :: time
  hc_ModelTrainedThrough :: time
  hc_BinCount :: int

record HoldoutCalibrationReport =
  hr_TrainingCutoff :: time
  hr_ModelTrainedThrough :: time
  hr_Calibration :: CalibrationReport

section \<open>Validation of one observation\<close>

definition validateCalibrationSegment :: "CalibrationReport \<Rightarrow> CalibrationObservation \<Rightarrow> error" where
  "validateCalibrationSegment report observation =
     andthenE (MatchResult_Validate (co_Result observation))
      (let prediction = co_Prediction observation; r = co_Result observation in
       if rp_RoomID prediction \<noteq> mr_RoomID r \<or> rp_ModeID prediction \<noteq> mr_ModeID r
       then Some (ErrorsNew ''prediction room and mode must match the result'')
       else if IsZero (rp_GeneratedAt prediction) \<or> After (rp_GeneratedAt prediction) (mr_FinishedAt r)
       then Some (ErrorsNew ''prediction must be generated before the result finishes'')
       else if rp_ModelVersion prediction = '''' \<or> rp_ModelVersion prediction \<noteq> cr_ModelVersion report
          \<or> mr_ModeID r \<noteq> cr_ModeID report \<or> mr_ScoringRulesVersion r \<noteq> cr_ScoringRulesVersion report
          \<or> int (length (mr_Participants r)) \<noteq> cr_RoomSize report
       then Some (ErrorsNew ''calibration observations must belong to one model, mode, rules version and room size'')
       else if int (length (rp_Participants prediction)) \<noteq> cr_RoomSize report
       then Some (ErrorsNew ''prediction participant count must match the result'')
       else None)"

text \<open>The loop over the probabilities of one player: their sum and the expected place.\<close>

fun placementLoop :: "int \<Rightarrow> f64 \<Rightarrow> f64 \<Rightarrow> f64 list \<Rightarrow> (f64 \<times> f64) result" where
  "placementLoop placeIndex sumP expected [] = Inr (sumP, expected)"
| "placementLoop placeIndex sumP expected (probability # ps) =
     (if \<not> f64_finite probability \<or> probability < 0 \<or> 1 < probability
      then Inl (ErrorsNew ''place probabilities must be finite and between zero and one'')
      else placementLoop (placeIndex + 1) (sumP + probability)
             (expected + f64_of_int (placeIndex + 1) * probability) ps)"

definition validatePlacementPrediction :: "PlacementPrediction \<Rightarrow> int \<Rightarrow> error" where
  "validatePlacementPrediction prediction roomSize =
     (if pp_PlayerID prediction = '''' \<or> int (length (pp_PlaceProbabilities prediction)) \<noteq> roomSize
      then Some (ErrorsNew ''player id and one probability per place are required'')
      else case placementLoop 0 0 0 (pp_PlaceProbabilities prediction) of
        Inl e \<Rightarrow> Some e
      | Inr (sumP, expected) \<Rightarrow>
          if predictionTolerance < f64_abs (sumP - 1)
          then Some (ErrorsNew ''place probabilities must sum to one'')
          else if \<not> f64_finite (pp_ExpectedPlace prediction)
             \<or> predictionTolerance < f64_abs (expected - pp_ExpectedPlace prediction)
          then Some (ErrorsNew ''expected place must match the place distribution'')
          else if \<not> f64_finite (pp_FirstPlaceProbability prediction)
             \<or> predictionTolerance < f64_abs (hd (pp_PlaceProbabilities prediction) - pp_FirstPlaceProbability prediction)
          then Some (ErrorsNew ''first-place probability must match the place distribution'')
          else None)"

section \<open>Accumulation\<close>

record CalibrationTotals =
  ct_counts :: "int list"
  ct_predictedSums :: "f64 list"
  ct_observedSums :: "f64 list"
  ct_brierTotal :: f64
  ct_logLossTotal :: f64
  ct_players :: int

definition cellStep :: "int \<Rightarrow> int \<Rightarrow> nat \<times> f64 \<Rightarrow> CalibrationTotals \<Rightarrow> CalibrationTotals" where
  "cellStep binCount actualPlace cell st =
     (case cell of (placeIndex, probability) \<Rightarrow>
        let observed = (if int placeIndex + 1 = actualPlace then Fin 1 else Fin 0);
            difference = probability - observed;
            binIndex = nat (min (f64_to_int (probability * f64_of_int binCount)) (binCount - 1))
        in st\<lparr>ct_brierTotal := ct_brierTotal st + difference * difference,
              ct_counts := (ct_counts st)[binIndex := ct_counts st ! binIndex + 1],
              ct_predictedSums := (ct_predictedSums st)[binIndex := ct_predictedSums st ! binIndex + probability],
              ct_observedSums := (ct_observedSums st)[binIndex := ct_observedSums st ! binIndex + observed]\<rparr>)"

definition playerStep ::
  "(f64 \<Rightarrow> f64) \<Rightarrow> int \<Rightarrow> int \<Rightarrow> PlacementPrediction \<Rightarrow> CalibrationTotals \<Rightarrow> CalibrationTotals" where
  "playerStep Log binCount actualPlace participant st =
     (let st = fold (cellStep binCount actualPlace) (indexed (pp_PlaceProbabilities participant)) st in
      st\<lparr>ct_logLossTotal := ct_logLossTotal st
            - Log (math_Max (pp_PlaceProbabilities participant ! nat (actualPlace - 1)) minimumLogProbability),
         ct_players := ct_players st + 1\<rparr>)"

fun participantLoop ::
  "(f64 \<Rightarrow> f64) \<Rightarrow> int \<Rightarrow> int \<Rightarrow> int \<Rightarrow> (string \<rightharpoonup> int) \<Rightarrow> string list \<Rightarrow> PlacementPrediction list
     \<Rightarrow> CalibrationTotals \<Rightarrow> (string list \<times> CalibrationTotals) result" where
  "participantLoop Log binCount roomSize index places seen [] st = Inr (seen, st)"
| "participantLoop Log binCount roomSize index places seen (participant # ps) st =
     (case places (pp_PlayerID participant) of
        None \<Rightarrow> Inl (Errorf ''calibration observation %d: prediction contains unknown player %q''
                       [ArgI index, ArgS (pp_PlayerID participant)] None)
      | Some actualPlace \<Rightarrow>
          if pp_PlayerID participant \<in> set seen
          then Inl (Errorf ''calibration observation %d: prediction contains duplicate player %q''
                      [ArgI index, ArgS (pp_PlayerID participant)] None)
          else guardE (wrapE ''calibration observation %d: player %q: %w'' [ArgI index, ArgS (pp_PlayerID participant)]
                         (validatePlacementPrediction participant roomSize))
                 (participantLoop Log binCount roomSize index places (pp_PlayerID participant # seen) ps
                    (playerStep Log binCount actualPlace participant st)))"

definition placesOf :: "MatchResult \<Rightarrow> string \<rightharpoonup> int" where
  "placesOf r = map_of (map (\<lambda>p. (pr_PlayerID p, pr_Place p)) (mr_Participants r))"

fun observationLoop ::
  "(f64 \<Rightarrow> f64) \<Rightarrow> int \<Rightarrow> CalibrationReport \<Rightarrow> int \<Rightarrow> CalibrationObservation list \<Rightarrow> CalibrationTotals
     \<Rightarrow> CalibrationTotals result" where
  "observationLoop Log binCount report index [] st = Inr st"
| "observationLoop Log binCount report index (observation # os) st =
     guardE (wrapE ''calibration observation %d: %w'' [ArgI index] (validateCalibrationSegment report observation))
      (rbind (participantLoop Log binCount (cr_RoomSize report) index (placesOf (co_Result observation)) []
                (rp_Participants (co_Prediction observation)) st) (\<lambda>(seen, st).
         if length seen \<noteq> length (mr_Participants (co_Result observation))
         then Inl (Errorf ''calibration observation %d: prediction is missing result participants'' [ArgI index] None)
         else observationLoop Log binCount report (index + 1) os st))"

definition emptyBin :: "int \<Rightarrow> nat \<Rightarrow> CalibrationBin" where
  "emptyBin binCount index =
     \<lparr>cb_LowerBound = f64_of_int (int index) / f64_of_int binCount,
      cb_UpperBound = f64_of_int (int index + 1) / f64_of_int binCount,
      cb_Count = 0, cb_MeanPredicted = 0, cb_ObservedFrequency = 0\<rparr>"

definition finishBin :: "int \<Rightarrow> CalibrationTotals \<Rightarrow> nat \<Rightarrow> CalibrationBin" where
  "finishBin binCount st index =
     (let bin = (emptyBin binCount index)\<lparr>cb_Count := ct_counts st ! index\<rparr> in
      if cb_Count bin = 0 then bin
      else bin\<lparr>cb_MeanPredicted := ct_predictedSums st ! index / f64_of_int (cb_Count bin),
               cb_ObservedFrequency := ct_observedSums st ! index / f64_of_int (cb_Count bin)\<rparr>)"

definition binError :: "int \<Rightarrow> CalibrationBin \<Rightarrow> f64 \<Rightarrow> f64" where
  "binError totalCells bin acc =
     (if cb_Count bin = 0 then acc
      else acc + f64_of_int (cb_Count bin) / f64_of_int totalCells *
             f64_abs (cb_MeanPredicted bin - cb_ObservedFrequency bin))"

definition initialTotals :: "int \<Rightarrow> CalibrationTotals" where
  "initialTotals binCount =
     \<lparr>ct_counts = replicate (nat binCount) 0, ct_predictedSums = replicate (nat binCount) 0,
      ct_observedSums = replicate (nat binCount) 0, ct_brierTotal = 0, ct_logLossTotal = 0, ct_players = 0\<rparr>"

definition EvaluateCalibration ::
  "(f64 \<Rightarrow> f64) \<Rightarrow> CalibrationObservation list \<Rightarrow> int \<Rightarrow> CalibrationReport result" where
  "EvaluateCalibration Log observations binCount =
     (if observations = [] then Inl (ErrorsNew ''calibration requires at least one observation'')
      else if binCount < 2 \<or> 100 < binCount
      then Inl (ErrorsNew ''calibration bin count must be between 2 and 100'')
      else
        let first = hd observations;
            report = \<lparr>cr_ModelVersion = rp_ModelVersion (co_Prediction first),
                      cr_ModeID = mr_ModeID (co_Result first),
                      cr_ScoringRulesVersion = mr_ScoringRulesVersion (co_Result first),
                      cr_RoomSize = int (length (mr_Participants (co_Result first))),
                      cr_Rooms = int (length observations), cr_Players = 0,
                      cr_MulticlassBrierScore = 0, cr_MeanLogLoss = 0, cr_ExpectedCalibrationError = 0,
                      cr_Bins = map (emptyBin binCount) [0..<nat binCount]\<rparr>
        in rbind (observationLoop Log binCount report 0 observations (initialTotals binCount)) (\<lambda>st.
             let bins = map (finishBin binCount st) [0..<nat binCount];
                 totalCells = ct_players st * cr_RoomSize report
             in Inr (report\<lparr>cr_Players := ct_players st,
                            cr_MulticlassBrierScore := ct_brierTotal st / f64_of_int (ct_players st),
                            cr_MeanLogLoss := ct_logLossTotal st / f64_of_int (ct_players st),
                            cr_Bins := bins,
                            cr_ExpectedCalibrationError := fold (binError totalCells) bins 0\<rparr>)))"

definition holdoutCheck :: "HoldoutCalibrationConfig \<Rightarrow> nat \<times> CalibrationObservation \<Rightarrow> error" where
  "holdoutCheck config iobs =
     (case iobs of (index, observation) \<Rightarrow>
        if \<not> After (mr_AvailableAt (co_Result observation)) (hc_TrainingCutoff config)
        then Some (Errorf ''holdout observation %d was available by the training cutoff'' [ArgI (int index)] None)
        else if Before (rp_GeneratedAt (co_Prediction observation)) (hc_ModelTrainedThrough config)
        then Some (Errorf ''holdout observation %d prediction predates the model training horizon'' [ArgI (int index)] None)
        else None)"

definition EvaluateHoldoutCalibration ::
  "(f64 \<Rightarrow> f64) \<Rightarrow> CalibrationObservation list \<Rightarrow> HoldoutCalibrationConfig \<Rightarrow> HoldoutCalibrationReport result" where
  "EvaluateHoldoutCalibration Log observations config =
     (if IsZero (hc_TrainingCutoff config) \<or> IsZero (hc_ModelTrainedThrough config)
      then Inl (ErrorsNew ''holdout training cutoff and model training time are required'')
      else if After (hc_ModelTrainedThrough config) (hc_TrainingCutoff config)
      then Inl (ErrorsNew ''holdout model cannot be trained beyond the training cutoff'')
      else guardE (forE (holdoutCheck config) (indexed observations))
        (rbind (EvaluateCalibration Log observations (hc_BinCount config)) (\<lambda>report.
           Inr \<lparr>hr_TrainingCutoff = hc_TrainingCutoff config,
                hr_ModelTrainedThrough = hc_ModelTrainedThrough config,
                hr_Calibration = report\<rparr>)))"

section \<open>Every cell is counted once\<close>

lemma sum_list_bump:
  "i < length xs \<Longrightarrow> sum_list (xs[i := xs ! i + 1]) = sum_list xs + (1 :: int)"
proof (induction xs arbitrary: i)
  case (Cons x xs)
  then show ?case by (cases i) auto
qed simp

lemma placementLoop_unit:
  "placementLoop i s e ps = Inr r \<Longrightarrow> p \<in> set ps \<Longrightarrow> \<exists>x. p = Fin x \<and> 0 \<le> x \<and> x \<le> 1"
proof (induction ps arbitrary: i s e)
  case (Cons q ps)
  then show ?case by (cases q) (auto split: if_splits)
qed simp

lemma cellStep_counts:
  assumes "2 \<le> binCount" "length (ct_counts st) = nat binCount" "p = Fin x" "0 \<le> x"
  shows "sum_list (ct_counts (cellStep binCount a (i, p) st)) = sum_list (ct_counts st) + 1 \<and>
    length (ct_counts (cellStep binCount a (i, p) st)) = nat binCount \<and>
    ct_players (cellStep binCount a (i, p) st) = ct_players st"
proof -
  let ?b = "nat (min (f64_to_int (p * f64_of_int binCount)) (binCount - 1))"
  have "?b < nat binCount" using assms(1) by auto
  then show ?thesis using assms(2) sum_list_bump [of ?b "ct_counts st"] by (simp add: cellStep_def Let_def)
qed

lemma fold_cellStep_counts:
  assumes "2 \<le> binCount" "length (ct_counts st) = nat binCount" "\<forall>c \<in> set cells. \<exists>x. snd c = Fin x \<and> 0 \<le> x"
  shows "sum_list (ct_counts (fold (cellStep binCount a) cells st)) = sum_list (ct_counts st) + int (length cells) \<and>
    length (ct_counts (fold (cellStep binCount a) cells st)) = nat binCount \<and>
    ct_players (fold (cellStep binCount a) cells st) = ct_players st"
  using assms(2,3)
proof (induction cells arbitrary: st)
  case (Cons c cells)
  obtain i x where c: "c = (i, Fin x)" "0 \<le> x" using Cons.prems(2) by (cases c) auto
  show ?case
    using Cons.IH [of "cellStep binCount a c st"] cellStep_counts [OF assms(1) Cons.prems(1) refl c(2), of a i] Cons.prems
    by (simp add: c(1))
qed simp

lemma playerStep_counts:
  assumes "2 \<le> binCount" "length (ct_counts st) = nat binCount" "validatePlacementPrediction p n = None"
  shows "sum_list (ct_counts (playerStep Log binCount a p st)) = sum_list (ct_counts st) + n \<and>
    length (ct_counts (playerStep Log binCount a p st)) = nat binCount \<and>
    ct_players (playerStep Log binCount a p st) = ct_players st + 1"
proof -
  obtain r where r: "placementLoop 0 0 0 (pp_PlaceProbabilities p) = Inr r" and n: "n = int (length (pp_PlaceProbabilities p))"
    using assms(3) by (auto simp: validatePlacementPrediction_def split: if_splits sum.splits)
  have "\<forall>c \<in> set (indexed (pp_PlaceProbabilities p)). \<exists>x. snd c = Fin x \<and> 0 \<le> x"
    using placementLoop_unit [OF r] ball_indexed [of "pp_PlaceProbabilities p" "\<lambda>q. \<exists>x. q = Fin x \<and> 0 \<le> x"] by fast
  from fold_cellStep_counts [OF assms(1,2) this, of a] show ?thesis by (simp add: playerStep_def Let_def n)
qed

lemma participantLoop_counts:
  assumes "2 \<le> binCount" "length (ct_counts st) = nat binCount"
    "participantLoop Log binCount n i places seen ps st = Inr (seen', st')"
  shows "sum_list (ct_counts st') = sum_list (ct_counts st) + n * int (length ps) \<and> length (ct_counts st') = nat binCount \<and>
    ct_players st' = ct_players st + int (length ps) \<and> length seen' = length seen + length ps"
  using assms(2,3)
proof (induction ps arbitrary: seen st)
  case (Cons p ps)
  obtain a where a: "validatePlacementPrediction p n = None"
      "participantLoop Log binCount n i places (pp_PlayerID p # seen) ps (playerStep Log binCount a p st) = Inr (seen', st')"
    using Cons.prems(2) by (auto split: option.splits if_splits)
  note s = playerStep_counts [OF assms(1) Cons.prems(1) a(1), of Log a]
  show ?case using Cons.IH [OF _ a(2)] s by (auto simp: algebra_simps)
qed simp

lemma observationLoop_counts:
  assumes "2 \<le> binCount" "length (ct_counts st) = nat binCount" "observationLoop Log binCount report i os st = Inr st'"
  shows "sum_list (ct_counts st') = sum_list (ct_counts st) + cr_RoomSize report * cr_RoomSize report * int (length os) \<and>
    length (ct_counts st') = nat binCount \<and> ct_players st' = ct_players st + cr_RoomSize report * int (length os)"
  using assms(2,3)
proof (induction os arbitrary: i st)
  case (Cons ob os)
  obtain seen st1 where 1: "participantLoop Log binCount (cr_RoomSize report) i (placesOf (co_Result ob)) []
        (rp_Participants (co_Prediction ob)) st = Inr (seen, st1)"
      "observationLoop Log binCount report (i + 1) os st1 = Inr st'"
      "int (length (rp_Participants (co_Prediction ob))) = cr_RoomSize report"
    using Cons.prems(2) by (auto simp: validateCalibrationSegment_def Let_def split: if_splits)
  note s = participantLoop_counts [OF assms(1) Cons.prems(1) 1(1)]
  show ?case using Cons.IH [OF _ 1(2)] s 1(3) by (auto simp: algebra_simps)
qed simp

lemma EvaluateCalibration_counts:
  assumes "EvaluateCalibration Log observations binCount = Inr report"
  shows "cr_Rooms report = int (length observations) \<and>
    cr_Players report = cr_RoomSize report * cr_Rooms report \<and>
    length (cr_Bins report) = nat binCount \<and>
    sum_list (map cb_Count (cr_Bins report)) = cr_Players report * cr_RoomSize report"
proof -
  obtain report0 st where b: "2 \<le> binCount" and l: "observationLoop Log binCount report0 0 observations (initialTotals binCount) = Inr st"
    and r: "cr_RoomSize report = cr_RoomSize report0" "cr_Rooms report = int (length observations)"
      "cr_Players report = ct_players st" "cr_Bins report = map (finishBin binCount st) [0..<nat binCount]"
    using assms by (auto simp: EvaluateCalibration_def Let_def split: if_splits)
  have i: "length (ct_counts (initialTotals binCount)) = nat binCount" by (simp add: initialTotals_def)
  note c = observationLoop_counts [OF b i l]
  have "cb_Count (finishBin binCount st k) = ct_counts st ! k" for k
    by (simp add: finishBin_def Let_def)
  then have "map cb_Count (cr_Bins report) = ct_counts st"
    using c by (auto simp: r(4) comp_def intro!: nth_equalityI)
  then show ?thesis using c r by (simp add: initialTotals_def sum_list_replicate)
qed


fun math_Log_rounded :: "f64 \<Rightarrow> f64" where
  "math_Log_rounded (Fin x) = (if x < 0 then NaN else if x = 0 then NInf else f64_round (ln x))"
| "math_Log_rounded PInf = PInf"
| "math_Log_rounded _ = NaN"

text \<open>A certain prediction of the sample room.\<close>

definition certainPrediction :: "string \<times> nat \<Rightarrow> PlacementPrediction" where
  "certainPrediction row = (case row of (k, n) \<Rightarrow>
     \<lparr>pp_PlayerID = k, pp_PlaceProbabilities = map (\<lambda>i. if i = n then Fin 1 else Fin 0) [0, 1, 2, 3, 4],
      pp_FirstPlaceProbability = (if n = 0 then Fin 1 else Fin 0), pp_ExpectedPlace = Fin (real n + 1)\<rparr>)"

definition sampleObservation :: CalibrationObservation where
  "sampleObservation = \<lparr>co_Prediction =
       \<lparr>rp_RoomID = ''room'', rp_ModeID = ''mode'', rp_ModelVersion = ''m1'', rp_GeneratedAt = 5,
        rp_Participants = map certainPrediction [(''ann'', 0), (''bob'', 1), (''eve'', 2), (''cyd'', 3), (''dan'', 4)]\<rparr>,
     co_Result = sampleResult\<rparr>"

lemma tolerance_nonneg: "\<not> predictionTolerance < Fin 0"
  using f64_round_nonneg [of "1 / 10 ^ 9"]
  by (cases "f64_round (1 / 10 ^ 9)") (auto simp: predictionTolerance_def zero_f64_def)

lemma certainPrediction_valid:
  assumes "n \<in> {0, 1, 2, 3, 4}" "k \<noteq> ''''"
  shows "validatePlacementPrediction (certainPrediction (k, n)) 5 = None"
proof -
  let ?p = "certainPrediction (k, n)"
  have 1: "placementLoop 0 0 0 (pp_PlaceProbabilities ?p) = Inr (Fin 1, Fin (real n + 1))"
    using assms(1) by (auto simp: certainPrediction_def f64_of_int_def zero_f64_def one_f64_def)
  have 2: "length (pp_PlaceProbabilities ?p) = 5" "pp_PlayerID ?p = k"
      "pp_ExpectedPlace ?p = Fin (real n + 1)" by (simp_all add: certainPrediction_def)
  have 3: "hd (pp_PlaceProbabilities ?p) = pp_FirstPlaceProbability ?p" "f64_finite (pp_FirstPlaceProbability ?p)"
    by (simp_all add: certainPrediction_def)
  have 4: "\<not> predictionTolerance < f64_abs (x - x)" if "f64_finite x" for x
    using that tolerance_nonneg by (auto simp: f64_finite_iff)
  show ?thesis unfolding validatePlacementPrediction_def 1 2 3(1)
    using 4 [OF 3(2)] 4 [of "Fin (real n + 1)"] 4 [of "Fin 1"] 3(2) assms(2) by (simp add: one_f64_def)
qed

lemma participantLoop_total:
  assumes "\<forall>p \<in> set ps. places (pp_PlayerID p) \<noteq> None \<and> validatePlacementPrediction p n = None"
    "distinct (map pp_PlayerID ps)" "set (map pp_PlayerID ps) \<inter> set seen = {}"
  shows "\<exists>st'. participantLoop Log bins n i places seen ps st = Inr (rev (map pp_PlayerID ps) @ seen, st')"
  using assms
proof (induction ps arbitrary: seen st)
  case (Cons p ps)
  obtain a where a: "places (pp_PlayerID p) = Some a" using Cons.prems(1) by auto
  have "\<exists>st'. participantLoop Log bins n i places (pp_PlayerID p # seen) ps (playerStep Log bins a p st)
      = Inr (rev (map pp_PlayerID ps) @ pp_PlayerID p # seen, st')"
    by (rule Cons.IH) (use Cons.prems in auto)
  then show ?case using a Cons.prems by auto
qed simp

lemma sample_calibration: "\<exists>report. EvaluateCalibration Log [sampleObservation] 10 = Inr report"
proof -
  let ?ps = "map certainPrediction [(''ann'', 0), (''bob'', 1), (''eve'', 2), (''cyd'', 3), (''dan'', 4)]"
  have vr: "MatchResult_Validate sampleResult = None"
    using sample_updatable by (simp add: MatchResult_Validate_complete updatable_def)
  have ids: "map pp_PlayerID ?ps = [''ann'', ''bob'', ''eve'', ''cyd'', ''dan'']" by (simp add: certainPrediction_def)
  have r: "length (mr_Participants sampleResult) = 5" "mr_RoomID sampleResult = ''room''" "mr_ModeID sampleResult = ''mode''"
      "mr_FinishedAt sampleResult = 10"
    by (simp_all add: sampleResult_def sampleParticipants_def)
  have "\<forall>p \<in> set ?ps. placesOf sampleResult (pp_PlayerID p) \<noteq> None \<and> validatePlacementPrediction p 5 = None"
    by (simp add: certainPrediction_valid) (simp add: placesOf_def sampleResult_def sampleParticipants_def certainPrediction_def)
  then have "\<exists>st'. participantLoop Log 10 5 0 (placesOf sampleResult) [] ?ps st = Inr (rev (map pp_PlayerID ?ps) @ [], st')" for st
    by (rule participantLoop_total) (simp_all only: ids, simp_all)
  then obtain st' where "participantLoop Log 10 5 0 (placesOf sampleResult) [] ?ps (initialTotals 10) = Inr (rev (map pp_PlayerID ?ps) @ [], st')"
    by blast
  then have st': "participantLoop Log 10 5 0 (placesOf sampleResult) [] ?ps (initialTotals 10) = Inr ([''dan'', ''cyd'', ''eve'', ''bob'', ''ann''], st')"
    unfolding ids by simp
  obtain pred where p: "sampleObservation = \<lparr>co_Prediction = pred, co_Result = sampleResult\<rparr>" "rp_Participants pred = ?ps"
      "rp_RoomID pred = ''room''" "rp_ModeID pred = ''mode''" "rp_ModelVersion pred = ''m1''" "rp_GeneratedAt pred = 5"
    by (rule that [of "co_Prediction sampleObservation"]) (simp_all add: sampleObservation_def)
  show ?thesis
    unfolding EvaluateCalibration_def Let_def p(1)
    using vr r p(2-) st' by (simp add: validateCalibrationSegment_def Let_def del: list.map)
qed


end
