(* ===== verification/Rating_Comparison.thy ===== *)
theory Rating_Comparison
  imports Rating_Calibration
begin

text \<open>
  \<^verbatim>\<open>pkg/rating/comparison.go\<close>: the paired holdout comparison of a candidate model with the active
  baseline, and the recomputation of its evidence before an activation. The texts that \<^verbatim>\<open>fmt.Sprintf\<close>
  builds for rejected comparisons are values of \<open>comparisonReason\<close>.
\<close>

section \<open>Data\<close>

definition comparisonTolerance :: f64 where "comparisonTolerance = f64_round (1 / 10 ^ 12)"

record PairedCalibrationObservation =
  pco_SegmentID :: string
  pco_BaselinePrediction :: RoomPrediction
  pco_CandidatePrediction :: RoomPrediction
  pco_Result :: MatchResult

record ModelComparisonPolicy =
  mcp_MinimumRoomsPerSegment :: int
  mcp_MinimumOverallBrierImprovement :: f64
  mcp_MaximumSegmentBrierRegression :: f64
  mcp_MaximumSegmentLogLossRegression :: f64
  mcp_MaximumSegmentCalibrationRegression :: f64

record ModelComparisonConfig =
  mcc_TrainingCutoff :: time
  mcc_BaselineTrainedThrough :: time
  mcc_CandidateTrainedThrough :: time
  mcc_BinCount :: int
  mcc_Policy :: ModelComparisonPolicy

record ComparisonMetrics =
  cm_MulticlassBrierScore :: f64
  cm_MeanLogLoss :: f64
  cm_ExpectedCalibrationError :: f64

datatype comparisonReason =
    RoomsBelowRequired int int
  | RegressionExceeds string f64 f64
  | SegmentReason string comparisonReason
  | OverallImprovementBelow f64 f64

record SegmentComparison =
  sc_SegmentID :: string
  sc_ModeID :: string
  sc_ScoringRulesVersion :: string
  sc_RoomSize :: int
  sc_Rooms :: int
  sc_Players :: int
  sc_Baseline :: CalibrationReport
  sc_Candidate :: CalibrationReport
  sc_CandidateMinusBaseline :: ComparisonMetrics
  sc_Passed :: bool
  sc_Reasons :: "comparisonReason list"

record ModelComparisonReport =
  mc_BaselineVersion :: string
  mc_CandidateVersion :: string
  mc_TrainingCutoff :: time
  mc_BaselineTrainedThrough :: time
  mc_CandidateTrainedThrough :: time
  mc_HoldoutAvailableThrough :: time
  mc_Rooms :: int
  mc_Players :: int
  mc_Baseline :: ComparisonMetrics
  mc_Candidate :: ComparisonMetrics
  mc_CandidateMinusBaseline :: ComparisonMetrics
  mc_Policy :: ModelComparisonPolicy
  mc_Segments :: "SegmentComparison list"
  mc_Eligible :: bool
  mc_Reasons :: "comparisonReason list"

section \<open>Metrics\<close>

record metricTotals =
  mt_brierWeighted :: f64
  mt_logLossWeighted :: f64
  mt_calibrationWeighted :: f64
  mt_players :: f64
  mt_cells :: f64

definition zeroTotals :: metricTotals where
  "zeroTotals = \<lparr>mt_brierWeighted = 0, mt_logLossWeighted = 0, mt_calibrationWeighted = 0, mt_players = 0, mt_cells = 0\<rparr>"

definition metricTotals_add :: "CalibrationReport \<Rightarrow> metricTotals \<Rightarrow> metricTotals" where
  "metricTotals_add report t =
     (let players = f64_of_int (cr_Players report); cells = players * f64_of_int (cr_RoomSize report) in
      \<lparr>mt_brierWeighted = mt_brierWeighted t + cr_MulticlassBrierScore report * players,
       mt_logLossWeighted = mt_logLossWeighted t + cr_MeanLogLoss report * players,
       mt_calibrationWeighted = mt_calibrationWeighted t + cr_ExpectedCalibrationError report * cells,
       mt_players = mt_players t + players,
       mt_cells = mt_cells t + cells\<rparr>)"

definition metricTotals_metrics :: "metricTotals \<Rightarrow> ComparisonMetrics" where
  "metricTotals_metrics t =
     \<lparr>cm_MulticlassBrierScore = mt_brierWeighted t / mt_players t,
      cm_MeanLogLoss = mt_logLossWeighted t / mt_players t,
      cm_ExpectedCalibrationError = mt_calibrationWeighted t / mt_cells t\<rparr>"

definition calibrationMetrics :: "CalibrationReport \<Rightarrow> ComparisonMetrics" where
  "calibrationMetrics report =
     \<lparr>cm_MulticlassBrierScore = cr_MulticlassBrierScore report, cm_MeanLogLoss = cr_MeanLogLoss report,
      cm_ExpectedCalibrationError = cr_ExpectedCalibrationError report\<rparr>"

definition subtractMetrics :: "ComparisonMetrics \<Rightarrow> ComparisonMetrics \<Rightarrow> ComparisonMetrics" where
  "subtractMetrics left right =
     \<lparr>cm_MulticlassBrierScore = cm_MulticlassBrierScore left - cm_MulticlassBrierScore right,
      cm_MeanLogLoss = cm_MeanLogLoss left - cm_MeanLogLoss right,
      cm_ExpectedCalibrationError = cm_ExpectedCalibrationError left - cm_ExpectedCalibrationError right\<rparr>"

definition metricsClose :: "ComparisonMetrics \<Rightarrow> ComparisonMetrics \<Rightarrow> bool" where
  "metricsClose left right \<longleftrightarrow>
     f64_abs (cm_MulticlassBrierScore left - cm_MulticlassBrierScore right) \<le> comparisonTolerance \<and>
     f64_abs (cm_MeanLogLoss left - cm_MeanLogLoss right) \<le> comparisonTolerance \<and>
     f64_abs (cm_ExpectedCalibrationError left - cm_ExpectedCalibrationError right) \<le> comparisonTolerance"

definition validateModelComparisonPolicy :: "ModelComparisonPolicy \<Rightarrow> error" where
  "validateModelComparisonPolicy policy =
     (if mcp_MinimumRoomsPerSegment policy < 1
      then Some (ErrorsNew ''comparison policy requires at least one room per segment'')
      else forE (\<lambda>v. failIf (\<not> f64_finite v \<or> v < 0)
                  (ErrorsNew ''comparison policy thresholds must be finite and non-negative''))
             [mcp_MinimumOverallBrierImprovement policy, mcp_MaximumSegmentBrierRegression policy,
              mcp_MaximumSegmentLogLossRegression policy, mcp_MaximumSegmentCalibrationRegression policy])"

section \<open>Segments\<close>

definition thresholdStep :: "string \<times> f64 \<times> f64 \<Rightarrow> SegmentComparison \<Rightarrow> SegmentComparison" where
  "thresholdStep threshold report =
     (case threshold of (name, val, maximum) \<Rightarrow>
        if maximum + comparisonTolerance < val
        then report\<lparr>sc_Passed := False, sc_Reasons := sc_Reasons report @ [RegressionExceeds name val maximum]\<rparr>
        else report)"

definition compareSegment ::
  "string \<Rightarrow> CalibrationReport \<Rightarrow> CalibrationReport \<Rightarrow> ModelComparisonPolicy \<Rightarrow> SegmentComparison" where
  "compareSegment segmentID baseline candidate policy =
     (let delta = subtractMetrics (calibrationMetrics candidate) (calibrationMetrics baseline);
          report = \<lparr>sc_SegmentID = segmentID, sc_ModeID = cr_ModeID baseline,
                    sc_ScoringRulesVersion = cr_ScoringRulesVersion baseline, sc_RoomSize = cr_RoomSize baseline,
                    sc_Rooms = cr_Rooms baseline, sc_Players = cr_Players baseline,
                    sc_Baseline = baseline, sc_Candidate = candidate, sc_CandidateMinusBaseline = delta,
                    sc_Passed = True, sc_Reasons = []\<rparr>;
          report = (if sc_Rooms report < mcp_MinimumRoomsPerSegment policy
                    then report\<lparr>sc_Passed := False, sc_Reasons := sc_Reasons report @
                           [RoomsBelowRequired (sc_Rooms report) (mcp_MinimumRoomsPerSegment policy)]\<rparr>
                    else report)
      in fold thresholdStep
           [(''Brier regression'', cm_MulticlassBrierScore delta, mcp_MaximumSegmentBrierRegression policy),
            (''log-loss regression'', cm_MeanLogLoss delta, mcp_MaximumSegmentLogLossRegression policy),
            (''calibration regression'', cm_ExpectedCalibrationError delta, mcp_MaximumSegmentCalibrationRegression policy)]
           report)"

definition compareCalibrationObservation :: "CalibrationObservation \<Rightarrow> CalibrationObservation \<Rightarrow> int" where
  "compareCalibrationObservation left right =
     (let comparison = time_Compare (mr_AvailableAt (co_Result left)) (mr_AvailableAt (co_Result right)) in
      if comparison \<noteq> 0 then comparison
      else strCompare (mr_EventID (co_Result left)) (mr_EventID (co_Result right)))"

record segmentInput =
  si_modeID :: string
  si_scoringRulesVersion :: string
  si_roomSize :: int
  si_baseline :: "CalibrationObservation list"
  si_candidate :: "CalibrationObservation list"

text \<open>The grouping loop: segments, events seen and the two versions so far.\<close>

record groupingState =
  gs_segments :: "(string \<times> segmentInput) list"
  gs_eventIDs :: "string list"
  gs_baselineVersion :: string
  gs_candidateVersion :: string

definition segmentFor :: "PairedCalibrationObservation \<Rightarrow> (string \<times> segmentInput) list \<Rightarrow> segmentInput result" where
  "segmentFor observation segments =
     (let r = pco_Result observation; roomSize = int (length (mr_Participants r)) in
      case map_of segments (pco_SegmentID observation) of
        None \<Rightarrow> Inr \<lparr>si_modeID = mr_ModeID r, si_scoringRulesVersion = mr_ScoringRulesVersion r,
                     si_roomSize = roomSize, si_baseline = [], si_candidate = []\<rparr>
      | Some segment \<Rightarrow>
          if si_modeID segment \<noteq> mr_ModeID r \<or> si_scoringRulesVersion segment \<noteq> mr_ScoringRulesVersion r
             \<or> si_roomSize segment \<noteq> roomSize
          then Inl (Errorf ''segment %q mixes modes, scoring rules or room sizes'' [ArgS (pco_SegmentID observation)] None)
          else Inr segment)"

definition groupStep :: "int \<Rightarrow> PairedCalibrationObservation \<Rightarrow> groupingState \<Rightarrow> groupingState result" where
  "groupStep index observation st =
     (let r = pco_Result observation in
      if pco_SegmentID observation = ''''
      then Inl (Errorf ''paired observation %d requires a segment id'' [ArgI index] None)
      else if mr_EventID r \<in> set (gs_eventIDs st)
      then Inl (Errorf ''model comparison contains duplicate event %q'' [ArgS (mr_EventID r)] None)
      else
        let (baselineVersion, candidateVersion) =
              (if gs_baselineVersion st = ''''
               then (rp_ModelVersion (pco_BaselinePrediction observation), rp_ModelVersion (pco_CandidatePrediction observation))
               else (gs_baselineVersion st, gs_candidateVersion st));
            baselineObservation = \<lparr>co_Prediction = pco_BaselinePrediction observation, co_Result = r\<rparr>;
            candidateObservation = \<lparr>co_Prediction = pco_CandidatePrediction observation, co_Result = r\<rparr>
        in if rp_ModelVersion (pco_BaselinePrediction observation) \<noteq> baselineVersion
              \<or> rp_ModelVersion (pco_CandidatePrediction observation) \<noteq> candidateVersion
           then Inl (ErrorsNew ''model comparison requires one baseline and one candidate version'')
           else
             rbind (segmentFor observation (gs_segments st)) (\<lambda>segment.
               Inr \<lparr>gs_segments = map_put (pco_SegmentID observation)
                      (segment\<lparr>si_baseline := si_baseline segment @ [baselineObservation],
                               si_candidate := si_candidate segment @ [candidateObservation]\<rparr>) (gs_segments st),
                    gs_eventIDs = mr_EventID r # gs_eventIDs st,
                    gs_baselineVersion = baselineVersion, gs_candidateVersion = candidateVersion\<rparr>))"

fun groupLoop :: "int \<Rightarrow> PairedCalibrationObservation list \<Rightarrow> groupingState \<Rightarrow> groupingState result" where
  "groupLoop index [] st = Inr st"
| "groupLoop index (observation # os) st = rbind (groupStep index observation st) (groupLoop (index + 1) os)"

definition emptyGrouping :: groupingState where
  "emptyGrouping = \<lparr>gs_segments = [], gs_eventIDs = [], gs_baselineVersion = '''', gs_candidateVersion = ''''\<rparr>"

section \<open>The comparison\<close>

definition segmentHoldouts ::
  "(f64 \<Rightarrow> f64) \<Rightarrow> ModelComparisonConfig \<Rightarrow> string \<Rightarrow> segmentInput \<Rightarrow> SegmentComparison result" where
  "segmentHoldouts Log config segmentID input =
     rbind (wrapR ''baseline segment %q: %w'' [ArgS segmentID]
              (EvaluateHoldoutCalibration Log (sort_cmp compareCalibrationObservation (si_baseline input))
                 \<lparr>hc_TrainingCutoff = mcc_TrainingCutoff config, hc_ModelTrainedThrough = mcc_BaselineTrainedThrough config,
                  hc_BinCount = mcc_BinCount config\<rparr>)) (\<lambda>baselineHoldout.
     rbind (wrapR ''candidate segment %q: %w'' [ArgS segmentID]
              (EvaluateHoldoutCalibration Log (sort_cmp compareCalibrationObservation (si_candidate input))
                 \<lparr>hc_TrainingCutoff = mcc_TrainingCutoff config, hc_ModelTrainedThrough = mcc_CandidateTrainedThrough config,
                  hc_BinCount = mcc_BinCount config\<rparr>)) (\<lambda>candidateHoldout.
       Inr (compareSegment segmentID (hr_Calibration baselineHoldout) (hr_Calibration candidateHoldout)
              (mcc_Policy config))))"

definition holdoutAvailableThrough :: "PairedCalibrationObservation list \<Rightarrow> time" where
  "holdoutAvailableThrough observations =
     fold (\<lambda>observation acc. if After (mr_AvailableAt (pco_Result observation)) acc
                             then mr_AvailableAt (pco_Result observation) else acc) observations 0"

definition overallImprovement :: "ComparisonMetrics \<Rightarrow> ComparisonMetrics \<Rightarrow> f64" where
  "overallImprovement baseline candidate = cm_MulticlassBrierScore baseline - cm_MulticlassBrierScore candidate"

definition CompareHoldoutModels ::
  "(f64 \<Rightarrow> f64) \<Rightarrow> PairedCalibrationObservation list \<Rightarrow> ModelComparisonConfig \<Rightarrow> ModelComparisonReport result" where
  "CompareHoldoutModels Log observations config =
     (if observations = [] then Inl (ErrorsNew ''model comparison requires paired holdout observations'')
      else guardE (validateModelComparisonPolicy (mcc_Policy config))
       (rbind (groupLoop 0 observations emptyGrouping) (\<lambda>g.
        if gs_baselineVersion g = '''' \<or> gs_candidateVersion g = '''' \<or> gs_baselineVersion g = gs_candidateVersion g
        then Inl (ErrorsNew ''model comparison requires distinct non-empty baseline and candidate versions'')
        else
          let segmentIDs = sort (map fst (gs_segments g)) in
          rbind (mapR (\<lambda>segmentID. segmentHoldouts Log config segmentID (the (map_of (gs_segments g) segmentID))) segmentIDs)
            (\<lambda>segments.
             let baseline = metricTotals_metrics (fold (metricTotals_add \<circ> sc_Baseline) segments zeroTotals);
                 candidate = metricTotals_metrics (fold (metricTotals_add \<circ> sc_Candidate) segments zeroTotals);
                 segmentReasons = concat (map (\<lambda>s. if sc_Passed s then []
                                     else map (SegmentReason (sc_SegmentID s)) (sc_Reasons s)) segments);
                 improvement = overallImprovement baseline candidate;
                 short = improvement + comparisonTolerance < mcp_MinimumOverallBrierImprovement (mcc_Policy config)
             in Inr \<lparr>mc_BaselineVersion = gs_baselineVersion g, mc_CandidateVersion = gs_candidateVersion g,
                     mc_TrainingCutoff = mcc_TrainingCutoff config,
                     mc_BaselineTrainedThrough = mcc_BaselineTrainedThrough config,
                     mc_CandidateTrainedThrough = mcc_CandidateTrainedThrough config,
                     mc_HoldoutAvailableThrough = holdoutAvailableThrough observations,
                     mc_Rooms = sum_list (map sc_Rooms segments), mc_Players = sum_list (map sc_Players segments),
                     mc_Baseline = baseline, mc_Candidate = candidate,
                     mc_CandidateMinusBaseline = subtractMetrics candidate baseline,
                     mc_Policy = mcc_Policy config, mc_Segments = segments,
                     mc_Eligible = ((\<forall>s \<in> set segments. sc_Passed s) \<and> \<not> short),
                     mc_Reasons = segmentReasons @
                       (if short then [OverallImprovementBelow improvement
                                         (mcp_MinimumOverallBrierImprovement (mcc_Policy config))] else [])\<rparr>))))"

section \<open>Recomputation before activation\<close>

definition segmentInconsistent :: "ModelComparisonReport \<Rightarrow> SegmentComparison \<Rightarrow> bool" where
  "segmentInconsistent r segment \<longleftrightarrow>
     cr_ModelVersion (sc_Baseline segment) \<noteq> mc_BaselineVersion r \<or>
     cr_ModelVersion (sc_Candidate segment) \<noteq> mc_CandidateVersion r \<or>
     cr_ModeID (sc_Baseline segment) \<noteq> cr_ModeID (sc_Candidate segment) \<or>
     cr_ScoringRulesVersion (sc_Baseline segment) \<noteq> cr_ScoringRulesVersion (sc_Candidate segment) \<or>
     cr_RoomSize (sc_Baseline segment) \<noteq> cr_RoomSize (sc_Candidate segment) \<or>
     cr_Rooms (sc_Baseline segment) \<noteq> cr_Rooms (sc_Candidate segment) \<or>
     cr_Players (sc_Baseline segment) \<noteq> cr_Players (sc_Candidate segment)"

fun activationLoop :: "ModelComparisonReport \<Rightarrow> string list \<Rightarrow> SegmentComparison list \<Rightarrow> error" where
  "activationLoop r seen [] = None"
| "activationLoop r seen (segment # segments) =
     (let recomputed = compareSegment (sc_SegmentID segment) (sc_Baseline segment) (sc_Candidate segment) (mc_Policy r) in
      if sc_SegmentID segment = '''' then Some (ErrorsNew ''model comparison segment id is required'')
      else if sc_SegmentID segment \<in> set seen
      then Some (Errorf ''model comparison contains duplicate segment %q'' [ArgS (sc_SegmentID segment)] None)
      else if segmentInconsistent r segment
      then Some (Errorf ''model comparison segment %q is inconsistent'' [ArgS (sc_SegmentID segment)] None)
      else if \<not> sc_Passed recomputed \<or> \<not> sc_Passed segment \<or> sc_Reasons segment \<noteq> []
      then Some (Errorf ''model comparison segment %q fails the activation policy'' [ArgS (sc_SegmentID segment)] None)
      else if sc_ModeID segment \<noteq> sc_ModeID recomputed
         \<or> sc_ScoringRulesVersion segment \<noteq> sc_ScoringRulesVersion recomputed
         \<or> sc_RoomSize segment \<noteq> sc_RoomSize recomputed \<or> sc_Rooms segment \<noteq> sc_Rooms recomputed
         \<or> sc_Players segment \<noteq> sc_Players recomputed
         \<or> \<not> metricsClose (sc_CandidateMinusBaseline segment) (sc_CandidateMinusBaseline recomputed)
      then Some (Errorf ''model comparison segment %q summary is inconsistent'' [ArgS (sc_SegmentID segment)] None)
      else activationLoop r (sc_SegmentID segment # seen) segments)"

definition ValidateForActivation :: "ModelComparisonReport \<Rightarrow> error" where
  "ValidateForActivation r =
     (if \<not> mc_Eligible r \<or> mc_Reasons r \<noteq> []
      then Some (ErrorsNew ''model comparison is not eligible for activation'')
      else if mc_BaselineVersion r = '''' \<or> mc_CandidateVersion r = '''' \<or> mc_BaselineVersion r = mc_CandidateVersion r
      then Some (ErrorsNew ''model comparison requires distinct baseline and candidate versions'')
      else if IsZero (mc_TrainingCutoff r) \<or> IsZero (mc_BaselineTrainedThrough r) \<or> IsZero (mc_CandidateTrainedThrough r)
         \<or> After (mc_BaselineTrainedThrough r) (mc_TrainingCutoff r)
         \<or> After (mc_CandidateTrainedThrough r) (mc_TrainingCutoff r)
      then Some (ErrorsNew ''model comparison contains an invalid training horizon'')
      else if IsZero (mc_HoldoutAvailableThrough r) \<or> \<not> After (mc_HoldoutAvailableThrough r) (mc_TrainingCutoff r)
      then Some (ErrorsNew ''model comparison requires holdout data after the training cutoff'')
      else andthenE (validateModelComparisonPolicy (mc_Policy r))
       (if mc_Segments r = [] then Some (ErrorsNew ''model comparison requires segment reports'')
        else andthenE (activationLoop r [] (mc_Segments r))
         (let rooms = sum_list (map (cr_Rooms \<circ> sc_Baseline) (mc_Segments r));
              players = sum_list (map (cr_Players \<circ> sc_Baseline) (mc_Segments r));
              baseline = metricTotals_metrics (fold (metricTotals_add \<circ> sc_Baseline) (mc_Segments r) zeroTotals);
              candidate = metricTotals_metrics (fold (metricTotals_add \<circ> sc_Candidate) (mc_Segments r) zeroTotals);
              improvement = overallImprovement baseline candidate
          in if improvement + comparisonTolerance < mcp_MinimumOverallBrierImprovement (mc_Policy r)
             then Some (ErrorsNew ''model comparison overall Brier improvement is below policy'')
             else if mc_Rooms r \<noteq> rooms \<or> mc_Players r \<noteq> players \<or> \<not> metricsClose (mc_Baseline r) baseline
                \<or> \<not> metricsClose (mc_Candidate r) candidate
                \<or> \<not> metricsClose (mc_CandidateMinusBaseline r) (subtractMetrics candidate baseline)
             then Some (ErrorsNew ''model comparison aggregate metrics are inconsistent'')
             else None)))"

section \<open>What the recomputation guarantees\<close>

lemma tolerance_Fin: "\<exists>x. comparisonTolerance = Fin x \<and> 0 \<le> x"
  using f64_round_unit [of "1 / 10 ^ 12"] by (auto simp: comparisonTolerance_def)

lemma close_finite: "f64_abs (x - y) \<le> comparisonTolerance \<Longrightarrow> f64_finite x \<and> f64_finite y"
proof -
  obtain t where t: "comparisonTolerance = Fin t" using tolerance_Fin by blast
  show "f64_abs (x - y) \<le> comparisonTolerance \<Longrightarrow> f64_finite x \<and> f64_finite y"
    by (cases x; cases y; simp add: minus_f64_def t)
qed

lemma close_refl: "f64_finite x \<Longrightarrow> f64_abs (x - x) \<le> comparisonTolerance"
proof -
  obtain t where t: "comparisonTolerance = Fin t" "0 \<le> t" using tolerance_Fin by blast
  show "f64_finite x \<Longrightarrow> f64_abs (x - x) \<le> comparisonTolerance" by (cases x; simp add: t)
qed

definition finiteMetrics :: "ComparisonMetrics \<Rightarrow> bool" where
  "finiteMetrics m \<longleftrightarrow> f64_finite (cm_MulticlassBrierScore m) \<and> f64_finite (cm_MeanLogLoss m) \<and>
     f64_finite (cm_ExpectedCalibrationError m)"

lemma metricsClose_finite: "metricsClose a b \<Longrightarrow> finiteMetrics a \<and> finiteMetrics b"
  by (auto simp: metricsClose_def finiteMetrics_def dest!: close_finite)

lemma metricsClose_refl: "finiteMetrics m \<Longrightarrow> metricsClose m m"
  by (simp add: metricsClose_def finiteMetrics_def close_refl)

lemma compareSegment_sel [simp]:
  "sc_SegmentID (compareSegment k b c p) = k" "sc_Baseline (compareSegment k b c p) = b"
  "sc_Candidate (compareSegment k b c p) = c" "sc_ModeID (compareSegment k b c p) = cr_ModeID b"
  "sc_ScoringRulesVersion (compareSegment k b c p) = cr_ScoringRulesVersion b"
  "sc_RoomSize (compareSegment k b c p) = cr_RoomSize b" "sc_Rooms (compareSegment k b c p) = cr_Rooms b"
  "sc_Players (compareSegment k b c p) = cr_Players b"
  "sc_CandidateMinusBaseline (compareSegment k b c p) = subtractMetrics (calibrationMetrics c) (calibrationMetrics b)"
  by (simp_all add: compareSegment_def thresholdStep_def Let_def)

definition withinPolicy :: "ModelComparisonPolicy \<Rightarrow> int \<Rightarrow> ComparisonMetrics \<Rightarrow> bool" where
  "withinPolicy p rooms delta \<longleftrightarrow> mcp_MinimumRoomsPerSegment p \<le> rooms \<and>
     \<not> mcp_MaximumSegmentBrierRegression p + comparisonTolerance < cm_MulticlassBrierScore delta \<and>
     \<not> mcp_MaximumSegmentLogLossRegression p + comparisonTolerance < cm_MeanLogLoss delta \<and>
     \<not> mcp_MaximumSegmentCalibrationRegression p + comparisonTolerance < cm_ExpectedCalibrationError delta"

lemma compareSegment_passed:
  "sc_Passed (compareSegment k b c p) \<longleftrightarrow> withinPolicy p (cr_Rooms b) (subtractMetrics (calibrationMetrics c) (calibrationMetrics b))"
  "sc_Reasons (compareSegment k b c p) = [] \<longleftrightarrow> sc_Passed (compareSegment k b c p)"
  by (auto simp: compareSegment_def thresholdStep_def Let_def withinPolicy_def)

lemma activationLoop_None:
  "activationLoop r seen segs = None \<longleftrightarrow>
     distinct (map sc_SegmentID segs) \<and> set (map sc_SegmentID segs) \<inter> set seen = {} \<and>
     (\<forall>s \<in> set segs. sc_SegmentID s \<noteq> '''' \<and> \<not> segmentInconsistent r s \<and> sc_Passed s \<and> sc_Reasons s = [] \<and>
        withinPolicy (mc_Policy r) (cr_Rooms (sc_Baseline s))
          (subtractMetrics (calibrationMetrics (sc_Candidate s)) (calibrationMetrics (sc_Baseline s))) \<and>
        sc_ModeID s = cr_ModeID (sc_Baseline s) \<and> sc_ScoringRulesVersion s = cr_ScoringRulesVersion (sc_Baseline s) \<and>
        sc_RoomSize s = cr_RoomSize (sc_Baseline s) \<and> sc_Rooms s = cr_Rooms (sc_Baseline s) \<and>
        sc_Players s = cr_Players (sc_Baseline s) \<and>
        metricsClose (sc_CandidateMinusBaseline s)
          (subtractMetrics (calibrationMetrics (sc_Candidate s)) (calibrationMetrics (sc_Baseline s))))"
  by (induction segs arbitrary: seen) (auto simp: Let_def compareSegment_passed)

lemma policy_thresholds:
  assumes "validateModelComparisonPolicy p = None"
  shows "\<exists>i b l c. mcp_MinimumOverallBrierImprovement p = Fin i \<and> mcp_MaximumSegmentBrierRegression p = Fin b \<and>
    mcp_MaximumSegmentLogLossRegression p = Fin l \<and> mcp_MaximumSegmentCalibrationRegression p = Fin c \<and>
    0 \<le> i \<and> 0 \<le> b \<and> 0 \<le> l \<and> 0 \<le> c \<and> 1 \<le> mcp_MinimumRoomsPerSegment p"
  using assms
  by (cases "mcp_MinimumOverallBrierImprovement p"; cases "mcp_MaximumSegmentBrierRegression p";
      cases "mcp_MaximumSegmentLogLossRegression p"; cases "mcp_MaximumSegmentCalibrationRegression p")
    (auto simp: validateModelComparisonPolicy_def split: if_splits)

lemma not_less_le: "\<lbrakk>f64_finite x; \<exists>a. y = f64_round a\<rbrakk> \<Longrightarrow> \<not> y < x \<Longrightarrow> x \<le> (y :: f64)"
  by (cases x; cases y) auto


definition sampleReport :: "string \<Rightarrow> f64 \<Rightarrow> CalibrationReport" where
  "sampleReport version brier = \<lparr>cr_ModelVersion = version, cr_ModeID = ''mode'', cr_ScoringRulesVersion = ''s1'',
     cr_RoomSize = 5, cr_Rooms = 2, cr_Players = 10, cr_MulticlassBrierScore = brier, cr_MeanLogLoss = Fin 1,
     cr_ExpectedCalibrationError = Fin 0, cr_Bins = []\<rparr>"

definition sampleComparisonPolicy :: ModelComparisonPolicy where
  "sampleComparisonPolicy = \<lparr>mcp_MinimumRoomsPerSegment = 2, mcp_MinimumOverallBrierImprovement = Fin 0,
     mcp_MaximumSegmentBrierRegression = Fin 0, mcp_MaximumSegmentLogLossRegression = Fin 0,
     mcp_MaximumSegmentCalibrationRegression = Fin 0\<rparr>"

definition sampleMetrics :: "real \<Rightarrow> real \<Rightarrow> ComparisonMetrics" where
  "sampleMetrics brier loss =
     \<lparr>cm_MulticlassBrierScore = Fin brier, cm_MeanLogLoss = Fin loss, cm_ExpectedCalibrationError = Fin 0\<rparr>"

definition sampleComparison :: ModelComparisonReport where
  "sampleComparison = \<lparr>mc_BaselineVersion = ''m1'', mc_CandidateVersion = ''m2'', mc_TrainingCutoff = 50,
     mc_BaselineTrainedThrough = 40, mc_CandidateTrainedThrough = 50, mc_HoldoutAvailableThrough = 90, mc_Rooms = 2,
     mc_Players = 10, mc_Baseline = sampleMetrics 2 1, mc_Candidate = sampleMetrics 1 1,
     mc_CandidateMinusBaseline = sampleMetrics (- 1) 0, mc_Policy = sampleComparisonPolicy,
     mc_Segments = [compareSegment ''seg'' (sampleReport ''m1'' (Fin 2)) (sampleReport ''m2'' (Fin 1)) sampleComparisonPolicy],
     mc_Eligible = True, mc_Reasons = []\<rparr>"

lemma sampleComparison_valid: "ValidateForActivation sampleComparison = None"
proof -
  let ?b = "sampleReport ''m1'' (Fin 2)" and ?c = "sampleReport ''m2'' (Fin 1)"
  let ?s = "compareSegment ''seg'' ?b ?c sampleComparisonPolicy"
  obtain tol where tol: "comparisonTolerance = Fin tol" "0 \<le> tol" using tolerance_Fin by blast
  have nn: "\<not> f64_round (x + tol) < Fin y" if "0 \<le> x" "y \<le> 0" for x y
    using f64_round_nonneg [of "x + tol"] that tol(2) by (cases "f64_round (x + tol)") (auto simp: zero_f64_def)
  have d: "subtractMetrics (calibrationMetrics ?c) (calibrationMetrics ?b) = sampleMetrics (- 1) 0"
    by (simp add: subtractMetrics_def calibrationMetrics_def sampleReport_def sampleMetrics_def)
  have tot: "metricTotals_metrics (metricTotals_add ?b zeroTotals) = sampleMetrics 2 1"
      "metricTotals_metrics (metricTotals_add ?c zeroTotals) = sampleMetrics 1 1"
    by (simp_all add: metricTotals_metrics_def metricTotals_add_def zeroTotals_def sampleReport_def sampleMetrics_def
        f64_of_int_def Let_def)
  have "withinPolicy sampleComparisonPolicy 2 (sampleMetrics (- 1) 0)"
    using nn [of 0] by (simp add: withinPolicy_def sampleMetrics_def sampleComparisonPolicy_def tol)
  then have passed: "sc_Passed ?s" "sc_Reasons ?s = []" by (simp_all add: compareSegment_passed d) (simp_all add: sampleReport_def)
  have fin: "finiteMetrics (sampleMetrics x y)" for x y by (simp add: finiteMetrics_def sampleMetrics_def)
  have sel: "cr_ModelVersion ?b = ''m1''" "cr_ModelVersion ?c = ''m2''" "cr_Rooms ?b = 2" "cr_Players ?b = 10"
      "cr_ModeID ?b = cr_ModeID ?c" "cr_ScoringRulesVersion ?b = cr_ScoringRulesVersion ?c" "cr_RoomSize ?b = cr_RoomSize ?c"
      "cr_Rooms ?c = 2" "cr_Players ?c = 10"
    by (simp_all add: sampleReport_def)
  have "activationLoop sampleComparison [] [?s] = None"
  proof -
    have "mc_Policy sampleComparison = sampleComparisonPolicy" "mc_BaselineVersion sampleComparison = ''m1''"
        "mc_CandidateVersion sampleComparison = ''m2''"
      by (simp_all add: sampleComparison_def)
    then show ?thesis using passed fin sel by (simp add: d metricsClose_refl segmentInconsistent_def Let_def)
  qed
  moreover have "validateModelComparisonPolicy sampleComparisonPolicy = None"
    by (simp add: validateModelComparisonPolicy_def sampleComparisonPolicy_def)
  moreover have "subtractMetrics (sampleMetrics 1 1) (sampleMetrics 2 1) = sampleMetrics (- 1) 0"
    by (simp add: subtractMetrics_def sampleMetrics_def)
  moreover have "\<not> overallImprovement (sampleMetrics 2 1) (sampleMetrics 1 1) + comparisonTolerance
      < mcp_MinimumOverallBrierImprovement sampleComparisonPolicy"
    using nn by (simp add: overallImprovement_def sampleMetrics_def sampleComparisonPolicy_def tol)
  ultimately show ?thesis
    using fin sel tot by (simp add: ValidateForActivation_def Let_def metricsClose_refl sampleComparison_def)
qed


section \<open>An eligible comparison can be activated\<close>

lemma sort_cmp_map:
  assumes "\<And>x y. cmp (f x) (f y) = cmp' x y"
  shows "sort_cmp cmp (map f xs) = map f (sort_cmp cmp' xs)"
proof -
  have "insert_cmp cmp (f x) (map f ys) = map f (insert_cmp cmp' x ys)" for x ys
    by (induction ys) (auto simp: assms)
  then show ?thesis by (induction xs) simp_all
qed

definition baselineSide :: "PairedCalibrationObservation \<Rightarrow> CalibrationObservation" where
  "baselineSide o1 = \<lparr>co_Prediction = pco_BaselinePrediction o1, co_Result = pco_Result o1\<rparr>"

definition candidateSide :: "PairedCalibrationObservation \<Rightarrow> CalibrationObservation" where
  "candidateSide o1 = \<lparr>co_Prediction = pco_CandidatePrediction o1, co_Result = pco_Result o1\<rparr>"

text \<open>The grouping keeps both sides of a segment paired and the versions uniform.\<close>

definition versionsAgree :: "groupingState \<Rightarrow> PairedCalibrationObservation \<Rightarrow> bool" where
  "versionsAgree st o1 \<longleftrightarrow> rp_ModelVersion (pco_BaselinePrediction o1) = '''' \<or>
     rp_ModelVersion (pco_BaselinePrediction o1) = gs_baselineVersion st \<and>
     rp_ModelVersion (pco_CandidatePrediction o1) = gs_candidateVersion st"

definition pairedSegment :: "PairedCalibrationObservation set \<Rightarrow> groupingState \<Rightarrow> string \<Rightarrow> segmentInput \<Rightarrow> bool" where
  "pairedSegment all st k seg \<longleftrightarrow> k \<noteq> [] \<and>
     (\<exists>os. os \<noteq> [] \<and> set os \<subseteq> all \<and> si_baseline seg = map baselineSide os \<and> si_candidate seg = map candidateSide os \<and>
        (\<forall>o1 \<in> set os. versionsAgree st o1))"

definition paired :: "PairedCalibrationObservation set \<Rightarrow> groupingState \<Rightarrow> bool" where
  "paired all st \<longleftrightarrow> distinct (map fst (gs_segments st)) \<and>
     (\<forall>k seg. (k, seg) \<in> set (gs_segments st) \<longrightarrow> pairedSegment all st k seg)"

lemma set_map_put: "set (map_put k v m) \<subseteq> insert (k, v) (set m)"
  by (induction m) auto

lemma groupStep_paired:
  assumes "paired all st" "ob \<in> all" "groupStep i ob st = Inr st'"
  shows "paired all st' \<and> gs_segments st' \<noteq> []"
proof -
  obtain seg where f: "segmentFor ob (gs_segments st) = Inr seg" and st': "gs_segments st' = map_put (pco_SegmentID ob)
        (seg\<lparr>si_baseline := si_baseline seg @ [baselineSide ob], si_candidate := si_candidate seg @ [candidateSide ob]\<rparr>) (gs_segments st)"
    and k: "pco_SegmentID ob \<noteq> ''''" and new: "versionsAgree st' ob"
    and old: "\<forall>o1. versionsAgree st o1 \<longrightarrow> versionsAgree st' o1"
    using assms(3)
    by (auto simp: groupStep_def Let_def baselineSide_def candidateSide_def versionsAgree_def
        split: if_splits prod.splits)
  have seg: "map_of (gs_segments st) (pco_SegmentID ob) = Some seg \<or> si_baseline seg = [] \<and> si_candidate seg = []"
    using f by (auto simp: segmentFor_def Let_def split: option.splits if_splits)
  let ?seg = "seg\<lparr>si_baseline := si_baseline seg @ [baselineSide ob], si_candidate := si_candidate seg @ [candidateSide ob]\<rparr>"
  have "\<exists>os. set os \<subseteq> all \<and> si_baseline seg = map baselineSide os \<and> si_candidate seg = map candidateSide os \<and>
      (\<forall>o1 \<in> set os. versionsAgree st o1)"
  proof (cases "map_of (gs_segments st) (pco_SegmentID ob) = Some seg")
    case True
    then have "(pco_SegmentID ob, seg) \<in> set (gs_segments st)" by (rule map_of_SomeD)
    then show ?thesis using assms(1) unfolding paired_def pairedSegment_def by blast
  next
    case False
    then show ?thesis using seg by (intro exI [of _ "[]"]) auto
  qed
  then obtain os where os: "set os \<subseteq> all" "si_baseline seg = map baselineSide os" "si_candidate seg = map candidateSide os"
    "\<forall>o1 \<in> set os. versionsAgree st o1" by blast
  have mine: "pairedSegment all st' (pco_SegmentID ob) ?seg"
    unfolding pairedSegment_def using os old new assms(2) k by (intro conjI exI [of _ "os @ [ob]"]) auto
  have others: "pairedSegment all st' k' seg'" if "(k', seg') \<in> set (gs_segments st)" for k' seg'
  proof -
    have "pairedSegment all st k' seg'" using assms(1) that unfolding paired_def by blast
    then show ?thesis unfolding pairedSegment_def using old by metis
  qed
  have ne: "gs_segments st' \<noteq> []" unfolding st' by (cases "gs_segments st") auto
  have "distinct (map fst (gs_segments st'))" using assms(1) by (auto simp: st' paired_def)
  moreover have "pairedSegment all st' k' seg'" if "(k', seg') \<in> set (gs_segments st')" for k' seg'
    using that set_map_put [of "pco_SegmentID ob" ?seg "gs_segments st"] mine others unfolding st' by blast
  ultimately show ?thesis using ne unfolding paired_def by blast
qed

lemma groupLoop_paired:
  assumes "paired all st" "set os \<subseteq> all" "groupLoop i os st = Inr st'"
  shows "paired all st' \<and> (os \<noteq> [] \<longrightarrow> gs_segments st' \<noteq> [])"
  using assms
proof (induction os arbitrary: i st)
  case (Cons ob os)
  obtain st1 where 1: "groupStep i ob st = Inr st1" "groupLoop (i + 1) os st1 = Inr st'" using Cons.prems(3) by auto
  note s = groupStep_paired [OF Cons.prems(1) _ 1(1)]
  show ?case using Cons.IH [OF _ _ 1(2)] s Cons.prems(2) 1(2) by (cases os) auto
qed simp

lemma EvaluateHoldout_Inr:
  assumes "EvaluateHoldoutCalibration Log obs config = Inr h"
  shows "EvaluateCalibration Log obs (hc_BinCount config) = Inr (hr_Calibration h)"
    and "hc_TrainingCutoff config \<noteq> 0" "hc_ModelTrainedThrough config \<noteq> 0"
    and "hc_ModelTrainedThrough config \<le> hc_TrainingCutoff config"
    and "ob \<in> set obs \<Longrightarrow> hc_TrainingCutoff config < mr_AvailableAt (co_Result ob)"
proof -
  show "EvaluateCalibration Log obs (hc_BinCount config) = Inr (hr_Calibration h)"
    "hc_TrainingCutoff config \<noteq> 0" "hc_ModelTrainedThrough config \<noteq> 0"
    "hc_ModelTrainedThrough config \<le> hc_TrainingCutoff config"
    using assms by (auto simp: EvaluateHoldoutCalibration_def split: if_splits)
  have "\<forall>x \<in> set (indexed obs). holdoutCheck config x = None"
    using assms by (auto simp: EvaluateHoldoutCalibration_def split: if_splits)
  then have "\<forall>x \<in> set obs. hc_TrainingCutoff config < mr_AvailableAt (co_Result x) \<and>
      hc_ModelTrainedThrough config \<le> rp_GeneratedAt (co_Prediction x)"
    by (subst (asm) indexed_all [where P = "\<lambda>x. hc_TrainingCutoff config < mr_AvailableAt (co_Result x) \<and>
      hc_ModelTrainedThrough config \<le> rp_GeneratedAt (co_Prediction x)"]) (auto simp: holdoutCheck_def)
  then show "ob \<in> set obs \<Longrightarrow> hc_TrainingCutoff config < mr_AvailableAt (co_Result ob)" by blast
qed

lemma EvaluateCalibration_head:
  assumes "EvaluateCalibration Log obs n = Inr r"
  shows "obs \<noteq> []" "cr_ModelVersion r = rp_ModelVersion (co_Prediction (hd obs))" "cr_ModelVersion r \<noteq> ''''"
    and "cr_ModeID r = mr_ModeID (co_Result (hd obs))" "cr_ScoringRulesVersion r = mr_ScoringRulesVersion (co_Result (hd obs))"
    and "cr_RoomSize r = int (length (mr_Participants (co_Result (hd obs))))"
  using assms
  by (cases obs; auto simp: EvaluateCalibration_def Let_def validateCalibrationSegment_def split: if_splits)+

lemma compare_sides:
  "compareCalibrationObservation (baselineSide a) (baselineSide b) = compareCalibrationObservation (candidateSide a) (candidateSide b)"
  by (simp add: compareCalibrationObservation_def baselineSide_def candidateSide_def Let_def)

lemma segmentHoldouts_consistent:
  assumes "segmentHoldouts Log config k seg = Inr s" "os \<noteq> []" "si_baseline seg = map baselineSide os" "si_candidate seg = map candidateSide os"
    and "\<forall>o1 \<in> set os. versionsAgree g o1" "mc_BaselineVersion r = gs_baselineVersion g" "mc_CandidateVersion r = gs_candidateVersion g"
  shows "\<not> segmentInconsistent r s" and "\<exists>b c. s = compareSegment k b c (mcc_Policy config)"
    and "mcc_TrainingCutoff config \<noteq> 0" "mcc_BaselineTrainedThrough config \<noteq> 0" "mcc_CandidateTrainedThrough config \<noteq> 0"
    and "mcc_BaselineTrainedThrough config \<le> mcc_TrainingCutoff config" "mcc_CandidateTrainedThrough config \<le> mcc_TrainingCutoff config"
    and "\<exists>o1 \<in> set os. mcc_TrainingCutoff config < mr_AvailableAt (pco_Result o1)"
proof -
  define cmp where "cmp a b = compareCalibrationObservation (candidateSide a) (candidateSide b)" for a b
  let ?os = "sort_cmp cmp os"
  have sorts: "sort_cmp compareCalibrationObservation (si_baseline seg) = map baselineSide ?os"
      "sort_cmp compareCalibrationObservation (si_candidate seg) = map candidateSide ?os"
    using assms(3,4) by (auto intro!: sort_cmp_map simp: cmp_def compare_sides)
  obtain bh ch where bh: "EvaluateHoldoutCalibration Log (map baselineSide ?os)
        \<lparr>hc_TrainingCutoff = mcc_TrainingCutoff config, hc_ModelTrainedThrough = mcc_BaselineTrainedThrough config, hc_BinCount = mcc_BinCount config\<rparr> = Inr bh"
    and ch: "EvaluateHoldoutCalibration Log (map candidateSide ?os)
        \<lparr>hc_TrainingCutoff = mcc_TrainingCutoff config, hc_ModelTrainedThrough = mcc_CandidateTrainedThrough config, hc_BinCount = mcc_BinCount config\<rparr> = Inr ch"
    and s: "s = compareSegment k (hr_Calibration bh) (hr_Calibration ch) (mcc_Policy config)"
    using assms(1) by (auto simp: segmentHoldouts_def sorts)
  note b = EvaluateHoldout_Inr [OF bh, simplified] and c = EvaluateHoldout_Inr [OF ch, simplified]
  show "mcc_TrainingCutoff config \<noteq> 0" "mcc_BaselineTrainedThrough config \<noteq> 0" "mcc_CandidateTrainedThrough config \<noteq> 0"
    "mcc_BaselineTrainedThrough config \<le> mcc_TrainingCutoff config" "mcc_CandidateTrainedThrough config \<le> mcc_TrainingCutoff config"
    using b(2-4) c(3,4) by auto
  have h: "hd ?os \<in> set os" "hd (map f ?os) = f (hd ?os)" for f :: "PairedCalibrationObservation \<Rightarrow> CalibrationObservation"
    using assms(2) hd_in_set [of ?os] by (auto simp: hd_map)
  show "\<exists>o1 \<in> set os. mcc_TrainingCutoff config < mr_AvailableAt (pco_Result o1)"
    using b(5) [of "baselineSide (hd ?os)"] h(1) by (auto simp: baselineSide_def)
  note bh' = EvaluateCalibration_head [OF b(1)] EvaluateCalibration_counts [OF b(1)]
    and ch' = EvaluateCalibration_head [OF c(1)] EvaluateCalibration_counts [OF c(1)]
  have "versionsAgree g (hd ?os)" using assms(5) h(1) by blast
  then show "\<not> segmentInconsistent r s"
    using bh' ch' assms(6,7) by (auto simp: segmentInconsistent_def s h(2) versionsAgree_def baselineSide_def candidateSide_def)
  show "\<exists>b c. s = compareSegment k b c (mcc_Policy config)" using s by blast
qed

lemma holdoutAvailableThrough_ge:
  assumes "o1 \<in> set os"
  shows "mr_AvailableAt (pco_Result o1) \<le> holdoutAvailableThrough os"
proof -
  let ?f = "\<lambda>ob acc. if acc < mr_AvailableAt (pco_Result ob) then mr_AvailableAt (pco_Result ob) else acc"
  have mono: "a \<le> fold ?f os a" for os a
  proof (induction os arbitrary: a)
    case (Cons ob os)
    have "a \<le> ?f ob a" by simp
    also have "\<dots> \<le> fold ?f os (?f ob a)" by (rule Cons.IH)
    finally show ?case by simp
  qed simp
  have "mr_AvailableAt (pco_Result o1) \<le> fold ?f os a" for a
    using assms
  proof (induction os arbitrary: a)
    case (Cons ob os)
    then show ?case using mono [of "?f o1 a" os] by auto
  qed simp
  then show ?thesis by (simp add: holdoutAvailableThrough_def)
qed

text \<open>
  The two halves agree: a comparison that \<^verbatim>\<open>CompareHoldoutModels\<close> finds eligible, with finite metrics
  and a training cutoff after the zero time, passes the recomputation of \<^verbatim>\<open>ValidateForActivation\<close>.
\<close>

theorem eligible_comparison_activates:
  assumes cmp: "CompareHoldoutModels Log observations config = Inr r" "mc_Eligible r" and cutoff: "0 < mcc_TrainingCutoff config"
    and fin: "finiteMetrics (mc_Baseline r)" "finiteMetrics (mc_Candidate r)" "finiteMetrics (mc_CandidateMinusBaseline r)"
      "\<forall>s \<in> set (mc_Segments r). finiteMetrics (sc_CandidateMinusBaseline s)"
  shows "ValidateForActivation r = None"
proof -
  obtain g where g: "groupLoop 0 observations emptyGrouping = Inr g" "observations \<noteq> []"
      "mapR (\<lambda>k. segmentHoldouts Log config k (the (map_of (gs_segments g) k))) (sort (map fst (gs_segments g))) = Inr (mc_Segments r)"
    and pol: "validateModelComparisonPolicy (mcc_Policy config) = None"
    and vers: "gs_baselineVersion g \<noteq> ''''" "gs_candidateVersion g \<noteq> ''''" "gs_baselineVersion g \<noteq> gs_candidateVersion g"
    and r: "mc_BaselineVersion r = gs_baselineVersion g" "mc_CandidateVersion r = gs_candidateVersion g"
      "mc_TrainingCutoff r = mcc_TrainingCutoff config" "mc_BaselineTrainedThrough r = mcc_BaselineTrainedThrough config"
      "mc_CandidateTrainedThrough r = mcc_CandidateTrainedThrough config"
      "mc_HoldoutAvailableThrough r = holdoutAvailableThrough observations" "mc_Policy r = mcc_Policy config"
      "mc_Rooms r = sum_list (map sc_Rooms (mc_Segments r))" "mc_Players r = sum_list (map sc_Players (mc_Segments r))"
      "mc_Baseline r = metricTotals_metrics (fold (metricTotals_add \<circ> sc_Baseline) (mc_Segments r) zeroTotals)"
      "mc_Candidate r = metricTotals_metrics (fold (metricTotals_add \<circ> sc_Candidate) (mc_Segments r) zeroTotals)"
      "mc_CandidateMinusBaseline r = subtractMetrics (mc_Candidate r) (mc_Baseline r)"
    and el: "\<forall>s \<in> set (mc_Segments r). sc_Passed s" "mc_Reasons r = []"
      "\<not> overallImprovement (mc_Baseline r) (mc_Candidate r) + comparisonTolerance < mcp_MinimumOverallBrierImprovement (mcc_Policy config)"
    using cmp by (auto simp: CompareHoldoutModels_def Let_def split: if_splits)
  have "paired (set observations) emptyGrouping" by (simp add: paired_def emptyGrouping_def)
  from groupLoop_paired [OF this subset_refl g(1)] have grp: "paired (set observations) g" "gs_segments g \<noteq> []"
    using g(2) by auto
  have seg: "\<exists>k os. s = compareSegment k (sc_Baseline s) (sc_Candidate s) (mcc_Policy config) \<and> k \<noteq> '''' \<and> \<not> segmentInconsistent r s \<and>
      set os \<subseteq> set observations \<and> (\<exists>o1 \<in> set os. mcc_TrainingCutoff config < mr_AvailableAt (pco_Result o1)) \<and>
      mcc_BaselineTrainedThrough config \<noteq> 0 \<and> mcc_CandidateTrainedThrough config \<noteq> 0 \<and>
      mcc_BaselineTrainedThrough config \<le> mcc_TrainingCutoff config \<and> mcc_CandidateTrainedThrough config \<le> mcc_TrainingCutoff config"
    if s_in: "s \<in> set (mc_Segments r)" for s
  proof -
    obtain k where k: "k \<in> set (map fst (gs_segments g))" "segmentHoldouts Log config k (the (map_of (gs_segments g) k)) = Inr s"
      using mapR_member [OF g(3) s_in] by auto
    then obtain sg where sg: "map_of (gs_segments g) k = Some sg" by (metis map_of_eq_None_iff not_None_eq set_map)
    then have "(k, sg) \<in> set (gs_segments g)" by (rule map_of_SomeD)
    then obtain os where os: "k \<noteq> ''''" "os \<noteq> []" "set os \<subseteq> set observations" "si_baseline sg = map baselineSide os"
        "si_candidate sg = map candidateSide os" "\<forall>o1 \<in> set os. versionsAgree g o1"
      using grp(1) unfolding paired_def pairedSegment_def by blast
    have h: "segmentHoldouts Log config k sg = Inr s" using k(2) sg by simp
    note c = segmentHoldouts_consistent [OF h os(2,4,5,6) r(1,2)]
    show ?thesis using c os(1,3) by (intro exI [of _ k] exI [of _ os]) auto
  qed
  have ids: "map sc_SegmentID (mc_Segments r) = sort (map fst (gs_segments g))"
  proof -
    have "list_all2 (\<lambda>k s. sc_SegmentID s = k) (sort (map fst (gs_segments g))) (mc_Segments r)"
      using g(3) unfolding mapR_Inr by (rule list_all2_mono) (auto simp: segmentHoldouts_def)
    then show ?thesis by (induction rule: list_all2_induct) auto
  qed
  then have dist: "distinct (map sc_SegmentID (mc_Segments r))" "length (mc_Segments r) = length (gs_segments g)"
    using grp by (simp_all add: paired_def flip: length_map [of sc_SegmentID])
  have nonempty: "mc_Segments r \<noteq> []" using dist(2) grp(2) by auto
  have conf: "sc_SegmentID s \<noteq> ''''" "\<not> segmentInconsistent r s" "sc_Reasons s = []" "withinPolicy (mc_Policy r) (cr_Rooms (sc_Baseline s))
        (subtractMetrics (calibrationMetrics (sc_Candidate s)) (calibrationMetrics (sc_Baseline s)))"
      "sc_ModeID s = cr_ModeID (sc_Baseline s)" "sc_ScoringRulesVersion s = cr_ScoringRulesVersion (sc_Baseline s)"
      "sc_RoomSize s = cr_RoomSize (sc_Baseline s)" "sc_Rooms s = cr_Rooms (sc_Baseline s)" "sc_Players s = cr_Players (sc_Baseline s)"
      "metricsClose (sc_CandidateMinusBaseline s) (subtractMetrics (calibrationMetrics (sc_Candidate s)) (calibrationMetrics (sc_Baseline s)))"
    if s: "s \<in> set (mc_Segments r)" for s
  proof -
    obtain k b c where e: "s = compareSegment k b c (mcc_Policy config)" "k \<noteq> ''''" "\<not> segmentInconsistent r s" using seg [OF s] by blast
    have f: "finiteMetrics (sc_CandidateMinusBaseline s)" and p: "sc_Passed s" using fin(4) el(1) s by blast+
    show "sc_SegmentID s \<noteq> ''''" "\<not> segmentInconsistent r s" "sc_ModeID s = cr_ModeID (sc_Baseline s)"
      "sc_ScoringRulesVersion s = cr_ScoringRulesVersion (sc_Baseline s)" "sc_RoomSize s = cr_RoomSize (sc_Baseline s)"
      "sc_Rooms s = cr_Rooms (sc_Baseline s)" "sc_Players s = cr_Players (sc_Baseline s)"
      using e by simp_all
    show "sc_Reasons s = []" "withinPolicy (mc_Policy r) (cr_Rooms (sc_Baseline s))
        (subtractMetrics (calibrationMetrics (sc_Candidate s)) (calibrationMetrics (sc_Baseline s)))"
      using p by (simp_all add: e(1) compareSegment_passed r(7))
    show "metricsClose (sc_CandidateMinusBaseline s) (subtractMetrics (calibrationMetrics (sc_Candidate s)) (calibrationMetrics (sc_Baseline s)))"
      using metricsClose_refl [OF f] by (simp add: e(1))
  qed
  have loop: "activationLoop r [] (mc_Segments r) = None" unfolding activationLoop_None using conf dist(1) el(1) by auto
  obtain s0 where "s0 \<in> set (mc_Segments r)" using nonempty by (cases "mc_Segments r") auto
  from seg [OF this] obtain o1 where o1: "o1 \<in> set observations" "mcc_TrainingCutoff config < mr_AvailableAt (pco_Result o1)"
    and tr: "mcc_BaselineTrainedThrough config \<noteq> 0" "mcc_CandidateTrainedThrough config \<noteq> 0"
      "mcc_BaselineTrainedThrough config \<le> mcc_TrainingCutoff config" "mcc_CandidateTrainedThrough config \<le> mcc_TrainingCutoff config" by blast
  have through: "mcc_TrainingCutoff config < holdoutAvailableThrough observations"
    using holdoutAvailableThrough_ge [OF o1(1)] o1(2) by linarith
  have sums: "sum_list (map (cr_Rooms \<circ> sc_Baseline) (mc_Segments r)) = sum_list (map sc_Rooms (mc_Segments r))"
      "sum_list (map (cr_Players \<circ> sc_Baseline) (mc_Segments r)) = sum_list (map sc_Players (mc_Segments r))"
    using conf(8,9) by (auto intro!: arg_cong [where f = sum_list])
  show ?thesis
    unfolding ValidateForActivation_def Let_def
    using cmp(2) el(2,3) vers r through cutoff tr pol nonempty loop sums fin(1-3) by (simp add: metricsClose_refl)
qed

end
