(* ===== verification/Rating_Lifecycle.thy ===== *)
theory Rating_Lifecycle
  imports Rating_Comparison
begin

text \<open>
  \<^verbatim>\<open>pkg/rating/lifecycle.go\<close>: the revision-fenced deployment of a rating model. \<open>ActivateModel\<close> and
  \<open>RollbackModel\<close> are the two state transitions; each returns the next state and an audit record. The
  locale \<open>revision_fence\<close> states optimistic concurrency control once; the deployment commands are its
  interpretation.
\<close>

record ModelDeployment =
  md_ActiveVersion :: string
  md_RollbackVersion :: string
  md_Revision :: "64 word"
  md_ChangedAt :: time

datatype ModelTransitionKind = ModelTransitionActivation | ModelTransitionRollback

record ModelTransition =
  mt_Kind :: ModelTransitionKind
  mt_FromVersion :: string
  mt_ToVersion :: string
  mt_Revision :: "64 word"
  mt_ChangedAt :: time
  mt_Reason :: string

record ActivateModelCommand =
  am_ExpectedRevision :: "64 word"
  am_ActivatedAt :: time
  am_Reason :: string
  am_Comparison :: ModelComparisonReport

record RollbackModelCommand =
  rm_ExpectedRevision :: "64 word"
  rm_RolledBackAt :: time
  rm_Reason :: string

definition ModelDeployment_Validate :: "ModelDeployment \<Rightarrow> error" where
  "ModelDeployment_Validate d =
     (if md_ActiveVersion d = '''' \<or> md_Revision d = 0 \<or> IsZero (md_ChangedAt d)
      then Some (ErrorsNew ''model deployment requires an active version, revision and change time'')
      else if md_RollbackVersion d \<noteq> '''' \<and> md_RollbackVersion d = md_ActiveVersion d
      then Some (ErrorsNew ''model deployment rollback version must differ from the active version'')
      else None)"

definition NewModelDeployment :: "string \<Rightarrow> time \<Rightarrow> ModelDeployment result" where
  "NewModelDeployment activeVersion changedAt =
     (let deployment = \<lparr>md_ActiveVersion = activeVersion, md_RollbackVersion = '''', md_Revision = 1,
                        md_ChangedAt = changedAt\<rparr> in
      guardE (ModelDeployment_Validate deployment) (Inr deployment))"

definition validateModelChange :: "ModelDeployment \<Rightarrow> 64 word \<Rightarrow> time \<Rightarrow> string \<Rightarrow> error" where
  "validateModelChange current expectedRevision changedAt reason =
     andthenE (ModelDeployment_Validate current)
       (if expectedRevision \<noteq> md_Revision current
        then Some (Errorf ''model deployment revision is %d, expected %d''
                     [ArgI (uint (md_Revision current)), ArgI (uint expectedRevision)] None)
        else if md_Revision current = MaxUint64
        then Some (ErrorsNew ''model deployment revision cannot be incremented'')
        else if IsZero changedAt \<or> \<not> After changedAt (md_ChangedAt current)
        then Some (ErrorsNew ''model deployment change time must be after the current state'')
        else if reason = ''''
        then Some (ErrorsNew ''model deployment change reason is required'')
        else None)"

definition ActivateModel ::
  "ModelDeployment \<Rightarrow> ActivateModelCommand \<Rightarrow> (ModelDeployment \<times> ModelTransition) result" where
  "ActivateModel current command =
     guardE (validateModelChange current (am_ExpectedRevision command) (am_ActivatedAt command) (am_Reason command))
     (let comparison = am_Comparison command in
      guardE (ValidateForActivation comparison)
      (if mc_BaselineVersion comparison \<noteq> md_ActiveVersion current
       then Inl (Errorf ''comparison baseline %q does not match active model %q''
                   [ArgS (mc_BaselineVersion comparison), ArgS (md_ActiveVersion current)] None)
       else if mc_CandidateVersion comparison = '''' \<or> mc_CandidateVersion comparison = md_ActiveVersion current
       then Inl (ErrorsNew ''activation requires a distinct candidate version'')
       else if After (mc_HoldoutAvailableThrough comparison) (am_ActivatedAt command)
       then Inl (ErrorsNew ''activation time cannot predate compared holdout data'')
       else
         let next = \<lparr>md_ActiveVersion = mc_CandidateVersion comparison,
                     md_RollbackVersion = md_ActiveVersion current,
                     md_Revision = md_Revision current + 1, md_ChangedAt = am_ActivatedAt command\<rparr>;
             transition = \<lparr>mt_Kind = ModelTransitionActivation, mt_FromVersion = md_ActiveVersion current,
                           mt_ToVersion = md_ActiveVersion next, mt_Revision = md_Revision next,
                           mt_ChangedAt = md_ChangedAt next, mt_Reason = am_Reason command\<rparr>
         in Inr (next, transition)))"

definition RollbackModel ::
  "ModelDeployment \<Rightarrow> RollbackModelCommand \<Rightarrow> (ModelDeployment \<times> ModelTransition) result" where
  "RollbackModel current command =
     guardE (validateModelChange current (rm_ExpectedRevision command) (rm_RolledBackAt command) (rm_Reason command))
     (if md_RollbackVersion current = '''' then Inl (ErrorsNew ''model deployment has no rollback target'')
      else
        let next = \<lparr>md_ActiveVersion = md_RollbackVersion current, md_RollbackVersion = '''',
                    md_Revision = md_Revision current + 1, md_ChangedAt = rm_RolledBackAt command\<rparr>;
            transition = \<lparr>mt_Kind = ModelTransitionRollback, mt_FromVersion = md_ActiveVersion current,
                          mt_ToVersion = md_ActiveVersion next, mt_Revision = md_Revision next,
                          mt_ChangedAt = md_ChangedAt next, mt_Reason = rm_Reason command\<rparr>
        in Inr (next, transition))"

section \<open>Optimistic concurrency\<close>

text \<open>
  An adapter that persists the state applies commands one at a time; a rejected command leaves the state.
  \<open>applyAll\<close> returns the final state and, for every accepted command, the command and its event.
\<close>

fun applyAll :: "('s \<Rightarrow> 'c \<Rightarrow> ('s \<times> 'e) result) \<Rightarrow> 's \<Rightarrow> 'c list \<Rightarrow> 's \<times> ('c \<times> 'e) list" where
  "applyAll step s [] = (s, [])"
| "applyAll step s (c # cs) =
     (case step s c of
        Inl _ \<Rightarrow> applyAll step s cs
      | Inr (s', e) \<Rightarrow> (let (t, es) = applyAll step s' cs in (t, (c, e) # es)))"

locale revision_fence =
  fixes step :: "'s \<Rightarrow> 'c \<Rightarrow> ('s \<times> 'e) result" and revision :: "'s \<Rightarrow> 64 word" and expected :: "'c \<Rightarrow> 64 word"
  assumes fenced: "step s c = Inr (s', e) \<Longrightarrow> expected c = revision s"
    and advances: "step s c = Inr (s', e) \<Longrightarrow> uint (revision s') = uint (revision s) + 1"
begin

text \<open>A command that was accepted is never accepted again, and neither is a rival of the same revision.\<close>

lemma rival_rejected:
  assumes "step s c = Inr (s', e)" "expected c' = expected c"
  shows "\<exists>err. step s' c' = Inl err"
proof (cases "step s' c'")
  case (Inr p)
  obtain t f where "step s' c' = Inr (t, f)" using Inr by (cases p) simp
  from fenced [OF this] fenced [OF assms(1)] advances [OF assms(1)] assms(2) show ?thesis by simp
qed simp

lemma revisions_consecutive:
  "applyAll step s cs = (t, es) \<Longrightarrow>
     map (uint \<circ> expected \<circ> fst) es = map (\<lambda>i. uint (revision s) + int i) [0..<length es] \<and>
     uint (revision t) = uint (revision s) + int (length es)"
proof (induction cs arbitrary: s t es)
  case (Cons c cs)
  show ?case
  proof (cases "step s c")
    case (Inl err)
    then show ?thesis using Cons by simp
  next
    case (Inr p)
    obtain s' e where p: "step s c = Inr (s', e)" using Inr by (cases p) simp
    obtain es' where es: "applyAll step s' cs = (t, es')" "es = (c, e) # es'"
      using Cons.prems p by (auto split: prod.splits)
    have "[0..<length es] = 0 # map Suc [0..<length es']" by (simp add: es(2) upt_conv_Cons map_Suc_upt del: upt_Suc)
    then show ?thesis
      using Cons.IH [OF es(1)] fenced [OF p] advances [OF p] by (simp add: es(2) o_def algebra_simps)
  qed
qed simp

lemma accepted_distinct:
  assumes "applyAll step s cs = (t, es)"
  shows "distinct (map (expected \<circ> fst) es)"
proof -
  have "distinct (map (uint \<circ> expected \<circ> fst) es)"
    using revisions_consecutive [OF assms] by (simp add: distinct_map inj_on_def)
  then have "distinct (map uint (map (expected \<circ> fst) es))" by (simp add: o_assoc)
  then show ?thesis by (simp only: distinct_map)
qed

end

datatype modelCommand = Activate ActivateModelCommand | Rollback RollbackModelCommand

fun changeModel :: "ModelDeployment \<Rightarrow> modelCommand \<Rightarrow> (ModelDeployment \<times> ModelTransition) result" where
  "changeModel d (Activate c) = ActivateModel d c"
| "changeModel d (Rollback c) = RollbackModel d c"

fun expectedRevision :: "modelCommand \<Rightarrow> 64 word" where
  "expectedRevision (Activate c) = am_ExpectedRevision c"
| "expectedRevision (Rollback c) = rm_ExpectedRevision c"

lemma validateModelChange_None:
  "validateModelChange d r t why = None \<longleftrightarrow>
     ModelDeployment_Validate d = None \<and> r = md_Revision d \<and> md_Revision d \<noteq> MaxUint64 \<and>
     t \<noteq> 0 \<and> md_ChangedAt d < t \<and> why \<noteq> ''''"
  by (auto simp: validateModelChange_def)

lemma changeModel_Inr:
  assumes "changeModel d c = Inr (d', t)"
  shows "expectedRevision c = md_Revision d" "uint (md_Revision d') = uint (md_Revision d) + 1"
    and "mt_Revision t = md_Revision d'" "mt_ChangedAt t = md_ChangedAt d'" "md_ChangedAt d < md_ChangedAt d'"
    and "mt_FromVersion t = md_ActiveVersion d" "mt_ToVersion t = md_ActiveVersion d'" "mt_Reason t \<noteq> ''''"
    and "ModelDeployment_Validate d = None"
  using assms uint_succ
  by (cases c; auto simp: ActivateModel_def RollbackModel_def validateModelChange_None Let_def split: if_splits)+

interpretation deployment: revision_fence changeModel md_Revision expectedRevision
  by unfold_locales (rule changeModel_Inr, assumption)+

section \<open>The deployment history\<close>

text \<open>
  \<open>history d audit\<close>: the deployment \<open>d\<close> was created by \<open>NewModelDeployment\<close> and reached by accepted
  commands, whose transitions, newest first, are \<open>audit\<close>.
\<close>

inductive history :: "ModelDeployment \<Rightarrow> ModelTransition list \<Rightarrow> bool" where
  created: "NewModelDeployment v t = Inr d \<Longrightarrow> history d []"
| changed: "\<lbrakk>history d audit; changeModel d c = Inr (d', tr)\<rbrakk> \<Longrightarrow> history d' (tr # audit)"

text \<open>An audit log that a reader can replay: versions chain, revisions count and times increase.\<close>

fun chained :: "ModelTransition list \<Rightarrow> bool" where
  "chained [] = True"
| "chained [t] = (mt_Kind t = ModelTransitionActivation)"
| "chained (t # p # audit) = (mt_FromVersion t = mt_ToVersion p \<and> mt_ChangedAt p < mt_ChangedAt t \<and>
     uint (mt_Revision t) = uint (mt_Revision p) + 1 \<and>
     (mt_Kind t = ModelTransitionRollback \<longrightarrow>
        mt_Kind p = ModelTransitionActivation \<and> mt_ToVersion t = mt_FromVersion p) \<and>
     chained (p # audit))"

text \<open>The state is what the newest transition says; a rollback target is kept exactly after an activation.\<close>

fun reflects :: "ModelDeployment \<Rightarrow> ModelTransition list \<Rightarrow> bool" where
  "reflects d [] = (md_RollbackVersion d = '''')"
| "reflects d (t # audit) = (md_ActiveVersion d = mt_ToVersion t \<and> md_ChangedAt d = mt_ChangedAt t \<and>
     md_Revision d = mt_Revision t \<and> mt_FromVersion t \<noteq> mt_ToVersion t \<and>
     md_RollbackVersion d = (if mt_Kind t = ModelTransitionActivation then mt_FromVersion t else ''''))"

lemma NewModelDeployment_Inr:
  assumes "NewModelDeployment v t = Inr d"
  shows "ModelDeployment_Validate d = None" "md_Revision d = 1" "md_RollbackVersion d = ''''"
  using assms by (auto simp: NewModelDeployment_def Let_def)

lemma changeModel_valid:
  assumes "changeModel d c = Inr (d', t)"
  shows "ModelDeployment_Validate d' = None"
proof -
  have "0 < uint (md_Revision d')" using changeModel_Inr(2) [OF assms] uint_ge_0 [of "md_Revision d"] by linarith
  then have "md_Revision d' \<noteq> 0" by auto
  then show ?thesis
    using assms
    by (cases c) (auto simp: ActivateModel_def RollbackModel_def validateModelChange_None Let_def
        ModelDeployment_Validate_def split: if_splits)
qed

lemma changeModel_target:
  assumes "changeModel d c = Inr (d', t)"
  shows "md_RollbackVersion d' = (if mt_Kind t = ModelTransitionActivation then mt_FromVersion t else '''')"
    and "mt_Kind t = ModelTransitionRollback \<Longrightarrow> md_RollbackVersion d = mt_ToVersion t \<and> md_RollbackVersion d \<noteq> ''''"
    and "mt_FromVersion t \<noteq> mt_ToVersion t" "mt_FromVersion t \<noteq> ''''"
  using assms
  by (cases c; auto simp: ActivateModel_def RollbackModel_def validateModelChange_None Let_def
      ModelDeployment_Validate_def split: if_splits)+

lemma history_invariant:
  "history d audit \<Longrightarrow> ModelDeployment_Validate d = None \<and> reflects d audit \<and> chained audit \<and>
     uint (md_Revision d) = 1 + int (length audit)"
proof (induction rule: history.induct)
  case (created v t d)
  then show ?case using NewModelDeployment_Inr [of v t d] by simp
next
  case (changed d audit c d' tr)
  note inr = changeModel_Inr [OF changed.hyps(2)] and tg = changeModel_target [OF changed.hyps(2)]
  have refl: "reflects d' (tr # audit)" using inr tg by simp
  have "chained (tr # audit)"
  proof (cases audit)
    case Nil
    then have "mt_Kind tr \<noteq> ModelTransitionRollback" using changed.IH tg(2) by auto
    then show ?thesis using Nil by (cases "mt_Kind tr") auto
  next
    case (Cons p rest)
    have "mt_Kind p = ModelTransitionActivation \<and> mt_ToVersion tr = mt_FromVersion p"
      if "mt_Kind tr = ModelTransitionRollback"
      using tg(2) [OF that] changed.IH Cons by (auto split: if_splits)
    then show ?thesis using Cons changed.IH inr by auto
  qed
  then show ?case using refl changeModel_valid [OF changed.hyps(2)] changed.IH inr(2) by simp
qed

lemma history_applyAll:
  "history d audit \<Longrightarrow> applyAll changeModel d cs = (d', es) \<Longrightarrow> history d' (rev (map snd es) @ audit)"
proof (induction cs arbitrary: d audit es)
  case (Cons c cs)
  show ?case
  proof (cases "changeModel d c")
    case (Inl e)
    then show ?thesis using Cons by simp
  next
    case (Inr p)
    obtain d1 t where p: "changeModel d c = Inr (d1, t)" using Inr by (cases p) simp
    obtain es1 where es: "applyAll changeModel d1 cs = (d', es1)" "es = (c, t) # es1"
      using Cons.prems(2) p by (auto split: prod.splits)
    show ?thesis using Cons.IH [OF history.changed [OF Cons.prems(1) p] es(1)] by (simp add: es(2))
  qed
qed simp

text \<open>
  C28. Every deployment reached by any sequence of commands, accepted or not, is valid and explained by its
  audit log: the revision counts the accepted changes without ever wrapping, versions chain, times increase
  strictly, and a rollback occurs only directly after an activation and restores the version it replaced, so
  no two rollbacks are adjacent.
\<close>

theorem deployment_audited:
  assumes "NewModelDeployment v t0 = Inr d0" "applyAll changeModel d0 cs = (d, es)"
  shows "ModelDeployment_Validate d = None \<and> chained (rev (map snd es)) \<and> reflects d (rev (map snd es)) \<and>
    uint (md_Revision d) = 1 + int (length es) \<and> distinct (map (expectedRevision \<circ> fst) es)"
  using history_invariant [OF history_applyAll [OF history.created [OF assms(1)] assms(2)]]
    deployment.accepted_distinct [OF assms(2)]
  by simp

definition sampleActivation :: "64 word \<Rightarrow> time \<Rightarrow> modelCommand" where
  "sampleActivation r t = Activate \<lparr>am_ExpectedRevision = r, am_ActivatedAt = t, am_Reason = ''holdout'', am_Comparison = sampleComparison\<rparr>"

definition sampleRollback :: "64 word \<Rightarrow> time \<Rightarrow> modelCommand" where
  "sampleRollback r t = Rollback \<lparr>rm_ExpectedRevision = r, rm_RolledBackAt = t, rm_Reason = ''regression''\<rparr>"

definition sampleDeployment :: ModelDeployment where
  "sampleDeployment = \<lparr>md_ActiveVersion = ''m1'', md_RollbackVersion = '''', md_Revision = 1, md_ChangedAt = 10\<rparr>"

lemma sampleDeployment_new: "NewModelDeployment ''m1'' 10 = Inr sampleDeployment"
  by (simp add: NewModelDeployment_def sampleDeployment_def ModelDeployment_Validate_def)

definition sampleActivated :: ModelDeployment where
  "sampleActivated = \<lparr>md_ActiveVersion = ''m2'', md_RollbackVersion = ''m1'', md_Revision = 2, md_ChangedAt = 100\<rparr>"

lemma sampleComparison_sel [simp]:
  "mc_BaselineVersion sampleComparison = ''m1''" "mc_CandidateVersion sampleComparison = ''m2''"
  "mc_HoldoutAvailableThrough sampleComparison = 90"
  by (simp_all add: sampleComparison_def)

lemma sample_activates:
  "changeModel sampleDeployment (sampleActivation 1 100) = Inr (sampleActivated,
     \<lparr>mt_Kind = ModelTransitionActivation, mt_FromVersion = ''m1'', mt_ToVersion = ''m2'', mt_Revision = 2,
      mt_ChangedAt = 100, mt_Reason = ''holdout''\<rparr>)"
  by (simp add: sampleActivation_def ActivateModel_def sampleComparison_valid validateModelChange_def Let_def
      sampleDeployment_def sampleActivated_def ModelDeployment_Validate_def MaxUint64_def)

lemma sample_rolls_back:
  "changeModel sampleActivated (sampleRollback 2 110) =
     Inr (\<lparr>md_ActiveVersion = ''m1'', md_RollbackVersion = '''', md_Revision = 3, md_ChangedAt = 110\<rparr>,
     \<lparr>mt_Kind = ModelTransitionRollback, mt_FromVersion = ''m2'', mt_ToVersion = ''m1'', mt_Revision = 3,
      mt_ChangedAt = 110, mt_Reason = ''regression''\<rparr>)"
  by (simp add: sampleRollback_def RollbackModel_def validateModelChange_def Let_def
      sampleActivated_def ModelDeployment_Validate_def MaxUint64_def)

lemma sample_run:
  "\<exists>d es. applyAll changeModel sampleDeployment
     [sampleActivation 1 100, sampleActivation 1 101, sampleRollback 2 110] = (d, es) \<and>
     length es = 2 \<and> md_ActiveVersion d = ''m1''"
proof -
  obtain e where "changeModel sampleActivated (sampleActivation 1 101) = Inl e"
    using deployment.rival_rejected [OF sample_activates, of "sampleActivation 1 101"] by (auto simp: sampleActivation_def)
  then show ?thesis by (simp add: sample_activates sample_rolls_back)
qed

theorem deployment_audited_witness:
  "\<exists>d (es :: (modelCommand \<times> ModelTransition) list). md_ActiveVersion d = ''m1'' \<and> length es = 2 \<and> ModelDeployment_Validate d = None \<and>
     chained (rev (map snd es)) \<and> uint (md_Revision d) = 3"
proof -
  obtain d es where run: "applyAll changeModel sampleDeployment
      [sampleActivation 1 100, sampleActivation 1 101, sampleRollback 2 110] = (d, es)" and
    len: "length es = 2" "md_ActiveVersion d = ''m1''" using sample_run by blast
  from deployment_audited [OF sampleDeployment_new run] len
  have "uint (md_Revision d) = 3" "ModelDeployment_Validate d = None" "chained (rev (map snd es))" by simp_all
  with len show ?thesis by blast
qed

text \<open>
  What is refused after a change: a rival command that expected the same revision, whichever kind it is,
  and after a rollback any further rollback until the next activation.
\<close>

theorem change_excludes:
  assumes "changeModel d c = Inr (d', t)"
  shows "(expectedRevision c' = expectedRevision c \<longrightarrow> (\<exists>e. changeModel d' c' = Inl e)) \<and>
    (mt_Kind t = ModelTransitionRollback \<longrightarrow> (\<exists>e. changeModel d' (Rollback r) = Inl e))"
proof -
  have "\<exists>e. changeModel d' (Rollback r) = Inl e" if "mt_Kind t = ModelTransitionRollback"
    using changeModel_target(1) [OF assms] that
    by (cases "validateModelChange d' (rm_ExpectedRevision r) (rm_RolledBackAt r) (rm_Reason r)")
      (simp_all add: RollbackModel_def)
  then show ?thesis using deployment.rival_rejected [OF assms] by blast
qed

theorem change_excludes_witness:
  "(\<exists>e. changeModel sampleActivated (sampleActivation 1 101) = Inl e) \<and>
   (\<exists>d'. (\<exists>t. changeModel sampleActivated (sampleRollback 2 110) = Inr (d', t)) \<and>
      (\<forall>r. \<exists>e. changeModel d' (Rollback r) = Inl e))"
proof -
  have "\<exists>e. changeModel sampleActivated (sampleActivation 1 101) = Inl e"
    using change_excludes [OF sample_activates, of "sampleActivation 1 101"] by (auto simp: sampleActivation_def)
  moreover have "\<exists>e. changeModel \<lparr>md_ActiveVersion = ''m1'', md_RollbackVersion = '''', md_Revision = 3, md_ChangedAt = 110\<rparr> (Rollback r) = Inl e" for r
    using change_excludes [OF sample_rolls_back, of undefined r] by simp
  ultimately show ?thesis using sample_rolls_back by blast
qed

end
