(* ===== verification/Service_Config.thy ===== *)
theory Service_Config
  imports Go_Prelude Go_Float
begin

text \<open>
  The process configuration of \<^verbatim>\<open>internal/config/config.go\<close>: the record \<open>ProcessConfig\<close>, and \<open>Load\<close> over an environment
  accessor, with the loops over the integer and the duration variables, the checks across fields and the checks of
  the tokens and of the listening address. Of the standard library it models \<^verbatim>\<open>strconv.Atoi\<close> and
  \<^verbatim>\<open>strconv.ParseInt\<close>, \<^verbatim>\<open>time.ParseDuration\<close>, \<^verbatim>\<open>net.SplitHostPort\<close>, \<^verbatim>\<open>slog.Level.UnmarshalText\<close> and the whitespace of
  \<^verbatim>\<open>strings.TrimSpace\<close>; strings are byte strings. The lemmas show the ranges every loaded configuration has.
\<close>

section \<open>Parsing\<close>

definition isDigit :: "char \<Rightarrow> bool" where
  "isDigit c \<longleftrightarrow> 48 \<le> (of_char c :: nat) \<and> (of_char c :: nat) \<le> 57"

definition digitValue :: "char \<Rightarrow> int" where
  "digitValue c = of_char c - 48"

definition decimalValue :: "string \<Rightarrow> int" where
  "decimalValue ds = foldl (\<lambda>n c. n * 10 + digitValue c) 0 ds"

text \<open>\<^verbatim>\<open>strconv.ParseInt\<close> to base ten: an optional sign and digits, within the signed range of the given width.\<close>

definition ParseInt :: "nat \<Rightarrow> string \<Rightarrow> int option" where
  "ParseInt bits s =
     (let (negative, ds) = (case s of [] \<Rightarrow> (False, []) | c # cs \<Rightarrow> if c = CHR ''-'' then (True, cs) else if c = CHR ''+'' then (False, cs) else (False, s));
          n = (if negative then - decimalValue ds else decimalValue ds) in
      if ds = [] \<or> \<not> list_all isDigit ds \<or> n < - (2 ^ (bits - 1)) \<or> 2 ^ (bits - 1) \<le> n then None else Some n)"

abbreviation Atoi :: "string \<Rightarrow> int option" where "Atoi \<equiv> ParseInt 64"

text \<open>
  \<^verbatim>\<open>time.ParseDuration\<close>: a sum of decimal numbers with units. The integer part is limited to \<open>2 ^ 63\<close>; digits of the
  fraction that do not fit are dropped; the fraction is scaled in floating point; the sum is the 64-bit one.
\<close>

fun leadingInt :: "int \<Rightarrow> string \<Rightarrow> (int \<times> string) option" where
  "leadingInt x [] = Some (x, [])"
| "leadingInt x (c # cs) =
     (if \<not> isDigit c then Some (x, c # cs)
      else if 2 ^ 63 div 10 < x then None
      else let y = x * 10 + digitValue c in if 2 ^ 63 < y then None else leadingInt y cs)"

fun leadingFraction :: "bool \<Rightarrow> int \<Rightarrow> f64 \<Rightarrow> string \<Rightarrow> int \<times> f64 \<times> string" where
  "leadingFraction overflow x scale [] = (x, scale, [])"
| "leadingFraction overflow x scale (c # cs) =
     (if \<not> isDigit c then (x, scale, c # cs)
      else if overflow \<or> (2 ^ 63 - 1) div 10 < x then leadingFraction True x scale cs
      else let y = x * 10 + digitValue c in
        if 2 ^ 63 < y then leadingFraction True x scale cs else leadingFraction False y (scale * Fin 10) cs)"

definition unitMap :: "string \<Rightarrow> int option" where
  "unitMap u = map_of [(''ns'', nanosecond), (''us'', 1000), ([CHR 0xC2, CHR 0xB5, CHR ''s''], 1000), ([CHR 0xCE, CHR 0xBC, CHR ''s''], 1000),
     (''ms'', millisecond), (''s'', second), (''m'', minute), (''h'', hour)] u"

text \<open>One number with its unit: its value in nanoseconds and the rest of the string.\<close>

definition durationTerm :: "string \<Rightarrow> (int \<times> string) option" where
  "durationTerm s =
     (case leadingInt 0 s of None \<Rightarrow> None
      | Some (v, s1) \<Rightarrow>
          let pre = (length s1 \<noteq> length s);
              (f, scale, s2, post) = (case s1 of [] \<Rightarrow> (0, Fin 1, s1, False)
                | c # cs \<Rightarrow> if c = CHR ''.'' then (case leadingFraction False 0 (Fin 1) cs of (f, scale, s2) \<Rightarrow> (f, scale, s2, length s2 \<noteq> length cs))
                             else (0, Fin 1, s1, False));
              u = takeWhile (\<lambda>c. \<not> (c = CHR ''.'' \<or> isDigit c)) s2 in
          if \<not> pre \<and> \<not> post \<or> u = [] then None
          else case unitMap u of None \<Rightarrow> None
            | Some unit \<Rightarrow>
                if 2 ^ 63 div unit < v then None
                else let w = v * unit + (if 0 < f then f64_to_int (f64_of_int f * (f64_of_int unit / scale)) else 0) in
                  if 0 < f \<and> 2 ^ 63 < w then None else Some (w, drop (length u) s2))"

lemma leadingInt_rest: "leadingInt x s = Some (v, r) \<Longrightarrow> length r \<le> length s"
  by (induction x s rule: leadingInt.induct) (auto simp: Let_def split: if_splits)

lemma leadingFraction_rest: "leadingFraction ov x sc s = (f, sc', r) \<Longrightarrow> length r \<le> length s"
  by (induction ov x sc s arbitrary: f sc' r rule: leadingFraction.induct) (auto simp: Let_def split: if_splits intro: le_SucI)

lemma durationTerm_shorter:
  assumes "durationTerm s = Some (w, r)"
  shows "length r < length s"
proof -
  obtain v s1 where s1: "leadingInt 0 s = Some (v, s1)"
    using assms by (auto simp: durationTerm_def split: option.splits)
  obtain f scale s2 post where s2: "(case s1 of [] \<Rightarrow> (0, Fin 1, s1, False)
      | c # cs \<Rightarrow> if c = CHR ''.'' then (case leadingFraction False 0 (Fin 1) cs of (f, scale, s2) \<Rightarrow> (f, scale, s2, length s2 \<noteq> length cs))
                   else (0, Fin 1, s1, False)) = (f, scale, s2, post)"
    using prod_cases4 by blast
  have len: "length s1 \<le> length s" using leadingInt_rest [OF s1] .
  have "length s2 \<le> length s1"
    using s2 leadingFraction_rest by (cases s1) (fastforce split: if_splits prod.splits intro: le_SucI)+
  moreover have "takeWhile (\<lambda>c. \<not> (c = CHR ''.'' \<or> isDigit c)) s2 \<noteq> []"
    "r = drop (length (takeWhile (\<lambda>c. \<not> (c = CHR ''.'' \<or> isDigit c)) s2)) s2"
    using assms by (auto simp: durationTerm_def s1 s2 Let_def split: option.splits if_splits)
  ultimately show ?thesis using len by (cases s2) auto
qed

function durationSum :: "int \<Rightarrow> string \<Rightarrow> int option" where
  "durationSum d s =
     (if s = [] then Some d
      else if \<not> (hd s = CHR ''.'' \<or> isDigit (hd s)) then None
      else case durationTerm s of None \<Rightarrow> None
        | Some (w, r) \<Rightarrow> let d = (d + w) mod 2 ^ 64 in if 2 ^ 63 < d then None else durationSum d r)"
  by pat_completeness auto
termination by (relation "measure (\<lambda>(d, s). length s)") (auto dest: durationTerm_shorter)

declare durationSum.simps [simp del]

definition ParseDuration :: "string \<Rightarrow> duration option" where
  "ParseDuration text =
     (let (negative, s) = (case text of [] \<Rightarrow> (False, []) | c # cs \<Rightarrow> if c = CHR ''-'' then (True, cs) else if c = CHR ''+'' then (False, cs) else (False, text)) in
      if s = ''0'' then Some 0
      else if s = [] then None
      else case durationSum 0 s of None \<Rightarrow> None
        | Some d \<Rightarrow> if negative then Some (- d) else if 2 ^ 63 - 1 < d then None else Some d)"

text \<open>
  \<^verbatim>\<open>slog.Level.UnmarshalText\<close>: a level name in any case with an optional offset. Of the letters outside ASCII, the dotless i
  and the long s have an ASCII letter as their upper case.
\<close>

fun toUpper :: "string \<Rightarrow> string" where
  "toUpper [] = []"
| "toUpper [c] = [if 97 \<le> (of_char c :: nat) \<and> (of_char c :: nat) \<le> 122 then char_of ((of_char c :: nat) - 32) else c]"
| "toUpper (c # d # s) =
     (if c = CHR 0xC4 \<and> d = CHR 0xB1 then CHR ''I'' # toUpper s
      else if c = CHR 0xC5 \<and> d = CHR 0xBF then CHR ''S'' # toUpper s
      else (if 97 \<le> (of_char c :: nat) \<and> (of_char c :: nat) \<le> 122 then char_of ((of_char c :: nat) - 32) else c) # toUpper (d # s))"

definition levelName :: "string \<Rightarrow> int option" where
  "levelName name = map_of [(''DEBUG'', -4), (''INFO'', 0), (''WARN'', 4), (''ERROR'', 8)] (toUpper name)"

definition UnmarshalLevel :: "string \<Rightarrow> int option" where
  "UnmarshalLevel s =
     (let isName = (\<lambda>c. c \<noteq> CHR ''+'' \<and> c \<noteq> CHR ''-''); name = takeWhile isName s; rest = dropWhile isName s in
      case (if rest = [] then Some 0 else Atoi rest) of None \<Rightarrow> None
      | Some offset \<Rightarrow> map_option (\<lambda>l. (l + offset + 2 ^ 63) mod 2 ^ 64 - 2 ^ 63) (levelName name))"

text \<open>\<^verbatim>\<open>strings.TrimSpace\<close> leaves nothing of the UTF-8 text: only white space of Unicode.\<close>

definition codes :: "nat \<Rightarrow> string \<Rightarrow> nat list" where "codes n s = map of_char (take n s)"

definition spaceBytes :: "string \<Rightarrow> nat" where
  "spaceBytes s =
     (if codes 1 s \<in> set [[0x09], [0x0A], [0x0B], [0x0C], [0x0D], [0x20]] then 1
      else if codes 2 s \<in> set [[0xC2, 0x85], [0xC2, 0xA0]] then 2
      else if codes 3 s \<in> set [[0xE1, 0x9A, 0x80], [0xE2, 0x80, 0xA8], [0xE2, 0x80, 0xA9], [0xE2, 0x80, 0xAF], [0xE2, 0x81, 0x9F], [0xE3, 0x80, 0x80]]
        \<or> codes 3 s \<in> set (map (\<lambda>c. [0xE2, 0x80, c]) [0x80..<0x8B]) then 3
      else 0)"

function isBlank :: "string \<Rightarrow> bool" where
  "isBlank s = (if s = [] then True else if spaceBytes s = 0 then False else isBlank (drop (spaceBytes s) s))"
  by pat_completeness auto
termination by (relation "measure length") auto

declare isBlank.simps [simp del]

text \<open>\<^verbatim>\<open>net.SplitHostPort\<close>: the port after the last colon, when the host before it has the right brackets.\<close>

definition splitPort :: "string \<Rightarrow> string option" where
  "splitPort hostport =
     (if CHR '':'' \<notin> set hostport then None
      else let port = List.rev (takeWhile (\<lambda>c. c \<noteq> CHR '':'') (List.rev hostport));
               i = length hostport - length port - 1 in
        if hd hostport = CHR ''[''
        then let end = length (takeWhile (\<lambda>c. c \<noteq> CHR '']'') hostport) in
          if CHR '']'' \<notin> set hostport \<or> end + 1 \<noteq> i \<or> CHR ''['' \<in> set (drop 1 hostport) \<or> CHR '']'' \<in> set (drop (end + 1) hostport)
          then None else Some port
        else if CHR '':'' \<in> set (take i hostport) \<or> CHR ''['' \<in> set hostport \<or> CHR '']'' \<in> set hostport then None
        else Some port)"

section \<open>The configuration\<close>

record ProcessConfig =
  pc_HTTPAddr :: string
  pc_DatabaseURL :: string
  pc_APIToken :: string
  pc_DBMaxConns :: int
  pc_StartupTimeout :: duration
  pc_ReadinessTimeout :: duration
  pc_ShutdownTimeout :: duration
  pc_LogLevel :: int
  pc_MatchBatchSize :: int
  pc_MatchConcurrency :: int
  pc_MatchLease :: duration
  pc_MatchPollInterval :: duration
  pc_MatchFailureBackoff :: duration
  pc_MatchStaleRetryDelay :: duration
  pc_ResultDeadlineBatch :: int
  pc_ResultDeadlinePoll :: duration
  pc_RatingLease :: duration
  pc_RatingPollInterval :: duration
  pc_RatingFailureBackoff :: duration
  pc_OutboxDeliveryURL :: string
  pc_OutboxDeliveryToken :: string
  pc_OutboxBatchSize :: int
  pc_OutboxConcurrency :: int
  pc_OutboxLease :: duration
  pc_OutboxPollInterval :: duration
  pc_OutboxRequestTimeout :: duration
  pc_OutboxRetryBaseDelay :: duration
  pc_OutboxRetryMaxDelay :: duration

definition databaseStatementTimeout :: duration where
  "databaseStatementTimeout = 1500 * millisecond"

definition defaultConfig :: "(string \<Rightarrow> string) \<Rightarrow> ProcessConfig" where
  "defaultConfig getenv =
     \<lparr>pc_HTTPAddr = ''127.0.0.1:8080'', pc_DatabaseURL = getenv ''DATABASE_URL'', pc_APIToken = getenv ''API_TOKEN'', pc_DBMaxConns = 10,
      pc_StartupTimeout = 10 * second, pc_ReadinessTimeout = 2 * second, pc_ShutdownTimeout = 10 * second, pc_LogLevel = 0,
      pc_MatchBatchSize = 32, pc_MatchConcurrency = 8, pc_MatchLease = 10 * second, pc_MatchPollInterval = 100 * millisecond,
      pc_MatchFailureBackoff = second, pc_MatchStaleRetryDelay = 50 * millisecond, pc_ResultDeadlineBatch = 32, pc_ResultDeadlinePoll = second,
      pc_RatingLease = 10 * second, pc_RatingPollInterval = 100 * millisecond, pc_RatingFailureBackoff = second,
      pc_OutboxDeliveryURL = getenv ''OUTBOX_DELIVERY_URL'', pc_OutboxDeliveryToken = getenv ''OUTBOX_DELIVERY_TOKEN'',
      pc_OutboxBatchSize = 32, pc_OutboxConcurrency = 8, pc_OutboxLease = 30 * second, pc_OutboxPollInterval = 100 * millisecond,
      pc_OutboxRequestTimeout = 5 * second, pc_OutboxRetryBaseDelay = second, pc_OutboxRetryMaxDelay = minute\<rparr>"

text \<open>The two tables of the loops: a variable, the field it sets and, for a count, its maximum.\<close>

definition intEntries :: "(string \<times> (int \<Rightarrow> ProcessConfig \<Rightarrow> ProcessConfig) \<times> int) list" where
  "intEntries =
     [(''MATCH_WORKER_BATCH_SIZE'', \<lambda>n c. c\<lparr>pc_MatchBatchSize := n\<rparr>, 256),
      (''MATCH_WORKER_CONCURRENCY'', \<lambda>n c. c\<lparr>pc_MatchConcurrency := n\<rparr>, 256),
      (''RESULT_DEADLINE_BATCH_SIZE'', \<lambda>n c. c\<lparr>pc_ResultDeadlineBatch := n\<rparr>, 256),
      (''OUTBOX_WORKER_BATCH_SIZE'', \<lambda>n c. c\<lparr>pc_OutboxBatchSize := n\<rparr>, 256),
      (''OUTBOX_WORKER_CONCURRENCY'', \<lambda>n c. c\<lparr>pc_OutboxConcurrency := n\<rparr>, 256)]"

definition durationEntries :: "(string \<times> (duration \<Rightarrow> ProcessConfig \<Rightarrow> ProcessConfig)) list" where
  "durationEntries =
     [(''STARTUP_TIMEOUT'', \<lambda>d c. c\<lparr>pc_StartupTimeout := d\<rparr>),
      (''READINESS_TIMEOUT'', \<lambda>d c. c\<lparr>pc_ReadinessTimeout := d\<rparr>),
      (''SHUTDOWN_TIMEOUT'', \<lambda>d c. c\<lparr>pc_ShutdownTimeout := d\<rparr>),
      (''MATCH_WORKER_LEASE'', \<lambda>d c. c\<lparr>pc_MatchLease := d\<rparr>),
      (''MATCH_WORKER_POLL_INTERVAL'', \<lambda>d c. c\<lparr>pc_MatchPollInterval := d\<rparr>),
      (''MATCH_WORKER_FAILURE_BACKOFF'', \<lambda>d c. c\<lparr>pc_MatchFailureBackoff := d\<rparr>),
      (''MATCH_WORKER_STALE_RETRY_DELAY'', \<lambda>d c. c\<lparr>pc_MatchStaleRetryDelay := d\<rparr>),
      (''RESULT_DEADLINE_POLL_INTERVAL'', \<lambda>d c. c\<lparr>pc_ResultDeadlinePoll := d\<rparr>),
      (''RATING_WORKER_LEASE'', \<lambda>d c. c\<lparr>pc_RatingLease := d\<rparr>),
      (''RATING_WORKER_POLL_INTERVAL'', \<lambda>d c. c\<lparr>pc_RatingPollInterval := d\<rparr>),
      (''RATING_WORKER_FAILURE_BACKOFF'', \<lambda>d c. c\<lparr>pc_RatingFailureBackoff := d\<rparr>),
      (''OUTBOX_WORKER_LEASE'', \<lambda>d c. c\<lparr>pc_OutboxLease := d\<rparr>),
      (''OUTBOX_WORKER_POLL_INTERVAL'', \<lambda>d c. c\<lparr>pc_OutboxPollInterval := d\<rparr>),
      (''OUTBOX_REQUEST_TIMEOUT'', \<lambda>d c. c\<lparr>pc_OutboxRequestTimeout := d\<rparr>),
      (''OUTBOX_RETRY_BASE_DELAY'', \<lambda>d c. c\<lparr>pc_OutboxRetryBaseDelay := d\<rparr>),
      (''OUTBOX_RETRY_MAX_DELAY'', \<lambda>d c. c\<lparr>pc_OutboxRetryMaxDelay := d\<rparr>)]"

fun intLoop :: "(string \<Rightarrow> string) \<Rightarrow> (string \<times> (int \<Rightarrow> ProcessConfig \<Rightarrow> ProcessConfig) \<times> int) list \<Rightarrow> ProcessConfig \<Rightarrow> ProcessConfig result" where
  "intLoop getenv [] c = Inr c"
| "intLoop getenv ((key, target, maximum) # entries) c =
     (if getenv key \<noteq> ''''
      then case Atoi (getenv key) of
          None \<Rightarrow> Inl (Errorf ''%s must be between 1 and %d'' [ArgS key, ArgI maximum] None)
        | Some n \<Rightarrow> if n < 1 \<or> maximum < n then Inl (Errorf ''%s must be between 1 and %d'' [ArgS key, ArgI maximum] None)
            else intLoop getenv entries (target n c)
      else intLoop getenv entries c)"

fun durationLoop :: "(string \<Rightarrow> string) \<Rightarrow> (string \<times> (duration \<Rightarrow> ProcessConfig \<Rightarrow> ProcessConfig)) list \<Rightarrow> ProcessConfig \<Rightarrow> ProcessConfig result" where
  "durationLoop getenv [] c = Inr c"
| "durationLoop getenv ((key, target) # entries) c =
     (if getenv key \<noteq> ''''
      then case ParseDuration (getenv key) of
          None \<Rightarrow> Inl (Errorf ''%s must be a positive duration up to one minute'' [ArgS key] None)
        | Some d \<Rightarrow> if d \<le> 0 \<or> minute < d then Inl (Errorf ''%s must be a positive duration up to one minute'' [ArgS key] None)
            else durationLoop getenv entries (target d c)
      else durationLoop getenv entries c)"

definition loadAddress :: "(string \<Rightarrow> string) \<Rightarrow> ProcessConfig \<Rightarrow> ProcessConfig" where
  "loadAddress getenv c = (if getenv ''HTTP_ADDR'' \<noteq> '''' then c\<lparr>pc_HTTPAddr := getenv ''HTTP_ADDR''\<rparr> else c)"

definition loadConnections :: "(string \<Rightarrow> string) \<Rightarrow> ProcessConfig \<Rightarrow> ProcessConfig result" where
  "loadConnections getenv c =
     (if getenv ''DB_MAX_CONNS'' \<noteq> ''''
      then case ParseInt 32 (getenv ''DB_MAX_CONNS'') of
          None \<Rightarrow> Inl (ErrorsNew ''DB_MAX_CONNS must be between 1 and 1000'')
        | Some n \<Rightarrow> if n < 1 \<or> 1000 < n then Inl (ErrorsNew ''DB_MAX_CONNS must be between 1 and 1000'') else Inr (c\<lparr>pc_DBMaxConns := n\<rparr>)
      else Inr c)"

text \<open>The checks across fields, in the order of the code.\<close>

definition checkRelations :: "ProcessConfig \<Rightarrow> error" where
  "checkRelations c =
     (if 5 * second < pc_ReadinessTimeout c then Some (ErrorsNew ''READINESS_TIMEOUT cannot exceed five seconds'')
      else if pc_MatchBatchSize c < pc_MatchConcurrency c
      then Some (ErrorsNew ''MATCH_WORKER_CONCURRENCY cannot exceed MATCH_WORKER_BATCH_SIZE'')
      else if pc_MatchLease c \<le> databaseStatementTimeout
      then Some (ErrorsNew ''MATCH_WORKER_LEASE must exceed the PostgreSQL statement timeout'')
      else if second < pc_MatchStaleRetryDelay c then Some (ErrorsNew ''MATCH_WORKER_STALE_RETRY_DELAY cannot exceed one second'')
      else if pc_RatingLease c \<le> databaseStatementTimeout
      then Some (ErrorsNew ''RATING_WORKER_LEASE must exceed the PostgreSQL statement timeout'')
      else if pc_OutboxBatchSize c < pc_OutboxConcurrency c
      then Some (ErrorsNew ''OUTBOX_WORKER_CONCURRENCY cannot exceed OUTBOX_WORKER_BATCH_SIZE'')
      else if pc_OutboxLease c \<le> databaseStatementTimeout
      then Some (ErrorsNew ''OUTBOX_WORKER_LEASE must exceed the PostgreSQL statement timeout'')
      else if pc_OutboxLease c \<le> pc_OutboxRequestTimeout c
      then Some (ErrorsNew ''OUTBOX_REQUEST_TIMEOUT must be shorter than OUTBOX_WORKER_LEASE'')
      else if pc_OutboxRetryMaxDelay c < pc_OutboxRetryBaseDelay c
      then Some (ErrorsNew ''OUTBOX_RETRY_BASE_DELAY cannot exceed OUTBOX_RETRY_MAX_DELAY'')
      else None)"

definition loadLogLevel :: "(string \<Rightarrow> string) \<Rightarrow> ProcessConfig \<Rightarrow> ProcessConfig result" where
  "loadLogLevel getenv c =
     (if getenv ''LOG_LEVEL'' \<noteq> ''''
      then case UnmarshalLevel (getenv ''LOG_LEVEL'') of None \<Rightarrow> Inl (ErrorsNew ''invalid LOG_LEVEL'') | Some l \<Rightarrow> Inr (c\<lparr>pc_LogLevel := l\<rparr>)
      else Inr c)"

definition weakToken :: "string \<Rightarrow> bool" where
  "weakToken token \<longleftrightarrow> length token < 32 \<or> set token \<inter> {CHR '' '', CHR 0x0D, CHR 0x0A, CHR 0x09} \<noteq> {}"

definition checkSecrets :: "ProcessConfig \<Rightarrow> error" where
  "checkSecrets c =
     (if isBlank (pc_DatabaseURL c) then Some (ErrorsNew ''DATABASE_URL is required'')
      else if weakToken (pc_APIToken c) then Some (ErrorsNew ''API_TOKEN must contain at least 32 characters without whitespace'')
      else if isBlank (pc_OutboxDeliveryURL c) then Some (ErrorsNew ''OUTBOX_DELIVERY_URL is required'')
      else if weakToken (pc_OutboxDeliveryToken c)
      then Some (ErrorsNew ''OUTBOX_DELIVERY_TOKEN must contain at least 32 characters without whitespace'')
      else if pc_APIToken c = pc_OutboxDeliveryToken c then Some (ErrorsNew ''API_TOKEN and OUTBOX_DELIVERY_TOKEN must be distinct'')
      else None)"

definition checkAddress :: "ProcessConfig \<Rightarrow> error" where
  "checkAddress c =
     (case splitPort (pc_HTTPAddr c) of
        None \<Rightarrow> Some (ErrorsNew ''HTTP_ADDR must be a host:port address'')
      | Some port \<Rightarrow>
          (case Atoi port of
             None \<Rightarrow> Some (ErrorsNew ''HTTP_ADDR port must be between 1 and 65535'')
           | Some n \<Rightarrow> if n < 1 \<or> 65535 < n then Some (ErrorsNew ''HTTP_ADDR port must be between 1 and 65535'') else None))"

definition Load :: "(string \<Rightarrow> string) \<Rightarrow> ProcessConfig result" where
  "Load getenv =
     rbind (loadConnections getenv (loadAddress getenv (defaultConfig getenv))) (\<lambda>c.
     rbind (intLoop getenv intEntries c) (\<lambda>c.
     rbind (durationLoop getenv durationEntries c) (\<lambda>c.
     guardE (checkRelations c) (
     rbind (loadLogLevel getenv c) (\<lambda>c.
     guardE (checkSecrets c) (
     guardE (checkAddress c) (Inr c)))))))"

section \<open>The ranges of a loaded configuration\<close>

lemma intLoop_invariant:
  assumes "intLoop getenv entries c = Inr c'" "P c"
    and "\<And>key target maximum n x. \<lbrakk>(key, target, maximum) \<in> set entries; 1 \<le> n; n \<le> maximum; P x\<rbrakk> \<Longrightarrow> P (target n x)"
  shows "P c'"
  using assms
proof (induction getenv entries c rule: intLoop.induct)
  case (2 getenv key target maximum entries c)
  have rest: "P (t n x)" if "(k, t, m) \<in> set entries" "1 \<le> n" "n \<le> m" "P x" for k t m n x using 2(5) [of k t m n x] that by auto
  have now: "P (target n c)" if "\<not> n < 1" "\<not> maximum < n" for n using 2(5) [of key target maximum n c] 2(4) that by auto
  show ?case
  proof (cases "getenv key = ''''")
    case True
    then show ?thesis using 2(2) 2(3,4) rest by auto
  next
    case False
    then obtain n where n: "Atoi (getenv key) = Some n" "\<not> n < 1" "\<not> maximum < n" "intLoop getenv entries (target n c) = Inr c'"
      using 2(3) by (auto split: option.splits if_splits)
    show ?thesis by (rule 2(1) [OF _ n(1) _ n(4) now]) (use False n rest in auto)
  qed
qed simp

lemma durationLoop_invariant:
  assumes "durationLoop getenv entries c = Inr c'" "P c"
    and "\<And>key target d x. \<lbrakk>(key, target) \<in> set entries; 0 < d; d \<le> minute; P x\<rbrakk> \<Longrightarrow> P (target d x)"
  shows "P c'"
  using assms
proof (induction getenv entries c rule: durationLoop.induct)
  case (2 getenv key target entries c)
  have rest: "P (t d x)" if "(k, t) \<in> set entries" "0 < d" "d \<le> minute" "P x" for k t d x using 2(5) [of k t d x] that by auto
  have now: "P (target d c)" if "\<not> d \<le> 0" "\<not> minute < d" for d using 2(5) [of key target d c] 2(4) that by auto
  show ?case
  proof (cases "getenv key = ''''")
    case True
    then show ?thesis using 2(2) 2(3,4) rest by auto
  next
    case False
    then obtain d where d: "ParseDuration (getenv key) = Some d" "\<not> d \<le> 0" "\<not> minute < d" "durationLoop getenv entries (target d c) = Inr c'"
      using 2(3) by (auto split: option.splits if_splits)
    show ?thesis by (rule 2(1) [OF _ d(1) _ d(4) now]) (use False d rest in auto)
  qed
qed simp

text \<open>What the loops guarantee: every count is between 1 and 256, every duration is positive and at most a minute.\<close>

definition countsOf :: "ProcessConfig \<Rightarrow> int list" where
  "countsOf c = [pc_MatchBatchSize c, pc_MatchConcurrency c, pc_ResultDeadlineBatch c, pc_OutboxBatchSize c, pc_OutboxConcurrency c]"

definition durationsOf :: "ProcessConfig \<Rightarrow> duration list" where
  "durationsOf c =
     [pc_StartupTimeout c, pc_ReadinessTimeout c, pc_ShutdownTimeout c, pc_MatchLease c, pc_MatchPollInterval c,
      pc_MatchFailureBackoff c, pc_MatchStaleRetryDelay c, pc_ResultDeadlinePoll c, pc_RatingLease c, pc_RatingPollInterval c,
      pc_RatingFailureBackoff c, pc_OutboxLease c, pc_OutboxPollInterval c, pc_OutboxRequestTimeout c, pc_OutboxRetryBaseDelay c,
      pc_OutboxRetryMaxDelay c]"

definition inRanges :: "ProcessConfig \<Rightarrow> bool" where
  "inRanges c \<longleftrightarrow> list_all (\<lambda>n. 1 \<le> n \<and> n \<le> 256) (countsOf c) \<and> list_all (\<lambda>d. 0 < d \<and> d \<le> minute) (durationsOf c)"

lemma defaultConfig_inRanges [simp]: "inRanges (defaultConfig getenv)"
  by (simp add: inRanges_def countsOf_def durationsOf_def defaultConfig_def duration_units)

lemma ranges_untouched:
  "inRanges (c\<lparr>pc_HTTPAddr := a\<rparr>) = inRanges c" "inRanges (c\<lparr>pc_DBMaxConns := n\<rparr>) = inRanges c" "inRanges (c\<lparr>pc_LogLevel := l\<rparr>) = inRanges c"
  "checkRelations (c\<lparr>pc_LogLevel := l\<rparr>) = checkRelations c"
  by (simp_all add: inRanges_def countsOf_def durationsOf_def checkRelations_def)

lemma loadAddress_inRanges [simp]: "inRanges (loadAddress getenv c) = inRanges c"
  by (simp add: loadAddress_def ranges_untouched)

lemma loadConnections_inRanges: "loadConnections getenv c = Inr c' \<Longrightarrow> inRanges c' = inRanges c"
  by (auto simp: loadConnections_def ranges_untouched split: if_splits option.splits)

lemma intEntries_keep: "list_all (\<lambda>(key, target, maximum). \<forall>n c. 1 \<le> n \<and> n \<le> maximum \<and> inRanges c \<longrightarrow> inRanges (target n c)) intEntries"
  unfolding intEntries_def inRanges_def countsOf_def durationsOf_def by simp

lemma durationEntries_keep: "list_all (\<lambda>(key, target). \<forall>d c. 0 < d \<and> d \<le> minute \<and> inRanges c \<longrightarrow> inRanges (target d c)) durationEntries"
  unfolding durationEntries_def inRanges_def countsOf_def durationsOf_def by simp

lemma intLoop_inRanges: "\<lbrakk>intLoop getenv intEntries c = Inr c'; inRanges c\<rbrakk> \<Longrightarrow> inRanges c'"
  by (erule (1) intLoop_invariant) (use intEntries_keep in \<open>fastforce simp: list_all_iff\<close>)

lemma durationLoop_inRanges: "\<lbrakk>durationLoop getenv durationEntries c = Inr c'; inRanges c\<rbrakk> \<Longrightarrow> inRanges c'"
  by (erule (1) durationLoop_invariant) (use durationEntries_keep in \<open>fastforce simp: list_all_iff\<close>)

lemma loadLogLevel_keeps:
  "loadLogLevel getenv c = Inr c' \<Longrightarrow> inRanges c' = inRanges c \<and> checkRelations c' = checkRelations c"
  by (auto simp: loadLogLevel_def ranges_untouched split: if_splits option.splits)

lemma Load_checked:
  assumes "Load getenv = Inr c"
  shows "inRanges c \<and> checkRelations c = None \<and> checkSecrets c = None \<and> checkAddress c = None"
proof -
  obtain c1 c2 c3 where steps: "loadConnections getenv (loadAddress getenv (defaultConfig getenv)) = Inr c1"
      "intLoop getenv intEntries c1 = Inr c2" "durationLoop getenv durationEntries c2 = Inr c3" "checkRelations c3 = None"
      "loadLogLevel getenv c3 = Inr c" "checkSecrets c = None" "checkAddress c = None"
    using assms unfolding Load_def by auto
  have "inRanges c3"
    using steps loadConnections_inRanges intLoop_inRanges durationLoop_inRanges by (metis defaultConfig_inRanges loadAddress_inRanges)
  then show ?thesis using steps loadLogLevel_keeps by metis
qed

lemma Load_connections:
  assumes "Load getenv = Inr c"
  shows "1 \<le> pc_DBMaxConns c \<and> pc_DBMaxConns c \<le> 1000"
proof -
  let ?P = "\<lambda>c. 1 \<le> pc_DBMaxConns c \<and> pc_DBMaxConns c \<le> 1000"
  obtain c1 c2 c3 where steps: "loadConnections getenv (loadAddress getenv (defaultConfig getenv)) = Inr c1"
      "intLoop getenv intEntries c1 = Inr c2" "durationLoop getenv durationEntries c2 = Inr c3" "loadLogLevel getenv c3 = Inr c"
    using assms unfolding Load_def by auto
  have "?P c1" using steps(1) by (auto simp: loadConnections_def loadAddress_def defaultConfig_def split: if_splits option.splits)
  then have "?P c2" by (rule intLoop_invariant [OF steps(2)]) (auto simp: intEntries_def)
  then have "?P c3" by (rule durationLoop_invariant [OF steps(3)]) (auto simp: durationEntries_def)
  then show ?thesis using steps(4) by (auto simp: loadLogLevel_def split: if_splits option.splits)
qed

end
