(* ===== verification/Tournament_Model.thy ===== *)
theory Tournament_Model
  imports Rating_Types Rating_Baseline
begin

text \<open>
  \<^verbatim>\<open>internal/tournament\<close>: tournament configuration, tickets, rooms and sessions (\<^verbatim>\<open>model.go\<close>), the lifecycle commands with
  their validation and request digests (\<^verbatim>\<open>tickets.go\<close>), verified results (\<^verbatim>\<open>results.go\<close>) and the services, which validate
  before they call their repository. A repository operation is a function of the store; \<open>digest\<close> parameters stand for
  the JSON encoding followed by SHA-256 and hexadecimal encoding.
\<close>

section \<open>Model\<close>

datatype RoomStatus = RoomForming | RoomCollecting | RoomCompleted | RoomExpired | RoomCancelled

text \<open>A status read from the store is a string; \<open>TicketStatusOther\<close> stands for the values outside the enumeration.\<close>

datatype TicketStatus = TicketQueued | TicketAssigned | TicketCancelled | TicketExpired | TicketStatusOther string

datatype SessionStatus = SessionAllocated | SessionPlaying | SessionSubmitted | SessionForfeited

record Config =
  cfg_ID :: string
  cfg_Version :: string
  cfg_ModeID :: string
  cfg_Capacity :: int
  cfg_EntryFeeMinor :: int
  cfg_Currency :: string
  cfg_ScoringRulesVersion :: string
  cfg_SettlementVersion :: string
  cfg_PolicyVersion :: string
  cfg_RatingModelVersion :: string
  cfg_ResultTimeout :: duration

definition Config_Validate :: "Config \<Rightarrow> error" where
  "Config_Validate c =
     (if cfg_ID c = '''' \<or> cfg_Version c = '''' \<or> cfg_ModeID c = '''' \<or> cfg_Currency c = ''''
      then Some (ErrorsNew ''tournament identity, mode and currency are required'')
      else if cfg_Capacity c \<noteq> 5 \<and> cfg_Capacity c \<noteq> 6 \<and> cfg_Capacity c \<noteq> 7
      then Some (ErrorsNew ''room capacity must be five, six or seven'')
      else if cfg_EntryFeeMinor c < 0 \<or> cfg_ResultTimeout c \<le> 0
      then Some (ErrorsNew ''entry fee must be non-negative and result timeout positive'')
      else if cfg_ScoringRulesVersion c = '''' \<or> cfg_SettlementVersion c = '''' \<or> cfg_PolicyVersion c = '''' \<or> cfg_RatingModelVersion c = ''''
      then Some (ErrorsNew ''scoring, settlement, matching and rating versions are required'')
      else None)"

record Ticket =
  tk_ID :: string
  tk_EntryID :: string
  tk_PlayerID :: string
  tk_TournamentID :: string
  tk_TournamentVersion :: string
  tk_Status :: TicketStatus
  tk_RequestedAt :: time
  tk_AssignedAt :: "time option"
  tk_CancelledAt :: "time option"
  tk_ExpiredAt :: "time option"
  tk_SnapshotAt :: time
  tk_RatingSnapshot :: Estimate
  tk_AggregateVersion :: int

record Room =
  rm_ID :: string
  rm_TournamentID :: string
  rm_TournamentVersion :: string
  rm_PolicyVersion :: string
  rm_RatingModelVersion :: string
  rm_DeckID :: string
  rm_Capacity :: int
  rm_Status :: RoomStatus
  rm_CreatedAt :: time
  rm_FillDeadline :: time
  rm_FilledAt :: "time option"
  rm_ResultDeadline :: "time option"
  rm_CompletedAt :: "time option"

record Session =
  ss_ID :: string
  ss_TicketID :: string
  ss_RoomID :: string
  ss_PlayerID :: string
  ss_Seat :: int
  ss_Status :: SessionStatus
  ss_StartedAt :: "time option"
  ss_SubmittedAt :: "time option"

section \<open>Ticket commands\<close>

definition ErrIdempotencyConflict :: goerr where "ErrIdempotencyConflict = ErrorsNew ''idempotency identity was reused with different input''"
definition ErrTournamentNotFound :: goerr where "ErrTournamentNotFound = ErrorsNew ''tournament configuration not found''"
definition ErrTicketNotFound :: goerr where "ErrTicketNotFound = ErrorsNew ''ticket not found''"
definition ErrTicketNotQueued :: goerr where "ErrTicketNotQueued = ErrorsNew ''ticket is not queued''"
definition ErrRoomNotAvailable :: goerr where "ErrRoomNotAvailable = ErrorsNew ''room is not available for assignment''"
definition ErrAssignmentConflict :: goerr where "ErrAssignmentConflict = ErrorsNew ''assignment identity conflicts with stored assignment''"
definition ErrTicketClaimLost :: goerr where "ErrTicketClaimLost = ErrorsNew ''ticket claim is no longer owned''"

lemmas ticket_errors = ErrIdempotencyConflict_def ErrTournamentNotFound_def ErrTicketNotFound_def ErrTicketNotQueued_def
  ErrRoomNotAvailable_def ErrAssignmentConflict_def ErrTicketClaimLost_def

definition digestLength :: nat where "digestLength = 64"

record VerifiedParticipant =
  vp_SessionID :: string
  vp_PlayerID :: string
  vp_Place :: int
  vp_Features :: Features

text \<open>The anonymous structs that are digested, one constructor each; \<^verbatim>\<open>UTC\<close> does not change an instant.\<close>

datatype digestInput =
    AcceptInput string string string string time time Estimate
  | CancelInput string string
  | ExpireInput string string time
  | AssignInput string string string int string
  | ResultInput string string string string string time time "VerifiedParticipant list"

definition sha256Digest :: "(digestInput \<Rightarrow> string result) \<Rightarrow> digestInput \<Rightarrow> string result" where
  "sha256Digest digest value =
     rbind (wrapR ''encode idempotency input: %w'' [] (digest value)) (\<lambda>result.
     if length result \<noteq> digestLength then Inl (ErrorsNew ''invalid SHA-256 digest length'') else Inr result)"

record AcceptTicketCommand =
  atc_Ticket :: Ticket
  atc_EventID :: string

definition AcceptTicketCommand_Validate :: "AcceptTicketCommand \<Rightarrow> error" where
  "AcceptTicketCommand_Validate command =
     (let ticket = atc_Ticket command in
      if tk_ID ticket = '''' \<or> tk_EntryID ticket = '''' \<or> tk_PlayerID ticket = '''' \<or> tk_TournamentID ticket = '''' \<or>
         tk_TournamentVersion ticket = '''' \<or> atc_EventID command = ''''
      then Some (ErrorsNew ''ticket, entry, player, tournament and event identities are required'')
      else if tk_Status ticket \<noteq> TicketQueued \<or> tk_AssignedAt ticket \<noteq> None \<or> tk_CancelledAt ticket \<noteq> None \<or> tk_ExpiredAt ticket \<noteq> None
      then Some (ErrorsNew ''accepted ticket must be queued without lifecycle timestamps'')
      else if IsZero (tk_RequestedAt ticket) \<or> IsZero (tk_SnapshotAt ticket) \<or> After (tk_SnapshotAt ticket) (tk_RequestedAt ticket)
      then Some (ErrorsNew ''ticket requires an available pre-game snapshot and request time'')
      else andthenE (wrapE ''ticket rating snapshot: %w'' [] (Estimate_Validate (tk_RatingSnapshot ticket)))
        (if After (est_UpdatedAt (tk_RatingSnapshot ticket)) (tk_SnapshotAt ticket)
         then Some (ErrorsNew ''ticket rating was not available at snapshot time'')
         else if 2 ^ 63 - 1 < est_Games (tk_RatingSnapshot ticket)
         then Some (ErrorsNew ''ticket rating game count exceeds PostgreSQL bigint'')
         else if tk_AggregateVersion ticket \<noteq> 0 \<and> tk_AggregateVersion ticket \<noteq> 1
         then Some (ErrorsNew ''new ticket aggregate version must be zero or one'')
         else None))"

definition AcceptTicketCommand_RequestDigest :: "(digestInput \<Rightarrow> string result) \<Rightarrow> AcceptTicketCommand \<Rightarrow> string result" where
  "AcceptTicketCommand_RequestDigest digest command =
     guardE (AcceptTicketCommand_Validate command)
     (let ticket = atc_Ticket command in
      sha256Digest digest (AcceptInput (tk_EntryID ticket) (tk_PlayerID ticket) (tk_TournamentID ticket)
        (tk_TournamentVersion ticket) (tk_RequestedAt ticket) (tk_SnapshotAt ticket) (tk_RatingSnapshot ticket)))"

record CancelTicketCommand =
  ctc_TicketID :: string
  ctc_CommandID :: string
  ctc_EventID :: string
  ctc_CancelledAt :: time

definition CancelTicketCommand_Validate :: "CancelTicketCommand \<Rightarrow> error" where
  "CancelTicketCommand_Validate command =
     (if ctc_TicketID command = '''' \<or> ctc_CommandID command = '''' \<or> ctc_EventID command = ''''
      then Some (ErrorsNew ''ticket, command and event identities are required'')
      else if IsZero (ctc_CancelledAt command) then Some (ErrorsNew ''ticket cancellation time is required'')
      else None)"

definition CancelTicketCommand_RequestDigest :: "(digestInput \<Rightarrow> string result) \<Rightarrow> CancelTicketCommand \<Rightarrow> string result" where
  "CancelTicketCommand_RequestDigest digest command =
     guardE (CancelTicketCommand_Validate command)
       (sha256Digest digest (CancelInput (ctc_TicketID command) (ctc_CommandID command)))"

record AssignTicketCommand =
  gtc_AssignmentID :: string
  gtc_TicketID :: string
  gtc_RoomID :: string
  gtc_ExpectedRoomVersion :: int
  gtc_SessionID :: string
  gtc_TicketEventID :: string
  gtc_RoomFilledEventID :: string
  gtc_AssignedAt :: time
  gtc_ClaimToken :: string

record ExpireTicketCommand =
  etc_TicketID :: string
  etc_CommandID :: string
  etc_EventID :: string
  etc_ClaimToken :: string
  etc_Deadline :: time
  etc_ExpiredAt :: time

definition ExpireTicketCommand_Validate :: "ExpireTicketCommand \<Rightarrow> error" where
  "ExpireTicketCommand_Validate command =
     (if etc_TicketID command = '''' \<or> etc_CommandID command = '''' \<or> etc_EventID command = '''' \<or> etc_ClaimToken command = ''''
      then Some (ErrorsNew ''ticket, command, event and claim identities are required'')
      else if IsZero (etc_Deadline command) \<or> IsZero (etc_ExpiredAt command) \<or> Before (etc_ExpiredAt command) (etc_Deadline command)
      then Some (ErrorsNew ''ticket expiry requires an expired deadline'')
      else None)"

definition ExpireTicketCommand_RequestDigest :: "(digestInput \<Rightarrow> string result) \<Rightarrow> ExpireTicketCommand \<Rightarrow> string result" where
  "ExpireTicketCommand_RequestDigest digest command =
     guardE (ExpireTicketCommand_Validate command)
       (sha256Digest digest (ExpireInput (etc_TicketID command) (etc_CommandID command) (etc_Deadline command)))"

definition AssignTicketCommand_Validate :: "AssignTicketCommand \<Rightarrow> error" where
  "AssignTicketCommand_Validate command =
     (if gtc_AssignmentID command = '''' \<or> gtc_TicketID command = '''' \<or> gtc_RoomID command = '''' \<or>
         gtc_SessionID command = '''' \<or> gtc_TicketEventID command = '''' \<or> gtc_RoomFilledEventID command = ''''
      then Some (ErrorsNew ''assignment, ticket, room, session and event identities are required'')
      else if gtc_ExpectedRoomVersion command \<le> 0 then Some (ErrorsNew ''positive expected room version is required'')
      else if IsZero (gtc_AssignedAt command) then Some (ErrorsNew ''ticket assignment time is required'')
      else None)"

definition AssignTicketCommand_RequestDigest :: "(digestInput \<Rightarrow> string result) \<Rightarrow> AssignTicketCommand \<Rightarrow> string result" where
  "AssignTicketCommand_RequestDigest digest command =
     guardE (AssignTicketCommand_Validate command)
       (sha256Digest digest (AssignInput (gtc_AssignmentID command) (gtc_TicketID command) (gtc_RoomID command)
          (gtc_ExpectedRoomVersion command) (gtc_SessionID command)))"

record TicketMutation =
  tm_Ticket :: Ticket
  tm_Changed :: bool
  tm_Replay :: bool

record Assignment =
  as_AssignmentID :: string
  as_TicketID :: string
  as_RoomID :: string
  as_SessionID :: string
  as_PlayerID :: string
  as_Seat :: int
  as_AssignedAt :: time
  as_TicketVersion :: int
  as_RoomVersion :: int
  as_RoomFilled :: bool
  as_ResultDeadline :: "time option"
  as_Replay :: bool

record TicketState =
  ts_Ticket :: Ticket
  ts_Assignment :: "Assignment option"

text \<open>
  The ticket service: it is its repository; every call validates the command first. An operation on a store \<open>'s\<close>
  returns its result and the next store.
\<close>

type_synonym ('s, 'c, 'r) storeOp = "'s \<Rightarrow> 'c \<Rightarrow> 'r result \<times> 's"

definition guardOp :: "('c \<Rightarrow> error) \<Rightarrow> ('s, 'c, 'r) storeOp \<Rightarrow> ('s, 'c, 'r) storeOp" where
  "guardOp validate operation store command =
     (case validate command of Some e \<Rightarrow> (Inl e, store) | None \<Rightarrow> operation store command)"

record 's TicketLifecycleRepository =
  tr_AcceptTicket :: "('s, AcceptTicketCommand, TicketMutation) storeOp"
  tr_CancelTicket :: "('s, CancelTicketCommand, TicketMutation) storeOp"
  tr_GetTicket :: "('s, string, TicketState) storeOp"
  tr_AssignTicket :: "('s, AssignTicketCommand, Assignment) storeOp"
  tr_ExpireTicket :: "('s, ExpireTicketCommand, TicketMutation) storeOp"

definition NewTicketService :: "'s TicketLifecycleRepository option \<Rightarrow> 's TicketLifecycleRepository result" where
  "NewTicketService repository =
     (case repository of None \<Rightarrow> Inl (ErrorsNew ''ticket lifecycle repository is required'') | Some r \<Rightarrow> Inr r)"

definition TicketService_Accept :: "'s TicketLifecycleRepository \<Rightarrow> ('s, AcceptTicketCommand, TicketMutation) storeOp" where
  "TicketService_Accept service = guardOp AcceptTicketCommand_Validate (tr_AcceptTicket service)"

definition TicketService_Cancel :: "'s TicketLifecycleRepository \<Rightarrow> ('s, CancelTicketCommand, TicketMutation) storeOp" where
  "TicketService_Cancel service = guardOp CancelTicketCommand_Validate (tr_CancelTicket service)"

definition TicketService_Get :: "'s TicketLifecycleRepository \<Rightarrow> ('s, string, TicketState) storeOp" where
  "TicketService_Get service =
     guardOp (\<lambda>ticketID. failIf (ticketID = '''') (ErrorsNew ''ticket identity is required'')) (tr_GetTicket service)"

definition TicketService_Assign :: "'s TicketLifecycleRepository \<Rightarrow> ('s, AssignTicketCommand, Assignment) storeOp" where
  "TicketService_Assign service = guardOp AssignTicketCommand_Validate (tr_AssignTicket service)"

definition TicketService_Expire :: "'s TicketLifecycleRepository \<Rightarrow> ('s, ExpireTicketCommand, TicketMutation) storeOp" where
  "TicketService_Expire service = guardOp ExpireTicketCommand_Validate (tr_ExpireTicket service)"

section \<open>Verified results\<close>

definition ErrResultConflict :: goerr where "ErrResultConflict = ErrorsNew ''result identity conflicts with stored result''"
definition ErrResultRoomNotFound :: goerr where "ErrResultRoomNotFound = ErrorsNew ''result room not found''"
definition ErrResultRoomNotCollecting :: goerr where "ErrResultRoomNotCollecting = ErrorsNew ''room is not collecting results''"
definition ErrResultDeadlinePassed :: goerr where "ErrResultDeadlinePassed = ErrorsNew ''result deadline has passed''"
definition ErrResultParticipantsMismatch :: goerr where "ErrResultParticipantsMismatch = ErrorsNew ''result participants do not match room sessions''"

definition MaxResultDeadlineBatchSize :: int where "MaxResultDeadlineBatchSize = 256"

record FinalizeResultCommand =
  frc_EventID :: string
  frc_RoomID :: string
  frc_ModeID :: string
  frc_DeckID :: string
  frc_ScoringRulesVersion :: string
  frc_FinishedAt :: time
  frc_AvailableAt :: time
  frc_AcceptedAt :: time
  frc_Participants :: "VerifiedParticipant list"

definition FinalizeResultCommand_MatchResult :: "FinalizeResultCommand \<Rightarrow> MatchResult" where
  "FinalizeResultCommand_MatchResult command =
     \<lparr>mr_EventID = frc_EventID command, mr_RoomID = frc_RoomID command, mr_ModeID = frc_ModeID command,
      mr_DeckID = frc_DeckID command, mr_ScoringRulesVersion = frc_ScoringRulesVersion command,
      mr_FinishedAt = frc_FinishedAt command, mr_AvailableAt = frc_AvailableAt command,
      mr_Participants = map (\<lambda>p. \<lparr>pr_PlayerID = vp_PlayerID p, pr_Place = vp_Place p, pr_Features = vp_Features p\<rparr>)
        (frc_Participants command)\<rparr>"

text \<open>
  \<^verbatim>\<open>validateFeatures\<close> ranges over a Go map, so which of several negative fields is reported first is not determined;
  the model uses the order of the literal.
\<close>

fun negativeFeature :: "string \<times> int option \<Rightarrow> error" where
  "negativeFeature (name, None) = None"
| "negativeFeature (name, Some v) = (if v < 0 then Some (Errorf ''%s must be non-negative'' [ArgS name] None) else None)"

definition validateFeatures :: "Features \<Rightarrow> error" where
  "validateFeatures features = forE negativeFeature
     [(''elapsed_ms'', feat_ElapsedMillis features), (''moves'', feat_Moves features),
      (''undo_moves'', feat_UndoMoves features), (''revealed_cards'', feat_RevealedCards features)]"

fun validateSessions :: "string list \<Rightarrow> VerifiedParticipant list \<Rightarrow> error" where
  "validateSessions sessions [] = None"
| "validateSessions sessions (p # ps) =
     (if vp_SessionID p = '''' then Some (ErrorsNew ''result participant session id is required'')
      else if vp_SessionID p \<in> set sessions
      then Some (Errorf ''result contains duplicate session %q'' [ArgS (vp_SessionID p)] None)
      else andthenE (wrapE ''result features for player %q: %w'' [ArgS (vp_PlayerID p)] (validateFeatures (vp_Features p)))
             (validateSessions (vp_SessionID p # sessions) ps))"

definition FinalizeResultCommand_Validate :: "FinalizeResultCommand \<Rightarrow> error" where
  "FinalizeResultCommand_Validate command =
     (if IsZero (frc_AcceptedAt command) \<or> Before (frc_AcceptedAt command) (frc_AvailableAt command)
      then Some (ErrorsNew ''result acceptance must not precede availability'')
      else andthenE (MatchResult_Validate (FinalizeResultCommand_MatchResult command))
             (validateSessions [] (frc_Participants command)))"

definition compareVerified :: "VerifiedParticipant \<Rightarrow> VerifiedParticipant \<Rightarrow> int" where
  "compareVerified left right = strCompare (vp_PlayerID left) (vp_PlayerID right)"

definition FinalizeResultCommand_RequestDigest :: "(digestInput \<Rightarrow> string result) \<Rightarrow> FinalizeResultCommand \<Rightarrow> string result" where
  "FinalizeResultCommand_RequestDigest digest command =
     guardE (FinalizeResultCommand_Validate command)
       (sha256Digest digest (ResultInput (frc_EventID command) (frc_RoomID command) (frc_ModeID command) (frc_DeckID command)
          (frc_ScoringRulesVersion command) (frc_FinishedAt command) (frc_AvailableAt command)
          (sort_cmp compareVerified (frc_Participants command))))"

record FinalizedResult =
  fr_Result :: MatchResult
  fr_RoomVersion :: int
  fr_CompletedAt :: time
  fr_RatingPending :: bool
  fr_Replay :: bool

record ResultDeadlineBatch =
  rdb_Limit :: int
  rdb_ExpiredAt :: time

definition ResultDeadlineBatch_Validate :: "ResultDeadlineBatch \<Rightarrow> error" where
  "ResultDeadlineBatch_Validate batch =
     (if rdb_Limit batch \<le> 0 \<or> MaxResultDeadlineBatchSize < rdb_Limit batch
      then Some (ErrorsNew ''result deadline batch size is outside the supported range'')
      else if IsZero (rdb_ExpiredAt batch) then Some (ErrorsNew ''result deadline evaluation time is required'')
      else None)"

record ExpiredRoom =
  xr_RoomID :: string
  xr_RoomVersion :: int
  xr_ResultDeadline :: time
  xr_ExpiredAt :: time

record 's ResultRepository =
  rr_FinalizeResult :: "('s, FinalizeResultCommand, FinalizedResult) storeOp"
  rr_ExpireResultRooms :: "('s, ResultDeadlineBatch, ExpiredRoom list) storeOp"

definition NewResultService :: "'s ResultRepository option \<Rightarrow> 's ResultRepository result" where
  "NewResultService repository =
     (case repository of None \<Rightarrow> Inl (ErrorsNew ''result repository is required'') | Some r \<Rightarrow> Inr r)"

definition ResultService_Finalize :: "'s ResultRepository \<Rightarrow> ('s, FinalizeResultCommand, FinalizedResult) storeOp" where
  "ResultService_Finalize service = guardOp FinalizeResultCommand_Validate (rr_FinalizeResult service)"

definition ResultService_ExpireDue :: "'s ResultRepository \<Rightarrow> ('s, ResultDeadlineBatch, ExpiredRoom list) storeOp" where
  "ResultService_ExpireDue service = guardOp ResultDeadlineBatch_Validate (rr_ExpireResultRooms service)"

section \<open>What validation establishes\<close>

lemma AcceptTicketCommand_Validate_None:
  "AcceptTicketCommand_Validate c = None \<Longrightarrow>
     tk_ID (atc_Ticket c) \<noteq> '''' \<and> tk_EntryID (atc_Ticket c) \<noteq> '''' \<and> tk_PlayerID (atc_Ticket c) \<noteq> '''' \<and> atc_EventID c \<noteq> '''' \<and>
     tk_Status (atc_Ticket c) = TicketQueued \<and> tk_AssignedAt (atc_Ticket c) = None \<and> tk_CancelledAt (atc_Ticket c) = None \<and>
     tk_ExpiredAt (atc_Ticket c) = None \<and> tk_SnapshotAt (atc_Ticket c) \<le> tk_RequestedAt (atc_Ticket c) \<and>
     Estimate_Validate (tk_RatingSnapshot (atc_Ticket c)) = None \<and> est_UpdatedAt (tk_RatingSnapshot (atc_Ticket c)) \<le> tk_SnapshotAt (atc_Ticket c)"
  by (auto simp: AcceptTicketCommand_Validate_def Let_def split: if_splits)

lemma validateFeatures_None: "validateFeatures f = None \<longleftrightarrow> Features_Validate f = None"
proof -
  have "negativeFeature (n, v) = None \<longleftrightarrow> \<not> negativeField v" for n v by (cases v) auto
  then show ?thesis by (simp add: validateFeatures_def Features_Validate_None)
qed

lemma validateSessions_None:
  "validateSessions seen ps = None \<longleftrightarrow> (\<forall>p \<in> set ps. vp_SessionID p \<noteq> '''' \<and> validateFeatures (vp_Features p) = None) \<and>
     distinct (map vp_SessionID ps) \<and> set (map vp_SessionID ps) \<inter> set seen = {}"
  by (induction ps arbitrary: seen) auto

text \<open>
  C32. A finalize command is accepted exactly when its result is complete, it is accepted after the result became
  available, and every participant is bound to a session of its own; the second check of the feature fields
  never rejects what the first accepted.
\<close>

theorem FinalizeResultCommand_Validate_complete:
  "FinalizeResultCommand_Validate c = None \<longleftrightarrow>
     completeResult (FinalizeResultCommand_MatchResult c) \<and> frc_AcceptedAt c \<noteq> 0 \<and> frc_AvailableAt c \<le> frc_AcceptedAt c \<and>
     distinct (map vp_SessionID (frc_Participants c)) \<and> '''' \<notin> vp_SessionID ` set (frc_Participants c)"
proof -
  have "completeResult (FinalizeResultCommand_MatchResult c) \<Longrightarrow> p \<in> set (frc_Participants c) \<Longrightarrow> validateFeatures (vp_Features p) = None" for p
    by (auto simp: completeResult_def FinalizeResultCommand_MatchResult_def validateFeatures_None)
  then show ?thesis
    by (auto simp: FinalizeResultCommand_Validate_def MatchResult_Validate_complete validateSessions_None image_iff split: if_splits)
qed

text \<open>
  The request digest of a result does not depend on the order in which the participants are listed, nor on the
  acceptance time: two accepted commands that agree on everything else are the same request.
\<close>

interpretation byVerifiedID: go_key_compare compareVerified vp_PlayerID
  by unfold_locales (auto simp: compareVerified_def strCompare_def split: if_splits)

theorem FinalizeResult_digest_canonical:
  assumes "FinalizeResultCommand_Validate c = None" "FinalizeResultCommand_Validate c' = None"
    and "mset (frc_Participants c') = mset (frc_Participants c)"
    and "c' = c\<lparr>frc_AcceptedAt := frc_AcceptedAt c', frc_Participants := frc_Participants c'\<rparr>"
  shows "FinalizeResultCommand_RequestDigest digest c' = FinalizeResultCommand_RequestDigest digest c"
proof -
  have "completeResult (FinalizeResultCommand_MatchResult c')"
    using assms(2) by (auto simp: FinalizeResultCommand_Validate_def MatchResult_Validate_complete split: if_splits)
  then have "distinct (map vp_PlayerID (frc_Participants c'))"
    by (simp add: completeResult_def FinalizeResultCommand_MatchResult_def o_def)
  then have "sort_cmp compareVerified (frc_Participants c') = sort_cmp compareVerified (frc_Participants c)"
    by (rule byVerifiedID.sort_cmp_perm [OF assms(3)])
  moreover have "frc_EventID c' = frc_EventID c" "frc_RoomID c' = frc_RoomID c" "frc_ModeID c' = frc_ModeID c" "frc_DeckID c' = frc_DeckID c"
      "frc_ScoringRulesVersion c' = frc_ScoringRulesVersion c" "frc_FinishedAt c' = frc_FinishedAt c" "frc_AvailableAt c' = frc_AvailableAt c"
    using arg_cong [OF assms(4), of frc_EventID] arg_cong [OF assms(4), of frc_RoomID] arg_cong [OF assms(4), of frc_ModeID]
      arg_cong [OF assms(4), of frc_DeckID] arg_cong [OF assms(4), of frc_ScoringRulesVersion]
      arg_cong [OF assms(4), of frc_FinishedAt] arg_cong [OF assms(4), of frc_AvailableAt] by simp_all
  ultimately show ?thesis using assms(1,2) by (simp add: FinalizeResultCommand_RequestDigest_def)
qed

definition sampleFinalize :: FinalizeResultCommand where
  "sampleFinalize = \<lparr>frc_EventID = ''ev'', frc_RoomID = ''room'', frc_ModeID = ''mode'', frc_DeckID = ''deck'',
     frc_ScoringRulesVersion = ''s1'', frc_FinishedAt = 10, frc_AvailableAt = 20, frc_AcceptedAt = 25,
     frc_Participants = map (\<lambda>(s, k, n). \<lparr>vp_SessionID = s, vp_PlayerID = k, vp_Place = n, vp_Features = noFeatures\<rparr>)
       [(''s1'', ''eve'', 3), (''s2'', ''ann'', 1), (''s3'', ''bob'', 2), (''s4'', ''dan'', 5), (''s5'', ''cyd'', 4)]\<rparr>"

lemma sampleFinalize_valid: "FinalizeResultCommand_Validate sampleFinalize = None"
  by (simp add: FinalizeResultCommand_Validate_def MatchResult_Validate_complete completeResult_def validateSessions_None
      validateFeatures_None sampleFinalize_def FinalizeResultCommand_MatchResult_def Features_Validate_def noFeatures_def)

theorem FinalizeResult_digest_canonical_witness:
  "\<forall>digest. FinalizeResultCommand_RequestDigest digest (sampleFinalize\<lparr>frc_AcceptedAt := 30, frc_Participants := rev (frc_Participants sampleFinalize)\<rparr>) =
   FinalizeResultCommand_RequestDigest digest sampleFinalize"
proof (intro allI, rule FinalizeResult_digest_canonical [OF sampleFinalize_valid])
  show "FinalizeResultCommand_Validate (sampleFinalize\<lparr>frc_AcceptedAt := 30, frc_Participants := rev (frc_Participants sampleFinalize)\<rparr>) = None"
    by (simp add: FinalizeResultCommand_Validate_def MatchResult_Validate_complete completeResult_def validateSessions_None
      validateFeatures_None sampleFinalize_def FinalizeResultCommand_MatchResult_def Features_Validate_def noFeatures_def)
qed simp_all

end
