(* ===== verification/Outbox_Worker.thy ===== *)
theory Outbox_Worker
  imports Tournament_Model
begin

text \<open>
  \<^verbatim>\<open>internal/worker/outbox.go\<close>: outbox events and claims with their validation, the options of the runner, the
  exponential retry delay, the lease-bounded timeout and one delivery cycle over a queue and a publisher. The cycle is
  generic in the store of the queue; \<open>Outbox_Queue\<close> provides the PostgreSQL one.
\<close>

section \<open>JSON syntax\<close>

text \<open>
  \<^verbatim>\<open>json.Valid\<close>: the byte-driven scanner of \<^verbatim>\<open>encoding/json\<close>, a state and a stack of open objects and arrays;
  \<open>None\<close> is its error state. Nesting deeper than 10000 is an error.
\<close>

datatype jsonFrame = ParseObjectKey | ParseObjectValue | ParseArrayValue

datatype jsonState =
    BeginValue | BeginValueOrEmpty | BeginString | BeginStringOrEmpty | EndValue | EndTop
  | InString | InStringEsc | InStringEscU nat | Neg | State1 | State0 | Dot | Dot0 | StateE | ESign | E0 | Literal string

type_synonym jsonScan = "(jsonState \<times> jsonFrame list) option"

definition isSpace :: "char \<Rightarrow> bool" where
  "isSpace c \<longleftrightarrow> c = CHR '' '' \<or> c = CHR 0x09 \<or> c = CHR 0x0D \<or> c = CHR 0x0A"

definition isDigit :: "char \<Rightarrow> bool" where
  "isDigit c \<longleftrightarrow> c \<in> set ''0123456789''"

definition maxNestingDepth :: nat where "maxNestingDepth = 10000"

definition pushFrame :: "jsonState \<Rightarrow> jsonFrame \<Rightarrow> jsonFrame list \<Rightarrow> jsonScan" where
  "pushFrame st f fs = (if length fs < maxNestingDepth then Some (st, f # fs) else None)"

definition popFrame :: "jsonFrame list \<Rightarrow> jsonScan" where
  "popFrame fs = Some (if fs = [] then EndTop else EndValue, fs)"

definition beginValue :: "jsonFrame list \<Rightarrow> char \<Rightarrow> jsonScan" where
  "beginValue fs c =
     (if isSpace c then Some (BeginValue, fs)
      else if c = CHR ''{'' then pushFrame BeginStringOrEmpty ParseObjectKey fs
      else if c = CHR ''['' then pushFrame BeginValueOrEmpty ParseArrayValue fs
      else if c = CHR 0x22 then Some (InString, fs)
      else if c = CHR ''-'' then Some (Neg, fs)
      else if c = CHR ''0'' then Some (State0, fs)
      else if c = CHR ''t'' then Some (Literal ''rue'', fs)
      else if c = CHR ''f'' then Some (Literal ''alse'', fs)
      else if c = CHR ''n'' then Some (Literal ''ull'', fs)
      else if isDigit c then Some (State1, fs) else None)"

definition beginString :: "jsonFrame list \<Rightarrow> char \<Rightarrow> jsonScan" where
  "beginString fs c =
     (if isSpace c then Some (BeginString, fs) else if c = CHR 0x22 then Some (InString, fs) else None)"

fun endValue :: "jsonFrame list \<Rightarrow> char \<Rightarrow> jsonScan" where
  "endValue [] c = (if isSpace c then Some (EndTop, []) else None)"
| "endValue (f # fs) c =
     (if isSpace c then Some (EndValue, f # fs)
      else case f of
        ParseObjectKey \<Rightarrow> if c = CHR '':'' then Some (BeginValue, ParseObjectValue # fs) else None
      | ParseObjectValue \<Rightarrow> if c = CHR '','' then Some (BeginString, ParseObjectKey # fs)
                            else if c = CHR ''}'' then popFrame fs else None
      | ParseArrayValue \<Rightarrow> if c = CHR '','' then Some (BeginValue, f # fs)
                           else if c = CHR '']'' then popFrame fs else None)"

definition afterDigits :: "jsonFrame list \<Rightarrow> char \<Rightarrow> jsonScan" where
  "afterDigits fs c = (if c = CHR ''.'' then Some (Dot, fs)
     else if c = CHR ''e'' \<or> c = CHR ''E'' then Some (StateE, fs) else endValue fs c)"

fun jsonStep :: "jsonState \<Rightarrow> jsonFrame list \<Rightarrow> char \<Rightarrow> jsonScan" where
  "jsonStep BeginValue fs c = beginValue fs c"
| "jsonStep BeginValueOrEmpty fs c =
     (if isSpace c then Some (BeginValueOrEmpty, fs) else if c = CHR '']'' then endValue fs c else beginValue fs c)"
| "jsonStep BeginString fs c = beginString fs c"
| "jsonStep BeginStringOrEmpty fs c =
     (if isSpace c then Some (BeginStringOrEmpty, fs)
      else if c = CHR ''}'' then endValue (ParseObjectValue # tl fs) c else beginString fs c)"
| "jsonStep EndValue fs c = endValue fs c"
| "jsonStep EndTop fs c = (if isSpace c then Some (EndTop, fs) else None)"
| "jsonStep InString fs c =
     (if c = CHR 0x22 then Some (EndValue, fs) else if c = CHR 0x5C then Some (InStringEsc, fs)
      else if (of_char c :: nat) < 32 then None else Some (InString, fs))"
| "jsonStep InStringEsc fs c =
     (if c \<in> set ''bfnrt/'' \<or> c = CHR 0x5C \<or> c = CHR 0x22 then Some (InString, fs)
      else if c = CHR ''u'' then Some (InStringEscU 4, fs) else None)"
| "jsonStep (InStringEscU n) fs c =
     (if isDigit c \<or> c \<in> set ''abcdefABCDEF'' then Some (if n \<le> 1 then InString else InStringEscU (n - 1), fs) else None)"
| "jsonStep Neg fs c = (if c = CHR ''0'' then Some (State0, fs) else if isDigit c then Some (State1, fs) else None)"
| "jsonStep State1 fs c = (if isDigit c then Some (State1, fs) else afterDigits fs c)"
| "jsonStep State0 fs c = afterDigits fs c"
| "jsonStep Dot fs c = (if isDigit c then Some (Dot0, fs) else None)"
| "jsonStep Dot0 fs c = (if isDigit c then Some (Dot0, fs)
     else if c = CHR ''e'' \<or> c = CHR ''E'' then Some (StateE, fs) else endValue fs c)"
| "jsonStep StateE fs c = (if c = CHR ''+'' \<or> c = CHR ''-'' then Some (ESign, fs) else if isDigit c then Some (E0, fs) else None)"
| "jsonStep ESign fs c = (if isDigit c then Some (E0, fs) else None)"
| "jsonStep E0 fs c = (if isDigit c then Some (E0, fs) else endValue fs c)"
| "jsonStep (Literal []) fs c = None"
| "jsonStep (Literal (l # ls)) fs c = (if c = l then Some (if ls = [] then EndValue else Literal ls, fs) else None)"

fun jsonScanAll :: "jsonScan \<Rightarrow> string \<Rightarrow> jsonScan" where
  "jsonScanAll None cs = None"
| "jsonScanAll s [] = s"
| "jsonScanAll (Some (st, fs)) (c # cs) = jsonScanAll (jsonStep st fs c) cs"

text \<open>At the end of the input the scanner is given one space to finish a number or a literal.\<close>

definition json_Valid :: "string \<Rightarrow> bool" where
  "json_Valid data \<longleftrightarrow> (case jsonScanAll (Some (BeginValue, [])) (data @ '' '') of Some (EndTop, fs) \<Rightarrow> True | _ \<Rightarrow> False)"

section \<open>Events and claims\<close>

definition MaxOutboxBatchSize :: int where "MaxOutboxBatchSize = 256"
definition maxDeliveryError :: nat where "maxDeliveryError = 1024"

definition ErrOutboxClaimLost :: goerr where "ErrOutboxClaimLost = ErrorsNew ''outbox claim is no longer active''"

record OutboxEvent =
  oe_EventID :: string
  oe_AggregateType :: string
  oe_AggregateID :: string
  oe_AggregateVersion :: int
  oe_EventType :: string
  oe_Payload :: string
  oe_OccurredAt :: time

definition OutboxEvent_Validate :: "OutboxEvent \<Rightarrow> error" where
  "OutboxEvent_Validate event =
     (if oe_EventID event = '''' \<or> oe_AggregateType event = '''' \<or> oe_AggregateID event = '''' \<or> oe_EventType event = ''''
      then Some (ErrorsNew ''outbox event identities are required'')
      else if oe_AggregateVersion event \<le> 0 \<or> IsZero (oe_OccurredAt event)
      then Some (ErrorsNew ''outbox event version and occurrence time are required'')
      else if \<not> json_Valid (oe_Payload event) \<or> length (oe_Payload event) = 0 \<or> oe_Payload event ! 0 \<noteq> CHR ''{''
      then Some (ErrorsNew ''outbox event payload must be a JSON object'')
      else None)"

record OutboxClaimRequest =
  ocr_Token :: string
  ocr_Limit :: int
  ocr_ClaimedAt :: time
  ocr_LeaseUntil :: time

definition OutboxClaimRequest_Validate :: "OutboxClaimRequest \<Rightarrow> error" where
  "OutboxClaimRequest_Validate request =
     (if ocr_Token request = '''' \<or> ocr_Limit request \<le> 0 \<or> MaxOutboxBatchSize < ocr_Limit request
      then Some (ErrorsNew ''outbox claim token and bounded batch size are required'')
      else if IsZero (ocr_ClaimedAt request) \<or> \<not> After (ocr_LeaseUntil request) (ocr_ClaimedAt request)
      then Some (ErrorsNew ''outbox claim requires a positive lease'')
      else None)"

record OutboxClaim =
  oc_Event :: OutboxEvent
  oc_Token :: string
  oc_Attempt :: int
  oc_LeaseUntil :: time

definition OutboxClaim_Validate :: "OutboxClaim \<Rightarrow> error" where
  "OutboxClaim_Validate claim =
     andthenE (OutboxEvent_Validate (oc_Event claim))
       (if oc_Token claim = '''' \<or> oc_Attempt claim \<le> 0 \<or> IsZero (oc_LeaseUntil claim)
        then Some (ErrorsNew ''outbox claim is incomplete'') else None)"

text \<open>The queue interface: an operation on the store \<open>'s\<close> returns its error and the next store.\<close>

record 's OutboxQueue =
  oq_ClaimOutboxEvents :: "'s \<Rightarrow> OutboxClaimRequest \<Rightarrow> OutboxClaim list result \<times> 's"
  oq_MarkOutboxDelivered :: "'s \<Rightarrow> string \<Rightarrow> string \<Rightarrow> time \<Rightarrow> error \<times> 's"
  oq_MarkOutboxDeadLettered :: "'s \<Rightarrow> string \<Rightarrow> string \<Rightarrow> time \<Rightarrow> string \<Rightarrow> error \<times> 's"
  oq_ScheduleOutboxRetry :: "'s \<Rightarrow> string \<Rightarrow> string \<Rightarrow> time \<Rightarrow> string \<Rightarrow> error \<times> 's"

record OutboxRunnerOptions =
  oro_BatchSize :: int
  oro_Concurrency :: int
  oro_LeaseDuration :: duration
  oro_PollInterval :: duration
  oro_RetryBaseDelay :: duration
  oro_RetryMaxDelay :: duration

definition OutboxRunnerOptions_Validate :: "OutboxRunnerOptions \<Rightarrow> error" where
  "OutboxRunnerOptions_Validate options =
     (if oro_BatchSize options \<le> 0 \<or> MaxOutboxBatchSize < oro_BatchSize options
      then Some (ErrorsNew ''outbox batch size is outside the supported range'')
      else if oro_Concurrency options \<le> 0 \<or> oro_BatchSize options < oro_Concurrency options
      then Some (ErrorsNew ''outbox concurrency must fit inside the batch'')
      else if oro_LeaseDuration options \<le> 0 \<or> 5 * minute < oro_LeaseDuration options
      then Some (ErrorsNew ''outbox lease must be positive and at most five minutes'')
      else if oro_PollInterval options \<le> 0 \<or> minute < oro_PollInterval options
      then Some (ErrorsNew ''outbox poll interval must be positive and at most one minute'')
      else if oro_RetryBaseDelay options \<le> 0 \<or> oro_RetryMaxDelay options < oro_RetryBaseDelay options \<or> hour < oro_RetryMaxDelay options
      then Some (ErrorsNew ''outbox retry delays are invalid'')
      else None)"

section \<open>Delivery failures\<close>

text \<open>
  \<^verbatim>\<open>eventdelivery.PermanentDeliveryError\<close> is the one error of the program with a \<^verbatim>\<open>Permanent\<close> method; it is told from
  other errors by its format. \<^verbatim>\<open>errors.As\<close> looks for it in the chain of wrapped errors.
\<close>

definition PermanentDeliveryError :: "int \<Rightarrow> goerr" where
  "PermanentDeliveryError statusCode = Errorf ''delivery endpoint returned permanent HTTP %d'' [ArgI statusCode] None"

fun isPermanentDeliveryFailure :: "goerr \<Rightarrow> bool" where
  "isPermanentDeliveryFailure (ErrorsNew m) = False"
| "isPermanentDeliveryFailure (Errorf f a None) = (f = ''delivery endpoint returned permanent HTTP %d'')"
| "isPermanentDeliveryFailure (Errorf f a (Some e)) = isPermanentDeliveryFailure e"
| "isPermanentDeliveryFailure (ErrorsJoin a b) = (isPermanentDeliveryFailure a \<or> isPermanentDeliveryFailure b)"

section \<open>Delays and timeouts\<close>

text \<open>
  The loop of \<^verbatim>\<open>retryDelay\<close>: \<open>current\<close> counts up to \<open>attempt\<close> while \<open>delay\<close> is below the maximum. The doubling is the
  signed 64-bit one, \<open>wrap64\<close>.
\<close>

definition wrap64 :: "int \<Rightarrow> int" where "wrap64 x = (x + 2 ^ 63) mod 2 ^ 64 - 2 ^ 63"

lemma wrap64_id: "- (2 ^ 63) \<le> x \<Longrightarrow> x < 2 ^ 63 \<Longrightarrow> wrap64 x = x"
  by (simp add: wrap64_def)

function retryLoop :: "duration \<Rightarrow> int \<Rightarrow> int \<Rightarrow> duration \<Rightarrow> duration" where
  "retryLoop maximum attempt current delay =
     (if current < attempt \<and> delay < maximum
      then if maximum sdiv 2 < delay then maximum else retryLoop maximum attempt (current + 1) (wrap64 (delay * 2))
      else min delay maximum)"
  by pat_completeness auto
termination by (relation "measure (\<lambda>(maximum, attempt, current, delay). nat (attempt - current))") auto

declare retryLoop.simps [simp del]

definition retryDelay :: "OutboxRunnerOptions \<Rightarrow> int \<Rightarrow> duration" where
  "retryDelay options attempt = retryLoop (oro_RetryMaxDelay options) attempt 1 (oro_RetryBaseDelay options)"

definition leaseBoundedTimeout :: "duration \<Rightarrow> duration" where
  "leaseBoundedTimeout lease =
     (if lease \<le> 0 then nanosecond
      else let margin = lease sdiv 10; margin = (if second < margin then second else margin) in
        if margin \<le> 0 \<or> lease \<le> margin then lease else lease - margin)"

text \<open>The runes of an error message, cut at the storage limit.\<close>

definition boundedDeliveryError :: "(goerr \<Rightarrow> string) \<Rightarrow> goerr \<Rightarrow> string" where
  "boundedDeliveryError errorRunes err =
     (let message = errorRunes err in if maxDeliveryError < length message then take maxDeliveryError message else message)"

section \<open>One delivery cycle\<close>

record OutboxRunResult =
  orr_Claimed :: int
  orr_Delivered :: int
  orr_DeadLettered :: int
  orr_Failed :: int

definition noResult :: OutboxRunResult where
  "noResult = \<lparr>orr_Claimed = 0, orr_Delivered = 0, orr_DeadLettered = 0, orr_Failed = 0\<rparr>"

text \<open>What a goroutine sends on its channel, and what it observes: the publisher's answer and the clock after it.\<close>

datatype claimOutcome = ClaimDelivered | ClaimDeadLettered | ClaimFailed goerr

record deliveryEnv =
  de_publish :: error
  de_now :: time

definition deliverClaim ::
    "'s OutboxQueue \<Rightarrow> OutboxRunnerOptions \<Rightarrow> (goerr \<Rightarrow> string) \<Rightarrow> deliveryEnv \<Rightarrow> OutboxClaim \<Rightarrow> 's \<Rightarrow> claimOutcome \<times> 's" where
  "deliverClaim queue options errorRunes env claim store =
     (let eventID = oe_EventID (oc_Event claim) in
      case de_publish env of
        Some publishErr \<Rightarrow>
          if isPermanentDeliveryFailure publishErr
          then case oq_MarkOutboxDeadLettered queue store eventID (oc_Token claim) (de_now env) (boundedDeliveryError errorRunes publishErr) of
              (Some err, store) \<Rightarrow> (ClaimFailed (Errorf ''dead-letter event %q: %w'' [ArgS eventID] (Some err)), store)
            | (None, store) \<Rightarrow> (ClaimDeadLettered, store)
          else let retryAt = time_Add (de_now env) (retryDelay options (oc_Attempt claim)) in
            (case oq_ScheduleOutboxRetry queue store eventID (oc_Token claim) retryAt (boundedDeliveryError errorRunes publishErr) of
              (retryErr, store) \<Rightarrow>
                (let publishErr = (case retryErr of None \<Rightarrow> publishErr
                   | Some e \<Rightarrow> if errors_Is e ErrOutboxClaimLost then publishErr
                               else ErrorsJoin publishErr (Errorf ''schedule outbox retry: %w'' [] (Some e)))
                 in (ClaimFailed (Errorf ''event %q: %w'' [ArgS eventID] (Some publishErr)), store)))
      | None \<Rightarrow>
          (case oq_MarkOutboxDelivered queue store eventID (oc_Token claim) (de_now env) of
             (Some err, store) \<Rightarrow> (ClaimFailed (Errorf ''acknowledge event %q: %w'' [ArgS eventID] (Some err)), store)
           | (None, store) \<Rightarrow> (ClaimDelivered, store)))"

fun deliverAll ::
    "'s OutboxQueue \<Rightarrow> OutboxRunnerOptions \<Rightarrow> (goerr \<Rightarrow> string) \<Rightarrow> (OutboxClaim \<Rightarrow> deliveryEnv) \<Rightarrow> OutboxClaim list \<Rightarrow> 's \<Rightarrow> claimOutcome list \<times> 's" where
  "deliverAll queue options errorRunes env [] store = ([], store)"
| "deliverAll queue options errorRunes env (claim # claims) store =
     (case deliverClaim queue options errorRunes (env claim) claim store of (outcome, store) \<Rightarrow>
      case deliverAll queue options errorRunes env claims store of (outcomes, store) \<Rightarrow> (outcome # outcomes, store))"

text \<open>Draining the channels: the counters, and the errors joined in the order they arrived (a join of one error is that error).\<close>

fun countOutcome :: "claimOutcome \<Rightarrow> OutboxRunResult \<times> error \<Rightarrow> OutboxRunResult \<times> error" where
  "countOutcome ClaimDelivered (result, combined) = (result\<lparr>orr_Delivered := orr_Delivered result + 1\<rparr>, combined)"
| "countOutcome ClaimDeadLettered (result, combined) = (result\<lparr>orr_DeadLettered := orr_DeadLettered result + 1\<rparr>, combined)"
| "countOutcome (ClaimFailed claimErr) (result, combined) =
     (result\<lparr>orr_Failed := orr_Failed result + 1\<rparr>,
      Some (case combined of None \<Rightarrow> claimErr | Some e \<Rightarrow> ErrorsJoin e claimErr))"

text \<open>
  One cycle. \<open>order\<close> is the order in which the started goroutines finish their queue operation: they run concurrently,
  each queue operation is one atomic statement. \<open>cancelled\<close> is the number of claims started before the context was
  cancelled, with the cause, which is sent on the error channel once.
\<close>

record cycleEnv =
  ce_token :: string
  ce_claimedAt :: time
  ce_cancelled :: "(nat \<times> goerr) option"
  ce_order :: "OutboxClaim list \<Rightarrow> OutboxClaim list"
  ce_delivery :: "OutboxClaim \<Rightarrow> deliveryEnv"

definition Outbox_RunOnce ::
    "'s OutboxQueue \<Rightarrow> OutboxRunnerOptions \<Rightarrow> (goerr \<Rightarrow> string) \<Rightarrow> cycleEnv \<Rightarrow> 's \<Rightarrow> (OutboxRunResult \<times> error) \<times> 's" where
  "Outbox_RunOnce queue options errorRunes env store =
     (case oq_ClaimOutboxEvents queue store
        \<lparr>ocr_Token = ce_token env, ocr_Limit = oro_BatchSize options, ocr_ClaimedAt = ce_claimedAt env,
         ocr_LeaseUntil = time_Add (ce_claimedAt env) (oro_LeaseDuration options)\<rparr> of
        (Inl err, store) \<Rightarrow> ((noResult, Some (Errorf ''claim outbox events: %w'' [] (Some err))), store)
      | (Inr claims, store) \<Rightarrow>
          let result = noResult\<lparr>orr_Claimed := int (length claims)\<rparr> in
          if claims = [] then ((result, None), store)
          else let (started, cause) = (case ce_cancelled env of
                     None \<Rightarrow> (claims, []) | Some (n, e) \<Rightarrow> if n < length claims then (take n claims, [ClaimFailed e]) else (claims, [])) in
               (case deliverAll queue options errorRunes (ce_delivery env) (ce_order env started) store of
                  (outcomes, store) \<Rightarrow> (fold countOutcome (cause @ outcomes) (result, None), store)))"

text \<open>What the deferred observer is told: \<^verbatim>\<open>Succeeded\<close> is the number of delivered events.\<close>

record WorkerCycleObservation =
  wco_Worker :: string
  wco_Claimed :: int
  wco_Succeeded :: int
  wco_DeadLettered :: int
  wco_Failed :: int
  wco_Errored :: bool

definition WorkerOutbox :: string where "WorkerOutbox = ''outbox''"

definition outboxObservation :: "OutboxRunResult \<times> error \<Rightarrow> WorkerCycleObservation" where
  "outboxObservation = (\<lambda>(result, runErr).
     \<lparr>wco_Worker = WorkerOutbox, wco_Claimed = orr_Claimed result, wco_Succeeded = orr_Delivered result,
      wco_DeadLettered = orr_DeadLettered result, wco_Failed = orr_Failed result, wco_Errored = (runErr \<noteq> None)\<rparr>)"

section \<open>The HTTP publisher\<close>

text \<open>
  \<^verbatim>\<open>internal/eventdelivery/http.go\<close>. A parsed URL is the record of the fields the code reads; \<open>parseURI\<close> stands for
  \<^verbatim>\<open>url.ParseRequestURI\<close> (\<open>None\<close> for an error), \<open>loopbackIP\<close> for parsing the host as an IP address and asking whether it is a
  loopback, \<open>equalFold\<close> for \<^verbatim>\<open>strings.EqualFold\<close>; \<open>marshal\<close>, \<open>newRequest\<close>
  and \<open>send\<close> are \<^verbatim>\<open>json.Marshal\<close>, \<^verbatim>\<open>http.NewRequestWithContext\<close> with the headers set on the request, and the exchange with the
  endpoint: an error or the status code.
\<close>

record parsedURL =
  url_IsAbs :: bool
  url_Hostname :: string
  url_User :: bool
  url_Fragment :: string
  url_Scheme :: string

definition loopbackHost :: "(string \<Rightarrow> string \<Rightarrow> bool) \<Rightarrow> (string \<Rightarrow> bool) \<Rightarrow> string \<Rightarrow> bool" where
  "loopbackHost equalFold loopbackIP host = (if equalFold host ''localhost'' then True else loopbackIP host)"

definition validateEndpoint ::
    "(string \<Rightarrow> parsedURL option) \<Rightarrow> (string \<Rightarrow> string \<Rightarrow> bool) \<Rightarrow> (string \<Rightarrow> bool) \<Rightarrow> string \<Rightarrow> error" where
  "validateEndpoint parseURI equalFold loopbackIP endpoint =
     (case parseURI endpoint of
        None \<Rightarrow> Some (ErrorsNew ''OUTBOX_DELIVERY_URL must be an absolute HTTP endpoint'')
      | Some parsed \<Rightarrow>
          if \<not> url_IsAbs parsed \<or> url_Hostname parsed = ''''
          then Some (ErrorsNew ''OUTBOX_DELIVERY_URL must be an absolute HTTP endpoint'')
          else if url_User parsed \<or> url_Fragment parsed \<noteq> ''''
          then Some (ErrorsNew ''OUTBOX_DELIVERY_URL cannot contain user information or a fragment'')
          else if url_Scheme parsed = ''https'' then None
          else if url_Scheme parsed \<noteq> ''http'' \<or> \<not> loopbackHost equalFold loopbackIP (url_Hostname parsed)
          then Some (ErrorsNew ''OUTBOX_DELIVERY_URL must use HTTPS except for loopback development'')
          else None)"

definition responseError :: "int \<Rightarrow> error" where
  "responseError statusCode =
     (if 200 \<le> statusCode \<and> statusCode < 300 then None
      else if statusCode = 408 \<or> statusCode = 429 \<or> 500 \<le> statusCode
      then Some (Errorf ''delivery endpoint returned retryable HTTP %d'' [ArgI statusCode] None)
      else Some (PermanentDeliveryError statusCode))"

definition Publish ::
    "(OutboxEvent \<Rightarrow> string result) \<Rightarrow> (string \<Rightarrow> 'req result) \<Rightarrow> ('req \<Rightarrow> int result) \<Rightarrow> OutboxEvent \<Rightarrow> error" where
  "Publish marshal newRequest send event =
     andthenE (OutboxEvent_Validate event)
       (case rbind (wrapR ''encode outbox event: %w'' [] (marshal event)) (\<lambda>body.
             rbind (wrapR ''create outbox delivery request: %w'' [] (newRequest body)) (\<lambda>request.
             wrapR ''deliver outbox event: %w'' [] (send request))) of
          Inl e \<Rightarrow> Some e
        | Inr statusCode \<Rightarrow> responseError statusCode)"

record HTTPPublisher =
  hp_endpoint :: string
  hp_token :: string
  hp_timeout :: duration

definition NewHTTPPublisher ::
    "(string \<Rightarrow> parsedURL option) \<Rightarrow> (string \<Rightarrow> string \<Rightarrow> bool) \<Rightarrow> (string \<Rightarrow> bool) \<Rightarrow> string \<Rightarrow> string \<Rightarrow> duration \<Rightarrow> HTTPPublisher result" where
  "NewHTTPPublisher parseURI equalFold loopbackIP endpoint token timeout =
     guardE (validateEndpoint parseURI equalFold loopbackIP endpoint)
       (if length token < 32 \<or> set token \<inter> {CHR '' '', CHR 0x0D, CHR 0x0A, CHR 0x09} \<noteq> {}
        then Inl (ErrorsNew ''outbox delivery token must contain at least 32 characters without whitespace'')
        else if timeout \<le> 0 \<or> minute < timeout
        then Inl (ErrorsNew ''outbox delivery timeout must be positive and at most one minute'')
        else Inr \<lparr>hp_endpoint = endpoint, hp_token = token, hp_timeout = timeout\<rparr>)"

text \<open>The runner is its queue and options; the publisher is consulted through \<open>de_publish\<close>, the logger has no effect.\<close>

definition NewOutboxRunner ::
    "'s OutboxQueue option \<Rightarrow> 'publisher option \<Rightarrow> 'logger option \<Rightarrow> OutboxRunnerOptions \<Rightarrow> ('s OutboxQueue \<times> 'publisher \<times> OutboxRunnerOptions) result" where
  "NewOutboxRunner queue publisher logger options =
     (case (queue, publisher, logger) of
        (Some q, Some p, Some l) \<Rightarrow> guardE (OutboxRunnerOptions_Validate options) (Inr (q, p, options))
      | _ \<Rightarrow> Inl (ErrorsNew ''outbox queue, publisher and logger are required''))"

section \<open>What the delays, timeouts and cycles guarantee\<close>

text \<open>A reference for the loop: the same steps with a bound on their number.\<close>

fun retryIter :: "nat \<Rightarrow> duration \<Rightarrow> int \<Rightarrow> int \<Rightarrow> duration \<Rightarrow> duration option" where
  "retryIter 0 maximum attempt current delay = None"
| "retryIter (Suc n) maximum attempt current delay =
     (if current < attempt \<and> delay < maximum
      then if maximum sdiv 2 < delay then Some maximum else retryIter n maximum attempt (current + 1) (wrap64 (delay * 2))
      else Some (min delay maximum))"

lemma retry_half:
  assumes "0 < delay" "delay < maximum" "maximum \<le> hour" "\<not> maximum sdiv 2 < delay"
  shows "wrap64 (delay * 2) = delay * 2" "delay * 2 \<le> maximum"
proof -
  have "maximum sdiv 2 = maximum div 2" using assms by (intro trunc_division) auto
  then show le: "delay * 2 \<le> maximum" using assms by presburger
  have "maximum < 2 ^ 63" using assms(3) by (simp add: duration_units)
  then show "wrap64 (delay * 2) = delay * 2" using le assms(1) by (intro wrap64_id) auto
qed

lemma retryIter_enough:
  "\<lbrakk>0 < delay; maximum < delay * 2 ^ n; maximum \<le> hour\<rbrakk>
     \<Longrightarrow> retryIter (Suc n) maximum attempt current delay = Some (retryLoop maximum attempt current delay)"
proof (induction n arbitrary: current delay)
  case 0
  then show ?case by (simp add: retryLoop.simps)
next
  case (Suc n)
  show ?case
  proof (cases "current < attempt \<and> delay < maximum \<and> \<not> maximum sdiv 2 < delay")
    case True
    then have d: "wrap64 (delay * 2) = delay * 2" using retry_half(1) [of delay maximum] Suc.prems by blast
    have "retryIter (Suc n) maximum attempt (current + 1) (delay * 2) = Some (retryLoop maximum attempt (current + 1) (delay * 2))"
      by (rule Suc.IH) (use Suc.prems in \<open>auto simp: mult.assoc\<close>)
    then show ?thesis using True d by (subst retryLoop.simps) simp
  next
    case False
    then show ?thesis by (subst retryLoop.simps) auto
  qed
qed

lemma retryLoop_power:
  "\<lbrakk>0 < delay; delay \<le> maximum; maximum \<le> hour\<rbrakk>
     \<Longrightarrow> retryLoop maximum attempt current delay = min (delay * 2 ^ nat (attempt - current)) maximum"
proof (induction maximum attempt current delay rule: retryLoop.induct)
  case (1 maximum attempt current delay)
  consider (stop) "\<not> (current < attempt \<and> delay < maximum)" | (cap) "current < attempt" "delay < maximum" "maximum sdiv 2 < delay"
    | (double) "current < attempt" "delay < maximum" "\<not> maximum sdiv 2 < delay" by blast
  then show ?case
  proof cases
    case stop
    have "1 \<le> (2 :: int) ^ nat (attempt - current)" by simp
    then have "delay \<le> delay * 2 ^ nat (attempt - current)" using "1.prems"(1) by (simp add: mult_le_cancel_left1)
    moreover have "retryLoop maximum attempt current delay = min delay maximum" using stop by (subst retryLoop.simps) auto
    moreover have "\<not> current < attempt \<Longrightarrow> nat (attempt - current) = 0" by simp
    ultimately show ?thesis using stop "1.prems" by (cases "current < attempt") (auto simp only: min_def power_0 mult_1_right split: if_splits)
  next
    case cap
    have "maximum sdiv 2 = maximum div 2" using cap "1.prems" by (intro trunc_division) auto
    then have two: "maximum \<le> delay * 2" using cap by presburger
    have "nat (attempt - current) = Suc (nat (attempt - current - 1))" using cap by simp
    then have "delay * 2 \<le> delay * 2 ^ nat (attempt - current)" using "1.prems"(1) by (simp add: mult_le_cancel_left1)
    then have "min (delay * 2 ^ nat (attempt - current)) maximum = maximum" using two by linarith
    then show ?thesis using cap by (subst retryLoop.simps) simp
  next
    case double
    note d = retry_half [OF "1.prems"(1) double(2) "1.prems"(3) double(3)]
    have "retryLoop maximum attempt (current + 1) (wrap64 (delay * 2)) = min (delay * 2 * 2 ^ nat (attempt - (current + 1))) maximum"
      using "1.IH" double d "1.prems" by auto
    moreover have "nat (attempt - current) = Suc (nat (attempt - (current + 1)))" using double by simp
    ultimately show ?thesis using double by (subst retryLoop.simps) simp
  qed
qed

lemma options_delays:
  "OutboxRunnerOptions_Validate options = None \<Longrightarrow>
     0 < oro_RetryBaseDelay options \<and> oro_RetryBaseDelay options \<le> oro_RetryMaxDelay options \<and> oro_RetryMaxDelay options \<le> hour"
  by (auto simp: OutboxRunnerOptions_Validate_def split: if_splits)

text \<open>
  C33. The retry loop ends within 43 iterations of valid options, whatever the attempt number, because the delay doubles
  towards a maximum of at most one hour.
\<close>

theorem retryDelay_terminates:
  assumes "OutboxRunnerOptions_Validate options = None"
  shows "retryIter 43 (oro_RetryMaxDelay options) attempt 1 (oro_RetryBaseDelay options) = Some (retryDelay options attempt)"
proof -
  note d = options_delays [OF assms]
  have "oro_RetryMaxDelay options < 1 * 2 ^ 42" using d by (simp add: duration_units)
  also have "\<dots> \<le> oro_RetryBaseDelay options * 2 ^ 42" using d by simp
  finally have "retryIter (Suc 42) (oro_RetryMaxDelay options) attempt 1 (oro_RetryBaseDelay options) = Some (retryDelay options attempt)"
    using d unfolding retryDelay_def by (intro retryIter_enough) auto
  then show ?thesis by simp
qed

text \<open>
  C34. The retry delay is the exponential backoff: the base delay doubled once per earlier attempt and capped at the
  maximum, without overflow of the 64-bit duration; it is positive and grows with the attempt number.
\<close>

theorem retryDelay_exponential:
  assumes "OutboxRunnerOptions_Validate options = None"
  shows "retryDelay options attempt = min (oro_RetryBaseDelay options * 2 ^ nat (attempt - 1)) (oro_RetryMaxDelay options) \<and>
    oro_RetryBaseDelay options \<le> retryDelay options attempt \<and> retryDelay options attempt \<le> oro_RetryMaxDelay options \<and>
    retryDelay options attempt \<le> retryDelay options (attempt + 1)"
proof -
  note d = options_delays [OF assms]
  let ?b = "oro_RetryBaseDelay options"
  have eq: "retryDelay options a = min (?b * 2 ^ nat (a - 1)) (oro_RetryMaxDelay options)" for a
    using d unfolding retryDelay_def by (intro retryLoop_power) auto
  have grow: "?b * 2 ^ m \<le> ?b * 2 ^ n" if "m \<le> n" for m n :: nat
    using d that by (intro mult_left_mono) (auto intro: power_increasing)
  have "?b \<le> ?b * 2 ^ nat (attempt - 1)" using grow [of 0] by simp
  moreover have "retryDelay options attempt \<le> retryDelay options (attempt + 1)"
    unfolding eq by (intro min.mono grow) auto
  ultimately show ?thesis using d eq [of attempt] by (simp add: min_def)
qed

text \<open>
  The operations of a claim get a positive time budget that ends before its lease: a tenth of the lease, at most one
  second, is kept back (leases below ten nanoseconds are used up); an expired lease leaves one nanosecond, and a longer
  lease never gets less time.
\<close>

theorem leaseBoundedTimeout_inside:
  "0 < leaseBoundedTimeout lease \<and> (if lease \<le> 0 then leaseBoundedTimeout lease = 1
     else lease - leaseBoundedTimeout lease = min (lease div 10) 1000000000) \<and>
   leaseBoundedTimeout lease \<le> leaseBoundedTimeout (lease + 1)"
proof -
  have pos: "leaseBoundedTimeout l = l - min (l div 10) 1000000000" if "0 < l" for l
  proof -
    have "l sdiv 10 = l div 10" using that by (intro trunc_division) auto
    then show ?thesis using that by (auto simp: leaseBoundedTimeout_def duration_units Let_def min_def)
  qed
  consider "lease \<le> 0" | "0 < lease" by linarith
  then show ?thesis
  proof cases
    case 1
    have "leaseBoundedTimeout lease = 1" using 1 by (simp add: leaseBoundedTimeout_def duration_units)
    moreover have "1 \<le> leaseBoundedTimeout (lease + 1)"
      using 1 pos [of 1] by (cases "lease = 0") (auto simp: leaseBoundedTimeout_def duration_units)
    ultimately show ?thesis using 1 by simp
  next
    case 2
    then show ?thesis using pos [of lease] pos [of "lease + 1"] by (auto simp: min_def)
  qed
qed

text \<open>Every outcome is counted once, and the combined error is present exactly when something failed.\<close>

lemma countOutcome_counts:
  "fold countOutcome outcomes (r, e) = (r', e') \<Longrightarrow>
     orr_Claimed r' = orr_Claimed r \<and>
     orr_Delivered r' + orr_DeadLettered r' + orr_Failed r' = orr_Delivered r + orr_DeadLettered r + orr_Failed r + int (length outcomes) \<and>
     orr_Delivered r \<le> orr_Delivered r' \<and> orr_DeadLettered r \<le> orr_DeadLettered r' \<and> orr_Failed r \<le> orr_Failed r' \<and>
     (e' = None \<longleftrightarrow> e = None \<and> orr_Failed r' = orr_Failed r)"
proof (induction outcomes arbitrary: r e)
  case (Cons outcome outcomes)
  obtain r1 e1 where step: "countOutcome outcome (r, e) = (r1, e1)" by force
  then have "fold countOutcome outcomes (r1, e1) = (r', e')" using Cons.prems by simp
  note ih = Cons.IH [OF this]
  show ?case using step ih by (cases outcome) auto
qed simp

lemma deliverAll_length: "deliverAll queue options errorRunes env claims store = (outcomes, store') \<Longrightarrow> length outcomes = length claims"
  by (induction claims arbitrary: outcomes store store') (auto split: prod.splits)

text \<open>
  C35. A delivery cycle accounts for every event it claimed, in whatever order its goroutines finish: without cancellation
  the claimed events are exactly the delivered, dead-lettered and failed ones; after a cancellation those started are, and
  one failure more for the cancellation itself. The cycle returns an error exactly when it counted a failure or could not claim.
\<close>

theorem RunOnce_accounts:
  assumes "Outbox_RunOnce queue options errorRunes env store = ((result, err), store')"
    and "\<forall>claims. mset (ce_order env claims) = mset claims"
  shows "(if err \<noteq> None \<and> orr_Failed result = 0 then result = noResult
     else case ce_cancelled env of
       None \<Rightarrow> orr_Delivered result + orr_DeadLettered result + orr_Failed result = orr_Claimed result
     | Some (n, cause) \<Rightarrow> orr_Delivered result + orr_DeadLettered result + orr_Failed result = min (orr_Claimed result) (int n + 1)) \<and>
    (orr_Failed result > 0 \<longrightarrow> err \<noteq> None) \<and> 0 \<le> orr_Delivered result \<and> 0 \<le> orr_DeadLettered result \<and> 0 \<le> orr_Failed result"
proof -
  have len: "length (ce_order env claims) = length claims" for claims using assms(2) by (metis size_mset)
  let ?req = "\<lparr>ocr_Token = ce_token env, ocr_Limit = oro_BatchSize options, ocr_ClaimedAt = ce_claimedAt env,
         ocr_LeaseUntil = ce_claimedAt env + oro_LeaseDuration options\<rparr>"
  obtain claimed store1 where c: "oq_ClaimOutboxEvents queue store ?req = (claimed, store1)" by force
  show ?thesis
  proof (cases claimed)
    case (Inl e)
    then show ?thesis using assms(1) c by (auto simp: Outbox_RunOnce_def noResult_def)
  next
    case (Inr claims)
    define plan where "plan = (case ce_cancelled env of None \<Rightarrow> (claims, [])
      | Some (n, e) \<Rightarrow> if n < length claims then (take n claims, [ClaimFailed e]) else (claims, []))"
    obtain outcomes store2 where d: "deliverAll queue options errorRunes (ce_delivery env) (ce_order env (fst plan)) store1 = (outcomes, store2)"
      by force
    show ?thesis
    proof (cases "claims = []")
      case True
      then show ?thesis using assms(1) c Inr by (auto simp: Outbox_RunOnce_def noResult_def split: option.splits)
    next
      case False
      have "fold countOutcome (snd plan @ outcomes) (noResult\<lparr>orr_Claimed := int (length claims)\<rparr>, None) = (result, err)"
        using assms(1) c Inr d False by (simp add: Outbox_RunOnce_def plan_def split: prod.splits)
      note counts = countOutcome_counts [OF this]
      have "length outcomes = length (fst plan)" using deliverAll_length [OF d] len by simp
      then have "length (snd plan @ outcomes) = (case ce_cancelled env of None \<Rightarrow> length claims | Some (n, e) \<Rightarrow> min (length claims) (n + 1))"
        by (auto simp: plan_def split: option.splits if_splits)
      then show ?thesis using counts by (auto simp: noResult_def split: option.splits)
    qed
  qed
qed

text \<open>
  Publishing gives up on an event for ever exactly on a definite refusal: the endpoint answered with a status that is
  neither success nor time-out, throttling or server failure. Transport errors and invalid events are retried, and
  success is reported for a valid event answered with a success status only.
\<close>

theorem Publish_classifies:
  assumes "\<And>r e. send r = Inl e \<Longrightarrow> \<not> isPermanentDeliveryFailure e"
    and "marshal event = Inr body" "newRequest body = Inr request"
  shows "(Publish marshal newRequest send event = None \<longleftrightarrow>
      OutboxEvent_Validate event = None \<and> (\<exists>status. send request = Inr status \<and> 200 \<le> status \<and> status \<le> 299)) \<and>
    (\<forall>e. Publish marshal newRequest send event = Some e \<longrightarrow>
      (isPermanentDeliveryFailure e \<longleftrightarrow> OutboxEvent_Validate event = None \<and>
        (\<exists>status. send request = Inr status \<and> (status < 200 \<or> 300 \<le> status \<and> status < 500 \<and> status \<noteq> 408 \<and> status \<noteq> 429))))"
proof (cases "OutboxEvent_Validate event")
  case None
  then show ?thesis using assms
    by (cases "send request") (auto simp: Publish_def responseError_def PermanentDeliveryError_def)
next
  case (Some e)
  then have "\<not> isPermanentDeliveryFailure e" by (auto simp: OutboxEvent_Validate_def split: if_splits)
  then show ?thesis using Some by (simp add: Publish_def)
qed

section \<open>Witnesses\<close>

definition sampleOutboxOptions :: OutboxRunnerOptions where
  "sampleOutboxOptions = \<lparr>oro_BatchSize = 32, oro_Concurrency = 4, oro_LeaseDuration = 30 * second, oro_PollInterval = second,
     oro_RetryBaseDelay = second, oro_RetryMaxDelay = 60 * second\<rparr>"

lemma sampleOutboxOptions_valid: "OutboxRunnerOptions_Validate sampleOutboxOptions = None"
  by (simp add: OutboxRunnerOptions_Validate_def sampleOutboxOptions_def MaxOutboxBatchSize_def duration_units)

theorem retryDelay_terminates_witness:
  "retryIter 43 (oro_RetryMaxDelay sampleOutboxOptions) 100 1 (oro_RetryBaseDelay sampleOutboxOptions) = Some (retryDelay sampleOutboxOptions 100)"
  by (rule retryDelay_terminates [OF sampleOutboxOptions_valid])

theorem retryDelay_exponential_witness:
  "retryDelay sampleOutboxOptions 4 = 8 * second \<and> retryDelay sampleOutboxOptions 100 = 60 * second"
  using retryDelay_exponential [OF sampleOutboxOptions_valid, of 4] retryDelay_exponential [OF sampleOutboxOptions_valid, of 100]
  by (simp add: sampleOutboxOptions_def second_def)

text \<open>A queue of one event that is handed out and can be acknowledged once.\<close>

definition sampleOutboxEvent :: OutboxEvent where
  "sampleOutboxEvent = \<lparr>oe_EventID = ''e1'', oe_AggregateType = ''ticket'', oe_AggregateID = ''t1'', oe_AggregateVersion = 1,
     oe_EventType = ''ticket.accepted'', oe_Payload = ''{}'', oe_OccurredAt = 5\<rparr>"

lemma sampleOutboxEvent_valid: "OutboxEvent_Validate sampleOutboxEvent = None"
  by (simp add: OutboxEvent_Validate_def sampleOutboxEvent_def json_Valid_def beginValue_def isSpace_def pushFrame_def maxNestingDepth_def popFrame_def)

definition oneEventQueue :: "bool OutboxQueue" where
  "oneEventQueue = \<lparr>oq_ClaimOutboxEvents = (\<lambda>s r. (Inr [\<lparr>oc_Event = sampleOutboxEvent, oc_Token = ocr_Token r, oc_Attempt = 1, oc_LeaseUntil = ocr_LeaseUntil r\<rparr>], s)),
     oq_MarkOutboxDelivered = (\<lambda>s i t a. if s then (None, False) else (Some ErrOutboxClaimLost, s)),
     oq_MarkOutboxDeadLettered = (\<lambda>s i t a r. (None, s)), oq_ScheduleOutboxRetry = (\<lambda>s i t a r. (None, s))\<rparr>"

definition sampleCycle :: cycleEnv where
  "sampleCycle = \<lparr>ce_token = ''w1'', ce_claimedAt = 10, ce_cancelled = None, ce_order = rev, ce_delivery = (\<lambda>_. \<lparr>de_publish = None, de_now = 11\<rparr>)\<rparr>"

lemma sampleCycle_run:
  "Outbox_RunOnce oneEventQueue sampleOutboxOptions (\<lambda>_. ''error'') sampleCycle True =
     ((\<lparr>orr_Claimed = 1, orr_Delivered = 1, orr_DeadLettered = 0, orr_Failed = 0\<rparr>, None), False)"
  by (simp add: Outbox_RunOnce_def oneEventQueue_def sampleCycle_def deliverClaim_def noResult_def Let_def)

theorem RunOnce_accounts_witness:
  "case Outbox_RunOnce oneEventQueue sampleOutboxOptions (\<lambda>_. ''error'') sampleCycle True of ((result, err), store) \<Rightarrow>
     orr_Delivered result + orr_DeadLettered result + orr_Failed result = orr_Claimed result \<and> orr_Claimed result = 1 \<and> err = None"
  using RunOnce_accounts [OF sampleCycle_run] unfolding sampleCycle_run by (simp add: sampleCycle_def)

theorem Publish_classifies_witness:
  "Publish (\<lambda>_. Inr ''{}'') Inr (\<lambda>_. Inr 204) sampleOutboxEvent = None"
  using Publish_classifies [of "\<lambda>_. Inr 204" "\<lambda>_. Inr ''{}''" sampleOutboxEvent "''{}''" Inr "''{}''"]
  by (simp add: sampleOutboxEvent_valid)

end
