(* ===== verification/Database.thy ===== *)
theory Database
  imports Tournament_Model Outbox_Worker Rating_Baseline
begin

text \<open>
  The PostgreSQL tables of tickets, rooms, results and ratings as the migrations under \<^verbatim>\<open>migrations/\<close> declare them, with the constraints that
  statements of the stores can run into, and the statement forms the stores use. A table is the list of its rows in
  insertion order, NULL is \<open>None\<close>. One transaction works on a copy of the store: it is rolled back by returning the store
  it started from.
\<close>

section \<open>Errors of the driver\<close>

text \<open>A \<^verbatim>\<open>pgconn.PgError\<close> is known by its SQLSTATE; \<^verbatim>\<open>errors.As\<close> finds the first one in a chain.\<close>

definition PgError :: "string \<Rightarrow> goerr" where "PgError code = Errorf ''pgconn.PgError %s'' [ArgS code] None"

fun pgCode :: "goerr \<Rightarrow> string option" where
  "pgCode (ErrorsNew m) = None"
| "pgCode (Errorf f a None) = (case a of [ArgS code] \<Rightarrow> if f = ''pgconn.PgError %s'' then Some code else None | _ \<Rightarrow> None)"
| "pgCode (Errorf f a (Some e)) = pgCode e"
| "pgCode (ErrorsJoin a b) = (case pgCode a of None \<Rightarrow> pgCode b | Some c \<Rightarrow> Some c)"

definition ErrNoRows :: goerr where "ErrNoRows = ErrorsNew ''no rows in result set''"

definition uniqueViolation :: goerr where "uniqueViolation = PgError ''23505''"
definition foreignKeyViolation :: goerr where "foreignKeyViolation = PgError ''23503''"
definition checkViolation :: goerr where "checkViolation = PgError ''23514''"
definition numericOutOfRange :: goerr where "numericOutOfRange = PgError ''22003''"

definition mapConflict :: "goerr \<Rightarrow> goerr \<Rightarrow> string \<Rightarrow> goerr" where
  "mapConflict err conflict operation =
     (case pgCode err of
        Some code \<Rightarrow> if code = ''23505'' \<or> code = ''23503'' \<or> code = ''23514''
                     then Errorf ''%s: %w'' [ArgS operation] (Some conflict) else Errorf ''%s: %w'' [ArgS operation] (Some err)
      | None \<Rightarrow> Errorf ''%s: %w'' [ArgS operation] (Some err))"

text \<open>
  Failures from outside: any statement, named by the operation the source names in its error, may fail with an error of
  the driver; a failed commit may or may not have been applied by the server.
\<close>

record Faults =
  flt_stmt :: "string \<Rightarrow> error"
  flt_applied :: bool

definition noFaults :: Faults where "noFaults = \<lparr>flt_stmt = (\<lambda>_. None), flt_applied = False\<rparr>"

definition stmt :: "Faults \<Rightarrow> string \<Rightarrow> 'a result \<Rightarrow> 'a result" where
  "stmt flt label r = (case flt_stmt flt label of Some e \<Rightarrow> Inl e | None \<Rightarrow> r)"

fun mapErr :: "(goerr \<Rightarrow> goerr) \<Rightarrow> 'a result \<Rightarrow> 'a result" where
  "mapErr f (Inl e) = Inl (f e)"
| "mapErr f (Inr x) = Inr x"

lemma mapErr_Inr [simp]: "mapErr f r = Inr x \<longleftrightarrow> r = Inr x"
  by (cases r) auto

lemma stmt_Inr [simp]: "stmt flt label r = Inr x \<longleftrightarrow> flt_stmt flt label = None \<and> r = Inr x"
  by (auto simp: stmt_def split: option.splits)

lemma stmt_noFaults [simp]: "stmt noFaults label r = r"
  by (simp add: stmt_def noFaults_def)

section \<open>Stored values\<close>

text \<open>A \<^verbatim>\<open>timestamptz\<close> keeps microseconds; the driver truncates. Go's increment of an \<^verbatim>\<open>int64\<close> wraps.\<close>

definition pgTime :: "time \<Rightarrow> time" where "pgTime t = t div 1000 * 1000"

lemma pgTime_idem [simp]: "pgTime (pgTime t) = pgTime t"
  by (simp add: pgTime_def)

lemma pgTime_mono: "t \<le> u \<Longrightarrow> pgTime t \<le> pgTime u"
  by (simp add: pgTime_def zdiv_mono1)

lemma pgTime_le: "pgTime t \<le> t"
proof -
  have "t div 1000 * 1000 = t - t mod 1000" by (rule minus_mod_eq_div_mult [symmetric])
  then show ?thesis by (simp add: pgTime_def)
qed

definition incInt64 :: "int \<Rightarrow> int" where "incInt64 v = wrap64 (v + 1)"

definition sha256Text :: "string \<Rightarrow> bool" where
  "sha256Text s \<longleftrightarrow> length s = 64 \<and> set s \<subseteq> set ''0123456789abcdef''"

text \<open>The JSON objects the stores put into the outbox, one constructor for each struct that is marshalled.\<close>

datatype eventPayload =
    AcceptedPayload string string string string string TicketStatus time
  | CancelledPayload string TicketStatus time
  | ExpiredPayload string TicketStatus time time
  | AssignedPayload string string string string int time
  | RoomFilledPayload string time time
  | RoomCompletedPayload string string time bool "ParticipantResult list"
  | RoomExpiredPayload ExpiredRoom
  | ResultRatedPayload string string string time "RatingUpdate list"

section \<open>Tables\<close>

record ConfigRow =
  cf_tournament_id :: string
  cf_version :: string
  cf_mode_id :: string
  cf_capacity :: int
  cf_policy_version :: string
  cf_rating_model_version :: string
  cf_result_timeout_ms :: int

record PolicyRow =
  po_policy_version :: string
  po_rating_model_version :: string
  po_definition :: string

record TicketRow =
  tkr_ticket :: Ticket
  tkr_request_digest :: string
  tkr_next_attempt_at :: "time option"
  tkr_claim_token :: "string option"
  tkr_claimed_until :: "time option"
  tkr_attempt_count :: int

abbreviation "tkr_id r \<equiv> tk_ID (tkr_ticket r)"
abbreviation "tkr_status r \<equiv> tk_Status (tkr_ticket r)"

record CommandRow =
  cm_ticket_id :: string
  cm_command_id :: string
  cm_command_type :: string
  cm_request_digest :: string
  cm_resulting_status :: TicketStatus
  cm_occurred_at :: time

record RoomRow =
  rmr_room_id :: string
  rmr_tournament_id :: string
  rmr_tournament_version :: string
  rmr_mode_id :: string
  rmr_policy_version :: string
  rmr_rating_model_version :: string
  rmr_scoring_rules_version :: string
  rmr_settlement_version :: string
  rmr_deck_id :: string
  rmr_capacity :: int
  rmr_status :: RoomStatus
  rmr_aggregate_version :: int
  rmr_created_at :: time
  rmr_fill_deadline :: time
  rmr_filled_at :: "time option"
  rmr_result_deadline :: "time option"
  rmr_completed_at :: "time option"
  rmr_expired_at :: "time option"
  rmr_cancelled_at :: "time option"

record MembershipRow =
  mb_room_id :: string
  mb_room_capacity :: int
  mb_ticket_id :: string
  mb_player_id :: string
  mb_seat :: int
  mb_assigned_at :: time
  mb_assignment_id :: string
  mb_request_digest :: string
  mb_ticket_version :: int
  mb_room_version :: int
  mb_room_filled :: bool
  mb_result_deadline :: "time option"

record SessionRow =
  sn_session_id :: string
  sn_ticket_id :: string
  sn_room_id :: string
  sn_player_id :: string
  sn_seat :: int
  sn_status :: SessionStatus
  sn_allocated_at :: time
  sn_started_at :: "time option"
  sn_submitted_at :: "time option"
  sn_forfeited_at :: "time option"

record OutboxRow =
  ox_event_id :: string
  ox_aggregate_type :: string
  ox_aggregate_id :: string
  ox_aggregate_version :: int
  ox_event_type :: string
  ox_payload :: eventPayload
  ox_occurred_at :: time
  ox_available_at :: time
  ox_attempt_count :: int
  ox_claimed_by :: "string option"
  ox_claimed_until :: "time option"
  ox_delivered_at :: "time option"
  ox_last_error :: "string option"
  ox_dead_lettered_at :: "time option"
  ox_dead_letter_reason :: "string option"

record ShadowWorkRow =
  sw_work_kind :: string
  sw_source_id :: string
  sw_timeline_position :: time
  sw_ordering_priority :: int
  sw_next_attempt_at :: time
  sw_claim_token :: "string option"
  sw_claimed_until :: "time option"
  sw_attempt_count :: int
  sw_processed_at :: "time option"
  sw_skip_reason :: "string option"

record ResultRow =
  vr_event_id :: string
  vr_request_digest :: string
  vr_room_id :: string
  vr_room_capacity :: int
  vr_mode_id :: string
  vr_deck_id :: string
  vr_scoring_rules_version :: string
  vr_finished_at :: time
  vr_available_at :: time
  vr_accepted_at :: time
  vr_processed_at :: "time option"
  vr_next_attempt_at :: "time option"
  vr_claim_token :: "string option"
  vr_claimed_until :: "time option"
  vr_attempt_count :: int

record ParticipantRow =
  pt_event_id :: string
  pt_room_id :: string
  pt_room_capacity :: int
  pt_session_id :: string
  pt_player_id :: string
  pt_place :: int
  pt_features :: Features

text \<open>The estimate columns of the rating tables are one \<open>Estimate\<close>, which also carries the model version.\<close>

record PlayerRatingRow =
  plr_player_id :: string
  plr_mode_id :: string
  plr_estimate :: Estimate
  plr_revision :: int

abbreviation "plr_model_version r \<equiv> est_ModelVersion (plr_estimate r)"

record RatingUpdateRow =
  rur_player_id :: string
  rur_mode_id :: string
  rur_source_event_id :: string
  rur_model_version :: string
  rur_before :: Estimate
  rur_after :: Estimate
  rur_processed_at :: time

record Database =
  db_models :: "string list"
  db_policies :: "PolicyRow list"
  db_configs :: "ConfigRow list"
  db_tickets :: "TicketRow list"
  db_commands :: "CommandRow list"
  db_rooms :: "RoomRow list"
  db_memberships :: "MembershipRow list"
  db_sessions :: "SessionRow list"
  db_outbox :: "OutboxRow list"
  db_shadow_work :: "ShadowWorkRow list"
  db_results :: "ResultRow list"
  db_participants :: "ParticipantRow list"
  db_ratings :: "PlayerRatingRow list"
  db_rating_updates :: "RatingUpdateRow list"

section \<open>Row constraints\<close>

fun ticketStateTimestamps :: "TicketStatus \<Rightarrow> bool \<Rightarrow> bool \<Rightarrow> bool \<Rightarrow> bool" where
  "ticketStateTimestamps TicketQueued a c e = (\<not> a \<and> \<not> c \<and> \<not> e)"
| "ticketStateTimestamps TicketAssigned a c e = (a \<and> \<not> c \<and> \<not> e)"
| "ticketStateTimestamps TicketCancelled a c e = (\<not> a \<and> c \<and> \<not> e)"
| "ticketStateTimestamps TicketExpired a c e = (\<not> a \<and> \<not> c \<and> e)"
| "ticketStateTimestamps (TicketStatusOther s) a c e = False"

definition claimPair :: "string option \<Rightarrow> time option \<Rightarrow> bool" where
  "claimPair token until \<longleftrightarrow> token = None \<and> until = None \<or> token \<noteq> None \<and> token \<noteq> Some '''' \<and> until \<noteq> None"

definition ticketChecks :: "TicketRow \<Rightarrow> bool" where
  "ticketChecks r \<longleftrightarrow>
     (let t = tkr_ticket r; e = tk_RatingSnapshot t in
      tk_ID t \<noteq> '''' \<and> tk_EntryID t \<noteq> '''' \<and> tkr_request_digest r \<noteq> '''' \<and> tk_PlayerID t \<noteq> '''' \<and>
      f64_finite (est_Mean e) \<and> 0 < est_Uncertainty e \<and> f64_finite (est_Uncertainty e) \<and>
      (case est_PerformanceDeviation e of None \<Rightarrow> True | Some d \<Rightarrow> 0 \<le> d \<and> f64_finite d) \<and>
      est_UpdatedAt e \<le> tk_SnapshotAt t \<and> tk_SnapshotAt t \<le> tk_RequestedAt t \<and>
      ticketStateTimestamps (tk_Status t) (tk_AssignedAt t \<noteq> None) (tk_CancelledAt t \<noteq> None) (tk_ExpiredAt t \<noteq> None) \<and>
      0 < tk_AggregateVersion t \<and> sha256Text (tkr_request_digest r) \<and> 0 \<le> tkr_attempt_count r \<and>
      claimPair (tkr_claim_token r) (tkr_claimed_until r) \<and>
      (if tk_Status t = TicketQueued then tkr_next_attempt_at r \<noteq> None
       else tkr_next_attempt_at r = None \<and> tkr_claim_token r = None \<and> tkr_claimed_until r = None))"

definition commandChecks :: "CommandRow \<Rightarrow> bool" where
  "commandChecks r \<longleftrightarrow> cm_command_id r \<noteq> '''' \<and> sha256Text (cm_request_digest r) \<and>
     (cm_command_type r = ''cancel'' \<and> cm_resulting_status r = TicketCancelled \<or>
      cm_command_type r = ''expire'' \<and> cm_resulting_status r = TicketExpired)"

fun roomStateTimestamps :: "RoomStatus \<Rightarrow> RoomRow \<Rightarrow> bool" where
  "roomStateTimestamps RoomForming r = (rmr_filled_at r = None \<and> rmr_result_deadline r = None \<and> rmr_completed_at r = None)"
| "roomStateTimestamps RoomCollecting r = (rmr_filled_at r \<noteq> None \<and> rmr_result_deadline r \<noteq> None \<and> rmr_completed_at r = None)"
| "roomStateTimestamps RoomCompleted r = (rmr_filled_at r \<noteq> None \<and> rmr_result_deadline r \<noteq> None \<and> rmr_completed_at r \<noteq> None)"
| "roomStateTimestamps RoomExpired r = (rmr_completed_at r = None \<and> rmr_expired_at r \<noteq> None)"
| "roomStateTimestamps RoomCancelled r = (rmr_completed_at r = None \<and> rmr_cancelled_at r \<noteq> None)"

definition roomChecks :: "RoomRow \<Rightarrow> bool" where
  "roomChecks r \<longleftrightarrow>
     rmr_room_id r \<noteq> '''' \<and> rmr_deck_id r \<noteq> '''' \<and> (rmr_capacity r = 5 \<or> rmr_capacity r = 6 \<or> rmr_capacity r = 7) \<and> 0 < rmr_aggregate_version r \<and>
     rmr_created_at r < rmr_fill_deadline r \<and>
     (case rmr_filled_at r of None \<Rightarrow> True | Some f \<Rightarrow> rmr_created_at r \<le> f \<and> f \<le> rmr_fill_deadline r) \<and>
     (case rmr_result_deadline r of None \<Rightarrow> True | Some d \<Rightarrow> (case rmr_filled_at r of None \<Rightarrow> False | Some f \<Rightarrow> f < d)) \<and>
     (case rmr_completed_at r of None \<Rightarrow> True | Some c \<Rightarrow> (case rmr_filled_at r of None \<Rightarrow> False | Some f \<Rightarrow> f \<le> c)) \<and>
     roomStateTimestamps (rmr_status r) r"

definition membershipChecks :: "MembershipRow \<Rightarrow> bool" where
  "membershipChecks r \<longleftrightarrow> 1 \<le> mb_seat r \<and> mb_seat r \<le> mb_room_capacity r \<and> mb_assignment_id r \<noteq> '''' \<and>
     sha256Text (mb_request_digest r) \<and> 0 < mb_ticket_version r \<and> 0 < mb_room_version r \<and>
     mb_room_filled r = (mb_result_deadline r \<noteq> None)"

definition sessionChecks :: "SessionRow \<Rightarrow> bool" where
  "sessionChecks r \<longleftrightarrow> sn_session_id r \<noteq> '''' \<and>
     (case sn_status r of
        SessionAllocated \<Rightarrow> sn_started_at r = None \<and> sn_submitted_at r = None \<and> sn_forfeited_at r = None
      | SessionPlaying \<Rightarrow> sn_started_at r \<noteq> None \<and> sn_submitted_at r = None \<and> sn_forfeited_at r = None
      | SessionSubmitted \<Rightarrow> sn_started_at r \<noteq> None \<and> sn_submitted_at r \<noteq> None \<and> sn_forfeited_at r = None
      | SessionForfeited \<Rightarrow> sn_submitted_at r = None \<and> sn_forfeited_at r \<noteq> None)"

definition resultChecks :: "ResultRow \<Rightarrow> bool" where
  "resultChecks r \<longleftrightarrow> vr_event_id r \<noteq> '''' \<and> vr_request_digest r \<noteq> '''' \<and> vr_mode_id r \<noteq> '''' \<and> vr_finished_at r \<le> vr_available_at r \<and>
     (case vr_processed_at r of None \<Rightarrow> True | Some t \<Rightarrow> vr_available_at r \<le> t) \<and> sha256Text (vr_request_digest r) \<and>
     (if vr_processed_at r = None then vr_next_attempt_at r \<noteq> None
      else vr_next_attempt_at r = None \<and> vr_claim_token r = None \<and> vr_claimed_until r = None) \<and>
     claimPair (vr_claim_token r) (vr_claimed_until r) \<and> 0 \<le> vr_attempt_count r"

definition participantChecks :: "ParticipantRow \<Rightarrow> bool" where
  "participantChecks r \<longleftrightarrow> 1 \<le> pt_place r \<and> pt_place r \<le> pt_room_capacity r \<and>
     \<not> negativeField (feat_ElapsedMillis (pt_features r)) \<and> \<not> negativeField (feat_Moves (pt_features r)) \<and>
     \<not> negativeField (feat_UndoMoves (pt_features r)) \<and> \<not> negativeField (feat_RevealedCards (pt_features r))"

definition estimateChecks :: "Estimate \<Rightarrow> bool" where
  "estimateChecks e \<longleftrightarrow> f64_finite (est_Mean e) \<and> 0 < est_Uncertainty e \<and> f64_finite (est_Uncertainty e) \<and>
     (case est_PerformanceDeviation e of None \<Rightarrow> True | Some d \<Rightarrow> 0 \<le> d \<and> f64_finite d)"

definition playerRatingChecks :: "PlayerRatingRow \<Rightarrow> bool" where
  "playerRatingChecks r \<longleftrightarrow> plr_player_id r \<noteq> '''' \<and> plr_mode_id r \<noteq> '''' \<and> estimateChecks (plr_estimate r) \<and> 0 \<le> plr_revision r"

definition ratingUpdateChecks :: "RatingUpdateRow \<Rightarrow> bool" where
  "ratingUpdateChecks r \<longleftrightarrow> estimateChecks (rur_before r) \<and> estimateChecks (rur_after r) \<and>
     unat (est_Games (rur_after r)) = unat (est_Games (rur_before r)) + 1 \<and>
     est_UpdatedAt (rur_after r) = rur_processed_at r \<and> est_UpdatedAt (rur_before r) \<le> rur_processed_at r"

text \<open>The deferred trigger of the result tables: at commit a result has a row for every seat of its room and a winner.\<close>

definition storedResultComplete :: "Database \<Rightarrow> string \<Rightarrow> bool" where
  "storedResultComplete db eventID \<longleftrightarrow>
     (let rows = filter (\<lambda>p. pt_event_id p = eventID) (db_participants db) in
      list_all (\<lambda>v. vr_event_id v = eventID \<longrightarrow> int (length rows) = vr_room_capacity v \<and> list_ex (\<lambda>p. pt_place p = 1) rows) (db_results db))"

definition boundedText :: "string option \<Rightarrow> bool" where
  "boundedText t \<longleftrightarrow> (case t of None \<Rightarrow> True | Some s \<Rightarrow> length s \<le> 1024)"

definition outboxChecks :: "OutboxRow \<Rightarrow> bool" where
  "outboxChecks r \<longleftrightarrow>
     ox_event_id r \<noteq> '''' \<and> ox_aggregate_type r \<noteq> '''' \<and> ox_aggregate_id r \<noteq> '''' \<and> ox_event_type r \<noteq> '''' \<and>
     0 < ox_aggregate_version r \<and> 0 \<le> ox_attempt_count r \<and> ox_occurred_at r \<le> ox_available_at r \<and>
     (ox_claimed_by r = None \<longleftrightarrow> ox_claimed_until r = None) \<and>
     (case ox_delivered_at r of None \<Rightarrow> True | Some d \<Rightarrow> ox_occurred_at r \<le> d \<and> ox_claimed_by r = None \<and> ox_claimed_until r = None) \<and>
     boundedText (ox_last_error r) \<and> (ox_dead_lettered_at r = None \<longleftrightarrow> ox_dead_letter_reason r = None) \<and>
     boundedText (ox_dead_letter_reason r) \<and>
     (ox_dead_lettered_at r \<noteq> None \<longrightarrow> ox_delivered_at r = None \<and> ox_claimed_by r = None \<and> ox_claimed_until r = None)"

section \<open>Statement forms\<close>

text \<open>
  An insert checks the row, then the unique keys, then the foreign keys; an update checks every row it rewrites (no update
  of the stores touches a key) and reports how many there were.
\<close>

definition insertRow :: "('r \<Rightarrow> bool) \<Rightarrow> ('r \<Rightarrow> 'r \<Rightarrow> bool) \<Rightarrow> ('r \<Rightarrow> bool) \<Rightarrow> 'r \<Rightarrow> 'r list \<Rightarrow> 'r list result" where
  "insertRow checks clash refs row rows =
     (if \<not> checks row then Inl checkViolation
      else if list_ex (clash row) rows then Inl uniqueViolation
      else if \<not> refs row then Inl foreignKeyViolation
      else Inr (rows @ [row]))"

definition updateRows :: "('r \<Rightarrow> bool) \<Rightarrow> ('r \<Rightarrow> 'r) \<Rightarrow> ('r \<Rightarrow> bool) \<Rightarrow> 'r list \<Rightarrow> ('r list \<times> nat) result" where
  "updateRows hit change checks rows =
     (if list_ex (\<lambda>r. hit r \<and> \<not> checks (change r)) rows then Inl checkViolation
      else Inr (map (\<lambda>r. if hit r then change r else r) rows, length (filter hit rows)))"

lemma insertRow_Inr:
  "insertRow checks clash refs row rows = Inr rows' \<longleftrightarrow>
     checks row \<and> (\<forall>r \<in> set rows. \<not> clash row r) \<and> refs row \<and> rows' = rows @ [row]"
  by (auto simp: insertRow_def list_ex_iff)

lemma updateRows_Inr:
  "updateRows hit change checks rows = Inr (rows', n) \<longleftrightarrow>
     (\<forall>r \<in> set rows. hit r \<longrightarrow> checks (change r)) \<and> rows' = map (\<lambda>r. if hit r then change r else r) rows \<and> n = length (filter hit rows)"
  by (auto simp: updateRows_def list_ex_iff)

text \<open>Rows with unique keys.\<close>

lemma distinct_map_unique: "\<lbrakk>distinct (map key xs); x \<in> set xs; y \<in> set xs; key x = key y\<rbrakk> \<Longrightarrow> x = y"
  by (metis distinct_map inj_onD)

lemma find_append: "List.find P (xs @ ys) = (case List.find P xs of None \<Rightarrow> List.find P ys | Some x \<Rightarrow> Some x)"
  by (induction xs) auto

lemma find_unique:
  assumes "distinct (map key xs)" "x \<in> set xs"
  shows "List.find (\<lambda>y. key y = key x) xs = Some x"
  using assms by (induction xs) auto

lemma find_map_key:
  assumes "\<And>r. r \<in> set xs \<Longrightarrow> key (f r) = key r"
  shows "List.find (\<lambda>r. key r = k) (map f xs) = map_option f (List.find (\<lambda>r. key r = k) xs)"
  using assms by (induction xs) auto

lemma find_Some: "List.find P xs = Some x \<Longrightarrow> x \<in> set xs \<and> P x"
  by (induction xs) (auto split: if_splits)

text \<open>A query for one row.\<close>

fun queryRow :: "'r list \<Rightarrow> 'r result" where
  "queryRow [] = Inl ErrNoRows"
| "queryRow (r # rs) = Inr r"

lemma queryRow_Inr: "queryRow (filter p rows) = Inr r \<Longrightarrow> r \<in> set rows \<and> p r"
  by (cases "filter p rows") (auto simp: filter_eq_Cons_iff)

lemma queryRow_find: "queryRow (filter p rows) = (case List.find p rows of None \<Rightarrow> Inl ErrNoRows | Some r \<Rightarrow> Inr r)"
  by (induction rows) auto

lemma queryRow_unique:
  assumes "r \<in> set rows" "p r" "distinct (map key rows)" "\<And>x. p x \<Longrightarrow> key x = key r"
  shows "queryRow (filter p rows) = Inr r"
proof -
  have "filter p rows \<noteq> []" using assms(1,2) by (auto simp: filter_empty_conv)
  then obtain x xs where x: "filter p rows = x # xs" by (cases "filter p rows") auto
  then have "x \<in> set rows" "p x" by (auto simp: filter_eq_Cons_iff)
  then have "x = r" using assms by (metis distinct_map inj_onD)
  then show ?thesis using x by simp
qed

section \<open>Transactions\<close>

definition tryTx :: "'s \<Rightarrow> 'a result \<Rightarrow> ('a \<Rightarrow> 'b result \<times> 's) \<Rightarrow> 'b result \<times> 's" where
  "tryTx db r k = (case r of Inl e \<Rightarrow> (Inl e, db) | Inr x \<Rightarrow> k x)"

definition commitTx :: "Faults \<Rightarrow> (goerr \<Rightarrow> goerr) \<Rightarrow> 'a \<Rightarrow> 's \<Rightarrow> 's \<Rightarrow> 'a result \<times> 's" where
  "commitTx flt wrap x db db' =
     (case flt_stmt flt ''commit'' of None \<Rightarrow> (Inr x, db')
      | Some e \<Rightarrow> (Inl (wrap e), if flt_applied flt then db' else db))"

lemma tryTx_simps [simp]: "tryTx db (Inl e) k = (Inl e, db)" "tryTx db (Inr x) k = k x"
  by (simp_all add: tryTx_def)

lemma commitTx_noFaults [simp]: "commitTx noFaults wrap x db db' = (Inr x, db')"
  by (simp add: commitTx_def noFaults_def)

text \<open>A store that differs from the first one was committed: the reading of a transaction by its effect.\<close>

definition commitAnswer :: "Faults \<Rightarrow> (goerr \<Rightarrow> goerr) \<Rightarrow> 'a \<Rightarrow> 'a result \<Rightarrow> bool" where
  "commitAnswer flt wrap x res \<longleftrightarrow>
     (case flt_stmt flt ''commit'' of None \<Rightarrow> res = Inr x | Some e \<Rightarrow> flt_applied flt \<and> res = Inl (wrap e))"

named_theorems tx_effect \<open>effects of transactions that changed the store\<close>

lemma tryTx_effect [tx_effect]: "db' \<noteq> db \<Longrightarrow> tryTx db r k = (res, db') \<longleftrightarrow> (\<exists>x. r = Inr x \<and> k x = (res, db'))"
  by (cases r) auto

lemma commitTx_effect [tx_effect]:
  "db' \<noteq> db \<Longrightarrow> commitTx flt wrap x db db1 = (res, db') \<longleftrightarrow> db' = db1 \<and> commitAnswer flt wrap x res"
  by (auto simp: commitTx_def commitAnswer_def split: option.splits)

lemma commitAnswer_noFaults [simp]: "commitAnswer noFaults wrap x res \<longleftrightarrow> res = Inr x"
  by (simp add: commitAnswer_def noFaults_def)

text \<open>
  A statement outside a transaction commits by itself: when the connection fails, it may or may not have been applied.
\<close>

definition autoCommit :: "Faults \<Rightarrow> string \<Rightarrow> 's \<Rightarrow> ('a \<times> 's) result \<Rightarrow> 'a result \<times> 's" where
  "autoCommit flt label db r =
     (case r of Inl e \<Rightarrow> (Inl e, db)
      | Inr (x, db') \<Rightarrow> (case flt_stmt flt label of None \<Rightarrow> (Inr x, db') | Some e \<Rightarrow> (Inl e, if flt_applied flt then db' else db)))"

lemma autoCommit_Inr: "autoCommit flt label db r = (Inr x, db') \<longleftrightarrow> flt_stmt flt label = None \<and> r = Inr (x, db')"
  by (auto simp: autoCommit_def split: sum.splits option.splits)

lemma autoCommit_effect: "autoCommit flt label db r = (res, db') \<Longrightarrow> db' \<noteq> db \<Longrightarrow> \<exists>x. r = Inr (x, db')"
  by (auto simp: autoCommit_def split: sum.splits option.splits if_splits)

lemma autoCommit_noFaults [simp]: "autoCommit noFaults label db (Inr (x, db')) = (Inr x, db')" "autoCommit noFaults label db (Inl e) = (Inl e, db)"
  by (simp_all add: autoCommit_def noFaults_def)

text \<open>Text is ordered by the collation of the database, a parameter \<open>collate\<close> (negative, zero, positive).\<close>

type_synonym collation = "string \<Rightarrow> string \<Rightarrow> int"

section \<open>Invariants of a store\<close>

text \<open>A store that is only changed by its steps: what holds at first and is kept by every step holds in every reachable state.\<close>

locale stepped_store =
  fixes init :: 's and step :: "'s \<Rightarrow> 's \<Rightarrow> bool" and inv :: "'s \<Rightarrow> bool"
  assumes init_inv: "inv init" and step_inv: "\<lbrakk>inv s; step s s'\<rbrakk> \<Longrightarrow> inv s'"
begin

lemma steps_inv: "step\<^sup>*\<^sup>* s s' \<Longrightarrow> inv s \<Longrightarrow> inv s'"
  by (induction rule: rtranclp_induct) (auto intro: step_inv)

lemma reachable_inv: "step\<^sup>*\<^sup>* init s \<Longrightarrow> inv s"
  using steps_inv init_inv by blast

text \<open>A relation that every step from a good state keeps, and that composes, holds along every run.\<close>

lemma steps_rel:
  assumes "step\<^sup>*\<^sup>* s s'" "inv s" "\<And>x. R x x" "\<And>x y z. R x y \<Longrightarrow> R y z \<Longrightarrow> R x z" "\<And>x y. inv x \<Longrightarrow> step x y \<Longrightarrow> R x y"
  shows "R s s'"
  using assms(1)
proof (induction rule: rtranclp_induct)
  case (step y z)
  then show ?case using assms(2,4,5) steps_inv by blast
qed (rule assms(3))

end

end
