(* ===== verification/Ticket_Store.thy ===== *)
theory Ticket_Store
  imports Database
begin

text \<open>
  \<^verbatim>\<open>internal/postgres/tickets.go\<close>: the transactions that accept, cancel, read, expire and assign tickets, each writing its
  outbox events in the same transaction. \<open>digest\<close> is the request digest of \<open>Tournament_Model\<close>, \<open>clock\<close> the database clock
  when a lease is checked, \<open>flt\<close> the failures injected into the statements. A transaction is atomic here: the row
  locks that make it so (\<^verbatim>\<open>FOR UPDATE\<close>) are not modelled.
\<close>

section \<open>Outbox events\<close>

definition outboxAggregateTicket :: string where "outboxAggregateTicket = ''ticket''"
definition outboxAggregateRoom :: string where "outboxAggregateRoom = ''room''"
definition outboxTicketAccepted :: string where "outboxTicketAccepted = ''ticket.accepted''"
definition outboxTicketCancelled :: string where "outboxTicketCancelled = ''ticket.cancelled''"
definition outboxTicketAssigned :: string where "outboxTicketAssigned = ''ticket.assigned''"
definition outboxTicketExpired :: string where "outboxTicketExpired = ''ticket.expired''"
definition outboxRoomFilled :: string where "outboxRoomFilled = ''room.filled''"

lemmas outbox_names = outboxAggregateTicket_def outboxAggregateRoom_def outboxTicketAccepted_def outboxTicketCancelled_def
  outboxTicketAssigned_def outboxTicketExpired_def outboxRoomFilled_def

record outboxEvent =
  ob_ID :: string
  ob_AggregateType :: string
  ob_AggregateID :: string
  ob_AggregateVersion :: int
  ob_Type :: string
  ob_Payload :: eventPayload
  ob_OccurredAt :: time

definition outboxClash :: "OutboxRow \<Rightarrow> OutboxRow \<Rightarrow> bool" where
  "outboxClash a b \<longleftrightarrow> ox_event_id a = ox_event_id b \<or>
     ox_aggregate_type a = ox_aggregate_type b \<and> ox_aggregate_id a = ox_aggregate_id b \<and>
     ox_aggregate_version a = ox_aggregate_version b \<and> ox_event_type a = ox_event_type b"

definition outboxRow :: "outboxEvent \<Rightarrow> OutboxRow" where
  "outboxRow e = \<lparr>ox_event_id = ob_ID e, ox_aggregate_type = ob_AggregateType e, ox_aggregate_id = ob_AggregateID e,
     ox_aggregate_version = ob_AggregateVersion e, ox_event_type = ob_Type e, ox_payload = ob_Payload e,
     ox_occurred_at = pgTime (ob_OccurredAt e), ox_available_at = pgTime (ob_OccurredAt e), ox_attempt_count = 0,
     ox_claimed_by = None, ox_claimed_until = None, ox_delivered_at = None, ox_last_error = None,
     ox_dead_lettered_at = None, ox_dead_letter_reason = None\<rparr>"

definition insertOutbox :: "Database \<Rightarrow> outboxEvent \<Rightarrow> Database result" where
  "insertOutbox db event =
     rbind (insertRow outboxChecks outboxClash (\<lambda>_. True) (outboxRow event) (db_outbox db)) (\<lambda>rows. Inr (db\<lparr>db_outbox := rows\<rparr>))"

definition insertShadowWork :: "Database \<Rightarrow> string \<Rightarrow> string \<Rightarrow> time \<Rightarrow> int \<Rightarrow> Database result" where
  "insertShadowWork db kind sourceID timelinePosition priority =
     (if \<not> (kind = ''room'' \<and> priority = 0 \<or> kind = ''result'' \<and> priority = 1) \<or> sourceID = '''' then Inl checkViolation
      else if list_ex (\<lambda>w. sw_work_kind w = kind \<and> sw_source_id w = sourceID) (db_shadow_work db) then Inr db
      else Inr (db\<lparr>db_shadow_work := db_shadow_work db @
        [\<lparr>sw_work_kind = kind, sw_source_id = sourceID, sw_timeline_position = pgTime timelinePosition, sw_ordering_priority = priority,
          sw_next_attempt_at = pgTime timelinePosition, sw_claim_token = None, sw_claimed_until = None, sw_attempt_count = 0,
          sw_processed_at = None, sw_skip_reason = None\<rparr>]\<rparr>))"

section \<open>Reading tickets, rooms and assignments\<close>

record storedTicket =
  st_ticket :: Ticket
  st_requestDigest :: string
  st_claimToken :: "string option"
  st_claimedUntil :: "time option"
  st_attemptCount :: int

definition scanStoredTicket :: "TicketRow \<Rightarrow> storedTicket" where
  "scanStoredTicket row = \<lparr>st_ticket = tkr_ticket row, st_requestDigest = tkr_request_digest row,
     st_claimToken = tkr_claim_token row, st_claimedUntil = tkr_claimed_until row, st_attemptCount = tkr_attempt_count row\<rparr>"

definition loadTicketByEntry :: "Database \<Rightarrow> string \<Rightarrow> storedTicket result" where
  "loadTicketByEntry db entryID =
     rbind (queryRow (filter (\<lambda>r. tk_EntryID (tkr_ticket r) = entryID) (db_tickets db))) (\<lambda>row. Inr (scanStoredTicket row))"

definition loadTicketByID :: "Database \<Rightarrow> string \<Rightarrow> storedTicket result" where
  "loadTicketByID db ticketID =
     rbind (queryRow (filter (\<lambda>r. tkr_id r = ticketID) (db_tickets db))) (\<lambda>row. Inr (scanStoredTicket row))"

record assignmentRoom =
  ar_id :: string
  ar_tournamentID :: string
  ar_tournamentVersion :: string
  ar_ratingModelVersion :: string
  ar_status :: RoomStatus
  ar_capacity :: int
  ar_version :: int
  ar_fillDeadline :: time

definition lockAssignmentRoom :: "Database \<Rightarrow> string \<Rightarrow> assignmentRoom result" where
  "lockAssignmentRoom db roomID =
     rbind (queryRow (filter (\<lambda>r. rmr_room_id r = roomID) (db_rooms db))) (\<lambda>r.
       Inr \<lparr>ar_id = rmr_room_id r, ar_tournamentID = rmr_tournament_id r, ar_tournamentVersion = rmr_tournament_version r,
            ar_ratingModelVersion = rmr_rating_model_version r, ar_status = rmr_status r, ar_capacity = rmr_capacity r,
            ar_version = rmr_aggregate_version r, ar_fillDeadline = rmr_fill_deadline r\<rparr>)"

record storedAssignment =
  sa_assignment :: Assignment
  sa_requestDigest :: string

definition assignmentOf :: "MembershipRow \<times> SessionRow \<Rightarrow> storedAssignment" where
  "assignmentOf = (\<lambda>(rm, s).
     \<lparr>sa_assignment = \<lparr>as_AssignmentID = mb_assignment_id rm, as_TicketID = mb_ticket_id rm, as_RoomID = mb_room_id rm,
        as_SessionID = sn_session_id s, as_PlayerID = mb_player_id rm, as_Seat = mb_seat rm, as_AssignedAt = mb_assigned_at rm,
        as_TicketVersion = mb_ticket_version rm, as_RoomVersion = mb_room_version rm, as_RoomFilled = mb_room_filled rm,
        as_ResultDeadline = mb_result_deadline rm, as_Replay = False\<rparr>,
      sa_requestDigest = mb_request_digest rm\<rparr>)"

text \<open>The join of memberships with sessions on the ticket.\<close>

definition assignmentRows :: "Database \<Rightarrow> (MembershipRow \<times> SessionRow) list" where
  "assignmentRows db = filter (\<lambda>(rm, s). sn_ticket_id s = mb_ticket_id rm) (List.product (db_memberships db) (db_sessions db))"

definition loadAssignmentByIdentity :: "Database \<Rightarrow> string \<Rightarrow> storedAssignment result" where
  "loadAssignmentByIdentity db assignmentID =
     rbind (queryRow (filter (\<lambda>(rm, s). mb_assignment_id rm = assignmentID) (assignmentRows db))) (\<lambda>row. Inr (assignmentOf row))"

definition loadAssignmentByTicket :: "Database \<Rightarrow> string \<Rightarrow> storedAssignment result" where
  "loadAssignmentByTicket db ticketID =
     rbind (queryRow (filter (\<lambda>(rm, s). mb_ticket_id rm = ticketID) (assignmentRows db))) (\<lambda>row. Inr (assignmentOf row))"

definition ownsActiveClaim :: "Faults \<Rightarrow> time \<Rightarrow> storedTicket \<Rightarrow> string \<Rightarrow> bool result" where
  "ownsActiveClaim flt clock stored claimToken =
     (case (st_claimToken stored, st_claimedUntil stored) of
        (Some token, Some until) \<Rightarrow> if token \<noteq> claimToken then Inr False else stmt flt ''active claim'' (Inr (clock < until))
      | _ \<Rightarrow> Inr False)"

section \<open>Accepting a ticket\<close>

definition pgEstimate :: "Estimate \<Rightarrow> Estimate" where
  "pgEstimate e = e\<lparr>est_UpdatedAt := pgTime (est_UpdatedAt e)\<rparr>"

definition newTicketRow :: "Ticket \<Rightarrow> string \<Rightarrow> TicketRow" where
  "newTicketRow ticket dg =
     \<lparr>tkr_ticket = ticket\<lparr>tk_RequestedAt := pgTime (tk_RequestedAt ticket), tk_AssignedAt := None, tk_CancelledAt := None, tk_ExpiredAt := None,
        tk_SnapshotAt := pgTime (tk_SnapshotAt ticket), tk_RatingSnapshot := pgEstimate (tk_RatingSnapshot ticket)\<rparr>,
      tkr_request_digest = dg, tkr_next_attempt_at = Some (pgTime (tk_RequestedAt ticket)), tkr_claim_token = None,
      tkr_claimed_until = None, tkr_attempt_count = 0\<rparr>"

definition ticketClash :: "TicketRow \<Rightarrow> TicketRow \<Rightarrow> bool" where
  "ticketClash a b \<longleftrightarrow> tkr_id a = tkr_id b \<or> tk_EntryID (tkr_ticket a) = tk_EntryID (tkr_ticket b)"

definition configExists :: "Database \<Rightarrow> TicketRow \<Rightarrow> bool" where
  "configExists db row \<longleftrightarrow> list_ex (\<lambda>c. cf_tournament_id c = tk_TournamentID (tkr_ticket row) \<and>
     cf_version c = tk_TournamentVersion (tkr_ticket row) \<and> cf_rating_model_version c = est_ModelVersion (tk_RatingSnapshot (tkr_ticket row)))
     (db_configs db)"

text \<open>
  \<^verbatim>\<open>INSERT ... ON CONFLICT DO NOTHING\<close>: a row that clashes is skipped before its foreign key is looked at. The driver refuses
  an unsigned counter that does not fit the column.
\<close>

definition bigint :: "64 word \<Rightarrow> bool" where "bigint w \<longleftrightarrow> w \<le> 2 ^ 63 - 1"

definition encodeError :: goerr where "encodeError = ErrorsNew ''value is greater than maximum value for int64''"

definition insertTicket :: "Database \<Rightarrow> TicketRow \<Rightarrow> (bool \<times> Database) result" where
  "insertTicket db row =
     (if \<not> bigint (est_Games (tk_RatingSnapshot (tkr_ticket row))) then Inl encodeError
      else if \<not> ticketChecks row then Inl checkViolation
      else if list_ex (ticketClash row) (db_tickets db) then Inr (False, db)
      else if \<not> configExists db row then Inl foreignKeyViolation
      else Inr (True, db\<lparr>db_tickets := db_tickets db @ [row]\<rparr>))"

definition acceptInsertError :: "goerr \<Rightarrow> goerr" where
  "acceptInsertError err = (if pgCode err = Some ''23503'' then ErrTournamentNotFound else Errorf ''insert ticket: %w'' [] (Some err))"

definition AcceptTicket :: "(digestInput \<Rightarrow> string result) \<Rightarrow> Faults \<Rightarrow> (Database, AcceptTicketCommand, TicketMutation) storeOp" where
  "AcceptTicket digest flt db command =
     tryTx db (AcceptTicketCommand_RequestDigest digest command) (\<lambda>dg.
     tryTx db (wrapR ''begin ticket acceptance: %w'' [] (stmt flt ''begin'' (Inr ()))) (\<lambda>_.
     let ticket = (atc_Ticket command)\<lparr>tk_AggregateVersion := 1\<rparr> in
     tryTx db (mapErr acceptInsertError (stmt flt ''insert ticket'' (insertTicket db (newTicketRow ticket dg)))) (\<lambda>(inserted, db1).
     if \<not> inserted then
       (case stmt flt ''load accepted ticket'' (loadTicketByEntry db1 (tk_EntryID ticket)) of
          Inl err \<Rightarrow> if errors_Is err ErrNoRows then (Inl ErrIdempotencyConflict, db)
                     else (Inl (Errorf ''load accepted ticket: %w'' [] (Some err)), db)
        | Inr stored \<Rightarrow>
            if st_requestDigest stored \<noteq> dg then (Inl ErrIdempotencyConflict, db)
            else commitTx flt (\<lambda>e. Errorf ''commit ticket replay: %w'' [] (Some e))
                   \<lparr>tm_Ticket = st_ticket stored, tm_Changed = False, tm_Replay = True\<rparr> db db1)
     else
     tryTx db (wrapR ''encode ticket acceptance event: %w'' [] (stmt flt ''encode event'' (Inr ()))) (\<lambda>_.
     tryTx db (mapErr (\<lambda>err. mapConflict err ErrIdempotencyConflict ''insert ticket acceptance event'') (stmt flt ''insert event'' (insertOutbox db1
       \<lparr>ob_ID = atc_EventID command, ob_AggregateType = outboxAggregateTicket, ob_AggregateID = tk_ID ticket,
        ob_AggregateVersion = tk_AggregateVersion ticket, ob_Type = outboxTicketAccepted,
        ob_Payload = AcceptedPayload (tk_ID ticket) (tk_EntryID ticket) (tk_PlayerID ticket) (tk_TournamentID ticket)
          (tk_TournamentVersion ticket) (tk_Status ticket) (tk_RequestedAt ticket),
        ob_OccurredAt = tk_RequestedAt ticket\<rparr>))) (\<lambda>db2.
     commitTx flt (\<lambda>e. Errorf ''commit ticket acceptance: %w'' [] (Some e))
       \<lparr>tm_Ticket = ticket, tm_Changed = True, tm_Replay = False\<rparr> db db2)))))"

section \<open>Cancelling and expiring a ticket\<close>

definition commandClash :: "CommandRow \<Rightarrow> CommandRow \<Rightarrow> bool" where
  "commandClash a b \<longleftrightarrow> cm_ticket_id a = cm_ticket_id b \<and> cm_command_id a = cm_command_id b"

definition insertCommand :: "Database \<Rightarrow> CommandRow \<Rightarrow> Database result" where
  "insertCommand db row =
     rbind (insertRow commandChecks commandClash (\<lambda>r. list_ex (\<lambda>t. tkr_id t = cm_ticket_id r) (db_tickets db)) row (db_commands db))
       (\<lambda>rows. Inr (db\<lparr>db_commands := rows\<rparr>))"

definition loadCommandDigest :: "Database \<Rightarrow> string \<Rightarrow> string \<Rightarrow> string result" where
  "loadCommandDigest db ticketID commandID =
     rbind (queryRow (filter (\<lambda>c. cm_ticket_id c = ticketID \<and> cm_command_id c = commandID) (db_commands db))) (\<lambda>c. Inr (cm_request_digest c))"

text \<open>The update of a ticket that leaves the queue: status, its timestamp, the version, and no schedule or claim any more.\<close>

definition leaveQueue :: "(Ticket \<Rightarrow> Ticket) \<Rightarrow> int \<Rightarrow> TicketRow \<Rightarrow> TicketRow" where
  "leaveQueue change version row =
     row\<lparr>tkr_ticket := (change (tkr_ticket row))\<lparr>tk_AggregateVersion := version\<rparr>,
         tkr_next_attempt_at := None, tkr_claim_token := None, tkr_claimed_until := None\<rparr>"

definition markCancelled :: "time \<Rightarrow> Ticket \<Rightarrow> Ticket" where
  "markCancelled instant t = t\<lparr>tk_Status := TicketCancelled, tk_CancelledAt := Some instant\<rparr>"

definition markExpired :: "time \<Rightarrow> Ticket \<Rightarrow> Ticket" where
  "markExpired instant t = t\<lparr>tk_Status := TicketExpired, tk_ExpiredAt := Some instant\<rparr>"

definition markAssigned :: "time \<Rightarrow> Ticket \<Rightarrow> Ticket" where
  "markAssigned instant t = t\<lparr>tk_Status := TicketAssigned, tk_AssignedAt := Some instant\<rparr>"

definition updateTicket :: "Database \<Rightarrow> string \<Rightarrow> (TicketRow \<Rightarrow> TicketRow) \<Rightarrow> Database result" where
  "updateTicket db ticketID change =
     rbind (updateRows (\<lambda>r. tkr_id r = ticketID) change ticketChecks (db_tickets db)) (\<lambda>(rows, n). Inr (db\<lparr>db_tickets := rows\<rparr>))"

definition recordCancellation ::
    "Faults \<Rightarrow> Database \<Rightarrow> Database \<Rightarrow> CancelTicketCommand \<Rightarrow> string \<Rightarrow> Ticket \<Rightarrow> bool \<Rightarrow> TicketMutation result \<times> Database" where
  "recordCancellation flt db db1 command dg ticket changed =
     tryTx db (mapErr (\<lambda>err. mapConflict err ErrIdempotencyConflict ''record cancellation command'') (stmt flt ''record command''
       (insertCommand db1 \<lparr>cm_ticket_id = ctc_TicketID command, cm_command_id = ctc_CommandID command, cm_command_type = ''cancel'',
          cm_request_digest = dg, cm_resulting_status = TicketCancelled, cm_occurred_at = pgTime (ctc_CancelledAt command)\<rparr>))) (\<lambda>db2.
     tryTx db (if changed then
         rbind (wrapR ''encode ticket cancellation event: %w'' [] (stmt flt ''encode event'' (Inr ()))) (\<lambda>_.
         mapErr (\<lambda>err. mapConflict err ErrIdempotencyConflict ''insert ticket cancellation event'') (stmt flt ''insert event'' (insertOutbox db2
           \<lparr>ob_ID = ctc_EventID command, ob_AggregateType = outboxAggregateTicket, ob_AggregateID = tk_ID ticket,
            ob_AggregateVersion = tk_AggregateVersion ticket, ob_Type = outboxTicketCancelled,
            ob_Payload = CancelledPayload (tk_ID ticket) (tk_Status ticket) (ctc_CancelledAt command), ob_OccurredAt = ctc_CancelledAt command\<rparr>)))
       else Inr db2) (\<lambda>db3.
     commitTx flt (\<lambda>e. Errorf ''commit ticket cancellation: %w'' [] (Some e))
       \<lparr>tm_Ticket = ticket, tm_Changed = changed, tm_Replay = False\<rparr> db db3))"

definition cancelStored ::
    "Faults \<Rightarrow> Database \<Rightarrow> CancelTicketCommand \<Rightarrow> string \<Rightarrow> Ticket \<Rightarrow> TicketMutation result \<times> Database" where
  "cancelStored flt db command dg stored =
     (case tk_Status stored of
        TicketQueued \<Rightarrow>
          let version = incInt64 (tk_AggregateVersion stored) in
          tryTx db (wrapR ''cancel ticket: %w'' [] (stmt flt ''update ticket'' (updateTicket db (ctc_TicketID command)
            (leaveQueue (markCancelled (pgTime (ctc_CancelledAt command))) version)))) (\<lambda>db1.
          recordCancellation flt db db1 command dg
            ((markCancelled (ctc_CancelledAt command) stored)\<lparr>tk_AggregateVersion := version\<rparr>) True)
      | TicketCancelled \<Rightarrow> recordCancellation flt db db command dg stored False
      | TicketAssigned \<Rightarrow> (Inl ErrTicketNotQueued, db)
      | TicketExpired \<Rightarrow> (Inl ErrTicketNotQueued, db)
      | TicketStatusOther s \<Rightarrow> (Inl (ErrorsNew ''ticket has an unknown status''), db))"

definition CancelTicket :: "(digestInput \<Rightarrow> string result) \<Rightarrow> Faults \<Rightarrow> (Database, CancelTicketCommand, TicketMutation) storeOp" where
  "CancelTicket digest flt db command =
     tryTx db (CancelTicketCommand_RequestDigest digest command) (\<lambda>dg.
     tryTx db (wrapR ''begin ticket cancellation: %w'' [] (stmt flt ''begin'' (Inr ()))) (\<lambda>_.
     tryTx db (mapErr (\<lambda>err. if errors_Is err ErrNoRows then ErrTicketNotFound else Errorf ''lock ticket for cancellation: %w'' [] (Some err))
       (stmt flt ''lock ticket'' (loadTicketByID db (ctc_TicketID command)))) (\<lambda>stored.
     case stmt flt ''read command'' (loadCommandDigest db (ctc_TicketID command) (ctc_CommandID command)) of
       Inr storedDigest \<Rightarrow>
         if storedDigest \<noteq> dg then (Inl ErrIdempotencyConflict, db)
         else commitTx flt (\<lambda>e. Errorf ''commit cancellation replay: %w'' [] (Some e))
                \<lparr>tm_Ticket = st_ticket stored, tm_Changed = False, tm_Replay = True\<rparr> db db
     | Inl err \<Rightarrow>
         if \<not> errors_Is err ErrNoRows then (Inl (Errorf ''read cancellation command: %w'' [] (Some err)), db)
         else cancelStored flt db command dg (st_ticket stored))))"

definition GetTicket :: "Faults \<Rightarrow> (Database, string, TicketState) storeOp" where
  "GetTicket flt db ticketID =
     tryTx db (mapErr (\<lambda>err. if errors_Is err ErrNoRows then ErrTicketNotFound else Errorf ''read ticket: %w'' [] (Some err))
       (stmt flt ''read ticket'' (loadTicketByID db ticketID))) (\<lambda>stored.
     if tk_Status (st_ticket stored) \<noteq> TicketAssigned then (Inr \<lparr>ts_Ticket = st_ticket stored, ts_Assignment = None\<rparr>, db)
     else tryTx db (wrapR ''read ticket assignment: %w'' [] (stmt flt ''read assignment'' (loadAssignmentByTicket db ticketID))) (\<lambda>a.
       (Inr \<lparr>ts_Ticket = st_ticket stored, ts_Assignment = Some (sa_assignment a)\<rparr>, db)))"

definition expireStored ::
    "Faults \<Rightarrow> Database \<Rightarrow> ExpireTicketCommand \<Rightarrow> string \<Rightarrow> Ticket \<Rightarrow> TicketMutation result \<times> Database" where
  "expireStored flt db command dg stored =
     (let version = incInt64 (tk_AggregateVersion stored);
          ticket = (markExpired (etc_ExpiredAt command) stored)\<lparr>tk_AggregateVersion := version\<rparr> in
      tryTx db (wrapR ''expire ticket: %w'' [] (stmt flt ''update ticket'' (updateTicket db (etc_TicketID command)
        (leaveQueue (markExpired (pgTime (etc_ExpiredAt command))) version)))) (\<lambda>db1.
      tryTx db (mapErr (\<lambda>err. mapConflict err ErrIdempotencyConflict ''record expiry command'') (stmt flt ''record command''
        (insertCommand db1 \<lparr>cm_ticket_id = etc_TicketID command, cm_command_id = etc_CommandID command, cm_command_type = ''expire'',
           cm_request_digest = dg, cm_resulting_status = TicketExpired, cm_occurred_at = pgTime (etc_ExpiredAt command)\<rparr>))) (\<lambda>db2.
      tryTx db (wrapR ''encode ticket expiry event: %w'' [] (stmt flt ''encode event'' (Inr ()))) (\<lambda>_.
      tryTx db (mapErr (\<lambda>err. mapConflict err ErrIdempotencyConflict ''insert ticket expiry event'') (stmt flt ''insert event'' (insertOutbox db2
        \<lparr>ob_ID = etc_EventID command, ob_AggregateType = outboxAggregateTicket, ob_AggregateID = tk_ID ticket,
         ob_AggregateVersion = tk_AggregateVersion ticket, ob_Type = outboxTicketExpired,
         ob_Payload = ExpiredPayload (tk_ID ticket) (tk_Status ticket) (etc_Deadline command) (etc_ExpiredAt command),
         ob_OccurredAt = etc_ExpiredAt command\<rparr>))) (\<lambda>db3.
      commitTx flt (\<lambda>e. Errorf ''commit ticket expiry: %w'' [] (Some e))
        \<lparr>tm_Ticket = ticket, tm_Changed = True, tm_Replay = False\<rparr> db db3)))))"

definition ExpireTicket :: "(digestInput \<Rightarrow> string result) \<Rightarrow> time \<Rightarrow> Faults \<Rightarrow> (Database, ExpireTicketCommand, TicketMutation) storeOp" where
  "ExpireTicket digest clock flt db command =
     tryTx db (ExpireTicketCommand_RequestDigest digest command) (\<lambda>dg.
     tryTx db (wrapR ''begin ticket expiry: %w'' [] (stmt flt ''begin'' (Inr ()))) (\<lambda>_.
     tryTx db (mapErr (\<lambda>err. if errors_Is err ErrNoRows then ErrTicketNotFound else Errorf ''lock ticket for expiry: %w'' [] (Some err))
       (stmt flt ''lock ticket'' (loadTicketByID db (etc_TicketID command)))) (\<lambda>stored.
     case stmt flt ''read command'' (loadCommandDigest db (etc_TicketID command) (etc_CommandID command)) of
       Inr storedDigest \<Rightarrow>
         if storedDigest \<noteq> dg then (Inl ErrIdempotencyConflict, db)
         else commitTx flt (\<lambda>e. Errorf ''commit expiry replay: %w'' [] (Some e))
                \<lparr>tm_Ticket = st_ticket stored, tm_Changed = False, tm_Replay = True\<rparr> db db
     | Inl err \<Rightarrow>
         if \<not> errors_Is err ErrNoRows then (Inl (Errorf ''read expiry command: %w'' [] (Some err)), db)
         else if tk_Status (st_ticket stored) \<noteq> TicketQueued then (Inl ErrTicketNotQueued, db)
         else tryTx db (wrapR ''verify ticket expiry claim: %w'' [] (ownsActiveClaim flt clock stored (etc_ClaimToken command))) (\<lambda>claimOwned.
           if \<not> claimOwned then (Inl ErrTicketClaimLost, db)
           else expireStored flt db command dg (st_ticket stored)))))"

section \<open>Assigning a ticket\<close>

definition insertAssignmentEvents :: "Faults \<Rightarrow> Database \<Rightarrow> AssignTicketCommand \<Rightarrow> Assignment \<Rightarrow> Database result" where
  "insertAssignmentEvents flt db command assignment =
     rbind (wrapR ''encode ticket assignment event: %w'' [] (stmt flt ''encode ticket event'' (Inr ()))) (\<lambda>_.
     rbind (mapErr (\<lambda>err. mapConflict err ErrAssignmentConflict ''insert ticket assignment event'') (stmt flt ''insert ticket event'' (insertOutbox db
       \<lparr>ob_ID = gtc_TicketEventID command, ob_AggregateType = outboxAggregateTicket, ob_AggregateID = as_TicketID assignment,
        ob_AggregateVersion = as_TicketVersion assignment, ob_Type = outboxTicketAssigned,
        ob_Payload = AssignedPayload (as_TicketID assignment) (as_RoomID assignment) (as_SessionID assignment) (as_PlayerID assignment)
          (as_Seat assignment) (as_AssignedAt assignment),
        ob_OccurredAt = as_AssignedAt assignment\<rparr>))) (\<lambda>db1.
     if \<not> as_RoomFilled assignment then Inr db1
     else rbind (wrapR ''encode room filled event: %w'' [] (stmt flt ''encode room event'' (Inr ()))) (\<lambda>_.
       mapErr (\<lambda>err. mapConflict err ErrAssignmentConflict ''insert room filled event'') (stmt flt ''insert room event'' (insertOutbox db1
         \<lparr>ob_ID = gtc_RoomFilledEventID command, ob_AggregateType = outboxAggregateRoom, ob_AggregateID = as_RoomID assignment,
          ob_AggregateVersion = as_RoomVersion assignment, ob_Type = outboxRoomFilled,
          ob_Payload = RoomFilledPayload (as_RoomID assignment) (as_AssignedAt assignment) (the (as_ResultDeadline assignment)),
          ob_OccurredAt = as_AssignedAt assignment\<rparr>)))))"

definition roomMembers :: "Database \<Rightarrow> string \<Rightarrow> MembershipRow list" where
  "roomMembers db roomID = filter (\<lambda>m. mb_room_id m = roomID) (db_memberships db)"

definition inspectMemberships :: "Database \<Rightarrow> string \<Rightarrow> string \<Rightarrow> (int \<times> bool) result" where
  "inspectMemberships db roomID playerID =
     Inr (int (length (roomMembers db roomID)), list_ex (\<lambda>m. mb_player_id m = playerID) (roomMembers db roomID))"

definition selectSeat :: "Database \<Rightarrow> string \<Rightarrow> int \<Rightarrow> int result" where
  "selectSeat db roomID capacity =
     queryRow (filter (\<lambda>candidate. \<not> list_ex (\<lambda>m. mb_seat m = candidate) (roomMembers db roomID)) [1..capacity])"

definition fillRoom :: "Database \<Rightarrow> string \<Rightarrow> int \<Rightarrow> time \<Rightarrow> (time \<times> Database) result" where
  "fillRoom db roomID version assignedAt =
     rbind (queryRow (filter (\<lambda>(r, c). rmr_room_id r = roomID \<and> cf_tournament_id c = rmr_tournament_id r \<and> cf_version c = rmr_tournament_version r)
              (List.product (db_rooms db) (db_configs db)))) (\<lambda>(r, c).
     let deadline = pgTime assignedAt + cf_result_timeout_ms c * millisecond in
     rbind (updateRows (\<lambda>x. rmr_room_id x = roomID)
              (\<lambda>x. x\<lparr>rmr_status := RoomCollecting, rmr_aggregate_version := version, rmr_filled_at := Some (pgTime assignedAt), rmr_result_deadline := Some deadline\<rparr>)
              roomChecks (db_rooms db)) (\<lambda>(rows, n).
     Inr (deadline, db\<lparr>db_rooms := rows\<rparr>)))"

definition advanceRoom :: "Database \<Rightarrow> string \<Rightarrow> int \<Rightarrow> Database result" where
  "advanceRoom db roomID version =
     rbind (updateRows (\<lambda>x. rmr_room_id x = roomID) (\<lambda>x. x\<lparr>rmr_aggregate_version := version\<rparr>) roomChecks (db_rooms db))
       (\<lambda>(rows, n). Inr (db\<lparr>db_rooms := rows\<rparr>))"

definition membershipClash :: "MembershipRow \<Rightarrow> MembershipRow \<Rightarrow> bool" where
  "membershipClash a b \<longleftrightarrow> mb_room_id a = mb_room_id b \<and> mb_seat a = mb_seat b \<or> mb_ticket_id a = mb_ticket_id b \<or>
     mb_room_id a = mb_room_id b \<and> mb_player_id a = mb_player_id b \<or> mb_assignment_id a = mb_assignment_id b"

definition insertMembership :: "Database \<Rightarrow> MembershipRow \<Rightarrow> Database result" where
  "insertMembership db row =
     rbind (insertRow membershipChecks membershipClash
         (\<lambda>m. list_ex (\<lambda>r. rmr_room_id r = mb_room_id m \<and> rmr_capacity r = mb_room_capacity m) (db_rooms db) \<and>
              list_ex (\<lambda>t. tkr_id t = mb_ticket_id m \<and> tk_PlayerID (tkr_ticket t) = mb_player_id m) (db_tickets db)) row (db_memberships db))
       (\<lambda>rows. Inr (db\<lparr>db_memberships := rows\<rparr>))"

definition sessionClash :: "SessionRow \<Rightarrow> SessionRow \<Rightarrow> bool" where
  "sessionClash a b \<longleftrightarrow> sn_session_id a = sn_session_id b \<or> sn_ticket_id a = sn_ticket_id b"

definition insertSession :: "Database \<Rightarrow> SessionRow \<Rightarrow> Database result" where
  "insertSession db row =
     rbind (insertRow sessionChecks sessionClash
         (\<lambda>s. list_ex (\<lambda>m. mb_room_id m = sn_room_id s \<and> mb_seat m = sn_seat s \<and> mb_ticket_id m = sn_ticket_id s \<and> mb_player_id m = sn_player_id s)
            (db_memberships db)) row (db_sessions db))
       (\<lambda>rows. Inr (db\<lparr>db_sessions := rows\<rparr>))"

text \<open>The writes of an assignment, once the seat is chosen.\<close>

definition assignSeat ::
    "Faults \<Rightarrow> Database \<Rightarrow> AssignTicketCommand \<Rightarrow> string \<Rightarrow> Ticket \<Rightarrow> assignmentRoom \<Rightarrow> int \<Rightarrow> int \<Rightarrow> Assignment result \<times> Database" where
  "assignSeat flt db command dg ticket room members seat =
     (let ticketVersion = incInt64 (tk_AggregateVersion ticket) in
      tryTx db (wrapR ''assign ticket: %w'' [] (stmt flt ''update ticket'' (updateTicket db (tk_ID ticket)
        (leaveQueue (markAssigned (pgTime (gtc_AssignedAt command))) ticketVersion)))) (\<lambda>db1.
      let roomFilled = (members + 1 = ar_capacity room); roomVersion = incInt64 (ar_version room) in
      tryTx db (if roomFilled
          then rbind (wrapR ''fill assigned room: %w'' [] (stmt flt ''update room'' (fillRoom db1 (ar_id room) roomVersion (gtc_AssignedAt command))))
                 (\<lambda>(deadline, db2). Inr (Some deadline, db2))
          else rbind (wrapR ''advance room version: %w'' [] (stmt flt ''update room'' (advanceRoom db1 (ar_id room) roomVersion)))
                 (\<lambda>db2. Inr (None, db2))) (\<lambda>(resultDeadline, db2).
      tryTx db (mapErr (\<lambda>err. mapConflict err ErrAssignmentConflict ''insert room membership'') (stmt flt ''insert membership'' (insertMembership db2
        \<lparr>mb_room_id = ar_id room, mb_room_capacity = ar_capacity room, mb_ticket_id = tk_ID ticket, mb_player_id = tk_PlayerID ticket,
         mb_seat = seat, mb_assigned_at = pgTime (gtc_AssignedAt command), mb_assignment_id = gtc_AssignmentID command, mb_request_digest = dg,
         mb_ticket_version = ticketVersion, mb_room_version = roomVersion, mb_room_filled = roomFilled,
         mb_result_deadline = map_option pgTime resultDeadline\<rparr>))) (\<lambda>db3.
      tryTx db (mapErr (\<lambda>err. mapConflict err ErrAssignmentConflict ''insert allocated session'') (stmt flt ''insert session'' (insertSession db3
        \<lparr>sn_session_id = gtc_SessionID command, sn_ticket_id = tk_ID ticket, sn_room_id = ar_id room, sn_player_id = tk_PlayerID ticket,
         sn_seat = seat, sn_status = SessionAllocated, sn_allocated_at = pgTime (gtc_AssignedAt command), sn_started_at = None,
         sn_submitted_at = None, sn_forfeited_at = None\<rparr>))) (\<lambda>db4.
      let assignment = \<lparr>as_AssignmentID = gtc_AssignmentID command, as_TicketID = tk_ID ticket, as_RoomID = ar_id room,
            as_SessionID = gtc_SessionID command, as_PlayerID = tk_PlayerID ticket, as_Seat = seat, as_AssignedAt = gtc_AssignedAt command,
            as_TicketVersion = ticketVersion, as_RoomVersion = roomVersion, as_RoomFilled = roomFilled, as_ResultDeadline = resultDeadline,
            as_Replay = False\<rparr> in
      tryTx db (insertAssignmentEvents flt db4 command assignment) (\<lambda>db5.
      tryTx db (if roomFilled then wrapR ''insert rating shadow work: %w'' [] (stmt flt ''insert shadow work''
            (insertShadowWork db5 ''room'' (ar_id room) (gtc_AssignedAt command) 0)) else Inr db5) (\<lambda>db6.
      commitTx flt (\<lambda>e. mapConflict e ErrAssignmentConflict ''commit ticket assignment'') assignment db db6)))))))"

text \<open>The checks on a queued ticket and its room that come before the writes.\<close>

definition assignStored ::
    "Faults \<Rightarrow> time \<Rightarrow> Database \<Rightarrow> AssignTicketCommand \<Rightarrow> string \<Rightarrow> storedTicket \<Rightarrow> Assignment result \<times> Database" where
  "assignStored flt clock db command dg stored =
     (let ticket = st_ticket stored in
      if tk_Status ticket \<noteq> TicketQueued
      then (Inl (if tk_Status ticket = TicketAssigned then ErrAssignmentConflict else ErrTicketNotQueued), db)
      else if Before (gtc_AssignedAt command) (tk_RequestedAt ticket)
      then (Inl (ErrorsNew ''assignment cannot precede ticket acceptance''), db)
      else tryTx db (if gtc_ClaimToken command \<noteq> ''''
                     then wrapR ''verify ticket assignment claim: %w'' [] (ownsActiveClaim flt clock stored (gtc_ClaimToken command)) else Inr True) (\<lambda>claimOwned.
      if \<not> claimOwned then (Inl ErrTicketClaimLost, db)
      else tryTx db (mapErr (\<lambda>err. if errors_Is err ErrNoRows then ErrRoomNotAvailable else Errorf ''lock room for assignment: %w'' [] (Some err))
        (stmt flt ''lock room'' (lockAssignmentRoom db (gtc_RoomID command)))) (\<lambda>room.
      if ar_status room \<noteq> RoomForming \<or> ar_version room \<noteq> gtc_ExpectedRoomVersion command \<or> After (gtc_AssignedAt command) (ar_fillDeadline room) \<or>
         ar_tournamentID room \<noteq> tk_TournamentID ticket \<or> ar_tournamentVersion room \<noteq> tk_TournamentVersion ticket \<or>
         ar_ratingModelVersion room \<noteq> est_ModelVersion (tk_RatingSnapshot ticket)
      then (Inl ErrRoomNotAvailable, db)
      else tryTx db (wrapR ''inspect room memberships: %w'' [] (stmt flt ''inspect memberships'' (inspectMemberships db (ar_id room) (tk_PlayerID ticket)))) (\<lambda>(members, duplicatePlayer).
      if ar_capacity room \<le> members \<or> duplicatePlayer then (Inl ErrRoomNotAvailable, db)
      else tryTx db (mapErr (\<lambda>err. if errors_Is err ErrNoRows then ErrRoomNotAvailable else Errorf ''select room seat: %w'' [] (Some err))
        (stmt flt ''select seat'' (selectSeat db (ar_id room) (ar_capacity room)))) (\<lambda>seat.
      assignSeat flt db command dg ticket room members seat)))))"

definition AssignTicket :: "(digestInput \<Rightarrow> string result) \<Rightarrow> time \<Rightarrow> Faults \<Rightarrow> (Database, AssignTicketCommand, Assignment) storeOp" where
  "AssignTicket digest clock flt db command =
     tryTx db (AssignTicketCommand_RequestDigest digest command) (\<lambda>dg.
     tryTx db (wrapR ''begin ticket assignment: %w'' [] (stmt flt ''begin'' (Inr ()))) (\<lambda>_.
     case stmt flt ''read assignment'' (loadAssignmentByIdentity db (gtc_AssignmentID command)) of
       Inr replay \<Rightarrow>
         if sa_requestDigest replay \<noteq> dg \<or> as_TicketID (sa_assignment replay) \<noteq> gtc_TicketID command \<or>
            as_RoomID (sa_assignment replay) \<noteq> gtc_RoomID command \<or> as_SessionID (sa_assignment replay) \<noteq> gtc_SessionID command
         then (Inl ErrAssignmentConflict, db)
         else commitTx flt (\<lambda>e. Errorf ''commit assignment replay: %w'' [] (Some e)) ((sa_assignment replay)\<lparr>as_Replay := True\<rparr>) db db
     | Inl err \<Rightarrow>
         if \<not> errors_Is err ErrNoRows then (Inl (Errorf ''read assignment identity: %w'' [] (Some err)), db)
         else tryTx db (mapErr (\<lambda>err. if errors_Is err ErrNoRows then ErrTicketNotFound else Errorf ''lock ticket for assignment: %w'' [] (Some err))
           (stmt flt ''lock ticket'' (loadTicketByID db (gtc_TicketID command)))) (\<lambda>stored.
         assignStored flt clock db command dg stored)))"

definition TicketStore :: "(digestInput \<Rightarrow> string result) \<Rightarrow> time \<Rightarrow> Faults \<Rightarrow> Database TicketLifecycleRepository" where
  "TicketStore digest clock flt =
     \<lparr>tr_AcceptTicket = AcceptTicket digest flt, tr_CancelTicket = CancelTicket digest flt, tr_GetTicket = GetTicket flt,
      tr_AssignTicket = AssignTicket digest clock flt, tr_ExpireTicket = ExpireTicket digest clock flt\<rparr>"

section \<open>Effects\<close>

lemma insertOutbox_Inr:
  "insertOutbox db e = Inr db' \<longleftrightarrow> outboxChecks (outboxRow e) \<and> (\<forall>r \<in> set (db_outbox db). \<not> outboxClash (outboxRow e) r) \<and>
     db' = db\<lparr>db_outbox := db_outbox db @ [outboxRow e]\<rparr>"
  by (auto simp: insertOutbox_def insertRow_Inr)

lemma insertCommand_Inr:
  "insertCommand db c = Inr db' \<longleftrightarrow> commandChecks c \<and> (\<forall>r \<in> set (db_commands db). \<not> commandClash c r) \<and>
     (\<exists>t \<in> set (db_tickets db). tkr_id t = cm_ticket_id c) \<and> db' = db\<lparr>db_commands := db_commands db @ [c]\<rparr>"
  by (auto simp: insertCommand_def insertRow_Inr list_ex_iff)

lemma updateTicket_Inr:
  "updateTicket db i f = Inr db' \<longleftrightarrow> (\<forall>r \<in> set (db_tickets db). tkr_id r = i \<longrightarrow> ticketChecks (f r)) \<and>
     db' = db\<lparr>db_tickets := map (\<lambda>r. if tkr_id r = i then f r else r) (db_tickets db)\<rparr>"
  by (auto simp: updateTicket_def updateRows_Inr)

lemma loadTicketByID_Inr:
  "loadTicketByID db i = Inr s \<Longrightarrow> \<exists>row \<in> set (db_tickets db). tkr_id row = i \<and> s = scanStoredTicket row"
  by (auto simp: loadTicketByID_def dest!: queryRow_Inr)

lemma lockAssignmentRoom_Inr:
  "lockAssignmentRoom db i = Inr room \<Longrightarrow> \<exists>r \<in> set (db_rooms db). rmr_room_id r = i \<and> ar_id room = i \<and> ar_status room = rmr_status r \<and>
     ar_capacity room = rmr_capacity r \<and> ar_version room = rmr_aggregate_version r"
  by (auto simp: lockAssignmentRoom_def dest!: queryRow_Inr)

lemma selectSeat_Inr:
  "selectSeat db i n = Inr seat \<Longrightarrow> 1 \<le> seat \<and> seat \<le> n \<and> seat \<notin> mb_seat ` set (roomMembers db i)"
  by (auto simp: selectSeat_def list_ex_iff dest!: queryRow_Inr)

text \<open>An event row as it is inserted: not claimed, delivered or given up.\<close>

definition announces :: "OutboxRow \<Rightarrow> string \<Rightarrow> string \<Rightarrow> int \<Rightarrow> bool" where
  "announces ev aggregateType i version \<longleftrightarrow> ox_aggregate_type ev = aggregateType \<and> ox_aggregate_id ev = i \<and>
     ox_aggregate_version ev = version \<and> outboxChecks ev \<and> ox_claimed_by ev = None \<and> ox_delivered_at ev = None \<and> ox_dead_lettered_at ev = None"

lemma outboxRow_announces:
  "outboxChecks (outboxRow e) \<Longrightarrow> announces (outboxRow e) (ob_AggregateType e) (ob_AggregateID e) (ob_AggregateVersion e)"
  by (simp add: announces_def outboxRow_def)

text \<open>
  The transitions of the stored lifecycle: what one committed transaction may have changed. \<open>fresh\<close> is the uniqueness an
  insert into the outbox has checked.
\<close>

abbreviation "fresh ev rows \<equiv> \<forall>r \<in> set rows. \<not> outboxClash ev r"

definition onTicket :: "string \<Rightarrow> (TicketRow \<Rightarrow> TicketRow) \<Rightarrow> TicketRow list \<Rightarrow> TicketRow list" where
  "onTicket i f = map (\<lambda>r. if tkr_id r = i then f r else r)"

definition onRoom :: "string \<Rightarrow> (RoomRow \<Rightarrow> RoomRow) \<Rightarrow> RoomRow list \<Rightarrow> RoomRow list" where
  "onRoom i f = map (\<lambda>r. if rmr_room_id r = i then f r else r)"

definition seatedRoom :: "bool \<Rightarrow> int \<Rightarrow> time \<Rightarrow> time \<Rightarrow> RoomRow \<Rightarrow> RoomRow" where
  "seatedRoom filled version filledAt deadline r =
     (if filled then r\<lparr>rmr_status := RoomCollecting, rmr_aggregate_version := version, rmr_filled_at := Some filledAt, rmr_result_deadline := Some deadline\<rparr>
      else r\<lparr>rmr_aggregate_version := version\<rparr>)"

inductive lifecycle :: "Database \<Rightarrow> Database \<Rightarrow> bool" where
  accept: "\<lbrakk>ticketChecks row; tkr_status row = TicketQueued; tk_AggregateVersion (tkr_ticket row) = 1;
      \<forall>r \<in> set (db_tickets db). \<not> ticketClash row r; configExists db row;
      announces ev outboxAggregateTicket (tkr_id row) 1; fresh ev (db_outbox db)\<rbrakk>
    \<Longrightarrow> lifecycle db (db\<lparr>db_tickets := db_tickets db @ [row], db_outbox := db_outbox db @ [ev]\<rparr>)"
| leave: "\<lbrakk>row \<in> set (db_tickets db); tkr_status row = TicketQueued; version = incInt64 (tk_AggregateVersion (tkr_ticket row));
      change = markCancelled t \<or> change = markExpired t;
      \<forall>r \<in> set (db_tickets db). tkr_id r = tkr_id row \<longrightarrow> ticketChecks (leaveQueue change version r);
      cm_ticket_id cm = tkr_id row; announces ev outboxAggregateTicket (tkr_id row) version; fresh ev (db_outbox db)\<rbrakk>
    \<Longrightarrow> lifecycle db (db\<lparr>db_tickets := onTicket (tkr_id row) (leaveQueue change version) (db_tickets db),
          db_commands := db_commands db @ [cm], db_outbox := db_outbox db @ [ev]\<rparr>)"
| observe: "\<lbrakk>row \<in> set (db_tickets db); tkr_status row = TicketCancelled; cm_ticket_id cm = tkr_id row\<rbrakk>
    \<Longrightarrow> lifecycle db (db\<lparr>db_commands := db_commands db @ [cm]\<rparr>)"
| assign: "\<lbrakk>row \<in> set (db_tickets db); tkr_status row = TicketQueued; version = incInt64 (tk_AggregateVersion (tkr_ticket row));
      \<forall>r \<in> set (db_tickets db). tkr_id r = tkr_id row \<longrightarrow> ticketChecks (leaveQueue (markAssigned t) version r);
      room \<in> set (db_rooms db); rmr_status room = RoomForming; int (length (roomMembers db (rmr_room_id room))) < rmr_capacity room;
      filled = (int (length (roomMembers db (rmr_room_id room))) + 1 = rmr_capacity room); roomVersion = incInt64 (rmr_aggregate_version room);
      \<forall>r \<in> set (db_rooms db). rmr_room_id r = rmr_room_id room \<longrightarrow> roomChecks (seatedRoom filled roomVersion f d r);
      mb_room_id m = rmr_room_id room; mb_room_capacity m = rmr_capacity room; mb_ticket_id m = tkr_id row;
      mb_player_id m = tk_PlayerID (tkr_ticket row); membershipChecks m; \<forall>x \<in> set (db_memberships db). \<not> membershipClash m x;
      sn_ticket_id s = tkr_id row; sn_room_id s = rmr_room_id room; sn_player_id s = mb_player_id m; sn_seat s = mb_seat m;
      sessionChecks s; sn_status s = SessionAllocated; \<forall>x \<in> set (db_sessions db). \<not> sessionClash s x;
      announces ev outboxAggregateTicket (tkr_id row) version; fresh ev (db_outbox db);
      if filled then announces roomEv outboxAggregateRoom (rmr_room_id room) roomVersion \<and> fresh roomEv (db_outbox db @ [ev]) \<and> evs = [ev, roomEv] else evs = [ev]\<rbrakk>
    \<Longrightarrow> lifecycle db (db\<lparr>db_tickets := onTicket (tkr_id row) (leaveQueue (markAssigned t) version) (db_tickets db),
          db_rooms := onRoom (rmr_room_id room) (seatedRoom filled roomVersion f d) (db_rooms db),
          db_memberships := db_memberships db @ [m], db_sessions := db_sessions db @ [s],
          db_outbox := db_outbox db @ evs, db_shadow_work := work\<rparr>)"

lemma onTicket_set: "r \<in> set (onTicket i f rows) \<longleftrightarrow> (\<exists>x \<in> set rows. r = (if tkr_id x = i then f x else x))"
  unfolding onTicket_def by (auto simp only: set_map image_iff)

lemma insertTicket_inserted:
  "insertTicket db row = Inr (True, db') \<longleftrightarrow> bigint (est_Games (tk_RatingSnapshot (tkr_ticket row))) \<and> ticketChecks row \<and> (\<forall>r \<in> set (db_tickets db). \<not> ticketClash row r) \<and> configExists db row \<and>
     db' = db\<lparr>db_tickets := db_tickets db @ [row]\<rparr>"
  by (auto simp: insertTicket_def list_ex_iff)

lemma insertTicket_skipped: "insertTicket db row = Inr (False, db') \<Longrightarrow> db' = db \<and> (\<exists>r \<in> set (db_tickets db). ticketClash row r)"
  by (auto simp: insertTicket_def list_ex_iff split: if_splits)

lemma AcceptTicket_lifecycle:
  assumes "AcceptTicket digest flt db command = (res, db')" "db' \<noteq> db"
  shows "lifecycle db db'"
proof -
  obtain dg inserted db1 where dg: "AcceptTicketCommand_RequestDigest digest command = Inr dg"
    and ins: "insertTicket db (newTicketRow ((atc_Ticket command)\<lparr>tk_AggregateVersion := 1\<rparr>) dg) = Inr (inserted, db1)"
    using assms by (auto simp: AcceptTicket_def tx_effect Let_def)
  have inserted: "inserted"
  proof (rule ccontr)
    assume "\<not> inserted"
    then have "db1 = db" using insertTicket_skipped ins by simp
    then show False using assms ins dg \<open>\<not> inserted\<close>
      by (auto simp: AcceptTicket_def tx_effect Let_def split: sum.splits if_splits)
  qed
  let ?row = "newTicketRow ((atc_Ticket command)\<lparr>tk_AggregateVersion := 1\<rparr>) dg"
  obtain e where e: "insertOutbox db1 e = Inr db'" "ob_AggregateType e = outboxAggregateTicket" "ob_AggregateID e = tkr_id ?row" "ob_AggregateVersion e = 1"
    using assms ins dg inserted by (auto simp: AcceptTicket_def tx_effect Let_def newTicketRow_def)
  have "tkr_status ?row = TicketQueued" "tk_AggregateVersion (tkr_ticket ?row) = 1"
    using AcceptTicketCommand_Validate_None [of command] dg by (auto simp: newTicketRow_def AcceptTicketCommand_RequestDigest_def)
  then have "lifecycle db (db\<lparr>db_tickets := db_tickets db @ [?row], db_outbox := db_outbox db @ [outboxRow e]\<rparr>)"
    using ins inserted e outboxRow_announces [of e] by (intro accept) (auto simp: insertTicket_inserted insertOutbox_Inr)
  then show ?thesis using ins inserted e(1) by (simp add: insertTicket_inserted insertOutbox_Inr)
qed

lemma leave_effect:
  assumes "updateTicket db (tkr_id row) (leaveQueue change version) = Inr db1" "insertCommand db1 cm = Inr db2" "insertOutbox db2 e = Inr db'"
    and "row \<in> set (db_tickets db)" "tkr_status row = TicketQueued" "version = incInt64 (tk_AggregateVersion (tkr_ticket row))"
    and "change = markCancelled t \<or> change = markExpired t" "cm_ticket_id cm = tkr_id row"
    and "ob_AggregateType e = outboxAggregateTicket" "ob_AggregateID e = tkr_id row" "ob_AggregateVersion e = version"
  shows "lifecycle db db'"
proof -
  have "db' = db\<lparr>db_tickets := onTicket (tkr_id row) (leaveQueue change version) (db_tickets db),
          db_commands := db_commands db @ [cm], db_outbox := db_outbox db @ [outboxRow e]\<rparr>"
    using assms(1-3) by (simp add: updateTicket_Inr insertCommand_Inr insertOutbox_Inr onTicket_def)
  moreover have "outboxChecks (outboxRow e)" "fresh (outboxRow e) (db_outbox db)"
      "\<forall>r \<in> set (db_tickets db). tkr_id r = tkr_id row \<longrightarrow> ticketChecks (leaveQueue change version r)"
    using assms(1-3) by (simp_all add: updateTicket_Inr insertCommand_Inr insertOutbox_Inr)
  ultimately show ?thesis using assms(4-) outboxRow_announces [of e] by (auto intro!: leave)
qed

lemma CancelTicket_lifecycle:
  assumes "CancelTicket digest flt db command = (res, db')" "db' \<noteq> db"
  shows "lifecycle db db'"
proof -
  obtain dg stored where dg: "CancelTicketCommand_RequestDigest digest command = Inr dg"
    and load: "loadTicketByID db (ctc_TicketID command) = Inr stored"
    using assms by (auto simp: CancelTicket_def tx_effect)
  then obtain row where row: "row \<in> set (db_tickets db)" "tkr_id row = ctc_TicketID command" "stored = scanStoredTicket row"
    using loadTicketByID_Inr by blast
  have rest: "cancelStored flt db command dg (tkr_ticket row) = (res, db')"
    using assms dg load row(3)
    by (cases "stmt flt ''read command'' (loadCommandDigest db (ctc_TicketID command) (ctc_CommandID command))")
      (auto simp: CancelTicket_def tx_effect scanStoredTicket_def split: if_splits)
  show ?thesis
  proof (cases "tkr_status row")
    case TicketQueued
    then show ?thesis using rest assms(2) row
      by (auto simp: cancelStored_def tx_effect Let_def recordCancellation_def markCancelled_def [of "ctc_CancelledAt command"]
          intro!: leave_effect [where row = row and change = "markCancelled (pgTime (ctc_CancelledAt command))" and t = "pgTime (ctc_CancelledAt command)"])
  next
    case TicketCancelled
    then show ?thesis using rest assms(2) row
      by (auto simp: cancelStored_def tx_effect recordCancellation_def insertCommand_Inr intro!: observe [where row = row])
  qed (use rest assms(2) in \<open>auto simp: cancelStored_def\<close>)
qed

lemma ExpireTicket_lifecycle:
  assumes "ExpireTicket digest clock flt db command = (res, db')" "db' \<noteq> db"
  shows "lifecycle db db'"
proof -
  obtain dg stored where dg: "ExpireTicketCommand_RequestDigest digest command = Inr dg"
    and load: "loadTicketByID db (etc_TicketID command) = Inr stored"
    using assms by (auto simp: ExpireTicket_def tx_effect)
  then obtain row where row: "row \<in> set (db_tickets db)" "tkr_id row = etc_TicketID command" "stored = scanStoredTicket row"
    using loadTicketByID_Inr by blast
  have "tkr_status row = TicketQueued" "expireStored flt db command dg (tkr_ticket row) = (res, db')"
    using assms dg load row(3)
    by (cases "stmt flt ''read command'' (loadCommandDigest db (etc_TicketID command) (etc_CommandID command))";
        auto simp: ExpireTicket_def tx_effect scanStoredTicket_def split: if_splits)+
  with row(1,2) show ?thesis using assms(2)
    by (auto simp: tx_effect Let_def expireStored_def markExpired_def [of "etc_ExpiredAt command"]
      intro!: leave_effect [where row = row and change = "markExpired (pgTime (etc_ExpiredAt command))" and t = "pgTime (etc_ExpiredAt command)"])
qed

lemma insertMembership_Inr:
  "insertMembership db m = Inr db' \<longleftrightarrow> membershipChecks m \<and> (\<forall>x \<in> set (db_memberships db). \<not> membershipClash m x) \<and>
     (\<exists>r \<in> set (db_rooms db). rmr_room_id r = mb_room_id m \<and> rmr_capacity r = mb_room_capacity m) \<and>
     (\<exists>t \<in> set (db_tickets db). tkr_id t = mb_ticket_id m \<and> tk_PlayerID (tkr_ticket t) = mb_player_id m) \<and>
     db' = db\<lparr>db_memberships := db_memberships db @ [m]\<rparr>"
  by (auto simp: insertMembership_def insertRow_Inr list_ex_iff)

lemma insertSession_Inr:
  "insertSession db s = Inr db' \<longleftrightarrow> sessionChecks s \<and> (\<forall>x \<in> set (db_sessions db). \<not> sessionClash s x) \<and>
     (\<exists>m \<in> set (db_memberships db). mb_room_id m = sn_room_id s \<and> mb_seat m = sn_seat s \<and> mb_ticket_id m = sn_ticket_id s \<and> mb_player_id m = sn_player_id s) \<and>
     db' = db\<lparr>db_sessions := db_sessions db @ [s]\<rparr>"
  by (auto simp: insertSession_def insertRow_Inr list_ex_iff)

lemma insertShadowWork_Inr: "insertShadowWork db kind i t p = Inr db' \<Longrightarrow> db' = db\<lparr>db_shadow_work := db_shadow_work db'\<rparr>"
  by (auto simp: insertShadowWork_def split: if_splits)

lemma seat_room_Inr:
  assumes "(if filled then rbind (wrapR w1 [] (stmt flt l (fillRoom db i version assignedAt))) (\<lambda>(deadline, db2). Inr (Some deadline, db2))
     else rbind (wrapR w2 [] (stmt flt l (advanceRoom db i version))) (\<lambda>db2. Inr (None, db2))) = Inr (deadline, db')"
  shows "\<exists>f d. (\<forall>r \<in> set (db_rooms db). rmr_room_id r = i \<longrightarrow> roomChecks (seatedRoom filled version f d r)) \<and>
     db' = db\<lparr>db_rooms := onRoom i (seatedRoom filled version f d) (db_rooms db)\<rparr> \<and> (filled \<longrightarrow> deadline = Some d \<and> f = pgTime assignedAt) \<and> (\<not> filled \<longrightarrow> deadline = None)"
proof (cases filled)
  case True
  then show ?thesis using assms
    by (auto simp: fillRoom_def updateRows_Inr Let_def onRoom_def seatedRoom_def [abs_def] split: prod.splits)
next
  case False
  then show ?thesis using assms
    by (auto simp: advanceRoom_def updateRows_Inr onRoom_def seatedRoom_def [abs_def])
qed

lemma insertAssignmentEvents_Inr:
  assumes "insertAssignmentEvents flt db command a = Inr db'"
  obtains ev roomEv evs where "announces ev outboxAggregateTicket (as_TicketID a) (as_TicketVersion a)" "fresh ev (db_outbox db)"
    "if as_RoomFilled a then announces roomEv outboxAggregateRoom (as_RoomID a) (as_RoomVersion a) \<and> fresh roomEv (db_outbox db @ [ev]) \<and> evs = [ev, roomEv] else evs = [ev]"
    "db' = db\<lparr>db_outbox := db_outbox db @ evs\<rparr>"
proof (cases "as_RoomFilled a")
  case True
  then obtain e1 e2 db1 where e: "insertOutbox db e1 = Inr db1" "insertOutbox db1 e2 = Inr db'"
    "ob_AggregateType e1 = outboxAggregateTicket" "ob_AggregateID e1 = as_TicketID a" "ob_AggregateVersion e1 = as_TicketVersion a"
    "ob_AggregateType e2 = outboxAggregateRoom" "ob_AggregateID e2 = as_RoomID a" "ob_AggregateVersion e2 = as_RoomVersion a"
    using assms unfolding insertAssignmentEvents_def by auto
  show ?thesis
    by (rule that [of "outboxRow e1" "outboxRow e2" "[outboxRow e1, outboxRow e2]"])
      (use True e outboxRow_announces [of e1] outboxRow_announces [of e2] in \<open>auto simp: insertOutbox_Inr\<close>)
next
  case False
  then obtain e1 where e: "insertOutbox db e1 = Inr db'"
    "ob_AggregateType e1 = outboxAggregateTicket" "ob_AggregateID e1 = as_TicketID a" "ob_AggregateVersion e1 = as_TicketVersion a"
    using assms unfolding insertAssignmentEvents_def by auto
  show ?thesis
    by (rule that [of "outboxRow e1" undefined "[outboxRow e1]"]) (use False e outboxRow_announces [of e1] in \<open>auto simp: insertOutbox_Inr\<close>)
qed

lemma assignSeat_lifecycle:
  assumes "assignSeat flt db command dg (tkr_ticket row) room members seat = (res, db')" "db' \<noteq> db"
    and "row \<in> set (db_tickets db)" "tkr_status row = TicketQueued"
    and "r \<in> set (db_rooms db)" "rmr_status r = RoomForming" "ar_id room = rmr_room_id r" "ar_capacity room = rmr_capacity r" "ar_version room = rmr_aggregate_version r"
    and "members = int (length (roomMembers db (rmr_room_id r)))" "members < rmr_capacity r"
  shows "lifecycle db db'"
proof -
  let ?v = "incInt64 (tk_AggregateVersion (tkr_ticket row))" and ?rv = "incInt64 (rmr_aggregate_version r)"
  let ?filled = "members + 1 = rmr_capacity r" and ?t = "pgTime (gtc_AssignedAt command)"
  obtain db1 deadline db2 m db3 s db4 a db5 where
    u: "updateTicket db (tkr_id row) (leaveQueue (markAssigned ?t) ?v) = Inr db1" and
    r: "(if ?filled then rbind (wrapR ''fill assigned room: %w'' [] (stmt flt ''update room'' (fillRoom db1 (rmr_room_id r) ?rv (gtc_AssignedAt command)))) (\<lambda>(deadline, db2). Inr (Some deadline, db2))
       else rbind (wrapR ''advance room version: %w'' [] (stmt flt ''update room'' (advanceRoom db1 (rmr_room_id r) ?rv))) (\<lambda>db2. Inr (None, db2))) = Inr (deadline, db2)" and
    m: "insertMembership db2 m = Inr db3" "mb_room_id m = rmr_room_id r" "mb_room_capacity m = rmr_capacity r" "mb_ticket_id m = tkr_id row"
       "mb_player_id m = tk_PlayerID (tkr_ticket row)" and
    s: "insertSession db3 s = Inr db4" "sn_ticket_id s = tkr_id row" "sn_room_id s = rmr_room_id r" "sn_player_id s = mb_player_id m" "sn_seat s = mb_seat m"
       "sn_status s = SessionAllocated" and
    e: "insertAssignmentEvents flt db4 command a = Inr db5" "as_TicketID a = tkr_id row" "as_TicketVersion a = ?v" "as_RoomID a = rmr_room_id r"
       "as_RoomVersion a = ?rv" "as_RoomFilled a = ?filled" and
    w: "db' = db5\<lparr>db_shadow_work := db_shadow_work db'\<rparr>"
    using assms(1,2,7-9) insertShadowWork_Inr unfolding assignSeat_def Let_def
    by (simp add: tx_effect split del: if_split) (elim exE conjE, auto split: if_splits)
  have db1: "db1 = db\<lparr>db_tickets := onTicket (tkr_id row) (leaveQueue (markAssigned ?t) ?v) (db_tickets db)\<rparr>"
    "\<forall>r \<in> set (db_tickets db). tkr_id r = tkr_id row \<longrightarrow> ticketChecks (leaveQueue (markAssigned ?t) ?v r)"
    using u by (simp_all add: updateTicket_Inr onTicket_def)
  obtain f d where fd: "\<forall>x \<in> set (db_rooms db1). rmr_room_id x = rmr_room_id r \<longrightarrow> roomChecks (seatedRoom ?filled ?rv f d x)"
    "db2 = db1\<lparr>db_rooms := onRoom (rmr_room_id r) (seatedRoom ?filled ?rv f d) (db_rooms db1)\<rparr>"
    using seat_room_Inr [OF r] by blast
  obtain ev roomEv evs where ev: "announces ev outboxAggregateTicket (tkr_id row) ?v" "fresh ev (db_outbox db4)"
    "if ?filled then announces roomEv outboxAggregateRoom (rmr_room_id r) ?rv \<and> fresh roomEv (db_outbox db4 @ [ev]) \<and> evs = [ev, roomEv] else evs = [ev]"
    "db5 = db4\<lparr>db_outbox := db_outbox db4 @ evs\<rparr>"
    using insertAssignmentEvents_Inr [OF e(1)] unfolding e(2-) by metis
  have m': "membershipChecks m" "\<forall>x \<in> set (db_memberships db). \<not> membershipClash m x" "db3 = db2\<lparr>db_memberships := db_memberships db2 @ [m]\<rparr>"
    using m(1) fd(2) db1(1) by (simp_all add: insertMembership_Inr)
  have s': "sessionChecks s" "\<forall>x \<in> set (db_sessions db). \<not> sessionClash s x" "db4 = db3\<lparr>db_sessions := db_sessions db3 @ [s]\<rparr>"
    using s(1) m'(3) fd(2) db1(1) by (simp_all add: insertSession_Inr)
  have out: "db_outbox db4 = db_outbox db" "db_rooms db1 = db_rooms db" using s'(3) m'(3) fd(2) db1(1) by simp_all
  have "db' = db\<lparr>db_tickets := onTicket (tkr_id row) (leaveQueue (markAssigned ?t) ?v) (db_tickets db),
      db_rooms := onRoom (rmr_room_id r) (seatedRoom ?filled ?rv f d) (db_rooms db), db_memberships := db_memberships db @ [m],
      db_sessions := db_sessions db @ [s], db_outbox := db_outbox db @ evs, db_shadow_work := db_shadow_work db'\<rparr>"
    using w ev(4) s'(3) m'(3) fd(2) db1(1) by simp
  moreover have "lifecycle db (db\<lparr>db_tickets := onTicket (tkr_id row) (leaveQueue (markAssigned ?t) ?v) (db_tickets db),
      db_rooms := onRoom (rmr_room_id r) (seatedRoom ?filled ?rv f d) (db_rooms db), db_memberships := db_memberships db @ [m],
      db_sessions := db_sessions db @ [s], db_outbox := db_outbox db @ evs, db_shadow_work := db_shadow_work db'\<rparr>)"
    by (rule assign [where m = m and s = s and ev = ev and roomEv = roomEv])
      (use assms(3-) db1(2) fd(1) m(2-) m'(1,2) s(2-) s'(1,2) ev(1-3) out in auto)
  ultimately show ?thesis by metis
qed

lemma assignStored_lifecycle:
  assumes "assignStored flt clock db command dg (scanStoredTicket row) = (res, db')" "db' \<noteq> db" "row \<in> set (db_tickets db)"
  shows "lifecycle db db'"
proof -
  have q: "tkr_status row = TicketQueued" using assms(1,2) by (auto simp: assignStored_def scanStoredTicket_def Let_def split: if_splits)
  obtain room seat members where room: "lockAssignmentRoom db (gtc_RoomID command) = Inr room" "ar_status room = RoomForming"
    and members: "members = int (length (roomMembers db (ar_id room)))" "members < ar_capacity room"
    and seat: "assignSeat flt db command dg (tkr_ticket row) room members seat = (res, db')"
    using assms(1,2) q unfolding assignStored_def Let_def inspectMemberships_def
    by (simp add: tx_effect scanStoredTicket_def split: if_splits) (elim exE conjE, auto simp: tx_effect split: if_splits)+
  obtain r where "r \<in> set (db_rooms db)" "rmr_room_id r = ar_id room" "ar_status room = rmr_status r" "ar_capacity room = rmr_capacity r"
      "ar_version room = rmr_aggregate_version r"
    using lockAssignmentRoom_Inr [OF room(1)] by auto
  then show ?thesis using assignSeat_lifecycle [OF seat assms(2,3) q] room(2) members by simp
qed

lemma AssignTicket_lifecycle:
  assumes "AssignTicket digest clock flt db command = (res, db')" "db' \<noteq> db"
  shows "lifecycle db db'"
proof -
  obtain dg where dg: "AssignTicketCommand_RequestDigest digest command = Inr dg" using assms by (auto simp: AssignTicket_def tx_effect)
  obtain stored where load: "loadTicketByID db (gtc_TicketID command) = Inr stored" and rest: "assignStored flt clock db command dg stored = (res, db')"
    using assms dg by (cases "stmt flt ''read assignment'' (loadAssignmentByIdentity db (gtc_AssignmentID command))")
      (auto simp: AssignTicket_def tx_effect split: if_splits)
  obtain row where "row \<in> set (db_tickets db)" "stored = scanStoredTicket row" using loadTicketByID_Inr [OF load] by blast
  then show ?thesis using assignStored_lifecycle rest assms(2) by blast
qed

end
