(* ===== verification/Result_Store.thy ===== *)
theory Result_Store
  imports Ticket_Store
begin

text \<open>
  \<^verbatim>\<open>internal/postgres/results.go\<close>: the transactions that record an authoritative result with the terminal transition of its
  room, and that expire rooms whose results did not arrive in time. \<open>hash\<close> stands for the hexadecimal text of the first sixteen bytes
  of a SHA-256 sum, \<open>collate\<close> for the collation of the database, \<open>locked\<close> for rooms another transaction holds.
\<close>

definition outboxRoomCompleted :: string where "outboxRoomCompleted = ''room.completed''"
definition outboxRoomExpired :: string where "outboxRoomExpired = ''room.expired''"

section \<open>Derived event identities\<close>

fun decimal :: "nat \<Rightarrow> string" where
  "decimal n = (if n < 10 then [char_of (48 + n)] else decimal (n div 10) @ [char_of (48 + n mod 10)])"

definition formatInt :: "int \<Rightarrow> string" where
  "formatInt v = (if v < 0 then CHR ''-'' # decimal (nat (- v)) else decimal (nat v))"

definition derivedEventID :: "(string \<Rightarrow> string) \<Rightarrow> string \<Rightarrow> string \<Rightarrow> int \<Rightarrow> string" where
  "derivedEventID hash kind identity version = kind @ ''-'' @ hash (kind @ [CHR 0x00] @ identity @ [CHR 0x00] @ formatInt version)"

section \<open>Reading rooms, sessions and stored results\<close>

record resultRoom =
  rsr_id :: string
  rsr_modeID :: string
  rsr_deckID :: string
  rsr_scoringRulesVersion :: string
  rsr_status :: RoomStatus
  rsr_capacity :: int
  rsr_version :: int
  rsr_resultDeadline :: "time option"

definition lockResultRoom :: "Database \<Rightarrow> string \<Rightarrow> resultRoom result" where
  "lockResultRoom db roomID =
     rbind (queryRow (filter (\<lambda>r. rmr_room_id r = roomID) (db_rooms db))) (\<lambda>r.
       Inr \<lparr>rsr_id = rmr_room_id r, rsr_modeID = rmr_mode_id r, rsr_deckID = rmr_deck_id r, rsr_scoringRulesVersion = rmr_scoring_rules_version r,
            rsr_status = rmr_status r, rsr_capacity = rmr_capacity r, rsr_version = rmr_aggregate_version r, rsr_resultDeadline = rmr_result_deadline r\<rparr>)"

record resultSession =
  rss_id :: string
  rss_playerID :: string
  rss_allocatedAt :: time

definition roomSessions :: "Database \<Rightarrow> string \<Rightarrow> SessionRow list" where
  "roomSessions db roomID = filter (\<lambda>s. sn_room_id s = roomID) (db_sessions db)"

definition lockRoomSessions :: "collation \<Rightarrow> Faults \<Rightarrow> Database \<Rightarrow> string \<Rightarrow> resultSession list result" where
  "lockRoomSessions collate flt db roomID =
     rbind (wrapR ''lock result room sessions: %w'' [] (stmt flt ''lock sessions'' (Inr (sort_cmp (\<lambda>a b. collate (sn_player_id a) (sn_player_id b)) (roomSessions db roomID))))) (\<lambda>rows.
     rbind (wrapR ''scan result room session: %w'' [] (stmt flt ''scan session'' (Inr ()))) (\<lambda>_.
     wrapR ''read result room sessions: %w'' [] (stmt flt ''read sessions''
       (Inr (map (\<lambda>s. \<lparr>rss_id = sn_session_id s, rss_playerID = sn_player_id s, rss_allocatedAt = sn_allocated_at s\<rparr>) rows)))))"

text \<open>The last session of a player wins in the Go map; a missing key leaves the loop.\<close>

definition verifyResultParticipants :: "VerifiedParticipant list \<Rightarrow> resultSession list \<Rightarrow> int \<Rightarrow> time \<Rightarrow> error" where
  "verifyResultParticipants participants sessions capacity finishedAt =
     (if int (length participants) \<noteq> capacity \<or> int (length sessions) \<noteq> capacity then Some ErrResultParticipantsMismatch
      else let byPlayer = map_of (rev (map (\<lambda>s. (rss_playerID s, s)) sessions)) in
        forE (\<lambda>p. case byPlayer (vp_PlayerID p) of
                None \<Rightarrow> Some ErrResultParticipantsMismatch
              | Some session \<Rightarrow> if rss_id session \<noteq> vp_SessionID p \<or> Before finishedAt (rss_allocatedAt session)
                  then Some ErrResultParticipantsMismatch else None) participants)"

definition resultParticipants :: "collation \<Rightarrow> Database \<Rightarrow> string \<Rightarrow> ParticipantRow list" where
  "resultParticipants collate db eventID =
     sort_cmp (\<lambda>a b. collate (pt_player_id a) (pt_player_id b)) (filter (\<lambda>p. pt_event_id p = eventID) (db_participants db))"

definition scanResult :: "ResultRow \<Rightarrow> ParticipantRow list \<Rightarrow> MatchResult" where
  "scanResult v ps = \<lparr>mr_EventID = vr_event_id v, mr_RoomID = vr_room_id v, mr_ModeID = vr_mode_id v, mr_DeckID = vr_deck_id v,
     mr_ScoringRulesVersion = vr_scoring_rules_version v, mr_FinishedAt = vr_finished_at v, mr_AvailableAt = vr_available_at v,
     mr_Participants = map (\<lambda>p. \<lparr>pr_PlayerID = pt_player_id p, pr_Place = pt_place p, pr_Features = pt_features p\<rparr>) ps\<rparr>"

text \<open>A NULL completion time cannot be scanned into a \<^verbatim>\<open>time.Time\<close>.\<close>

definition scanNullError :: goerr where "scanNullError = ErrorsNew ''cannot scan NULL into *time.Time''"

definition loadFinalizedResult :: "collation \<Rightarrow> Faults \<Rightarrow> Database \<Rightarrow> string \<Rightarrow> string \<Rightarrow> (FinalizedResult \<times> string) result" where
  "loadFinalizedResult collate flt db lookup identity =
     (if lookup \<noteq> ''event'' \<and> lookup \<noteq> ''room'' then Inl (ErrorsNew ''unsupported result lookup'')
      else rbind (stmt flt (''read result by '' @ lookup) (queryRow (filter (\<lambda>(v, r). rmr_room_id r = vr_room_id v \<and>
             (lookup = ''event'' \<and> vr_event_id v = identity \<or> lookup = ''room'' \<and> vr_room_id v = identity))
             (List.product (db_results db) (db_rooms db))))) (\<lambda>(v, r).
      case rmr_completed_at r of
        None \<Rightarrow> Inl scanNullError
      | Some completedAt \<Rightarrow>
          rbind (stmt flt ''read result participants'' (Inr (resultParticipants collate db (vr_event_id v)))) (\<lambda>ps.
          Inr (\<lparr>fr_Result = scanResult v ps, fr_RoomVersion = rmr_aggregate_version r, fr_CompletedAt = completedAt,
                 fr_RatingPending = (vr_processed_at v = None), fr_Replay = False\<rparr>, vr_request_digest v))))"

definition commitResultReplay :: "Faults \<Rightarrow> Database \<Rightarrow> FinalizedResult \<Rightarrow> string \<Rightarrow> string \<Rightarrow> FinalizedResult result \<times> Database" where
  "commitResultReplay flt db stored storedDigest requestDigest =
     (if storedDigest \<noteq> requestDigest then (Inl ErrResultConflict, db)
      else commitTx flt (\<lambda>e. Errorf ''commit result replay: %w'' [] (Some e)) (stored\<lparr>fr_Replay := True\<rparr>) db db)"

section \<open>Recording a result\<close>

definition newResultRow :: "FinalizeResultCommand \<Rightarrow> string \<Rightarrow> int \<Rightarrow> ResultRow" where
  "newResultRow command dg capacity =
     \<lparr>vr_event_id = frc_EventID command, vr_request_digest = dg, vr_room_id = frc_RoomID command, vr_room_capacity = capacity,
      vr_mode_id = frc_ModeID command, vr_deck_id = frc_DeckID command, vr_scoring_rules_version = frc_ScoringRulesVersion command,
      vr_finished_at = pgTime (frc_FinishedAt command), vr_available_at = pgTime (frc_AvailableAt command), vr_accepted_at = pgTime (frc_AcceptedAt command),
      vr_processed_at = None, vr_next_attempt_at = Some (pgTime (frc_AvailableAt command)), vr_claim_token = None, vr_claimed_until = None, vr_attempt_count = 0\<rparr>"

definition resultClash :: "ResultRow \<Rightarrow> ResultRow \<Rightarrow> bool" where
  "resultClash a b \<longleftrightarrow> vr_event_id a = vr_event_id b \<or> vr_room_id a = vr_room_id b"

definition insertResult :: "Database \<Rightarrow> ResultRow \<Rightarrow> Database result" where
  "insertResult db row =
     rbind (insertRow resultChecks resultClash
         (\<lambda>v. list_ex (\<lambda>r. rmr_room_id r = vr_room_id v \<and> rmr_capacity r = vr_room_capacity v \<and> rmr_mode_id r = vr_mode_id v \<and>
            rmr_deck_id r = vr_deck_id v \<and> rmr_scoring_rules_version r = vr_scoring_rules_version v) (db_rooms db)) row (db_results db))
       (\<lambda>rows. Inr (db\<lparr>db_results := rows\<rparr>))"

definition newParticipantRow :: "FinalizeResultCommand \<Rightarrow> int \<Rightarrow> VerifiedParticipant \<Rightarrow> ParticipantRow" where
  "newParticipantRow command capacity p =
     \<lparr>pt_event_id = frc_EventID command, pt_room_id = frc_RoomID command, pt_room_capacity = capacity, pt_session_id = vp_SessionID p,
      pt_player_id = vp_PlayerID p, pt_place = vp_Place p, pt_features = vp_Features p\<rparr>"

definition participantClash :: "ParticipantRow \<Rightarrow> ParticipantRow \<Rightarrow> bool" where
  "participantClash a b \<longleftrightarrow> pt_session_id a = pt_session_id b \<or> pt_event_id a = pt_event_id b \<and> pt_player_id a = pt_player_id b"

definition insertParticipant :: "Database \<Rightarrow> ParticipantRow \<Rightarrow> Database result" where
  "insertParticipant db row =
     rbind (insertRow participantChecks participantClash
         (\<lambda>p. list_ex (\<lambda>v. vr_event_id v = pt_event_id p \<and> vr_room_id v = pt_room_id p \<and> vr_room_capacity v = pt_room_capacity p) (db_results db) \<and>
              list_ex (\<lambda>s. sn_session_id s = pt_session_id p \<and> sn_room_id s = pt_room_id p \<and> sn_player_id s = pt_player_id p) (db_sessions db)) row (db_participants db))
       (\<lambda>rows. Inr (db\<lparr>db_participants := rows\<rparr>))"

definition updateSessions :: "Database \<Rightarrow> (SessionRow \<Rightarrow> bool) \<Rightarrow> (SessionRow \<Rightarrow> SessionRow) \<Rightarrow> Database result" where
  "updateSessions db hit change =
     rbind (updateRows hit change sessionChecks (db_sessions db)) (\<lambda>(rows, n). Inr (db\<lparr>db_sessions := rows\<rparr>))"

definition submitSession :: "time \<Rightarrow> SessionRow \<Rightarrow> SessionRow" where
  "submitSession finishedAt s = s\<lparr>sn_status := SessionSubmitted,
     sn_started_at := (case sn_started_at s of None \<Rightarrow> Some (sn_allocated_at s) | Some t \<Rightarrow> Some t),
     sn_submitted_at := Some (pgTime finishedAt), sn_forfeited_at := None\<rparr>"

definition forfeitSession :: "time \<Rightarrow> SessionRow \<Rightarrow> SessionRow" where
  "forfeitSession finishedAt s = s\<lparr>sn_status := SessionForfeited, sn_submitted_at := None, sn_forfeited_at := Some (pgTime finishedAt)\<rparr>"

definition finalizeSession :: "Faults \<Rightarrow> Database \<Rightarrow> VerifiedParticipant \<Rightarrow> time \<Rightarrow> Database result" where
  "finalizeSession flt db participant finishedAt =
     (let completed = (case feat_Completed (vp_Features participant) of None \<Rightarrow> True | Some b \<Rightarrow> b) in
      if completed
      then wrapR ''submit result session %q: %w'' [ArgS (vp_SessionID participant)] (stmt flt ''submit session''
             (updateSessions db (\<lambda>s. sn_session_id s = vp_SessionID participant) (submitSession finishedAt)))
      else wrapR ''forfeit result session %q: %w'' [ArgS (vp_SessionID participant)] (stmt flt ''forfeit session''
             (updateSessions db (\<lambda>s. sn_session_id s = vp_SessionID participant) (forfeitSession finishedAt))))"

fun participantLoop :: "Faults \<Rightarrow> FinalizeResultCommand \<Rightarrow> int \<Rightarrow> VerifiedParticipant list \<Rightarrow> Database \<Rightarrow> Database result" where
  "participantLoop flt command capacity [] db = Inr db"
| "participantLoop flt command capacity (p # ps) db =
     rbind (mapErr (\<lambda>err. mapConflict err ErrResultParticipantsMismatch ''insert result participant'') (stmt flt ''insert participant''
       (insertParticipant db (newParticipantRow command capacity p)))) (\<lambda>db1.
     rbind (finalizeSession flt db1 p (frc_FinishedAt command)) (\<lambda>db2.
     participantLoop flt command capacity ps db2))"

definition completeRoom :: "Database \<Rightarrow> string \<Rightarrow> int \<Rightarrow> time \<Rightarrow> Database result" where
  "completeRoom db roomID version acceptedAt =
     rbind (updateRows (\<lambda>x. rmr_room_id x = roomID)
         (\<lambda>x. x\<lparr>rmr_status := RoomCompleted, rmr_aggregate_version := version, rmr_completed_at := Some (pgTime acceptedAt)\<rparr>) roomChecks (db_rooms db))
       (\<lambda>(rows, n). Inr (db\<lparr>db_rooms := rows\<rparr>))"

definition insertRoomCompletedEvent :: "(string \<Rightarrow> string) \<Rightarrow> Faults \<Rightarrow> Database \<Rightarrow> FinalizedResult \<Rightarrow> Database result" where
  "insertRoomCompletedEvent hash flt db result =
     rbind (wrapR ''encode room completed event: %w'' [] (stmt flt ''encode event'' (Inr ()))) (\<lambda>_.
     mapErr (\<lambda>err. mapConflict err ErrResultConflict ''insert room completed event'') (stmt flt ''insert event'' (insertOutbox db
       \<lparr>ob_ID = derivedEventID hash ''room-completed'' (mr_EventID (fr_Result result)) (fr_RoomVersion result),
        ob_AggregateType = outboxAggregateRoom, ob_AggregateID = mr_RoomID (fr_Result result), ob_AggregateVersion = fr_RoomVersion result,
        ob_Type = outboxRoomCompleted,
        ob_Payload = RoomCompletedPayload (mr_EventID (fr_Result result)) (mr_RoomID (fr_Result result)) (fr_CompletedAt result) (fr_RatingPending result)
          (mr_Participants (fr_Result result)),
        ob_OccurredAt = fr_CompletedAt result\<rparr>)))"

text \<open>The writes of a result, once its room and its participants are verified; the commit runs the deferred trigger.\<close>

definition recordResult ::
    "(string \<Rightarrow> string) \<Rightarrow> Faults \<Rightarrow> Database \<Rightarrow> FinalizeResultCommand \<Rightarrow> string \<Rightarrow> resultRoom \<Rightarrow> FinalizedResult result \<times> Database" where
  "recordResult hash flt db command dg room =
     tryTx db (mapErr (\<lambda>err. mapConflict err ErrResultConflict ''insert verified result'') (stmt flt ''insert result''
       (insertResult db (newResultRow command dg (rsr_capacity room))))) (\<lambda>db1.
     tryTx db (participantLoop flt command (rsr_capacity room) (frc_Participants command) db1) (\<lambda>db2.
     let version = incInt64 (rsr_version room) in
     tryTx db (wrapR ''complete result room: %w'' [] (stmt flt ''complete room'' (completeRoom db2 (rsr_id room) version (frc_AcceptedAt command)))) (\<lambda>db3.
     let result = \<lparr>fr_Result = FinalizeResultCommand_MatchResult command, fr_RoomVersion = version, fr_CompletedAt = frc_AcceptedAt command,
                    fr_RatingPending = True, fr_Replay = False\<rparr> in
     tryTx db (insertRoomCompletedEvent hash flt db3 result) (\<lambda>db4.
     tryTx db (wrapR ''insert rating shadow work: %w'' [] (stmt flt ''insert shadow work''
       (insertShadowWork db4 ''result'' (frc_EventID command) (frc_AvailableAt command) 1))) (\<lambda>db5.
     if \<not> storedResultComplete db5 (frc_EventID command) then (Inl (mapConflict checkViolation ErrResultConflict ''commit result finalization''), db)
     else commitTx flt (\<lambda>e. mapConflict e ErrResultConflict ''commit result finalization'') result db db5)))))"

definition finalizeRoom ::
    "collation \<Rightarrow> (string \<Rightarrow> string) \<Rightarrow> Faults \<Rightarrow> Database \<Rightarrow> FinalizeResultCommand \<Rightarrow> string \<Rightarrow> resultRoom \<Rightarrow> FinalizedResult result \<times> Database" where
  "finalizeRoom collate hash flt db command dg room =
     (if rsr_status room \<noteq> RoomCollecting
      then (case loadFinalizedResult collate flt db ''room'' (frc_RoomID command) of
          Inr (stored, storedDigest) \<Rightarrow> commitResultReplay flt db stored storedDigest dg
        | Inl loadErr \<Rightarrow> if \<not> errors_Is loadErr ErrNoRows then (Inl (Errorf ''read room result: %w'' [] (Some loadErr)), db)
            else (Inl ErrResultRoomNotCollecting, db))
      else if rsr_modeID room \<noteq> frc_ModeID command \<or> rsr_deckID room \<noteq> frc_DeckID command \<or> rsr_scoringRulesVersion room \<noteq> frc_ScoringRulesVersion command
      then (Inl ErrResultConflict, db)
      else if (case rsr_resultDeadline room of None \<Rightarrow> True | Some d \<Rightarrow> After (frc_AcceptedAt command) d \<or> After (frc_FinishedAt command) d)
      then (Inl ErrResultDeadlinePassed, db)
      else tryTx db (lockRoomSessions collate flt db (rsr_id room)) (\<lambda>sessions.
        case verifyResultParticipants (frc_Participants command) sessions (rsr_capacity room) (frc_FinishedAt command) of
          Some e \<Rightarrow> (Inl e, db)
        | None \<Rightarrow> recordResult hash flt db command dg room))"

definition FinalizeResult ::
    "collation \<Rightarrow> (digestInput \<Rightarrow> string result) \<Rightarrow> (string \<Rightarrow> string) \<Rightarrow> Faults \<Rightarrow> (Database, FinalizeResultCommand, FinalizedResult) storeOp" where
  "FinalizeResult collate digest hash flt db command =
     tryTx db (FinalizeResultCommand_RequestDigest digest command) (\<lambda>dg.
     tryTx db (wrapR ''begin result finalization: %w'' [] (stmt flt ''begin'' (Inr ()))) (\<lambda>_.
     case loadFinalizedResult collate flt db ''event'' (frc_EventID command) of
       Inr (stored, storedDigest) \<Rightarrow> commitResultReplay flt db stored storedDigest dg
     | Inl err \<Rightarrow>
         if \<not> errors_Is err ErrNoRows then (Inl (Errorf ''read result identity: %w'' [] (Some err)), db)
         else tryTx db (mapErr (\<lambda>err. if errors_Is err ErrNoRows then ErrResultRoomNotFound else Errorf ''lock result room: %w'' [] (Some err))
           (stmt flt ''lock room'' (lockResultRoom db (frc_RoomID command)))) (\<lambda>room.
         finalizeRoom collate hash flt db command dg room)))"

section \<open>Expiring overdue rooms\<close>

definition overdueRoom :: "string list \<Rightarrow> time \<Rightarrow> RoomRow \<Rightarrow> bool" where
  "overdueRoom locked t r \<longleftrightarrow> rmr_status r = RoomCollecting \<and> (case rmr_result_deadline r of None \<Rightarrow> False | Some d \<Rightarrow> d \<le> t) \<and> rmr_room_id r \<notin> set locked"

definition compareOverdue :: "collation \<Rightarrow> RoomRow \<Rightarrow> RoomRow \<Rightarrow> int" where
  "compareOverdue collate a b =
     (let byDeadline = time_Compare (the (rmr_result_deadline a)) (the (rmr_result_deadline b)) in
      if byDeadline \<noteq> 0 then byDeadline else collate (rmr_room_id a) (rmr_room_id b))"

definition overdueRooms :: "collation \<Rightarrow> string list \<Rightarrow> ResultDeadlineBatch \<Rightarrow> RoomRow list \<Rightarrow> RoomRow list" where
  "overdueRooms collate locked batch rows =
     take (nat (rdb_Limit batch)) (sort_cmp (compareOverdue collate) (filter (overdueRoom locked (pgTime (rdb_ExpiredAt batch))) rows))"

definition expireRoom :: "time \<Rightarrow> RoomRow \<Rightarrow> RoomRow" where
  "expireRoom expiredAt r = r\<lparr>rmr_status := RoomExpired, rmr_aggregate_version := rmr_aggregate_version r + 1, rmr_expired_at := Some (pgTime expiredAt)\<rparr>"

definition expireStatement :: "collation \<Rightarrow> string list \<Rightarrow> ResultDeadlineBatch \<Rightarrow> Database \<Rightarrow> (RoomRow list \<times> Database) result" where
  "expireStatement collate locked batch db =
     (let due = overdueRooms collate locked batch (db_rooms db) in
      if list_ex (\<lambda>r. 2 ^ 63 - 1 < rmr_aggregate_version r + 1) due then Inl numericOutOfRange
      else rbind (updateRows (\<lambda>r. rmr_room_id r \<in> set (map rmr_room_id due)) (expireRoom (rdb_ExpiredAt batch)) roomChecks (db_rooms db)) (\<lambda>(rows, n).
        Inr (map (expireRoom (rdb_ExpiredAt batch)) due, db\<lparr>db_rooms := rows\<rparr>)))"

definition scanExpired :: "ResultDeadlineBatch \<Rightarrow> RoomRow \<Rightarrow> ExpiredRoom" where
  "scanExpired batch r = \<lparr>xr_RoomID = rmr_room_id r, xr_RoomVersion = rmr_aggregate_version r, xr_ResultDeadline = the (rmr_result_deadline r),
     xr_ExpiredAt = rdb_ExpiredAt batch\<rparr>"

definition unfinished :: "SessionRow \<Rightarrow> bool" where
  "unfinished s \<longleftrightarrow> sn_status s = SessionAllocated \<or> sn_status s = SessionPlaying"

definition forfeitOpen :: "time \<Rightarrow> SessionRow \<Rightarrow> SessionRow" where
  "forfeitOpen expiredAt s = s\<lparr>sn_status := SessionForfeited, sn_forfeited_at := Some (pgTime expiredAt)\<rparr>"

fun expiredLoop :: "(string \<Rightarrow> string) \<Rightarrow> Faults \<Rightarrow> time \<Rightarrow> ExpiredRoom list \<Rightarrow> Database \<Rightarrow> Database result" where
  "expiredLoop hash flt expiredAt [] db = Inr db"
| "expiredLoop hash flt expiredAt (room # rooms) db =
     rbind (wrapR ''forfeit sessions for expired room %q: %w'' [ArgS (xr_RoomID room)] (stmt flt ''forfeit sessions''
       (updateSessions db (\<lambda>s. sn_room_id s = xr_RoomID room \<and> unfinished s) (forfeitOpen expiredAt)))) (\<lambda>db1.
     rbind (wrapR ''encode expired room event: %w'' [] (stmt flt ''encode event'' (Inr ()))) (\<lambda>_.
     rbind (mapErr (\<lambda>err. mapConflict err ErrResultConflict ''insert expired room event'') (stmt flt ''insert event'' (insertOutbox db1
       \<lparr>ob_ID = derivedEventID hash ''room-expired'' (xr_RoomID room) (xr_RoomVersion room), ob_AggregateType = outboxAggregateRoom,
        ob_AggregateID = xr_RoomID room, ob_AggregateVersion = xr_RoomVersion room, ob_Type = outboxRoomExpired,
        ob_Payload = RoomExpiredPayload room, ob_OccurredAt = xr_ExpiredAt room\<rparr>))) (\<lambda>db2.
     expiredLoop hash flt expiredAt rooms db2)))"

definition ExpireResultRooms ::
    "collation \<Rightarrow> string list \<Rightarrow> (string \<Rightarrow> string) \<Rightarrow> Faults \<Rightarrow> (Database, ResultDeadlineBatch, ExpiredRoom list) storeOp" where
  "ExpireResultRooms collate locked hash flt db batch =
     (case ResultDeadlineBatch_Validate batch of
        Some e \<Rightarrow> (Inl e, db)
      | None \<Rightarrow>
        tryTx db (wrapR ''begin result deadline expiry: %w'' [] (stmt flt ''begin'' (Inr ()))) (\<lambda>_.
        tryTx db (wrapR ''expire overdue result rooms: %w'' [] (stmt flt ''expire rooms'' (expireStatement collate locked batch db))) (\<lambda>(rows, db1).
        tryTx db (wrapR ''scan expired result room: %w'' [] (stmt flt ''scan room'' (Inr ()))) (\<lambda>_.
        tryTx db (wrapR ''read expired result rooms: %w'' [] (stmt flt ''read rooms'' (Inr (map (scanExpired batch) rows)))) (\<lambda>expired.
        tryTx db (expiredLoop hash flt (rdb_ExpiredAt batch) expired db1) (\<lambda>db2.
        commitTx flt (\<lambda>e. Errorf ''commit result deadline expiry: %w'' [] (Some e)) expired db db2))))))"

definition ResultStore ::
    "collation \<Rightarrow> string list \<Rightarrow> (digestInput \<Rightarrow> string result) \<Rightarrow> (string \<Rightarrow> string) \<Rightarrow> Faults \<Rightarrow> Database ResultRepository" where
  "ResultStore collate locked digest hash flt =
     \<lparr>rr_FinalizeResult = FinalizeResult collate digest hash flt, rr_ExpireResultRooms = ExpireResultRooms collate locked hash flt\<rparr>"

section \<open>Effects\<close>

text \<open>A finished session keeps who plays what where.\<close>

definition sameSession :: "SessionRow \<Rightarrow> SessionRow \<Rightarrow> bool" where
  "sameSession s s' \<longleftrightarrow> sn_session_id s' = sn_session_id s \<and> sn_ticket_id s' = sn_ticket_id s \<and> sn_room_id s' = sn_room_id s \<and>
     sn_player_id s' = sn_player_id s \<and> sn_seat s' = sn_seat s"

definition finished :: "SessionRow \<Rightarrow> bool" where
  "finished s \<longleftrightarrow> sn_status s = SessionSubmitted \<or> sn_status s = SessionForfeited"

definition closesSessions :: "string set \<Rightarrow> (SessionRow \<Rightarrow> SessionRow) \<Rightarrow> SessionRow list \<Rightarrow> bool" where
  "closesSessions ids f rows \<longleftrightarrow> (\<forall>s \<in> set rows. sameSession s (f s) \<and> (if sn_session_id s \<in> ids then finished (f s) else f s = s))"

lemma closesSessions_id: "closesSessions {} (\<lambda>s. s) rows"
  by (simp add: closesSessions_def sameSession_def)

lemma closesSessions_comp:
  assumes "closesSessions A f rows" "closesSessions B g (map f rows)"
  shows "closesSessions (A \<union> B) (g \<circ> f) rows"
  unfolding closesSessions_def
proof
  fix s assume "s \<in> set rows"
  then have f: "sameSession s (f s)" "if sn_session_id s \<in> A then finished (f s) else f s = s"
    and g: "sameSession (f s) (g (f s))" "if sn_session_id (f s) \<in> B then finished (g (f s)) else g (f s) = f s"
    using assms by (auto simp: closesSessions_def)
  have "sn_session_id (f s) = sn_session_id s" using f(1) by (simp add: sameSession_def)
  then show "sameSession s ((g \<circ> f) s) \<and> (if sn_session_id s \<in> A \<union> B then finished ((g \<circ> f) s) else (g \<circ> f) s = s)"
    using f g by (auto simp: sameSession_def split: if_splits)
qed

lemma updateSessions_Inr:
  "updateSessions db hit change = Inr db' \<longleftrightarrow> (\<forall>s \<in> set (db_sessions db). hit s \<longrightarrow> sessionChecks (change s)) \<and>
     db' = db\<lparr>db_sessions := map (\<lambda>s. if hit s then change s else s) (db_sessions db)\<rparr>"
  by (auto simp: updateSessions_def updateRows_Inr)

lemma finalizeSession_Inr:
  assumes "finalizeSession flt db p t = Inr db'"
  shows "\<exists>f. db' = db\<lparr>db_sessions := map f (db_sessions db)\<rparr> \<and> closesSessions {vp_SessionID p} f (db_sessions db)"
proof -
  obtain change where "change = submitSession t \<or> change = forfeitSession t"
      and "updateSessions db (\<lambda>s. sn_session_id s = vp_SessionID p) change = Inr db'"
    using assms by (auto simp: finalizeSession_def Let_def split: if_splits)
  then show ?thesis
    by (intro exI [of _ "\<lambda>s. if sn_session_id s = vp_SessionID p then change s else s"])
      (auto simp: updateSessions_Inr closesSessions_def sameSession_def finished_def submitSession_def forfeitSession_def)
qed

lemma insertParticipant_Inr:
  "insertParticipant db p = Inr db' \<longleftrightarrow> participantChecks p \<and> (\<forall>x \<in> set (db_participants db). \<not> participantClash p x) \<and>
     (\<exists>v \<in> set (db_results db). vr_event_id v = pt_event_id p \<and> vr_room_id v = pt_room_id p \<and> vr_room_capacity v = pt_room_capacity p) \<and>
     (\<exists>s \<in> set (db_sessions db). sn_session_id s = pt_session_id p \<and> sn_room_id s = pt_room_id p \<and> sn_player_id s = pt_player_id p) \<and>
     db' = db\<lparr>db_participants := db_participants db @ [p]\<rparr>"
  by (auto simp: insertParticipant_def insertRow_Inr list_ex_iff)

text \<open>A participant row refers to a session of its room and player.\<close>

definition playsIn :: "SessionRow list \<Rightarrow> ParticipantRow \<Rightarrow> bool" where
  "playsIn rows p \<longleftrightarrow> (\<exists>s \<in> set rows. sn_session_id s = pt_session_id p \<and> sn_room_id s = pt_room_id p \<and> sn_player_id s = pt_player_id p)"

lemma playsIn_closed: "closesSessions ids f rows \<Longrightarrow> playsIn (map f rows) p \<longleftrightarrow> playsIn rows p"
  by (auto simp: playsIn_def closesSessions_def sameSession_def)

lemma participantLoop_Inr:
  assumes "participantLoop flt command capacity ps db = Inr db'"
  shows "\<exists>f. db' = db\<lparr>db_sessions := map f (db_sessions db), db_participants := db_participants db @ map (newParticipantRow command capacity) ps\<rparr> \<and>
     closesSessions (vp_SessionID ` set ps) f (db_sessions db) \<and> distinct (map vp_SessionID ps) \<and>
     (\<forall>p \<in> set ps. playsIn (db_sessions db) (newParticipantRow command capacity p) \<and> vp_SessionID p \<notin> pt_session_id ` set (db_participants db))"
  using assms
proof (induction ps arbitrary: db)
  case Nil
  then show ?case by (auto intro!: exI [of _ "\<lambda>s. s"] simp: closesSessions_id)
next
  case (Cons p ps)
  let ?row = "newParticipantRow command capacity"
  obtain db1 db2 where db1: "insertParticipant db (?row p) = Inr db1" and db2: "finalizeSession flt db1 p (frc_FinishedAt command) = Inr db2"
      and rest: "participantLoop flt command capacity ps db2 = Inr db'"
    using Cons.prems by auto
  have db1': "db1 = db\<lparr>db_participants := db_participants db @ [?row p]\<rparr>" "playsIn (db_sessions db) (?row p)" "vp_SessionID p \<notin> pt_session_id ` set (db_participants db)"
    using db1 by (auto simp: insertParticipant_Inr playsIn_def participantClash_def newParticipantRow_def)
  obtain f where f: "db2 = db1\<lparr>db_sessions := map f (db_sessions db1)\<rparr>" "closesSessions {vp_SessionID p} f (db_sessions db)"
    using finalizeSession_Inr [OF db2] db1' by auto
  obtain g where g: "db' = db2\<lparr>db_sessions := map g (db_sessions db2), db_participants := db_participants db2 @ map ?row ps\<rparr>"
      "closesSessions (vp_SessionID ` set ps) g (db_sessions db2)" "distinct (map vp_SessionID ps)"
      "\<forall>p \<in> set ps. playsIn (db_sessions db2) (?row p) \<and> vp_SessionID p \<notin> pt_session_id ` set (db_participants db2)"
    using Cons.IH [OF rest] by blast
  have "closesSessions ({vp_SessionID p} \<union> vp_SessionID ` set ps) (g \<circ> f) (db_sessions db)"
    by (rule closesSessions_comp [OF f(2)]) (use f(1) g(2) db1'(1) in simp)
  moreover have "\<forall>q \<in> set ps. vp_SessionID q \<noteq> vp_SessionID p" using g(4) by (auto simp: f(1) db1'(1) newParticipantRow_def image_iff)
  moreover have "\<forall>q \<in> set ps. playsIn (db_sessions db) (?row q) \<and> vp_SessionID q \<notin> pt_session_id ` set (db_participants db)"
    using g(4) playsIn_closed [OF f(2)] by (auto simp: f(1) db1'(1))
  moreover have "db' = db\<lparr>db_sessions := map (g \<circ> f) (db_sessions db), db_participants := db_participants db @ map ?row (p # ps)\<rparr>"
    by (simp add: g(1) f(1) db1'(1))
  ultimately show ?case using g(3) db1'(2,3) by (intro exI [of _ "g \<circ> f"]) (auto simp: comp_def)
qed

text \<open>
  The terminal transitions of a room: what one committed result, or the expiry of one room, may have changed. The expiry of a
  batch is a sequence of single expiries.
\<close>

definition completedRoom :: "int \<Rightarrow> time \<Rightarrow> RoomRow \<Rightarrow> RoomRow" where
  "completedRoom version t r = r\<lparr>rmr_status := RoomCompleted, rmr_aggregate_version := version, rmr_completed_at := Some t\<rparr>"

inductive settle :: "Database \<Rightarrow> Database \<Rightarrow> bool" where
  complete: "\<lbrakk>room \<in> set (db_rooms db); rmr_status room = RoomCollecting; version = incInt64 (rmr_aggregate_version room);
      \<forall>r \<in> set (db_rooms db). rmr_room_id r = rmr_room_id room \<longrightarrow> roomChecks (completedRoom version t r);
      resultChecks v; vr_processed_at v = None; \<forall>x \<in> set (db_results db). \<not> resultClash v x; vr_room_id v = rmr_room_id room; vr_room_capacity v = rmr_capacity room;
      \<forall>p \<in> set ps. pt_event_id p = vr_event_id v \<and> pt_room_id p = vr_room_id v \<and> pt_room_capacity p = vr_room_capacity v \<and>
        playsIn (db_sessions db) p \<and> pt_session_id p \<notin> pt_session_id ` set (db_participants db);
      distinct (map pt_session_id ps); int (length (filter (\<lambda>p. pt_event_id p = vr_event_id v) (db_participants db @ ps))) = vr_room_capacity v;
      closesSessions (pt_session_id ` set ps) f (db_sessions db);
      announces ev outboxAggregateRoom (rmr_room_id room) version; fresh ev (db_outbox db)\<rbrakk>
    \<Longrightarrow> settle db (db\<lparr>db_rooms := onRoom (rmr_room_id room) (completedRoom version t) (db_rooms db), db_sessions := map f (db_sessions db),
          db_outbox := db_outbox db @ [ev], db_shadow_work := work, db_results := db_results db @ [v], db_participants := db_participants db @ ps\<rparr>)"
| expire: "\<lbrakk>room \<in> set (db_rooms db); rmr_status room = RoomCollecting; rmr_aggregate_version room + 1 < 2 ^ 63;
      \<forall>r \<in> set (db_rooms db). rmr_room_id r = rmr_room_id room \<longrightarrow> roomChecks (expireRoom t r);
      announces ev outboxAggregateRoom (rmr_room_id room) (rmr_aggregate_version room + 1); fresh ev (db_outbox db)\<rbrakk>
    \<Longrightarrow> settle db (db\<lparr>db_rooms := onRoom (rmr_room_id room) (expireRoom t) (db_rooms db),
          db_sessions := map (\<lambda>s. if sn_room_id s = rmr_room_id room \<and> unfinished s then forfeitOpen t s else s) (db_sessions db),
          db_outbox := db_outbox db @ [ev]\<rparr>)"

lemma insertResult_Inr:
  "insertResult db v = Inr db' \<Longrightarrow> resultChecks v \<and> (\<forall>x \<in> set (db_results db). \<not> resultClash v x) \<and> db' = db\<lparr>db_results := db_results db @ [v]\<rparr>"
  by (auto simp: insertResult_def insertRow_Inr)

lemma completeRoom_Inr:
  "completeRoom db i version t = Inr db' \<longleftrightarrow> (\<forall>r \<in> set (db_rooms db). rmr_room_id r = i \<longrightarrow> roomChecks (completedRoom version (pgTime t) r)) \<and>
     db' = db\<lparr>db_rooms := onRoom i (completedRoom version (pgTime t)) (db_rooms db)\<rparr>"
  by (auto simp: completeRoom_def updateRows_Inr onRoom_def completedRoom_def)

lemma lockResultRoom_Inr:
  "lockResultRoom db i = Inr room \<Longrightarrow> \<exists>r \<in> set (db_rooms db). rmr_room_id r = i \<and> rsr_id room = i \<and> rsr_status room = rmr_status r \<and>
     rsr_capacity room = rmr_capacity r \<and> rsr_version room = rmr_aggregate_version r"
  by (auto simp: lockResultRoom_def dest!: queryRow_Inr)

lemma insertRoomCompletedEvent_Inr:
  assumes "insertRoomCompletedEvent hash flt db result = Inr db'"
  obtains ev where "announces ev outboxAggregateRoom (mr_RoomID (fr_Result result)) (fr_RoomVersion result)" "fresh ev (db_outbox db)"
    "db' = db\<lparr>db_outbox := db_outbox db @ [ev]\<rparr>"
proof -
  obtain e where "insertOutbox db e = Inr db'" "ob_AggregateType e = outboxAggregateRoom" "ob_AggregateID e = mr_RoomID (fr_Result result)"
      "ob_AggregateVersion e = fr_RoomVersion result"
    using assms by (auto simp: insertRoomCompletedEvent_def)
  then show ?thesis using that [of "outboxRow e"] outboxRow_announces [of e] by (auto simp: insertOutbox_Inr)
qed

lemma recordResult_settle:
  assumes "recordResult hash flt db command dg room = (res, db')" "db' \<noteq> db"
    and "r \<in> set (db_rooms db)" "rmr_status r = RoomCollecting" "rmr_room_id r = frc_RoomID command" "rsr_id room = rmr_room_id r"
      "rsr_capacity room = rmr_capacity r" "rsr_version room = rmr_aggregate_version r"
  shows "settle db db'"
proof -
  let ?v = "newResultRow command dg (rmr_capacity r)" and ?ver = "incInt64 (rmr_aggregate_version r)" and ?t = "pgTime (frc_AcceptedAt command)"
  let ?ps = "map (newParticipantRow command (rmr_capacity r)) (frc_Participants command)"
  let ?result = "\<lparr>fr_Result = FinalizeResultCommand_MatchResult command, fr_RoomVersion = ?ver, fr_CompletedAt = frc_AcceptedAt command,
      fr_RatingPending = True, fr_Replay = False\<rparr>"
  obtain db1 db2 db3 db4 where
    db1: "insertResult db ?v = Inr db1" and
    db2: "participantLoop flt command (rmr_capacity r) (frc_Participants command) db1 = Inr db2" and
    db3: "completeRoom db2 (rmr_room_id r) ?ver (frc_AcceptedAt command) = Inr db3" and
    db4: "insertRoomCompletedEvent hash flt db3 ?result = Inr db4" and
    w: "insertShadowWork db4 ''result'' (frc_EventID command) (frc_AvailableAt command) 1 = Inr db'" and
    full: "storedResultComplete db' (frc_EventID command)"
    using assms(1,2,6-8) unfolding recordResult_def by (auto simp: tx_effect Let_def split: if_splits)
  note v = insertResult_Inr [OF db1]
  obtain f where f: "db2 = db1\<lparr>db_sessions := map f (db_sessions db1), db_participants := db_participants db1 @ ?ps\<rparr>"
      "closesSessions (vp_SessionID ` set (frc_Participants command)) f (db_sessions db1)" "distinct (map vp_SessionID (frc_Participants command))"
      "\<forall>p \<in> set (frc_Participants command). playsIn (db_sessions db1) (newParticipantRow command (rmr_capacity r) p) \<and> vp_SessionID p \<notin> pt_session_id ` set (db_participants db1)"
    using participantLoop_Inr [OF db2] by blast
  obtain ev where ev: "announces ev outboxAggregateRoom (rmr_room_id r) ?ver" "fresh ev (db_outbox db3)" "db4 = db3\<lparr>db_outbox := db_outbox db3 @ [ev]\<rparr>"
    using insertRoomCompletedEvent_Inr [OF db4] assms(5) by (auto simp: FinalizeResultCommand_MatchResult_def)
  have out: "db_outbox db3 = db_outbox db" "db_sessions db1 = db_sessions db" "db_participants db1 = db_participants db" "db_rooms db2 = db_rooms db"
    using db3 f(1) v by (simp_all add: completeRoom_Inr)
  have eq: "db' = db\<lparr>db_rooms := onRoom (rmr_room_id r) (completedRoom ?ver ?t) (db_rooms db), db_sessions := map f (db_sessions db),
      db_outbox := db_outbox db @ [ev], db_shadow_work := db_shadow_work db', db_results := db_results db @ [?v], db_participants := db_participants db @ ?ps\<rparr>"
    by (subst insertShadowWork_Inr [OF w]) (use ev(3) db3 f(1) v in \<open>simp add: completeRoom_Inr\<close>)
  have count: "int (length (filter (\<lambda>p. pt_event_id p = vr_event_id ?v) (db_participants db @ ?ps))) = vr_room_capacity ?v"
    using full by (subst (asm) eq) (simp add: storedResultComplete_def newResultRow_def Let_def)
  have ids: "map pt_session_id ?ps = map vp_SessionID (frc_Participants command)" "pt_session_id ` set ?ps = vp_SessionID ` set (frc_Participants command)"
    by (auto simp: newParticipantRow_def image_iff)
  have "settle db (db\<lparr>db_rooms := onRoom (rmr_room_id r) (completedRoom ?ver ?t) (db_rooms db), db_sessions := map f (db_sessions db),
      db_outbox := db_outbox db @ [ev], db_shadow_work := db_shadow_work db', db_results := db_results db @ [?v], db_participants := db_participants db @ ?ps\<rparr>)"
  proof (rule complete [OF assms(3,4) refl])
    show "\<forall>x \<in> set (db_rooms db). rmr_room_id x = rmr_room_id r \<longrightarrow> roomChecks (completedRoom ?ver ?t x)" using db3 out(4) by (simp add: completeRoom_Inr)
    show "\<forall>p \<in> set ?ps. pt_event_id p = vr_event_id ?v \<and> pt_room_id p = vr_room_id ?v \<and> pt_room_capacity p = vr_room_capacity ?v \<and>
        playsIn (db_sessions db) p \<and> pt_session_id p \<notin> pt_session_id ` set (db_participants db)"
      using f(4) out by (simp add: newParticipantRow_def newResultRow_def)
    show "distinct (map pt_session_id ?ps)" unfolding ids by (rule f(3))
    show "closesSessions (pt_session_id ` set ?ps) f (db_sessions db)" unfolding ids using f(2) out(2) by simp
  qed (use v ev(1,2) out(1) count assms(5) in \<open>simp_all add: newResultRow_def\<close>)
  then show ?thesis using eq by simp
qed

lemma commitResultReplay_store: "snd (commitResultReplay flt db stored storedDigest dg) = db"
  by (simp add: commitResultReplay_def commitTx_def split: option.splits)

lemma FinalizeResult_settle:
  assumes "FinalizeResult collate digest hash flt db command = (res, db')" "db' \<noteq> db"
  shows "settle db db'"
proof -
  have replay: "commitResultReplay flt db stored sd dg \<noteq> (res, db')" for stored sd dg
    using commitResultReplay_store [of flt db stored sd dg] assms(2) by auto
  obtain dg room where dg: "FinalizeResultCommand_RequestDigest digest command = Inr dg"
      and room: "lockResultRoom db (frc_RoomID command) = Inr room" "finalizeRoom collate hash flt db command dg room = (res, db')"
    using assms replay by (cases "loadFinalizedResult collate flt db ''event'' (frc_EventID command)")
      (auto simp: FinalizeResult_def tx_effect split: if_splits)
  have collecting: "rsr_status room = RoomCollecting"
    using room(2) assms(2) replay
    by (cases "loadFinalizedResult collate flt db ''room'' (frc_RoomID command)") (auto simp: finalizeRoom_def split: if_splits)
  have rec: "recordResult hash flt db command dg room = (res, db')"
    using room(2) assms(2) collecting by (auto simp: finalizeRoom_def tx_effect split: if_splits option.splits)
  obtain r where "r \<in> set (db_rooms db)" "rmr_room_id r = frc_RoomID command" "rsr_id room = frc_RoomID command" "rsr_status room = rmr_status r"
      "rsr_capacity room = rmr_capacity r" "rsr_version room = rmr_aggregate_version r"
    using lockResultRoom_Inr [OF room(1)] by blast
  then show ?thesis using recordResult_settle [OF rec assms(2)] collecting by simp
qed

definition expireAll :: "string list \<Rightarrow> time \<Rightarrow> Database \<Rightarrow> Database" where
  "expireAll ids t db = db\<lparr>db_rooms := map (\<lambda>r. if rmr_room_id r \<in> set ids then expireRoom t r else r) (db_rooms db)\<rparr>"

lemma expireRoom_sel [simp]:
  "rmr_room_id (expireRoom t r) = rmr_room_id r" "rmr_capacity (expireRoom t r) = rmr_capacity r" "rmr_status (expireRoom t r) = RoomExpired"
  "rmr_aggregate_version (expireRoom t r) = rmr_aggregate_version r + 1"
  by (simp_all add: expireRoom_def)

lemma scanExpired_sel [simp]: "xr_RoomID (scanExpired batch r) = rmr_room_id r" "xr_RoomVersion (scanExpired batch r) = rmr_aggregate_version r"
  by (simp_all add: scanExpired_def)

lemma distinct_map_sort_cmp: "distinct (map f (sort_cmp cmp xs)) \<longleftrightarrow> distinct (map f xs)"
  by (rule mset_eq_imp_distinct_iff) simp

text \<open>Updating every room first and then its sessions and events one by one is the same as expiring the rooms one by one.\<close>

lemma expiredLoop_settle:
  assumes "expiredLoop hash flt t (map (\<lambda>r. scanExpired batch (expireRoom t r)) due) (expireAll (map rmr_room_id due) t db) = Inr db'"
    and "distinct (map rmr_room_id due)" "\<forall>r \<in> set due. r \<in> set (db_rooms db) \<and> rmr_status r = RoomCollecting \<and> rmr_aggregate_version r + 1 < 2 ^ 63"
    and "\<forall>r \<in> set (db_rooms db). rmr_room_id r \<in> rmr_room_id ` set due \<longrightarrow> roomChecks (expireRoom t r)"
  shows "settle\<^sup>*\<^sup>* db db'"
  using assms
proof (induction due arbitrary: db)
  case Nil
  then show ?case by (simp add: expireAll_def)
next
  case (Cons room due)
  let ?i = "rmr_room_id room" and ?ids = "map rmr_room_id due"
  let ?f = "\<lambda>s. if sn_room_id s = ?i \<and> unfinished s then forfeitOpen t s else s"
  let ?all = "expireAll (?i # ?ids) t db"
  obtain db1 e db2 where db1: "updateSessions ?all (\<lambda>s. sn_room_id s = ?i \<and> unfinished s) (forfeitOpen t) = Inr db1"
    and db2: "insertOutbox db1 e = Inr db2" "ob_AggregateType e = outboxAggregateRoom" "ob_AggregateID e = ?i" "ob_AggregateVersion e = rmr_aggregate_version room + 1"
    and rest: "expiredLoop hash flt t (map (\<lambda>r. scanExpired batch (expireRoom t r)) due) db2 = Inr db'"
    using Cons.prems(1) by auto
  let ?one = "db\<lparr>db_rooms := onRoom ?i (expireRoom t) (db_rooms db), db_sessions := map ?f (db_sessions db), db_outbox := db_outbox db @ [outboxRow e]\<rparr>"
  have "db2 = expireAll ?ids t ?one"
    using db1 db2(1) Cons.prems(2) by (auto simp: updateSessions_Inr insertOutbox_Inr expireAll_def onRoom_def comp_def)
  moreover have "settle db ?one"
    using Cons.prems(3,4) db1 db2 outboxRow_announces [of e]
    by (intro expire) (auto simp: updateSessions_Inr insertOutbox_Inr expireAll_def)
  moreover have "\<forall>r \<in> set due. r \<in> set (db_rooms ?one) \<and> rmr_status r = RoomCollecting \<and> rmr_aggregate_version r + 1 < 2 ^ 63"
    using Cons.prems(2,3) by (force simp: onRoom_def image_iff)
  moreover have "\<forall>r \<in> set (db_rooms ?one). rmr_room_id r \<in> rmr_room_id ` set due \<longrightarrow> roomChecks (expireRoom t r)"
    using Cons.prems(2,4) by (auto simp: onRoom_def)
  ultimately show ?case using Cons.IH [of ?one] rest Cons.prems(2) by (auto intro: converse_rtranclp_into_rtranclp)
qed

lemma ExpireResultRooms_settle:
  assumes "ExpireResultRooms collate locked hash flt db batch = (res, db')" "distinct (map rmr_room_id (db_rooms db))"
  shows "settle\<^sup>*\<^sup>* db db'"
proof (cases "db' = db")
  case False
  let ?due = "overdueRooms collate locked batch (db_rooms db)" and ?t = "rdb_ExpiredAt batch"
  obtain rows db1 where st: "expireStatement collate locked batch db = Inr (rows, db1)"
      and loop: "expiredLoop hash flt ?t (map (scanExpired batch) rows) db1 = Inr db'"
    using assms(1) False by (auto simp: ExpireResultRooms_def tx_effect split: option.splits)
  have "set ?due \<subseteq> set (filter (overdueRoom locked (pgTime ?t)) (db_rooms db))"
    using in_set_takeD unfolding overdueRooms_def by (metis set_sort_cmp subsetI)
  then have due: "\<forall>r \<in> set ?due. r \<in> set (db_rooms db) \<and> rmr_status r = RoomCollecting" by (auto simp: overdueRoom_def)
  have dist: "distinct (map rmr_room_id ?due)"
    using assms(2) unfolding overdueRooms_def by (simp add: take_map [symmetric] distinct_map_sort_cmp distinct_map_filter)
  have eq: "rows = map (expireRoom ?t) ?due" "db1 = expireAll (map rmr_room_id ?due) ?t db"
      and ver: "\<forall>r \<in> set ?due. rmr_aggregate_version r + 1 < 2 ^ 63"
      and chk: "\<forall>r \<in> set (db_rooms db). rmr_room_id r \<in> rmr_room_id ` set ?due \<longrightarrow> roomChecks (expireRoom ?t r)"
    using st by (auto simp: expireStatement_def updateRows_Inr expireAll_def list_ex_iff Let_def split: if_splits)
  show ?thesis by (rule expiredLoop_settle [OF _ dist]) (use loop due ver chk eq in \<open>auto simp: comp_def\<close>)
qed simp

end
