(* ===== verification/Rating_Queue.thy ===== *)
theory Rating_Queue
  imports Result_Store
begin

text \<open>
  \<^verbatim>\<open>internal/postgres/rating_queue.go\<close> with the claims of \<^verbatim>\<open>internal/worker/rating.go\<close>: verified results are rated one at a
  time, in the order of their availability; a claimed head blocks the queue. \<open>Exp\<close> is \<^verbatim>\<open>math.Exp\<close>, \<open>clock\<close> the database clock.
\<close>

section \<open>Claims\<close>

definition outboxResultRated :: string where "outboxResultRated = ''result.rated''"

definition ErrRatingClaimLost :: goerr where "ErrRatingClaimLost = ErrorsNew ''rating claim is no longer active''"

record RatingClaimRequest =
  rcr_Token :: string
  rcr_ClaimedAt :: time
  rcr_LeaseUntil :: time

definition RatingClaimRequest_Validate :: "RatingClaimRequest \<Rightarrow> error" where
  "RatingClaimRequest_Validate request =
     (if rcr_Token request = '''' \<or> IsZero (rcr_ClaimedAt request) \<or> \<not> After (rcr_LeaseUntil request) (rcr_ClaimedAt request)
      then Some (ErrorsNew ''rating claim requires a token and a positive lease'') else None)"

record RatingClaim =
  rcl_EventID :: string
  rcl_Token :: string
  rcl_Attempt :: int
  rcl_LeaseUntil :: time

definition RatingClaim_Validate :: "RatingClaim \<Rightarrow> error" where
  "RatingClaim_Validate claim =
     (if rcl_EventID claim = '''' \<or> rcl_Token claim = '''' \<or> rcl_Attempt claim \<le> 0 \<or> IsZero (rcl_LeaseUntil claim)
      then Some (ErrorsNew ''rating claim is incomplete'') else None)"

definition compareResults :: "collation \<Rightarrow> ResultRow \<Rightarrow> ResultRow \<Rightarrow> int" where
  "compareResults collate a b =
     (if time_Compare (vr_available_at a) (vr_available_at b) \<noteq> 0 then time_Compare (vr_available_at a) (vr_available_at b)
      else collate (vr_event_id a) (vr_event_id b))"

definition ratingHead :: "collation \<Rightarrow> Database \<Rightarrow> ResultRow result" where
  "ratingHead collate db = queryRow (sort_cmp (compareResults collate) (filter (\<lambda>v. vr_processed_at v = None) (db_results db)))"

definition updateResults :: "Database \<Rightarrow> (ResultRow \<Rightarrow> bool) \<Rightarrow> (ResultRow \<Rightarrow> ResultRow) \<Rightarrow> (nat \<times> Database) result" where
  "updateResults db hit change =
     rbind (updateRows hit change resultChecks (db_results db)) (\<lambda>(rows, n). Inr (n, db\<lparr>db_results := rows\<rparr>))"

definition claimResult :: "RatingClaimRequest \<Rightarrow> ResultRow \<Rightarrow> ResultRow" where
  "claimResult request v = v\<lparr>vr_claim_token := Some (rcr_Token request), vr_claimed_until := Some (pgTime (rcr_LeaseUntil request)),
     vr_attempt_count := vr_attempt_count v + 1\<rparr>"

definition claimResultStatement :: "RatingClaimRequest \<Rightarrow> Database \<Rightarrow> string \<Rightarrow> (RatingClaim \<times> Database) result" where
  "claimResultStatement request db eventID =
     rbind (queryRow (filter (\<lambda>v. vr_event_id v = eventID) (db_results db))) (\<lambda>v.
     if 2 ^ 31 - 1 < vr_attempt_count v + 1 then Inl numericOutOfRange
     else rbind (updateResults db (\<lambda>v. vr_event_id v = eventID) (claimResult request)) (\<lambda>(n, db1).
       Inr (\<lparr>rcl_EventID = eventID, rcl_Token = rcr_Token request, rcl_Attempt = vr_attempt_count v + 1,
              rcl_LeaseUntil = pgTime (rcr_LeaseUntil request)\<rparr>, db1)))"

text \<open>A commit that touched a result first runs its deferred trigger.\<close>

definition commitResult :: "Faults \<Rightarrow> (goerr \<Rightarrow> goerr) \<Rightarrow> string \<Rightarrow> 'a \<Rightarrow> Database \<Rightarrow> Database \<Rightarrow> 'a result \<times> Database" where
  "commitResult flt wrap eventID x db db' =
     (if \<not> storedResultComplete db' eventID then (Inl (wrap checkViolation), db) else commitTx flt wrap x db db')"

definition ClaimNextRatingResult :: "collation \<Rightarrow> Faults \<Rightarrow> Database \<Rightarrow> RatingClaimRequest \<Rightarrow> RatingClaim option result \<times> Database" where
  "ClaimNextRatingResult collate flt db request =
     (case RatingClaimRequest_Validate request of
        Some e \<Rightarrow> (Inl e, db)
      | None \<Rightarrow>
        tryTx db (wrapR ''begin rating claim: %w'' [] (stmt flt ''begin'' (Inr ()))) (\<lambda>_.
        case stmt flt ''lock head'' (ratingHead collate db) of
          Inl err \<Rightarrow> if errors_Is err ErrNoRows then commitTx flt (\<lambda>e. Errorf ''commit empty rating claim: %w'' [] (Some e)) None db db
                     else (Inl (Errorf ''lock rating queue head: %w'' [] (Some err)), db)
        | Inr v \<Rightarrow>
            if After (the (vr_next_attempt_at v)) (rcr_ClaimedAt request) \<or>
               (case vr_claimed_until v of None \<Rightarrow> False | Some u \<Rightarrow> After u (rcr_ClaimedAt request))
            then commitTx flt (\<lambda>e. Errorf ''commit blocked rating claim: %w'' [] (Some e)) None db db
            else tryTx db (wrapR ''claim rating result: %w'' [] (stmt flt ''claim result'' (claimResultStatement request db (vr_event_id v)))) (\<lambda>(claim, db1).
              case RatingClaim_Validate claim of
                Some e \<Rightarrow> (Inl (Errorf ''validate rating claim: %w'' [] (Some e)), db)
              | None \<Rightarrow> commitResult flt (\<lambda>e. Errorf ''commit rating claim: %w'' [] (Some e)) (vr_event_id v) (Some claim) db db1)))"

definition holdsResultLease :: "time \<Rightarrow> string \<Rightarrow> string \<Rightarrow> ResultRow \<Rightarrow> bool" where
  "holdsResultLease clock eventID claimToken v \<longleftrightarrow>
     vr_event_id v = eventID \<and> vr_processed_at v = None \<and> vr_claim_token v = Some claimToken \<and>
     (case vr_claimed_until v of None \<Rightarrow> False | Some u \<Rightarrow> clock < u)"

definition ScheduleRatingRetry :: "time \<Rightarrow> Faults \<Rightarrow> Database \<Rightarrow> string \<Rightarrow> string \<Rightarrow> time \<Rightarrow> error \<times> Database" where
  "ScheduleRatingRetry clock flt db eventID claimToken retryAt =
     (if eventID = '''' \<or> claimToken = '''' \<or> IsZero retryAt then (Some (ErrorsNew ''result, claim and retry time are required''), db)
      else case autoCommit flt ''schedule rating retry'' db
        (rbind (updateResults db (holdsResultLease clock eventID claimToken)
            (\<lambda>v. v\<lparr>vr_next_attempt_at := Some (pgTime retryAt), vr_claim_token := None, vr_claimed_until := None\<rparr>)) (\<lambda>(n, db1).
         if \<not> storedResultComplete db1 eventID then Inl checkViolation else Inr (n, db1))) of
          (Inl err, db1) \<Rightarrow> (Some (Errorf ''schedule rating retry: %w'' [] (Some err)), db1)
        | (Inr affected, db1) \<Rightarrow> (if affected \<noteq> 1 then Some ErrRatingClaimLost else None, db1))"

section \<open>Rating a result\<close>

definition lockClaimedRatingResult :: "time \<Rightarrow> Faults \<Rightarrow> Database \<Rightarrow> RatingClaim \<Rightarrow> (MatchResult \<times> string) result" where
  "lockClaimedRatingResult clock flt db claim =
     mapErr (\<lambda>err. if errors_Is err ErrNoRows then ErrRatingClaimLost else Errorf ''lock claimed rating result: %w'' [] (Some err))
       (stmt flt ''lock result'' (rbind (queryRow (filter (\<lambda>(v, r). rmr_room_id r = vr_room_id v \<and> holdsResultLease clock (rcl_EventID claim) (rcl_Token claim) v)
          (List.product (db_results db) (db_rooms db)))) (\<lambda>(v, r). Inr (scanResult v [], rmr_rating_model_version r))))"

definition ratingParticipantRows :: "collation \<Rightarrow> Database \<Rightarrow> string \<Rightarrow> (ParticipantRow \<times> MembershipRow \<times> TicketRow) list" where
  "ratingParticipantRows collate db eventID =
     sort_cmp (\<lambda>(a, _) (b, _). collate (pt_player_id a) (pt_player_id b))
       (filter (\<lambda>(p, m, t). mb_room_id m = pt_room_id p \<and> mb_player_id m = pt_player_id p \<and> tkr_id t = mb_ticket_id m \<and> pt_event_id p = eventID)
          (List.product (db_participants db) (List.product (db_memberships db) (db_tickets db))))"

definition loadRatingParticipants :: "collation \<Rightarrow> Faults \<Rightarrow> Database \<Rightarrow> MatchResult \<Rightarrow> (MatchResult \<times> (string \<rightharpoonup> Estimate)) result" where
  "loadRatingParticipants collate flt db result =
     rbind (wrapR ''load rating participants: %w'' [] (stmt flt ''load participants'' (Inr (ratingParticipantRows collate db (mr_EventID result))))) (\<lambda>rows.
     rbind (wrapR ''scan rating participant: %w'' [] (stmt flt ''scan participant'' (Inr ()))) (\<lambda>_.
     rbind (wrapR ''read rating participants: %w'' [] (stmt flt ''read participants'' (Inr ()))) (\<lambda>_.
     Inr (result\<lparr>mr_Participants := mr_Participants result @
            map (\<lambda>(p, _). \<lparr>pr_PlayerID = pt_player_id p, pr_Place = pt_place p, pr_Features = pt_features p\<rparr>) rows\<rparr>,
          map_of (rev (map (\<lambda>(p, _, t). (pt_player_id p, tk_RatingSnapshot (tkr_ticket t))) rows))))))"

definition ratingKey :: "string \<Rightarrow> string \<Rightarrow> string \<Rightarrow> PlayerRatingRow \<Rightarrow> bool" where
  "ratingKey playerID modeID modelVersion r \<longleftrightarrow> plr_player_id r = playerID \<and> plr_mode_id r = modeID \<and> plr_model_version r = modelVersion"

definition lockCurrentRating :: "Database \<Rightarrow> string \<Rightarrow> string \<Rightarrow> string \<Rightarrow> Estimate result" where
  "lockCurrentRating db playerID modeID modelVersion =
     rbind (queryRow (filter (ratingKey playerID modeID modelVersion) (db_ratings db))) (\<lambda>r. Inr (plr_estimate r))"

fun estimateLoop ::
    "Faults \<Rightarrow> Database \<Rightarrow> string \<Rightarrow> string \<Rightarrow> (string \<rightharpoonup> Estimate) \<Rightarrow> ParticipantResult list \<Rightarrow> (string \<rightharpoonup> Estimate) \<Rightarrow> (string \<rightharpoonup> Estimate) result" where
  "estimateLoop flt db modeID modelVersion snapshots [] estimates = Inr estimates"
| "estimateLoop flt db modeID modelVersion snapshots (p # ps) estimates =
     (case stmt flt ''lock rating'' (lockCurrentRating db (pr_PlayerID p) modeID modelVersion) of
        Inr current \<Rightarrow> estimateLoop flt db modeID modelVersion snapshots ps (estimates(pr_PlayerID p \<mapsto> current))
      | Inl err \<Rightarrow>
          if errors_Is err ErrNoRows
          then estimateLoop flt db modeID modelVersion snapshots ps (estimates(pr_PlayerID p \<mapsto> estimateAt snapshots (pr_PlayerID p)))
          else Inl (Errorf ''lock current rating for player %q: %w'' [ArgS (pr_PlayerID p)] (Some err)))"

definition newUpdateRow :: "string \<Rightarrow> RatingUpdate \<Rightarrow> RatingUpdateRow" where
  "newUpdateRow modeID update =
     \<lparr>rur_player_id = ru_PlayerID update, rur_mode_id = modeID, rur_source_event_id = ru_SourceEventID update, rur_model_version = ru_ModelVersion update,
      rur_before = (pgEstimate (ru_Before update))\<lparr>est_ModelVersion := ru_ModelVersion update\<rparr>,
      rur_after = (pgEstimate (ru_After update))\<lparr>est_ModelVersion := ru_ModelVersion update\<rparr>, rur_processed_at = pgTime (ru_ProcessedAt update)\<rparr>"

definition updateClash :: "RatingUpdateRow \<Rightarrow> RatingUpdateRow \<Rightarrow> bool" where
  "updateClash a b \<longleftrightarrow> rur_player_id a = rur_player_id b \<and> rur_source_event_id a = rur_source_event_id b \<and> rur_model_version a = rur_model_version b"

definition insertRatingHistory :: "Database \<Rightarrow> RatingUpdateRow \<Rightarrow> Database result" where
  "insertRatingHistory db row =
     (if \<not> bigint (est_Games (rur_before row)) \<or> \<not> bigint (est_Games (rur_after row)) then Inl encodeError
      else rbind (insertRow ratingUpdateChecks updateClash
         (\<lambda>u. list_ex (\<lambda>p. pt_event_id p = rur_source_event_id u \<and> pt_player_id p = rur_player_id u) (db_participants db) \<and>
              list_ex (\<lambda>v. vr_event_id v = rur_source_event_id u \<and> vr_mode_id v = rur_mode_id u) (db_results db) \<and>
              rur_model_version u \<in> set (db_models db)) row (db_rating_updates db))
       (\<lambda>rows. Inr (db\<lparr>db_rating_updates := rows\<rparr>)))"

text \<open>The upsert of the current rating: a new row has revision one, a stored one is replaced and counts its revision.\<close>

definition newRatingRow :: "string \<Rightarrow> RatingUpdate \<Rightarrow> PlayerRatingRow" where
  "newRatingRow modeID update =
     \<lparr>plr_player_id = ru_PlayerID update, plr_mode_id = modeID,
      plr_estimate = (pgEstimate (ru_After update))\<lparr>est_ModelVersion := ru_ModelVersion update\<rparr>, plr_revision = 1\<rparr>"

definition upsertRating :: "Database \<Rightarrow> PlayerRatingRow \<Rightarrow> Database result" where
  "upsertRating db row =
     (let hit = ratingKey (plr_player_id row) (plr_mode_id row) (plr_model_version row);
          change = (\<lambda>r. r\<lparr>plr_estimate := plr_estimate row, plr_revision := plr_revision r + 1\<rparr>) in
      if \<not> playerRatingChecks row then Inl checkViolation
      else if list_ex hit (db_ratings db)
      then if list_ex (\<lambda>r. hit r \<and> 2 ^ 63 - 1 < plr_revision r + 1) (db_ratings db) then Inl numericOutOfRange
        else rbind (updateRows hit change playerRatingChecks (db_ratings db)) (\<lambda>(rows, n). Inr (db\<lparr>db_ratings := rows\<rparr>))
      else if plr_model_version row \<notin> set (db_models db) then Inl foreignKeyViolation
      else Inr (db\<lparr>db_ratings := db_ratings db @ [row]\<rparr>))"

definition persistRatingUpdate :: "Faults \<Rightarrow> Database \<Rightarrow> string \<Rightarrow> RatingUpdate \<Rightarrow> Database result" where
  "persistRatingUpdate flt db modeID update =
     rbind (wrapR ''insert rating history for player %q: %w'' [ArgS (ru_PlayerID update)] (stmt flt ''insert history''
       (insertRatingHistory db (newUpdateRow modeID update)))) (\<lambda>db1.
     wrapR ''store current rating for player %q: %w'' [ArgS (ru_PlayerID update)] (stmt flt ''store rating''
       (upsertRating db1 (newRatingRow modeID update))))"

fun persistLoop :: "Faults \<Rightarrow> string \<Rightarrow> RatingUpdate list \<Rightarrow> Database \<Rightarrow> Database result" where
  "persistLoop flt modeID [] db = Inr db"
| "persistLoop flt modeID (update # updates) db =
     (if \<not> bigint (est_Games (ru_After update))
      then Inl (Errorf ''rating games for player %q exceed PostgreSQL bigint'' [ArgS (ru_PlayerID update)] None)
      else rbind (persistRatingUpdate flt db modeID update) (persistLoop flt modeID updates))"

definition markProcessed :: "Database \<Rightarrow> RatingClaim \<Rightarrow> time \<Rightarrow> (nat \<times> Database) result" where
  "markProcessed db claim processedAt =
     updateResults db (\<lambda>v. vr_event_id v = rcl_EventID claim \<and> vr_claim_token v = Some (rcl_Token claim) \<and> vr_processed_at v = None)
       (\<lambda>v. v\<lparr>vr_processed_at := Some (pgTime processedAt), vr_next_attempt_at := None, vr_claim_token := None, vr_claimed_until := None\<rparr>)"

text \<open>The writes of one rated result.\<close>

definition storeRatings ::
    "(string \<Rightarrow> string) \<Rightarrow> Faults \<Rightarrow> Database \<Rightarrow> RatingClaim \<Rightarrow> time \<Rightarrow> MatchResult \<Rightarrow> string \<Rightarrow> RatingUpdate list \<Rightarrow> int result \<times> Database" where
  "storeRatings hash flt db claim processedAt result modelVersion updates =
     tryTx db (persistLoop flt (mr_ModeID result) updates db) (\<lambda>db1.
     tryTx db (wrapR ''mark rating result processed: %w'' [] (stmt flt ''mark processed'' (markProcessed db1 claim processedAt))) (\<lambda>(affected, db2).
     if affected \<noteq> 1 then (Inl ErrRatingClaimLost, db)
     else tryTx db (wrapR ''encode rated result event: %w'' [] (stmt flt ''encode event'' (Inr ()))) (\<lambda>_.
     tryTx db (wrapR ''insert rated result event: %w'' [] (stmt flt ''insert event'' (insertOutbox db2
       \<lparr>ob_ID = derivedEventID hash ''result-rated'' (mr_EventID result) 1, ob_AggregateType = ''result'', ob_AggregateID = mr_EventID result,
        ob_AggregateVersion = 1, ob_Type = outboxResultRated,
        ob_Payload = ResultRatedPayload (mr_EventID result) (mr_ModeID result) modelVersion processedAt updates, ob_OccurredAt = processedAt\<rparr>))) (\<lambda>db3.
     commitResult flt (\<lambda>e. Errorf ''commit rating processing: %w'' [] (Some e)) (rcl_EventID claim) (int (length updates)) db db3))))"

definition ProcessRatingResult ::
    "(f64 \<Rightarrow> f64) \<Rightarrow> collation \<Rightarrow> (string \<Rightarrow> string) \<Rightarrow> time \<Rightarrow> Faults \<Rightarrow> Database \<Rightarrow> RatingClaim \<Rightarrow> time \<Rightarrow> int result \<times> Database" where
  "ProcessRatingResult Exp collate hash clock flt db claim processedAt =
     (case RatingClaim_Validate claim of
        Some e \<Rightarrow> (Inl e, db)
      | None \<Rightarrow>
        if IsZero processedAt then (Inl (ErrorsNew ''rating processing time is required''), db)
        else tryTx db (wrapR ''begin rating processing: %w'' [] (stmt flt ''begin'' (Inr ()))) (\<lambda>_.
        tryTx db (lockClaimedRatingResult clock flt db claim) (\<lambda>(locked, modelVersion).
        tryTx db (loadRatingParticipants collate flt db locked) (\<lambda>(result, snapshots).
        tryTx db (wrapR ''construct rating model: %w'' [] (NewBaseline (DefaultBaselineConfig modelVersion))) (\<lambda>model.
        tryTx db (estimateLoop flt db (mr_ModeID result) modelVersion snapshots (mr_Participants result) Map.empty) (\<lambda>estimates.
        tryTx db (wrapR ''calculate rating update: %w'' [] (Baseline_Update Exp model result estimates processedAt)) (\<lambda>updates.
        storeRatings hash flt db claim processedAt result modelVersion updates)))))))"

record 's RatingQueue =
  rq_ClaimNextRatingResult :: "'s \<Rightarrow> RatingClaimRequest \<Rightarrow> RatingClaim option result \<times> 's"
  rq_ProcessRatingResult :: "'s \<Rightarrow> RatingClaim \<Rightarrow> time \<Rightarrow> int result \<times> 's"
  rq_ScheduleRatingRetry :: "'s \<Rightarrow> string \<Rightarrow> string \<Rightarrow> time \<Rightarrow> error \<times> 's"

definition RatingStore :: "(f64 \<Rightarrow> f64) \<Rightarrow> collation \<Rightarrow> (string \<Rightarrow> string) \<Rightarrow> time \<Rightarrow> Faults \<Rightarrow> Database RatingQueue" where
  "RatingStore Exp collate hash clock flt =
     \<lparr>rq_ClaimNextRatingResult = ClaimNextRatingResult collate flt, rq_ProcessRatingResult = ProcessRatingResult Exp collate hash clock flt,
      rq_ScheduleRatingRetry = ScheduleRatingRetry clock flt\<rparr>"

section \<open>Effects\<close>

text \<open>Claiming and postponing a result change nothing but its schedule and claim.\<close>

definition sameResult :: "ResultRow \<Rightarrow> ResultRow \<Rightarrow> bool" where
  "sameResult v v' \<longleftrightarrow> vr_event_id v' = vr_event_id v \<and> vr_request_digest v' = vr_request_digest v \<and> vr_room_id v' = vr_room_id v \<and>
     vr_room_capacity v' = vr_room_capacity v \<and> vr_mode_id v' = vr_mode_id v \<and> vr_available_at v' = vr_available_at v"

definition resultsRescheduled :: "Database \<Rightarrow> Database \<Rightarrow> bool" where
  "resultsRescheduled db db' \<longleftrightarrow> (\<exists>f. db' = db\<lparr>db_results := map f (db_results db)\<rparr> \<and>
     (\<forall>v \<in> set (db_results db). sameResult v (f v) \<and> vr_processed_at (f v) = vr_processed_at v \<and> (resultChecks v \<longrightarrow> resultChecks (f v))))"

lemma updateResults_Inr:
  "updateResults db hit change = Inr (n, db') \<longleftrightarrow> (\<forall>v \<in> set (db_results db). hit v \<longrightarrow> resultChecks (change v)) \<and>
     db' = db\<lparr>db_results := map (\<lambda>v. if hit v then change v else v) (db_results db)\<rparr> \<and> n = length (filter hit (db_results db))"
  by (auto simp: updateResults_def updateRows_Inr)

lemma updateResults_rescheduled:
  assumes "updateResults db hit change = Inr (n, db')" "\<And>v. sameResult v (change v) \<and> vr_processed_at (change v) = vr_processed_at v"
  shows "resultsRescheduled db db'"
  unfolding resultsRescheduled_def
  by (rule exI [of _ "\<lambda>v. if hit v then change v else v"]) (use assms in \<open>auto simp: updateResults_Inr sameResult_def\<close>)

lemma commitResult_effect [tx_effect]:
  "db' \<noteq> db \<Longrightarrow> commitResult flt wrap i x db db1 = (res, db') \<longleftrightarrow> storedResultComplete db1 i \<and> db' = db1 \<and> commitAnswer flt wrap x res"
  by (auto simp: commitResult_def commitTx_effect)

lemma ClaimNextRatingResult_rescheduled:
  assumes "ClaimNextRatingResult collate flt db request = (res, db')" "db' \<noteq> db"
  shows "resultsRescheduled db db'"
proof -
  obtain claim i where "claimResultStatement request db i = Inr (claim, db')"
    using assms by (auto simp: ClaimNextRatingResult_def tx_effect split: option.splits sum.splits if_splits)
  then obtain n where "updateResults db (\<lambda>v. vr_event_id v = i) (claimResult request) = Inr (n, db')"
    by (auto simp: claimResultStatement_def split: if_splits)
  then show ?thesis by (rule updateResults_rescheduled) (simp add: claimResult_def sameResult_def)
qed

lemma ScheduleRatingRetry_rescheduled:
  assumes "ScheduleRatingRetry clock flt db i token t = (res, db')" "db' \<noteq> db"
  shows "resultsRescheduled db db'"
proof -
  let ?change = "\<lambda>v. v\<lparr>vr_next_attempt_at := Some (pgTime t), vr_claim_token := None, vr_claimed_until := None\<rparr>"
  let ?update = "rbind (updateResults db (holdsResultLease clock i token) ?change) (\<lambda>(n, db1). if \<not> storedResultComplete db1 i then Inl checkViolation else Inr (n, db1))"
  obtain n where "?update = Inr (n, db')"
    using assms autoCommit_effect [of flt "''schedule rating retry''" db ?update]
    unfolding ScheduleRatingRetry_def by (cases "autoCommit flt ''schedule rating retry'' db ?update") (auto split: if_splits sum.splits)
  then have "updateResults db (holdsResultLease clock i token) ?change = Inr (n, db')" by (auto split: if_splits)
  then show ?thesis by (rule updateResults_rescheduled) (simp add: sameResult_def)
qed

text \<open>The history of a player in a mode under a model, in the order it was written, and the current rating as its last entry.\<close>

definition ratingHistory :: "RatingUpdateRow list \<Rightarrow> string \<Rightarrow> string \<Rightarrow> string \<Rightarrow> RatingUpdateRow list" where
  "ratingHistory rows p m v = filter (\<lambda>u. rur_player_id u = p \<and> rur_mode_id u = m \<and> rur_model_version u = v) rows"

fun chained :: "RatingUpdateRow list \<Rightarrow> bool" where
  "chained (u # w # us) = (rur_before w = rur_after u \<and> chained (w # us))"
| "chained us = True"

fun summarizes :: "RatingUpdateRow list \<Rightarrow> PlayerRatingRow option \<Rightarrow> bool" where
  "summarizes h None = (h = [])"
| "summarizes h (Some r) = (h \<noteq> [] \<and> plr_estimate r = rur_after (last h) \<and> plr_revision r = int (length h))"

definition ratingTables :: "PlayerRatingRow list \<Rightarrow> RatingUpdateRow list \<Rightarrow> bool" where
  "ratingTables rs us \<longleftrightarrow> (\<forall>u \<in> set us. pgTime (est_UpdatedAt (rur_after u)) = est_UpdatedAt (rur_after u)) \<and>
     (\<forall>p m v. chained (ratingHistory us p m v) \<and> summarizes (ratingHistory us p m v) (List.find (ratingKey p m v) rs))"

lemma chained_append: "chained (us @ [w]) \<longleftrightarrow> chained us \<and> (us \<noteq> [] \<longrightarrow> rur_before w = rur_after (last us))"
  by (induction us rule: chained.induct) auto

lemma ratingHistory_append: "ratingHistory (us @ ws) p m v = ratingHistory us p m v @ ratingHistory ws p m v"
  by (simp add: ratingHistory_def)

text \<open>The upsert replaces the current rating of its key and no other.\<close>

lemma find_upsert:
  assumes "upsertRating db row = Inr db'"
  shows "db' = db\<lparr>db_ratings := db_ratings db'\<rparr> \<and> List.find (ratingKey p m v) (db_ratings db') =
    (if ratingKey p m v row
     then Some (case List.find (ratingKey p m v) (db_ratings db) of
        None \<Rightarrow> row | Some r \<Rightarrow> r\<lparr>plr_estimate := plr_estimate row, plr_revision := plr_revision r + 1\<rparr>)
     else List.find (ratingKey p m v) (db_ratings db))"
proof -
  let ?hit = "ratingKey (plr_player_id row) (plr_mode_id row) (plr_model_version row)"
  let ?change = "\<lambda>r. r\<lparr>plr_estimate := plr_estimate row, plr_revision := plr_revision r + 1\<rparr>"
  have same: "ratingKey p m v (if ?hit r then ?change r else r) = ratingKey p m v r" for r by (auto simp: ratingKey_def)
  have find: "List.find (ratingKey p m v) (map (\<lambda>r. if ?hit r then ?change r else r) rows)
      = map_option (\<lambda>r. if ?hit r then ?change r else r) (List.find (ratingKey p m v) rows)" for rows
    by (induction rows) (simp_all add: same)
  show ?thesis
  proof (cases "list_ex ?hit (db_ratings db)")
    case True
    then have db': "db' = db\<lparr>db_ratings := map (\<lambda>r. if ?hit r then ?change r else r) (db_ratings db)\<rparr>"
      using assms by (auto simp: upsertRating_def Let_def updateRows_Inr split: if_splits)
    have "ratingKey p m v r \<Longrightarrow> ?hit r = ratingKey p m v row" for r by (auto simp: ratingKey_def)
    moreover have "List.find (ratingKey p m v) (db_ratings db) \<noteq> None" if "ratingKey p m v row"
      using True that by (auto simp: find_None_iff list_ex_iff ratingKey_def)
    ultimately show ?thesis unfolding db' by (auto simp: find split: option.splits dest: find_Some)
  next
    case False
    then have db': "db' = db\<lparr>db_ratings := db_ratings db @ [row]\<rparr>"
      using assms by (auto simp: upsertRating_def Let_def split: if_splits)
    have "List.find (ratingKey p m v) (db_ratings db) = None" if "ratingKey p m v row"
      using False that by (auto simp: find_None_iff list_ex_iff ratingKey_def)
    then show ?thesis unfolding db' by (auto simp: find_append split: option.splits)
  qed
qed

text \<open>An update continues the history of its player when it starts from the current rating.\<close>

definition continues :: "PlayerRatingRow list \<Rightarrow> string \<Rightarrow> RatingUpdate \<Rightarrow> bool" where
  "continues rs modeID u \<longleftrightarrow> (\<forall>r. List.find (ratingKey (ru_PlayerID u) modeID (ru_ModelVersion u)) rs = Some r \<longrightarrow>
     rur_before (newUpdateRow modeID u) = plr_estimate r)"

lemma insertRatingHistory_Inr:
  "insertRatingHistory db row = Inr db' \<Longrightarrow> (\<forall>x \<in> set (db_rating_updates db). \<not> updateClash row x) \<and> db' = db\<lparr>db_rating_updates := db_rating_updates db @ [row]\<rparr>"
  by (auto simp: insertRatingHistory_def insertRow_Inr split: if_splits)

lemma persistRatingUpdate_Inr:
  assumes "persistRatingUpdate flt db modeID u = Inr db'"
  shows "(\<forall>x \<in> set (db_rating_updates db). \<not> updateClash (newUpdateRow modeID u) x) \<and>
     db' = db\<lparr>db_rating_updates := db_rating_updates db @ [newUpdateRow modeID u], db_ratings := db_ratings db'\<rparr> \<and>
     (\<forall>p m v. \<not> ratingKey p m v (newRatingRow modeID u) \<longrightarrow> List.find (ratingKey p m v) (db_ratings db') = List.find (ratingKey p m v) (db_ratings db)) \<and>
     (continues (db_ratings db) modeID u \<longrightarrow> ratingTables (db_ratings db) (db_rating_updates db) \<longrightarrow> ratingTables (db_ratings db') (db_rating_updates db'))"
proof -
  let ?row = "newUpdateRow modeID u" and ?new = "newRatingRow modeID u"
  obtain db1 where db1: "insertRatingHistory db ?row = Inr db1" and db': "upsertRating db1 ?new = Inr db'"
    using assms by (auto simp: persistRatingUpdate_def)
  note h = insertRatingHistory_Inr [OF db1]
  note find = find_upsert [OF db', THEN conjunct2]
  have store: "db' = db\<lparr>db_rating_updates := db_rating_updates db @ [?row], db_ratings := db_ratings db'\<rparr>"
    by (subst find_upsert [OF db', THEN conjunct1]) (simp add: h)
  have "ratingTables (db_ratings db') (db_rating_updates db')" if c: "continues (db_ratings db) modeID u" and t: "ratingTables (db_ratings db) (db_rating_updates db)"
    unfolding ratingTables_def
  proof (intro conjI allI)
    show "\<forall>x \<in> set (db_rating_updates db'). pgTime (est_UpdatedAt (rur_after x)) = est_UpdatedAt (rur_after x)"
      using t by (subst store) (auto simp: ratingTables_def newUpdateRow_def pgEstimate_def)
  next
    fix p m v
    let ?h = "ratingHistory (db_rating_updates db) p m v"
    have old: "chained ?h" "summarizes ?h (List.find (ratingKey p m v) (db_ratings db))" using t by (auto simp: ratingTables_def)
    have key: "ratingKey p m v ?new \<longleftrightarrow> ru_PlayerID u = p \<and> modeID = m \<and> ru_ModelVersion u = v" by (simp add: ratingKey_def newRatingRow_def)
    have hist: "ratingHistory (db_rating_updates db') p m v = ?h @ (if ratingKey p m v ?new then [?row] else [])"
      by (subst store) (simp add: ratingHistory_append key, simp add: ratingHistory_def newUpdateRow_def)
    have "chained (ratingHistory (db_rating_updates db') p m v) \<and>
        summarizes (ratingHistory (db_rating_updates db') p m v) (List.find (ratingKey p m v) (db_ratings db'))"
    proof (cases "ratingKey p m v ?new")
      case True
      have after: "plr_estimate ?new = rur_after ?row" "plr_revision ?new = 1" by (simp_all add: newRatingRow_def newUpdateRow_def)
      show ?thesis
      proof (cases "List.find (ratingKey p m v) (db_ratings db)")
        case None
        then show ?thesis using True old after by (simp add: hist find h)
      next
        case (Some r)
        then have "rur_before ?row = plr_estimate r" using c True key by (simp add: continues_def)
        then show ?thesis using True old after Some by (simp add: hist find h chained_append)
      qed
    qed (use old in \<open>simp add: hist find h\<close>)
    then show "chained (ratingHistory (db_rating_updates db') p m v)"
      "summarizes (ratingHistory (db_rating_updates db') p m v) (List.find (ratingKey p m v) (db_ratings db'))" by auto
  qed
  then show ?thesis using h store find by auto
qed

lemma persistLoop_Inr:
  assumes "persistLoop flt modeID us db = Inr db'" "\<forall>u \<in> set us. ru_ModelVersion u = v \<and> ru_SourceEventID u = i \<and> continues (db_ratings db) modeID u"
    and "ratingTables (db_ratings db) (db_rating_updates db)" "distinct (map ru_PlayerID us)"
  shows "db' = db\<lparr>db_rating_updates := db_rating_updates db @ map (newUpdateRow modeID) us, db_ratings := db_ratings db'\<rparr> \<and>
     ratingTables (db_ratings db') (db_rating_updates db') \<and>
     (\<forall>u \<in> set us. \<forall>x \<in> set (db_rating_updates db). \<not> updateClash (newUpdateRow modeID u) x)"
  using assms
proof (induction us arbitrary: db)
  case Nil
  then show ?case by simp
next
  case (Cons u us)
  obtain db1 where db1: "persistRatingUpdate flt db modeID u = Inr db1" and rest: "persistLoop flt modeID us db1 = Inr db'"
    using Cons.prems(1) by (auto split: if_splits)
  note s = persistRatingUpdate_Inr [OF db1]
  have store: "db1 = db\<lparr>db_rating_updates := db_rating_updates db @ [newUpdateRow modeID u], db_ratings := db_ratings db1\<rparr>" using s by blast
  have "continues (db_ratings db1) modeID w" if "w \<in> set us" for w
  proof -
    have "ru_PlayerID w \<noteq> ru_PlayerID u" using that Cons.prems(4) by (auto simp: image_iff)
    then have "\<not> ratingKey (ru_PlayerID w) modeID (ru_ModelVersion w) (newRatingRow modeID u)" by (simp add: ratingKey_def newRatingRow_def)
    then show ?thesis using s that Cons.prems(2) by (simp add: continues_def)
  qed
  then have IH: "db' = db1\<lparr>db_rating_updates := db_rating_updates db1 @ map (newUpdateRow modeID) us, db_ratings := db_ratings db'\<rparr>"
      "ratingTables (db_ratings db') (db_rating_updates db')" "\<forall>u \<in> set us. \<forall>x \<in> set (db_rating_updates db1). \<not> updateClash (newUpdateRow modeID u) x"
    using Cons.IH [OF rest] Cons.prems s by simp_all
  have "db' = db\<lparr>db_rating_updates := db_rating_updates db @ map (newUpdateRow modeID) (u # us), db_ratings := db_ratings db'\<rparr>"
    by (subst IH(1), subst store) (subst store, simp)
  moreover have "\<forall>w \<in> set us. \<forall>x \<in> set (db_rating_updates db). \<not> updateClash (newUpdateRow modeID w) x"
    using IH(3) by (subst (asm) store) simp
  ultimately show ?case using IH(2) s by simp
qed

lemma stored_precision:
  assumes "ratingTables rs us" "List.find (ratingKey p m v) rs = Some r"
  shows "pgTime (est_UpdatedAt (plr_estimate r)) = est_UpdatedAt (plr_estimate r)" "plr_model_version r = v"
proof -
  have "summarizes (ratingHistory us p m v) (Some r)" using assms unfolding ratingTables_def by metis
  then have "plr_estimate r = rur_after (last (ratingHistory us p m v))" "last (ratingHistory us p m v) \<in> set (ratingHistory us p m v)"
    by (simp_all add: last_in_set)
  then show "pgTime (est_UpdatedAt (plr_estimate r)) = est_UpdatedAt (plr_estimate r)"
    using assms(1) unfolding ratingTables_def ratingHistory_def by auto
  show "plr_model_version r = v" using find_Some [OF assms(2)] by (simp add: ratingKey_def)
qed

text \<open>A failure of the driver is never the answer that there is no row.\<close>

definition driverFaults :: "Faults \<Rightarrow> bool" where
  "driverFaults flt \<longleftrightarrow> (\<forall>label e. flt_stmt flt label = Some e \<longrightarrow> \<not> errors_Is e ErrNoRows)"

lemma currentRating_estimate:
  assumes "driverFaults flt" "List.find (ratingKey p m v) (db_ratings db) = Some r"
  shows "stmt flt label (lockCurrentRating db p m v) = Inr (plr_estimate r) \<or>
    (\<exists>e. stmt flt label (lockCurrentRating db p m v) = Inl e \<and> \<not> errors_Is e ErrNoRows)"
  using assms by (auto simp: lockCurrentRating_def queryRow_find stmt_def driverFaults_def split: option.splits)

lemma estimateLoop_Inr:
  assumes "estimateLoop flt db m v snapshots ps estimates = Inr estimates'" "driverFaults flt"
  shows "(\<forall>p \<in> set ps. \<forall>r. List.find (ratingKey (pr_PlayerID p) m v) (db_ratings db) = Some r \<longrightarrow> estimates' (pr_PlayerID p) = Some (plr_estimate r)) \<and>
      (\<forall>k. k \<notin> pr_PlayerID ` set ps \<longrightarrow> estimates' k = estimates k)"
  using assms(1)
proof (induction ps arbitrary: estimates)
  case (Cons p ps)
  let ?find = "List.find (ratingKey (pr_PlayerID p) m v) (db_ratings db)"
  obtain e where e: "estimateLoop flt db m v snapshots ps (estimates(pr_PlayerID p \<mapsto> e)) = Inr estimates'" "\<forall>r. ?find = Some r \<longrightarrow> e = plr_estimate r"
  proof (cases ?find)
    case None
    then show thesis using Cons.prems that by (auto split: sum.splits if_splits)
  next
    case (Some r)
    have "stmt flt ''lock rating'' (lockCurrentRating db (pr_PlayerID p) m v) = Inr (plr_estimate r)"
      using currentRating_estimate [OF assms(2) Some, of "''lock rating''"] Cons.prems by (elim disjE exE conjE) simp_all
    then have "estimateLoop flt db m v snapshots ps (estimates(pr_PlayerID p \<mapsto> plr_estimate r)) = Inr estimates'"
      using Cons.prems by (simp add: stmt_def)
    then show thesis by (rule that) (simp add: Some)
  qed
  note IH = Cons.IH [OF e(1)]
  show ?case
  proof (cases "pr_PlayerID p \<in> pr_PlayerID ` set ps")
    case True
    then show ?thesis using IH by (auto simp: image_iff)
  next
    case False
    then have "estimates' (pr_PlayerID p) = Some e" using IH by simp
    then show ?thesis using IH e(2) by auto
  qed
qed simp

lemma Baseline_Update_continues:
  assumes "Baseline_Update Exp (DefaultBaselineConfig v) result estimates t = Inr us" "u \<in> set us"
    and "ratingTables (db_ratings db) (db_rating_updates db)"
    and "\<forall>p \<in> set (mr_Participants result). \<forall>r. List.find (ratingKey (pr_PlayerID p) m v) (db_ratings db) = Some r \<longrightarrow> estimates (pr_PlayerID p) = Some (plr_estimate r)"
  shows "ru_ModelVersion u = v \<and> ru_SourceEventID u = mr_EventID result \<and> continues (db_ratings db) m u"
proof -
  obtain before p where load: "loadBefore (DefaultBaselineConfig v) estimates (sort_cmp compareParticipantID (mr_Participants result)) Map.empty = Inr before"
      and p: "p \<in> set (mr_Participants result)" and "updateParticipant Exp (DefaultBaselineConfig v) result before (sort_cmp compareParticipantID (mr_Participants result)) t p = Inr u"
    by (rule Baseline_Update_member [OF assms(1,2)])
  then have u: "ru_PlayerID u = pr_PlayerID p" "ru_Before u = estimateAt before (pr_PlayerID p)" "ru_SourceEventID u = mr_EventID result" "ru_ModelVersion u = v"
    using updateParticipant_Inr by fastforce+
  have "continues (db_ratings db) m u"
    unfolding continues_def u(1,4)
  proof (intro allI impI)
    fix r assume r: "List.find (ratingKey (pr_PlayerID p) m v) (db_ratings db) = Some r"
    have "ru_Before u = plr_estimate r"
      using loaded_estimate(1) [OF load, of p] p assms(4) r u(2) by simp
    then have "rur_before (newUpdateRow m u) = (plr_estimate r)\<lparr>est_UpdatedAt := pgTime (est_UpdatedAt (plr_estimate r)), est_ModelVersion := v\<rparr>"
      by (simp add: newUpdateRow_def pgEstimate_def u(4))
    then show "rur_before (newUpdateRow m u) = plr_estimate r"
      by (subst (asm) stored_precision(1) [OF assms(3) r], subst (asm) stored_precision(2) [OF assms(3) r, symmetric]) simp
  qed
  then show ?thesis using u(3,4) by blast
qed

text \<open>
  What a committed rating has changed: it wrote one update for every rated participant on top of the history, kept the current
  ratings in step with it, marked the claimed result and announced it.
\<close>

definition ratedBy :: "RatingClaim \<Rightarrow> ResultRow \<Rightarrow> bool" where
  "ratedBy claim v \<longleftrightarrow> vr_event_id v = rcl_EventID claim \<and> vr_claim_token v = Some (rcl_Token claim) \<and> vr_processed_at v = None"

definition processedRow :: "time \<Rightarrow> ResultRow \<Rightarrow> ResultRow" where
  "processedRow t v = v\<lparr>vr_processed_at := Some t, vr_next_attempt_at := None, vr_claim_token := None, vr_claimed_until := None\<rparr>"

definition ratedPlayers :: "collation \<Rightarrow> Database \<Rightarrow> string \<Rightarrow> string list" where
  "ratedPlayers collate db eventID = map (\<lambda>(p, _). pt_player_id p) (ratingParticipantRows collate db eventID)"

inductive rate :: "collation \<Rightarrow> Database \<Rightarrow> Database \<Rightarrow> bool" for collate where
  rate: "\<lbrakk>v \<in> set (db_results db); ratedBy claim v; \<forall>x \<in> set (db_results db). ratedBy claim x \<longrightarrow> resultChecks (processedRow t x);
      \<forall>u \<in> set us. rur_source_event_id u = vr_event_id v \<and> rur_mode_id u = vr_mode_id v \<and> rur_model_version u = model;
      distinct (map rur_player_id us); set (map rur_player_id us) = set (ratedPlayers collate db (vr_event_id v));
      \<forall>u \<in> set us. \<forall>x \<in> set (db_rating_updates db). \<not> updateClash u x;
      ratingTables (db_ratings db) (db_rating_updates db); ratingTables rs (db_rating_updates db @ us);
      announces ev ''result'' (vr_event_id v) 1; fresh ev (db_outbox db)\<rbrakk>
    \<Longrightarrow> rate collate db (db\<lparr>db_results := map (\<lambda>x. if ratedBy claim x then processedRow t x else x) (db_results db), db_outbox := db_outbox db @ [ev],
          db_ratings := rs, db_rating_updates := db_rating_updates db @ us\<rparr>)"

lemma lockClaimedRatingResult_Inr:
  assumes "lockClaimedRatingResult clock flt db claim = Inr (result, model)"
  obtains v where "v \<in> set (db_results db)" "ratedBy claim v" "result = scanResult v []"
proof -
  obtain v r where "queryRow (filter (\<lambda>(v, r). rmr_room_id r = vr_room_id v \<and> holdsResultLease clock (rcl_EventID claim) (rcl_Token claim) v)
      (List.product (db_results db) (db_rooms db))) = Inr (v, r)" "result = scanResult v []"
    using assms by (auto simp: lockClaimedRatingResult_def)
  then show ?thesis using that [of v] by (auto simp: holdsResultLease_def ratedBy_def dest!: queryRow_Inr)
qed

lemma loadRatingParticipants_Inr:
  assumes "loadRatingParticipants collate flt db (scanResult v []) = Inr (result, snapshots)"
  shows "mr_EventID result = vr_event_id v" "mr_ModeID result = vr_mode_id v" "map pr_PlayerID (mr_Participants result) = ratedPlayers collate db (vr_event_id v)"
  using assms by (auto simp: loadRatingParticipants_def scanResult_def ratedPlayers_def split: prod.splits)

lemma storeRatings_effect:
  assumes "storeRatings hash flt db claim t result model us = (res, db')" "db' \<noteq> db"
  obtains db1 ev where "persistLoop flt (mr_ModeID result) us db = Inr db1" "announces ev ''result'' (mr_EventID result) 1" "fresh ev (db_outbox db1)"
    "\<forall>x \<in> set (db_results db1). ratedBy claim x \<longrightarrow> resultChecks (processedRow (pgTime t) x)"
    "db' = db1\<lparr>db_results := map (\<lambda>x. if ratedBy claim x then processedRow (pgTime t) x else x) (db_results db1), db_outbox := db_outbox db1 @ [ev]\<rparr>"
proof -
  obtain db1 n db2 e where db1: "persistLoop flt (mr_ModeID result) us db = Inr db1" and db2: "markProcessed db1 claim t = Inr (n, db2)"
      and e: "insertOutbox db2 e = Inr db'" "ob_AggregateType e = ''result''" "ob_AggregateID e = mr_EventID result" "ob_AggregateVersion e = 1"
    using assms by (auto simp: storeRatings_def tx_effect split: if_splits)
  have mark: "(\<forall>x \<in> set (db_results db1). ratedBy claim x \<longrightarrow> resultChecks (processedRow (pgTime t) x)) \<and>
      db2 = db1\<lparr>db_results := map (\<lambda>x. if ratedBy claim x then processedRow (pgTime t) x else x) (db_results db1)\<rparr>"
    using db2 unfolding markProcessed_def updateResults_Inr ratedBy_def processedRow_def by blast
  have ev: "announces (outboxRow e) ''result'' (mr_EventID result) 1" "fresh (outboxRow e) (db_outbox db1)"
      "db' = db2\<lparr>db_outbox := db_outbox db2 @ [outboxRow e]\<rparr>"
    using e outboxRow_announces [of e] mark by (auto simp: insertOutbox_Inr)
  show ?thesis by (rule that [OF db1 ev(1,2)]) (use mark ev(3) in simp_all)
qed

lemma ProcessRatingResult_rate:
  assumes "ProcessRatingResult Exp collate hash clock flt db claim t = (res, db')" "db' \<noteq> db" "driverFaults flt"
    and tables: "ratingTables (db_ratings db) (db_rating_updates db)"
  shows "rate collate db db'"
proof -
  obtain locked model result snapshots estimates us where
      lock: "lockClaimedRatingResult clock flt db claim = Inr (locked, model)" and
      load: "loadRatingParticipants collate flt db locked = Inr (result, snapshots)" and
      est: "estimateLoop flt db (mr_ModeID result) model snapshots (mr_Participants result) Map.empty = Inr estimates" and
      upd: "Baseline_Update Exp (DefaultBaselineConfig model) result estimates t = Inr us" and
      store: "storeRatings hash flt db claim t result model us = (res, db')"
    using assms(1,2) by (auto simp: ProcessRatingResult_def tx_effect NewBaseline_def split: option.splits if_splits)
  obtain v where v: "v \<in> set (db_results db)" "ratedBy claim v" "locked = scanResult v []" using lockClaimedRatingResult_Inr [OF lock] by blast
  note res = loadRatingParticipants_Inr [OF load [unfolded v(3)]]
  have cont: "\<forall>u \<in> set us. ru_ModelVersion u = model \<and> ru_SourceEventID u = mr_EventID result \<and> continues (db_ratings db) (mr_ModeID result) u"
    using Baseline_Update_continues [OF upd _ tables] estimateLoop_Inr [OF est assms(3)] by blast
  have players: "map ru_PlayerID us = sort (map pr_PlayerID (mr_Participants result))" by (rule Update_players [OF upd])
  have dist: "distinct (map ru_PlayerID us)" unfolding players using upd by (simp add: Baseline_Update_Inr completeResult_def)
  obtain db1 ev where eff: "persistLoop flt (mr_ModeID result) us db = Inr db1" "announces ev ''result'' (mr_EventID result) 1" "fresh ev (db_outbox db1)"
      "\<forall>x \<in> set (db_results db1). ratedBy claim x \<longrightarrow> resultChecks (processedRow (pgTime t) x)"
      "db' = db1\<lparr>db_results := map (\<lambda>x. if ratedBy claim x then processedRow (pgTime t) x else x) (db_results db1), db_outbox := db_outbox db1 @ [ev]\<rparr>"
    using storeRatings_effect [OF store assms(2)] by blast
  let ?us = "map (newUpdateRow (mr_ModeID result)) us"
  have per: "db1 = db\<lparr>db_rating_updates := db_rating_updates db @ ?us, db_ratings := db_ratings db1\<rparr>"
      "ratingTables (db_ratings db1) (db_rating_updates db1)" "\<forall>u \<in> set us. \<forall>x \<in> set (db_rating_updates db). \<not> updateClash (newUpdateRow (mr_ModeID result) u) x"
    using persistLoop_Inr [OF eff(1) cont tables dist] by blast+
  have same: "db_results db1 = db_results db" "db_outbox db1 = db_outbox db" "db_rating_updates db1 = db_rating_updates db @ ?us"
    by (subst per(1), simp)+
  have "rate collate db (db\<lparr>db_results := map (\<lambda>x. if ratedBy claim x then processedRow (pgTime t) x else x) (db_results db), db_outbox := db_outbox db @ [ev],
      db_ratings := db_ratings db1, db_rating_updates := db_rating_updates db @ ?us\<rparr>)"
  proof (rule rate [OF v(1,2)])
    show "distinct (map rur_player_id ?us)" using dist by (simp add: newUpdateRow_def comp_def)
    have "map rur_player_id ?us = map ru_PlayerID us" by (simp add: newUpdateRow_def)
    then show "set (map rur_player_id ?us) = set (ratedPlayers collate db (vr_event_id v))" using players res(3) by (metis set_sort)
    show "\<forall>u \<in> set ?us. rur_source_event_id u = vr_event_id v \<and> rur_mode_id u = vr_mode_id v \<and> rur_model_version u = model"
      using cont res(1,2) by (auto simp: newUpdateRow_def)
  qed (use eff(2-4) per(2,3) same res tables in simp_all)
  moreover have "db' = db\<lparr>db_results := map (\<lambda>x. if ratedBy claim x then processedRow (pgTime t) x else x) (db_results db), db_outbox := db_outbox db @ [ev],
      db_ratings := db_ratings db1, db_rating_updates := db_rating_updates db @ ?us\<rparr>"
    unfolding eff(5) same by (subst per(1)) simp
  ultimately show ?thesis by simp
qed

end
