(* ===== verification/Rating_Features.thy ===== *)
theory Rating_Features
  imports Rating_Baseline
begin

text \<open>
  \<^verbatim>\<open>pkg/rating/features.go\<close>: extraction of raw feature vectors from a verified result under an immutable
  schema. A \<^verbatim>\<open>FeatureName\<close> is a string, as in the source, so unsupported names are part of the model.
\<close>

type_synonym FeatureName = string

definition FeatureScore :: FeatureName where "FeatureScore = ''score''"
definition FeatureElapsedMillis :: FeatureName where "FeatureElapsedMillis = ''elapsed_ms''"
definition FeatureCompleted :: FeatureName where "FeatureCompleted = ''completed''"
definition FeatureMoves :: FeatureName where "FeatureMoves = ''moves''"
definition FeatureUndoMoves :: FeatureName where "FeatureUndoMoves = ''undo_moves''"
definition FeatureRevealedCards :: FeatureName where "FeatureRevealedCards = ''revealed_cards''"

lemmas feature_names = FeatureScore_def FeatureElapsedMillis_def FeatureCompleted_def FeatureMoves_def
  FeatureUndoMoves_def FeatureRevealedCards_def

definition maxExactFloatInteger :: int where "maxExactFloatInteger = 2 ^ 53"

record FeatureDefinition =
  fd_Name :: FeatureName
  fd_SignalFamily :: string

record FeatureSchema =
  fs_Version :: string
  fs_ModeID :: string
  fs_ScoringRulesVersion :: string
  fs_DeckVersion :: string
  fs_Definitions :: "FeatureDefinition list"

record FeatureContext =
  fc_DeckVersion :: string

record FeatureObservation =
  fo_Name :: FeatureName
  fo_Value :: f64
  fo_Present :: bool

record PlayerFeatureVector =
  pv_PlayerID :: string
  pv_Observations :: "FeatureObservation list"

record FeatureBatch =
  fb_SchemaVersion :: string
  fb_EventID :: string
  fb_RoomID :: string
  fb_ModeID :: string
  fb_ScoringRulesVersion :: string
  fb_DeckVersion :: string
  fb_DeckID :: string
  fb_FinishedAt :: time
  fb_AvailableAt :: time
  fb_Players :: "PlayerFeatureVector list"

definition supportedFeature :: "FeatureName \<Rightarrow> bool" where
  "supportedFeature name \<longleftrightarrow> name \<in> {FeatureScore, FeatureElapsedMillis, FeatureCompleted, FeatureMoves,
     FeatureUndoMoves, FeatureRevealedCards}"

text \<open>The definition loop: the names, the families with their names, and the two flags so far.\<close>

fun schemaLoop ::
  "FeatureName list \<Rightarrow> (string \<times> FeatureName) list \<Rightarrow> bool \<times> bool \<Rightarrow> FeatureDefinition list \<Rightarrow> (bool \<times> bool) result" where
  "schemaLoop names families flags [] = Inr flags"
| "schemaLoop names families (hasScore, hasElapsed) (d # ds) =
     (if \<not> supportedFeature (fd_Name d)
      then Inl (Errorf ''feature schema contains unsupported feature %q'' [ArgS (fd_Name d)] None)
      else if fd_Name d \<in> set names
      then Inl (Errorf ''feature schema contains duplicate feature %q'' [ArgS (fd_Name d)] None)
      else if fd_SignalFamily d = ''''
      then Inl (Errorf ''feature %q requires a signal family'' [ArgS (fd_Name d)] None)
      else (case map_of families (fd_SignalFamily d) of
          Some existing \<Rightarrow> Inl (Errorf ''features %q and %q share signal family %q''
                                 [ArgS existing, ArgS (fd_Name d), ArgS (fd_SignalFamily d)] None)
        | None \<Rightarrow> schemaLoop (fd_Name d # names) (map_put (fd_SignalFamily d) (fd_Name d) families)
                    (hasScore \<or> fd_Name d = FeatureScore, hasElapsed \<or> fd_Name d = FeatureElapsedMillis) ds))"

definition validateFeatureSchema :: "FeatureSchema \<Rightarrow> error" where
  "validateFeatureSchema schema =
     (if fs_Version schema = '''' \<or> fs_ModeID schema = '''' \<or> fs_ScoringRulesVersion schema = '''' \<or> fs_DeckVersion schema = ''''
      then Some (ErrorsNew ''feature schema version, mode, scoring rules and deck version are required'')
      else if length (fs_Definitions schema) = 0 \<or> 6 < length (fs_Definitions schema)
      then Some (ErrorsNew ''feature schema requires one to six definitions'')
      else (case schemaLoop [] [] (False, False) (fs_Definitions schema) of
          Inl e \<Rightarrow> Some e
        | Inr (hasScore, hasElapsed) \<Rightarrow>
            if hasScore \<and> hasElapsed
            then Some (ErrorsNew ''score and elapsed_ms cannot be enabled together because score may include time'')
            else None))"

text \<open>A clone of an immutable value is the value; the encoder is the schema it holds.\<close>

definition cloneFeatureSchema :: "FeatureSchema \<Rightarrow> FeatureSchema" where
  "cloneFeatureSchema schema = schema\<lparr>fs_Definitions := fs_Definitions schema\<rparr>"

definition NewFeatureEncoder :: "FeatureSchema \<Rightarrow> FeatureSchema result" where
  "NewFeatureEncoder schema = guardE (validateFeatureSchema schema) (Inr (cloneFeatureSchema schema))"

definition FeatureEncoder_Schema :: "FeatureSchema \<Rightarrow> FeatureSchema" where
  "FeatureEncoder_Schema e = cloneFeatureSchema e"

definition integerObservation :: "FeatureObservation \<Rightarrow> int option \<Rightarrow> FeatureObservation result" where
  "integerObservation observation value =
     (case value of
        None \<Rightarrow> Inr observation
      | Some v \<Rightarrow>
          if v < - maxExactFloatInteger \<or> maxExactFloatInteger < v
          then Inl (Errorf ''value %d exceeds exact float64 integer range'' [ArgI v] None)
          else Inr (observation\<lparr>fo_Value := f64_of_int v, fo_Present := True\<rparr>))"

definition extractFeature :: "FeatureName \<Rightarrow> Features \<Rightarrow> FeatureObservation result" where
  "extractFeature name features =
     (let observation = \<lparr>fo_Name = name, fo_Value = 0, fo_Present = False\<rparr> in
      if name = FeatureScore then integerObservation observation (feat_Score features)
      else if name = FeatureElapsedMillis then integerObservation observation (feat_ElapsedMillis features)
      else if name = FeatureCompleted then
        Inr (case feat_Completed features of
               None \<Rightarrow> observation
             | Some c \<Rightarrow> (let present = observation\<lparr>fo_Present := True\<rparr> in if c then present\<lparr>fo_Value := 1\<rparr> else present))
      else if name = FeatureMoves then integerObservation observation (feat_Moves features)
      else if name = FeatureUndoMoves then integerObservation observation (feat_UndoMoves features)
      else if name = FeatureRevealedCards then integerObservation observation (feat_RevealedCards features)
      else Inl (Errorf ''unsupported feature %q'' [ArgS name] None))"

definition encodePlayer :: "FeatureSchema \<Rightarrow> ParticipantResult \<Rightarrow> PlayerFeatureVector result" where
  "encodePlayer schema participant =
     rbind (mapR (\<lambda>d. wrapR ''encode feature %q for player %q: %w'' [ArgS (fd_Name d), ArgS (pr_PlayerID participant)]
                        (extractFeature (fd_Name d) (pr_Features participant))) (fs_Definitions schema))
       (\<lambda>observations. Inr \<lparr>pv_PlayerID = pr_PlayerID participant, pv_Observations = observations\<rparr>)"

definition Encode :: "FeatureSchema \<Rightarrow> MatchResult \<Rightarrow> FeatureContext \<Rightarrow> FeatureBatch result" where
  "Encode schema result context =
     guardE (MatchResult_Validate result)
     (if mr_ModeID result \<noteq> fs_ModeID schema
      then Inl (Errorf ''feature schema mode %q does not match result mode %q''
                  [ArgS (fs_ModeID schema), ArgS (mr_ModeID result)] None)
      else if mr_ScoringRulesVersion result \<noteq> fs_ScoringRulesVersion schema
      then Inl (Errorf ''feature schema scoring rules %q do not match result scoring rules %q''
                  [ArgS (fs_ScoringRulesVersion schema), ArgS (mr_ScoringRulesVersion result)] None)
      else if fc_DeckVersion context = '''' then Inl (ErrorsNew ''feature context deck version is required'')
      else if fc_DeckVersion context \<noteq> fs_DeckVersion schema
      then Inl (Errorf ''feature schema deck version %q does not match context deck version %q''
                  [ArgS (fs_DeckVersion schema), ArgS (fc_DeckVersion context)] None)
      else
        rbind (mapR (encodePlayer schema) (sort_cmp compareParticipantID (mr_Participants result))) (\<lambda>players.
        Inr \<lparr>fb_SchemaVersion = fs_Version schema, fb_EventID = mr_EventID result, fb_RoomID = mr_RoomID result,
             fb_ModeID = mr_ModeID result, fb_ScoringRulesVersion = mr_ScoringRulesVersion result,
             fb_DeckVersion = fc_DeckVersion context, fb_DeckID = mr_DeckID result,
             fb_FinishedAt = mr_FinishedAt result, fb_AvailableAt = mr_AvailableAt result, fb_Players = players\<rparr>))"

section \<open>Schemas\<close>

text \<open>The declarative reading of a schema: distinct supported names, distinct families, no double counted time.\<close>

definition soundSchema :: "FeatureSchema \<Rightarrow> bool" where
  "soundSchema s \<longleftrightarrow> '''' \<notin> {fs_Version s, fs_ModeID s, fs_ScoringRulesVersion s, fs_DeckVersion s} \<and>
     length (fs_Definitions s) \<in> {1..6} \<and>
     distinct (map fd_Name (fs_Definitions s)) \<and> distinct (map fd_SignalFamily (fs_Definitions s)) \<and>
     (\<forall>d \<in> set (fs_Definitions s). supportedFeature (fd_Name d) \<and> fd_SignalFamily d \<noteq> '''') \<and>
     \<not> {FeatureScore, FeatureElapsedMillis} \<subseteq> fd_Name ` set (fs_Definitions s)"

lemma schemaLoop_Inr:
  "schemaLoop names families (a, b) ds = Inr flags \<longleftrightarrow>
     (\<forall>d \<in> set ds. supportedFeature (fd_Name d) \<and> fd_SignalFamily d \<noteq> '''') \<and>
     distinct (map fd_Name ds) \<and> fd_Name ` set ds \<inter> set names = {} \<and>
     distinct (map fd_SignalFamily ds) \<and> fd_SignalFamily ` set ds \<inter> fst ` set families = {} \<and>
     flags = (a \<or> FeatureScore \<in> fd_Name ` set ds, b \<or> FeatureElapsedMillis \<in> fd_Name ` set ds)"
proof (induction ds arbitrary: names families a b)
  case (Cons d ds)
  show ?case
  proof (cases "map_of families (fd_SignalFamily d)")
    case None
    then have "fd_SignalFamily d \<notin> fst ` set families" by (simp add: map_of_eq_None_iff)
    then show ?thesis using None by (auto simp: Cons.IH)
  next
    case (Some existing)
    then have "fd_SignalFamily d \<in> fst ` set families" by (force dest: map_of_SomeD)
    then show ?thesis using Some by auto
  qed
qed auto

lemma validateFeatureSchema_sound: "validateFeatureSchema s = None \<longleftrightarrow> soundSchema s"
proof -
  have "schemaLoop [] [] (False, False) ds = Inl x \<Longrightarrow> \<not> ((\<forall>d \<in> set ds. supportedFeature (fd_Name d) \<and> fd_SignalFamily d \<noteq> '''') \<and>
      distinct (map fd_Name ds) \<and> distinct (map fd_SignalFamily ds))" for ds x
    using schemaLoop_Inr [of "[]" "[]" False False ds] by auto
  then show ?thesis
    by (auto simp: validateFeatureSchema_def soundSchema_def schemaLoop_Inr Suc_le_eq split: sum.splits if_splits)
qed

text \<open>
  \<^verbatim>\<open>NewFeatureEncoder\<close> accepts exactly the sound schemas: one to six distinct supported features, each in
  a signal family of its own, and never the score together with the elapsed time. An accepted encoder holds the
  schema unchanged.
\<close>

theorem NewFeatureEncoder_sound: "NewFeatureEncoder s = Inr e \<longleftrightarrow> soundSchema s \<and> e = s"
  by (auto simp: NewFeatureEncoder_def cloneFeatureSchema_def validateFeatureSchema_sound)

section \<open>Exact extraction\<close>

text \<open>What a name selects of the features, with a completion as zero or one, and how a consumer reads it back.\<close>

definition featureValue :: "FeatureName \<Rightarrow> Features \<Rightarrow> int option" where
  "featureValue name f =
     (if name = FeatureScore then feat_Score f
      else if name = FeatureElapsedMillis then feat_ElapsedMillis f
      else if name = FeatureCompleted then map_option (\<lambda>c. if c then 1 else 0) (feat_Completed f)
      else if name = FeatureMoves then feat_Moves f
      else if name = FeatureUndoMoves then feat_UndoMoves f
      else if name = FeatureRevealedCards then feat_RevealedCards f
      else None)"

definition decodeObservation :: "FeatureObservation \<Rightarrow> int option" where
  "decodeObservation ob = (if fo_Present ob then Some (f64_to_int (fo_Value ob)) else None)"

fun exactValue :: "int option \<Rightarrow> bool" where
  "exactValue None = True"
| "exactValue (Some v) = (\<bar>v\<bar> \<le> 2 ^ 53)"

lemma f64_of_int_exact: "\<bar>v\<bar> \<le> 2 ^ 53 \<Longrightarrow> f64_of_int v = Fin (of_int v)"
  by (simp add: f64_of_int_def f64_round_of_int)

lemma f64_to_of_int: "\<bar>v\<bar> \<le> 2 ^ 53 \<Longrightarrow> f64_to_int (f64_of_int v) = v"
  by (simp add: f64_of_int_exact)

lemma integerObservation_Inr:
  "integerObservation ob v = Inr ob' \<longleftrightarrow> exactValue v \<and>
     ob' = (case v of None \<Rightarrow> ob | Some x \<Rightarrow> ob\<lparr>fo_Value := f64_of_int x, fo_Present := True\<rparr>)"
  by (cases v) (auto simp: integerObservation_def maxExactFloatInteger_def abs_le_iff)

text \<open>The observation of a value: absent with value zero, or present with the exact float.\<close>

definition observationOf :: "FeatureName \<Rightarrow> int option \<Rightarrow> FeatureObservation" where
  "observationOf name v = \<lparr>fo_Name = name, fo_Value = (case v of None \<Rightarrow> 0 | Some x \<Rightarrow> f64_of_int x), fo_Present = (v \<noteq> None)\<rparr>"

lemma extractFeature_Inr:
  assumes "supportedFeature name"
  shows "extractFeature name f = Inr ob \<longleftrightarrow> exactValue (featureValue name f) \<and> ob = observationOf name (featureValue name f)"
proof (cases "name = FeatureCompleted")
  case True
  then show ?thesis
    by (cases "feat_Completed f")
      (auto simp: extractFeature_def featureValue_def feature_names observationOf_def f64_of_int_def one_f64_def zero_f64_def Let_def)
next
  case False
  have "integerObservation \<lparr>fo_Name = name, fo_Value = 0, fo_Present = False\<rparr> v = Inr ob \<longleftrightarrow>
      exactValue v \<and> ob = observationOf name v" for v
    by (cases v) (auto simp: integerObservation_Inr observationOf_def)
  moreover have "extractFeature name f =
      integerObservation \<lparr>fo_Name = name, fo_Value = 0, fo_Present = False\<rparr> (featureValue name f)"
    using assms False unfolding extractFeature_def featureValue_def supportedFeature_def Let_def
    by (simp only: if_distrib [of "integerObservation _"] if_False) auto
  ultimately show ?thesis by simp
qed

lemma decode_observationOf: "exactValue v \<Longrightarrow> decodeObservation (observationOf name v) = v"
  by (cases v) (simp_all add: decodeObservation_def observationOf_def f64_to_of_int)

definition vectorOf :: "FeatureSchema \<Rightarrow> ParticipantResult \<Rightarrow> PlayerFeatureVector" where
  "vectorOf s p = \<lparr>pv_PlayerID = pr_PlayerID p,
     pv_Observations = map (\<lambda>d. observationOf (fd_Name d) (featureValue (fd_Name d) (pr_Features p))) (fs_Definitions s)\<rparr>"

definition exactFeatures :: "FeatureSchema \<Rightarrow> ParticipantResult \<Rightarrow> bool" where
  "exactFeatures s p \<longleftrightarrow> (\<forall>d \<in> set (fs_Definitions s). exactValue (featureValue (fd_Name d) (pr_Features p)))"

lemma mapR_iff_map:
  assumes "\<And>x y. x \<in> set xs \<Longrightarrow> f x = Inr y \<longleftrightarrow> P x \<and> y = g x"
  shows "mapR f xs = Inr ys \<longleftrightarrow> (\<forall>x \<in> set xs. P x) \<and> ys = map g xs"
  using assms by (induction xs arbitrary: ys) auto

lemma encodePlayer_Inr:
  assumes "soundSchema s"
  shows "encodePlayer s p = Inr v \<longleftrightarrow> exactFeatures s p \<and> v = vectorOf s p"
proof -
  have "wrapR fmt args (extractFeature (fd_Name d) (pr_Features p)) = Inr ob \<longleftrightarrow>
      exactValue (featureValue (fd_Name d) (pr_Features p)) \<and> ob = observationOf (fd_Name d) (featureValue (fd_Name d) (pr_Features p))"
    if "d \<in> set (fs_Definitions s)" for d ob fmt args
    using extractFeature_Inr [of "fd_Name d"] assms that by (simp add: soundSchema_def)
  note m = mapR_iff_map [OF this]
  show ?thesis by (auto simp: encodePlayer_def m exactFeatures_def vectorOf_def)
qed

lemma Encode_Inr:
  assumes "soundSchema s"
  shows "Encode s r c = Inr b \<longleftrightarrow>
    completeResult r \<and> mr_ModeID r = fs_ModeID s \<and> mr_ScoringRulesVersion r = fs_ScoringRulesVersion s \<and>
    fc_DeckVersion c = fs_DeckVersion s \<and> (\<forall>p \<in> set (mr_Participants r). exactFeatures s p) \<and>
    b = \<lparr>fb_SchemaVersion = fs_Version s, fb_EventID = mr_EventID r, fb_RoomID = mr_RoomID r,
         fb_ModeID = mr_ModeID r, fb_ScoringRulesVersion = mr_ScoringRulesVersion r,
         fb_DeckVersion = fc_DeckVersion c, fb_DeckID = mr_DeckID r, fb_FinishedAt = mr_FinishedAt r,
         fb_AvailableAt = mr_AvailableAt r, fb_Players = map (vectorOf s) (sort_cmp compareParticipantID (mr_Participants r))\<rparr>"
proof -
  have "fs_DeckVersion s \<noteq> ''''" using assms by (auto simp: soundSchema_def)
  moreover note m = mapR_iff_map [of "sort_cmp compareParticipantID (mr_Participants r)" "encodePlayer s", OF encodePlayer_Inr [OF assms]]
  ultimately show ?thesis by (auto simp: Encode_def MatchResult_Validate_complete m)
qed

text \<open>
  Under a sound schema \<^verbatim>\<open>Encode\<close> succeeds exactly for complete results of the schema's mode, scoring rules
  and deck version whose selected integer features lie within the integers a float represents exactly; every
  other input is an error.
\<close>

theorem Encode_domain:
  assumes "soundSchema s"
  shows "(\<exists>b. Encode s r c = Inr b) \<longleftrightarrow> completeResult r \<and> mr_ModeID r = fs_ModeID s \<and>
    mr_ScoringRulesVersion r = fs_ScoringRulesVersion s \<and> fc_DeckVersion c = fs_DeckVersion s \<and>
    (\<forall>p \<in> set (mr_Participants r). \<forall>d \<in> set (fs_Definitions s). \<forall>v.
       featureValue (fd_Name d) (pr_Features p) = Some v \<longrightarrow> \<bar>v\<bar> \<le> 2 ^ 53)"
proof -
  have "exactValue x \<longleftrightarrow> (\<forall>v. x = Some v \<longrightarrow> \<bar>v\<bar> \<le> 2 ^ 53)" for x by (cases x) auto
  then show ?thesis by (auto simp: Encode_Inr [OF assms] exactFeatures_def)
qed

text \<open>
  C29. Extraction loses nothing: reading back the observations of an encoded batch gives, for every participant in
  player order and every definition in schema order, exactly the value of the result, and a missing feature stays
  distinct from an observed zero.
\<close>

theorem Encode_roundtrip:
  assumes "soundSchema s" "Encode s r c = Inr b"
  shows "sorted (map pv_PlayerID (fb_Players b)) \<and> mset (map pv_PlayerID (fb_Players b)) = mset (map pr_PlayerID (mr_Participants r)) \<and>
    (\<forall>v \<in> set (fb_Players b). \<exists>p \<in> set (mr_Participants r). pr_PlayerID p = pv_PlayerID v \<and>
       map fo_Name (pv_Observations v) = map fd_Name (fs_Definitions s) \<and>
       map decodeObservation (pv_Observations v) = map (\<lambda>d. featureValue (fd_Name d) (pr_Features p)) (fs_Definitions s))"
proof -
  have b: "fb_Players b = map (vectorOf s) (sort_cmp compareParticipantID (mr_Participants r))"
    and ex: "\<forall>p \<in> set (mr_Participants r). exactFeatures s p"
    using assms(2) by (auto simp: Encode_Inr [OF assms(1)])
  have id: "pv_PlayerID \<circ> vectorOf s = pr_PlayerID" by (auto simp: vectorOf_def fun_eq_iff)
  have "map decodeObservation (pv_Observations (vectorOf s p)) = map (\<lambda>d. featureValue (fd_Name d) (pr_Features p)) (fs_Definitions s)"
    if "p \<in> set (mr_Participants r)" for p
    using ex that by (auto simp: vectorOf_def exactFeatures_def decode_observationOf)
  moreover have "map fo_Name (pv_Observations (vectorOf s p)) = map fd_Name (fs_Definitions s)" for p
    by (simp add: vectorOf_def observationOf_def)
  moreover have "mset (map pr_PlayerID (sort_cmp compareParticipantID ps)) = mset (map pr_PlayerID ps)" for ps
    by (simp add: mset_map)
  ultimately show ?thesis
    using sorted_participants by (auto simp: b id vectorOf_def)
qed

definition sampleSchema :: FeatureSchema where
  "sampleSchema = \<lparr>fs_Version = ''f1'', fs_ModeID = ''mode'', fs_ScoringRulesVersion = mr_ScoringRulesVersion sampleResult,
     fs_DeckVersion = ''d1'', fs_Definitions = [\<lparr>fd_Name = FeatureScore, fd_SignalFamily = ''points''\<rparr>,
       \<lparr>fd_Name = FeatureCompleted, fd_SignalFamily = ''progress''\<rparr>]\<rparr>"

lemma sampleSchema_sound: "soundSchema sampleSchema"
  by (auto simp: soundSchema_def sampleSchema_def sampleResult_def supportedFeature_def feature_names)

lemma sampleResult_complete: "completeResult sampleResult"
  using sample_updatable by (simp add: updatable_def)

definition scoredResult :: "int \<Rightarrow> MatchResult" where
  "scoredResult v = sampleResult\<lparr>mr_Participants :=
     map (\<lambda>p. p\<lparr>pr_Features := noFeatures\<lparr>feat_Score := Some v, feat_Completed := Some True\<rparr>\<rparr>) sampleParticipants\<rparr>"

definition sampleContext :: FeatureContext where "sampleContext = \<lparr>fc_DeckVersion = ''d1''\<rparr>"

lemma scoredResult_complete: "completeResult (scoredResult v)"
  by (auto simp: completeResult_def scoredResult_def sampleResult_def sampleParticipants_def noFeatures_def
      Features_Validate_def)

lemma sample_values:
  "map (\<lambda>d. featureValue (fd_Name d) (noFeatures\<lparr>feat_Score := Some v, feat_Completed := Some True\<rparr>))
     (fs_Definitions sampleSchema) = [Some v, Some 1]"
  by (simp add: sampleSchema_def featureValue_def feature_names noFeatures_def)

lemma sample_domain:
  "(\<forall>p \<in> set (mr_Participants (scoredResult v)). \<forall>d \<in> set (fs_Definitions sampleSchema). \<forall>x.
      featureValue (fd_Name d) (pr_Features p) = Some x \<longrightarrow> \<bar>x\<bar> \<le> 2 ^ 53) \<longleftrightarrow> \<bar>v\<bar> \<le> 2 ^ 53"
  by (auto simp: scoredResult_def sampleParticipants_def sampleSchema_def featureValue_def feature_names noFeatures_def)

lemma sample_context:
  "mr_ModeID (scoredResult v) = fs_ModeID sampleSchema" "mr_ScoringRulesVersion (scoredResult v) = fs_ScoringRulesVersion sampleSchema"
  "fc_DeckVersion sampleContext = fs_DeckVersion sampleSchema"
  by (simp_all add: scoredResult_def sampleSchema_def sampleResult_def sampleContext_def)

theorem Encode_domain_witness:
  "(\<exists>b. Encode sampleSchema (scoredResult (2 ^ 53)) sampleContext = Inr b) \<and>
   \<not> (\<exists>b. Encode sampleSchema (scoredResult (2 ^ 53 + 1)) sampleContext = Inr b)"
  unfolding Encode_domain [OF sampleSchema_sound] sample_domain
  by (simp add: sample_context scoredResult_complete)

theorem Encode_roundtrip_witness:
  "\<exists>b. Encode sampleSchema (scoredResult 7) sampleContext = Inr b \<and> sorted (map pv_PlayerID (fb_Players b)) \<and>
     (\<forall>v \<in> set (fb_Players b). map decodeObservation (pv_Observations v) = [Some 7, Some 1])"
proof -
  have "\<forall>p \<in> set (mr_Participants (scoredResult 7)). exactFeatures sampleSchema p"
    by (auto simp: exactFeatures_def scoredResult_def sampleParticipants_def sampleSchema_def featureValue_def feature_names noFeatures_def)
  then obtain b where b: "Encode sampleSchema (scoredResult 7) sampleContext = Inr b"
    using Encode_Inr [OF sampleSchema_sound, of "scoredResult 7" sampleContext] by (simp add: sample_context scoredResult_complete)
  have "pr_Features p = noFeatures\<lparr>feat_Score := Some 7, feat_Completed := Some True\<rparr>" if "p \<in> set (mr_Participants (scoredResult 7))" for p
    using that by (auto simp: scoredResult_def)
  then have "map decodeObservation (pv_Observations v) = [Some 7, Some 1]" if "v \<in> set (fb_Players b)" for v
    using Encode_roundtrip [OF sampleSchema_sound b] that sample_values [of 7] by force
  then show ?thesis using b Encode_roundtrip [OF sampleSchema_sound b] by blast
qed

end
