(* ===== verification/Rating_Dataset.thy ===== *)
theory Rating_Dataset
  imports Rating_Features
begin

text \<open>
  \<^verbatim>\<open>pkg/rating/dataset.go\<close>: the time-ordered split of feature batches into a training and a holdout partition, the
  standardizer fitted on the training partition with a one-pass mean and variance, and the transformation of
  both partitions. A nil pointer is \<open>None\<close>; cloning an immutable value is the identity.
\<close>

record TimeOrderedFeatureSet =
  tf_trainingCutoff :: time
  tf_schemaVersion :: string
  tf_modeID :: string
  tf_scoringRulesVersion :: string
  tf_deckVersion :: string
  tf_featureNames :: "FeatureName list"
  tf_training :: "FeatureBatch list"
  tf_holdout :: "FeatureBatch list"

definition comparePlayerVector :: "PlayerFeatureVector \<Rightarrow> PlayerFeatureVector \<Rightarrow> int" where
  "comparePlayerVector left right = strCompare (pv_PlayerID left) (pv_PlayerID right)"

fun featureNameLoop :: "FeatureName list \<Rightarrow> FeatureObservation list \<Rightarrow> FeatureName list result" where
  "featureNameLoop seen [] = Inr []"
| "featureNameLoop seen (ob # os) =
     (if \<not> supportedFeature (fo_Name ob)
      then Inl (Errorf ''feature batch contains unsupported feature %q'' [ArgS (fo_Name ob)] None)
      else if fo_Name ob \<in> set seen
      then Inl (Errorf ''feature batch contains duplicate feature %q'' [ArgS (fo_Name ob)] None)
      else rbind (featureNameLoop (fo_Name ob # seen) os) (\<lambda>names. Inr (fo_Name ob # names)))"

definition observationCheck :: "string \<Rightarrow> FeatureName \<times> FeatureObservation \<Rightarrow> error" where
  "observationCheck playerID = (\<lambda>(name, ob).
     if fo_Name ob \<noteq> name
     then Some (Errorf ''feature batch player %q has an incompatible feature layout'' [ArgS playerID] None)
     else if \<not> f64_finite (fo_Value ob)
     then Some (Errorf ''feature batch player %q feature %q must be finite'' [ArgS playerID, ArgS (fo_Name ob)] None)
     else if \<not> fo_Present ob \<and> \<not> f64_eq (fo_Value ob) 0
     then Some (Errorf ''feature batch player %q missing feature %q must have zero value'' [ArgS playerID, ArgS (fo_Name ob)] None)
     else None)"

fun playerLoop :: "FeatureName list \<Rightarrow> string \<Rightarrow> PlayerFeatureVector list \<Rightarrow> error" where
  "playerLoop names previousPlayerID [] = None"
| "playerLoop names previousPlayerID (p # ps) =
     (if pv_PlayerID p = '''' \<or> pv_PlayerID p = previousPlayerID
      then Some (ErrorsNew ''feature batch requires unique non-empty player ids'')
      else if length (pv_Observations p) \<noteq> length names
      then Some (Errorf ''feature batch player %q has an incompatible observation count'' [ArgS (pv_PlayerID p)] None)
      else andthenE (forE (observationCheck (pv_PlayerID p)) (zip names (pv_Observations p)))
             (playerLoop names (pv_PlayerID p) ps))"

definition cloneFeatureBatch :: "FeatureBatch \<Rightarrow> FeatureBatch" where
  "cloneFeatureBatch batch = batch\<lparr>fb_Players := map (\<lambda>p. p\<lparr>pv_Observations := pv_Observations p\<rparr>) (fb_Players batch)\<rparr>"

definition cloneFeatureBatches :: "FeatureBatch list \<Rightarrow> FeatureBatch list" where
  "cloneFeatureBatches source = map cloneFeatureBatch source"

definition canonicalFeatureBatch :: "FeatureBatch \<Rightarrow> (FeatureBatch \<times> FeatureName list) result" where
  "canonicalFeatureBatch batch =
     (if fb_SchemaVersion batch = '''' \<or> fb_EventID batch = '''' \<or> fb_RoomID batch = '''' \<or> fb_ModeID batch = '''' \<or>
         fb_ScoringRulesVersion batch = '''' \<or> fb_DeckVersion batch = '''' \<or> fb_DeckID batch = ''''
      then Inl (ErrorsNew ''feature batch identifiers and versions are required'')
      else if IsZero (fb_FinishedAt batch) \<or> IsZero (fb_AvailableAt batch) \<or> Before (fb_AvailableAt batch) (fb_FinishedAt batch)
      then Inl (ErrorsNew ''feature batch requires valid finish and availability times'')
      else if length (fb_Players batch) < MinRoomSize \<or> MaxRoomSize < length (fb_Players batch)
      then Inl (Errorf ''feature batch requires %d to %d players'' [ArgI (int MinRoomSize), ArgI (int MaxRoomSize)] None)
      else
        let cloned = cloneFeatureBatch batch;
            canonical = cloned\<lparr>fb_Players := sort_cmp comparePlayerVector (fb_Players cloned)\<rparr>;
            first = pv_Observations (hd (fb_Players canonical)) in
        if length first = 0 \<or> 6 < length first
        then Inl (ErrorsNew ''feature batch requires one to six observations per player'')
        else rbind (featureNameLoop [] first) (\<lambda>featureNames.
             guardE (playerLoop featureNames '''' (fb_Players canonical)) (Inr (canonical, featureNames))))"

definition validateFeatureBatchCompatibility ::
  "FeatureBatch \<Rightarrow> FeatureName list \<Rightarrow> FeatureBatch \<Rightarrow> FeatureName list \<Rightarrow> error" where
  "validateFeatureBatchCompatibility reference referenceNames batch names =
     (if fb_SchemaVersion batch \<noteq> fb_SchemaVersion reference \<or> fb_ModeID batch \<noteq> fb_ModeID reference \<or>
         fb_ScoringRulesVersion batch \<noteq> fb_ScoringRulesVersion reference \<or> fb_DeckVersion batch \<noteq> fb_DeckVersion reference
      then Some (ErrorsNew ''feature batches must share one schema, mode, scoring rules and deck version'')
      else if names \<noteq> referenceNames then Some (ErrorsNew ''feature batches must share one feature layout'')
      else None)"

definition compareFeatureBatch :: "FeatureBatch \<Rightarrow> FeatureBatch \<Rightarrow> int" where
  "compareFeatureBatch left right =
     (let comparison = time_Compare (fb_AvailableAt left) (fb_AvailableAt right) in
      if comparison \<noteq> 0 then comparison else strCompare (fb_EventID left) (fb_EventID right))"

text \<open>
  The batch loop of \<^verbatim>\<open>SplitFeatureBatches\<close>: the index, the events and rooms seen, the reference batch with its
  feature names (\<open>None\<close> before the first batch, index zero) and the canonical batches so far.
\<close>

fun splitLoop ::
  "int \<Rightarrow> string list \<Rightarrow> string list \<Rightarrow> (FeatureBatch \<times> FeatureName list) option \<Rightarrow> FeatureBatch list \<Rightarrow> FeatureBatch list
   \<Rightarrow> ((FeatureBatch \<times> FeatureName list) option \<times> FeatureBatch list) result" where
  "splitLoop index eventIDs roomIDs reference canonical [] = Inr (reference, canonical)"
| "splitLoop index eventIDs roomIDs reference canonical (batch # bs) =
     rbind (wrapR ''feature batch %d: %w'' [ArgI index] (canonicalFeatureBatch batch)) (\<lambda>(validated, names).
     if fb_EventID validated \<in> set eventIDs
     then Inl (Errorf ''feature split contains duplicate event %q'' [ArgS (fb_EventID validated)] None)
     else if fb_RoomID validated \<in> set roomIDs
     then Inl (Errorf ''feature split contains duplicate room %q'' [ArgS (fb_RoomID validated)] None)
     else
       let step = (\<lambda>ref. splitLoop (index + 1) (fb_EventID validated # eventIDs) (fb_RoomID validated # roomIDs) (Some ref)
                           (canonical @ [validated]) bs) in
       (case reference of
          None \<Rightarrow> step (validated, names)
        | Some (referenceBatch, featureNames) \<Rightarrow>
            guardE (wrapE ''feature batch %d: %w'' [ArgI index]
                      (validateFeatureBatchCompatibility referenceBatch featureNames validated names))
              (step (referenceBatch, featureNames))))"

definition SplitFeatureBatches :: "FeatureBatch list \<Rightarrow> time \<Rightarrow> TimeOrderedFeatureSet result" where
  "SplitFeatureBatches batches trainingCutoff =
     (if IsZero trainingCutoff then Inl (ErrorsNew ''feature training cutoff is required'')
      else if length batches < 2 then Inl (ErrorsNew ''feature split requires at least two batches'')
      else rbind (splitLoop 0 [] [] None [] batches) (\<lambda>(reference, unordered).
        let (referenceBatch, featureNames) = the reference;
            canonical = sort_cmp compareFeatureBatch unordered;
            featureSet = \<lparr>tf_trainingCutoff = trainingCutoff, tf_schemaVersion = fb_SchemaVersion referenceBatch,
                   tf_modeID = fb_ModeID referenceBatch, tf_scoringRulesVersion = fb_ScoringRulesVersion referenceBatch,
                   tf_deckVersion = fb_DeckVersion referenceBatch, tf_featureNames = featureNames,
                   tf_training = filter (\<lambda>b. \<not> After (fb_AvailableAt b) trainingCutoff) canonical,
                   tf_holdout = filter (\<lambda>b. After (fb_AvailableAt b) trainingCutoff) canonical\<rparr> in
        if tf_training featureSet = [] \<or> tf_holdout featureSet = []
        then Inl (ErrorsNew ''feature split requires non-empty training and holdout partitions'')
        else Inr featureSet))"

definition TrainingCutoff :: "TimeOrderedFeatureSet \<Rightarrow> time" where "TrainingCutoff s = tf_trainingCutoff s"
definition Training :: "TimeOrderedFeatureSet \<Rightarrow> FeatureBatch list" where "Training s = cloneFeatureBatches (tf_training s)"
definition Holdout :: "TimeOrderedFeatureSet \<Rightarrow> FeatureBatch list" where "Holdout s = cloneFeatureBatches (tf_holdout s)"

section \<open>The standardizer\<close>

record FeatureStatistic =
  fst_Name :: FeatureName
  fst_Observations :: int
  fst_Mean :: f64
  fst_StandardDeviation :: f64

record FeatureStandardizer =
  fz_trainedThrough :: time
  fz_schemaVersion :: string
  fz_modeID :: string
  fz_scoringRulesVersion :: string
  fz_deckVersion :: string
  fz_statistics :: "FeatureStatistic list"

text \<open>The one-pass accumulator, generic in the numbers: floats in the program, reals in the exact reading.\<close>

record 'a accumulator =
  acc_count :: int
  acc_mean :: 'a
  acc_m2 :: 'a

definition welfordStep :: "(int \<Rightarrow> 'a) \<Rightarrow> 'a::{plus,minus,times,inverse} \<Rightarrow> 'a accumulator \<Rightarrow> 'a accumulator" where
  "welfordStep fromInt value current =
     (let count = acc_count current + 1;
          delta = value - acc_mean current;
          mean = acc_mean current + delta / fromInt count
      in \<lparr>acc_count = count, acc_mean = mean, acc_m2 = acc_m2 current + delta * (value - mean)\<rparr>)"

definition accumulateObservation :: "nat \<times> FeatureObservation \<Rightarrow> f64 accumulator list \<Rightarrow> f64 accumulator list" where
  "accumulateObservation = (\<lambda>(index, ob) accumulators.
     if \<not> fo_Present ob then accumulators
     else accumulators[index := welfordStep f64_of_int (fo_Value ob) (accumulators ! index)])"

definition accumulateBatch :: "FeatureBatch \<Rightarrow> f64 accumulator list \<Rightarrow> f64 accumulator list" where
  "accumulateBatch batch = fold (\<lambda>player. fold accumulateObservation (indexed (pv_Observations player))) (fb_Players batch)"

definition statisticOf :: "FeatureName \<times> f64 accumulator \<Rightarrow> FeatureStatistic result" where
  "statisticOf = (\<lambda>(name, current).
     if acc_count current = 0
     then Inl (Errorf ''feature %q has no present training observations'' [ArgS name] None)
     else let standardDeviation = math_Sqrt (math_Max (acc_m2 current / f64_of_int (acc_count current)) 0) in
       if \<not> f64_finite (acc_mean current) \<or> \<not> f64_finite standardDeviation
       then Inl (Errorf ''feature %q produced non-finite training statistics'' [ArgS name] None)
       else Inr \<lparr>fst_Name = name, fst_Observations = acc_count current, fst_Mean = acc_mean current,
                 fst_StandardDeviation = standardDeviation\<rparr>)"

definition FitFeatureStandardizer :: "TimeOrderedFeatureSet option \<Rightarrow> FeatureStandardizer result" where
  "FitFeatureStandardizer setPtr =
     (case setPtr of
        None \<Rightarrow> Inl (ErrorsNew ''time-ordered feature set is required'')
      | Some featureSet \<Rightarrow>
          let accumulators = fold accumulateBatch (tf_training featureSet)
                (replicate (length (tf_featureNames featureSet)) \<lparr>acc_count = 0, acc_mean = 0, acc_m2 = 0\<rparr>) in
          rbind (mapR statisticOf (zip (tf_featureNames featureSet) accumulators)) (\<lambda>statistics.
          Inr \<lparr>fz_trainedThrough = tf_trainingCutoff featureSet, fz_schemaVersion = tf_schemaVersion featureSet, fz_modeID = tf_modeID featureSet,
               fz_scoringRulesVersion = tf_scoringRulesVersion featureSet, fz_deckVersion = tf_deckVersion featureSet,
               fz_statistics = statistics\<rparr>))"

definition TrainedThrough :: "FeatureStandardizer \<Rightarrow> time" where "TrainedThrough s = fz_trainedThrough s"
definition Statistics :: "FeatureStandardizer \<Rightarrow> FeatureStatistic list" where "Statistics s = fz_statistics s"

record StandardizedFeatureObservation =
  so_Name :: FeatureName
  so_Value :: f64
  so_Present :: bool

record StandardizedPlayerFeatureVector =
  sv_PlayerID :: string
  sv_Observations :: "StandardizedFeatureObservation list"

record StandardizedFeatureBatch =
  sb_SchemaVersion :: string
  sb_EventID :: string
  sb_RoomID :: string
  sb_ModeID :: string
  sb_ScoringRulesVersion :: string
  sb_DeckVersion :: string
  sb_DeckID :: string
  sb_FinishedAt :: time
  sb_AvailableAt :: time
  sb_Players :: "StandardizedPlayerFeatureVector list"

definition layoutCheck :: "FeatureStatistic \<times> FeatureName \<Rightarrow> error" where
  "layoutCheck = (\<lambda>(statistic, name).
     failIf (fst_Name statistic \<noteq> name) (ErrorsNew ''feature standardizer layout does not match the time-ordered set''))"

definition validateSet :: "FeatureStandardizer option \<Rightarrow> TimeOrderedFeatureSet option \<Rightarrow> error" where
  "validateSet sPtr setPtr =
     (case (sPtr, setPtr) of
        (Some s, Some featureSet) \<Rightarrow>
          if fz_trainedThrough s \<noteq> tf_trainingCutoff featureSet \<or> fz_schemaVersion s \<noteq> tf_schemaVersion featureSet \<or>
             fz_modeID s \<noteq> tf_modeID featureSet \<or> fz_scoringRulesVersion s \<noteq> tf_scoringRulesVersion featureSet \<or>
             fz_deckVersion s \<noteq> tf_deckVersion featureSet \<or> length (fz_statistics s) \<noteq> length (tf_featureNames featureSet)
          then Some (ErrorsNew ''feature standardizer does not match the time-ordered set'')
          else forE layoutCheck (zip (fz_statistics s) (tf_featureNames featureSet))
      | _ \<Rightarrow> Some (ErrorsNew ''feature standardizer and time-ordered set are required''))"

definition standardizeValue :: "'a::{zero,one,minus,inverse} \<Rightarrow> 'a \<Rightarrow> 'a \<Rightarrow> 'a" where
  "standardizeValue mean deviation value = (let scale = (if deviation = 0 then 1 else deviation) in (value - mean) / scale)"

definition transformObservation ::
  "FeatureStatistic list \<Rightarrow> nat \<times> FeatureObservation \<Rightarrow> StandardizedFeatureObservation" where
  "transformObservation statistics = (\<lambda>(index, ob).
     let standardized = \<lparr>so_Name = fo_Name ob, so_Value = 0, so_Present = fo_Present ob\<rparr> in
     if fo_Present ob
     then let statistic = statistics ! index in
       standardized\<lparr>so_Value := standardizeValue (fst_Mean statistic) (fst_StandardDeviation statistic) (fo_Value ob)\<rparr>
     else standardized)"

definition transformPlayer :: "FeatureStatistic list \<Rightarrow> PlayerFeatureVector \<Rightarrow> StandardizedPlayerFeatureVector" where
  "transformPlayer statistics player =
     \<lparr>sv_PlayerID = pv_PlayerID player,
      sv_Observations = map (transformObservation statistics) (indexed (pv_Observations player))\<rparr>"

definition transformBatches :: "FeatureStandardizer \<Rightarrow> FeatureBatch list \<Rightarrow> StandardizedFeatureBatch list" where
  "transformBatches s batches = map (\<lambda>batch.
     \<lparr>sb_SchemaVersion = fb_SchemaVersion batch, sb_EventID = fb_EventID batch, sb_RoomID = fb_RoomID batch,
      sb_ModeID = fb_ModeID batch, sb_ScoringRulesVersion = fb_ScoringRulesVersion batch,
      sb_DeckVersion = fb_DeckVersion batch, sb_DeckID = fb_DeckID batch, sb_FinishedAt = fb_FinishedAt batch,
      sb_AvailableAt = fb_AvailableAt batch,
      sb_Players = map (transformPlayer (fz_statistics s)) (fb_Players batch)\<rparr>) batches"

definition TransformTraining ::
  "FeatureStandardizer option \<Rightarrow> TimeOrderedFeatureSet option \<Rightarrow> StandardizedFeatureBatch list result" where
  "TransformTraining s featureSet = guardE (validateSet s featureSet) (Inr (transformBatches (the s) (tf_training (the featureSet))))"

definition TransformHoldout ::
  "FeatureStandardizer option \<Rightarrow> TimeOrderedFeatureSet option \<Rightarrow> StandardizedFeatureBatch list result" where
  "TransformHoldout s featureSet = guardE (validateSet s featureSet) (Inr (transformBatches (the s) (tf_holdout (the featureSet))))"

section \<open>The split\<close>

interpretation byVectorID: go_key_compare comparePlayerVector pv_PlayerID
  by unfold_locales (auto simp: comparePlayerVector_def strCompare_def split: if_splits)

interpretation byAvailability: go_key_compare compareFeatureBatch "\<lambda>b. (fb_AvailableAt b, fb_EventID b)"
  by unfold_locales
    (auto simp: compareFeatureBatch_def time_Compare_def strCompare_def Let_def split: if_splits)

definition batchKey :: "FeatureBatch \<times> FeatureName list \<Rightarrow> string \<times> string \<times> string \<times> string \<times> FeatureName list" where
  "batchKey = (\<lambda>(b, names). (fb_SchemaVersion b, fb_ModeID b, fb_ScoringRulesVersion b, fb_DeckVersion b, names))"

lemma compatibility_None:
  "validateFeatureBatchCompatibility r rn b bn = None \<longleftrightarrow> batchKey (b, bn) = batchKey (r, rn)"
  by (auto simp: validateFeatureBatchCompatibility_def batchKey_def)

lemma mapR_projr: "mapR f xs = Inr ys \<longleftrightarrow> (\<forall>x \<in> set xs. \<exists>y. f x = Inr y) \<and> ys = map (projr \<circ> f) xs"
  unfolding o_def by (rule mapR_iff_map) auto

lemma splitLoop_Inr:
  "splitLoop i evs rms ref can bs = Inr (ref', can') \<longleftrightarrow>
     (\<exists>vs. mapR canonicalFeatureBatch bs = Inr vs \<and> can' = can @ map fst vs \<and>
        distinct (map (fb_EventID \<circ> fst) vs) \<and> set (map (fb_EventID \<circ> fst) vs) \<inter> set evs = {} \<and>
        distinct (map (fb_RoomID \<circ> fst) vs) \<and> set (map (fb_RoomID \<circ> fst) vs) \<inter> set rms = {} \<and>
        ref' = (case ref of None \<Rightarrow> if vs = [] then None else Some (hd vs) | Some r \<Rightarrow> Some r) \<and>
        (\<forall>v \<in> set vs. batchKey v = batchKey (the ref')))"
proof (induction bs arbitrary: i evs rms ref can)
  case Nil
  then show ?case by (auto split: option.splits)
next
  case (Cons b bs)
  show ?case
  proof (cases "canonicalFeatureBatch b")
    case (Inl e)
    then show ?thesis by simp
  next
    case (Inr v)
    obtain c names where v: "v = (c, names)" by fastforce
    show ?thesis
    proof (cases "mapR canonicalFeatureBatch bs")
      case Inl
      then show ?thesis using Inr by (cases ref) (auto simp: v Cons.IH)
    next
      case rest: (Inr vs)
      show ?thesis
      proof (cases ref)
        case None
        show ?thesis using Inr rest by (auto simp: v None Cons.IH)
      next
        case (Some r)
        obtain rb rn where r: "r = (rb, rn)" by fastforce
        show ?thesis using Inr rest by (auto simp: v Some r Cons.IH compatibility_None)
      qed
    qed
  qed
qed

text \<open>The split as a function of the canonical batches.\<close>

definition splitOf :: "time \<Rightarrow> (FeatureBatch \<times> FeatureName list) list \<Rightarrow> TimeOrderedFeatureSet" where
  "splitOf cutoff vs =
     \<lparr>tf_trainingCutoff = cutoff, tf_schemaVersion = fb_SchemaVersion (fst (hd vs)), tf_modeID = fb_ModeID (fst (hd vs)),
      tf_scoringRulesVersion = fb_ScoringRulesVersion (fst (hd vs)), tf_deckVersion = fb_DeckVersion (fst (hd vs)),
      tf_featureNames = snd (hd vs),
      tf_training = filter (\<lambda>b. \<not> cutoff < fb_AvailableAt b) (sort_cmp compareFeatureBatch (map fst vs)),
      tf_holdout = filter (\<lambda>b. cutoff < fb_AvailableAt b) (sort_cmp compareFeatureBatch (map fst vs))\<rparr>"

definition uniformBatches :: "(FeatureBatch \<times> FeatureName list) list \<Rightarrow> bool" where
  "uniformBatches vs \<longleftrightarrow> distinct (map (fb_EventID \<circ> fst) vs) \<and> distinct (map (fb_RoomID \<circ> fst) vs) \<and>
     (\<forall>v \<in> set vs. \<forall>w \<in> set vs. batchKey v = batchKey w)"

lemma SplitFeatureBatches_Inr:
  "SplitFeatureBatches bs cutoff = Inr s \<longleftrightarrow> cutoff \<noteq> 0 \<and> 2 \<le> length bs \<and>
     (\<exists>vs. mapR canonicalFeatureBatch bs = Inr vs \<and> uniformBatches vs \<and> s = splitOf cutoff vs \<and>
        tf_training s \<noteq> [] \<and> tf_holdout s \<noteq> [])"
proof -
  have loop: "splitLoop 0 [] [] None [] bs = Inr (ref, can) \<longleftrightarrow>
      (\<exists>vs. mapR canonicalFeatureBatch bs = Inr vs \<and> uniformBatches vs \<and> can = map fst vs \<and> ref = Some (hd vs))"
    if "2 \<le> length bs" for ref can
  proof -
    have ne: "vs \<noteq> []" if "mapR canonicalFeatureBatch bs = Inr vs" for vs
      using mapR_length [OF that] \<open>2 \<le> length bs\<close> by auto
    have key: "(\<forall>v \<in> set vs. batchKey v = batchKey (hd vs)) \<longleftrightarrow> (\<forall>v \<in> set vs. \<forall>w \<in> set vs. batchKey v = batchKey w)"
      if "vs \<noteq> []" for vs using hd_in_set [OF that] by metis
    show ?thesis
    proof (cases "mapR canonicalFeatureBatch bs")
      case (Inr vs)
      show ?thesis unfolding splitLoop_Inr
        using ne [OF Inr] key [OF ne [OF Inr]] by (cases "ref = Some (hd vs)") (auto simp add: Inr uniformBatches_def)
    qed (simp add: splitLoop_Inr)
  qed
  show ?thesis
  proof (cases "2 \<le> length bs")
    case True
    show ?thesis
    proof (cases "splitLoop 0 [] [] None [] bs")
      case (Inl e)
      then have "\<not> (\<exists>vs. mapR canonicalFeatureBatch bs = Inr vs \<and> uniformBatches vs)" using loop [OF True] by fastforce
      then show ?thesis using Inl by (auto simp: SplitFeatureBatches_def)
    next
      case (Inr p)
      obtain ref can where p: "p = (ref, can)" by fastforce
      obtain vs where vs: "mapR canonicalFeatureBatch bs = Inr vs" "uniformBatches vs" "can = map fst vs" "ref = Some (hd vs)"
        using loop [OF True, of ref can] Inr p by auto
      have "SplitFeatureBatches bs cutoff = Inr s \<longleftrightarrow> cutoff \<noteq> 0 \<and> s = splitOf cutoff vs \<and> tf_training s \<noteq> [] \<and> tf_holdout s \<noteq> []"
        using True Inr by (auto simp: SplitFeatureBatches_def p vs(3,4) splitOf_def case_prod_beta Let_def)
      then show ?thesis using True vs(1,2) by auto
    qed
  qed (auto simp: SplitFeatureBatches_def)
qed

text \<open>A canonical batch is its input with the players put in order.\<close>

lemma canonicalFeatureBatch_Inr:
  assumes "canonicalFeatureBatch b = Inr (c, names)"
  shows "c = b\<lparr>fb_Players := sort_cmp comparePlayerVector (fb_Players b)\<rparr>"
    and "playerLoop names '''' (fb_Players c) = None"
proof -
  have "cloneFeatureBatch b = b" by (simp add: cloneFeatureBatch_def)
  then show "c = b\<lparr>fb_Players := sort_cmp comparePlayerVector (fb_Players b)\<rparr>" "playerLoop names '''' (fb_Players c) = None"
    using assms by (auto simp: canonicalFeatureBatch_def Let_def split: if_splits)
qed

lemma playerLoop_layout:
  "playerLoop names prev ps = None \<Longrightarrow> p \<in> set ps \<Longrightarrow>
     map fo_Name (pv_Observations p) = names \<and> (\<forall>ob \<in> set (pv_Observations p). f64_finite (fo_Value ob))"
proof (induction ps arbitrary: prev)
  case (Cons q ps)
  have *: "map fo_Name os = names \<and> (\<forall>ob \<in> set os. f64_finite (fo_Value ob))"
    if "length os = length names" "\<forall>x \<in> set (zip names os). observationCheck k x = None" for os k
    using that by (induction os names rule: list_induct2) (auto simp: observationCheck_def split: if_splits)
  show ?case
  proof (cases "p = q")
    case True
    then show ?thesis using Cons.prems(1) * [of "pv_Observations q" "pv_PlayerID q"] by (simp split: if_splits)
  next
    case False
    then show ?thesis using Cons.prems Cons.IH [of "pv_PlayerID q"] by (simp split: if_splits)
  qed
qed simp

lemma split_members:
  assumes "mapR canonicalFeatureBatch bs = Inr vs"
  shows "map fst vs = map (\<lambda>b. b\<lparr>fb_Players := sort_cmp comparePlayerVector (fb_Players b)\<rparr>) bs"
proof -
  have "list_all2 (\<lambda>b v. fst v = b\<lparr>fb_Players := sort_cmp comparePlayerVector (fb_Players b)\<rparr>) bs vs"
    using assms unfolding mapR_Inr by (rule list_all2_mono) (metis canonicalFeatureBatch_Inr(1) prod.collapse)
  then show ?thesis by (induction rule: list_all2_induct) auto
qed

text \<open>
  C30. The split never leaks: every batch of the input, with its players in order, is in exactly one partition;
  training data was available by the cutoff and holdout data only after it; no event and no room occurs twice, so
  none is shared between the partitions; both partitions are non-empty and ordered by availability.
\<close>

theorem Split_no_leakage:
  assumes "SplitFeatureBatches bs cutoff = Inr s"
  shows "mset (tf_training s) + mset (tf_holdout s) = mset (map (\<lambda>b. b\<lparr>fb_Players := sort_cmp comparePlayerVector (fb_Players b)\<rparr>) bs) \<and>
    (\<forall>b \<in> set (tf_training s). fb_AvailableAt b \<le> cutoff) \<and> (\<forall>b \<in> set (tf_holdout s). cutoff < fb_AvailableAt b) \<and>
    distinct (map fb_EventID (tf_training s @ tf_holdout s)) \<and> distinct (map fb_RoomID (tf_training s @ tf_holdout s)) \<and>
    tf_training s \<noteq> [] \<and> tf_holdout s \<noteq> [] \<and> sorted (map fb_AvailableAt (tf_training s @ tf_holdout s))"
proof -
  obtain vs where vs: "mapR canonicalFeatureBatch bs = Inr vs" "uniformBatches vs" "s = splitOf cutoff vs"
    "tf_training s \<noteq> []" "tf_holdout s \<noteq> []" using assms unfolding SplitFeatureBatches_Inr by blast
  let ?c = "sort_cmp compareFeatureBatch (map fst vs)"
  have parts: "tf_training s = filter (\<lambda>b. \<not> cutoff < fb_AvailableAt b) ?c" "tf_holdout s = filter (\<lambda>b. cutoff < fb_AvailableAt b) ?c"
    using vs(3) by (simp_all add: splitOf_def)
  have ms: "mset (tf_training s) + mset (tf_holdout s) = mset (map fst vs)"
    by (simp add: parts)
  have key: "distinct (map f (tf_training s @ tf_holdout s))" if "distinct (map (f \<circ> fst) vs)" for f :: "FeatureBatch \<Rightarrow> string"
  proof -
    have "mset (map f (tf_training s @ tf_holdout s)) = mset (map (f \<circ> fst) vs)"
      using ms by (simp add: mset_map image_mset.compositionality flip: image_mset_union)
    then show ?thesis using that mset_eq_imp_distinct_iff by blast
  qed
  have "sorted_wrt (\<lambda>a b. compareFeatureBatch a b \<le> 0) ?c" by (simp add: byAvailability.sorted_sort_cmp)
  then have srt: "sorted_wrt (\<lambda>a b. fb_AvailableAt a \<le> fb_AvailableAt b) ?c"
    by (rule sorted_wrt_mono_rel [rotated]) (auto simp: compareFeatureBatch_def time_Compare_def Let_def split: if_splits)
  have "sorted (map fb_AvailableAt (filter P ?c))" for P
    unfolding sorted_map by (rule sorted_wrt_filter [OF srt])
  then have "sorted (map fb_AvailableAt (tf_training s @ tf_holdout s))"
    by (auto simp: parts sorted_append)
  moreover have "\<forall>b \<in> set (tf_training s). fb_AvailableAt b \<le> cutoff" "\<forall>b \<in> set (tf_holdout s). cutoff < fb_AvailableAt b"
    by (auto simp: parts)
  moreover have "distinct (map fb_EventID (tf_training s @ tf_holdout s))" "distinct (map fb_RoomID (tf_training s @ tf_holdout s))"
    using vs(2) key unfolding uniformBatches_def by blast+
  ultimately show ?thesis using ms vs(4,5) split_members [OF vs(1)] by metis
qed

text \<open>
  The split does not depend on the order in which the batches arrive: a permutation of an accepted input is
  accepted with the same training and holdout sequences and the same metadata.
\<close>

theorem Split_order_independent:
  assumes "SplitFeatureBatches bs cutoff = Inr s" "mset bs' = mset bs"
  shows "SplitFeatureBatches bs' cutoff = Inr s"
proof -
  obtain vs where c: "cutoff \<noteq> 0" "2 \<le> length bs" and vs: "mapR canonicalFeatureBatch bs = Inr vs" "uniformBatches vs"
    "s = splitOf cutoff vs" "tf_training s \<noteq> []" "tf_holdout s \<noteq> []" using assms(1) unfolding SplitFeatureBatches_Inr by blast
  define vs' where "vs' = map (projr \<circ> canonicalFeatureBatch) bs'"
  have sets: "set bs' = set bs" and len: "length bs' = length bs" using assms(2) by (metis set_mset_mset, metis size_mset)
  have vs': "mapR canonicalFeatureBatch bs' = Inr vs'" using vs(1) sets by (simp add: mapR_projr vs'_def)
  have ms: "mset vs' = mset vs" using vs(1) assms(2) by (simp add: mapR_projr vs'_def mset_map)
  have img: "mset (map f vs') = mset (map f vs)" for f :: "FeatureBatch \<times> FeatureName list \<Rightarrow> 'a" by (simp add: mset_map ms)
  have uni: "uniformBatches vs'"
  proof -
    have s: "set vs' = set vs" using ms by (metis set_mset_mset)
    have d: "distinct (map f vs') \<longleftrightarrow> distinct (map f vs)" for f :: "FeatureBatch \<times> FeatureName list \<Rightarrow> string"
      by (rule mset_eq_imp_distinct_iff [OF img])
    show ?thesis using vs(2) unfolding uniformBatches_def s d .
  qed
  have ne: "vs \<noteq> []" "vs' \<noteq> []" using mapR_length [OF vs(1)] mapR_length [OF vs'] c(2) len by auto
  then have "hd vs' \<in> set vs" "hd vs \<in> set vs" using ms by (metis hd_in_set set_mset_mset)+
  then have "batchKey (hd vs') = batchKey (hd vs)" using vs(2) unfolding uniformBatches_def by blast
  moreover have "sort_cmp compareFeatureBatch (map fst vs') = sort_cmp compareFeatureBatch (map fst vs)"
  proof (rule byAvailability.sort_cmp_perm)
    have "distinct (map snd (map (\<lambda>b. (fb_AvailableAt b, fb_EventID b)) (map fst vs')))"
      using uni by (simp add: uniformBatches_def o_def)
    then show "distinct (map (\<lambda>b. (fb_AvailableAt b, fb_EventID b)) (map fst vs'))" by (simp only: distinct_map)
  qed (rule img)
  ultimately have "splitOf cutoff vs' = splitOf cutoff vs" by (simp add: splitOf_def batchKey_def split: prod.splits)
  then show ?thesis using c vs vs' uni len unfolding SplitFeatureBatches_Inr by auto
qed

section \<open>One pass equals two passes\<close>

abbreviation noObservations :: "'a::zero accumulator" where
  "noObservations \<equiv> \<lparr>acc_count = 0, acc_mean = 0, acc_m2 = 0\<rparr>"

definition welford :: "(int \<Rightarrow> 'a) \<Rightarrow> 'a::{zero,plus,minus,times,inverse} list \<Rightarrow> 'a accumulator" where
  "welford fromInt xs = fold (welfordStep fromInt) xs noObservations"

lemma welford_snoc [simp]: "welford c (xs @ [x]) = welfordStep c x (welford c xs)"
  by (simp add: welford_def)

lemma welford_count [simp]: "acc_count (welford c xs) = int (length xs)"
  by (induction xs rule: rev_induct) (simp_all add: welford_def welfordStep_def Let_def)

lemma welford_sums:
  fixes xs :: "real list"
  shows "of_nat (length xs) * acc_mean (welford of_int xs) = sum_list xs \<and>
    acc_m2 (welford of_int xs) = sum_list (map (\<lambda>x. x\<^sup>2) xs) - of_nat (length xs) * (acc_mean (welford of_int xs))\<^sup>2"
proof (induction xs rule: rev_induct)
  case Nil
  then show ?case by (simp add: welford_def)
next
  case (snoc x xs)
  let ?n = "of_nat (length xs) :: real" and ?m = "acc_mean (welford of_int xs)"
  define m' where "m' = ?m + (x - ?m) / (?n + 1)"
  have "?n + 1 \<noteq> 0" by (simp add: add_nonneg_eq_0_iff)
  then have key: "(?n + 1) * (m' - ?m) = x - ?m" by (simp add: m'_def)
  have step: "acc_mean (welford of_int (xs @ [x])) = m'"
      "acc_m2 (welford of_int (xs @ [x])) = acc_m2 (welford of_int xs) + (x - ?m) * (x - m')"
    by (simp_all add: welfordStep_def Let_def m'_def)
  have mean: "(?n + 1) * m' = sum_list xs + x"
  proof -
    have "(?n + 1) * m' = (?n + 1) * (m' - ?m) + ?n * ?m + ?m" by (simp add: algebra_simps)
    also have "\<dots> = sum_list xs + x" using key snoc.IH by simp
    finally show ?thesis .
  qed
  have "(x - ?m) * (x - m') = x\<^sup>2 + ?n * ?m\<^sup>2 - (?n + 1) * m'\<^sup>2"
  proof -
    have x: "x = (?n + 1) * m' - ?n * ?m" using key by (simp add: algebra_simps)
    show ?thesis unfolding x by (simp add: power2_eq_square algebra_simps)
  qed
  moreover have "acc_m2 (welford of_int xs) = sum_list (map (\<lambda>x. x\<^sup>2) xs) - ?n * ?m\<^sup>2" using snoc.IH by simp
  ultimately have "acc_m2 (welford of_int (xs @ [x])) = sum_list (map (\<lambda>x. x\<^sup>2) xs) + x\<^sup>2 - (?n + 1) * m'\<^sup>2"
    by (simp only: step)
  then show ?case using mean by (simp only: step(1)) (simp add: add.commute)
qed

lemma sum_list_affine:
  fixes xs :: "real list"
  shows "sum_list (map (\<lambda>x. (x - m) / s) xs) = (sum_list xs - of_nat (length xs) * m) / s"
    and "sum_list (map (\<lambda>x. ((x - m) / s)\<^sup>2) xs) = sum_list (map (\<lambda>x. (x - m)\<^sup>2) xs) / s\<^sup>2"
proof -
  show "sum_list (map (\<lambda>x. (x - m) / s) xs) = (sum_list xs - of_nat (length xs) * m) / s"
    by (induction xs) (simp_all add: diff_divide_distrib add_divide_distrib algebra_simps)
  show "sum_list (map (\<lambda>x. ((x - m) / s)\<^sup>2) xs) = sum_list (map (\<lambda>x. (x - m)\<^sup>2) xs) / s\<^sup>2"
    by (induction xs) (simp_all add: power_divide add_divide_distrib)
qed

lemma sum_list_squares_zero:
  fixes xs :: "real list"
  shows "sum_list (map (\<lambda>x. (x - m)\<^sup>2) xs) = 0 \<longleftrightarrow> (\<forall>x \<in> set xs. x = m)" "0 \<le> sum_list (map (\<lambda>x. (x - m)\<^sup>2) xs)"
proof -
  show nn: "0 \<le> sum_list (map (\<lambda>x. (x - m)\<^sup>2) xs)" for xs by (rule sum_list_nonneg) auto
  show "sum_list (map (\<lambda>x. (x - m)\<^sup>2) xs) = 0 \<longleftrightarrow> (\<forall>x \<in> set xs. x = m)"
    using nn by (induction xs) (auto simp: add_nonneg_eq_0_iff)
qed

text \<open>
  In exact arithmetic the one-pass accumulator of the standardizer computes the two-pass statistics: the
  mean and the sum of squared deviations of the observations. Standardizing the observations with them centres
  them, and gives them unit variance unless the feature is constant, in which case they all become zero.
\<close>

theorem welford_standardizes:
  fixes xs :: "real list"
  defines "n \<equiv> real (length xs)" and "a \<equiv> welford of_int xs"
  defines "d \<equiv> sqrt (max (acc_m2 a / of_int (acc_count a)) 0)"
  assumes "xs \<noteq> []"
  shows "acc_count a = int (length xs) \<and> acc_mean a = sum_list xs / n \<and>
    acc_m2 a = sum_list (map (\<lambda>x. (x - acc_mean a)\<^sup>2) xs) \<and>
    sum_list (map (standardizeValue (acc_mean a) d) xs) = 0 \<and>
    sum_list (map (\<lambda>x. (standardizeValue (acc_mean a) d x)\<^sup>2) xs) = (if \<forall>x \<in> set xs. x = acc_mean a then 0 else n)"
proof -
  have n: "0 < n" using assms(4) by (simp add: n_def)
  have s: "n * acc_mean a = sum_list xs" "acc_m2 a = sum_list (map (\<lambda>x. x\<^sup>2) xs) - n * (acc_mean a)\<^sup>2" "acc_count a = int (length xs)"
    using welford_sums [of xs] by (simp_all add: a_def n_def)
  have m2: "acc_m2 a = sum_list (map (\<lambda>x. (x - acc_mean a)\<^sup>2) xs)"
  proof -
    have "sum_list (map (\<lambda>x. (x - c)\<^sup>2) ys) = sum_list (map (\<lambda>x. x\<^sup>2) ys) - 2 * c * sum_list ys + of_nat (length ys) * c\<^sup>2" for c :: real and ys
      by (induction ys) (simp_all add: power2_eq_square algebra_simps)
    from this [of "acc_mean a" xs] show ?thesis using s(2) by (simp add: power2_eq_square flip: s(1) n_def)
  qed
  define scale where "scale = (if d = 0 then 1 else d)"
  have std: "standardizeValue (acc_mean a) d = (\<lambda>x. (x - acc_mean a) / scale)"
    by (simp add: standardizeValue_def scale_def fun_eq_iff)
  have dd: "d\<^sup>2 = acc_m2 a / n" using n sum_list_squares_zero(2) [of "acc_mean a" xs] m2 s(3) by (simp add: d_def n_def)
  have "d\<^sup>2 = 0 \<longleftrightarrow> acc_m2 a = 0" unfolding dd using n by simp
  then have d0: "d = 0 \<longleftrightarrow> acc_m2 a = 0" by simp
  have "sum_list (map (\<lambda>x. (standardizeValue (acc_mean a) d x)\<^sup>2) xs) = acc_m2 a / scale\<^sup>2"
    unfolding std sum_list_affine(2) m2 [symmetric] by simp
  also have "\<dots> = (if \<forall>x \<in> set xs. x = acc_mean a then 0 else n)"
    using sum_list_squares_zero(1) [of "acc_mean a" xs] m2 d0 dd n by (auto simp: scale_def)
  finally have sq: "sum_list (map (\<lambda>x. (standardizeValue (acc_mean a) d x)\<^sup>2) xs) = (if \<forall>x \<in> set xs. x = acc_mean a then 0 else n)" .
  have "sum_list (map (standardizeValue (acc_mean a) d) xs) = 0"
    unfolding std sum_list_affine(1) using s(1) by (simp add: n_def)
  then show ?thesis using s(1,3) m2 sq n by (simp add: field_simps)
qed

theorem welford_standardizes_witness:
  "acc_count (welford of_int [1, 2, 6 :: real]) = 3 \<and> acc_mean (welford of_int [1, 2, 6 :: real]) = 3"
  using welford_standardizes [of "[1, 2, 6]"] by simp

section \<open>Fitting and transforming\<close>

text \<open>The present values of one column, in the order the standardizer reads them.\<close>

definition columnValues :: "nat \<Rightarrow> FeatureBatch list \<Rightarrow> f64 list" where
  "columnValues i bs = map (\<lambda>p. fo_Value (pv_Observations p ! i))
     (filter (\<lambda>p. fo_Present (pv_Observations p ! i)) (concat (map fb_Players bs)))"

definition columnStep :: "nat \<Rightarrow> FeatureObservation list \<Rightarrow> f64 accumulator \<Rightarrow> f64 accumulator" where
  "columnStep i os acc = (if fo_Present (os ! i) then welfordStep f64_of_int (fo_Value (os ! i)) acc else acc)"

lemma accumulate_row_from:
  assumes "k + length os \<le> length accs"
  shows "length (fold accumulateObservation (zip [k..<k + length os] os) accs) = length accs \<and>
    (i < length accs \<longrightarrow> fold accumulateObservation (zip [k..<k + length os] os) accs ! i =
       (if k \<le> i \<and> i < k + length os then columnStep (i - k) os (accs ! i) else accs ! i))"
  using assms
proof (induction os arbitrary: k accs)
  case (Cons ob os)
  have z: "zip [k..<k + length (ob # os)] (ob # os) = (k, ob) # zip [Suc k..<Suc k + length os] os"
    by (simp add: upt_conv_Cons del: upt_Suc)
  define accs1 where "accs1 = accumulateObservation (k, ob) accs"
  have 1: "length accs1 = length accs" "i < length accs \<Longrightarrow> accs1 ! i = (if i = k then columnStep 0 (ob # os) (accs ! i) else accs ! i)"
    by (simp_all add: accs1_def accumulateObservation_def columnStep_def)
  have f: "fold accumulateObservation (zip [k..<k + length (ob # os)] (ob # os)) accs =
      fold accumulateObservation (zip [Suc k..<Suc k + length os] os) accs1"
    unfolding z accs1_def by simp
  have c: "columnStep (i - k) (ob # os) a = columnStep (i - Suc k) os a" if "Suc k \<le> i" for a
    using that by (simp add: columnStep_def Suc_diff_Suc [symmetric])
  show ?case
    unfolding f using Cons.IH [of "Suc k" accs1] Cons.prems 1 c by (auto simp del: upt_Suc)
qed auto

lemma accumulate_row:
  assumes "length os = length accs"
  shows "length (fold accumulateObservation (indexed os) accs) = length accs"
    and "i < length accs \<Longrightarrow> fold accumulateObservation (indexed os) accs ! i = columnStep i os (accs ! i)"
  using accumulate_row_from [of 0 os accs i] assms by (simp_all add: indexed_def)

lemma accumulate_players:
  assumes "\<forall>p \<in> set ps. length (pv_Observations p) = length accs"
  shows "length (fold (\<lambda>p. fold accumulateObservation (indexed (pv_Observations p))) ps accs) = length accs \<and>
    (i < length accs \<longrightarrow> fold (\<lambda>p. fold accumulateObservation (indexed (pv_Observations p))) ps accs ! i =
       fold (\<lambda>p. columnStep i (pv_Observations p)) ps (accs ! i))"
  using assms by (induction ps arbitrary: accs) (simp_all add: accumulate_row)

lemma fold_column:
  "fold (\<lambda>p. columnStep i (pv_Observations p)) ps acc =
     fold (welfordStep f64_of_int) (map (\<lambda>p. fo_Value (pv_Observations p ! i)) (filter (\<lambda>p. fo_Present (pv_Observations p ! i)) ps)) acc"
  by (induction ps arbitrary: acc) (simp_all add: columnStep_def)

lemma accumulators_are_welford:
  assumes "\<forall>b \<in> set bs. \<forall>p \<in> set (fb_Players b). length (pv_Observations p) = n"
  shows "fold accumulateBatch bs (replicate n noObservations) = map (\<lambda>i. welford f64_of_int (columnValues i bs)) [0..<n]"
proof -
  have flat: "fold accumulateBatch bs accs = fold (\<lambda>p. fold accumulateObservation (indexed (pv_Observations p))) (concat (map fb_Players bs)) accs" for accs
    by (induction bs arbitrary: accs) (simp_all add: accumulateBatch_def)
  have *: "\<forall>p \<in> set (concat (map fb_Players bs)). length (pv_Observations p) = length (replicate n noObservations)"
    using assms by auto
  note row = accumulate_players [OF *]
  show ?thesis
  proof (rule nth_equalityI)
    show "length (fold accumulateBatch bs (replicate n noObservations)) = length (map (\<lambda>i. welford f64_of_int (columnValues i bs)) [0..<n])"
      using row unfolding flat by simp
  next
    fix i assume "i < length (fold accumulateBatch bs (replicate n noObservations))"
    then have i: "i < n" using row unfolding flat by simp
    then show "fold accumulateBatch bs (replicate n noObservations) ! i = map (\<lambda>i. welford f64_of_int (columnValues i bs)) [0..<n] ! i"
      using row [of i] unfolding flat by (simp add: fold_column welford_def columnValues_def)
  qed
qed

lemma Split_layout:
  assumes "SplitFeatureBatches bs cutoff = Inr s" "b \<in> set (tf_training s) \<union> set (tf_holdout s)" "p \<in> set (fb_Players b)"
  shows "map fo_Name (pv_Observations p) = tf_featureNames s"
proof -
  obtain vs where vs: "mapR canonicalFeatureBatch bs = Inr vs" "uniformBatches vs" "s = splitOf cutoff vs"
    using assms(1) unfolding SplitFeatureBatches_Inr by blast
  obtain names where n: "(b, names) \<in> set vs" using assms(2) vs(3) by (auto simp: splitOf_def)
  then have "hd vs \<in> set vs" by (cases vs) auto
  then have "batchKey (b, names) = batchKey (hd vs)" using vs(2) n unfolding uniformBatches_def by blast
  then have "names = tf_featureNames s" using vs(3) by (auto simp: batchKey_def splitOf_def split: prod.splits)
  moreover obtain b0 where "canonicalFeatureBatch b0 = Inr (b, names)" using mapR_member [OF vs(1) n] by blast
  ultimately show ?thesis using playerLoop_layout [OF canonicalFeatureBatch_Inr(2)] assms(3) by blast
qed

lemma statisticOf_Inr:
  assumes "statisticOf (name, a) = Inr st"
  shows "fst_Name st = name" "fst_Observations st = acc_count a" "fst_Mean st = acc_mean a" "acc_count a \<noteq> 0"
    and "f64_finite (fst_Mean st)" "f64_finite (fst_StandardDeviation st)"
  using assms by (auto simp: statisticOf_def Let_def split: if_splits)

text \<open>
  A standardizer fitted on a split owns one statistic per feature, computed by the one-pass accumulator over
  exactly the present training observations of that feature, of which there is at least one; nothing of the holdout
  partition influences it. It transforms both partitions of its own split without error, keeps every batch and
  player and the presence mask, and leaves missing observations at zero.
\<close>

theorem Fit_transforms:
  assumes "SplitFeatureBatches bs cutoff = Inr s" "FitFeatureStandardizer (Some s) = Inr z"
  shows "map fst_Name (fz_statistics z) = tf_featureNames s \<and>
    (\<forall>i < length (tf_featureNames s).
       fst_Mean (fz_statistics z ! i) = acc_mean (welford f64_of_int (columnValues i (tf_training s))) \<and>
       fst_Observations (fz_statistics z ! i) = int (length (columnValues i (tf_training s))) \<and>
       0 < fst_Observations (fz_statistics z ! i)) \<and>
    (\<forall>h. FitFeatureStandardizer (Some (s\<lparr>tf_holdout := h\<rparr>)) = Inr z) \<and>
    TransformTraining (Some z) (Some s) = Inr (transformBatches z (tf_training s)) \<and>
    TransformHoldout (Some z) (Some s) = Inr (transformBatches z (tf_holdout s)) \<and>
    (\<forall>b. map (map so_Present \<circ> sv_Observations) (sb_Players (hd (transformBatches z [b]))) =
         map (map fo_Present \<circ> pv_Observations) (fb_Players b))"
proof -
  let ?n = "length (tf_featureNames s)" and ?w = "\<lambda>i. welford f64_of_int (columnValues i (tf_training s))"
  have "length (pv_Observations p) = ?n" if "b \<in> set (tf_training s)" "p \<in> set (fb_Players b)" for b p
    using Split_layout [OF assms(1), of b p] that by (metis UnI1 length_map)
  then have acc: "fold accumulateBatch (tf_training s) (replicate ?n noObservations) = map ?w [0..<?n]"
    by (intro accumulators_are_welford) blast
  have st: "mapR statisticOf (zip (tf_featureNames s) (map ?w [0..<?n])) = Inr (fz_statistics z)"
    and meta: "fz_trainedThrough z = tf_trainingCutoff s" "fz_schemaVersion z = tf_schemaVersion s" "fz_modeID z = tf_modeID s"
      "fz_scoringRulesVersion z = tf_scoringRulesVersion s" "fz_deckVersion z = tf_deckVersion s"
    using assms(2) by (auto simp: FitFeatureStandardizer_def Let_def acc)
  have len: "length (fz_statistics z) = ?n" using mapR_length [OF st] by simp
  have each: "statisticOf (tf_featureNames s ! i, ?w i) = Inr (fz_statistics z ! i)" if "i < ?n" for i
    using st that unfolding mapR_Inr list_all2_conv_all_nth by simp
  note ev = statisticOf_Inr [OF each]
  have names: "map fst_Name (fz_statistics z) = tf_featureNames s"
    by (rule nth_equalityI) (use len ev(1) in auto)
  then have ok: "validateSet (Some z) (Some s) = None"
    using meta len by (auto simp: validateSet_def layoutCheck_def set_zip list_eq_iff_nth_eq)
  have mask: "map so_Present (map (transformObservation st) (indexed os)) = map fo_Present os" for st os
  proof -
    have "so_Present (transformObservation st p) = fo_Present (snd p)" for p
      by (auto simp: transformObservation_def Let_def split: prod.splits)
    then have "map so_Present (map (transformObservation st) (indexed os)) = map (fo_Present \<circ> snd) (indexed os)" by simp
    then show ?thesis by (simp flip: map_map)
  qed
  have "FitFeatureStandardizer (Some (s\<lparr>tf_holdout := h\<rparr>)) = Inr z" for h
    using assms(2) by (simp add: FitFeatureStandardizer_def)
  then show ?thesis
    using names ev ok mask by (auto simp: TransformTraining_def TransformHoldout_def transformBatches_def transformPlayer_def o_def)
qed

section \<open>A concrete split\<close>

definition sampleVector :: "real \<Rightarrow> string \<Rightarrow> PlayerFeatureVector" where
  "sampleVector x k = \<lparr>pv_PlayerID = k, pv_Observations = [\<lparr>fo_Name = FeatureScore, fo_Value = Fin x, fo_Present = True\<rparr>]\<rparr>"

definition sampleBatch :: "string \<Rightarrow> time \<Rightarrow> FeatureBatch" where
  "sampleBatch k t = \<lparr>fb_SchemaVersion = ''f1'', fb_EventID = k, fb_RoomID = k, fb_ModeID = ''mode'', fb_ScoringRulesVersion = ''s1'',
     fb_DeckVersion = ''d1'', fb_DeckID = ''deck'', fb_FinishedAt = 5, fb_AvailableAt = t,
     fb_Players = map (sampleVector 4) [''ann'', ''bob'', ''cyd'', ''dan'', ''eve'']\<rparr>"

lemma sampleBatch_canonical:
  assumes "k \<noteq> ''''" "5 \<le> t"
  shows "canonicalFeatureBatch (sampleBatch k t) = Inr (sampleBatch k t, [FeatureScore])"
proof -
  have "sort_cmp comparePlayerVector (fb_Players (sampleBatch k t)) = fb_Players (sampleBatch k t)"
    by (simp add: sampleBatch_def sampleVector_def comparePlayerVector_def strCompare_def)
  moreover have "cloneFeatureBatch (sampleBatch k t) = sampleBatch k t" by (simp add: cloneFeatureBatch_def)
  moreover have "supportedFeature FeatureScore" by (simp add: supportedFeature_def)
  ultimately show ?thesis
    using assms by (simp add: canonicalFeatureBatch_def Let_def)
      (simp add: sampleBatch_def sampleVector_def room_size_defs observationCheck_def)
qed

definition sampleBatches :: "FeatureBatch list" where
  "sampleBatches = [sampleBatch ''e2'' 30, sampleBatch ''e1'' 10]"

definition sampleSplit :: TimeOrderedFeatureSet where
  "sampleSplit = \<lparr>tf_trainingCutoff = 20, tf_schemaVersion = ''f1'', tf_modeID = ''mode'', tf_scoringRulesVersion = ''s1'',
     tf_deckVersion = ''d1'', tf_featureNames = [FeatureScore], tf_training = [sampleBatch ''e1'' 10], tf_holdout = [sampleBatch ''e2'' 30]\<rparr>"

lemma sampleBatch_sel [simp]:
  "fb_EventID (sampleBatch k t) = k" "fb_RoomID (sampleBatch k t) = k" "fb_AvailableAt (sampleBatch k t) = t"
  by (simp_all add: sampleBatch_def)

lemma sample_split: "SplitFeatureBatches sampleBatches 20 = Inr sampleSplit"
proof -
  let ?vs = "[(sampleBatch ''e2'' 30, [FeatureScore]), (sampleBatch ''e1'' 10, [FeatureScore])]"
  have "mapR canonicalFeatureBatch sampleBatches = Inr ?vs" by (simp add: sampleBatches_def sampleBatch_canonical)
  moreover have "uniformBatches ?vs" by (simp add: uniformBatches_def batchKey_def) (simp add: sampleBatch_def)
  moreover have "splitOf 20 ?vs = sampleSplit"
    by (simp add: splitOf_def sampleSplit_def compareFeatureBatch_def time_Compare_def) (simp add: sampleBatch_def)
  moreover have "tf_training sampleSplit \<noteq> []" "tf_holdout sampleSplit \<noteq> []" "2 \<le> length sampleBatches"
    by (simp_all add: sampleSplit_def sampleBatches_def)
  ultimately show ?thesis unfolding SplitFeatureBatches_Inr by auto
qed

theorem Split_no_leakage_witness:
  "SplitFeatureBatches sampleBatches 20 = Inr sampleSplit \<and> list_all (\<lambda>b. 20 < fb_AvailableAt b) (tf_holdout sampleSplit)"
  using Split_no_leakage [OF sample_split] sample_split unfolding list_all_iff by blast

theorem Split_order_independent_witness: "SplitFeatureBatches (rev sampleBatches) 20 = Inr sampleSplit"
  using Split_order_independent [OF sample_split, of "rev sampleBatches"] by simp

definition sampleStandardizer :: FeatureStandardizer where
  "sampleStandardizer = \<lparr>fz_trainedThrough = 20, fz_schemaVersion = ''f1'', fz_modeID = ''mode'', fz_scoringRulesVersion = ''s1'',
     fz_deckVersion = ''d1'', fz_statistics = [\<lparr>fst_Name = FeatureScore, fst_Observations = 5, fst_Mean = Fin 4, fst_StandardDeviation = 0\<rparr>]\<rparr>"

lemma sample_column: "columnValues 0 [sampleBatch ''e1'' 10] = replicate 5 (Fin 4)"
  by (simp add: columnValues_def sampleBatch_def sampleVector_def numeral_eq_Suc)

lemma welford_constant: "welford f64_of_int (replicate 5 (Fin 4)) = \<lparr>acc_count = 5, acc_mean = Fin 4, acc_m2 = 0\<rparr>"
proof -
  have first: "welfordStep f64_of_int (Fin 4) noObservations = \<lparr>acc_count = 1, acc_mean = Fin 4, acc_m2 = 0\<rparr>"
    by (simp add: welfordStep_def f64_of_int_def zero_f64_def)
  have more: "welfordStep f64_of_int (Fin 4) \<lparr>acc_count = n, acc_mean = Fin 4, acc_m2 = 0\<rparr> =
      \<lparr>acc_count = n + 1, acc_mean = Fin 4, acc_m2 = 0\<rparr>" if "1 \<le> n" "n \<le> 5" for n
  proof -
    have "f64_of_int (n + 1) = Fin (of_int (n + 1))" using that by (intro f64_of_int_exact) auto
    then show ?thesis using that by (simp add: welfordStep_def zero_f64_def)
  qed
  show ?thesis by (simp add: welford_def numeral_eq_Suc) (simp add: first more)
qed

lemma sample_fit: "FitFeatureStandardizer (Some sampleSplit) = Inr sampleStandardizer"
proof -
  have "fold accumulateBatch (tf_training sampleSplit) (replicate (length (tf_featureNames sampleSplit)) noObservations)
      = [welford f64_of_int (columnValues 0 (tf_training sampleSplit))]"
    by (subst accumulators_are_welford) (auto simp: sampleSplit_def sampleBatch_def sampleVector_def)
  then show ?thesis
    by (simp add: FitFeatureStandardizer_def Let_def)
      (simp add: sampleSplit_def sample_column welford_constant statisticOf_def sampleStandardizer_def f64_of_int_def zero_f64_def)
qed

theorem Fit_transforms_witness:
  "TransformHoldout (Some sampleStandardizer) (Some sampleSplit) = Inr (transformBatches sampleStandardizer (tf_holdout sampleSplit)) \<and>
   (\<forall>h. FitFeatureStandardizer (Some (sampleSplit\<lparr>tf_holdout := h\<rparr>)) = Inr sampleStandardizer)"
  using Fit_transforms [OF sample_split sample_fit] by blast

end
