(* ===== verification/Rating_Extended.thy ===== *)
theory Rating_Extended
  imports Rating_Dataset Rating_Prediction
begin

text \<open>
  \<^verbatim>\<open>pkg/rating/extended.go\<close>: the candidate model that adds a weighted profile of prior features to the baseline.
  The map of profiles is a partial function where it is read; the map that \<open>Observe\<close> returns and the request's
  estimates are association lists with distinct keys. The loops that index the schema, the weights and the profile in parallel are
  loops over the zipped lists: \<open>NewExtended\<close> and \<open>validateProfile\<close> make the lengths equal.
\<close>

record FeatureWeight =
  fw_Name :: FeatureName
  fw_Mean :: f64
  fw_StandardDeviation :: f64
  fw_Weight :: f64

record ExtendedConfig =
  xc_Baseline :: BaselineConfig
  xc_FeatureSchema :: FeatureSchema
  xc_FeatureWeights :: "FeatureWeight list"
  xc_TrainedThrough :: time

record ProfileObservation =
  po_Name :: FeatureName
  po_Mean :: f64
  po_Count :: "64 word"

record FeatureProfile =
  fp_SchemaVersion :: string
  fp_Observations :: "ProfileObservation list"

record Extended =
  ext_baseline :: BaselineConfig
  ext_encoder :: FeatureSchema
  ext_config :: ExtendedConfig

fun weightLoop :: "FeatureName list \<Rightarrow> (FeatureWeight \<times> FeatureDefinition) list \<Rightarrow> error" where
  "weightLoop seen [] = None"
| "weightLoop seen ((weight, d) # rest) =
     (if fw_Name weight \<noteq> fd_Name d then Some (ErrorsNew ''extended feature weights must follow schema order'')
      else if fw_Name weight \<in> set seen
      then Some (Errorf ''extended model contains duplicate weight %q'' [ArgS (fw_Name weight)] None)
      else if \<not> f64_finite (fw_Mean weight) \<or> \<not> f64_finite (fw_StandardDeviation weight) \<or> fw_StandardDeviation weight < 0 \<or>
              \<not> f64_finite (fw_Weight weight)
      then Some (Errorf ''extended feature weight %q must contain finite statistics and coefficient'' [ArgS (fw_Name weight)] None)
      else weightLoop (fw_Name weight # seen) rest)"

definition NewExtended :: "ExtendedConfig \<Rightarrow> Extended result" where
  "NewExtended config =
     (if IsZero (xc_TrainedThrough config) then Inl (ErrorsNew ''extended model training horizon is required'')
      else rbind (NewBaseline (xc_Baseline config)) (\<lambda>baseline.
           rbind (NewFeatureEncoder (xc_FeatureSchema config)) (\<lambda>encoder.
           if length (xc_FeatureWeights config) \<noteq> length (fs_Definitions (xc_FeatureSchema config))
           then Inl (ErrorsNew ''extended model requires one weight per schema feature'')
           else guardE (weightLoop [] (zip (xc_FeatureWeights config) (fs_Definitions (xc_FeatureSchema config))))
             (Inr \<lparr>ext_baseline = baseline, ext_encoder = encoder,
                   ext_config = config\<lparr>xc_FeatureSchema := cloneFeatureSchema (xc_FeatureSchema config)\<rparr>\<rparr>))))"

definition Extended_Config :: "Extended \<Rightarrow> ExtendedConfig" where
  "Extended_Config e = (ext_config e)\<lparr>xc_FeatureSchema := cloneFeatureSchema (xc_FeatureSchema (ext_config e))\<rparr>"

definition Extended_InitialEstimate :: "Extended \<Rightarrow> time \<Rightarrow> Estimate result" where
  "Extended_InitialEstimate e at0 = InitialEstimate (ext_baseline e) at0"

definition Extended_Update ::
  "(f64 \<Rightarrow> f64) \<Rightarrow> Extended \<Rightarrow> MatchResult \<Rightarrow> (string \<rightharpoonup> Estimate) \<Rightarrow> time \<Rightarrow> RatingUpdate list result" where
  "Extended_Update Exp e result estimates processedAt = Baseline_Update Exp (ext_baseline e) result estimates processedAt"

definition emptyProfile :: "Extended \<Rightarrow> FeatureProfile" where
  "emptyProfile e = \<lparr>fp_SchemaVersion = fs_Version (xc_FeatureSchema (ext_config e)),
     fp_Observations = map (\<lambda>d. \<lparr>po_Name = fd_Name d, po_Mean = 0, po_Count = 0\<rparr>) (fs_Definitions (xc_FeatureSchema (ext_config e)))\<rparr>"

definition profileCheck :: "ProfileObservation \<times> FeatureDefinition \<Rightarrow> error" where
  "profileCheck = (\<lambda>(ob, d).
     if po_Name ob \<noteq> fd_Name d \<or> \<not> f64_finite (po_Mean ob)
     then Some (ErrorsNew ''profile layout or value does not match the extended feature schema'')
     else if po_Count ob = 0 \<and> \<not> f64_eq (po_Mean ob) 0
     then Some (Errorf ''missing profile feature %q must have zero mean'' [ArgS (po_Name ob)] None)
     else None)"

definition validateProfile :: "Extended \<Rightarrow> FeatureProfile \<Rightarrow> error" where
  "validateProfile e profile =
     (let schema = xc_FeatureSchema (ext_config e) in
      if fp_SchemaVersion profile \<noteq> fs_Version schema \<or> length (fp_Observations profile) \<noteq> length (fs_Definitions schema)
      then Some (ErrorsNew ''profile does not match the extended feature schema'')
      else forE profileCheck (zip (fp_Observations profile) (fs_Definitions schema)))"

definition adjustMean :: "ProfileObservation \<times> FeatureWeight \<Rightarrow> f64 \<Rightarrow> f64" where
  "adjustMean = (\<lambda>(ob, weight) mean.
     if po_Count ob = 0 then mean
     else let scale = (if f64_eq (fw_StandardDeviation weight) 0 then 1 else fw_StandardDeviation weight) in
       mean + fw_Weight weight * (po_Mean ob - fw_Mean weight) / scale)"

definition adjustEstimate :: "Extended \<Rightarrow> (string \<rightharpoonup> FeatureProfile) \<Rightarrow> string \<times> Estimate \<Rightarrow> (string \<times> Estimate) result" where
  "adjustEstimate e profiles = (\<lambda>(playerID, estimate).
     case profiles playerID of
       None \<Rightarrow> Inr (playerID, cloneEstimate estimate)
     | Some profile \<Rightarrow>
         guardE (wrapE ''feature profile for player %q: %w'' [ArgS playerID] (validateProfile e profile))
         (let adjusted = estimate\<lparr>est_Mean := fold adjustMean (zip (fp_Observations profile) (xc_FeatureWeights (ext_config e)))
                                               (est_Mean estimate)\<rparr> in
          if \<not> f64_finite (est_Mean adjusted)
          then Inl (Errorf ''extended prediction for player %q produced a non-finite mean'' [ArgS playerID] None)
          else Inr (playerID, adjusted)))"

definition Extended_Predict ::
  "(f64 \<Rightarrow> f64) \<Rightarrow> Extended \<Rightarrow> PredictionRequest \<Rightarrow> (string \<rightharpoonup> FeatureProfile) \<Rightarrow> RoomPrediction result" where
  "Extended_Predict Exp e request profiles =
     rbind (mapR (adjustEstimate e profiles) (preq_Estimates request)) (\<lambda>estimates.
     Baseline_Predict Exp (ext_baseline e)
       \<lparr>preq_RoomID = preq_RoomID request, preq_ModeID = preq_ModeID request,
        preq_GeneratedAt = preq_GeneratedAt request, preq_Estimates = estimates\<rparr>)"

definition observeFeature :: "string \<Rightarrow> FeatureObservation \<times> ProfileObservation \<Rightarrow> ProfileObservation result" where
  "observeFeature playerID = (\<lambda>(ob, current).
     if \<not> fo_Present ob then Inr current
     else if po_Count current = MaxUint64
     then Inl (Errorf ''feature profile count for player %q and feature %q cannot be incremented'' [ArgS playerID, ArgS (fo_Name ob)] None)
     else
       let count = po_Count current + 1;
           mean = po_Mean current + (fo_Value ob - po_Mean current) / f64_of_int (uint count) in
       if \<not> f64_finite mean
       then Inl (Errorf ''feature profile for player %q and feature %q produced a non-finite mean'' [ArgS playerID, ArgS (fo_Name ob)] None)
       else Inr (current\<lparr>po_Count := count, po_Mean := mean\<rparr>))"

definition observePlayer ::
  "Extended \<Rightarrow> (string \<rightharpoonup> FeatureProfile) \<Rightarrow> PlayerFeatureVector \<Rightarrow> (string \<times> FeatureProfile) result" where
  "observePlayer e profiles player =
     rbind (case profiles (pv_PlayerID player) of
              None \<Rightarrow> Inr (emptyProfile e)
            | Some profile \<Rightarrow>
                guardE (wrapE ''feature profile for player %q: %w'' [ArgS (pv_PlayerID player)] (validateProfile e profile)) (Inr profile))
       (\<lambda>profile.
     rbind (mapR (observeFeature (pv_PlayerID player)) (zip (pv_Observations player) (fp_Observations profile))) (\<lambda>observations.
     Inr (pv_PlayerID player, profile\<lparr>fp_Observations := observations\<rparr>)))"

definition Observe ::
  "Extended \<Rightarrow> MatchResult \<Rightarrow> string \<Rightarrow> (string \<rightharpoonup> FeatureProfile) \<Rightarrow> (string \<times> FeatureProfile) list result" where
  "Observe e result deckVersion profiles =
     rbind (Encode (ext_encoder e) result \<lparr>fc_DeckVersion = deckVersion\<rparr>) (\<lambda>batch.
     mapR (observePlayer e profiles) (fb_Players batch))"

section \<open>The constructor\<close>

definition wellFormedExtended :: "Extended \<Rightarrow> bool" where
  "wellFormedExtended e \<longleftrightarrow> soundSchema (ext_encoder e) \<and> xc_FeatureSchema (ext_config e) = ext_encoder e \<and>
     map fw_Name (xc_FeatureWeights (ext_config e)) = map fd_Name (fs_Definitions (ext_encoder e))"

lemma weightLoop_names: "weightLoop seen ps = None \<Longrightarrow> p \<in> set ps \<Longrightarrow> fw_Name (fst p) = fd_Name (snd p)"
  by (induction seen ps rule: weightLoop.induct) (auto split: if_splits)

lemma NewExtended_wellFormed: "NewExtended config = Inr e \<Longrightarrow> wellFormedExtended e"
proof -
  assume new: "NewExtended config = Inr e"
  let ?w = "xc_FeatureWeights config" and ?d = "fs_Definitions (xc_FeatureSchema config)"
  have "weightLoop [] (zip ?w ?d) = None" "length ?w = length ?d" "e = \<lparr>ext_baseline = xc_Baseline config, ext_encoder = xc_FeatureSchema config, ext_config = config\<rparr>"
      "soundSchema (xc_FeatureSchema config)"
    using new by (auto simp: NewExtended_def NewBaseline_def NewFeatureEncoder_def cloneFeatureSchema_def validateFeatureSchema_sound
        split: if_splits)
  moreover from this have "list_all2 (\<lambda>w d. fw_Name w = fd_Name d) ?w ?d"
    using weightLoop_names [of "[]" "zip ?w ?d"] by (auto simp: list_all2_iff)
  then have "map fw_Name ?w = map fd_Name ?d" by (simp add: list_all2_conv_all_nth list_eq_iff_nth_eq)
  ultimately show ?thesis by (simp add: wellFormedExtended_def)
qed

lemma wellFormed_sel:
  assumes "wellFormedExtended e"
  shows "xc_FeatureSchema (ext_config e) = ext_encoder e" "soundSchema (ext_encoder e)"
    "length (xc_FeatureWeights (ext_config e)) = length (fs_Definitions (ext_encoder e))"
  using assms by (auto simp: wellFormedExtended_def dest: map_eq_imp_length_eq)

section \<open>Prediction without history\<close>

lemma adjustMean_unseen: "\<forall>x \<in> set ps. po_Count (fst x) = 0 \<Longrightarrow> fold adjustMean ps m = m"
  by (induction ps arbitrary: m) (auto simp: adjustMean_def)

text \<open>
  Without prior observations the candidate model is the baseline: when every player either has no profile or a
  valid profile whose counts are all zero, the extended prediction is exactly the baseline prediction of the same
  request, whatever the feature weights are.
\<close>

theorem Extended_Predict_cold:
  assumes "\<forall>(k, est) \<in> set (preq_Estimates request). profiles k = None \<or>
      (f64_finite (est_Mean est) \<and> (\<exists>p. profiles k = Some p \<and> validateProfile e p = None \<and>
         (\<forall>ob \<in> set (fp_Observations p). po_Count ob = 0)))"
  shows "Extended_Predict Exp e request profiles = Baseline_Predict Exp (ext_baseline e) request"
proof -
  have "adjustEstimate e profiles x = Inr x" if x: "x \<in> set (preq_Estimates request)" for x
  proof (cases "profiles (fst x)")
    case None
    then show ?thesis by (cases x) (simp add: adjustEstimate_def cloneEstimate_def)
  next
    case (Some p)
    then have p: "f64_finite (est_Mean (snd x))" "validateProfile e p = None" "\<forall>ob \<in> set (fp_Observations p). po_Count ob = 0"
      using assms x by auto
    have "\<forall>y \<in> set (zip (fp_Observations p) (xc_FeatureWeights (ext_config e))). po_Count (fst y) = 0"
      using p(3) by (auto dest: set_zip_leftD)
    then show ?thesis using p(1,2) Some by (cases x) (simp add: adjustEstimate_def adjustMean_unseen)
  qed
  then have "mapR (adjustEstimate e profiles) (preq_Estimates request) = Inr (map id (preq_Estimates request))"
    by (intro mapR_total) simp
  then show ?thesis by (cases request) (simp add: Extended_Predict_def)
qed

section \<open>Profiles are training statistics\<close>

text \<open>
  The specification of a player's profile: for every feature of the schema, the number and the one-pass mean of the
  values the player's past results carried, in the order they were observed.
\<close>

definition profileOf :: "FeatureSchema \<Rightarrow> (FeatureName \<Rightarrow> f64 list) \<Rightarrow> FeatureProfile" where
  "profileOf s vals = \<lparr>fp_SchemaVersion = fs_Version s,
     fp_Observations = map (\<lambda>d. \<lparr>po_Name = fd_Name d, po_Mean = acc_mean (welford f64_of_int (vals (fd_Name d))),
        po_Count = of_nat (length (vals (fd_Name d)))\<rparr>) (fs_Definitions s)\<rparr>"

definition newValue :: "FeatureName \<Rightarrow> Features \<Rightarrow> f64 list" where
  "newValue name f = (case featureValue name f of None \<Rightarrow> [] | Some v \<Rightarrow> [f64_of_int v])"

definition countable :: "FeatureSchema \<Rightarrow> (FeatureName \<Rightarrow> f64 list) \<Rightarrow> bool" where
  "countable s vals \<longleftrightarrow> (\<forall>d \<in> set (fs_Definitions s). length (vals (fd_Name d)) < 2 ^ 64)"

lemma observeFeature_Inr:
  assumes "observeFeature k (observationOf name v, \<lparr>po_Name = name, po_Mean = acc_mean (welford f64_of_int xs), po_Count = of_nat (length xs)\<rparr>) = Inr ob"
    and "length xs < 2 ^ 64"
  defines "ys \<equiv> xs @ (case v of None \<Rightarrow> [] | Some x \<Rightarrow> [f64_of_int x])"
  shows "ob = \<lparr>po_Name = name, po_Mean = acc_mean (welford f64_of_int ys), po_Count = of_nat (length ys)\<rparr> \<and> length ys < 2 ^ 64 \<and>
    (v \<noteq> None \<longrightarrow> f64_finite (po_Mean ob))"
proof (cases v)
  case None
  then show ?thesis using assms by (simp add: observeFeature_def observationOf_def)
next
  case (Some x)
  let ?c = "of_nat (length xs) :: 64 word"
  have u: "uint ?c = int (length xs)" using assms(2) by (simp add: uint_nat unat_of_nat)
  have ne: "?c \<noteq> MaxUint64" using assms(1) Some by (auto simp: observeFeature_def observationOf_def)
  have s: "uint (?c + 1) = int (length xs) + 1" using uint_succ [OF ne] u by simp
  moreover have "uint (?c + 1) < 2 ^ 64" using uint_lt2p [of "?c + 1"] by simp
  ultimately have "int (length xs + 1) < 2 ^ 64" by simp
  then have lt: "length xs + 1 < 2 ^ 64" by simp
  show ?thesis
    using assms(1) ne s lt Some
    by (auto simp: observeFeature_def observationOf_def ys_def welfordStep_def Let_def add.commute split: if_splits)
qed

lemma mapR_map: "mapR f (map g xs) = mapR (f \<circ> g) xs"
  by (induction xs) simp_all

lemma mapR_unique:
  assumes "mapR f xs = Inr ys" "\<And>x y. x \<in> set xs \<Longrightarrow> f x = Inr y \<Longrightarrow> y = g x"
  shows "ys = map g xs"
  using assms by (induction xs arbitrary: ys) auto

lemma observePlayer_Inr:
  assumes wf: "wellFormedExtended e" and s: "s = ext_encoder e"
    and prof: "profiles (pr_PlayerID p) = None \<and> vals = (\<lambda>_. []) \<or> profiles (pr_PlayerID p) = Some (profileOf s vals)"
    and cnt: "countable s vals" and ok: "observePlayer e profiles (vectorOf s p) = Inr kp"
  shows "kp = (pr_PlayerID p, profileOf s (\<lambda>n. vals n @ newValue n (pr_Features p))) \<and>
    countable s (\<lambda>n. vals n @ newValue n (pr_Features p))"
proof -
  let ?f = "pr_Features p" and ?ds = "fs_Definitions s" and ?k = "pr_PlayerID p"
  let ?cur = "\<lambda>d. \<lparr>po_Name = fd_Name d, po_Mean = acc_mean (welford f64_of_int (vals (fd_Name d))), po_Count = of_nat (length (vals (fd_Name d)))\<rparr>"
  let ?step = "\<lambda>d. observeFeature ?k (observationOf (fd_Name d) (featureValue (fd_Name d) ?f), ?cur d)"
  have "emptyProfile e = profileOf s (\<lambda>_. [])"
    using wellFormed_sel [OF wf] by (simp add: emptyProfile_def profileOf_def s welford_def)
  then obtain obs where obs: "mapR (observeFeature ?k) (zip (pv_Observations (vectorOf s p)) (fp_Observations (profileOf s vals))) = Inr obs"
      "kp = (?k, (profileOf s vals)\<lparr>fp_Observations := obs\<rparr>)"
    using ok prof by (auto simp: observePlayer_def vectorOf_def split: option.splits)
  have "zip (pv_Observations (vectorOf s p)) (fp_Observations (profileOf s vals)) =
      map (\<lambda>d. (observationOf (fd_Name d) (featureValue (fd_Name d) ?f), ?cur d)) ?ds"
    by (simp add: vectorOf_def profileOf_def zip_map_map map_zip_map2 zip_same_conv_map)
  then have m: "mapR ?step ?ds = Inr obs" using obs(1) by (simp add: mapR_map o_def)
  have each: "ob = \<lparr>po_Name = fd_Name d, po_Mean = acc_mean (welford f64_of_int (vals (fd_Name d) @ newValue (fd_Name d) ?f)),
        po_Count = of_nat (length (vals (fd_Name d) @ newValue (fd_Name d) ?f))\<rparr> \<and>
      length (vals (fd_Name d) @ newValue (fd_Name d) ?f) < 2 ^ 64"
    if "d \<in> set ?ds" "?step d = Inr ob" for d ob
    using observeFeature_Inr [OF that(2)] cnt that(1) unfolding countable_def newValue_def by blast
  then have "obs = fp_Observations (profileOf s (\<lambda>n. vals n @ newValue n ?f))"
    using mapR_unique [OF m] by (simp add: profileOf_def)
  moreover have "countable s (\<lambda>n. vals n @ newValue n ?f)"
    unfolding countable_def using mapR_covers [OF m] each by blast
  ultimately show ?thesis using obs(2) by (simp add: profileOf_def)
qed

text \<open>
  A stream of results folded into the profile store, as the shadow pipeline keeps it: the returned entries replace
  those of the store. \<open>playerValues\<close> is what the stream says about one feature of one player.
\<close>

fun observeAll :: "Extended \<Rightarrow> (MatchResult \<times> string) list \<Rightarrow> (string \<rightharpoonup> FeatureProfile) \<Rightarrow> (string \<rightharpoonup> FeatureProfile) result" where
  "observeAll e [] profiles = Inr profiles"
| "observeAll e ((r, deck) # rs) profiles = rbind (Observe e r deck profiles) (\<lambda>updated. observeAll e rs (profiles ++ map_of updated))"

definition roomValues :: "string \<Rightarrow> MatchResult \<Rightarrow> FeatureName \<Rightarrow> f64 list" where
  "roomValues k r n = concat (map (\<lambda>p. newValue n (pr_Features p)) (filter (\<lambda>p. pr_PlayerID p = k) (mr_Participants r)))"

definition playerValues :: "string \<Rightarrow> MatchResult list \<Rightarrow> FeatureName \<Rightarrow> f64 list" where
  "playerValues k rs n = concat (map (\<lambda>r. roomValues k r n) rs)"

definition played :: "string \<Rightarrow> MatchResult list \<Rightarrow> bool" where
  "played k rs \<longleftrightarrow> (\<exists>r \<in> set rs. k \<in> pr_PlayerID ` set (mr_Participants r))"

definition profilesReflect :: "FeatureSchema \<Rightarrow> MatchResult list \<Rightarrow> (string \<rightharpoonup> FeatureProfile) \<Rightarrow> bool" where
  "profilesReflect s rs profiles \<longleftrightarrow> (\<forall>k. countable s (playerValues k rs) \<and>
     profiles k = (if played k rs then Some (profileOf s (playerValues k rs)) else None))"

lemma filter_key: "distinct (map f xs) \<Longrightarrow> x \<in> set xs \<Longrightarrow> filter (\<lambda>y. f y = f x) xs = [x]"
proof (induction xs)
  case (Cons y ys)
  show ?case
  proof (cases "x = y")
    case True
    then have "filter (\<lambda>z. f z = f x) ys = []" using Cons.prems(1) by (auto simp: filter_empty_conv image_iff)
    then show ?thesis using True by simp
  next
    case False
    then show ?thesis using Cons by force
  qed
qed simp

lemma roomValues_player:
  assumes "distinct (map pr_PlayerID (mr_Participants r))" "p \<in> set (mr_Participants r)"
  shows "roomValues (pr_PlayerID p) r = (\<lambda>n. newValue n (pr_Features p))"
  using filter_key [OF assms] by (simp add: roomValues_def fun_eq_iff)

lemma roomValues_absent: "k \<notin> pr_PlayerID ` set (mr_Participants r) \<Longrightarrow> roomValues k r = (\<lambda>n. [])"
  by (auto simp: roomValues_def fun_eq_iff filter_empty_conv)

lemma playerValues_snoc: "playerValues k (rs @ [r]) = (\<lambda>n. playerValues k rs n @ roomValues k r n)"
  by (simp add: playerValues_def fun_eq_iff)

lemma playerValues_unplayed: "\<not> played k rs \<Longrightarrow> playerValues k rs = (\<lambda>n. [])"
  by (auto simp: playerValues_def played_def fun_eq_iff roomValues_absent)

lemma Observe_reflects:
  assumes wf: "wellFormedExtended e" and inv: "profilesReflect (ext_encoder e) rs profiles"
    and ok: "Observe e r deck profiles = Inr updated"
  shows "profilesReflect (ext_encoder e) (rs @ [r]) (profiles ++ map_of updated)"
proof -
  let ?s = "ext_encoder e" and ?ps = "sort_cmp compareParticipantID (mr_Participants r)"
  obtain b where b: "Encode ?s r \<lparr>fc_DeckVersion = deck\<rparr> = Inr b" "mapR (observePlayer e profiles) (fb_Players b) = Inr updated"
    using ok by (auto simp: Observe_def)
  have players: "fb_Players b = map (vectorOf ?s) ?ps" and dist: "distinct (map pr_PlayerID (mr_Participants r))"
    using b(1) by (auto simp: Encode_Inr [OF wellFormed_sel(2) [OF wf]] completeResult_def)
  let ?new = "\<lambda>p. (pr_PlayerID p, profileOf ?s (playerValues (pr_PlayerID p) (rs @ [r])))"
  have each: "kp = ?new p \<and> countable ?s (playerValues (pr_PlayerID p) (rs @ [r]))"
    if p: "p \<in> set ?ps" and kp: "observePlayer e profiles (vectorOf ?s p) = Inr kp" for p kp
  proof -
    have prof: "profiles (pr_PlayerID p) = None \<and> playerValues (pr_PlayerID p) rs = (\<lambda>_. []) \<or>
        profiles (pr_PlayerID p) = Some (profileOf ?s (playerValues (pr_PlayerID p) rs))"
      and cnt: "countable ?s (playerValues (pr_PlayerID p) rs)"
      using inv by (auto simp: profilesReflect_def playerValues_unplayed)
    show ?thesis using observePlayer_Inr [OF wf refl prof cnt kp] p
      by (simp add: playerValues_snoc roomValues_player [OF dist])
  qed
  have m: "mapR (observePlayer e profiles \<circ> vectorOf ?s) ?ps = Inr updated" using b(2) by (simp add: players mapR_map)
  have upd: "updated = map ?new ?ps" by (rule mapR_unique [OF m]) (use each in auto)
  have keys: "fst ` set updated = pr_PlayerID ` set (mr_Participants r)" by (simp add: upd image_image)
  have "distinct (map pr_PlayerID ?ps)" using dist by (metis mset_map mset_sort_cmp mset_eq_imp_distinct_iff)
  then have look: "map_of updated (pr_PlayerID p) = Some (profileOf ?s (playerValues (pr_PlayerID p) (rs @ [r])))" if "p \<in> set (mr_Participants r)" for p
    using that by (intro map_of_is_SomeI) (auto simp: upd o_def)
  show ?thesis
    unfolding profilesReflect_def
  proof
    fix k
    show "countable ?s (playerValues k (rs @ [r])) \<and>
        (profiles ++ map_of updated) k = (if played k (rs @ [r]) then Some (profileOf ?s (playerValues k (rs @ [r]))) else None)"
    proof (cases "k \<in> pr_PlayerID ` set (mr_Participants r)")
      case True
      then obtain p where p: "p \<in> set (mr_Participants r)" "k = pr_PlayerID p" by blast
      have "countable ?s (playerValues k (rs @ [r]))" using mapR_covers [OF m, of p] each p by auto
      moreover have "played k (rs @ [r])" using True by (simp add: played_def)
      ultimately show ?thesis using look [OF p(1)] p(2) by (simp add: map_add_Some_iff)
    next
      case False
      then have "map_of updated k = None" using keys by (simp add: map_of_eq_None_iff)
      moreover have "playerValues k (rs @ [r]) = playerValues k rs" "played k (rs @ [r]) = played k rs"
        using False by (simp_all add: playerValues_snoc roomValues_absent played_def)
      ultimately show ?thesis using inv by (simp add: profilesReflect_def map_add_def)
    qed
  qed
qed

lemma observeAll_reflects:
  assumes "wellFormedExtended e" "profilesReflect (ext_encoder e) rs profiles" "observeAll e es profiles = Inr profiles'"
  shows "profilesReflect (ext_encoder e) (rs @ map fst es) profiles'"
  using assms
proof (induction es arbitrary: rs profiles)
  case (Cons x es)
  obtain r deck where x: "x = (r, deck)" by fastforce
  obtain upd where upd: "Observe e r deck profiles = Inr upd" "observeAll e es (profiles ++ map_of upd) = Inr profiles'"
    using Cons.prems(3) by (auto simp: x)
  show ?case using Cons.IH [OF Cons.prems(1) Observe_reflects [OF Cons.prems(1,2) upd(1)] upd(2)] by (simp add: x)
qed simp

text \<open>
  C31. What a stream of results leaves in the profile store: a player has a profile exactly when a result named the
  player, and every feature of it holds the number of values observed so far, without wrap-around, and their one-pass
  mean, bit for bit the mean the standardizer fits from the same values. Missing features leave both unchanged.
\<close>

theorem observeAll_profiles:
  assumes "NewExtended config = Inr e" "observeAll e events Map.empty = Inr profiles"
  shows "profiles k =
     (if played k (map fst events) then Some (profileOf (ext_encoder e) (playerValues k (map fst events))) else None) \<and>
     (\<forall>d \<in> set (fs_Definitions (ext_encoder e)).
        uint (of_nat (length (playerValues k (map fst events) (fd_Name d))) :: 64 word) = int (length (playerValues k (map fst events) (fd_Name d))))"
proof -
  have "profilesReflect (ext_encoder e) [] Map.empty" by (simp add: profilesReflect_def played_def countable_def playerValues_def)
  from observeAll_reflects [OF NewExtended_wellFormed [OF assms(1)] this assms(2)]
  show ?thesis by (simp add: profilesReflect_def countable_def uint_nat unat_of_nat)
qed

section \<open>A concrete candidate\<close>

definition sampleExtendedConfig :: ExtendedConfig where
  "sampleExtendedConfig = \<lparr>xc_Baseline = DefaultBaselineConfig ''m2'', xc_FeatureSchema = sampleSchema,
     xc_FeatureWeights = [\<lparr>fw_Name = FeatureScore, fw_Mean = Fin 4, fw_StandardDeviation = Fin 2, fw_Weight = Fin 1\<rparr>,
       \<lparr>fw_Name = FeatureCompleted, fw_Mean = 0, fw_StandardDeviation = 0, fw_Weight = Fin 3\<rparr>], xc_TrainedThrough = 9\<rparr>"

definition sampleExtended :: Extended where
  "sampleExtended = \<lparr>ext_baseline = DefaultBaselineConfig ''m2'', ext_encoder = sampleSchema, ext_config = sampleExtendedConfig\<rparr>"

lemma sampleExtended_new: "NewExtended sampleExtendedConfig = Inr sampleExtended"
proof -
  have "NewFeatureEncoder sampleSchema = Inr sampleSchema"
    by (simp add: NewFeatureEncoder_def validateFeatureSchema_sound sampleSchema_sound cloneFeatureSchema_def)
  moreover have "NewBaseline (DefaultBaselineConfig ''m2'') = Inr (DefaultBaselineConfig ''m2'')"
  proof -
    obtain x y where "f64_round (25 / 3) = Fin x" "1 \<le> x" "x \<le> 25" "f64_round (25 / 6) = Fin y" "1 \<le> y" "y \<le> 25"
      using f64_round_between [of 1 25 "25 / 3"] f64_round_between [of 1 25 "25 / 6"] by auto
    then show ?thesis by (simp add: NewBaseline_def BaselineConfig_validate_def DefaultBaselineConfig_def positiveFinite_def zero_f64_def)
  qed
  moreover have "weightLoop [] (zip (xc_FeatureWeights sampleExtendedConfig) (fs_Definitions sampleSchema)) = None"
      "length (xc_FeatureWeights sampleExtendedConfig) = length (fs_Definitions sampleSchema)"
    by (simp_all add: sampleExtendedConfig_def sampleSchema_def feature_names zero_f64_def)
  moreover have "xc_Baseline sampleExtendedConfig = DefaultBaselineConfig ''m2''" "xc_FeatureSchema sampleExtendedConfig = sampleSchema"
      "xc_TrainedThrough sampleExtendedConfig \<noteq> 0"
    by (simp_all add: sampleExtendedConfig_def)
  ultimately show ?thesis by (simp add: NewExtended_def sampleExtended_def cloneFeatureSchema_def)
qed

theorem Extended_Predict_cold_witness:
  "Extended_Predict math_Exp_rounded sampleExtended sampleRequest (\<lambda>k. if k = ''ann'' then Some (emptyProfile sampleExtended) else None) =
   Baseline_Predict math_Exp_rounded (DefaultBaselineConfig ''m2'') sampleRequest"
proof -
  have "\<forall>(k, est) \<in> set (preq_Estimates sampleRequest). f64_finite (est_Mean est)"
    by (auto simp: sampleRequest_def sampleEstimate_def)
  moreover have "validateProfile sampleExtended (emptyProfile sampleExtended) = None"
    by (auto simp: validateProfile_def emptyProfile_def profileCheck_def f64_eq_refl Let_def set_zip zip_map1)
  moreover have "\<forall>ob \<in> set (fp_Observations (emptyProfile sampleExtended)). po_Count ob = 0" by (auto simp: emptyProfile_def)
  ultimately have "Extended_Predict math_Exp_rounded sampleExtended sampleRequest (\<lambda>k. if k = ''ann'' then Some (emptyProfile sampleExtended) else None) =
      Baseline_Predict math_Exp_rounded (ext_baseline sampleExtended) sampleRequest"
    by (intro Extended_Predict_cold) (auto split: if_splits)
  then show ?thesis by (simp add: sampleExtended_def)
qed

lemma sample_observe:
  "\<exists>upd. Observe sampleExtended (scoredResult 7) ''d1'' Map.empty = Inr upd"
proof -
  have ex: "\<forall>p \<in> set (mr_Participants (scoredResult 7)). exactFeatures sampleSchema p"
    by (auto simp: exactFeatures_def scoredResult_def sampleParticipants_def sampleSchema_def featureValue_def feature_names noFeatures_def)
  obtain b where b: "Encode sampleSchema (scoredResult 7) sampleContext = Inr b" "fb_Players b = map (vectorOf sampleSchema) (sort_cmp compareParticipantID (mr_Participants (scoredResult 7)))"
    using Encode_Inr [OF sampleSchema_sound, of "scoredResult 7" sampleContext] ex by (auto simp: sample_context scoredResult_complete)
  have "\<exists>y. observePlayer sampleExtended Map.empty (vectorOf sampleSchema p) = Inr y" if "p \<in> set (mr_Participants (scoredResult 7))" for p
  proof -
    have "pr_Features p = noFeatures\<lparr>feat_Score := Some 7, feat_Completed := Some True\<rparr>" using that by (auto simp: scoredResult_def)
    then show ?thesis
      by (simp add: observePlayer_def vectorOf_def emptyProfile_def sampleExtended_def sampleExtendedConfig_def sampleSchema_def
          featureValue_def feature_names observationOf_def observeFeature_def MaxUint64_def f64_of_int_def zero_f64_def)
  qed
  then have "\<exists>ys. mapR (observePlayer sampleExtended Map.empty) (fb_Players b) = Inr ys"
    unfolding mapR_projr by (auto simp: b(2))
  then show ?thesis using b(1) by (auto simp: Observe_def sampleExtended_def sampleContext_def)
qed

theorem observeAll_profiles_witness:
  "\<exists>profiles. observeAll sampleExtended [(scoredResult 7, ''d1'')] Map.empty = Inr profiles \<and> profiles ''zoe'' = None \<and>
     (\<exists>p. profiles ''ann'' = Some p \<and> map po_Count (fp_Observations p) = [1, 1])"
proof -
  obtain upd where upd: "Observe sampleExtended (scoredResult 7) ''d1'' Map.empty = Inr upd" using sample_observe by blast
  then have run: "observeAll sampleExtended [(scoredResult 7, ''d1'')] Map.empty = Inr (map_of upd)" by simp
  note at = observeAll_profiles [OF sampleExtended_new run]
  have "played ''ann'' [scoredResult 7]" "\<not> played ''zoe'' [scoredResult 7]"
    by (auto simp: played_def scoredResult_def sampleParticipants_def)
  moreover have "playerValues ''ann'' [scoredResult 7] = (\<lambda>n. newValue n (noFeatures\<lparr>feat_Score := Some 7, feat_Completed := Some True\<rparr>))"
    by (simp add: fun_eq_iff playerValues_def roomValues_def scoredResult_def sampleParticipants_def)
  ultimately have "map_of upd ''zoe'' = None" "map_of upd ''ann'' = Some (profileOf sampleSchema (\<lambda>n. newValue n (noFeatures\<lparr>feat_Score := Some 7, feat_Completed := Some True\<rparr>)))"
    using at [of "''zoe''"] at [of "''ann''"] by (simp_all add: sampleExtended_def)
  moreover have "map po_Count (fp_Observations (profileOf sampleSchema (\<lambda>n. newValue n (noFeatures\<lparr>feat_Score := Some 7, feat_Completed := Some True\<rparr>)))) = [1, 1]"
    by (simp add: profileOf_def sampleSchema_def newValue_def featureValue_def feature_names noFeatures_def)
  ultimately show ?thesis using run by (intro exI [of _ "map_of upd"] conjI exI) assumption+
qed

end
