(* ===== verification/Match_Policy.thy ===== *)
theory Match_Policy
  imports Rating_Prediction
begin

text \<open>
  \<^verbatim>\<open>pkg/matchmaking/policy.go\<close>, \<^verbatim>\<open>validation.go\<close> and \<^verbatim>\<open>priority.go\<close>: the matching policy, candidates and
  forming rooms with their validation, the skill window that widens with the age of a room, and the
  ordering that protects waiting rooms from starvation.
\<close>

section \<open>Policy, candidates and rooms\<close>

record Policy =
  pol_Version :: string
  pol_RatingModelVersion :: string
  pol_InitialSkillGap :: f64
  pol_MaxSkillGap :: f64
  pol_MaxWinProbabilitySpread :: f64
  pol_ExpansionInterval :: duration
  pol_FillTimeout :: duration
  pol_AgePriorityAfter :: duration
  pol_CandidateLimit :: int
  pol_RoomLimit :: int
  pol_PreferNearlyFull :: bool

definition Policy_Validate :: "Policy \<Rightarrow> error" where
  "Policy_Validate p =
     (if pol_Version p = '''' \<or> pol_RatingModelVersion p = ''''
      then Some (ErrorsNew ''policy and rating model versions are required'')
      else if \<not> f64_finite (pol_InitialSkillGap p) \<or> \<not> f64_finite (pol_MaxSkillGap p)
         \<or> pol_InitialSkillGap p < 0 \<or> pol_MaxSkillGap p < pol_InitialSkillGap p
      then Some (ErrorsNew ''skill gaps must be finite, non-negative and ordered'')
      else if \<not> f64_finite (pol_MaxWinProbabilitySpread p) \<or> pol_MaxWinProbabilitySpread p < 0
         \<or> 1 < pol_MaxWinProbabilitySpread p
      then Some (ErrorsNew ''win probability spread must be between zero and one'')
      else if pol_FillTimeout p \<le> 0 \<or> pol_ExpansionInterval p \<le> 0
         \<or> pol_FillTimeout p < pol_ExpansionInterval p
      then Some (ErrorsNew ''expansion interval must be positive and no longer than fill timeout'')
      else if pol_AgePriorityAfter p < 0 \<or> pol_FillTimeout p < pol_AgePriorityAfter p
         \<or> pol_CandidateLimit p \<le> 0 \<or> pol_RoomLimit p \<le> 0
      then Some (ErrorsNew ''invalid age priority or scan limit'')
      else None)"

record Candidate =
  cand_TicketID :: string
  cand_PlayerID :: string
  cand_JoinedAt :: time
  cand_SnapshotAt :: time
  cand_Rating :: Estimate

record RoomView =
  rv_RoomID :: string
  rv_ModeID :: string
  rv_AggregateVersion :: int
  rv_Capacity :: int
  rv_CreatedAt :: time
  rv_Deadline :: time
  rv_Policy :: Policy
  rv_Members :: "Candidate list"

definition Candidate_Validate :: "Candidate \<Rightarrow> error" where
  "Candidate_Validate c =
     (if cand_TicketID c = '''' \<or> cand_PlayerID c = ''''
      then Some (ErrorsNew ''candidate ticket and player ids are required'')
      else if IsZero (cand_JoinedAt c) \<or> IsZero (cand_SnapshotAt c) \<or> After (cand_SnapshotAt c) (cand_JoinedAt c)
      then Some (ErrorsNew ''candidate snapshot must be available no later than join time'')
      else andthenE (wrapE ''candidate rating: %w'' [] (Estimate_Validate (cand_Rating c)))
        (if After (est_UpdatedAt (cand_Rating c)) (cand_SnapshotAt c)
         then Some (ErrorsNew ''candidate rating was updated after the pre-game snapshot'')
         else None))"

text \<open>The member loop of \<^verbatim>\<open>RoomView.Validate\<close> with the tickets and players seen so far.\<close>

fun validateMembers :: "RoomView \<Rightarrow> int \<Rightarrow> string list \<Rightarrow> string list \<Rightarrow> Candidate list \<Rightarrow> error" where
  "validateMembers r index tickets players [] = None"
| "validateMembers r index tickets players (m # ms) =
     andthenE (wrapE ''room member %d: %w'' [ArgI index] (Candidate_Validate m))
      (if After (cand_SnapshotAt m) (rv_Deadline r)
       then Some (Errorf ''room member %q was snapshotted after the room deadline'' [ArgS (cand_PlayerID m)] None)
       else if est_ModelVersion (cand_Rating m) \<noteq> pol_RatingModelVersion (rv_Policy r)
       then Some (Errorf ''room member %q uses an incompatible rating model'' [ArgS (cand_PlayerID m)] None)
       else if cand_TicketID m \<in> set tickets
       then Some (Errorf ''room contains duplicate ticket %q'' [ArgS (cand_TicketID m)] None)
       else if cand_PlayerID m \<in> set players
       then Some (Errorf ''room contains duplicate player %q'' [ArgS (cand_PlayerID m)] None)
       else validateMembers r (index + 1) (cand_TicketID m # tickets) (cand_PlayerID m # players) ms)"

definition RoomView_Validate :: "RoomView \<Rightarrow> error" where
  "RoomView_Validate r =
     (if rv_RoomID r = '''' \<or> rv_ModeID r = '''' then Some (ErrorsNew ''room and mode ids are required'')
      else if rv_AggregateVersion r < 0 then Some (ErrorsNew ''room aggregate version cannot be negative'')
      else if rv_Capacity r < int MinRoomSize \<or> int MaxRoomSize < rv_Capacity r
      then Some (Errorf ''room capacity must be between %d and %d''
                   [ArgI (int MinRoomSize), ArgI (int MaxRoomSize)] None)
      else if IsZero (rv_CreatedAt r) \<or> IsZero (rv_Deadline r) \<or> \<not> After (rv_Deadline r) (rv_CreatedAt r)
      then Some (ErrorsNew ''room requires ordered creation and deadline times'')
      else if rv_Capacity r < int (length (rv_Members r))
      then Some (ErrorsNew ''room member count exceeds capacity'')
      else andthenE (wrapE ''room policy: %w'' [] (Policy_Validate (rv_Policy r)))
       (if After (rv_Deadline r) (time_Add (rv_CreatedAt r) (pol_FillTimeout (rv_Policy r)))
        then Some (ErrorsNew ''room deadline exceeds the policy fill timeout'')
        else validateMembers r 0 [] [] (rv_Members r)))"

section \<open>The skill window and room priority\<close>

definition AllowedSkillGap :: "Policy \<Rightarrow> duration \<Rightarrow> f64 result" where
  "AllowedSkillGap p roomAge =
     guardE (Policy_Validate p)
      (if roomAge < 0 then Inl (ErrorsNew ''room age must be non-negative'')
       else if pol_FillTimeout p \<le> roomAge \<or> f64_eq (pol_InitialSkillGap p) (pol_MaxSkillGap p)
       then Inr (pol_MaxSkillGap p)
       else
         let steps = pol_FillTimeout p sdiv pol_ExpansionInterval p;
             totalSteps = (if pol_FillTimeout p smod pol_ExpansionInterval p \<noteq> 0 then steps + 1 else steps);
             elapsedSteps = min (roomAge sdiv pol_ExpansionInterval p) totalSteps;
             progress = f64_of_int elapsedSteps / f64_of_int totalSteps
         in Inr (pol_InitialSkillGap p + (pol_MaxSkillGap p - pol_InitialSkillGap p) * progress))"

definition roomAgePrioritized :: "RoomView \<Rightarrow> time \<Rightarrow> bool" where
  "roomAgePrioritized room evaluatedAt \<longleftrightarrow>
     pol_AgePriorityAfter (rv_Policy room) \<le> time_Sub evaluatedAt (rv_CreatedAt room)"

definition compareWaiting :: "time \<Rightarrow> RoomView \<Rightarrow> RoomView \<Rightarrow> int" where
  "compareWaiting evaluatedAt left right =
     (let leftPrioritized = roomAgePrioritized left evaluatedAt;
          rightPrioritized = roomAgePrioritized right evaluatedAt
      in if leftPrioritized \<noteq> rightPrioritized then (if leftPrioritized then -1 else 1)
         else if \<not> leftPrioritized then 0
         else if Before (rv_CreatedAt left) (rv_CreatedAt right) then -1
         else if After (rv_CreatedAt left) (rv_CreatedAt right) then 1
         else 0)"

definition priorityCheck :: "time \<Rightarrow> nat \<times> RoomView \<Rightarrow> error" where
  "priorityCheck evaluatedAt ir =
     (case ir of (index, room) \<Rightarrow>
        andthenE (wrapE ''room %d: %w'' [ArgI (int index)] (RoomView_Validate room))
         (if Before evaluatedAt (rv_CreatedAt room) \<or> After evaluatedAt (rv_Deadline room)
          then Some (Errorf ''room %d: room priority requires an active forming room'' [ArgI (int index)] None)
          else None))"

definition PrioritizeWaitingRooms :: "RoomView list \<Rightarrow> time \<Rightarrow> RoomView list result" where
  "PrioritizeWaitingRooms rooms evaluatedAt =
     (if IsZero evaluatedAt then Inl (ErrorsNew ''room-priority evaluation time is required'')
      else guardE (forE (priorityCheck evaluatedAt) (indexed rooms))
             (Inr (sort_cmp (compareWaiting evaluatedAt) rooms)))"

section \<open>What validation establishes\<close>

lemma Policy_Validate_None:
  "Policy_Validate p = None \<longleftrightarrow>
     pol_Version p \<noteq> '''' \<and> pol_RatingModelVersion p \<noteq> '''' \<and>
     (\<exists>i m s. pol_InitialSkillGap p = Fin i \<and> pol_MaxSkillGap p = Fin m \<and> 0 \<le> i \<and> i \<le> m \<and>
        pol_MaxWinProbabilitySpread p = Fin s \<and> 0 \<le> s \<and> s \<le> 1) \<and>
     0 < pol_ExpansionInterval p \<and> pol_ExpansionInterval p \<le> pol_FillTimeout p \<and>
     0 \<le> pol_AgePriorityAfter p \<and> pol_AgePriorityAfter p \<le> pol_FillTimeout p \<and>
     0 < pol_CandidateLimit p \<and> 0 < pol_RoomLimit p"
  by (cases "pol_InitialSkillGap p"; cases "pol_MaxSkillGap p"; cases "pol_MaxWinProbabilitySpread p")
    (auto simp: Policy_Validate_def)

definition validCandidate :: "Candidate \<Rightarrow> bool" where
  "validCandidate c \<longleftrightarrow> cand_TicketID c \<noteq> '''' \<and> cand_PlayerID c \<noteq> '''' \<and> cand_JoinedAt c \<noteq> 0 \<and>
     cand_SnapshotAt c \<noteq> 0 \<and> cand_SnapshotAt c \<le> cand_JoinedAt c \<and> Estimate_Validate (cand_Rating c) = None \<and>
     est_UpdatedAt (cand_Rating c) \<le> cand_SnapshotAt c"

lemma Candidate_Validate_None: "Candidate_Validate c = None \<longleftrightarrow> validCandidate c"
  by (auto simp: Candidate_Validate_def validCandidate_def)

lemma validateMembers_None:
  "validateMembers r i ts ps ms = None \<longleftrightarrow>
     (\<forall>m \<in> set ms. validCandidate m \<and> cand_SnapshotAt m \<le> rv_Deadline r \<and>
        est_ModelVersion (cand_Rating m) = pol_RatingModelVersion (rv_Policy r)) \<and>
     distinct (map cand_TicketID ms) \<and> set (map cand_TicketID ms) \<inter> set ts = {} \<and>
     distinct (map cand_PlayerID ms) \<and> set (map cand_PlayerID ms) \<inter> set ps = {}"
  by (induction ms arbitrary: i ts ps) (auto simp: Candidate_Validate_None)

text \<open>The declarative reading of \<^verbatim>\<open>RoomView.Validate\<close>.\<close>

definition validRoom :: "RoomView \<Rightarrow> bool" where
  "validRoom r \<longleftrightarrow>
     rv_RoomID r \<noteq> '''' \<and> rv_ModeID r \<noteq> '''' \<and> 0 \<le> rv_AggregateVersion r \<and>
     rv_Capacity r \<in> {5..7} \<and> int (length (rv_Members r)) \<le> rv_Capacity r \<and>
     rv_CreatedAt r \<noteq> 0 \<and> rv_Deadline r \<noteq> 0 \<and> rv_CreatedAt r < rv_Deadline r \<and>
     rv_Deadline r \<le> rv_CreatedAt r + pol_FillTimeout (rv_Policy r) \<and> Policy_Validate (rv_Policy r) = None \<and>
     distinct (map cand_TicketID (rv_Members r)) \<and> distinct (map cand_PlayerID (rv_Members r)) \<and>
     (\<forall>m \<in> set (rv_Members r). validCandidate m \<and> cand_SnapshotAt m \<le> rv_Deadline r \<and>
        est_ModelVersion (cand_Rating m) = pol_RatingModelVersion (rv_Policy r))"

lemma RoomView_Validate_None: "RoomView_Validate r = None \<longleftrightarrow> validRoom r"
  by (auto simp: RoomView_Validate_def validRoom_def validateMembers_None room_size_defs not_less)

section \<open>The skill window\<close>

lemma interpolate_range:
  assumes i: "f64_round i = Fin i" "0 \<le> i" and m: "f64_round m = Fin m" "i \<le> m" and q: "0 \<le> q" "q \<le> 1 - 1 / 2 ^ 52"
  shows "\<exists>r. Fin i + (Fin m - Fin i) * Fin q = Fin r \<and> i \<le> r \<and> r \<le> m"
proof -
  obtain d where d: "f64_round (m - i) = Fin d" "0 \<le> d" "d \<le> m"
    using f64_round_between [of 0 m "m - i"] i m by auto
  have "d * q \<le> d" using d(2) q by (simp add: mult_left_le)
  then have "0 \<le> d * q" "d * q \<le> m" using d q by auto
  then obtain e where e: "f64_round (d * q) = Fin e" "0 \<le> e" using f64_round_between [of 0 m "d * q"] m by auto
  have "i + e \<le> m" by (rule f64_interpolate_le [OF i(1) m(1) i(2) m(2) q d(1) e(1)])
  then have "\<exists>r. f64_round (i + e) = Fin r \<and> i \<le> r \<and> r \<le> m"
    by (intro f64_round_between) (use i m e in auto)
  then show ?thesis using d e by auto
qed

lemma interpolate_mono:
  assumes "0 \<le> i" "f64_round m = Fin m" "i \<le> m" "0 \<le> q" "q \<le> q'" "q' \<le> 1"
  shows "Fin i + (Fin m - Fin i) * Fin q \<le> Fin i + (Fin m - Fin i) * Fin q'"
proof -
  obtain d where d: "f64_round (m - i) = Fin d" "0 \<le> d" "d \<le> m"
    using f64_round_between [of 0 m "m - i"] assms by auto
  have le: "d * q \<le> d * q'" "d * q' \<le> d" using d(2) assms by (auto simp: mult_left_mono mult_left_le)
  then have fin: "\<exists>e. f64_round (d * x) = Fin e" if "x = q \<or> x = q'" for x
    using that f64_round_between [of 0 m "d * x"] d assms by (auto simp: mult_nonneg_nonneg)
  obtain e e' where e: "f64_round (d * q) = Fin e" "f64_round (d * q') = Fin e'" using fin by blast
  then have "e \<le> e'" using f64_round_mono [OF le(1)] by simp
  then show ?thesis using d e f64_round_mono [of "i + e" "i + e'"] by simp
qed

text \<open>The number of expansion steps of a policy.\<close>

definition windowSteps :: "Policy \<Rightarrow> int" where
  "windowSteps p = (let n = pol_FillTimeout p div pol_ExpansionInterval p in
     if pol_FillTimeout p mod pol_ExpansionInterval p \<noteq> 0 then n + 1 else n)"

lemma elapsed_steps:
  assumes "Policy_Validate p = None" "0 \<le> a" "a < pol_FillTimeout p"
  shows "0 \<le> a div pol_ExpansionInterval p" "a div pol_ExpansionInterval p + 1 \<le> windowSteps p"
proof -
  let ?i = "pol_ExpansionInterval p" and ?t = "pol_FillTimeout p"
  have i: "0 < ?i" using assms(1) by (simp add: Policy_Validate_None)
  then show "0 \<le> a div ?i" using assms(2) by (simp add: pos_imp_zdiv_nonneg_iff)
  have le: "a div ?i \<le> ?t div ?i" using assms(3) i by (intro zdiv_mono1) auto
  show "a div ?i + 1 \<le> windowSteps p"
  proof (cases "?t mod ?i = 0")
    case True
    then have "?t = ?t div ?i * ?i" using div_mult_mod_eq [of ?t ?i] by simp
    then have "a < ?t div ?i * ?i" using assms(3) by simp
    moreover have "a div ?i * ?i \<le> a" using i div_mult_mod_eq [of a ?i] pos_mod_sign [of ?i a] by linarith
    ultimately have "a div ?i * ?i < ?t div ?i * ?i" by linarith
    then have "a div ?i < ?t div ?i" using i by (simp add: mult_less_cancel_right)
    then show ?thesis using True by (simp add: windowSteps_def)
  qed (use le in \<open>simp add: windowSteps_def\<close>)
qed

lemma AllowedSkillGap_young:
  assumes "Policy_Validate p = None" "0 \<le> a" "a < pol_FillTimeout p" "pol_InitialSkillGap p \<noteq> pol_MaxSkillGap p"
  shows "AllowedSkillGap p a = Inr (pol_InitialSkillGap p + (pol_MaxSkillGap p - pol_InitialSkillGap p) *
     (f64_of_int (a div pol_ExpansionInterval p) / f64_of_int (windowSteps p)))"
proof -
  have i: "0 < pol_ExpansionInterval p" "0 \<le> pol_FillTimeout p" using assms(1-3) by (auto simp: Policy_Validate_None)
  have sd: "x sdiv pol_ExpansionInterval p = x div pol_ExpansionInterval p"
      "x smod pol_ExpansionInterval p = x mod pol_ExpansionInterval p" if "0 \<le> x" for x
    using that i by (simp_all add: trunc_division)
  have "min (a div pol_ExpansionInterval p) (windowSteps p) = a div pol_ExpansionInterval p"
    using elapsed_steps(2) [OF assms(1-3)] by simp
  moreover have "\<not> f64_eq (pol_InitialSkillGap p) (pol_MaxSkillGap p)" using assms(1,4) by (auto simp: Policy_Validate_None)
  ultimately show ?thesis
    using assms i by (simp add: AllowedSkillGap_def sd windowSteps_def Let_def)
qed

lemma progress_range:
  assumes "0 \<le> e" "e + 1 \<le> n" "n \<le> 2 ^ 52"
  shows "\<exists>q. f64_of_int e / f64_of_int n = Fin q \<and> 0 \<le> q \<and> q \<le> 1 - 1 / 2 ^ 52 \<and>
    f64_round (of_int e / of_int n) = Fin q"
proof -
  have fl: "f64_of_int e = Fin (of_int e)" "f64_of_int n = Fin (of_int n)"
    using assms by (simp_all add: f64_of_int_def f64_round_of_int)
  have n: "0 < (of_int n :: real)" using assms by simp
  have "of_int n \<le> (2 ^ 52 :: real)" using assms(3) by (metis of_int_le_iff of_int_numeral of_int_power)
  then have "1 / 2 ^ 52 \<le> 1 / (of_int n :: real)" using n by (intro divide_left_mono) auto
  moreover have "of_int e \<le> (of_int n - 1 :: real)" using assms(2) by linarith
  then have "of_int e / of_int n \<le> (of_int n - 1 :: real) / of_int n" using n by (intro divide_right_mono) auto
  moreover have "(of_int n - 1 :: real) / of_int n = 1 - 1 / of_int n" using n by (simp add: field_simps)
  ultimately have "of_int e / of_int n \<le> (1 - 1 / 2 ^ 52 :: real)" by linarith
  moreover have "f64_round (1 - 1 / 2 ^ 52) = Fin (1 - 1 / 2 ^ 52)"
    by (rule f64_round_exact [of _ "2 ^ 52 - 1" "-52"]) (simp_all add: f64_threshold_def power_int_minus)
  moreover have "0 \<le> (of_int e / of_int n :: real)" using assms(1) n by simp
  ultimately have "\<exists>q. f64_round (of_int e / of_int n) = Fin q \<and> 0 \<le> q \<and> q \<le> 1 - 1 / 2 ^ 52"
    by (intro f64_round_between) simp_all
  then show ?thesis using fl n by auto
qed


definition samplePolicy :: Policy where
  "samplePolicy = \<lparr>pol_Version = ''p1'', pol_RatingModelVersion = ''m1'', pol_InitialSkillGap = Fin 4,
     pol_MaxSkillGap = Fin 20, pol_MaxWinProbabilitySpread = Fin (1 / 2), pol_ExpansionInterval = 10 * second,
     pol_FillTimeout = 65 * second, pol_AgePriorityAfter = 30 * second, pol_CandidateLimit = 10,
     pol_RoomLimit = 4, pol_PreferNearlyFull = True\<rparr>"

lemma samplePolicy_valid: "Policy_Validate samplePolicy = None"
  by (simp add: Policy_Validate_def samplePolicy_def duration_units)


section \<open>Starvation protection\<close>

interpretation waiting: go_compare "compareWaiting t" UNIV for t
  by unfold_locales (auto simp: compareWaiting_def Let_def split: if_splits)

lemma priorityCheck_None:
  "priorityCheck t (i, r) = None \<longleftrightarrow> validRoom r \<and> rv_CreatedAt r \<le> t \<and> t \<le> rv_Deadline r"
  by (auto simp: priorityCheck_def RoomView_Validate_None)

lemma PrioritizeWaitingRooms_Inr:
  "PrioritizeWaitingRooms rooms t = Inr rs \<longleftrightarrow>
     t \<noteq> 0 \<and> (\<forall>r \<in> set rooms. validRoom r \<and> rv_CreatedAt r \<le> t \<and> t \<le> rv_Deadline r) \<and>
     rs = sort_cmp (compareWaiting t) rooms"
  using indexed_all [of "\<lambda>p. priorityCheck t p = None"
      "\<lambda>r. validRoom r \<and> rv_CreatedAt r \<le> t \<and> t \<le> rv_Deadline r" rooms]
  by (auto simp: PrioritizeWaitingRooms_def priorityCheck_None)

text \<open>
  C25. Starvation protection: the ordering of active rooms is a permutation of the input in which every
  room past its own age threshold precedes every younger room, the prioritized rooms are ordered oldest
  first, and the young rooms keep their input order.
\<close>

theorem PrioritizeWaitingRooms_order:
  assumes "PrioritizeWaitingRooms rooms t = Inr rs"
  shows "mset rs = mset rooms \<and>
    sorted_wrt (\<lambda>a b. (roomAgePrioritized b t \<longrightarrow> roomAgePrioritized a t \<and> rv_CreatedAt a \<le> rv_CreatedAt b)) rs \<and>
    filter (\<lambda>r. \<not> roomAgePrioritized r t) rs = filter (\<lambda>r. \<not> roomAgePrioritized r t) rooms"
proof -
  have rs: "rs = sort_cmp (compareWaiting t) rooms" using assms by (simp add: PrioritizeWaitingRooms_Inr)
  have "sorted_wrt (\<lambda>a b. compareWaiting t a b \<le> 0) rs" unfolding rs by (rule waiting.sorted_sort_cmp) simp
  then have "sorted_wrt (\<lambda>a b. (roomAgePrioritized b t \<longrightarrow> roomAgePrioritized a t \<and> rv_CreatedAt a \<le> rv_CreatedAt b)) rs"
    by (rule sorted_wrt_mono_rel [rotated]) (auto simp: compareWaiting_def Let_def split: if_splits)
  moreover have "filter (\<lambda>r. \<not> roomAgePrioritized r t) rs = filter (\<lambda>r. \<not> roomAgePrioritized r t) rooms"
    unfolding rs by (rule waiting.sort_cmp_stable) (auto simp: compareWaiting_def)
  ultimately show ?thesis by (simp add: rs)
qed

definition sampleRoom :: "string \<Rightarrow> time \<Rightarrow> RoomView" where
  "sampleRoom name created = \<lparr>rv_RoomID = name, rv_ModeID = ''mode'', rv_AggregateVersion = 0, rv_Capacity = 5,
     rv_CreatedAt = created, rv_Deadline = created + 65 * second, rv_Policy = samplePolicy, rv_Members = []\<rparr>"

lemma sampleRoom_valid: "\<lbrakk>name \<noteq> ''''; 0 < created\<rbrakk> \<Longrightarrow> validRoom (sampleRoom name created)"
  using samplePolicy_valid by (simp add: validRoom_def sampleRoom_def duration_units) (simp add: samplePolicy_def duration_units)

theorem PrioritizeWaitingRooms_order_witness:
  "\<exists>rs. PrioritizeWaitingRooms [sampleRoom ''a'' (50 * second), sampleRoom ''b'' (10 * second), sampleRoom ''c'' (5 * second)] (60 * second) = Inr rs \<and>
     filter (\<lambda>r. \<not> roomAgePrioritized r (60 * second)) rs = [sampleRoom ''a'' (50 * second)]"
proof -
  let ?rooms = "[sampleRoom ''a'' (50 * second), sampleRoom ''b'' (10 * second), sampleRoom ''c'' (5 * second)]"
  have prio: "roomAgePrioritized (sampleRoom x c) (60 * second) \<longleftrightarrow> c \<le> 30 * second" if "0 < c" "c < 60 * second" for x c
    using that by (auto simp: roomAgePrioritized_def sampleRoom_def samplePolicy_def time_Sub_def duration_range duration_units)
  have ok: "PrioritizeWaitingRooms ?rooms (60 * second) = Inr (sort_cmp (compareWaiting (60 * second)) ?rooms)"
    by (auto simp: PrioritizeWaitingRooms_Inr sampleRoom_valid duration_units) (auto simp: sampleRoom_def duration_units)
  have "filter (\<lambda>r. \<not> roomAgePrioritized r (60 * second)) ?rooms = [sampleRoom ''a'' (50 * second)]"
    using prio [unfolded second_def] by (simp add: second_def)
  then have "filter (\<lambda>r. \<not> roomAgePrioritized r (60 * second)) (sort_cmp (compareWaiting (60 * second)) ?rooms)
      = [sampleRoom ''a'' (50 * second)]"
    using PrioritizeWaitingRooms_order [OF ok] by (simp only:)
  with ok show ?thesis by (intro exI conjI)
qed

end
