(* ===== verification/Match_Eligibility.thy ===== *)
theory Match_Eligibility
  imports Match_Policy
begin

text \<open>
  \<^verbatim>\<open>pkg/matchmaking/eligibility.go\<close>: the hard eligibility and fairness rules. The placement predictor of
  the evaluator is an argument, as it is in the code; the rating baseline is one.
\<close>

type_synonym PlacementPredictor = "PredictionRequest \<Rightarrow> RoomPrediction result"

datatype RejectionCode =
    NoRejection
  | RejectionInvalidCandidate
  | RejectionRoomExpired
  | RejectionRoomFull
  | RejectionDuplicateTicket
  | RejectionDuplicatePlayer
  | RejectionRatingModelMismatch
  | RejectionSkillGapExceeded
  | RejectionSkillWindowExceeded
  | RejectionProbabilityGapExceeded

record CandidateDecision =
  dec_TicketID :: string
  dec_Eligible :: bool
  dec_Rejection :: RejectionCode
  dec_SkillGap :: f64
  dec_AllowedSkillGap :: f64
  dec_WinProbabilitySpread :: "f64 option"

record FairnessReport =
  fr_SkillGap :: f64
  fr_MaximumSkillGap :: f64
  fr_WinProbabilitySpread :: f64
  fr_MaximumWinProbabilitySpread :: f64
  fr_WithinHardLimits :: bool

text \<open>The evaluator holds the predictor; \<open>None\<close> is the nil interface.\<close>

definition NewEvaluator :: "PlacementPredictor option \<Rightarrow> PlacementPredictor result" where
  "NewEvaluator predictor =
     (case predictor of None \<Rightarrow> Inl (ErrorsNew ''placement predictor is required'') | Some p \<Rightarrow> Inr p)"

definition skillGap :: "Candidate list \<Rightarrow> f64" where
  "skillGap candidates =
     (if length candidates < 2 then 0
      else
        let first = est_Mean (cand_Rating (hd candidates));
            (minimum, maximum) =
              fold (\<lambda>c (mn, mx). (math_Min mn (est_Mean (cand_Rating c)), math_Max mx (est_Mean (cand_Rating c))))
                (tl candidates) (first, first)
        in maximum - minimum)"

definition probabilityTolerance :: f64 where
  "probabilityTolerance = f64_round (1 / 10 ^ 9)"

text \<open>The participant loop of \<^verbatim>\<open>validatedProbabilitySpread\<close>: seen players, minimum, maximum and total.\<close>

fun spreadLoop ::
  "string set \<Rightarrow> nat \<Rightarrow> string list \<Rightarrow> f64 \<times> f64 \<times> f64 \<Rightarrow> PlacementPrediction list
     \<Rightarrow> (f64 \<times> f64 \<times> f64) result" where
  "spreadLoop members n seen acc [] = Inr acc"
| "spreadLoop members n seen (minimum, maximum, totalP) (participant # ps) =
     (let probability = pp_FirstPlaceProbability participant in
      if pp_PlayerID participant \<notin> members \<or> pp_PlayerID participant = ''''
      then Inl (ErrorsNew ''placement prediction contains an unknown player'')
      else if pp_PlayerID participant \<in> set seen
      then Inl (ErrorsNew ''placement prediction contains a duplicate player'')
      else if \<not> f64_finite probability \<or> probability < 0 \<or> 1 < probability
      then Inl (ErrorsNew ''first-place probabilities must be finite and between zero and one'')
      else if length (pp_PlaceProbabilities participant) \<noteq> n
         \<or> probabilityTolerance < f64_abs (hd (pp_PlaceProbabilities participant) - probability)
      then Inl (ErrorsNew ''first-place probability must match the placement distribution'')
      else spreadLoop members n (pp_PlayerID participant # seen)
             (math_Min minimum probability, math_Max maximum probability, totalP + probability) ps)"

definition validatedProbabilitySpread :: "RoomPrediction \<Rightarrow> RoomView \<Rightarrow> time \<Rightarrow> f64 result" where
  "validatedProbabilitySpread prediction room evaluatedAt =
     (if rp_RoomID prediction \<noteq> rv_RoomID room \<or> rp_ModeID prediction \<noteq> rv_ModeID room
         \<or> rp_ModelVersion prediction \<noteq> pol_RatingModelVersion (rv_Policy room)
         \<or> rp_GeneratedAt prediction \<noteq> evaluatedAt
         \<or> length (rp_Participants prediction) \<noteq> length (rv_Members room)
      then Inl (ErrorsNew ''placement prediction does not match the complete room'')
      else rbind (spreadLoop (set (map cand_PlayerID (rv_Members room))) (length (rv_Members room)) []
                    (PInf, NInf, 0) (rp_Participants prediction))
             (\<lambda>(minimum, maximum, totalP).
                if probabilityTolerance < f64_abs (totalP - 1)
                then Inl (ErrorsNew ''first-place probabilities must sum to one'')
                else Inr (maximum - minimum)))"

text \<open>The loop that fills the estimates map of the prediction request.\<close>

fun collectEstimates :: "time \<Rightarrow> Candidate list \<Rightarrow> (string \<times> Estimate) list \<Rightarrow> (string \<times> Estimate) list result" where
  "collectEstimates evaluatedAt [] estimates = Inr estimates"
| "collectEstimates evaluatedAt (m # ms) estimates =
     (if After (cand_SnapshotAt m) evaluatedAt
      then Inl (Errorf ''room member %q was snapshotted after evaluation'' [ArgS (cand_PlayerID m)] None)
      else collectEstimates evaluatedAt ms (map_put (cand_PlayerID m) (cand_Rating m) estimates))"

definition EvaluateFairness :: "PlacementPredictor \<Rightarrow> RoomView \<Rightarrow> time \<Rightarrow> FairnessReport result" where
  "EvaluateFairness predictor room evaluatedAt =
     guardE (RoomView_Validate room)
      (if int (length (rv_Members room)) \<noteq> rv_Capacity room
       then Inl (ErrorsNew ''fairness evaluation requires a complete room'')
       else if IsZero evaluatedAt \<or> Before evaluatedAt (rv_CreatedAt room) \<or> After evaluatedAt (rv_Deadline room)
       then Inl (ErrorsNew ''fairness evaluation must occur during room formation'')
       else
         rbind (collectEstimates evaluatedAt (rv_Members room) []) (\<lambda>estimates.
         rbind (wrapR ''predict complete room: %w'' []
                  (predictor \<lparr>preq_RoomID = rv_RoomID room, preq_ModeID = rv_ModeID room,
                              preq_GeneratedAt = evaluatedAt, preq_Estimates = estimates\<rparr>)) (\<lambda>prediction.
         rbind (validatedProbabilitySpread prediction room evaluatedAt) (\<lambda>spread.
           let gap = skillGap (rv_Members room) in
           Inr \<lparr>fr_SkillGap = gap,
                fr_MaximumSkillGap = pol_MaxSkillGap (rv_Policy room),
                fr_WinProbabilitySpread = spread,
                fr_MaximumWinProbabilitySpread = pol_MaxWinProbabilitySpread (rv_Policy room),
                fr_WithinHardLimits = (gap \<le> pol_MaxSkillGap (rv_Policy room) \<and>
                   spread \<le> pol_MaxWinProbabilitySpread (rv_Policy room))\<rparr>))))"

text \<open>The duplicate scan over the members: the first member that shares the ticket or the player.\<close>

fun duplicateRejection :: "Candidate \<Rightarrow> Candidate list \<Rightarrow> RejectionCode" where
  "duplicateRejection c [] = NoRejection"
| "duplicateRejection c (m # ms) =
     (if cand_TicketID c = cand_TicketID m then RejectionDuplicateTicket
      else if cand_PlayerID c = cand_PlayerID m then RejectionDuplicatePlayer
      else duplicateRejection c ms)"

definition evaluateCandidate ::
  "PlacementPredictor \<Rightarrow> RoomView \<Rightarrow> Candidate \<Rightarrow> time \<Rightarrow> CandidateDecision result" where
  "evaluateCandidate predictor room candidate evaluatedAt =
     (let decision = \<lparr>dec_TicketID = cand_TicketID candidate, dec_Eligible = False, dec_Rejection = NoRejection,
                      dec_SkillGap = 0, dec_AllowedSkillGap = 0, dec_WinProbabilitySpread = None\<rparr>;
          candidateValid = (Candidate_Validate candidate = None)
      in if \<not> candidateValid \<or> After (cand_JoinedAt candidate) evaluatedAt \<or> After (cand_SnapshotAt candidate) evaluatedAt
         then Inr (decision\<lparr>dec_Rejection := RejectionInvalidCandidate\<rparr>)
         else if After evaluatedAt (rv_Deadline room)
         then Inr (decision\<lparr>dec_Rejection := RejectionRoomExpired\<rparr>)
         else if int (length (rv_Members room)) = rv_Capacity room
         then Inr (decision\<lparr>dec_Rejection := RejectionRoomFull\<rparr>)
         else if duplicateRejection candidate (rv_Members room) \<noteq> NoRejection
         then Inr (decision\<lparr>dec_Rejection := duplicateRejection candidate (rv_Members room)\<rparr>)
         else if est_ModelVersion (cand_Rating candidate) \<noteq> pol_RatingModelVersion (rv_Policy room)
         then Inr (decision\<lparr>dec_Rejection := RejectionRatingModelMismatch\<rparr>)
         else
           let proposedMembers = rv_Members room @ [candidate];
               gap = skillGap proposedMembers
           in rbind (AllowedSkillGap (rv_Policy room) (time_Sub evaluatedAt (rv_CreatedAt room))) (\<lambda>allowedSkillGap.
              let decision = decision\<lparr>dec_SkillGap := gap, dec_AllowedSkillGap := allowedSkillGap\<rparr> in
              if pol_MaxSkillGap (rv_Policy room) < gap
              then Inr (decision\<lparr>dec_Rejection := RejectionSkillGapExceeded\<rparr>)
              else if allowedSkillGap < gap
              then Inr (decision\<lparr>dec_Rejection := RejectionSkillWindowExceeded\<rparr>)
              else if int (length proposedMembers) < rv_Capacity room
              then Inr (decision\<lparr>dec_Eligible := True\<rparr>)
              else
                rbind (EvaluateFairness predictor (room\<lparr>rv_Members := proposedMembers\<rparr>) evaluatedAt) (\<lambda>report.
                  let decision = decision\<lparr>dec_SkillGap := fr_SkillGap report,
                                          dec_WinProbabilitySpread := Some (fr_WinProbabilitySpread report)\<rparr> in
                  if \<not> fr_WithinHardLimits report
                  then Inr (decision\<lparr>dec_Rejection := RejectionProbabilityGapExceeded\<rparr>)
                  else Inr (decision\<lparr>dec_Eligible := True\<rparr>))))"

definition Evaluator_Filter ::
  "PlacementPredictor \<Rightarrow> RoomView \<Rightarrow> Candidate list \<Rightarrow> time \<Rightarrow> CandidateDecision list result" where
  "Evaluator_Filter predictor room candidates evaluatedAt =
     guardE (RoomView_Validate room)
      (if IsZero evaluatedAt \<or> Before evaluatedAt (rv_CreatedAt room)
       then Inl (ErrorsNew ''evaluation time must be at or after room creation'')
       else if pol_CandidateLimit (rv_Policy room) < int (length candidates)
       then Inl (ErrorsNew ''candidate batch exceeds the policy scan limit'')
       else mapR (\<lambda>candidate. wrapR ''evaluate candidate %q: %w'' [ArgS (cand_TicketID candidate)]
                     (evaluateCandidate predictor room candidate evaluatedAt)) candidates)"

section \<open>The skill gap bounds every pair\<close>

lemma fold_min_max:
  assumes "\<forall>c \<in> set cs. f64_finite (f c)"
  shows "\<exists>mn' mx'. fold (\<lambda>c (mn, mx). (math_Min mn (f c), math_Max mx (f c))) cs (Fin mn, Fin mx) = (Fin mn', Fin mx') \<and>
    mn' \<le> mn \<and> mx \<le> mx' \<and> (\<forall>c \<in> set cs. Fin mn' \<le> f c \<and> f c \<le> Fin mx')"
  using assms
proof (induction cs arbitrary: mn mx)
  case (Cons c cs)
  obtain r where r: "f c = Fin r" using Cons.prems(1) by (auto simp: f64_finite_iff)
  obtain mn' mx' where "fold (\<lambda>c (mn, mx). (math_Min mn (f c), math_Max mx (f c))) cs (Fin (min mn r), Fin (max mx r)) = (Fin mn', Fin mx')"
      "mn' \<le> min mn r" "max mx r \<le> mx'" "\<forall>c \<in> set cs. Fin mn' \<le> f c \<and> f c \<le> Fin mx'"
    using Cons.IH [of "min mn r" "max mx r"] Cons.prems by auto
  then show ?case using r by auto
qed simp

lemma range_pairs:
  assumes "\<And>x. x \<in> A \<Longrightarrow> \<exists>r. f x = Fin r \<and> mn \<le> r \<and> r \<le> mx"
  shows "\<forall>a \<in> A. \<forall>b \<in> A. f a - f b \<le> f64_round (mx - mn)"
proof (intro ballI)
  fix a b assume "a \<in> A" "b \<in> A"
  then obtain r s where "f a = Fin r" "f b = Fin s" "r \<le> mx" "mn \<le> s" using assms by meson
  then show "f a - f b \<le> f64_round (mx - mn)" using f64_round_mono [of "r - s" "mx - mn"] by simp
qed

abbreviation mean_of :: "Candidate \<Rightarrow> f64" where
  "mean_of c \<equiv> est_Mean (cand_Rating c)"

lemma skillGap_pairs:
  assumes "\<forall>c \<in> set cs. f64_finite (mean_of c)"
  shows "skillGap cs \<noteq> NaN" and "\<lbrakk>a \<in> set cs; b \<in> set cs\<rbrakk> \<Longrightarrow> mean_of a - mean_of b \<le> skillGap cs"
proof -
  have "skillGap cs \<noteq> NaN \<and> (\<forall>a \<in> set cs. \<forall>b \<in> set cs. mean_of a - mean_of b \<le> skillGap cs)"
  proof (cases "length cs < 2")
    case True
    have "cs = [] \<or> (\<exists>c. cs = [c])" using True by (cases cs; cases "tl cs") auto
    then show ?thesis
      using True assms by (auto simp: skillGap_def zero_f64_def f64_finite_iff)
  next
    case False
    then obtain c ds where cs: "cs = c # ds" by (cases cs) auto
    obtain r where r: "mean_of c = Fin r" using assms cs by (auto simp: f64_finite_iff)
    obtain mn mx where f: "fold (\<lambda>c (mn, mx). (math_Min mn (mean_of c), math_Max mx (mean_of c))) ds (Fin r, Fin r) = (Fin mn, Fin mx)"
        "mn \<le> r" "r \<le> mx" "\<forall>d \<in> set ds. Fin mn \<le> mean_of d \<and> mean_of d \<le> Fin mx"
      using fold_min_max [of ds mean_of r r] assms cs by auto
    have gap: "skillGap cs = f64_round (mx - mn)" using False f by (simp add: skillGap_def cs r)
    have "Fin mn \<le> mean_of d \<and> mean_of d \<le> Fin mx" if "d \<in> set cs" for d using that f r cs by auto
    then have "\<exists>x. mean_of d = Fin x \<and> mn \<le> x \<and> x \<le> mx" if "d \<in> set cs" for d
      using f64_between_Fin that by blast
    then show ?thesis unfolding gap using range_pairs [of "set cs" mean_of mn mx] by auto
  qed
  then show "skillGap cs \<noteq> NaN" "\<lbrakk>a \<in> set cs; b \<in> set cs\<rbrakk> \<Longrightarrow> mean_of a - mean_of b \<le> skillGap cs" by blast+
qed

lemma validCandidate_mean: "validCandidate c \<Longrightarrow> f64_finite (mean_of c)"
  by (simp add: validCandidate_def Estimate_Validate_None)

lemma duplicateRejection_None:
  "duplicateRejection c ms = NoRejection \<longleftrightarrow>
     cand_TicketID c \<notin> set (map cand_TicketID ms) \<and> cand_PlayerID c \<notin> set (map cand_PlayerID ms)"
  by (induction ms) auto

section \<open>Fairness of a complete room\<close>

lemma spreadLoop_pairs:
  assumes "spreadLoop members n seen (Fin mn, Fin mx, tot) ps = Inr (mn', mx', tot')"
  shows "\<exists>a b. mn' = Fin a \<and> mx' = Fin b \<and> a \<le> mn \<and> mx \<le> b \<and>
    (\<forall>p \<in> set ps. pp_PlayerID p \<in> members \<and> pp_PlayerID p \<notin> set seen \<and>
       (\<exists>r. pp_FirstPlaceProbability p = Fin r \<and> a \<le> r \<and> r \<le> b \<and> 0 \<le> r \<and> r \<le> 1)) \<and>
    distinct (map pp_PlayerID ps)"
  using assms
proof (induction ps arbitrary: seen mn mx tot)
  case (Cons p ps)
  obtain r where r: "pp_FirstPlaceProbability p = Fin r" "0 \<le> r" "r \<le> 1" "pp_PlayerID p \<in> members" "pp_PlayerID p \<notin> set seen"
      "spreadLoop members n (pp_PlayerID p # seen) (Fin (min mn r), Fin (max mx r), tot + Fin r) ps = Inr (mn', mx', tot')"
    using Cons.prems by (cases "pp_FirstPlaceProbability p") (auto simp: Let_def split: if_splits)
  from Cons.IH [OF r(6)] obtain a b where "mn' = Fin a" "mx' = Fin b" "a \<le> min mn r" "max mx r \<le> b"
    "\<forall>p' \<in> set ps. pp_PlayerID p' \<in> members \<and> pp_PlayerID p' \<notin> set (pp_PlayerID p # seen) \<and>
       (\<exists>r. pp_FirstPlaceProbability p' = Fin r \<and> a \<le> r \<and> r \<le> b \<and> 0 \<le> r \<and> r \<le> 1)" "distinct (map pp_PlayerID ps)"
    by auto
  then show ?case using r by auto
qed auto

lemma validatedProbabilitySpread_pairs:
  assumes "validatedProbabilitySpread pred room t = Inr spread"
  shows "rp_GeneratedAt pred = t" "rp_ModelVersion pred = pol_RatingModelVersion (rv_Policy room)"
    and "distinct (map pp_PlayerID (rp_Participants pred))" "length (rp_Participants pred) = length (rv_Members room)"
    and "pp_PlayerID ` set (rp_Participants pred) \<subseteq> cand_PlayerID ` set (rv_Members room)"
    and "\<lbrakk>p \<in> set (rp_Participants pred); q \<in> set (rp_Participants pred)\<rbrakk> \<Longrightarrow>
       pp_FirstPlaceProbability p - pp_FirstPlaceProbability q \<le> spread"
proof -
  let ?ps = "rp_Participants pred" and ?ms = "set (map cand_PlayerID (rv_Members room))"
  obtain mn mx tot where l: "spreadLoop ?ms (length (rv_Members room)) [] (PInf, NInf, 0) ?ps = Inr (mn, mx, tot)"
    and s: "spread = mx - mn" and len: "length ?ps = length (rv_Members room)"
    and m: "rp_GeneratedAt pred = t" "rp_ModelVersion pred = pol_RatingModelVersion (rv_Policy room)"
    using assms by (auto simp: validatedProbabilitySpread_def split: if_splits)
  have "distinct (map pp_PlayerID ?ps) \<and> pp_PlayerID ` set ?ps \<subseteq> ?ms \<and>
      (\<forall>p \<in> set ?ps. \<forall>q \<in> set ?ps. pp_FirstPlaceProbability p - pp_FirstPlaceProbability q \<le> spread)"
  proof (cases ?ps)
    case (Cons p ps)
    obtain r where r: "pp_FirstPlaceProbability p = Fin r" "0 \<le> r" "r \<le> 1" "pp_PlayerID p \<in> ?ms"
        "spreadLoop ?ms (length (rv_Members room)) [pp_PlayerID p] (Fin r, Fin r, 0 + Fin r) ps = Inr (mn, mx, tot)"
      using l unfolding Cons
      by (cases "pp_FirstPlaceProbability p") (auto simp: Let_def math_Min_def math_Max_def split: if_splits)
    obtain a b where ab: "mn = Fin a" "mx = Fin b" "a \<le> r" "r \<le> b"
      "\<forall>p' \<in> set ps. pp_PlayerID p' \<in> ?ms \<and> pp_PlayerID p' \<notin> set [pp_PlayerID p] \<and>
         (\<exists>r. pp_FirstPlaceProbability p' = Fin r \<and> a \<le> r \<and> r \<le> b \<and> 0 \<le> r \<and> r \<le> 1)" "distinct (map pp_PlayerID ps)"
      using spreadLoop_pairs [OF r(5)] by auto
    have "\<exists>x. pp_FirstPlaceProbability p' = Fin x \<and> a \<le> x \<and> x \<le> b" if "p' \<in> set ?ps" for p'
      using that ab r Cons by auto
    then have "\<forall>p \<in> set ?ps. \<forall>q \<in> set ?ps. pp_FirstPlaceProbability p - pp_FirstPlaceProbability q \<le> spread"
      unfolding s ab(1,2) using range_pairs [of "set ?ps" pp_FirstPlaceProbability a b] by simp
    then show ?thesis using ab r Cons by auto
  qed simp
  then show "rp_GeneratedAt pred = t" "rp_ModelVersion pred = pol_RatingModelVersion (rv_Policy room)"
    "distinct (map pp_PlayerID ?ps)" "length ?ps = length (rv_Members room)"
    "pp_PlayerID ` set ?ps \<subseteq> cand_PlayerID ` set (rv_Members room)"
    "\<lbrakk>p \<in> set ?ps; q \<in> set ?ps\<rbrakk> \<Longrightarrow> pp_FirstPlaceProbability p - pp_FirstPlaceProbability q \<le> spread"
    using m len by auto
qed

section \<open>What an eligible decision guarantees\<close>

lemma EvaluateFairness_Inr:
  assumes "EvaluateFairness predictor room t = Inr report"
  obtains estimates pred where
    "validRoom room" "int (length (rv_Members room)) = rv_Capacity room" "rv_CreatedAt room \<le> t" "t \<le> rv_Deadline room"
    "predictor \<lparr>preq_RoomID = rv_RoomID room, preq_ModeID = rv_ModeID room,
                preq_GeneratedAt = t, preq_Estimates = estimates\<rparr> = Inr pred"
    "validatedProbabilitySpread pred room t = Inr (fr_WinProbabilitySpread report)"
    "fr_SkillGap report = skillGap (rv_Members room)"
    "fr_WithinHardLimits report \<longleftrightarrow> skillGap (rv_Members room) \<le> pol_MaxSkillGap (rv_Policy room) \<and>
       fr_WinProbabilitySpread report \<le> pol_MaxWinProbabilitySpread (rv_Policy room)"
  using assms by (auto simp: EvaluateFairness_def RoomView_Validate_None Let_def split: if_splits)

lemma evaluateCandidate_eligible:
  assumes "evaluateCandidate predictor room c t = Inr d" "dec_Eligible d"
  shows "validCandidate c" "cand_SnapshotAt c \<le> t" "t \<le> rv_Deadline room" "int (length (rv_Members room)) \<noteq> rv_Capacity room"
    and "cand_TicketID c \<notin> set (map cand_TicketID (rv_Members room))"
    and "cand_PlayerID c \<notin> set (map cand_PlayerID (rv_Members room))"
    and "est_ModelVersion (cand_Rating c) = pol_RatingModelVersion (rv_Policy room)"
    and "\<not> pol_MaxSkillGap (rv_Policy room) < skillGap (rv_Members room @ [c])"
    and "\<exists>allowed. AllowedSkillGap (rv_Policy room) (time_Sub t (rv_CreatedAt room)) = Inr allowed \<and>
           \<not> allowed < skillGap (rv_Members room @ [c])"
    and "rv_Capacity room \<le> int (length (rv_Members room)) + 1 \<Longrightarrow>
      \<exists>report. EvaluateFairness predictor (room\<lparr>rv_Members := rv_Members room @ [c]\<rparr>) t = Inr report \<and>
        fr_WithinHardLimits report \<and> dec_WinProbabilitySpread d = Some (fr_WinProbabilitySpread report)"
  using assms
  by (auto simp: evaluateCandidate_def Candidate_Validate_None Let_def duplicateRejection_None split: if_splits)

lemma eligible_keeps_valid:
  assumes "validRoom room" "evaluateCandidate predictor room c t = Inr d" "dec_Eligible d"
  shows "validRoom (room\<lparr>rv_Members := rv_Members room @ [c]\<rparr>)"
  using assms(1) evaluateCandidate_eligible [OF assms(2,3)] by (auto simp: validRoom_def)

lemma valid_gap_pairs:
  assumes "validRoom room" "\<not> pol_MaxSkillGap (rv_Policy room) < skillGap (rv_Members room)"
    and "a \<in> set (rv_Members room)" "b \<in> set (rv_Members room)"
  shows "mean_of a - mean_of b \<le> pol_MaxSkillGap (rv_Policy room)"
proof -
  have fin: "\<forall>m \<in> set (rv_Members room). f64_finite (mean_of m)"
    using assms(1) validCandidate_mean by (auto simp: validRoom_def)
  have "pol_MaxSkillGap (rv_Policy room) \<noteq> NaN" using assms(1) by (auto simp: validRoom_def Policy_Validate_None)
  then have "skillGap (rv_Members room) \<le> pol_MaxSkillGap (rv_Policy room)"
    using assms(2) skillGap_pairs(1) [OF fin] f64_not_less by blast
  then show ?thesis using skillGap_pairs(2) [OF fin assms(3,4)] f64_le_trans by blast
qed

text \<open>
  A room that forms: starting from \<open>room\<close>, candidates join one at a time, each after an eligible
  decision taken against the room as it is then.
\<close>

inductive forms :: "PlacementPredictor \<Rightarrow> RoomView \<Rightarrow> RoomView \<Rightarrow> bool" for predictor room where
  start: "forms predictor room room"
| join: "\<lbrakk>forms predictor room r; evaluateCandidate predictor r c t = Inr d; dec_Eligible d\<rbrakk>
     \<Longrightarrow> forms predictor room (r\<lparr>rv_Members := rv_Members r @ [c]\<rparr>)"

lemma forms_policy: "forms predictor room r \<Longrightarrow> rv_Policy r = rv_Policy room \<and> rv_Capacity r = rv_Capacity room"
  by (induction rule: forms.induct) auto

text \<open>
  C7. Every room that forms through eligible decisions stays valid (never over capacity, no player or
  ticket twice, one rating model, snapshots before the deadline) and within the hard skill limit for
  every pair of members; and once it is full, its win probability spread has been predicted and is
  within the policy's limit.
\<close>

theorem forming_room_fair:
  assumes "forms predictor room r" "RoomView_Validate room = None" "rv_Members room = []"
  shows "RoomView_Validate r = None \<and>
    (\<forall>a \<in> set (rv_Members r). \<forall>b \<in> set (rv_Members r). mean_of a - mean_of b \<le> pol_MaxSkillGap (rv_Policy room)) \<and>
    (int (length (rv_Members r)) = rv_Capacity room \<longrightarrow>
       (\<exists>t report. EvaluateFairness predictor r t = Inr report \<and>
          fr_WinProbabilitySpread report \<le> pol_MaxWinProbabilitySpread (rv_Policy room)))"
  using assms
proof (induction rule: forms.induct)
  case start
  then show ?case by (auto simp: RoomView_Validate_None validRoom_def)
next
  case (join r c t d)
  let ?r = "r\<lparr>rv_Members := rv_Members r @ [c]\<rparr>"
  have p: "rv_Policy r = rv_Policy room" "rv_Capacity r = rv_Capacity room"
    using forms_policy [OF join.hyps(1)] by auto
  have v: "validRoom r" using join.IH join.prems by (simp add: RoomView_Validate_None)
  have v': "validRoom ?r" by (rule eligible_keeps_valid [OF v join.hyps(2,3)])
  note e = evaluateCandidate_eligible [OF join.hyps(2,3)]
  have "mean_of a - mean_of b \<le> pol_MaxSkillGap (rv_Policy ?r)" if "a \<in> set (rv_Members ?r)" "b \<in> set (rv_Members ?r)" for a b
    by (rule valid_gap_pairs [OF v' _ that]) (use e(8) in simp)
  moreover have "\<exists>t report. EvaluateFairness predictor ?r t = Inr report \<and>
      fr_WinProbabilitySpread report \<le> pol_MaxWinProbabilitySpread (rv_Policy room)"
    if full: "int (length (rv_Members ?r)) = rv_Capacity room"
  proof -
    obtain report where R: "EvaluateFairness predictor ?r t = Inr report" "fr_WithinHardLimits report"
      using e(10) full p by auto
    then have "fr_WinProbabilitySpread report \<le> pol_MaxWinProbabilitySpread (rv_Policy room)"
      using p by (auto elim!: EvaluateFairness_Inr)
    then show ?thesis using R(1) by blast
  qed
  ultimately show ?case using v' p by (simp add: RoomView_Validate_None)
qed

definition sampleCandidate :: "string \<Rightarrow> Candidate" where
  "sampleCandidate k = \<lparr>cand_TicketID = k, cand_PlayerID = k, cand_JoinedAt = 20, cand_SnapshotAt = 10,
     cand_Rating = sampleEstimate\<rparr>"

lemma sampleCandidate_valid: "k \<noteq> '''' \<Longrightarrow> validCandidate (sampleCandidate k)"
  by (simp add: validCandidate_def sampleCandidate_def sampleEstimate_def Estimate_Validate_None)

lemma sample_first_join:
  "\<exists>d. evaluateCandidate predictor (sampleRoom ''r'' 30) (sampleCandidate ''ann'') 40 = Inr d \<and> dec_Eligible d"
proof -
  have "AllowedSkillGap samplePolicy 10 = Inr (Fin 4)"
    using AllowedSkillGap_young [OF samplePolicy_valid, of 10]
    by (simp add: samplePolicy_def duration_units windowSteps_def f64_of_int_def)
  moreover have "time_Sub 40 30 = 10" by (simp add: time_Sub_def duration_range)
  moreover have "Candidate_Validate (sampleCandidate ''ann'') = None"
    using sampleCandidate_valid by (simp add: Candidate_Validate_None)
  moreover have "sampleCandidate ''ann'' = \<lparr>cand_TicketID = ''ann'', cand_PlayerID = ''ann'', cand_JoinedAt = 20,
      cand_SnapshotAt = 10, cand_Rating = sampleEstimate\<rparr>" by (simp add: sampleCandidate_def)
  ultimately show ?thesis
    by (simp add: evaluateCandidate_def Let_def sampleRoom_def sampleEstimate_def duration_units skillGap_def)
      (simp add: samplePolicy_def)
qed

theorem forming_room_fair_witness:
  "\<exists>r. forms (Baseline_Predict math_Exp_rounded (DefaultBaselineConfig ''m1'')) (sampleRoom ''r'' 30) r \<and>
     rv_Members r = [sampleCandidate ''ann''] \<and> RoomView_Validate r = None"
proof -
  let ?p = "Baseline_Predict math_Exp_rounded (DefaultBaselineConfig ''m1'')"
  let ?r = "(sampleRoom ''r'' 30)\<lparr>rv_Members := rv_Members (sampleRoom ''r'' 30) @ [sampleCandidate ''ann'']\<rparr>"
  obtain d where "evaluateCandidate ?p (sampleRoom ''r'' 30) (sampleCandidate ''ann'') 40 = Inr d" "dec_Eligible d"
    using sample_first_join by blast
  then have f: "forms ?p (sampleRoom ''r'' 30) ?r" by (intro forms.join [OF forms.start])
  have "RoomView_Validate (sampleRoom ''r'' 30) = None" using sampleRoom_valid by (simp add: RoomView_Validate_None)
  moreover have "rv_Members (sampleRoom ''r'' 30) = []" by (simp add: sampleRoom_def)
  ultimately have "RoomView_Validate ?r = None" using forming_room_fair [OF f] by blast
  then show ?thesis using f by (intro exI [of _ ?r]) (simp add: sampleRoom_def)
qed

end
