(* ===== verification/Match_Selection.thy ===== *)
theory Match_Selection
  imports Match_Eligibility "HOL-Library.Product_Lexorder"
begin

text \<open>
  \<^verbatim>\<open>pkg/matchmaking/selector.go\<close> and \<^verbatim>\<open>orchestration.go\<close>: the choice of one room for a candidate out of a
  homogeneous partition, and one attempt to match a waiting ticket, with its retry schedule. Policies are
  compared field by field; they have been validated before, so their floats are no NaNs.
\<close>

section \<open>Room selection\<close>

record RoomSelection =
  sel_RoomID :: string
  sel_RoomVersion :: int
  sel_MembersBefore :: int
  sel_Capacity :: int
  sel_AgePriority :: bool
  sel_Decision :: CandidateDecision

record roomOption =
  opt_room :: RoomView
  opt_decision :: CandidateDecision
  opt_inputRank :: int

fun validateSelectionScopeLoop :: "RoomView \<Rightarrow> int \<Rightarrow> string list \<Rightarrow> RoomView list \<Rightarrow> error" where
  "validateSelectionScopeLoop reference index seen [] = None"
| "validateSelectionScopeLoop reference index seen (room # rooms) =
     andthenE (wrapE ''room %d: %w'' [ArgI index] (RoomView_Validate room))
      (if rv_ModeID room \<noteq> rv_ModeID reference \<or> rv_Capacity room \<noteq> rv_Capacity reference
          \<or> rv_Policy room \<noteq> rv_Policy reference
       then Some (ErrorsNew ''room selection requires one mode, capacity and immutable policy'')
       else if rv_RoomID room \<in> set seen
       then Some (Errorf ''room selection contains duplicate room %q'' [ArgS (rv_RoomID room)] None)
       else validateSelectionScopeLoop reference (index + 1) (rv_RoomID room # seen) rooms)"

definition validateSelectionScope :: "RoomView list \<Rightarrow> error" where
  "validateSelectionScope rooms = validateSelectionScopeLoop (hd rooms) 0 [] rooms"

definition compareOptions :: "time \<Rightarrow> roomOption \<Rightarrow> roomOption \<Rightarrow> int" where
  "compareOptions evaluatedAt left right =
     (let leftOld = roomAgePrioritized (opt_room left) evaluatedAt;
          rightOld = roomAgePrioritized (opt_room right) evaluatedAt
      in if leftOld \<noteq> rightOld then (if leftOld then -1 else 1)
         else if leftOld \<and> Before (rv_CreatedAt (opt_room left)) (rv_CreatedAt (opt_room right)) then -1
         else if leftOld \<and> After (rv_CreatedAt (opt_room left)) (rv_CreatedAt (opt_room right)) then 1
         else if pol_PreferNearlyFull (rv_Policy (opt_room left))
            \<and> length (rv_Members (opt_room left)) \<noteq> length (rv_Members (opt_room right))
         then int (length (rv_Members (opt_room right))) - int (length (rv_Members (opt_room left)))
         else if pol_PreferNearlyFull (rv_Policy (opt_room left))
            \<and> \<not> f64_eq (dec_SkillGap (opt_decision left)) (dec_SkillGap (opt_decision right))
         then (if dec_SkillGap (opt_decision left) < dec_SkillGap (opt_decision right) then -1 else 1)
         else opt_inputRank left - opt_inputRank right)"

text \<open>The loop that collects the eligible rooms with their rank in the input.\<close>

fun collectOptions ::
  "PlacementPredictor \<Rightarrow> Candidate \<Rightarrow> time \<Rightarrow> (nat \<times> RoomView) list \<Rightarrow> roomOption list result" where
  "collectOptions predictor candidate evaluatedAt [] = Inr []"
| "collectOptions predictor candidate evaluatedAt ((index, room) # rooms) =
     rbind (wrapR ''room %q: %w'' [ArgS (rv_RoomID room)]
              (Evaluator_Filter predictor room [candidate] evaluatedAt)) (\<lambda>decisions.
     rbind (collectOptions predictor candidate evaluatedAt rooms) (\<lambda>options.
       if dec_Eligible (hd decisions)
       then Inr (\<lparr>opt_room = room, opt_decision = hd decisions, opt_inputRank = int index\<rparr> # options)
       else Inr options))"

definition SelectRoom ::
  "PlacementPredictor \<Rightarrow> RoomView list \<Rightarrow> Candidate \<Rightarrow> time \<Rightarrow> RoomSelection option result" where
  "SelectRoom predictor rooms candidate evaluatedAt =
     (if rooms = [] then Inr None
      else guardE (validateSelectionScope rooms)
       (if pol_RoomLimit (rv_Policy (hd rooms)) < int (length rooms)
        then Inl (ErrorsNew ''room batch exceeds the policy scan limit'')
        else rbind (collectOptions predictor candidate evaluatedAt (indexed rooms)) (\<lambda>options.
          if options = [] then Inr None
          else let selected = hd (sort_cmp (compareOptions evaluatedAt) options) in
            Inr (Some \<lparr>sel_RoomID = rv_RoomID (opt_room selected),
                       sel_RoomVersion = rv_AggregateVersion (opt_room selected),
                       sel_MembersBefore = int (length (rv_Members (opt_room selected))),
                       sel_Capacity = rv_Capacity (opt_room selected),
                       sel_AgePriority = roomAgePrioritized (opt_room selected) evaluatedAt,
                       sel_Decision = opt_decision selected\<rparr>))))"

section \<open>One matching attempt\<close>

datatype AttemptTrigger =
    AttemptTriggerTicketAccepted
  | AttemptTriggerRoomChanged
  | AttemptTriggerPeriodicRetry
  | AttemptTriggerUnknown string

datatype AttemptOutcome = AttemptOutcomeMatched | AttemptOutcomeRetryScheduled | AttemptOutcomeTimedOut

record MatchAttempt =
  ma_Trigger :: AttemptTrigger
  ma_EvaluatedAt :: time
  ma_Candidate :: Candidate
  ma_Policy :: Policy
  ma_Rooms :: "RoomView list"

record MatchAttemptResult =
  mar_Outcome :: AttemptOutcome
  mar_Deadline :: time
  mar_Selection :: "RoomSelection option"
  mar_RetryAt :: "time option"

definition roomCreatedCheck :: "MatchAttempt \<Rightarrow> nat \<times> RoomView \<Rightarrow> error" where
  "roomCreatedCheck attempt ir =
     (case ir of (index, room) \<Rightarrow>
        failIf (Before (ma_EvaluatedAt attempt) (rv_CreatedAt room))
          (Errorf ''match attempt room %d was created after evaluation time'' [ArgI (int index)] None))"

definition validateMatchAttempt :: "MatchAttempt \<Rightarrow> error" where
  "validateMatchAttempt attempt =
     (if ma_Trigger attempt \<noteq> AttemptTriggerTicketAccepted \<and> ma_Trigger attempt \<noteq> AttemptTriggerRoomChanged
         \<and> ma_Trigger attempt \<noteq> AttemptTriggerPeriodicRetry
      then Some (ErrorsNew ''match attempt trigger is invalid'')
      else if IsZero (ma_EvaluatedAt attempt) then Some (ErrorsNew ''match attempt evaluation time is required'')
      else andthenE (wrapE ''match attempt policy: %w'' [] (Policy_Validate (ma_Policy attempt)))
       (andthenE (wrapE ''match attempt candidate: %w'' [] (Candidate_Validate (ma_Candidate attempt)))
        (if After (cand_JoinedAt (ma_Candidate attempt)) (ma_EvaluatedAt attempt)
            \<or> After (cand_SnapshotAt (ma_Candidate attempt)) (ma_EvaluatedAt attempt)
         then Some (ErrorsNew ''match attempt requires a candidate snapshot available at evaluation time'')
         else if est_ModelVersion (cand_Rating (ma_Candidate attempt)) \<noteq> pol_RatingModelVersion (ma_Policy attempt)
         then Some (ErrorsNew ''match attempt candidate uses an incompatible rating model'')
         else if pol_RoomLimit (ma_Policy attempt) < int (length (ma_Rooms attempt))
         then Some (ErrorsNew ''match attempt room batch exceeds the policy scan limit'')
         else andthenE
           (if ma_Rooms attempt \<noteq> []
            then andthenE (wrapE ''match attempt rooms: %w'' [] (validateSelectionScope (ma_Rooms attempt)))
              (failIf (rv_Policy (hd (ma_Rooms attempt)) \<noteq> ma_Policy attempt)
                 (ErrorsNew ''match attempt rooms use an incompatible policy''))
            else None)
           (forE (roomCreatedCheck attempt) (indexed (ma_Rooms attempt))))))"

definition nextPeriodicBoundary :: "time \<Rightarrow> duration \<Rightarrow> time \<Rightarrow> time" where
  "nextPeriodicBoundary anchor interval after =
     (let elapsed = time_Sub after anchor in time_Add after (interval - elapsed smod interval))"

definition roomBoundary :: "MatchAttempt \<Rightarrow> RoomView \<Rightarrow> time \<Rightarrow> time" where
  "roomBoundary attempt room nextAt =
     (if \<not> Before (ma_EvaluatedAt attempt) (rv_Deadline room) then nextAt
      else
        let roomNext =
              (if pol_InitialSkillGap (rv_Policy room) < pol_MaxSkillGap (rv_Policy room)
               then let expansion = nextPeriodicBoundary (rv_CreatedAt room)
                          (pol_ExpansionInterval (rv_Policy room)) (ma_EvaluatedAt attempt)
                    in if Before expansion (rv_Deadline room) then expansion else rv_Deadline room
               else rv_Deadline room)
        in if Before roomNext nextAt then roomNext else nextAt)"

definition nextRetryBoundary :: "MatchAttempt \<Rightarrow> time \<Rightarrow> time" where
  "nextRetryBoundary attempt deadline =
     (let boundary = nextPeriodicBoundary (cand_JoinedAt (ma_Candidate attempt))
            (pol_ExpansionInterval (ma_Policy attempt)) (ma_EvaluatedAt attempt);
          nextAt = (if After boundary deadline then deadline else boundary)
      in fold (roomBoundary attempt) (ma_Rooms attempt) nextAt)"

definition AttemptMatch :: "PlacementPredictor \<Rightarrow> MatchAttempt \<Rightarrow> MatchAttemptResult result" where
  "AttemptMatch predictor attempt =
     guardE (validateMatchAttempt attempt)
      (let deadline = time_Add (cand_JoinedAt (ma_Candidate attempt)) (pol_FillTimeout (ma_Policy attempt)) in
       if After (ma_EvaluatedAt attempt) deadline
       then Inr \<lparr>mar_Outcome = AttemptOutcomeTimedOut, mar_Deadline = deadline, mar_Selection = None, mar_RetryAt = None\<rparr>
       else rbind (SelectRoom predictor (ma_Rooms attempt) (ma_Candidate attempt) (ma_EvaluatedAt attempt)) (\<lambda>found.
         case found of
           Some selection \<Rightarrow>
             Inr \<lparr>mar_Outcome = AttemptOutcomeMatched, mar_Deadline = deadline, mar_Selection = Some selection,
                  mar_RetryAt = None\<rparr>
         | None \<Rightarrow>
             if \<not> Before (ma_EvaluatedAt attempt) deadline
             then Inr \<lparr>mar_Outcome = AttemptOutcomeTimedOut, mar_Deadline = deadline, mar_Selection = None,
                       mar_RetryAt = None\<rparr>
             else Inr \<lparr>mar_Outcome = AttemptOutcomeRetryScheduled, mar_Deadline = deadline, mar_Selection = None,
                       mar_RetryAt = Some (nextRetryBoundary attempt deadline)\<rparr>))"

section \<open>The preference among eligible rooms\<close>

definition optionKey :: "time \<Rightarrow> bool \<Rightarrow> roomOption \<Rightarrow> int \<times> int \<times> int \<times> real \<times> int" where
  "optionKey t prefer o1 =
     (let old = roomAgePrioritized (opt_room o1) t in
      (if old then 0 else 1,
       if old then rv_CreatedAt (opt_room o1) else 0,
       if prefer then - int (length (rv_Members (opt_room o1))) else 0,
       if prefer then (case dec_SkillGap (opt_decision o1) of Fin g \<Rightarrow> g | _ \<Rightarrow> 0) else 0,
       opt_inputRank o1))"

definition comparableOptions :: "bool \<Rightarrow> roomOption set" where
  "comparableOptions prefer =
     {o1. pol_PreferNearlyFull (rv_Policy (opt_room o1)) = prefer \<and> f64_finite (dec_SkillGap (opt_decision o1))}"

lemma compareOptions_key:
  assumes "l \<in> comparableOptions prefer" "r \<in> comparableOptions prefer"
  shows "compareOptions t l r \<le> 0 \<longleftrightarrow> optionKey t prefer l \<le> optionKey t prefer r"
    and "0 \<le> compareOptions t l r \<longleftrightarrow> optionKey t prefer r \<le> optionKey t prefer l"
proof -
  obtain g h where g: "dec_SkillGap (opt_decision l) = Fin g" "dec_SkillGap (opt_decision r) = Fin h"
    using assms by (auto simp: comparableOptions_def f64_finite_iff)
  have p: "pol_PreferNearlyFull (rv_Policy (opt_room l)) = prefer" "pol_PreferNearlyFull (rv_Policy (opt_room r)) = prefer"
    using assms by (auto simp: comparableOptions_def)
  show "compareOptions t l r \<le> 0 \<longleftrightarrow> optionKey t prefer l \<le> optionKey t prefer r"
    by (auto simp: compareOptions_def optionKey_def Let_def g p)
  show "0 \<le> compareOptions t l r \<longleftrightarrow> optionKey t prefer r \<le> optionKey t prefer l"
    by (auto simp: compareOptions_def optionKey_def Let_def g p)
qed

interpretation option_order: go_compare "compareOptions t" "comparableOptions nearlyFull" for t nearlyFull
  by unfold_locales (auto simp: compareOptions_key intro: order.trans)

definition eligibleFor :: "PlacementPredictor \<Rightarrow> Candidate \<Rightarrow> time \<Rightarrow> RoomView \<Rightarrow> CandidateDecision \<Rightarrow> bool" where
  "eligibleFor predictor c t room d \<longleftrightarrow> evaluateCandidate predictor room c t = Inr d \<and> dec_Eligible d"

lemma eligible_gap:
  assumes "eligibleFor predictor c t room d" "validRoom room"
  shows "dec_SkillGap d = skillGap (rv_Members room @ [c])" "f64_finite (dec_SkillGap d)"
proof -
  have e: "evaluateCandidate predictor room c t = Inr d" "dec_Eligible d" using assms(1) by (auto simp: eligibleFor_def)
  show gap: "dec_SkillGap d = skillGap (rv_Members room @ [c])"
    using e by (auto simp: evaluateCandidate_def Let_def split: if_splits elim!: EvaluateFairness_Inr)
  have "validRoom (room\<lparr>rv_Members := rv_Members room @ [c]\<rparr>)" by (rule eligible_keeps_valid [OF assms(2) e])
  then have fin: "\<forall>m \<in> set (rv_Members room @ [c]). f64_finite (mean_of m)"
    using validCandidate_mean by (auto simp: validRoom_def)
  obtain m where m: "pol_MaxSkillGap (rv_Policy room) = Fin m"
    using assms(2) by (auto simp: validRoom_def Policy_Validate_None)
  have "\<not> Fin m < skillGap (rv_Members room @ [c])" using evaluateCandidate_eligible(8) [OF e] m by simp
  moreover have "Fin 0 \<le> skillGap (rv_Members room @ [c])"
    using skillGap_pairs(2) [OF fin, of c c] fin by (auto simp: f64_finite_iff)
  ultimately show "f64_finite (dec_SkillGap d)"
    unfolding gap by (cases "skillGap (rv_Members room @ [c])") auto
qed

lemma collectOptions_Inr:
  assumes "collectOptions predictor c t irs = Inr opts"
  shows "(\<forall>op \<in> set opts. \<exists>i. (i, opt_room op) \<in> set irs \<and> eligibleFor predictor c t (opt_room op) (opt_decision op)) \<and>
    (\<forall>i r d. (i, r) \<in> set irs \<longrightarrow> eligibleFor predictor c t r d \<longrightarrow>
       (\<exists>op \<in> set opts. opt_room op = r \<and> opt_decision op = d))"
  using assms
proof (induction irs arbitrary: opts)
  case (Cons ir irs)
  obtain i r where ir: "ir = (i, r)" by (cases ir)
  obtain d os where d: "evaluateCandidate predictor r c t = Inr d" and os: "collectOptions predictor c t irs = Inr os"
    and opts: "opts = (if dec_Eligible d then \<lparr>opt_room = r, opt_decision = d, opt_inputRank = int i\<rparr> # os else os)"
    using Cons.prems by (auto simp: ir Evaluator_Filter_def split: if_splits)
  have "(\<exists>op \<in> set opts. opt_room op = r' \<and> opt_decision op = d')"
    if "(i', r') \<in> set (ir # irs)" "eligibleFor predictor c t r' d'" for i' r' d'
    using that Cons.IH [OF os] d by (auto simp: ir opts eligibleFor_def)
  then show ?case using Cons.IH [OF os] d by (auto simp: ir opts eligibleFor_def split: if_splits)
qed auto

lemma collected:
  assumes "collectOptions predictor c t (indexed rooms) = Inr opts"
  shows "op \<in> set opts \<Longrightarrow> opt_room op \<in> set rooms \<and> eligibleFor predictor c t (opt_room op) (opt_decision op)"
    and "\<lbrakk>r \<in> set rooms; eligibleFor predictor c t r d\<rbrakk> \<Longrightarrow> \<exists>op \<in> set opts. opt_room op = r \<and> opt_decision op = d"
proof -
  note c = collectOptions_Inr [OF assms]
  show "op \<in> set opts \<Longrightarrow> opt_room op \<in> set rooms \<and> eligibleFor predictor c t (opt_room op) (opt_decision op)"
    using c indexed_mem [of "opt_room op" rooms] by blast
  assume "r \<in> set rooms" "eligibleFor predictor c t r d"
  moreover then obtain i where "(i, r) \<in> set (indexed rooms)" using indexed_mem [of r rooms] by blast
  ultimately show "\<exists>op \<in> set opts. opt_room op = r \<and> opt_decision op = d" using c by blast
qed

lemma validateSelectionScopeLoop_None:
  "validateSelectionScopeLoop ref i seen rooms = None \<Longrightarrow>
     \<forall>r \<in> set rooms. validRoom r \<and> rv_Policy r = rv_Policy ref \<and> rv_Capacity r = rv_Capacity ref \<and> rv_ModeID r = rv_ModeID ref"
  by (induction rooms arbitrary: i seen) (auto simp: RoomView_Validate_None split: if_splits)

lemma validateSelectionScope_None:
  "validateSelectionScope rooms = None \<Longrightarrow> \<forall>r \<in> set rooms. validRoom r \<and> rv_Policy r = rv_Policy (hd rooms)"
  unfolding validateSelectionScope_def by (drule validateSelectionScopeLoop_None) simp

lemma optionKey_prefers:
  assumes "optionKey t prefer a \<le> optionKey t prefer b" "dec_SkillGap (opt_decision a) = Fin g" "dec_SkillGap (opt_decision b) = Fin h"
  shows "(roomAgePrioritized (opt_room b) t \<longrightarrow>
      roomAgePrioritized (opt_room a) t \<and> rv_CreatedAt (opt_room a) \<le> rv_CreatedAt (opt_room b)) \<and>
    (prefer \<and> \<not> roomAgePrioritized (opt_room a) t \<longrightarrow>
      length (rv_Members (opt_room b)) \<le> length (rv_Members (opt_room a)) \<and>
      (length (rv_Members (opt_room b)) = length (rv_Members (opt_room a)) \<longrightarrow> g \<le> h))"
  using assms by (auto simp: optionKey_def Let_def split: if_splits)

lemma SelectRoom_Some:
  assumes "SelectRoom predictor rooms c t = Inr (Some sel)"
  obtains opts op where "collectOptions predictor c t (indexed rooms) = Inr opts" "validateSelectionScope rooms = None"
    "op = hd (sort_cmp (compareOptions t) opts)" "opts \<noteq> []" "sel_RoomID sel = rv_RoomID (opt_room op)"
    "sel_RoomVersion sel = rv_AggregateVersion (opt_room op)" "sel_Decision sel = opt_decision op"
  using assms by (auto simp: SelectRoom_def Let_def split: if_splits)



section \<open>Attempts make progress\<close>

lemma nextPeriodicBoundary_after:
  assumes "0 < interval" "anchor \<le> now"
  shows "now < nextPeriodicBoundary anchor interval now" "nextPeriodicBoundary anchor interval now \<le> now + interval"
proof -
  have "time_Sub now anchor smod interval = time_Sub now anchor mod interval"
    using assms by (simp add: trunc_division)
  then show "now < nextPeriodicBoundary anchor interval now" "nextPeriodicBoundary anchor interval now \<le> now + interval"
    using assms by (auto simp: nextPeriodicBoundary_def Let_def)
qed

lemma validateMatchAttempt_None:
  assumes "validateMatchAttempt a = None"
  shows "Policy_Validate (ma_Policy a) = None" "cand_JoinedAt (ma_Candidate a) \<le> ma_EvaluatedAt a"
    and "r \<in> set (ma_Rooms a) \<Longrightarrow> validRoom r \<and> rv_Policy r = ma_Policy a \<and> rv_CreatedAt r \<le> ma_EvaluatedAt a"
proof -
  show "Policy_Validate (ma_Policy a) = None" "cand_JoinedAt (ma_Candidate a) \<le> ma_EvaluatedAt a"
    using assms by (auto simp: validateMatchAttempt_def split: if_splits)
  assume r: "r \<in> set (ma_Rooms a)"
  have "\<forall>x \<in> set (ma_Rooms a). \<not> ma_EvaluatedAt a < rv_CreatedAt x" "validateSelectionScope (ma_Rooms a) = None"
      "rv_Policy (hd (ma_Rooms a)) = ma_Policy a"
    using assms r indexed_all [of "\<lambda>p. roomCreatedCheck a p = None" "\<lambda>x. \<not> ma_EvaluatedAt a < rv_CreatedAt x" "ma_Rooms a"]
    by (auto simp: validateMatchAttempt_def roomCreatedCheck_def split: if_splits)
  then show "validRoom r \<and> rv_Policy r = ma_Policy a \<and> rv_CreatedAt r \<le> ma_EvaluatedAt a"
    using validateSelectionScope_None r by fastforce
qed

definition liveBoundary :: "MatchAttempt \<Rightarrow> RoomView \<Rightarrow> time \<Rightarrow> bool" where
  "liveBoundary a r t \<longleftrightarrow> (ma_EvaluatedAt a < rv_Deadline r \<longrightarrow> t \<le> rv_Deadline r \<and>
     (pol_InitialSkillGap (rv_Policy r) < pol_MaxSkillGap (rv_Policy r) \<longrightarrow>
        t \<le> nextPeriodicBoundary (rv_CreatedAt r) (pol_ExpansionInterval (rv_Policy r)) (ma_EvaluatedAt a)))"

lemma roomBoundary_bounds:
  assumes "0 < pol_ExpansionInterval (rv_Policy r)" "rv_CreatedAt r \<le> ma_EvaluatedAt a" "ma_EvaluatedAt a < t"
  shows "ma_EvaluatedAt a < roomBoundary a r t" "roomBoundary a r t \<le> t" "liveBoundary a r (roomBoundary a r t)"
  using assms nextPeriodicBoundary_after(1) [OF assms(1,2)] by (auto simp: roomBoundary_def Let_def liveBoundary_def)

lemma fold_roomBoundary:
  assumes "\<forall>r \<in> set rooms. 0 < pol_ExpansionInterval (rv_Policy r) \<and> rv_CreatedAt r \<le> ma_EvaluatedAt a" "ma_EvaluatedAt a < t"
  shows "ma_EvaluatedAt a < fold (roomBoundary a) rooms t \<and> fold (roomBoundary a) rooms t \<le> t \<and>
    (\<forall>r \<in> set rooms. liveBoundary a r (fold (roomBoundary a) rooms t))"
  using assms
proof (induction rooms arbitrary: t)
  case (Cons r rooms)
  note b = roomBoundary_bounds [of r a t]
  have "ma_EvaluatedAt a < roomBoundary a r t" "roomBoundary a r t \<le> t" "liveBoundary a r (roomBoundary a r t)"
    using b Cons.prems by auto
  moreover from this(1) have "ma_EvaluatedAt a < fold (roomBoundary a) rooms (roomBoundary a r t) \<and>
      fold (roomBoundary a) rooms (roomBoundary a r t) \<le> roomBoundary a r t \<and>
      (\<forall>r' \<in> set rooms. liveBoundary a r' (fold (roomBoundary a) rooms (roomBoundary a r t)))"
    using Cons by simp
  ultimately show ?case by (auto simp: liveBoundary_def)
qed simp

lemma nextRetryBoundary_bounds:
  assumes "validateMatchAttempt a = None" "ma_EvaluatedAt a < deadline"
  shows "ma_EvaluatedAt a < nextRetryBoundary a deadline" "nextRetryBoundary a deadline \<le> deadline"
    and "r \<in> set (ma_Rooms a) \<Longrightarrow> liveBoundary a r (nextRetryBoundary a deadline)"
proof -
  note v = validateMatchAttempt_None [OF assms(1)]
  have i: "0 < pol_ExpansionInterval (ma_Policy a)" using v(1) by (auto simp: Policy_Validate_None)
  have rooms: "\<forall>r \<in> set (ma_Rooms a). 0 < pol_ExpansionInterval (rv_Policy r) \<and> rv_CreatedAt r \<le> ma_EvaluatedAt a"
    using v(3) i by auto
  define b where "b = nextPeriodicBoundary (cand_JoinedAt (ma_Candidate a)) (pol_ExpansionInterval (ma_Policy a)) (ma_EvaluatedAt a)"
  have "ma_EvaluatedAt a < (if deadline < b then deadline else b)"
    using nextPeriodicBoundary_after(1) [OF i v(2)] assms(2) by (simp add: b_def)
  from fold_roomBoundary [OF rooms this]
  show "ma_EvaluatedAt a < nextRetryBoundary a deadline" "nextRetryBoundary a deadline \<le> deadline"
    "r \<in> set (ma_Rooms a) \<Longrightarrow> liveBoundary a r (nextRetryBoundary a deadline)"
    by (auto simp: nextRetryBoundary_def Let_def b_def [symmetric] split: if_splits)
qed

text \<open>
  C13. An attempt always answers with exactly one action: a selection while the ticket is within its
  deadline, a retry strictly after the evaluation and no later than the deadline, or a timeout at or
  after the deadline. A waiting ticket is therefore re-evaluated at ever later instants and ends at its
  deadline at the latest.
\<close>

theorem AttemptMatch_progress:
  assumes "AttemptMatch predictor a = Inr res"
  shows "mar_Deadline res = cand_JoinedAt (ma_Candidate a) + pol_FillTimeout (ma_Policy a) \<and>
    (case mar_Outcome res of
       AttemptOutcomeMatched \<Rightarrow> ma_EvaluatedAt a \<le> mar_Deadline res \<and> mar_RetryAt res = None \<and>
         (\<exists>sel. mar_Selection res = Some sel \<and>
            SelectRoom predictor (ma_Rooms a) (ma_Candidate a) (ma_EvaluatedAt a) = Inr (Some sel))
     | AttemptOutcomeRetryScheduled \<Rightarrow> mar_Selection res = None \<and>
         (\<exists>t. mar_RetryAt res = Some t \<and> ma_EvaluatedAt a < t \<and> t \<le> mar_Deadline res)
     | AttemptOutcomeTimedOut \<Rightarrow> mar_Deadline res \<le> ma_EvaluatedAt a \<and> mar_Selection res = None \<and> mar_RetryAt res = None)"
  using assms nextRetryBoundary_bounds(1,2) [of a "cand_JoinedAt (ma_Candidate a) + pol_FillTimeout (ma_Policy a)"]
  by (auto simp: AttemptMatch_def Let_def split: if_splits option.splits)

text \<open>
  The retry schedule misses nothing: until the scheduled retry the skill window of every room of
  the attempt that is still forming stays what it was at the evaluation.
\<close>

theorem AttemptMatch_window_constant:
  assumes "AttemptMatch predictor a = Inr res" "mar_RetryAt res = Some retryAt" "r \<in> set (ma_Rooms a)"
    and "ma_EvaluatedAt a < rv_Deadline r" "ma_EvaluatedAt a \<le> t" "t < retryAt" "is_duration (pol_FillTimeout (ma_Policy a))"
  shows "AllowedSkillGap (rv_Policy r) (time_Sub t (rv_CreatedAt r)) =
         AllowedSkillGap (rv_Policy r) (time_Sub (ma_EvaluatedAt a) (rv_CreatedAt r))"
proof -
  let ?p = "rv_Policy r" and ?c = "rv_CreatedAt r" and ?e = "ma_EvaluatedAt a"
  have v: "validateMatchAttempt a = None" and lt: "?e < cand_JoinedAt (ma_Candidate a) + pol_FillTimeout (ma_Policy a)"
    and retry: "retryAt = nextRetryBoundary a (cand_JoinedAt (ma_Candidate a) + pol_FillTimeout (ma_Policy a))"
    using assms(1,2) by (auto simp: AttemptMatch_def Let_def split: if_splits option.splits)
  have room: "validRoom r" "?p = ma_Policy a" "?c \<le> ?e" using validateMatchAttempt_None(3) [OF v assms(3)] by auto
  have live: "liveBoundary a r retryAt" unfolding retry by (rule nextRetryBoundary_bounds(3) [OF v lt assms(3)])
  have pol: "Policy_Validate ?p = None" "rv_Deadline r \<le> ?c + pol_FillTimeout ?p" using room by (auto simp: validRoom_def)
  have young: "t - ?c < pol_FillTimeout ?p" "?e - ?c < pol_FillTimeout ?p"
    using live assms(4,6) pol(2) by (auto simp: liveBoundary_def)
  have sub: "time_Sub x ?c = x - ?c" if "?c \<le> x" "x - ?c < pol_FillTimeout ?p" for x
    using that assms(7) room(2) by (intro time_Sub_exact) (auto simp: is_duration_def duration_range)
  show ?thesis
  proof (cases "pol_InitialSkillGap ?p < pol_MaxSkillGap ?p")
    case True
    let ?i = "pol_ExpansionInterval ?p"
    have i: "0 < ?i" using pol(1) by (auto simp: Policy_Validate_None)
    have "(?e - ?c) smod ?i = (?e - ?c) mod ?i"
      using i room(3) by (simp add: trunc_division)
    then have "t < ?e + (?i - (?e - ?c) mod ?i)"
      using live True assms(4,6) sub [of ?e] room(3) young(2)
      by (auto simp: liveBoundary_def nextPeriodicBoundary_def Let_def)
    moreover have "?e - ?c = (?e - ?c) div ?i * ?i + (?e - ?c) mod ?i" by simp
    ultimately have "t - ?c < ((?e - ?c) div ?i + 1) * ?i" by (simp only: distrib_right)
    moreover have "(?e - ?c) div ?i * ?i \<le> t - ?c"
      using \<open>?e - ?c = _\<close> pos_mod_sign [OF i, of "?e - ?c"] assms(5) by linarith
    ultimately have "(t - ?c) div ?i = (?e - ?c) div ?i" using i by (intro int_div_pos_eq [where r = "t - ?c - (?e - ?c) div ?i * ?i"]) (auto simp: algebra_simps)
    moreover have "pol_InitialSkillGap ?p \<noteq> pol_MaxSkillGap ?p" using True pol(1) by (auto simp: Policy_Validate_None)
    ultimately show ?thesis
      using AllowedSkillGap_young [OF pol(1)] sub room(3) young assms(5) by simp
  next
    case False
    then have "f64_eq (pol_InitialSkillGap ?p) (pol_MaxSkillGap ?p)" using pol(1) by (auto simp: Policy_Validate_None)
    then show ?thesis using pol(1) room(3) assms(5) by (simp add: AllowedSkillGap_def linorder_not_less)
  qed
qed

definition sampleAttempt :: MatchAttempt where
  "sampleAttempt = \<lparr>ma_Trigger = AttemptTriggerPeriodicRetry, ma_EvaluatedAt = 40, ma_Candidate = sampleCandidate ''ann'',
     ma_Policy = samplePolicy, ma_Rooms = [(sampleRoom ''r'' 30)\<lparr>rv_Members := [sampleCandidate ''ann'']\<rparr>]\<rparr>"

lemma sampleAttempt_retry:
  "\<exists>res t. AttemptMatch predictor sampleAttempt = Inr res \<and> mar_Outcome res = AttemptOutcomeRetryScheduled \<and> mar_RetryAt res = Some t"
proof -
  let ?c = "sampleCandidate ''ann''" and ?r = "(sampleRoom ''r'' 30)\<lparr>rv_Members := [sampleCandidate ''ann'']\<rparr>"
  have vc: "Candidate_Validate ?c = None" using sampleCandidate_valid by (simp add: Candidate_Validate_None)
  have sel: "cand_JoinedAt ?c = 20" "cand_SnapshotAt ?c = 10" "est_ModelVersion (cand_Rating ?c) = ''m1''"
      "pol_RatingModelVersion samplePolicy = ''m1''" "pol_RoomLimit samplePolicy = 4" "pol_CandidateLimit samplePolicy = 10"
      "pol_FillTimeout samplePolicy = 65000000000"
    by (simp_all add: sampleCandidate_def sampleEstimate_def samplePolicy_def duration_units)
  have rsel: "rv_CreatedAt ?r = 30" "rv_Deadline ?r = 65000000030" "rv_Policy ?r = samplePolicy" "rv_Members ?r = [?c]" "rv_Capacity ?r = 5"
    by (simp_all add: sampleRoom_def duration_units)
  have "validRoom ?r"
    using sampleRoom_valid [of "''r''" 30] sampleCandidate_valid [of "''ann''"] sel rsel by (simp add: validRoom_def)
  then have vr: "RoomView_Validate ?r = None" by (simp add: RoomView_Validate_None)
  have "validateMatchAttempt sampleAttempt = None"
    using vc vr samplePolicy_valid sel rsel
    by (simp add: validateMatchAttempt_def sampleAttempt_def validateSelectionScope_def indexed_def roomCreatedCheck_def)
  moreover have "SelectRoom predictor [?r] ?c 40 = Inr None"
    using vc vr sel rsel
    by (simp add: SelectRoom_def validateSelectionScope_def indexed_def Evaluator_Filter_def evaluateCandidate_def Let_def)
  ultimately show ?thesis using sel by (simp add: AttemptMatch_def Let_def sampleAttempt_def)
qed

theorem AttemptMatch_progress_witness:
  "\<exists>res t. AttemptMatch (Baseline_Predict math_Exp_rounded (DefaultBaselineConfig ''m1'')) sampleAttempt = Inr res \<and>
     mar_RetryAt res = Some t \<and> 40 < t \<and> t \<le> mar_Deadline res"
proof -
  let ?p = "Baseline_Predict math_Exp_rounded (DefaultBaselineConfig ''m1'')"
  obtain res t where r: "AttemptMatch ?p sampleAttempt = Inr res" "mar_Outcome res = AttemptOutcomeRetryScheduled" "mar_RetryAt res = Some t"
    using sampleAttempt_retry by blast
  have "ma_EvaluatedAt sampleAttempt = 40" by (simp add: sampleAttempt_def)
  then show ?thesis using AttemptMatch_progress [OF r(1)] r by auto
qed

theorem AttemptMatch_window_constant_witness:
  "\<exists>res t. AttemptMatch (Baseline_Predict math_Exp_rounded (DefaultBaselineConfig ''m1'')) sampleAttempt = Inr res \<and>
     mar_RetryAt res = Some t \<and>
     AllowedSkillGap samplePolicy (time_Sub (t - 1) 30) = AllowedSkillGap samplePolicy (time_Sub 40 30)"
proof -
  let ?p = "Baseline_Predict math_Exp_rounded (DefaultBaselineConfig ''m1'')"
  obtain res t where r: "AttemptMatch ?p sampleAttempt = Inr res" "mar_RetryAt res = Some t" using sampleAttempt_retry by blast
  have v: "validateMatchAttempt sampleAttempt = None" using r(1) by (simp add: AttemptMatch_def)
  have "40 < t"
    using r nextRetryBoundary_bounds(1) [OF v]
    by (auto simp: AttemptMatch_def Let_def sampleAttempt_def split: if_splits option.splits)
  moreover obtain room where room: "room \<in> set (ma_Rooms sampleAttempt)" "rv_Policy room = samplePolicy"
      "rv_CreatedAt room = 30" "rv_Deadline room = 30 + 65 * second"
    by (simp add: sampleAttempt_def sampleRoom_def)
  moreover have "ma_EvaluatedAt sampleAttempt = 40" "is_duration (pol_FillTimeout (ma_Policy sampleAttempt))"
    by (simp_all add: sampleAttempt_def samplePolicy_def is_duration_def duration_range duration_units)
  ultimately have "AllowedSkillGap samplePolicy (time_Sub (t - 1) 30) = AllowedSkillGap samplePolicy (time_Sub 40 30)"
    using AttemptMatch_window_constant [OF r room(1), of "t - 1"] by (simp add: duration_units)
  then show ?thesis using r by blast
qed

end
