(* ===== verification/Matchmaking_Queue.thy ===== *)
theory Matchmaking_Queue
  imports Ticket_Store Match_Selection
begin

text \<open>
  \<^verbatim>\<open>internal/worker/queue.go\<close> and \<^verbatim>\<open>internal/postgres/matchmaking_queue.go\<close>: leased claims on queued tickets, their
  rescheduling, and the bounded view of compatible rooms that the matcher is given. \<open>unmarshal\<close> stands for the JSON decoding of
  a stored policy definition.
\<close>

section \<open>Claims\<close>

definition MaxBatchSize :: int where "MaxBatchSize = 256"

record ClaimRequest =
  clr_Token :: string
  clr_Limit :: int
  clr_ClaimedAt :: time
  clr_LeaseUntil :: time

definition ClaimRequest_Validate :: "ClaimRequest \<Rightarrow> error" where
  "ClaimRequest_Validate request =
     (if clr_Token request = '''' then Some (ErrorsNew ''claim token is required'')
      else if clr_Limit request \<le> 0 \<or> MaxBatchSize < clr_Limit request
      then Some (ErrorsNew ''claim limit is outside the supported range'')
      else if IsZero (clr_ClaimedAt request) \<or> IsZero (clr_LeaseUntil request) \<or> \<not> After (clr_LeaseUntil request) (clr_ClaimedAt request)
      then Some (ErrorsNew ''claim requires an ordered lease interval'')
      else if 5 * minute < time_Sub (clr_LeaseUntil request) (clr_ClaimedAt request)
      then Some (ErrorsNew ''claim lease cannot exceed five minutes'')
      else None)"

record TicketClaim =
  tc_Ticket :: Ticket
  tc_Token :: string
  tc_Attempt :: int
  tc_LeaseUntil :: time

definition TicketClaim_Validate :: "TicketClaim \<Rightarrow> error" where
  "TicketClaim_Validate claim =
     (if tc_Token claim = '''' \<or> tc_Attempt claim \<le> 0 \<or> IsZero (tc_LeaseUntil claim)
      then Some (ErrorsNew ''ticket claim identity, attempt and lease are required'')
      else if tk_ID (tc_Ticket claim) = '''' \<or> tk_Status (tc_Ticket claim) \<noteq> TicketQueued
      then Some (ErrorsNew ''ticket claim requires a queued ticket'')
      else None)"

definition ticketDue :: "string list \<Rightarrow> time \<Rightarrow> TicketRow \<Rightarrow> bool" where
  "ticketDue locked t r \<longleftrightarrow>
     tkr_status r = TicketQueued \<and> (case tkr_next_attempt_at r of None \<Rightarrow> False | Some n \<Rightarrow> n \<le> t) \<and>
     (case tkr_claimed_until r of None \<Rightarrow> True | Some u \<Rightarrow> u \<le> t) \<and> tkr_id r \<notin> set locked"

definition compareDueTickets :: "collation \<Rightarrow> TicketRow \<Rightarrow> TicketRow \<Rightarrow> int" where
  "compareDueTickets collate a b =
     (let byAttempt = time_Compare (the (tkr_next_attempt_at a)) (the (tkr_next_attempt_at b));
          byRequest = time_Compare (tk_RequestedAt (tkr_ticket a)) (tk_RequestedAt (tkr_ticket b)) in
      if byAttempt \<noteq> 0 then byAttempt else if byRequest \<noteq> 0 then byRequest else collate (tkr_id a) (tkr_id b))"

definition dueTickets :: "collation \<Rightarrow> string list \<Rightarrow> ClaimRequest \<Rightarrow> TicketRow list \<Rightarrow> TicketRow list" where
  "dueTickets collate locked request rows =
     take (nat (clr_Limit request)) (sort_cmp (compareDueTickets collate) (filter (ticketDue locked (pgTime (clr_ClaimedAt request))) rows))"

definition claimTicket :: "ClaimRequest \<Rightarrow> TicketRow \<Rightarrow> TicketRow" where
  "claimTicket request r = r\<lparr>tkr_claim_token := Some (clr_Token request), tkr_claimed_until := Some (pgTime (clr_LeaseUntil request)),
     tkr_attempt_count := tkr_attempt_count r + 1\<rparr>"

definition claimTicketsStatement :: "collation \<Rightarrow> string list \<Rightarrow> ClaimRequest \<Rightarrow> Database \<Rightarrow> (TicketRow list \<times> Database) result" where
  "claimTicketsStatement collate locked request db =
     (let due = dueTickets collate locked request (db_tickets db) in
      if list_ex (\<lambda>r. 2 ^ 63 - 1 < tkr_attempt_count r + 1) due then Inl numericOutOfRange
      else rbind (updateRows (\<lambda>r. tkr_id r \<in> set (map tkr_id due)) (claimTicket request) ticketChecks (db_tickets db)) (\<lambda>(rows, n).
        Inr (map (claimTicket request) due, db\<lparr>db_tickets := rows\<rparr>)))"

definition ClaimMatchmakingTickets ::
    "collation \<Rightarrow> string list \<Rightarrow> Faults \<Rightarrow> Database \<Rightarrow> ClaimRequest \<Rightarrow> TicketClaim list result \<times> Database" where
  "ClaimMatchmakingTickets collate locked flt db request =
     (case ClaimRequest_Validate request of
        Some e \<Rightarrow> (Inl e, db)
      | None \<Rightarrow> (case autoCommit flt ''claim queued tickets'' db (claimTicketsStatement collate locked request db) of
          (Inl err, db1) \<Rightarrow> (Inl (Errorf ''claim queued tickets: %w'' [] (Some err)), db1)
        | (Inr rows, db1) \<Rightarrow>
            (rbind (wrapR ''scan claimed ticket: %w'' [] (stmt flt ''scan claimed ticket'' (Inr ()))) (\<lambda>_.
             rbind (mapR (\<lambda>row. let stored = scanStoredTicket row;
                       claim = \<lparr>tc_Ticket = st_ticket stored, tc_Token = clr_Token request, tc_Attempt = st_attemptCount stored, tc_LeaseUntil = clr_LeaseUntil request\<rparr> in
                     (case TicketClaim_Validate claim of Some e \<Rightarrow> Inl (Errorf ''validate claimed ticket: %w'' [] (Some e)) | None \<Rightarrow> Inr claim)) rows) (\<lambda>claims.
             wrapR ''read claimed tickets: %w'' [] (stmt flt ''read claimed tickets'' (Inr claims)))), db1)))"

definition holdsTicketLease :: "time \<Rightarrow> string \<Rightarrow> string \<Rightarrow> TicketRow \<Rightarrow> bool" where
  "holdsTicketLease clock ticketID claimToken r \<longleftrightarrow>
     tkr_id r = ticketID \<and> tkr_status r = TicketQueued \<and> tkr_claim_token r = Some claimToken \<and>
     (case tkr_claimed_until r of None \<Rightarrow> False | Some u \<Rightarrow> clock < u)"

definition ScheduleTicketRetry :: "time \<Rightarrow> Faults \<Rightarrow> Database \<Rightarrow> string \<Rightarrow> string \<Rightarrow> time \<Rightarrow> error \<times> Database" where
  "ScheduleTicketRetry clock flt db ticketID claimToken retryAt =
     (if ticketID = '''' \<or> claimToken = '''' \<or> IsZero retryAt then (Some (ErrorsNew ''ticket, claim and retry time are required''), db)
      else case autoCommit flt ''schedule ticket retry'' db
        (rbind (updateRows (holdsTicketLease clock ticketID claimToken)
            (\<lambda>r. r\<lparr>tkr_next_attempt_at := Some (pgTime retryAt), tkr_claim_token := None, tkr_claimed_until := None\<rparr>) ticketChecks (db_tickets db))
          (\<lambda>(rows, n). Inr (n, db\<lparr>db_tickets := rows\<rparr>))) of
          (Inl err, db1) \<Rightarrow> (Some (Errorf ''schedule ticket retry: %w'' [] (Some err)), db1)
        | (Inr affected, db1) \<Rightarrow> (if affected \<noteq> 1 then Some ErrTicketClaimLost else None, db1))"

section \<open>Stored policies\<close>

record matchingPolicyDefinition =
  mpd_InitialSkillGap :: f64
  mpd_MaxSkillGap :: f64
  mpd_MaxWinProbabilitySpread :: f64
  mpd_ExpansionIntervalMS :: int
  mpd_FillTimeoutMS :: int
  mpd_AgePriorityAfterMS :: int
  mpd_CandidateLimit :: int
  mpd_RoomLimit :: int
  mpd_PreferNearlyFull :: bool

definition millisecondsAllowZero :: "int \<Rightarrow> duration result" where
  "millisecondsAllowZero value =
     (if value < 0 \<or> (2 ^ 63 - 1) sdiv millisecond < value then Inl (ErrorsNew ''duration is outside the supported range'')
      else Inr (wrap64 (value * millisecond)))"

definition milliseconds :: "int \<Rightarrow> duration result" where
  "milliseconds value = (if value \<le> 0 then Inl (ErrorsNew ''duration must be positive'') else millisecondsAllowZero value)"

definition decodeMatchingPolicy :: "(string \<Rightarrow> matchingPolicyDefinition result) \<Rightarrow> string \<Rightarrow> string \<Rightarrow> string \<Rightarrow> Policy result" where
  "decodeMatchingPolicy unmarshal version ratingModelVersion encoded =
     rbind (wrapR ''decode matching policy %q: %w'' [ArgS version] (unmarshal encoded)) (\<lambda>definition.
     rbind (wrapR ''matching policy %q expansion interval: %w'' [ArgS version] (milliseconds (mpd_ExpansionIntervalMS definition))) (\<lambda>expansion.
     rbind (wrapR ''matching policy %q fill timeout: %w'' [ArgS version] (milliseconds (mpd_FillTimeoutMS definition))) (\<lambda>fillTimeout.
     rbind (wrapR ''matching policy %q age priority: %w'' [ArgS version] (millisecondsAllowZero (mpd_AgePriorityAfterMS definition))) (\<lambda>agePriority.
     let policy = \<lparr>pol_Version = version, pol_RatingModelVersion = ratingModelVersion, pol_InitialSkillGap = mpd_InitialSkillGap definition,
           pol_MaxSkillGap = mpd_MaxSkillGap definition, pol_MaxWinProbabilitySpread = mpd_MaxWinProbabilitySpread definition,
           pol_ExpansionInterval = expansion, pol_FillTimeout = fillTimeout, pol_AgePriorityAfter = agePriority,
           pol_CandidateLimit = mpd_CandidateLimit definition, pol_RoomLimit = mpd_RoomLimit definition,
           pol_PreferNearlyFull = mpd_PreferNearlyFull definition\<rparr> in
     guardE (wrapE ''validate matching policy %q: %w'' [ArgS version] (Policy_Validate policy)) (Inr policy)))))"

section \<open>The view of an attempt\<close>

definition candidateFromTicket :: "Ticket \<Rightarrow> Candidate" where
  "candidateFromTicket ticket =
     \<lparr>cand_TicketID = tk_ID ticket, cand_PlayerID = tk_PlayerID ticket, cand_JoinedAt = tk_RequestedAt ticket,
      cand_SnapshotAt = tk_SnapshotAt ticket, cand_Rating = tk_RatingSnapshot ticket\<rparr>"

definition compatibleRoom :: "Ticket \<Rightarrow> string \<Rightarrow> int \<Rightarrow> Policy \<Rightarrow> time \<Rightarrow> RoomRow \<Rightarrow> bool" where
  "compatibleRoom ticket modeID capacity policy evaluatedAt r \<longleftrightarrow>
     rmr_tournament_id r = tk_TournamentID ticket \<and> rmr_tournament_version r = tk_TournamentVersion ticket \<and> rmr_mode_id r = modeID \<and>
     rmr_capacity r = capacity \<and> rmr_policy_version r = pol_Version policy \<and> rmr_rating_model_version r = pol_RatingModelVersion policy \<and>
     rmr_status r = RoomForming \<and> pgTime evaluatedAt \<le> rmr_fill_deadline r"

definition compareRoomRows :: "collation \<Rightarrow> RoomRow \<Rightarrow> RoomRow \<Rightarrow> int" where
  "compareRoomRows collate a b =
     (if time_Compare (rmr_created_at a) (rmr_created_at b) \<noteq> 0 then time_Compare (rmr_created_at a) (rmr_created_at b)
      else collate (rmr_room_id a) (rmr_room_id b))"

definition roomViewOf :: "string \<Rightarrow> int \<Rightarrow> Policy \<Rightarrow> RoomRow \<Rightarrow> RoomView" where
  "roomViewOf modeID capacity policy r =
     \<lparr>rv_RoomID = rmr_room_id r, rv_ModeID = modeID, rv_AggregateVersion = rmr_aggregate_version r, rv_Capacity = capacity,
      rv_CreatedAt = rmr_created_at r, rv_Deadline = rmr_fill_deadline r, rv_Policy = policy, rv_Members = []\<rparr>"

definition memberRows :: "collation \<Rightarrow> Database \<Rightarrow> string list \<Rightarrow> (MembershipRow \<times> TicketRow) list" where
  "memberRows collate db roomIDs =
     sort_cmp (\<lambda>(a, _) (b, _). if collate (mb_room_id a) (mb_room_id b) \<noteq> 0 then collate (mb_room_id a) (mb_room_id b) else sgn (mb_seat a - mb_seat b))
       (filter (\<lambda>(m, t). tkr_id t = mb_ticket_id m \<and> mb_room_id m \<in> set roomIDs) (List.product (db_memberships db) (db_tickets db)))"

text \<open>Appending the members to the room views, in the order the rows arrive.\<close>

fun attachMembers :: "(MembershipRow \<times> TicketRow) list \<Rightarrow> RoomView list \<Rightarrow> RoomView list result" where
  "attachMembers [] rooms = Inr rooms"
| "attachMembers ((m, t) # ms) rooms =
     (if \<not> list_ex (\<lambda>room. rv_RoomID room = mb_room_id m) rooms then Inl (ErrorsNew ''room member references an unclaimed room view'')
      else attachMembers ms (map (\<lambda>room. if rv_RoomID room = mb_room_id m
             then room\<lparr>rv_Members := rv_Members room @ [candidateFromTicket (tkr_ticket t)]\<rparr> else room) rooms))"

definition loadCompatibleRooms ::
    "collation \<Rightarrow> Faults \<Rightarrow> Database \<Rightarrow> Ticket \<Rightarrow> string \<Rightarrow> int \<Rightarrow> Policy \<Rightarrow> time \<Rightarrow> RoomView list result" where
  "loadCompatibleRooms collate flt db ticket modeID capacity policy evaluatedAt =
     rbind (wrapR ''load compatible rooms: %w'' [] (stmt flt ''load compatible rooms'' (Inr (take (nat (pol_RoomLimit policy))
       (sort_cmp (compareRoomRows collate) (filter (compatibleRoom ticket modeID capacity policy evaluatedAt) (db_rooms db))))))) (\<lambda>rows.
     rbind (wrapR ''scan compatible room: %w'' [] (stmt flt ''scan compatible room'' (Inr ()))) (\<lambda>_.
     rbind (wrapR ''read compatible rooms: %w'' [] (stmt flt ''read compatible rooms'' (Inr ()))) (\<lambda>_.
     let rooms = map (roomViewOf modeID capacity policy) rows; roomIDs = map rmr_room_id rows in
     if roomIDs = [] then Inr rooms
     else rbind (wrapR ''load room members: %w'' [] (stmt flt ''load room members'' (Inr (memberRows collate db roomIDs)))) (\<lambda>members.
       rbind (wrapR ''scan room member: %w'' [] (stmt flt ''scan room member'' (Inr ()))) (\<lambda>_.
       rbind (attachMembers members rooms) (\<lambda>views.
       wrapR ''read room members: %w'' [] (stmt flt ''read room members'' (Inr views))))))))"

definition LoadMatchAttempt ::
    "collation \<Rightarrow> (string \<Rightarrow> matchingPolicyDefinition result) \<Rightarrow> Faults \<Rightarrow> Database \<Rightarrow> TicketClaim \<Rightarrow> time \<Rightarrow> MatchAttempt result" where
  "LoadMatchAttempt collate unmarshal flt db claim evaluatedAt =
     guardE (TicketClaim_Validate claim)
     (if IsZero evaluatedAt then Inl (ErrorsNew ''match evaluation time is required'')
      else rbind (mapErr (\<lambda>err. if errors_Is err ErrNoRows then ErrorsNew ''ticket tournament configuration is unavailable''
                                else Errorf ''load ticket matching policy: %w'' [] (Some err))
          (stmt flt ''load ticket matching policy'' (queryRow (filter (\<lambda>(config, policy). po_policy_version policy = cf_policy_version config \<and>
             po_rating_model_version policy = cf_rating_model_version config \<and> cf_tournament_id config = tk_TournamentID (tc_Ticket claim) \<and>
             cf_version config = tk_TournamentVersion (tc_Ticket claim)) (List.product (db_configs db) (db_policies db)))))) (\<lambda>(config, policyRow).
      if po_rating_model_version policyRow \<noteq> est_ModelVersion (tk_RatingSnapshot (tc_Ticket claim))
      then Inl (ErrorsNew ''ticket rating model does not match tournament policy'')
      else rbind (decodeMatchingPolicy unmarshal (po_policy_version policyRow) (po_rating_model_version policyRow) (po_definition policyRow)) (\<lambda>policy.
      rbind (loadCompatibleRooms collate flt db (tc_Ticket claim) (cf_mode_id config) (cf_capacity config) policy evaluatedAt) (\<lambda>rooms.
      Inr \<lparr>ma_Trigger = AttemptTriggerPeriodicRetry, ma_EvaluatedAt = evaluatedAt, ma_Candidate = candidateFromTicket (tc_Ticket claim),
           ma_Policy = policy, ma_Rooms = rooms\<rparr>))))"

end
