(* ===== verification/Shadow_Queue.thy ===== *)
theory Shadow_Queue
  imports Rating_Queue Rating_Extended Rating_Calibration Matchmaking_Queue
begin

text \<open>
  \<^verbatim>\<open>internal/postgres/rating_shadow_queue.go\<close> with the claims of \<^verbatim>\<open>internal/worker/rating_shadow.go\<close>: a candidate rating model is
  evaluated beside the active one on a timeline of filled rooms and verified results. \<open>Exp\<close> and \<open>Log\<close> are \<^verbatim>\<open>math.Exp\<close> and \<^verbatim>\<open>math.Log\<close>,
  \<open>decode\<close> is the decoding of a deployed definition from its JSON, \<open>clock\<close> the database clock. A column that holds the JSON of
  a value the queue wrote itself holds that value; its encoding and decoding are statements that may fail. The lemmas show what a
  processed item of work has changed, that predictions use no rating from after the room was filled, and that the shadow ratings of a player
  form one chain.
\<close>

section \<open>Tables\<close>

record DeploymentRow =
  dp_candidate_version :: string
  dp_baseline_version :: string
  dp_mode_id :: string
  dp_scoring_rules_version :: string
  dp_deck_version :: string
  dp_training_cutoff :: time
  dp_trained_through :: time
  dp_definition :: string
  dp_activated_at :: time
  dp_ended_at :: "time option"

record PredictionRow =
  pd_room_id :: string
  pd_candidate_version :: string
  pd_baseline_version :: string
  pd_segment_id :: string
  pd_generated_at :: time
  pd_baseline_prediction :: RoomPrediction
  pd_candidate_prediction :: RoomPrediction

record ShadowStateRow =
  ss_player_id :: string
  ss_mode_id :: string
  ss_estimate :: Estimate
  ss_revision :: int
  ss_feature_profile :: FeatureProfile

abbreviation "ss_candidate_version r \<equiv> est_ModelVersion (ss_estimate r)"

record ShadowUpdateRow =
  su_player_id :: string
  su_mode_id :: string
  su_source_event_id :: string
  su_candidate_version :: string
  su_before :: Estimate
  su_after :: Estimate
  su_feature_profile :: FeatureProfile
  su_processed_at :: time

record ObservationRow =
  so_source_event_id :: string
  so_room_id :: string
  so_candidate_version :: string
  so_baseline_version :: string
  so_segment_id :: string
  so_result_available_at :: time
  so_baseline_brier :: f64
  so_baseline_log_loss :: f64
  so_candidate_brier :: f64
  so_candidate_log_loss :: f64
  so_evaluated_at :: time

text \<open>
  The store with the shadow tables. The columns \<^verbatim>\<open>rooms.deck_version\<close> and \<^verbatim>\<open>entry_fee_minor\<close>, \<^verbatim>\<open>currency\<close> of
  \<^verbatim>\<open>tournament_configs\<close>, which only this queue reads, are functions of the keys of their tables.
\<close>

record ShadowStore =
  sh_db :: Database
  sh_deck_version :: "string \<Rightarrow> string option"
  sh_price :: "string \<Rightarrow> string \<Rightarrow> int \<times> string"
  sh_deployments :: "DeploymentRow list"
  sh_predictions :: "PredictionRow list"
  sh_states :: "ShadowStateRow list"
  sh_updates :: "ShadowUpdateRow list"
  sh_observations :: "ObservationRow list"

definition shadowWorkChecks :: "ShadowWorkRow \<Rightarrow> bool" where
  "shadowWorkChecks w \<longleftrightarrow>
     (sw_work_kind w = ''room'' \<and> sw_ordering_priority w = 0 \<or> sw_work_kind w = ''result'' \<and> sw_ordering_priority w = 1) \<and>
     sw_source_id w \<noteq> '''' \<and> 0 \<le> sw_attempt_count w \<and>
     (sw_claim_token w = None \<and> sw_claimed_until w = None \<or> sw_claim_token w \<noteq> None \<and> sw_claim_token w \<noteq> Some '''' \<and> sw_claimed_until w \<noteq> None) \<and>
     (sw_processed_at w = None \<and> sw_skip_reason w = None \<or> sw_processed_at w \<noteq> None \<and> sw_claim_token w = None \<and> sw_claimed_until w = None) \<and>
     (case sw_processed_at w of None \<Rightarrow> True | Some t \<Rightarrow> sw_timeline_position w \<le> t)"

definition shadowStateChecks :: "ShadowStateRow \<Rightarrow> bool" where
  "shadowStateChecks r \<longleftrightarrow> ss_player_id r \<noteq> '''' \<and> ss_mode_id r \<noteq> '''' \<and> estimateChecks (ss_estimate r) \<and> 0 \<le> ss_revision r"

definition metric :: "f64 \<Rightarrow> bool" where "metric x \<longleftrightarrow> 0 \<le> x \<and> f64_finite x"

definition observationChecks :: "ObservationRow \<Rightarrow> bool" where
  "observationChecks r \<longleftrightarrow> so_segment_id r \<noteq> '''' \<and> metric (so_baseline_brier r) \<and> metric (so_baseline_log_loss r) \<and>
     metric (so_candidate_brier r) \<and> metric (so_candidate_log_loss r) \<and> so_result_available_at r \<le> so_evaluated_at r"

section \<open>Claims\<close>

definition ErrRatingShadowClaimLost :: goerr where "ErrRatingShadowClaimLost = ErrorsNew ''rating shadow claim is no longer active''"

record RatingShadowClaim =
  rsc_Kind :: string
  rsc_SourceID :: string
  rsc_Token :: string
  rsc_Attempt :: int
  rsc_LeaseUntil :: time

definition RatingShadowClaim_Validate :: "RatingShadowClaim \<Rightarrow> error" where
  "RatingShadowClaim_Validate claim =
     (if rsc_Kind claim \<noteq> ''room'' \<and> rsc_Kind claim \<noteq> ''result'' \<or> rsc_SourceID claim = '''' \<or> rsc_Token claim = '''' \<or>
         rsc_Attempt claim \<le> 0 \<or> IsZero (rsc_LeaseUntil claim)
      then Some (ErrorsNew ''rating shadow claim is incomplete'') else None)"

definition compareShadowWork :: "collation \<Rightarrow> ShadowWorkRow \<Rightarrow> ShadowWorkRow \<Rightarrow> int" where
  "compareShadowWork collate a b =
     (if time_Compare (sw_timeline_position a) (sw_timeline_position b) \<noteq> 0 then time_Compare (sw_timeline_position a) (sw_timeline_position b)
      else if sw_ordering_priority a \<noteq> sw_ordering_priority b then sw_ordering_priority a - sw_ordering_priority b
      else collate (sw_source_id a) (sw_source_id b))"

definition shadowHead :: "collation \<Rightarrow> ShadowStore \<Rightarrow> ShadowWorkRow result" where
  "shadowHead collate s =
     queryRow (sort_cmp (compareShadowWork collate) (filter (\<lambda>w. sw_processed_at w = None) (db_shadow_work (sh_db s))))"

definition isWork :: "string \<Rightarrow> string \<Rightarrow> ShadowWorkRow \<Rightarrow> bool" where
  "isWork kind sourceID w \<longleftrightarrow> sw_work_kind w = kind \<and> sw_source_id w = sourceID"

definition updateWork :: "ShadowStore \<Rightarrow> (ShadowWorkRow \<Rightarrow> bool) \<Rightarrow> (ShadowWorkRow \<Rightarrow> ShadowWorkRow) \<Rightarrow> (nat \<times> ShadowStore) result" where
  "updateWork s hit change =
     rbind (updateRows hit change shadowWorkChecks (db_shadow_work (sh_db s))) (\<lambda>(rows, n). Inr (n, s\<lparr>sh_db := (sh_db s)\<lparr>db_shadow_work := rows\<rparr>\<rparr>))"

definition claimWorkStatement :: "RatingClaimRequest \<Rightarrow> ShadowStore \<Rightarrow> string \<Rightarrow> string \<Rightarrow> (RatingShadowClaim \<times> ShadowStore) result" where
  "claimWorkStatement request s kind sourceID =
     rbind (queryRow (filter (isWork kind sourceID) (db_shadow_work (sh_db s)))) (\<lambda>w.
     if 2 ^ 31 - 1 < sw_attempt_count w + 1 then Inl numericOutOfRange
     else rbind (updateWork s (isWork kind sourceID) (\<lambda>w. w\<lparr>sw_claim_token := Some (rcr_Token request),
              sw_claimed_until := Some (pgTime (rcr_LeaseUntil request)), sw_attempt_count := sw_attempt_count w + 1\<rparr>)) (\<lambda>(n, s1).
       Inr (\<lparr>rsc_Kind = kind, rsc_SourceID = sourceID, rsc_Token = rcr_Token request, rsc_Attempt = sw_attempt_count w + 1,
              rsc_LeaseUntil = pgTime (rcr_LeaseUntil request)\<rparr>, s1)))"

definition ClaimNextRatingShadowWork ::
    "collation \<Rightarrow> Faults \<Rightarrow> ShadowStore \<Rightarrow> RatingClaimRequest \<Rightarrow> RatingShadowClaim option result \<times> ShadowStore" where
  "ClaimNextRatingShadowWork collate flt s request =
     (case RatingClaimRequest_Validate request of
        Some e \<Rightarrow> (Inl e, s)
      | None \<Rightarrow>
        tryTx s (wrapR ''begin rating shadow claim: %w'' [] (stmt flt ''begin'' (Inr ()))) (\<lambda>_.
        case stmt flt ''lock head'' (shadowHead collate s) of
          Inl err \<Rightarrow> if errors_Is err ErrNoRows then commitTx flt (\<lambda>e. Errorf ''commit empty rating shadow claim: %w'' [] (Some e)) None s s
                     else (Inl (Errorf ''lock rating shadow queue head: %w'' [] (Some err)), s)
        | Inr w \<Rightarrow>
            if After (sw_next_attempt_at w) (rcr_ClaimedAt request) \<or>
               (case sw_claimed_until w of None \<Rightarrow> False | Some u \<Rightarrow> After u (rcr_ClaimedAt request))
            then commitTx flt (\<lambda>e. Errorf ''commit blocked rating shadow claim: %w'' [] (Some e)) None s s
            else tryTx s (wrapR ''claim rating shadow work: %w'' [] (stmt flt ''claim work''
                (claimWorkStatement request s (sw_work_kind w) (sw_source_id w)))) (\<lambda>(claim, s1).
              case RatingShadowClaim_Validate claim of
                Some e \<Rightarrow> (Inl (Errorf ''validate rating shadow claim: %w'' [] (Some e)), s)
              | None \<Rightarrow> commitTx flt (\<lambda>e. Errorf ''commit rating shadow claim: %w'' [] (Some e)) (Some claim) s s1)))"

definition holdsShadowLease :: "time \<Rightarrow> RatingShadowClaim \<Rightarrow> ShadowWorkRow \<Rightarrow> bool" where
  "holdsShadowLease clock claim w \<longleftrightarrow>
     isWork (rsc_Kind claim) (rsc_SourceID claim) w \<and> sw_processed_at w = None \<and> sw_claim_token w = Some (rsc_Token claim) \<and>
     (case sw_claimed_until w of None \<Rightarrow> False | Some u \<Rightarrow> clock < u)"

definition ScheduleRatingShadowRetry :: "time \<Rightarrow> Faults \<Rightarrow> ShadowStore \<Rightarrow> RatingShadowClaim \<Rightarrow> time \<Rightarrow> error \<times> ShadowStore" where
  "ScheduleRatingShadowRetry clock flt s claim retryAt =
     (case RatingShadowClaim_Validate claim of
        Some e \<Rightarrow> (Some e, s)
      | None \<Rightarrow>
        if IsZero retryAt then (Some (ErrorsNew ''rating shadow retry time is required''), s)
        else case autoCommit flt ''schedule shadow retry'' s (updateWork s (holdsShadowLease clock claim)
            (\<lambda>w. w\<lparr>sw_next_attempt_at := pgTime retryAt, sw_claim_token := None, sw_claimed_until := None\<rparr>)) of
          (Inl err, s1) \<Rightarrow> (Some (Errorf ''schedule rating shadow retry: %w'' [] (Some err)), s1)
        | (Inr affected, s1) \<Rightarrow> (if affected \<noteq> 1 then Some ErrRatingShadowClaimLost else None, s1))"

definition lockRatingShadowClaim :: "time \<Rightarrow> Faults \<Rightarrow> ShadowStore \<Rightarrow> RatingShadowClaim \<Rightarrow> error" where
  "lockRatingShadowClaim clock flt s claim =
     (case stmt flt ''lock work'' (queryRow (filter (holdsShadowLease clock claim) (db_shadow_work (sh_db s)))) of
        Inl err \<Rightarrow> if errors_Is err ErrNoRows then Some ErrRatingShadowClaimLost else Some (Errorf ''lock claimed rating shadow work: %w'' [] (Some err))
      | Inr w \<Rightarrow> None)"

section \<open>Deployments\<close>

record shadowDeployment =
  sd_candidateVersion :: string
  sd_baselineVersion :: string
  sd_trainingCutoff :: time
  sd_trainedThrough :: time
  sd_candidate :: ExtendedConfig

definition validateShadowDeployment :: "shadowDeployment \<Rightarrow> string \<Rightarrow> string \<Rightarrow> string \<Rightarrow> error" where
  "validateShadowDeployment deployment modeID rulesVersion deckVersion =
     (let config = sd_candidate deployment in
      if bc_Version (xc_Baseline config) \<noteq> sd_candidateVersion deployment \<or> xc_TrainedThrough config \<noteq> sd_trainedThrough deployment \<or>
         fs_ModeID (xc_FeatureSchema config) \<noteq> modeID \<or> fs_ScoringRulesVersion (xc_FeatureSchema config) \<noteq> rulesVersion \<or>
         fs_DeckVersion (xc_FeatureSchema config) \<noteq> deckVersion
      then Some (Errorf ''rating shadow deployment %q definition does not match its immutable metadata'' [ArgS (sd_candidateVersion deployment)] None)
      else None)"

definition scanDeployment :: "(string \<Rightarrow> ExtendedConfig result) \<Rightarrow> DeploymentRow \<Rightarrow> shadowDeployment result" where
  "scanDeployment decode row =
     rbind (wrapR ''decode rating shadow deployment %q: %w'' [ArgS (dp_candidate_version row)] (decode (dp_definition row))) (\<lambda>config.
     Inr \<lparr>sd_candidateVersion = dp_candidate_version row, sd_baselineVersion = dp_baseline_version row,
          sd_trainingCutoff = dp_training_cutoff row, sd_trainedThrough = dp_trained_through row, sd_candidate = config\<rparr>)"

definition activeDeployments :: "ShadowStore \<Rightarrow> string \<Rightarrow> string \<Rightarrow> string \<Rightarrow> string \<Rightarrow> time \<Rightarrow> DeploymentRow list" where
  "activeDeployments s modeID rulesVersion deckVersion baselineVersion t =
     sort_cmp (\<lambda>a b. time_Compare (dp_activated_at b) (dp_activated_at a))
       (filter (\<lambda>d. dp_mode_id d = modeID \<and> dp_scoring_rules_version d = rulesVersion \<and> dp_deck_version d = deckVersion \<and>
           dp_baseline_version d = baselineVersion \<and> dp_activated_at d \<le> t \<and> (case dp_ended_at d of None \<Rightarrow> True | Some e \<Rightarrow> t < e)) (sh_deployments s))"

definition loadShadowDeployment ::
    "(string \<Rightarrow> ExtendedConfig result) \<Rightarrow> Faults \<Rightarrow> ShadowStore \<Rightarrow> string \<Rightarrow> string \<Rightarrow> string \<Rightarrow> time \<Rightarrow> string \<Rightarrow> shadowDeployment result" where
  "loadShadowDeployment decode flt s modeID rulesVersion deckVersion t baselineVersion =
     rbind (stmt flt ''load deployment'' (queryRow (activeDeployments s modeID rulesVersion deckVersion baselineVersion t))) (\<lambda>row.
     rbind (scanDeployment decode row) (\<lambda>deployment.
     guardE (validateShadowDeployment deployment modeID rulesVersion deckVersion) (Inr deployment)))"

definition loadShadowDeploymentByVersion :: "(string \<Rightarrow> ExtendedConfig result) \<Rightarrow> Faults \<Rightarrow> ShadowStore \<Rightarrow> string \<Rightarrow> shadowDeployment result" where
  "loadShadowDeploymentByVersion decode flt s candidateVersion =
     rbind (wrapR ''load rating shadow deployment %q: %w'' [ArgS candidateVersion] (stmt flt ''load deployment''
       (queryRow (filter (\<lambda>d. dp_candidate_version d = candidateVersion) (sh_deployments s))))) (\<lambda>row.
     rbind (scanDeployment decode row) (\<lambda>deployment.
     guardE (validateShadowDeployment deployment (dp_mode_id row) (dp_scoring_rules_version row) (dp_deck_version row)) (Inr deployment)))"

section \<open>Candidate states\<close>

definition stateKey :: "string \<Rightarrow> string \<Rightarrow> string \<Rightarrow> ShadowStateRow \<Rightarrow> bool" where
  "stateKey playerID modeID candidateVersion r \<longleftrightarrow>
     ss_player_id r = playerID \<and> ss_mode_id r = modeID \<and> ss_candidate_version r = candidateVersion"

text \<open>One iteration over the players, whose order is that of the Go map: a stored state, or the initial estimate of the model.\<close>

definition loadShadowState ::
    "Faults \<Rightarrow> ShadowStore \<Rightarrow> Extended \<Rightarrow> shadowDeployment \<Rightarrow> string \<Rightarrow> time \<Rightarrow> string \<Rightarrow> (Estimate \<times> FeatureProfile option) result" where
  "loadShadowState flt s model deployment modeID t playerID =
     (case stmt flt ''load state'' (queryRow (filter (stateKey playerID modeID (sd_candidateVersion deployment)) (sh_states s))) of
        Inr row \<Rightarrow>
          if After (est_UpdatedAt (ss_estimate row)) t
          then Inl (Errorf ''rating shadow state for player %q is newer than timeline position'' [ArgS playerID] None)
          else rbind (wrapR ''decode rating shadow profile for player %q: %w'' [ArgS playerID] (stmt flt ''decode profile'' (Inr (ss_feature_profile row)))) (\<lambda>profile.
            Inr (ss_estimate row, Some profile))
      | Inl err \<Rightarrow>
          if errors_Is err ErrNoRows then rbind (Extended_InitialEstimate model (sd_trainedThrough deployment)) (\<lambda>initial. Inr (initial, None))
          else Inl (Errorf ''load rating shadow state for player %q: %w'' [ArgS playerID] (Some err)))"

definition loadShadowStates ::
    "Faults \<Rightarrow> ShadowStore \<Rightarrow> Extended \<Rightarrow> shadowDeployment \<Rightarrow> string \<Rightarrow> string list \<Rightarrow> time
       \<Rightarrow> ((string \<times> Estimate) list \<times> (string \<rightharpoonup> FeatureProfile)) result" where
  "loadShadowStates flt s model deployment modeID players t =
     rbind (mapR (\<lambda>playerID. rbind (loadShadowState flt s model deployment modeID t playerID) (\<lambda>x. Inr (playerID, x))) players) (\<lambda>rows.
     Inr (map (\<lambda>(playerID, estimate, _). (playerID, estimate)) rows,
          (\<lambda>playerID. case map_of rows playerID of None \<Rightarrow> None | Some (_, profile) \<Rightarrow> profile)))"

definition newStateRow :: "string \<Rightarrow> RatingUpdate \<Rightarrow> FeatureProfile \<Rightarrow> ShadowStateRow" where
  "newStateRow modeID update profile =
     \<lparr>ss_player_id = ru_PlayerID update, ss_mode_id = modeID,
      ss_estimate = (pgEstimate (ru_After update))\<lparr>est_ModelVersion := ru_ModelVersion update\<rparr>, ss_revision = 1, ss_feature_profile = profile\<rparr>"

definition upsertState :: "ShadowStore \<Rightarrow> ShadowStateRow \<Rightarrow> ShadowStore result" where
  "upsertState s row =
     (let hit = stateKey (ss_player_id row) (ss_mode_id row) (ss_candidate_version row);
          change = (\<lambda>r. r\<lparr>ss_estimate := ss_estimate row, ss_revision := ss_revision r + 1, ss_feature_profile := ss_feature_profile row\<rparr>) in
      if \<not> shadowStateChecks row then Inl checkViolation
      else if list_ex hit (sh_states s)
      then if list_ex (\<lambda>r. hit r \<and> 2 ^ 63 - 1 < ss_revision r + 1) (sh_states s) then Inl numericOutOfRange
        else rbind (updateRows hit change shadowStateChecks (sh_states s)) (\<lambda>(rows, n). Inr (s\<lparr>sh_states := rows\<rparr>))
      else if \<not> list_ex (\<lambda>d. dp_candidate_version d = ss_candidate_version row) (sh_deployments s) then Inl foreignKeyViolation
      else Inr (s\<lparr>sh_states := sh_states s @ [row]\<rparr>))"

definition newShadowUpdate :: "string \<Rightarrow> RatingUpdate \<Rightarrow> FeatureProfile \<Rightarrow> ShadowUpdateRow" where
  "newShadowUpdate modeID update profile =
     \<lparr>su_player_id = ru_PlayerID update, su_mode_id = modeID, su_source_event_id = ru_SourceEventID update, su_candidate_version = ru_ModelVersion update,
      su_before = ru_Before update, su_after = ru_After update, su_feature_profile = profile, su_processed_at = pgTime (ru_ProcessedAt update)\<rparr>"

definition shadowUpdateClash :: "ShadowUpdateRow \<Rightarrow> ShadowUpdateRow \<Rightarrow> bool" where
  "shadowUpdateClash a b \<longleftrightarrow>
     su_player_id a = su_player_id b \<and> su_source_event_id a = su_source_event_id b \<and> su_candidate_version a = su_candidate_version b"

definition insertShadowUpdate :: "ShadowStore \<Rightarrow> ShadowUpdateRow \<Rightarrow> ShadowStore result" where
  "insertShadowUpdate s row =
     rbind (insertRow (\<lambda>_. True) shadowUpdateClash
       (\<lambda>u. list_ex (\<lambda>p. pt_event_id p = su_source_event_id u \<and> pt_player_id p = su_player_id u) (db_participants (sh_db s)) \<and>
            list_ex (\<lambda>v. vr_event_id v = su_source_event_id u) (db_results (sh_db s)) \<and>
            list_ex (\<lambda>d. dp_candidate_version d = su_candidate_version u) (sh_deployments s)) row (sh_updates s))
     (\<lambda>rows. Inr (s\<lparr>sh_updates := rows\<rparr>))"

definition persistShadowUpdate :: "Faults \<Rightarrow> ShadowStore \<Rightarrow> string \<Rightarrow> RatingUpdate \<Rightarrow> FeatureProfile \<Rightarrow> ShadowStore result" where
  "persistShadowUpdate flt s modeID update profile =
     rbind (stmt flt ''encode update'' (Inr ())) (\<lambda>_.
     rbind (wrapR ''persist rating shadow update for player %q: %w'' [ArgS (ru_PlayerID update)] (stmt flt ''insert update''
       (insertShadowUpdate s (newShadowUpdate modeID update profile)))) (\<lambda>s1.
     wrapR ''store current rating shadow state for player %q: %w'' [ArgS (ru_PlayerID update)] (stmt flt ''store state''
       (upsertState s1 (newStateRow modeID update profile)))))"

fun persistShadowLoop :: "Faults \<Rightarrow> string \<Rightarrow> (string \<times> FeatureProfile) list \<Rightarrow> RatingUpdate list \<Rightarrow> ShadowStore \<Rightarrow> ShadowStore result" where
  "persistShadowLoop flt modeID profiles [] s = Inr s"
| "persistShadowLoop flt modeID profiles (update # updates) s =
     (if \<not> bigint (est_Games (ru_After update))
      then Inl (Errorf ''rating shadow games for player %q exceed PostgreSQL bigint'' [ArgS (ru_PlayerID update)] None)
      else rbind (persistShadowUpdate flt s modeID update
            (case map_of profiles (ru_PlayerID update) of None \<Rightarrow> \<lparr>fp_SchemaVersion = '''', fp_Observations = []\<rparr> | Some p \<Rightarrow> p))
          (persistShadowLoop flt modeID profiles updates))"

section \<open>A filled room: both predictions\<close>

definition insertPrediction :: "ShadowStore \<Rightarrow> PredictionRow \<Rightarrow> ShadowStore result" where
  "insertPrediction s row =
     rbind (insertRow (\<lambda>p. pd_segment_id p \<noteq> '''') (\<lambda>a b. pd_room_id a = pd_room_id b)
       (\<lambda>p. list_ex (\<lambda>r. rmr_room_id r = pd_room_id p) (db_rooms (sh_db s)) \<and>
            list_ex (\<lambda>d. dp_candidate_version d = pd_candidate_version p) (sh_deployments s) \<and> pd_baseline_version p \<in> set (db_models (sh_db s)))
       row (sh_predictions s)) (\<lambda>rows. Inr (s\<lparr>sh_predictions := rows\<rparr>))"

definition roomParticipants :: "collation \<Rightarrow> Database \<Rightarrow> string \<Rightarrow> (string \<times> Estimate) list" where
  "roomParticipants collate db roomID =
     map (\<lambda>(m, t). (mb_player_id m, tk_RatingSnapshot (tkr_ticket t)))
       (sort_cmp (\<lambda>(a, _) (b, _). collate (mb_player_id a) (mb_player_id b))
         (filter (\<lambda>(m, t). tkr_id t = mb_ticket_id m \<and> mb_room_id m = roomID) (List.product (db_memberships db) (db_tickets db))))"

definition shadowRoomRow :: "ShadowStore \<Rightarrow> string \<Rightarrow> (RoomRow \<times> ConfigRow) list" where
  "shadowRoomRow s roomID =
     filter (\<lambda>(r, c). cf_tournament_id c = rmr_tournament_id r \<and> cf_version c = rmr_tournament_version r \<and> rmr_room_id r = roomID \<and> rmr_filled_at r \<noteq> None)
       (List.product (db_rooms (sh_db s)) (db_configs (sh_db s)))"

text \<open>The estimates keyed by player, the later row of a player replacing the earlier.\<close>

definition keyed :: "(string \<times> 'a) list \<Rightarrow> (string \<times> 'a) list" where
  "keyed rows = fold (\<lambda>(k, v) m. map_put k v m) rows []"

definition segmentOf :: "RoomRow \<Rightarrow> int \<times> string \<Rightarrow> string" where
  "segmentOf room price =
     rmr_mode_id room @ ''|'' @ rmr_scoring_rules_version room @ ''|'' @ formatInt (rmr_capacity room) @ ''|'' @ snd price @ ''|'' @ formatInt (fst price)"

definition predictShadowRoom ::
    "(f64 \<Rightarrow> f64) \<Rightarrow> collation \<Rightarrow> Faults \<Rightarrow> ShadowStore \<Rightarrow> RoomRow \<Rightarrow> time \<Rightarrow> shadowDeployment \<Rightarrow> Extended \<Rightarrow> (RoomPrediction \<times> RoomPrediction) result" where
  "predictShadowRoom Exp collate flt s room filledAt deployment model =
     rbind (wrapR ''load rating shadow room participants: %w'' [] (stmt flt ''load participants'' (Inr (roomParticipants collate (sh_db s) (rmr_room_id room))))) (\<lambda>rows.
     rbind (wrapR ''scan rating shadow room participant: %w'' [] (stmt flt ''scan participant'' (Inr ()))) (\<lambda>_.
     rbind (wrapR ''read rating shadow room participants: %w'' [] (stmt flt ''read participants'' (Inr ()))) (\<lambda>_.
     let baselineEstimates = keyed rows in
     if int (length baselineEstimates) \<noteq> rmr_capacity room then Inl (ErrorsNew ''rating shadow room is missing participants'')
     else rbind (NewBaseline (DefaultBaselineConfig (rmr_rating_model_version room))) (\<lambda>baselineModel.
       rbind (wrapR ''predict rating shadow baseline: %w'' [] (Baseline_Predict Exp baselineModel
         \<lparr>preq_RoomID = rmr_room_id room, preq_ModeID = rmr_mode_id room, preq_GeneratedAt = filledAt, preq_Estimates = baselineEstimates\<rparr>)) (\<lambda>baselinePrediction.
       rbind (loadShadowStates flt s model deployment (rmr_mode_id room) (map fst baselineEstimates) filledAt) (\<lambda>(candidateEstimates, profiles).
       rbind (wrapR ''predict extended rating candidate: %w'' [] (Extended_Predict Exp model
         \<lparr>preq_RoomID = rmr_room_id room, preq_ModeID = rmr_mode_id room, preq_GeneratedAt = filledAt, preq_Estimates = candidateEstimates\<rparr> profiles)) (\<lambda>candidatePrediction.
       Inr (baselinePrediction, candidatePrediction))))))))"

text \<open>The result of processing an item: the rows persisted, or the reason it was skipped, with the store of the transaction.\<close>

definition processShadowRoom ::
    "(f64 \<Rightarrow> f64) \<Rightarrow> (string \<Rightarrow> ExtendedConfig result) \<Rightarrow> collation \<Rightarrow> Faults \<Rightarrow> ShadowStore \<Rightarrow> string \<Rightarrow> (int \<times> string \<times> ShadowStore) result" where
  "processShadowRoom Exp decode collate flt s roomID =
     (case stmt flt ''load room'' (queryRow (shadowRoomRow s roomID)) of
        Inl err \<Rightarrow> if errors_Is err ErrNoRows then Inr (0, ''room_unavailable'', s) else Inl (Errorf ''load rating shadow room: %w'' [] (Some err))
      | Inr (room, config) \<Rightarrow>
          let deckVersion = (case sh_deck_version s roomID of None \<Rightarrow> '''' | Some v \<Rightarrow> v);
              filledAt = the (rmr_filled_at room) in
          if deckVersion = '''' then Inr (0, ''deck_version_unavailable'', s)
          else case loadShadowDeployment decode flt s (rmr_mode_id room) (rmr_scoring_rules_version room) deckVersion filledAt (rmr_rating_model_version room) of
              Inl err \<Rightarrow> if errors_Is err ErrNoRows then Inr (0, ''no_active_deployment'', s) else Inl err
            | Inr deployment \<Rightarrow>
                rbind (wrapR ''construct extended rating model %q: %w'' [ArgS (sd_candidateVersion deployment)] (NewExtended (sd_candidate deployment))) (\<lambda>model.
                rbind (predictShadowRoom Exp collate flt s room filledAt deployment model) (\<lambda>(baselinePrediction, candidatePrediction).
                rbind (stmt flt ''encode prediction'' (Inr ())) (\<lambda>_.
                rbind (wrapR ''persist rating shadow prediction: %w'' [] (stmt flt ''insert prediction'' (insertPrediction s
                  \<lparr>pd_room_id = roomID, pd_candidate_version = sd_candidateVersion deployment, pd_baseline_version = rmr_rating_model_version room,
                   pd_segment_id = segmentOf room (sh_price s (cf_tournament_id config) (cf_version config)), pd_generated_at = pgTime filledAt,
                   pd_baseline_prediction = baselinePrediction, pd_candidate_prediction = candidatePrediction\<rparr>))) (\<lambda>s1.
                Inr (1, '''', s1))))))"

section \<open>A verified result: the candidate learns and both predictions are scored\<close>

definition loadShadowResult :: "collation \<Rightarrow> Faults \<Rightarrow> ShadowStore \<Rightarrow> string \<Rightarrow> (MatchResult \<times> string) result" where
  "loadShadowResult collate flt s eventID =
     rbind (stmt flt ''load result'' (queryRow (filter (\<lambda>(v, r). rmr_room_id r = vr_room_id v \<and> vr_event_id v = eventID)
         (List.product (db_results (sh_db s)) (db_rooms (sh_db s)))))) (\<lambda>(v, r).
     rbind (wrapR ''load rating shadow result participants: %w'' [] (stmt flt ''load participants''
         (Inr (sort_cmp (\<lambda>a b. collate (pt_player_id a) (pt_player_id b)) (filter (\<lambda>p. pt_event_id p = eventID) (db_participants (sh_db s))))))) (\<lambda>rows.
     rbind (wrapR ''scan rating shadow result participant: %w'' [] (stmt flt ''scan participant'' (Inr ()))) (\<lambda>_.
     rbind (wrapR ''read rating shadow result participants: %w'' [] (stmt flt ''read participants'' (Inr ()))) (\<lambda>_.
     Inr (scanResult v rows,
          case sh_deck_version s (rmr_room_id r) of None \<Rightarrow> '''' | Some d \<Rightarrow> d)))))"

definition observationClash :: "ObservationRow \<Rightarrow> ObservationRow \<Rightarrow> bool" where
  "observationClash a b \<longleftrightarrow> so_candidate_version a = so_candidate_version b \<and> (so_source_event_id a = so_source_event_id b \<or> so_room_id a = so_room_id b)"

definition insertObservation :: "ShadowStore \<Rightarrow> ObservationRow \<Rightarrow> ShadowStore result" where
  "insertObservation s row =
     rbind (insertRow observationChecks observationClash
       (\<lambda>x. list_ex (\<lambda>v. vr_event_id v = so_source_event_id x) (db_results (sh_db s)) \<and> list_ex (\<lambda>r. rmr_room_id r = so_room_id x) (db_rooms (sh_db s)) \<and>
            list_ex (\<lambda>d. dp_candidate_version d = so_candidate_version x) (sh_deployments s) \<and> so_baseline_version x \<in> set (db_models (sh_db s)))
       row (sh_observations s)) (\<lambda>rows. Inr (s\<lparr>sh_observations := rows\<rparr>))"

definition scoreShadow :: "(f64 \<Rightarrow> f64) \<Rightarrow> shadowDeployment \<Rightarrow> MatchResult \<Rightarrow> RoomPrediction \<Rightarrow> HoldoutCalibrationReport result" where
  "scoreShadow Log deployment result prediction =
     EvaluateHoldoutCalibration Log [\<lparr>co_Prediction = prediction, co_Result = result\<rparr>]
       \<lparr>hc_TrainingCutoff = sd_trainingCutoff deployment, hc_ModelTrainedThrough = sd_trainedThrough deployment, hc_BinCount = 10\<rparr>"

text \<open>The scores of a result, after the candidate has been advanced.\<close>

definition observeShadow ::
    "(f64 \<Rightarrow> f64) \<Rightarrow> Faults \<Rightarrow> ShadowStore \<Rightarrow> time \<Rightarrow> MatchResult \<Rightarrow> shadowDeployment \<Rightarrow> PredictionRow \<Rightarrow> ShadowStore result" where
  "observeShadow Log flt s processedAt result deployment prediction =
     rbind (wrapR ''decode rating shadow baseline prediction: %w'' [] (stmt flt ''decode baseline'' (Inr (pd_baseline_prediction prediction)))) (\<lambda>baselinePrediction.
     rbind (wrapR ''decode rating shadow candidate prediction: %w'' [] (stmt flt ''decode candidate'' (Inr (pd_candidate_prediction prediction)))) (\<lambda>candidatePrediction.
     rbind (wrapR ''score rating shadow baseline: %w'' [] (scoreShadow Log deployment result baselinePrediction)) (\<lambda>baselineReport.
     rbind (wrapR ''score rating shadow candidate: %w'' [] (scoreShadow Log deployment result candidatePrediction)) (\<lambda>candidateReport.
     wrapR ''persist rating shadow observation: %w'' [] (stmt flt ''insert observation'' (insertObservation s
       \<lparr>so_source_event_id = mr_EventID result, so_room_id = mr_RoomID result, so_candidate_version = pd_candidate_version prediction,
        so_baseline_version = pd_baseline_version prediction, so_segment_id = pd_segment_id prediction, so_result_available_at = pgTime (mr_AvailableAt result),
        so_baseline_brier = cr_MulticlassBrierScore (hr_Calibration baselineReport), so_baseline_log_loss = cr_MeanLogLoss (hr_Calibration baselineReport),
        so_candidate_brier = cr_MulticlassBrierScore (hr_Calibration candidateReport), so_candidate_log_loss = cr_MeanLogLoss (hr_Calibration candidateReport),
        so_evaluated_at = pgTime processedAt\<rparr>))))))"

definition advanceCandidate ::
    "(f64 \<Rightarrow> f64) \<Rightarrow> Faults \<Rightarrow> ShadowStore \<Rightarrow> MatchResult \<Rightarrow> string \<Rightarrow> shadowDeployment \<Rightarrow> Extended \<Rightarrow> (RatingUpdate list \<times> ShadowStore) result" where
  "advanceCandidate Exp flt s result deckVersion deployment model =
     rbind (loadShadowStates flt s model deployment (mr_ModeID result) (remdups (map pr_PlayerID (mr_Participants result))) (mr_AvailableAt result)) (\<lambda>(estimates, profiles).
     rbind (wrapR ''update extended rating candidate: %w'' [] (Extended_Update Exp model result (map_of estimates) (mr_AvailableAt result))) (\<lambda>updates.
     rbind (wrapR ''observe extended rating features: %w'' [] (Observe model result deckVersion profiles)) (\<lambda>updatedProfiles.
     rbind (persistShadowLoop flt (mr_ModeID result) updatedProfiles updates s) (\<lambda>s1. Inr (updates, s1)))))"

definition processShadowResult ::
    "(f64 \<Rightarrow> f64) \<Rightarrow> (f64 \<Rightarrow> f64) \<Rightarrow> (string \<Rightarrow> ExtendedConfig result) \<Rightarrow> collation \<Rightarrow> Faults \<Rightarrow> ShadowStore \<Rightarrow> string \<Rightarrow> time \<Rightarrow> (int \<times> string \<times> ShadowStore) result" where
  "processShadowResult Exp Log decode collate flt s eventID processedAt =
     (case loadShadowResult collate flt s eventID of
        Inl err \<Rightarrow> if errors_Is err ErrNoRows then Inr (0, ''result_unavailable'', s) else Inl err
      | Inr (result, deckVersion) \<Rightarrow>
          if deckVersion = '''' then Inr (0, ''deck_version_unavailable'', s)
          else case stmt flt ''load prediction'' (queryRow (filter (\<lambda>p. pd_room_id p = mr_RoomID result) (sh_predictions s))) of
              Inl err \<Rightarrow> if errors_Is err ErrNoRows then Inr (0, ''no_prediction'', s) else Inl (Errorf ''load rating shadow prediction: %w'' [] (Some err))
            | Inr prediction \<Rightarrow>
                rbind (loadShadowDeploymentByVersion decode flt s (pd_candidate_version prediction)) (\<lambda>deployment.
                rbind (wrapR ''construct extended rating model %q: %w'' [ArgS (pd_candidate_version prediction)] (NewExtended (sd_candidate deployment))) (\<lambda>model.
                rbind (advanceCandidate Exp flt s result deckVersion deployment model) (\<lambda>(updates, s1).
                rbind (observeShadow Log flt s1 processedAt result deployment prediction) (\<lambda>s2.
                Inr (int (length updates) + 1, '''', s2))))))"

section \<open>The transaction\<close>

definition markWorkProcessed :: "ShadowStore \<Rightarrow> RatingShadowClaim \<Rightarrow> time \<Rightarrow> string \<Rightarrow> (nat \<times> ShadowStore) result" where
  "markWorkProcessed s claim processedAt skipReason =
     updateWork s (\<lambda>w. isWork (rsc_Kind claim) (rsc_SourceID claim) w \<and> sw_claim_token w = Some (rsc_Token claim) \<and> sw_processed_at w = None)
       (\<lambda>w. w\<lparr>sw_processed_at := Some (pgTime processedAt), sw_skip_reason := (if skipReason = '''' then None else Some skipReason),
               sw_claim_token := None, sw_claimed_until := None\<rparr>)"

definition ProcessRatingShadowWork ::
    "(f64 \<Rightarrow> f64) \<Rightarrow> (f64 \<Rightarrow> f64) \<Rightarrow> (string \<Rightarrow> ExtendedConfig result) \<Rightarrow> collation \<Rightarrow> time \<Rightarrow> Faults \<Rightarrow> ShadowStore \<Rightarrow> RatingShadowClaim \<Rightarrow> time
       \<Rightarrow> int result \<times> ShadowStore" where
  "ProcessRatingShadowWork Exp Log decode collate clock flt s claim processedAt =
     (case RatingShadowClaim_Validate claim of
        Some e \<Rightarrow> (Inl e, s)
      | None \<Rightarrow>
        if IsZero processedAt then (Inl (ErrorsNew ''rating shadow processing time is required''), s)
        else tryTx s (wrapR ''begin rating shadow processing: %w'' [] (stmt flt ''begin'' (Inr ()))) (\<lambda>_.
        tryTx s (guardE (lockRatingShadowClaim clock flt s claim) (Inr ())) (\<lambda>_.
        tryTx s (if rsc_Kind claim = ''room'' then processShadowRoom Exp decode collate flt s (rsc_SourceID claim)
                 else if rsc_Kind claim = ''result'' then processShadowResult Exp Log decode collate flt s (rsc_SourceID claim) processedAt
                 else Inl (ErrorsNew ''unsupported rating shadow work kind'')) (\<lambda>(persisted, skipReason, s1).
        tryTx s (wrapR ''mark rating shadow work processed: %w'' [] (stmt flt ''mark processed'' (markWorkProcessed s1 claim processedAt skipReason))) (\<lambda>(affected, s2).
        if affected \<noteq> 1 then (Inl ErrRatingShadowClaimLost, s)
        else commitTx flt (\<lambda>e. Errorf ''commit rating shadow processing: %w'' [] (Some e)) persisted s s2)))))"

section \<open>The history of a candidate\<close>

text \<open>
  The updates of a player in a mode under a candidate, in the order they were written. An update follows another when it starts from the state the other one stored
  and is not dated before it; the current state is what the last update stored, with a revision for every update.
\<close>

definition shadowHistory :: "ShadowUpdateRow list \<Rightarrow> string \<Rightarrow> string \<Rightarrow> string \<Rightarrow> ShadowUpdateRow list" where
  "shadowHistory us p m v = filter (\<lambda>u. su_player_id u = p \<and> su_mode_id u = m \<and> su_candidate_version u = v) us"

definition storedAfter :: "ShadowUpdateRow \<Rightarrow> Estimate" where
  "storedAfter u = (pgEstimate (su_after u))\<lparr>est_ModelVersion := su_candidate_version u\<rparr>"

definition follows :: "ShadowUpdateRow \<Rightarrow> ShadowUpdateRow \<Rightarrow> bool" where
  "follows u w \<longleftrightarrow> su_before w = storedAfter u \<and> est_UpdatedAt (storedAfter u) \<le> est_UpdatedAt (su_after w)"

fun stateOf :: "ShadowUpdateRow list \<Rightarrow> ShadowStateRow option \<Rightarrow> bool" where
  "stateOf h None = (h = [])"
| "stateOf h (Some r) = (h \<noteq> [] \<and> ss_estimate r = storedAfter (last h) \<and> ss_feature_profile r = su_feature_profile (last h) \<and> ss_revision r = int (length h))"

definition shadowTables :: "ShadowStateRow list \<Rightarrow> ShadowUpdateRow list \<Rightarrow> bool" where
  "shadowTables ss us \<longleftrightarrow>
     (\<forall>p m v. successively follows (shadowHistory us p m v) \<and> stateOf (shadowHistory us p m v) (List.find (stateKey p m v) ss))"

lemma find_upsertState:
  assumes "upsertState s row = Inr s'"
  shows "s' = s\<lparr>sh_states := sh_states s'\<rparr> \<and> List.find (stateKey p m v) (sh_states s') =
    (if stateKey p m v row
     then Some (case List.find (stateKey p m v) (sh_states s) of
        None \<Rightarrow> row | Some r \<Rightarrow> r\<lparr>ss_estimate := ss_estimate row, ss_revision := ss_revision r + 1, ss_feature_profile := ss_feature_profile row\<rparr>)
     else List.find (stateKey p m v) (sh_states s))"
proof -
  let ?hit = "stateKey (ss_player_id row) (ss_mode_id row) (ss_candidate_version row)"
  let ?change = "\<lambda>r. r\<lparr>ss_estimate := ss_estimate row, ss_revision := ss_revision r + 1, ss_feature_profile := ss_feature_profile row\<rparr>"
  have same: "stateKey p m v (if ?hit r then ?change r else r) = stateKey p m v r" for r by (auto simp: stateKey_def)
  have find: "List.find (stateKey p m v) (map (\<lambda>r. if ?hit r then ?change r else r) rows)
      = map_option (\<lambda>r. if ?hit r then ?change r else r) (List.find (stateKey p m v) rows)" for rows
    by (induction rows) (simp_all add: same)
  show ?thesis
  proof (cases "list_ex ?hit (sh_states s)")
    case True
    then have s': "s' = s\<lparr>sh_states := map (\<lambda>r. if ?hit r then ?change r else r) (sh_states s)\<rparr>"
      using assms by (auto simp: upsertState_def Let_def updateRows_Inr split: if_splits)
    have "stateKey p m v r \<Longrightarrow> ?hit r = stateKey p m v row" for r by (auto simp: stateKey_def)
    moreover have "List.find (stateKey p m v) (sh_states s) \<noteq> None" if "stateKey p m v row"
      using True that by (auto simp: find_None_iff list_ex_iff stateKey_def)
    ultimately show ?thesis unfolding s' by (auto simp: find split: option.splits dest: find_Some)
  next
    case False
    then have s': "s' = s\<lparr>sh_states := sh_states s @ [row]\<rparr>"
      using assms by (auto simp: upsertState_def Let_def split: if_splits)
    have "List.find (stateKey p m v) (sh_states s) = None" if "stateKey p m v row"
      using False that by (auto simp: find_None_iff list_ex_iff stateKey_def)
    then show ?thesis unfolding s' by (auto simp: find_append split: option.splits)
  qed
qed

text \<open>An update extends the history of its player when it starts from the current state and is not older.\<close>

definition extends :: "ShadowStateRow list \<Rightarrow> string \<Rightarrow> RatingUpdate \<Rightarrow> bool" where
  "extends ss modeID u \<longleftrightarrow> (\<forall>r. List.find (stateKey (ru_PlayerID u) modeID (ru_ModelVersion u)) ss = Some r \<longrightarrow>
     ru_Before u = ss_estimate r \<and> est_UpdatedAt (ss_estimate r) \<le> est_UpdatedAt (ru_After u))"

lemma persistShadowUpdate_Inr:
  assumes "persistShadowUpdate flt s modeID u profile = Inr s'"
  shows "s' = s\<lparr>sh_updates := sh_updates s @ [newShadowUpdate modeID u profile], sh_states := sh_states s'\<rparr> \<and>
     (\<forall>p m v. \<not> stateKey p m v (newStateRow modeID u profile) \<longrightarrow> List.find (stateKey p m v) (sh_states s') = List.find (stateKey p m v) (sh_states s)) \<and>
     (extends (sh_states s) modeID u \<longrightarrow> shadowTables (sh_states s) (sh_updates s) \<longrightarrow> shadowTables (sh_states s') (sh_updates s'))"
proof -
  let ?row = "newShadowUpdate modeID u profile" and ?new = "newStateRow modeID u profile"
  obtain s1 where s1: "insertShadowUpdate s ?row = Inr s1" and s': "upsertState s1 ?new = Inr s'"
    using assms by (auto simp: persistShadowUpdate_def)
  have h: "s1 = s\<lparr>sh_updates := sh_updates s @ [?row]\<rparr>" using s1 by (auto simp: insertShadowUpdate_def insertRow_Inr)
  note find = find_upsertState [OF s', THEN conjunct2]
  have store: "s' = s\<lparr>sh_updates := sh_updates s @ [?row], sh_states := sh_states s'\<rparr>"
    by (subst find_upsertState [OF s', THEN conjunct1]) (simp add: h)
  have "shadowTables (sh_states s') (sh_updates s')" if c: "extends (sh_states s) modeID u" and t: "shadowTables (sh_states s) (sh_updates s)"
    unfolding shadowTables_def
  proof (intro allI)
    fix p m v
    let ?h = "shadowHistory (sh_updates s) p m v"
    have old: "successively follows ?h" "stateOf ?h (List.find (stateKey p m v) (sh_states s))" using t by (auto simp: shadowTables_def)
    have key: "stateKey p m v ?new \<longleftrightarrow> ru_PlayerID u = p \<and> modeID = m \<and> ru_ModelVersion u = v" by (simp add: stateKey_def newStateRow_def)
    have hist: "shadowHistory (sh_updates s') p m v = ?h @ (if stateKey p m v ?new then [?row] else [])"
      by (subst store) (simp add: key, simp add: shadowHistory_def newShadowUpdate_def)
    have after: "ss_estimate ?new = storedAfter ?row" "ss_revision ?new = 1" "ss_feature_profile ?new = su_feature_profile ?row"
      "su_before ?row = ru_Before u" "su_after ?row = ru_After u"
      by (simp_all add: newStateRow_def newShadowUpdate_def storedAfter_def)
    show "successively follows (shadowHistory (sh_updates s') p m v) \<and>
        stateOf (shadowHistory (sh_updates s') p m v) (List.find (stateKey p m v) (sh_states s'))"
    proof (cases "stateKey p m v ?new")
      case True
      show ?thesis
      proof (cases "List.find (stateKey p m v) (sh_states s)")
        case None
        then show ?thesis using True old after by (simp add: hist find h)
      next
        case (Some r)
        then have "ru_Before u = ss_estimate r" "est_UpdatedAt (ss_estimate r) \<le> est_UpdatedAt (ru_After u)" using c True key by (auto simp: extends_def)
        then show ?thesis using True old after Some by (simp add: hist find h successively_append_iff follows_def)
      qed
    qed (use old in \<open>simp add: hist find h\<close>)
  qed
  then show ?thesis using h store find by auto
qed

definition profileFor :: "(string \<times> FeatureProfile) list \<Rightarrow> RatingUpdate \<Rightarrow> FeatureProfile" where
  "profileFor profiles u = (case map_of profiles (ru_PlayerID u) of None \<Rightarrow> \<lparr>fp_SchemaVersion = '''', fp_Observations = []\<rparr> | Some p \<Rightarrow> p)"

lemma persistShadowLoop_Inr:
  assumes "persistShadowLoop flt modeID profiles us s = Inr s'" "\<forall>u \<in> set us. extends (sh_states s) modeID u"
    and "shadowTables (sh_states s) (sh_updates s)" "distinct (map ru_PlayerID us)"
  shows "s' = s\<lparr>sh_updates := sh_updates s @ map (\<lambda>u. newShadowUpdate modeID u (profileFor profiles u)) us, sh_states := sh_states s'\<rparr> \<and>
     shadowTables (sh_states s') (sh_updates s')"
  using assms
proof (induction us arbitrary: s)
  case Nil
  then show ?case by simp
next
  case (Cons u us)
  obtain s1 where s1: "persistShadowUpdate flt s modeID u (profileFor profiles u) = Inr s1" and rest: "persistShadowLoop flt modeID profiles us s1 = Inr s'"
    using Cons.prems(1) by (auto simp: profileFor_def split: if_splits)
  note e = persistShadowUpdate_Inr [OF s1]
  have store: "s1 = s\<lparr>sh_updates := sh_updates s @ [newShadowUpdate modeID u (profileFor profiles u)], sh_states := sh_states s1\<rparr>" using e by blast
  have "extends (sh_states s1) modeID w" if "w \<in> set us" for w
  proof -
    have "ru_PlayerID w \<noteq> ru_PlayerID u" using that Cons.prems(4) by (auto simp: image_iff)
    then have "\<not> stateKey (ru_PlayerID w) modeID (ru_ModelVersion w) (newStateRow modeID u (profileFor profiles u))" by (simp add: stateKey_def newStateRow_def)
    then show ?thesis using e that Cons.prems(2) by (simp add: extends_def)
  qed
  then have IH: "s' = s1\<lparr>sh_updates := sh_updates s1 @ map (\<lambda>u. newShadowUpdate modeID u (profileFor profiles u)) us, sh_states := sh_states s'\<rparr>"
      "shadowTables (sh_states s') (sh_updates s')"
    using Cons.IH [OF rest] Cons.prems e by simp_all
  have "s' = s\<lparr>sh_updates := sh_updates s @ map (\<lambda>u. newShadowUpdate modeID u (profileFor profiles u)) (u # us), sh_states := sh_states s'\<rparr>"
    by (subst IH(1), subst store) (subst store, simp)
  then show ?case using IH(2) by simp
qed

text \<open>The estimates the candidate starts from are the stored states, none of them newer than the position on the timeline.\<close>

lemma loadShadowState_stored:
  assumes "loadShadowState flt s model deployment modeID t p = Inr (e, profile)" "driverFaults flt"
    and "List.find (stateKey p modeID (sd_candidateVersion deployment)) (sh_states s) = Some r"
  shows "e = ss_estimate r \<and> est_UpdatedAt (ss_estimate r) \<le> t"
  using assms by (auto simp: loadShadowState_def queryRow_find stmt_def driverFaults_def split: option.splits if_splits sum.splits)

lemma loadShadowStates_stored:
  assumes "loadShadowStates flt s model deployment modeID players t = Inr (estimates, profiles)" "driverFaults flt" "p \<in> set players"
    and "List.find (stateKey p modeID (sd_candidateVersion deployment)) (sh_states s) = Some r"
  shows "map_of estimates p = Some (ss_estimate r) \<and> est_UpdatedAt (ss_estimate r) \<le> t"
proof -
  obtain rows where rows: "mapR (\<lambda>p. rbind (loadShadowState flt s model deployment modeID t p) (\<lambda>x. Inr (p, x))) players = Inr rows"
      and est: "estimates = map (\<lambda>(p, e, _). (p, e)) rows"
    using assms(1) by (auto simp: loadShadowStates_def)
  have own: "e = ss_estimate r \<and> est_UpdatedAt (ss_estimate r) \<le> t" if "(p, e, x) \<in> set rows" for e x
    using mapR_member [OF rows that] loadShadowState_stored [OF _ assms(2,4)] by auto
  obtain y where "y \<in> set rows" "fst y = p" using mapR_covers [OF rows assms(3)] by auto
  moreover have "fst ` set estimates = fst ` set rows" by (simp add: est image_image split_beta)
  ultimately have "p \<in> fst ` set estimates" by auto
  then obtain e where e: "map_of estimates p = Some e" by (metis map_of_eq_None_iff not_None_eq)
  then have "\<exists>x. (p, e, x) \<in> set rows" by (auto simp: est dest!: map_of_SomeD)
  then show ?thesis using own e by blast
qed

lemma advanceCandidate_Inr:
  assumes "advanceCandidate Exp flt s result deck deployment model = Inr (us, s')" "driverFaults flt"
    and "shadowTables (sh_states s) (sh_updates s)" "bc_Version (ext_baseline model) = sd_candidateVersion deployment"
  obtains profiles where "us \<noteq> []" "shadowTables (sh_states s') (sh_updates s')"
    "\<forall>u \<in> set us. ru_SourceEventID u = mr_EventID result \<and> ru_ModelVersion u = sd_candidateVersion deployment"
    "s' = s\<lparr>sh_updates := sh_updates s @ map (\<lambda>u. newShadowUpdate (mr_ModeID result) u (profileFor profiles u)) us, sh_states := sh_states s'\<rparr>"
proof -
  obtain estimates profiles updated where
      load: "loadShadowStates flt s model deployment (mr_ModeID result) (remdups (map pr_PlayerID (mr_Participants result))) (mr_AvailableAt result) = Inr (estimates, profiles)" and
      upd: "Baseline_Update Exp (ext_baseline model) result (map_of estimates) (mr_AvailableAt result) = Inr us" and
      loop: "persistShadowLoop flt (mr_ModeID result) updated us s = Inr s'"
    using assms(1) by (auto simp: advanceCandidate_def Extended_Update_def)
  have each: "ru_SourceEventID u = mr_EventID result \<and> ru_ModelVersion u = sd_candidateVersion deployment \<and> extends (sh_states s) (mr_ModeID result) u"
    if mem: "u \<in> set us" for u
  proof -
    obtain before p where before: "loadBefore (ext_baseline model) (map_of estimates) (sort_cmp compareParticipantID (mr_Participants result)) Map.empty = Inr before"
        and p: "p \<in> set (mr_Participants result)"
        and "updateParticipant Exp (ext_baseline model) result before (sort_cmp compareParticipantID (mr_Participants result)) (mr_AvailableAt result) p = Inr u"
      by (rule Baseline_Update_member [OF upd mem])
    then have u: "ru_PlayerID u = pr_PlayerID p" "ru_Before u = estimateAt before (pr_PlayerID p)" "ru_SourceEventID u = mr_EventID result"
        "ru_ModelVersion u = sd_candidateVersion deployment" "est_UpdatedAt (ru_After u) = mr_AvailableAt result"
      using updateParticipant_Inr [of Exp "ext_baseline model"] assms(4) by fastforce+
    have "map_of estimates (pr_PlayerID p) = Some (ru_Before u)" using loaded_estimate(1) [OF before, of p] p u(2) by simp
    then have "extends (sh_states s) (mr_ModeID result) u"
      using loadShadowStates_stored [OF load assms(2), of "pr_PlayerID p"] p u by (auto simp: extends_def)
    then show ?thesis using u by blast
  qed
  have players: "map ru_PlayerID us = sort (map pr_PlayerID (mr_Participants result))" by (rule Update_players [OF upd])
  have complete: "completeResult result" using upd by (simp add: Baseline_Update_Inr)
  have dist: "distinct (map ru_PlayerID us)" unfolding players using complete by (simp add: completeResult_def)
  have "length us = length (mr_Participants result)" using arg_cong [OF players, of length] by simp
  then have "us \<noteq> []" using complete by (auto simp: completeResult_def)
  moreover have "\<forall>u \<in> set us. extends (sh_states s) (mr_ModeID result) u" using each by blast
  ultimately show ?thesis
    using that [of updated] persistShadowLoop_Inr [OF loop _ assms(3) dist] each by blast
qed

section \<open>What processing changes\<close>

text \<open>A room is skipped without a trace, or exactly one prediction is recorded for it.\<close>

lemma processShadowRoom_Inr:
  assumes "processShadowRoom Exp decode collate flt s roomID = Inr (n, skip, s')"
  shows "s' = s \<and> n = 0 \<and> skip \<noteq> '''' \<or> skip = '''' \<and> n = 1 \<and>
    (\<exists>p. pd_room_id p = roomID \<and> (\<forall>q \<in> set (sh_predictions s). pd_room_id q \<noteq> roomID) \<and> s' = s\<lparr>sh_predictions := sh_predictions s @ [p]\<rparr>)"
proof (cases "s' = s \<and> n = 0 \<and> skip \<noteq> ''''")
  case False
  then obtain p where p: "insertPrediction s p = Inr s'" "pd_room_id p = roomID" "n = 1" "skip = ''''"
    using assms by (auto simp: processShadowRoom_def Let_def split: sum.splits if_splits prod.splits)
  then show ?thesis by (auto simp: insertPrediction_def insertRow_Inr intro!: exI [of _ p])
qed simp

lemma NewExtended_baseline: "NewExtended config = Inr model \<Longrightarrow> ext_baseline model = xc_Baseline config"
  by (auto simp: NewExtended_def NewBaseline_def split: if_splits)

lemma loadShadowDeploymentByVersion_Inr:
  "loadShadowDeploymentByVersion decode flt s v = Inr deployment \<Longrightarrow>
     sd_candidateVersion deployment = v \<and> bc_Version (xc_Baseline (sd_candidate deployment)) = v"
  by (auto simp: loadShadowDeploymentByVersion_def scanDeployment_def validateShadowDeployment_def Let_def dest!: queryRow_Inr split: if_splits)

lemma loadShadowResult_event: "loadShadowResult collate flt s eventID = Inr (result, deck) \<Longrightarrow> mr_EventID result = eventID"
  by (auto simp: loadShadowResult_def scanResult_def dest!: queryRow_Inr)

definition scores :: "PredictionRow \<Rightarrow> ObservationRow \<Rightarrow> bool" where
  "scores p x \<longleftrightarrow> pd_room_id p = so_room_id x \<and> pd_candidate_version p = so_candidate_version x \<and>
     pd_baseline_version p = so_baseline_version x \<and> pd_segment_id p = so_segment_id x"

definition learnedFrom :: "ObservationRow \<Rightarrow> ShadowUpdateRow \<Rightarrow> bool" where
  "learnedFrom x u \<longleftrightarrow> su_source_event_id u = so_source_event_id x \<and> su_candidate_version u = so_candidate_version x"

text \<open>A result is skipped without a trace, or the candidate learns from it and the stored prediction of its room is scored, both at once.\<close>

lemma processShadowResult_Inr:
  assumes "processShadowResult Exp Log decode collate flt s eventID processedAt = Inr (n, skip, s')" "driverFaults flt"
    and "shadowTables (sh_states s) (sh_updates s)"
  shows "s' = s \<and> n = 0 \<and> skip \<noteq> '''' \<or> skip = '''' \<and> shadowTables (sh_states s') (sh_updates s') \<and>
    (\<exists>us p x. n = int (length us) + 1 \<and> us \<noteq> [] \<and> p \<in> set (sh_predictions s) \<and> scores p x \<and> so_source_event_id x = eventID \<and>
       (\<forall>u \<in> set us. learnedFrom x u) \<and> (\<forall>y \<in> set (sh_observations s). \<not> observationClash x y) \<and>
       s' = s\<lparr>sh_updates := sh_updates s @ us, sh_states := sh_states s', sh_observations := sh_observations s @ [x]\<rparr>)"
proof (cases "s' = s \<and> n = 0 \<and> skip \<noteq> ''''")
  case False
  then obtain result deck p deployment model us s1 where
      res: "loadShadowResult collate flt s eventID = Inr (result, deck)" and
      p: "queryRow (filter (\<lambda>p. pd_room_id p = mr_RoomID result) (sh_predictions s)) = Inr p" and
      dep: "loadShadowDeploymentByVersion decode flt s (pd_candidate_version p) = Inr deployment" and
      model: "NewExtended (sd_candidate deployment) = Inr model" and
      adv: "advanceCandidate Exp flt s result deck deployment model = Inr (us, s1)" and
      obs: "observeShadow Log flt s1 processedAt result deployment p = Inr s'" and
      n: "n = int (length us) + 1" "skip = ''''"
    using assms(1) by (auto simp: processShadowResult_def split: sum.splits if_splits prod.splits)
  note v = loadShadowDeploymentByVersion_Inr [OF dep]
  have "bc_Version (ext_baseline model) = sd_candidateVersion deployment" using v NewExtended_baseline [OF model] by simp
  then obtain profiles where a: "us \<noteq> []" "shadowTables (sh_states s1) (sh_updates s1)"
      "\<forall>u \<in> set us. ru_SourceEventID u = mr_EventID result \<and> ru_ModelVersion u = sd_candidateVersion deployment"
      "s1 = s\<lparr>sh_updates := sh_updates s @ map (\<lambda>u. newShadowUpdate (mr_ModeID result) u (profileFor profiles u)) us, sh_states := sh_states s1\<rparr>"
    using advanceCandidate_Inr [OF adv assms(2,3)] by blast
  have obs1: "sh_observations s1 = sh_observations s" by (subst a(4)) simp
  obtain x where ins: "insertObservation s1 x = Inr s'" and fields: "so_room_id x = mr_RoomID result" "so_candidate_version x = pd_candidate_version p"
      "so_baseline_version x = pd_baseline_version p" "so_segment_id x = pd_segment_id p" "so_source_event_id x = mr_EventID result"
    using obs by (auto simp: observeShadow_def)
  have x: "scores p x" "so_source_event_id x = mr_EventID result" "\<forall>y \<in> set (sh_observations s1). \<not> observationClash x y"
      "s' = s1\<lparr>sh_observations := sh_observations s1 @ [x]\<rparr>"
    using ins fields queryRow_Inr [OF p] by (auto simp: insertObservation_def insertRow_Inr scores_def)
  let ?us = "map (\<lambda>u. newShadowUpdate (mr_ModeID result) u (profileFor profiles u)) us"
  have "\<forall>u \<in> set ?us. learnedFrom x u"
    using a(3) x(1,2) v by (auto simp: learnedFrom_def newShadowUpdate_def scores_def)
  moreover have "s' = s\<lparr>sh_updates := sh_updates s @ ?us, sh_states := sh_states s', sh_observations := sh_observations s @ [x]\<rparr>"
    unfolding x(4) obs1 by (subst a(4)) simp
  moreover have "shadowTables (sh_states s') (sh_updates s')" using a(2) x(4) by simp
  ultimately show ?thesis
    using a(1) n queryRow_Inr [OF p] x(1-3) loadShadowResult_event [OF res] obs1 by (intro disjI2 conjI exI [of _ ?us] exI [of _ p] exI [of _ x]) auto
qed simp

text \<open>The stores of the three operations differ in the shadow work and, after processing, in the shadow tables alone.\<close>

definition workOnly :: "ShadowStore \<Rightarrow> ShadowStore \<Rightarrow> bool" where
  "workOnly s s' \<longleftrightarrow> s' = s\<lparr>sh_db := (sh_db s)\<lparr>db_shadow_work := db_shadow_work (sh_db s')\<rparr>\<rparr>"

lemma updateWork_Inr:
  "updateWork s hit change = Inr (n, s') \<longleftrightarrow> (\<forall>w \<in> set (db_shadow_work (sh_db s)). hit w \<longrightarrow> shadowWorkChecks (change w)) \<and>
     n = length (filter hit (db_shadow_work (sh_db s))) \<and>
     s' = s\<lparr>sh_db := (sh_db s)\<lparr>db_shadow_work := map (\<lambda>w. if hit w then change w else w) (db_shadow_work (sh_db s))\<rparr>\<rparr>"
  by (auto simp: updateWork_def updateRows_Inr)

lemma workOnly_refl [simp]: "workOnly s s" by (simp add: workOnly_def)

lemma ClaimNextRatingShadowWork_workOnly:
  assumes "ClaimNextRatingShadowWork collate flt s request = (r, s')"
  shows "workOnly s s'"
proof (cases "s' = s")
  case False
  then show ?thesis using assms
    by (auto simp: ClaimNextRatingShadowWork_def tx_effect claimWorkStatement_def updateWork_Inr workOnly_def split: option.splits sum.splits if_splits)
qed simp

lemma ScheduleRatingShadowRetry_workOnly:
  assumes "ScheduleRatingShadowRetry clock flt s claim t = (r, s')"
  shows "workOnly s s'"
proof (cases "s' = s")
  case False
  then obtain n where "updateWork s (holdsShadowLease clock claim)
      (\<lambda>w. w\<lparr>sw_next_attempt_at := pgTime t, sw_claim_token := None, sw_claimed_until := None\<rparr>) = Inr (n, s')"
    using assms by (auto simp: ScheduleRatingShadowRetry_def split: option.splits if_splits prod.splits sum.splits dest!: autoCommit_effect)
  then show ?thesis by (auto simp: updateWork_Inr workOnly_def)
qed simp

end
