(* ===== verification/Outbox_Queue.thy ===== *)
theory Outbox_Queue
  imports Database
begin

text \<open>
  \<^verbatim>\<open>internal/postgres/outbox_queue.go\<close>: claiming due events with a lease, acknowledging, giving up, re-driving and
  rescheduling them, each by one statement. \<open>clock\<close> is the database clock, \<open>locked\<close> the events whose rows another
  transaction holds (\<^verbatim>\<open>SKIP LOCKED\<close>), \<open>jsonText\<close> the text of a stored JSON object.
\<close>

definition maxOutboxDeliveryError :: nat where "maxOutboxDeliveryError = 1024"

definition outboxPrecedes :: "collation \<Rightarrow> OutboxRow \<Rightarrow> OutboxRow \<Rightarrow> bool" where
  "outboxPrecedes collate p c \<longleftrightarrow> ox_aggregate_type p = ox_aggregate_type c \<and> ox_aggregate_id p = ox_aggregate_id c \<and>
     (ox_aggregate_version p < ox_aggregate_version c \<or>
      ox_aggregate_version p = ox_aggregate_version c \<and> collate (ox_event_id p) (ox_event_id c) < 0)"

definition unclaimedAt :: "time \<Rightarrow> OutboxRow \<Rightarrow> bool" where
  "unclaimedAt t r \<longleftrightarrow> (case ox_claimed_until r of None \<Rightarrow> True | Some u \<Rightarrow> u \<le> t)"

definition outboxDue :: "collation \<Rightarrow> string list \<Rightarrow> time \<Rightarrow> OutboxRow list \<Rightarrow> OutboxRow \<Rightarrow> bool" where
  "outboxDue collate locked t rows r \<longleftrightarrow>
     ox_delivered_at r = None \<and> ox_dead_lettered_at r = None \<and> ox_available_at r \<le> t \<and> unclaimedAt t r \<and>
     \<not> list_ex (\<lambda>p. ox_delivered_at p = None \<and> outboxPrecedes collate p r) rows \<and> ox_event_id r \<notin> set locked"

definition compareDueEvents :: "collation \<Rightarrow> OutboxRow \<Rightarrow> OutboxRow \<Rightarrow> int" where
  "compareDueEvents collate a b =
     (if time_Compare (ox_available_at a) (ox_available_at b) \<noteq> 0 then time_Compare (ox_available_at a) (ox_available_at b)
      else if time_Compare (ox_occurred_at a) (ox_occurred_at b) \<noteq> 0 then time_Compare (ox_occurred_at a) (ox_occurred_at b)
      else collate (ox_event_id a) (ox_event_id b))"

definition dueEvents :: "collation \<Rightarrow> string list \<Rightarrow> OutboxClaimRequest \<Rightarrow> OutboxRow list \<Rightarrow> OutboxRow list" where
  "dueEvents collate locked request rows =
     take (nat (ocr_Limit request))
       (sort_cmp (compareDueEvents collate) (filter (outboxDue collate locked (pgTime (ocr_ClaimedAt request)) rows) rows))"

definition claimEvent :: "OutboxClaimRequest \<Rightarrow> OutboxRow \<Rightarrow> OutboxRow" where
  "claimEvent request r = r\<lparr>ox_claimed_by := Some (ocr_Token request), ox_claimed_until := Some (pgTime (ocr_LeaseUntil request)),
     ox_attempt_count := ox_attempt_count r + 1\<rparr>"

definition claimStatement :: "collation \<Rightarrow> string list \<Rightarrow> OutboxClaimRequest \<Rightarrow> Database \<Rightarrow> (OutboxRow list \<times> Database) result" where
  "claimStatement collate locked request db =
     (let due = dueEvents collate locked request (db_outbox db) in
      if list_ex (\<lambda>r. 2 ^ 31 - 1 < ox_attempt_count r + 1) due then Inl numericOutOfRange
      else rbind (updateRows (\<lambda>r. ox_event_id r \<in> set (map ox_event_id due)) (claimEvent request) outboxChecks (db_outbox db)) (\<lambda>(rows, n).
        Inr (map (claimEvent request) due, db\<lparr>db_outbox := rows\<rparr>)))"

definition scanOutboxClaim :: "(eventPayload \<Rightarrow> string) \<Rightarrow> OutboxRow \<Rightarrow> OutboxClaim" where
  "scanOutboxClaim jsonText r =
     \<lparr>oc_Event = \<lparr>oe_EventID = ox_event_id r, oe_AggregateType = ox_aggregate_type r, oe_AggregateID = ox_aggregate_id r,
        oe_AggregateVersion = ox_aggregate_version r, oe_EventType = ox_event_type r, oe_Payload = jsonText (ox_payload r),
        oe_OccurredAt = ox_occurred_at r\<rparr>,
      oc_Token = (case ox_claimed_by r of None \<Rightarrow> '''' | Some t \<Rightarrow> t), oc_Attempt = ox_attempt_count r,
      oc_LeaseUntil = (case ox_claimed_until r of None \<Rightarrow> 0 | Some u \<Rightarrow> u)\<rparr>"

text \<open>The rows are claimed by the statement; a claim that fails validation afterwards does not undo it.\<close>

definition ClaimOutboxEvents ::
    "collation \<Rightarrow> string list \<Rightarrow> (eventPayload \<Rightarrow> string) \<Rightarrow> Faults \<Rightarrow> Database \<Rightarrow> OutboxClaimRequest \<Rightarrow> OutboxClaim list result \<times> Database" where
  "ClaimOutboxEvents collate locked jsonText flt db request =
     (case OutboxClaimRequest_Validate request of
        Some e \<Rightarrow> (Inl e, db)
      | None \<Rightarrow> (case autoCommit flt ''claim outbox events'' db (claimStatement collate locked request db) of
          (Inl err, db1) \<Rightarrow> (Inl (Errorf ''claim outbox events: %w'' [] (Some err)), db1)
        | (Inr rows, db1) \<Rightarrow>
            (rbind (wrapR ''scan outbox claim: %w'' [] (stmt flt ''scan outbox claim'' (Inr ()))) (\<lambda>_.
             rbind (mapR (\<lambda>r. let claim = scanOutboxClaim jsonText r in
                     (case OutboxClaim_Validate claim of Some e \<Rightarrow> Inl (Errorf ''validate outbox claim: %w'' [] (Some e)) | None \<Rightarrow> Inr claim)) rows) (\<lambda>claims.
             wrapR ''read outbox claims: %w'' [] (stmt flt ''read outbox claims'' (Inr claims)))), db1)))"

text \<open>The acknowledging updates are fenced by the claim: it must name the token and the lease must not be over.\<close>

definition holdsLease :: "time \<Rightarrow> string \<Rightarrow> string \<Rightarrow> OutboxRow \<Rightarrow> bool" where
  "holdsLease clock eventID claimToken r \<longleftrightarrow>
     ox_event_id r = eventID \<and> ox_delivered_at r = None \<and> ox_dead_lettered_at r = None \<and> ox_claimed_by r = Some claimToken \<and>
     (case ox_claimed_until r of None \<Rightarrow> False | Some u \<Rightarrow> clock < u)"

definition updateOutbox :: "(OutboxRow \<Rightarrow> bool) \<Rightarrow> (OutboxRow \<Rightarrow> OutboxRow) \<Rightarrow> Database \<Rightarrow> (nat \<times> Database) result" where
  "updateOutbox hit change db =
     rbind (updateRows hit change outboxChecks (db_outbox db)) (\<lambda>(rows, n). Inr (n, db\<lparr>db_outbox := rows\<rparr>))"

definition execUpdate ::
    "Faults \<Rightarrow> string \<Rightarrow> goerr \<Rightarrow> (OutboxRow \<Rightarrow> bool) \<Rightarrow> (OutboxRow \<Rightarrow> OutboxRow) \<Rightarrow> Database \<Rightarrow> error \<times> Database" where
  "execUpdate flt operation lost hit change db =
     (case autoCommit flt operation db (updateOutbox hit change db) of
        (Inl err, db1) \<Rightarrow> (Some (Errorf ''%s: %w'' [ArgS operation] (Some err)), db1)
      | (Inr affected, db1) \<Rightarrow> (if affected \<noteq> 1 then Some lost else None, db1))"

definition MarkOutboxDelivered :: "time \<Rightarrow> Faults \<Rightarrow> Database \<Rightarrow> string \<Rightarrow> string \<Rightarrow> time \<Rightarrow> error \<times> Database" where
  "MarkOutboxDelivered clock flt db eventID claimToken deliveredAt =
     (if eventID = '''' \<or> claimToken = '''' \<or> IsZero deliveredAt then (Some (ErrorsNew ''event, claim and delivery time are required''), db)
      else execUpdate flt ''mark outbox event delivered'' ErrOutboxClaimLost (holdsLease clock eventID claimToken)
        (\<lambda>r. r\<lparr>ox_delivered_at := Some (pgTime deliveredAt), ox_claimed_by := None, ox_claimed_until := None, ox_last_error := None\<rparr>) db)"

definition MarkOutboxDeadLettered :: "time \<Rightarrow> Faults \<Rightarrow> Database \<Rightarrow> string \<Rightarrow> string \<Rightarrow> time \<Rightarrow> string \<Rightarrow> error \<times> Database" where
  "MarkOutboxDeadLettered clock flt db eventID claimToken deadLetteredAt reason =
     (if eventID = '''' \<or> claimToken = '''' \<or> IsZero deadLetteredAt \<or> reason = ''''
      then (Some (ErrorsNew ''event, claim, dead-letter time and reason are required''), db)
      else if maxOutboxDeliveryError < length reason then (Some (ErrorsNew ''outbox dead-letter reason exceeds storage limit''), db)
      else execUpdate flt ''mark outbox event dead-lettered'' ErrOutboxClaimLost (holdsLease clock eventID claimToken)
        (\<lambda>r. r\<lparr>ox_dead_lettered_at := Some (pgTime deadLetteredAt), ox_dead_letter_reason := Some reason, ox_claimed_by := None,
              ox_claimed_until := None, ox_last_error := Some reason\<rparr>) db)"

definition RedriveOutboxDeadLetter :: "Faults \<Rightarrow> Database \<Rightarrow> string \<Rightarrow> time \<Rightarrow> error \<times> Database" where
  "RedriveOutboxDeadLetter flt db eventID availableAt =
     (if eventID = '''' \<or> IsZero availableAt then (Some (ErrorsNew ''event and re-drive time are required''), db)
      else execUpdate flt ''re-drive outbox dead-letter'' (ErrorsNew ''outbox dead-letter event not found'')
        (\<lambda>r. ox_event_id r = eventID \<and> ox_delivered_at r = None \<and> ox_dead_lettered_at r \<noteq> None)
        (\<lambda>r. r\<lparr>ox_dead_lettered_at := None, ox_dead_letter_reason := None, ox_last_error := None, ox_available_at := pgTime availableAt,
              ox_claimed_by := None, ox_claimed_until := None\<rparr>) db)"

definition ScheduleOutboxRetry :: "time \<Rightarrow> Faults \<Rightarrow> Database \<Rightarrow> string \<Rightarrow> string \<Rightarrow> time \<Rightarrow> string \<Rightarrow> error \<times> Database" where
  "ScheduleOutboxRetry clock flt db eventID claimToken retryAt lastError =
     (if eventID = '''' \<or> claimToken = '''' \<or> IsZero retryAt \<or> lastError = ''''
      then (Some (ErrorsNew ''event, claim, retry time and delivery error are required''), db)
      else if maxOutboxDeliveryError < length lastError then (Some (ErrorsNew ''outbox delivery error exceeds storage limit''), db)
      else execUpdate flt ''schedule outbox retry'' ErrOutboxClaimLost (holdsLease clock eventID claimToken)
        (\<lambda>r. r\<lparr>ox_available_at := pgTime retryAt, ox_claimed_by := None, ox_claimed_until := None, ox_last_error := Some lastError\<rparr>) db)"

definition OutboxStore ::
    "collation \<Rightarrow> string list \<Rightarrow> (eventPayload \<Rightarrow> string) \<Rightarrow> time \<Rightarrow> Faults \<Rightarrow> Database OutboxQueue" where
  "OutboxStore collate locked jsonText clock flt =
     \<lparr>oq_ClaimOutboxEvents = ClaimOutboxEvents collate locked jsonText flt, oq_MarkOutboxDelivered = MarkOutboxDelivered clock flt,
      oq_MarkOutboxDeadLettered = MarkOutboxDeadLettered clock flt, oq_ScheduleOutboxRetry = ScheduleOutboxRetry clock flt\<rparr>"

end
