(* ===== verification/Store_Invariants.thy ===== *)
theory Store_Invariants
  imports Matchmaking_Queue Outbox_Queue Rating_Queue
begin

text \<open>
  Invariants of the shared database: identities and states of tickets, the filling of rooms, the agreement of tickets, seats and
  sessions, the completeness of the outbox and the order of its delivery, with the proofs that the transitions of tickets, of the
  matchmaking queue and of the outbox queue keep them.
\<close>

section \<open>Invariants\<close>

definition ticketsInv :: "Database \<Rightarrow> bool" where
  "ticketsInv db \<longleftrightarrow> distinct (map tkr_id (db_tickets db)) \<and> distinct (map (tk_EntryID \<circ> tkr_ticket) (db_tickets db)) \<and>
     (\<forall>r \<in> set (db_tickets db). ticketChecks r \<and> tk_AggregateVersion (tkr_ticket r) = (if tkr_status r = TicketQueued then 1 else 2))"

definition wellFilled :: "nat \<Rightarrow> RoomRow \<Rightarrow> bool" where
  "wellFilled members r \<longleftrightarrow> roomChecks r \<and> rmr_aggregate_version r < 2 ^ 63 \<and>
     (rmr_status r = RoomForming \<and> int members < rmr_capacity r \<or>
      rmr_status r \<in> {RoomCollecting, RoomCompleted, RoomExpired} \<and> int members = rmr_capacity r)"

definition roomsInv :: "Database \<Rightarrow> bool" where
  "roomsInv db \<longleftrightarrow> distinct (map rmr_room_id (db_rooms db)) \<and>
     (\<forall>r \<in> set (db_rooms db). wellFilled (length (roomMembers db (rmr_room_id r))) r)"

definition membershipKey :: "MembershipRow \<Rightarrow> string \<times> string \<times> string \<times> int" where
  "membershipKey m = (mb_ticket_id m, mb_room_id m, mb_player_id m, mb_seat m)"

definition sessionKey :: "SessionRow \<Rightarrow> string \<times> string \<times> string \<times> int" where
  "sessionKey s = (sn_ticket_id s, sn_room_id s, sn_player_id s, sn_seat s)"

definition seatsInv :: "Database \<Rightarrow> bool" where
  "seatsInv db \<longleftrightarrow>
     distinct (map (\<lambda>m. (mb_room_id m, mb_seat m)) (db_memberships db)) \<and> distinct (map mb_ticket_id (db_memberships db)) \<and>
     distinct (map (\<lambda>m. (mb_room_id m, mb_player_id m)) (db_memberships db)) \<and>
     (\<forall>m \<in> set (db_memberships db). membershipChecks m \<and>
        (\<exists>r \<in> set (db_rooms db). rmr_room_id r = mb_room_id m \<and> rmr_capacity r = mb_room_capacity m) \<and>
        (\<exists>t \<in> set (db_tickets db). tkr_id t = mb_ticket_id m \<and> tk_PlayerID (tkr_ticket t) = mb_player_id m)) \<and>
     (\<forall>t \<in> set (db_tickets db). tkr_status t = TicketAssigned \<longleftrightarrow> tkr_id t \<in> mb_ticket_id ` set (db_memberships db)) \<and>
     map sessionKey (db_sessions db) = map membershipKey (db_memberships db)"

definition ticketEvents :: "OutboxRow list \<Rightarrow> string \<Rightarrow> int list" where
  "ticketEvents rows i = map ox_aggregate_version (filter (\<lambda>e. ox_aggregate_type e = outboxAggregateTicket \<and> ox_aggregate_id e = i) rows)"

text \<open>An event is about a stored ticket, about a version a room has reached, or about a rated result.\<close>

definition knownEvent :: "Database \<Rightarrow> OutboxRow \<Rightarrow> bool" where
  "knownEvent db e \<longleftrightarrow>
     ox_aggregate_type e = outboxAggregateTicket \<and> ox_aggregate_id e \<in> tkr_id ` set (db_tickets db) \<or>
     ox_aggregate_type e = outboxAggregateRoom \<and>
       (\<exists>r \<in> set (db_rooms db). rmr_room_id r = ox_aggregate_id e \<and> ox_aggregate_version e \<le> rmr_aggregate_version r) \<or>
     ox_aggregate_type e = ''result'' \<and> (\<exists>v \<in> set (db_results db). vr_event_id v = ox_aggregate_id e \<and> vr_processed_at v \<noteq> None)"

definition eventsInv :: "Database \<Rightarrow> bool" where
  "eventsInv db \<longleftrightarrow> distinct (map ox_event_id (db_outbox db)) \<and>
     (\<forall>t \<in> set (db_tickets db). ticketEvents (db_outbox db) (tkr_id t) = [1..tk_AggregateVersion (tkr_ticket t)]) \<and>
     (\<forall>e \<in> set (db_outbox db). knownEvent db e)"

definition orderInv :: "collation \<Rightarrow> Database \<Rightarrow> bool" where
  "orderInv collate db \<longleftrightarrow> (\<forall>e \<in> set (db_outbox db). ox_claimed_by e \<noteq> None \<or> ox_delivered_at e \<noteq> None \<longrightarrow>
     (\<forall>p \<in> set (db_outbox db). outboxPrecedes collate p e \<longrightarrow> ox_delivered_at p \<noteq> None))"

lemma leaveQueue_sel:
  assumes "change = markCancelled t \<or> change = markExpired t \<or> change = markAssigned t"
  shows "tkr_id (leaveQueue change v r) = tkr_id r" "tk_EntryID (tkr_ticket (leaveQueue change v r)) = tk_EntryID (tkr_ticket r)"
    "tk_PlayerID (tkr_ticket (leaveQueue change v r)) = tk_PlayerID (tkr_ticket r)" "tk_AggregateVersion (tkr_ticket (leaveQueue change v r)) = v"
    "tkr_request_digest (leaveQueue change v r) = tkr_request_digest r" "tkr_status (leaveQueue change v r) \<noteq> TicketQueued"
    "tkr_status (leaveQueue change v r) = TicketAssigned \<longleftrightarrow> change = markAssigned t"
  using assms by (auto simp: leaveQueue_def markCancelled_def markExpired_def markAssigned_def fun_eq_iff)

text \<open>A change of one ticket row keeps the identities of the table.\<close>

lemma onTicket_map:
  assumes "\<And>r. key (f r) = key r"
  shows "map key (onTicket i f rows) = map key rows"
  by (simp add: onTicket_def assms)

lemma ball_onTicket: "(\<forall>x \<in> set (onTicket i f rows). P x) \<longleftrightarrow> (\<forall>x \<in> set rows. (tkr_id x = i \<longrightarrow> P (f x)) \<and> (tkr_id x \<noteq> i \<longrightarrow> P x))"
  by (auto simp: onTicket_def)

lemma bex_onTicket: "(\<exists>x \<in> set (onTicket i f rows). P x) \<longleftrightarrow> (\<exists>x \<in> set rows. tkr_id x = i \<and> P (f x) \<or> tkr_id x \<noteq> i \<and> P x)"
  by (auto simp: onTicket_def bex_Un)

lemma ball_onRoom: "(\<forall>x \<in> set (onRoom i f rows). P x) \<longleftrightarrow> (\<forall>x \<in> set rows. (rmr_room_id x = i \<longrightarrow> P (f x)) \<and> (rmr_room_id x \<noteq> i \<longrightarrow> P x))"
  by (auto simp: onRoom_def)

lemma bex_onRoom: "(\<exists>x \<in> set (onRoom i f rows). P x) \<longleftrightarrow> (\<exists>x \<in> set rows. rmr_room_id x = i \<and> P (f x) \<or> rmr_room_id x \<noteq> i \<and> P x)"
  by (auto simp: onRoom_def bex_Un)

lemma onRoom_map:
  assumes "\<And>r. key (f r) = key r"
  shows "map key (onRoom i f rows) = map key rows"
  by (simp add: onRoom_def assms)

lemma seatedRoom_sel:
  "rmr_room_id (seatedRoom filled v f d r) = rmr_room_id r" "rmr_capacity (seatedRoom filled v f d r) = rmr_capacity r"
  "rmr_status (seatedRoom filled v f d r) = (if filled then RoomCollecting else rmr_status r)"
  "rmr_aggregate_version (seatedRoom filled v f d r) = v"
  by (simp_all add: seatedRoom_def)

lemma incInt64_1: "incInt64 1 = 2"
  by (simp add: incInt64_def wrap64_id)

text \<open>A version that passed the check of its column was not wrapped around.\<close>

lemma incInt64_checked:
  assumes "0 < v" "v < 2 ^ 63" "0 < incInt64 v"
  shows "incInt64 v = v + 1" "incInt64 v < 2 ^ 63"
proof -
  have "v + 1 < 2 ^ 63"
  proof (rule ccontr)
    assume "\<not> v + 1 < 2 ^ 63"
    then have "v + 1 = 2 ^ 63" using assms(2) by simp
    then have "incInt64 v = - (2 ^ 63)" by (simp add: incInt64_def wrap64_def)
    then show False using assms(3) by simp
  qed
  then show "incInt64 v = v + 1" "incInt64 v < 2 ^ 63" using assms(1) by (simp_all add: incInt64_def wrap64_id)
qed

lemma ticketsInv_leave:
  assumes inv: "ticketsInv db" and row: "row \<in> set (db_tickets db)" "tkr_status row = TicketQueued"
    and change: "change = markCancelled t \<or> change = markExpired t \<or> change = markAssigned t" and v: "v = incInt64 (tk_AggregateVersion (tkr_ticket row))"
    and chk: "\<forall>r \<in> set (db_tickets db). tkr_id r = tkr_id row \<longrightarrow> ticketChecks (leaveQueue change v r)"
    and db': "db_tickets db' = onTicket (tkr_id row) (leaveQueue change v) (db_tickets db)"
  shows "ticketsInv db'"
proof -
  note sel = leaveQueue_sel [OF change]
  have "v = 2" using inv row v unfolding ticketsInv_def by (simp add: incInt64_1)
  then have "\<forall>r \<in> set (db_tickets db'). ticketChecks r \<and> tk_AggregateVersion (tkr_ticket r) = (if tkr_status r = TicketQueued then 1 else 2)"
    using inv chk unfolding db' ball_onTicket ticketsInv_def sel(4) by (simp add: sel(6))
  moreover have "map tkr_id (db_tickets db') = map tkr_id (db_tickets db)"
      "map (tk_EntryID \<circ> tkr_ticket) (db_tickets db') = map (tk_EntryID \<circ> tkr_ticket) (db_tickets db)"
    unfolding db' by (intro onTicket_map; simp add: sel)+
  ultimately show ?thesis using inv unfolding ticketsInv_def by simp
qed

lemma ticketsInv_lifecycle: "lifecycle db db' \<Longrightarrow> ticketsInv db \<Longrightarrow> ticketsInv db'"
proof (induction rule: lifecycle.induct)
  case (accept row db ev)
  then show ?case by (auto simp: ticketsInv_def ticketClash_def)
next
  case (leave row db version change t cm ev)
  have c: "change = markCancelled t \<or> change = markExpired t \<or> change = markAssigned t" using leave.hyps(4) by blast
  show ?case by (rule ticketsInv_leave [OF leave.prems leave.hyps(1,2) c leave.hyps(3,5)]) simp
next
  case (observe row db cm)
  then show ?case by (simp add: ticketsInv_def)
next
  case (assign row db version t room filled roomVersion f d m s ev roomEv evs work)
  show ?case by (rule ticketsInv_leave [OF assign.prems assign.hyps(1,2) _ assign.hyps(3,4), where t = t]) simp_all
qed

lemma ticket_ids_leave:
  assumes "change = markCancelled t \<or> change = markExpired t \<or> change = markAssigned t"
  shows "tkr_id ` set (onTicket i (leaveQueue change v) rows) = tkr_id ` set rows"
proof -
  have "map tkr_id (onTicket i (leaveQueue change v) rows) = map tkr_id rows" by (rule onTicket_map) (rule leaveQueue_sel(1) [OF assms])
  then show ?thesis by (simp only: flip: set_map)
qed

lemma ticket_owner_leave:
  assumes "change = markCancelled t \<or> change = markExpired t \<or> change = markAssigned t"
  shows "(\<exists>x \<in> set (onTicket i (leaveQueue change v) rows). tkr_id x = k \<and> tk_PlayerID (tkr_ticket x) = p) \<longleftrightarrow>
     (\<exists>x \<in> set rows. tkr_id x = k \<and> tk_PlayerID (tkr_ticket x) = p)"
  unfolding bex_onTicket leaveQueue_sel(1,3) [OF assms] by auto

lemma room_exists_seated:
  "(\<exists>x \<in> set (onRoom i (seatedRoom filled v f d) rows). rmr_room_id x = k \<and> rmr_capacity x = c) \<longleftrightarrow>
   (\<exists>x \<in> set rows. rmr_room_id x = k \<and> rmr_capacity x = c)"
  unfolding bex_onRoom seatedRoom_sel by auto

lemma roomMembers_cong: "db_memberships db' = db_memberships db \<Longrightarrow> roomMembers db' i = roomMembers db i"
  by (simp add: roomMembers_def)

lemma room_version_step:
  assumes "roomsInv db" "room \<in> set (db_rooms db)" "roomChecks (g room)" "rmr_aggregate_version (g room) = incInt64 (rmr_aggregate_version room)"
  shows "incInt64 (rmr_aggregate_version room) = rmr_aggregate_version room + 1" "incInt64 (rmr_aggregate_version room) < 2 ^ 63"
proof -
  have "0 < rmr_aggregate_version room" "rmr_aggregate_version room < 2 ^ 63" "0 < incInt64 (rmr_aggregate_version room)"
    using assms by (auto simp: roomsInv_def wellFilled_def roomChecks_def)
  then show "incInt64 (rmr_aggregate_version room) = rmr_aggregate_version room + 1" "incInt64 (rmr_aggregate_version room) < 2 ^ 63"
    using incInt64_checked by blast+
qed

lemma room_unique: "\<lbrakk>roomsInv db; r \<in> set (db_rooms db); room \<in> set (db_rooms db); rmr_room_id r = rmr_room_id room\<rbrakk> \<Longrightarrow> r = room"
  using distinct_map_unique [of rmr_room_id "db_rooms db"] unfolding roomsInv_def by blast

lemma seated_version:
  assumes "roomsInv db" "room \<in> set (db_rooms db)" "v = incInt64 (rmr_aggregate_version room)"
    and "\<forall>r \<in> set (db_rooms db). rmr_room_id r = rmr_room_id room \<longrightarrow> roomChecks (seatedRoom filled v f d r)"
  shows "v = rmr_aggregate_version room + 1" "v < 2 ^ 63"
  using room_version_step [OF assms(1,2), of "seatedRoom filled v f d"] assms by (simp_all add: seatedRoom_sel)

lemma roomsInv_lifecycle: "lifecycle db db' \<Longrightarrow> roomsInv db \<Longrightarrow> roomsInv db'"
proof (induction rule: lifecycle.induct)
  case (assign row db version t room filled roomVersion f d m s ev roomEv evs work)
  let ?rooms = "onRoom (rmr_room_id room) (seatedRoom filled roomVersion f d) (db_rooms db)"
  have unique: "r = room" if "r \<in> set (db_rooms db)" "rmr_room_id r = rmr_room_id room" for r
    using room_unique assign.prems assign.hyps(5) that by blast
  have members: "roomMembers (db\<lparr>db_tickets := T, db_rooms := R, db_memberships := db_memberships db @ [m], db_sessions := S, db_outbox := E, db_shadow_work := W\<rparr>) i
      = roomMembers db i @ (if i = rmr_room_id room then [m] else [])" for T R S E W i
    using assign.hyps(11) by (simp add: roomMembers_def)
  have "\<forall>r \<in> set ?rooms. wellFilled (length (roomMembers db (rmr_room_id r) @ (if rmr_room_id r = rmr_room_id room then [m] else []))) r"
    unfolding ball_onRoom seatedRoom_sel
  proof (rule ballI, rule conjI; rule impI)
    fix r assume "r \<in> set (db_rooms db)" "rmr_room_id r = rmr_room_id room"
    then have "r = room" by (rule unique)
    then show "wellFilled (length (roomMembers db (rmr_room_id r) @ (if rmr_room_id r = rmr_room_id room then [m] else []))) (seatedRoom filled roomVersion f d r)"
      using assign.hyps(5-8,10) seated_version(2) [OF assign.prems assign.hyps(5,9,10)] by (cases filled) (simp_all add: seatedRoom_sel wellFilled_def)
  qed (use assign.prems in \<open>auto simp: roomsInv_def\<close>)
  moreover have "map rmr_room_id ?rooms = map rmr_room_id (db_rooms db)" by (rule onRoom_map) (rule seatedRoom_sel(1))
  ultimately show ?case using assign.prems unfolding roomsInv_def members by simp
qed (simp_all add: roomsInv_def roomMembers_def)

lemma seatsInv_lifecycle: "lifecycle db db' \<Longrightarrow> seatsInv db \<Longrightarrow> ticketsInv db \<Longrightarrow> seatsInv db'"
proof (induction rule: lifecycle.induct)
  case (accept row db ev)
  have "tkr_id row \<notin> mb_ticket_id ` set (db_memberships db)"
    using accept.prems(1) accept.hyps(4) by (force simp: seatsInv_def ticketClash_def)
  then show ?case using accept by (auto simp: seatsInv_def)
next
  case (leave row db version change t cm ev)
  have c: "change = markCancelled t \<or> change = markExpired t \<or> change = markAssigned t" using leave.hyps(4) by blast
  have "change \<noteq> markAssigned t"
    using leave.hyps(4) leaveQueue_sel(7) [OF c, of 0 row] by (auto simp: leaveQueue_def markCancelled_def markExpired_def)
  moreover have "tkr_id row \<notin> mb_ticket_id ` set (db_memberships db)" using leave.hyps(1,2) leave.prems(1) by (auto simp: seatsInv_def)
  ultimately have "\<forall>x \<in> set (onTicket (tkr_id row) (leaveQueue change version) (db_tickets db)).
      tkr_status x = TicketAssigned \<longleftrightarrow> tkr_id x \<in> mb_ticket_id ` set (db_memberships db)"
    using leave.prems(1) unfolding ball_onTicket leaveQueue_sel [OF c] seatsInv_def by metis
  then show ?case using leave.prems(1) unfolding seatsInv_def by (simp add: ticket_owner_leave [OF c])
next
  case (assign row db version t room filled roomVersion f d m s ev roomEv evs work)
  have c: "markAssigned t = markCancelled t \<or> markAssigned t = markExpired t \<or> markAssigned t = markAssigned t" by blast
  have "\<forall>x \<in> set (onTicket (tkr_id row) (leaveQueue (markAssigned t) version) (db_tickets db)).
      tkr_status x = TicketAssigned \<longleftrightarrow> tkr_id x \<in> mb_ticket_id ` set (db_memberships db @ [m])"
    using assign.prems(1) assign.hyps(13) unfolding ball_onTicket leaveQueue_sel [OF c] seatsInv_def by auto
  moreover have "membershipKey m = sessionKey s" using assign.hyps(11,13,17-20) by (simp add: membershipKey_def sessionKey_def)
  moreover have "(mb_room_id m, mb_seat m) \<notin> set (map (\<lambda>m. (mb_room_id m, mb_seat m)) (db_memberships db))"
      "mb_ticket_id m \<notin> set (map mb_ticket_id (db_memberships db))"
      "(mb_room_id m, mb_player_id m) \<notin> set (map (\<lambda>m. (mb_room_id m, mb_player_id m)) (db_memberships db))"
    using assign.hyps(16) by (force simp: membershipClash_def)+
  moreover have "\<exists>x \<in> set (db_tickets db). tkr_id x = mb_ticket_id m \<and> tk_PlayerID (tkr_ticket x) = mb_player_id m"
      "\<exists>r \<in> set (db_rooms db). rmr_room_id r = mb_room_id m \<and> rmr_capacity r = mb_room_capacity m"
    using assign.hyps(1,5,11-14) by auto
  ultimately show ?case using assign.prems(1) assign.hyps(15) unfolding seatsInv_def
    by (simp add: ticket_owner_leave [OF c] room_exists_seated)
qed (simp_all add: seatsInv_def)

lemma ticketEvents_append: "ticketEvents (rows @ rows') i = ticketEvents rows i @ ticketEvents rows' i"
  by (simp add: ticketEvents_def)

lemma ticketEvents_announced:
  "announces ev outboxAggregateTicket k v \<Longrightarrow> ticketEvents [ev] i = (if i = k then [v] else [])"
  "announces ev outboxAggregateRoom k v \<Longrightarrow> ticketEvents [ev] i = []"
  by (simp_all add: ticketEvents_def announces_def outbox_names)

lemma aggregate_types: "outboxAggregateRoom \<noteq> outboxAggregateTicket" "outboxAggregateTicket \<noteq> ''result''" "outboxAggregateRoom \<noteq> ''result''"
  by (simp_all add: outbox_names)

text \<open>Aggregates are never forgotten and versions never go back.\<close>

lemma knownEvent_mono:
  assumes "knownEvent db e" "tkr_id ` set (db_tickets db) \<subseteq> tkr_id ` set (db_tickets db')"
    and "\<And>r. r \<in> set (db_rooms db) \<Longrightarrow> \<exists>r' \<in> set (db_rooms db'). rmr_room_id r' = rmr_room_id r \<and> rmr_aggregate_version r \<le> rmr_aggregate_version r'"
    and "\<And>v. \<lbrakk>v \<in> set (db_results db); vr_processed_at v \<noteq> None\<rbrakk> \<Longrightarrow> \<exists>v' \<in> set (db_results db'). vr_event_id v' = vr_event_id v \<and> vr_processed_at v' \<noteq> None"
  shows "knownEvent db' e"
proof -
  consider "ox_aggregate_type e = outboxAggregateTicket" "ox_aggregate_id e \<in> tkr_id ` set (db_tickets db)"
    | r where "ox_aggregate_type e = outboxAggregateRoom" "r \<in> set (db_rooms db)" "rmr_room_id r = ox_aggregate_id e" "ox_aggregate_version e \<le> rmr_aggregate_version r"
    | v where "ox_aggregate_type e = ''result''" "v \<in> set (db_results db)" "vr_event_id v = ox_aggregate_id e" "vr_processed_at v \<noteq> None"
    using assms(1) unfolding knownEvent_def by blast
  then show ?thesis
  proof cases
    case 1
    then show ?thesis using assms(2) unfolding knownEvent_def by blast
  next
    case (2 r)
    then obtain r' where "r' \<in> set (db_rooms db')" "rmr_room_id r' = ox_aggregate_id e" "ox_aggregate_version e \<le> rmr_aggregate_version r'"
      using assms(3) by fastforce
    then show ?thesis using 2(1) unfolding knownEvent_def by blast
  next
    case (3 v)
    then obtain v' where "v' \<in> set (db_results db')" "vr_event_id v' = ox_aggregate_id e" "vr_processed_at v' \<noteq> None" using assms(4) by metis
    then show ?thesis using 3(1) unfolding knownEvent_def by blast
  qed
qed

lemma eventsInv_known: "eventsInv db \<Longrightarrow> e \<in> set (db_outbox db) \<Longrightarrow> knownEvent db e"
  by (simp add: eventsInv_def)

lemma onRoom_later:
  assumes "r \<in> set rows" "\<And>x. rmr_room_id (g x) = rmr_room_id x" "rmr_room_id r = i \<Longrightarrow> rmr_aggregate_version r \<le> rmr_aggregate_version (g r)"
  shows "\<exists>r' \<in> set (onRoom i g rows). rmr_room_id r' = rmr_room_id r \<and> rmr_aggregate_version r \<le> rmr_aggregate_version r'"
  using assms by (intro bexI [of _ "if rmr_room_id r = i then g r else r"]) (auto simp: onRoom_def)

lemma knownEvent_room:
  assumes "announces ev outboxAggregateRoom i version" "r \<in> set (db_rooms db)" "rmr_room_id r = i" "version \<le> rmr_aggregate_version r"
  shows "knownEvent db ev"
  using assms by (auto simp: knownEvent_def announces_def)

lemma knownEvent_ticket: "announces ev outboxAggregateTicket i version \<Longrightarrow> i \<in> tkr_id ` set (db_tickets db) \<Longrightarrow> knownEvent db ev"
  by (simp add: knownEvent_def announces_def)

lemma ticketEvents_unknown:
  assumes "eventsInv db" "i \<notin> tkr_id ` set (db_tickets db)"
  shows "ticketEvents (db_outbox db) i = []"
proof -
  have "\<forall>e \<in> set (db_outbox db). \<not> (ox_aggregate_type e = outboxAggregateTicket \<and> ox_aggregate_id e = i)"
    using assms aggregate_types unfolding eventsInv_def knownEvent_def by metis
  then show ?thesis by (simp add: ticketEvents_def filter_empty_conv)
qed

text \<open>The version of a queued ticket is one, so leaving the queue announces version two after version one.\<close>

lemma ticketEvents_leave:
  assumes inv: "eventsInv db" "ticketsInv db" and row: "row \<in> set (db_tickets db)" "tkr_status row = TicketQueued"
    and change: "change = markCancelled t \<or> change = markExpired t \<or> change = markAssigned t" and v: "v = incInt64 (tk_AggregateVersion (tkr_ticket row))"
    and new: "\<And>i. ticketEvents evs i = (if i = tkr_id row then [v] else [])"
  shows "\<forall>x \<in> set (onTicket (tkr_id row) (leaveQueue change v) (db_tickets db)).
    ticketEvents (db_outbox db @ evs) (tkr_id x) = [1..tk_AggregateVersion (tkr_ticket x)]"
proof -
  have "tk_AggregateVersion (tkr_ticket row) = 1" using inv(2) row by (simp add: ticketsInv_def)
  then have "v = 2" "ticketEvents (db_outbox db) (tkr_id row) = [1]" using v inv(1) row(1) by (auto simp: incInt64_1 eventsInv_def)
  moreover have "[1..2 :: int] = [1, 2]" by (simp add: upto.simps)
  ultimately show ?thesis using inv(1)
    unfolding ball_onTicket leaveQueue_sel(1,4) [OF change] ticketEvents_append new by (auto simp: eventsInv_def)
qed

lemma fresh_event_id: "fresh ev rows \<Longrightarrow> ox_event_id ev \<notin> set (map ox_event_id rows)"
  by (force simp: outboxClash_def)

lemma eventsInv_lifecycle: "lifecycle db db' \<Longrightarrow> eventsInv db \<Longrightarrow> ticketsInv db \<Longrightarrow> roomsInv db \<Longrightarrow> eventsInv db'"
proof (induction rule: lifecycle.induct)
  case (accept row db ev)
  let ?db = "db\<lparr>db_tickets := db_tickets db @ [row], db_outbox := db_outbox db @ [ev]\<rparr>"
  have new: "tkr_id row \<notin> tkr_id ` set (db_tickets db)" using accept.hyps(4) by (auto simp: ticketClash_def)
  have "\<forall>x \<in> set (db_tickets db @ [row]). ticketEvents (db_outbox db @ [ev]) (tkr_id x) = [1..tk_AggregateVersion (tkr_ticket x)]"
    using accept.prems(1) accept.hyps(3) new ticketEvents_unknown [OF accept.prems(1) new]
    by (auto simp: ticketEvents_append ticketEvents_announced(1) [OF accept.hyps(6)] eventsInv_def image_iff)
  moreover have "knownEvent ?db e" if "e \<in> set (db_outbox db)" for e
    by (rule knownEvent_mono [OF eventsInv_known [OF accept.prems(1) that]]) auto
  moreover have "knownEvent ?db ev" by (rule knownEvent_ticket [OF accept.hyps(6)]) simp
  ultimately show ?case using accept.prems(1) fresh_event_id [OF accept.hyps(7)] unfolding eventsInv_def by auto
next
  case (leave row db version change t cm ev)
  let ?db = "db\<lparr>db_tickets := onTicket (tkr_id row) (leaveQueue change version) (db_tickets db), db_commands := db_commands db @ [cm], db_outbox := db_outbox db @ [ev]\<rparr>"
  have c: "change = markCancelled t \<or> change = markExpired t \<or> change = markAssigned t" using leave.hyps(4) by blast
  note events = ticketEvents_leave [OF leave.prems(1,2) leave.hyps(1,2) c leave.hyps(3) ticketEvents_announced(1) [OF leave.hyps(7)]]
  have "knownEvent ?db e" if "e \<in> set (db_outbox db)" for e
    by (rule knownEvent_mono [OF eventsInv_known [OF leave.prems(1) that]]) (auto simp: ticket_ids_leave [OF c])
  moreover have "knownEvent ?db ev"
    by (rule knownEvent_ticket [OF leave.hyps(7)]) (use leave.hyps(1) in \<open>simp add: ticket_ids_leave [OF c]\<close>)
  ultimately show ?case using leave.prems(1) events fresh_event_id [OF leave.hyps(8)] unfolding eventsInv_def by auto
next
  case (observe row db cm)
  then show ?case by (simp add: eventsInv_def knownEvent_def)
next
  case (assign row db version t room filled roomVersion f d m s ev roomEv evs work)
  have c: "markAssigned t = markCancelled t \<or> markAssigned t = markExpired t \<or> markAssigned t = markAssigned t" by blast
  let ?db = "db\<lparr>db_tickets := onTicket (tkr_id row) (leaveQueue (markAssigned t) version) (db_tickets db),
      db_rooms := onRoom (rmr_room_id room) (seatedRoom filled roomVersion f d) (db_rooms db), db_memberships := db_memberships db @ [m],
      db_sessions := db_sessions db @ [s], db_outbox := db_outbox db @ evs, db_shadow_work := work\<rparr>"
  have new: "ticketEvents evs i = (if i = tkr_id row then [version] else [])" for i
    using assign.hyps(24,26) ticketEvents_announced ticketEvents_append [of "[ev]" "[roomEv]" i] by (auto split: if_splits)
  note events = ticketEvents_leave [OF assign.prems(1,2) assign.hyps(1,2) c assign.hyps(3) new]
  note later = seated_version(1) [OF assign.prems(3) assign.hyps(5,9,10)]
  have old: "knownEvent ?db e" if "e \<in> set (db_outbox db)" for e
  proof (rule knownEvent_mono [OF eventsInv_known [OF assign.prems(1) that]])
    show "\<exists>r' \<in> set (db_rooms ?db). rmr_room_id r' = rmr_room_id r \<and> rmr_aggregate_version r \<le> rmr_aggregate_version r'" if "r \<in> set (db_rooms db)" for r
      using that room_unique [OF assign.prems(3) that assign.hyps(5)] later by (simp, intro onRoom_later) (auto simp: seatedRoom_sel)
  qed (auto simp: ticket_ids_leave [OF c])
  have "knownEvent ?db ev" by (rule knownEvent_ticket [OF assign.hyps(24)]) (use assign.hyps(1) in \<open>simp add: ticket_ids_leave [OF c]\<close>)
  moreover have "knownEvent ?db roomEv" if filled
  proof (rule knownEvent_room)
    show "announces roomEv outboxAggregateRoom (rmr_room_id room) roomVersion" using assign.hyps(26) that by simp
    show "seatedRoom filled roomVersion f d room \<in> set (db_rooms ?db)" using assign.hyps(5) by (force simp: onRoom_def)
  qed (simp_all add: seatedRoom_sel)
  ultimately have rows: "\<forall>e \<in> set evs. knownEvent ?db e" using assign.hyps(26) by (auto split: if_splits)
  have ids: "distinct (map ox_event_id (db_outbox db @ evs))"
    using assign.prems(1) assign.hyps(25,26) fresh_event_id by (fastforce simp: eventsInv_def outboxClash_def split: if_splits)
  show ?case using events rows ids old unfolding eventsInv_def by auto
qed

section \<open>The order of delivery\<close>

lemma orderInv_append:
  assumes "orderInv collate db" "db_outbox db' = db_outbox db @ evs"
    and "\<forall>ev \<in> set evs. ox_claimed_by ev = None \<and> ox_delivered_at ev = None \<and> (\<forall>e \<in> set (db_outbox db). \<not> outboxPrecedes collate ev e)"
  shows "orderInv collate db'"
  using assms unfolding orderInv_def by auto

lemma orderInv_cong: "db_outbox db' = db_outbox db \<Longrightarrow> orderInv collate db' = orderInv collate db"
  by (simp only: orderInv_def)

lemma ticket_event_last:
  assumes "announces ev outboxAggregateTicket i v" "set (ticketEvents (db_outbox db) i) \<subseteq> {..<v}"
  shows "\<forall>e \<in> set (db_outbox db). \<not> outboxPrecedes collate ev e"
proof (rule ballI, rule notI)
  fix e assume e: "e \<in> set (db_outbox db)" "outboxPrecedes collate ev e"
  then have "ox_aggregate_version e \<in> set (ticketEvents (db_outbox db) i)" "v \<le> ox_aggregate_version e"
    using assms(1) by (auto simp: outboxPrecedes_def announces_def ticketEvents_def)
  then show False using assms(2) by auto
qed

lemma queued_events:
  assumes "eventsInv db" "ticketsInv db" "row \<in> set (db_tickets db)" "tkr_status row = TicketQueued"
  shows "set (ticketEvents (db_outbox db) (tkr_id row)) \<subseteq> {..<incInt64 (tk_AggregateVersion (tkr_ticket row))}"
proof -
  have "tk_AggregateVersion (tkr_ticket row) = 1" using assms by (simp add: ticketsInv_def)
  then show ?thesis using assms(1,3) by (auto simp: eventsInv_def incInt64_1)
qed

lemma room_event_last:
  assumes "roomsInv db" "\<forall>e \<in> set (db_outbox db). knownEvent db e" "room \<in> set (db_rooms db)"
    and "announces ev outboxAggregateRoom (rmr_room_id room) version" "rmr_aggregate_version room < version"
  shows "\<forall>e \<in> set (db_outbox db). \<not> outboxPrecedes collate ev e"
proof (rule ballI, rule notI)
  fix e assume e: "e \<in> set (db_outbox db)" "outboxPrecedes collate ev e"
  then have "ox_aggregate_type e = outboxAggregateRoom" "ox_aggregate_id e = rmr_room_id room" "version \<le> ox_aggregate_version e"
    using assms(4) by (auto simp: outboxPrecedes_def announces_def)
  moreover obtain r where "r \<in> set (db_rooms db)" "rmr_room_id r = ox_aggregate_id e" "ox_aggregate_version e \<le> rmr_aggregate_version r"
    using assms(2) e(1) calculation(1) aggregate_types unfolding knownEvent_def by metis
  ultimately show False using room_unique [OF assms(1) _ assms(3), of r] assms(5) by simp
qed

lemma orderInv_lifecycle: "lifecycle db db' \<Longrightarrow> orderInv collate db \<Longrightarrow> eventsInv db \<Longrightarrow> ticketsInv db \<Longrightarrow> roomsInv db \<Longrightarrow> orderInv collate db'"
proof (induction rule: lifecycle.induct)
  case (accept row db ev)
  have "tkr_id row \<notin> tkr_id ` set (db_tickets db)" using accept.hyps(4) by (auto simp: ticketClash_def)
  then have "ticketEvents (db_outbox db) (tkr_id row) = []" by (rule ticketEvents_unknown [OF accept.prems(2)])
  then have "\<forall>e \<in> set (db_outbox db). \<not> outboxPrecedes collate ev e" by (intro ticket_event_last [OF accept.hyps(6)]) simp
  then show ?case using accept.hyps(6)
    by (intro orderInv_append [OF accept.prems(1), of _ "[ev]"]) (auto simp: announces_def)
next
  case (leave row db version change t cm ev)
  have "\<forall>e \<in> set (db_outbox db). \<not> outboxPrecedes collate ev e"
    by (rule ticket_event_last [OF leave.hyps(7)]) (unfold leave.hyps(3), rule queued_events [OF leave.prems(2,3) leave.hyps(1,2)])
  then show ?case using leave.hyps(7)
    by (intro orderInv_append [OF leave.prems(1), of _ "[ev]"]) (auto simp: announces_def)
next
  case (observe row db cm)
  show ?case by (rule orderInv_cong [THEN iffD2, OF _ observe.prems(1)]) simp
next
  case (assign row db version t room filled roomVersion f d m s ev roomEv evs work)
  have "\<forall>e \<in> set (db_outbox db). \<not> outboxPrecedes collate roomEv e" if filled
    using assign.prems(2) assign.hyps(26) that seated_version(1) [OF assign.prems(4) assign.hyps(5,9,10)]
    by (intro room_event_last [OF assign.prems(4) _ assign.hyps(5), of _ roomVersion]) (auto simp: eventsInv_def)
  moreover have "\<forall>e \<in> set (db_outbox db). \<not> outboxPrecedes collate ev e"
    by (rule ticket_event_last [OF assign.hyps(24)]) (unfold assign.hyps(3), rule queued_events [OF assign.prems(2,3) assign.hyps(1,2)])
  ultimately show ?case using assign.hyps(24,26)
    by (intro orderInv_append [OF assign.prems(1), of _ evs]) (auto simp: announces_def split: if_splits)
qed

text \<open>What one statement of the outbox queue does to a row.\<close>

definition sameEvent :: "OutboxRow \<Rightarrow> OutboxRow \<Rightarrow> bool" where
  "sameEvent r r' \<longleftrightarrow> ox_event_id r' = ox_event_id r \<and> ox_aggregate_type r' = ox_aggregate_type r \<and> ox_aggregate_id r' = ox_aggregate_id r \<and>
     ox_aggregate_version r' = ox_aggregate_version r \<and> ox_event_type r' = ox_event_type r"

definition eventMove :: "collation \<Rightarrow> OutboxRow list \<Rightarrow> OutboxRow \<Rightarrow> OutboxRow \<Rightarrow> bool" where
  "eventMove collate rows r r' \<longleftrightarrow> sameEvent r r' \<and>
     (r' = r \<or> ox_delivered_at r = None \<and>
       (ox_delivered_at r' = None \<and> (\<forall>p \<in> set rows. outboxPrecedes collate p r \<longrightarrow> ox_delivered_at p \<noteq> None) \<or>
        ox_delivered_at r' = None \<and> ox_claimed_by r' = None \<or>
        ox_claimed_by r \<noteq> None \<and> ox_claimed_by r' = None))"

definition outboxMoved :: "collation \<Rightarrow> Database \<Rightarrow> Database \<Rightarrow> bool" where
  "outboxMoved collate db db' \<longleftrightarrow> (\<exists>f. db' = db\<lparr>db_outbox := map f (db_outbox db)\<rparr> \<and> (\<forall>r \<in> set (db_outbox db). eventMove collate (db_outbox db) r (f r)))"

lemma precedes_same: "sameEvent p p' \<Longrightarrow> sameEvent e e' \<Longrightarrow> outboxPrecedes collate p' e' = outboxPrecedes collate p e"
  by (simp add: sameEvent_def outboxPrecedes_def)

lemma orderInv_moved:
  assumes "outboxMoved collate db db'" "orderInv collate db"
  shows "orderInv collate db'"
proof -
  obtain f where f: "db' = db\<lparr>db_outbox := map f (db_outbox db)\<rparr>" "\<forall>r \<in> set (db_outbox db). eventMove collate (db_outbox db) r (f r)"
    using assms(1) unfolding outboxMoved_def by blast
  have kept: "ox_delivered_at (f p) \<noteq> None" if "p \<in> set (db_outbox db)" "ox_delivered_at p \<noteq> None" for p
    using f(2) that by (auto simp: eventMove_def)
  have "ox_delivered_at (f p) \<noteq> None"
    if e: "e \<in> set (db_outbox db)" and p: "p \<in> set (db_outbox db)" and "outboxPrecedes collate (f p) (f e)"
      and taken: "ox_claimed_by (f e) \<noteq> None \<or> ox_delivered_at (f e) \<noteq> None" for e p
  proof -
    have move: "eventMove collate (db_outbox db) e (f e)" "eventMove collate (db_outbox db) p (f p)" using f(2) e p by auto
    then have pre: "outboxPrecedes collate p e" using that(3) precedes_same unfolding eventMove_def by blast
    have "ox_delivered_at p \<noteq> None" using move(1) pre taken e p assms(2) unfolding eventMove_def orderInv_def by metis
    then show ?thesis by (rule kept [OF p])
  qed
  then show ?thesis by (auto simp: orderInv_def f(1))
qed

lemma knownEvent_same:
  assumes "sameEvent e e'" "db_tickets db' = db_tickets db" "db_rooms db' = db_rooms db" "db_results db' = db_results db"
  shows "knownEvent db' e' = knownEvent db e"
  using assms by (simp add: sameEvent_def knownEvent_def)

lemma invariants_moved:
  assumes "outboxMoved collate db db'"
  shows "ticketsInv db \<Longrightarrow> ticketsInv db'" "roomsInv db \<Longrightarrow> roomsInv db'" "seatsInv db \<Longrightarrow> seatsInv db'" "eventsInv db \<Longrightarrow> eventsInv db'"
proof -
  obtain f where f: "db' = db\<lparr>db_outbox := map f (db_outbox db)\<rparr>" "\<forall>r \<in> set (db_outbox db). sameEvent r (f r)"
    using assms unfolding outboxMoved_def eventMove_def by blast
  have ids: "map ox_event_id (map f (db_outbox db)) = map ox_event_id (db_outbox db)" using f(2) by (simp add: sameEvent_def)
  have "filter P (map f rows) = map f (filter P rows)" if "\<And>r. r \<in> set rows \<Longrightarrow> P (f r) = P r" for P rows
    using that by (induction rows) auto
  then have events: "ticketEvents (map f (db_outbox db)) i = ticketEvents (db_outbox db) i" for i
    using f(2) by (simp add: ticketEvents_def sameEvent_def)
  show "ticketsInv db \<Longrightarrow> ticketsInv db'" "roomsInv db \<Longrightarrow> roomsInv db'" "seatsInv db \<Longrightarrow> seatsInv db'"
    by (simp_all add: f(1) ticketsInv_def roomsInv_def seatsInv_def roomMembers_def)
  assume inv: "eventsInv db"
  then have "distinct (map ox_event_id (map f (db_outbox db)))" unfolding ids by (simp add: eventsInv_def)
  moreover have "\<forall>t \<in> set (db_tickets db). ticketEvents (map f (db_outbox db)) (tkr_id t) = [1..tk_AggregateVersion (tkr_ticket t)]"
    unfolding events using inv by (simp add: eventsInv_def)
  moreover have "knownEvent db' (f e)" if "e \<in> set (db_outbox db)" for e
    using f inv that knownEvent_same [of e "f e" db' db] by (simp add: eventsInv_def)
  ultimately show "eventsInv db'" unfolding eventsInv_def by (simp add: f(1))
qed

lemma updateOutbox_moved:
  assumes "updateOutbox hit change db = Inr (n, db')"
    and "\<And>r. \<lbrakk>r \<in> set (db_outbox db); hit r\<rbrakk> \<Longrightarrow> eventMove collate (db_outbox db) r (change r)"
  shows "outboxMoved collate db db'"
  unfolding outboxMoved_def
  by (rule exI [of _ "\<lambda>r. if hit r then change r else r"]) (use assms in \<open>auto simp: updateOutbox_def updateRows_Inr eventMove_def sameEvent_def\<close>)

lemma execUpdate_moved:
  assumes "execUpdate flt operation lost hit change db = (e, db')" "db' \<noteq> db"
    and "\<And>r. \<lbrakk>r \<in> set (db_outbox db); hit r\<rbrakk> \<Longrightarrow> eventMove collate (db_outbox db) r (change r)"
  shows "outboxMoved collate db db'"
proof -
  obtain n where "updateOutbox hit change db = Inr (n, db')"
    using assms(1,2) autoCommit_effect [of flt operation db "updateOutbox hit change db"]
    unfolding execUpdate_def by (cases "autoCommit flt operation db (updateOutbox hit change db)") (auto split: sum.splits)
  then show ?thesis by (rule updateOutbox_moved) (rule assms(3))
qed

lemma fenced_moves:
  assumes "sameEvent r (change r)" "ox_claimed_by (change r) = None" "holdsLease clock i token r"
  shows "eventMove collate rows r (change r)"
  using assms by (auto simp: eventMove_def holdsLease_def)

lemma claim_moved:
  assumes "claimStatement collate locked request db = Inr (rows, db')" "distinct (map ox_event_id (db_outbox db))"
  shows "outboxMoved collate db db'"
proof -
  let ?due = "dueEvents collate locked request (db_outbox db)"
  have due: "eventMove collate (db_outbox db) r (claimEvent request r)"
    if r: "r \<in> set (db_outbox db)" "ox_event_id r \<in> set (map ox_event_id ?due)" for r
  proof -
    obtain x where x: "x \<in> set ?due" "ox_event_id x = ox_event_id r" using r(2) by auto
    have "x \<in> set (filter (outboxDue collate locked (pgTime (ocr_ClaimedAt request)) (db_outbox db)) (db_outbox db))"
      using x(1) in_set_takeD unfolding dueEvents_def by (metis set_sort_cmp)
    then have "x \<in> set (db_outbox db)" "outboxDue collate locked (pgTime (ocr_ClaimedAt request)) (db_outbox db) x" by auto
    moreover have "x = r" using distinct_map_unique [OF assms(2)] calculation(1) r(1) x(2) by blast
    ultimately show ?thesis by (auto simp: eventMove_def sameEvent_def claimEvent_def outboxDue_def list_ex_iff)
  qed
  have "\<exists>n. updateOutbox (\<lambda>r. ox_event_id r \<in> set (map ox_event_id ?due)) (claimEvent request) db = Inr (n, db')"
    using assms(1) by (auto simp: claimStatement_def Let_def updateOutbox_def split: if_splits)
  then show ?thesis using updateOutbox_moved due by metis
qed

lemma ClaimOutboxEvents_moved:
  assumes "ClaimOutboxEvents collate locked jsonText flt db request = (res, db')" "db' \<noteq> db" "distinct (map ox_event_id (db_outbox db))"
  shows "outboxMoved collate db db'"
proof -
  obtain rows where "claimStatement collate locked request db = Inr (rows, db')"
    using assms(1,2) autoCommit_effect [of flt "''claim outbox events''" db "claimStatement collate locked request db"]
    unfolding ClaimOutboxEvents_def
    by (cases "autoCommit flt ''claim outbox events'' db (claimStatement collate locked request db)") (auto split: option.splits sum.splits)
  then show ?thesis using claim_moved assms(3) by blast
qed

text \<open>The updates of the queue on ticket rows: schedule and claim only.\<close>

definition ticketsRescheduled :: "Database \<Rightarrow> Database \<Rightarrow> bool" where
  "ticketsRescheduled db db' \<longleftrightarrow> (\<exists>f. db' = db\<lparr>db_tickets := map f (db_tickets db)\<rparr> \<and>
     (\<forall>r \<in> set (db_tickets db). tkr_ticket (f r) = tkr_ticket r \<and> tkr_request_digest (f r) = tkr_request_digest r \<and> (ticketChecks r \<longrightarrow> ticketChecks (f r))))"

lemma updateRows_rescheduled:
  assumes "updateRows hit change ticketChecks (db_tickets db) = Inr (rows, n)"
    and "\<And>r. tkr_ticket (change r) = tkr_ticket r" "\<And>r. tkr_request_digest (change r) = tkr_request_digest r"
  shows "ticketsRescheduled db (db\<lparr>db_tickets := rows\<rparr>)"
  unfolding ticketsRescheduled_def
  by (rule exI [of _ "\<lambda>r. if hit r then change r else r"]) (use assms in \<open>auto simp: updateRows_Inr\<close>)

lemma ClaimMatchmakingTickets_rescheduled:
  assumes "ClaimMatchmakingTickets collate locked flt db request = (res, db')" "db' \<noteq> db"
  shows "ticketsRescheduled db db'"
proof -
  obtain rows where "claimTicketsStatement collate locked request db = Inr (rows, db')"
    using assms autoCommit_effect [of flt "''claim queued tickets''" db "claimTicketsStatement collate locked request db"]
    unfolding ClaimMatchmakingTickets_def
    by (cases "autoCommit flt ''claim queued tickets'' db (claimTicketsStatement collate locked request db)") (auto split: option.splits sum.splits)
  then obtain rows n where "updateRows (\<lambda>r. tkr_id r \<in> set (map tkr_id (dueTickets collate locked request (db_tickets db)))) (claimTicket request) ticketChecks (db_tickets db) = Inr (rows, n)"
      "db' = db\<lparr>db_tickets := rows\<rparr>"
    by (auto simp: claimTicketsStatement_def Let_def split: if_splits)
  then show ?thesis using updateRows_rescheduled [of _ "claimTicket request"] by (simp add: claimTicket_def)
qed

lemma ScheduleTicketRetry_rescheduled:
  assumes "ScheduleTicketRetry clock flt db i token t = (res, db')" "db' \<noteq> db"
  shows "ticketsRescheduled db db'"
proof -
  let ?change = "\<lambda>r. r\<lparr>tkr_next_attempt_at := Some (pgTime t), tkr_claim_token := None, tkr_claimed_until := None\<rparr>"
  let ?update = "rbind (updateRows (holdsTicketLease clock i token) ?change ticketChecks (db_tickets db)) (\<lambda>(rows, n). Inr (n, db\<lparr>db_tickets := rows\<rparr>))"
  obtain n where "?update = Inr (n, db')"
    using assms autoCommit_effect [of flt "''schedule ticket retry''" db ?update]
    unfolding ScheduleTicketRetry_def by (cases "autoCommit flt ''schedule ticket retry'' db ?update") (auto split: if_splits sum.splits)
  then obtain rows n where "updateRows (holdsTicketLease clock i token) ?change ticketChecks (db_tickets db) = Inr (rows, n)" "db' = db\<lparr>db_tickets := rows\<rparr>"
    by auto
  then show ?thesis using updateRows_rescheduled [of _ ?change] by simp
qed

end
