(* ===== verification/Result_Invariants.thy ===== *)
theory Result_Invariants
  imports Store_Invariants
begin

text \<open>
  Invariants of results and ratings: a room is completed exactly by its one verified result, sessions end with their room, and every
  processed result has rated each of its participants once on top of an unbroken history.
\<close>

section \<open>Invariants\<close>

fun sessionFits :: "RoomStatus \<Rightarrow> SessionRow \<Rightarrow> bool" where
  "sessionFits RoomForming s = (sn_status s = SessionAllocated)"
| "sessionFits RoomCollecting s = (sn_status s = SessionAllocated)"
| "sessionFits RoomCompleted s = finished s"
| "sessionFits RoomExpired s = (sn_status s = SessionForfeited)"
| "sessionFits RoomCancelled s = True"

definition sessionsInv :: "Database \<Rightarrow> bool" where
  "sessionsInv db \<longleftrightarrow> distinct (map sn_session_id (db_sessions db)) \<and>
     (\<forall>s \<in> set (db_sessions db). \<exists>r \<in> set (db_rooms db). rmr_room_id r = sn_room_id s \<and> sessionFits (rmr_status r) s)"

definition eventParticipants :: "Database \<Rightarrow> string \<Rightarrow> ParticipantRow list" where
  "eventParticipants db eventID = filter (\<lambda>p. pt_event_id p = eventID) (db_participants db)"

definition resultsInv :: "Database \<Rightarrow> bool" where
  "resultsInv db \<longleftrightarrow> distinct (map vr_event_id (db_results db)) \<and> distinct (map vr_room_id (db_results db)) \<and> distinct (map pt_session_id (db_participants db)) \<and>
     (\<forall>v \<in> set (db_results db). resultChecks v \<and>
        (\<exists>r \<in> set (db_rooms db). rmr_room_id r = vr_room_id v \<and> rmr_capacity r = vr_room_capacity v \<and> rmr_status r = RoomCompleted) \<and>
        int (length (eventParticipants db (vr_event_id v))) = vr_room_capacity v) \<and>
     (\<forall>r \<in> set (db_rooms db). rmr_status r = RoomCompleted \<longrightarrow> rmr_room_id r \<in> vr_room_id ` set (db_results db)) \<and>
     (\<forall>p \<in> set (db_participants db). (\<exists>v \<in> set (db_results db). vr_event_id v = pt_event_id p \<and> vr_room_id v = pt_room_id p) \<and> playsIn (db_sessions db) p)"

definition eventUpdates :: "Database \<Rightarrow> string \<Rightarrow> RatingUpdateRow list" where
  "eventUpdates db eventID = filter (\<lambda>u. rur_source_event_id u = eventID) (db_rating_updates db)"

definition ratedOnce :: "Database \<Rightarrow> ResultRow \<Rightarrow> bool" where
  "ratedOnce db v \<longleftrightarrow> distinct (map rur_player_id (eventUpdates db (vr_event_id v))) \<and>
     rur_player_id ` set (eventUpdates db (vr_event_id v)) =
       (if vr_processed_at v = None then {} else pt_player_id ` set (eventParticipants db (vr_event_id v)))"

definition ratingsInv :: "Database \<Rightarrow> bool" where
  "ratingsInv db \<longleftrightarrow> ratingTables (db_ratings db) (db_rating_updates db) \<and> (\<forall>v \<in> set (db_results db). ratedOnce db v) \<and>
     (\<forall>u \<in> set (db_rating_updates db). rur_source_event_id u \<in> vr_event_id ` set (db_results db))"

section \<open>Tickets\<close>

lemma seated_status:
  assumes "roomsInv db" "room \<in> set (db_rooms db)" "rmr_status room = RoomForming" "r \<in> set (db_rooms db)" "rmr_status r = RoomCompleted"
  shows "rmr_room_id r \<noteq> rmr_room_id room"
  using room_unique [OF assms(1,4,2)] assms(3,5) by auto

lemma resultsInv_lifecycle: "lifecycle db db' \<Longrightarrow> resultsInv db \<Longrightarrow> roomsInv db \<Longrightarrow> resultsInv db'"
proof (induction rule: lifecycle.induct)
  case (assign row db version t room filled roomVersion f d m s ev roomEv evs work)
  let ?rooms = "onRoom (rmr_room_id room) (seatedRoom filled roomVersion f d) (db_rooms db)"
  note apart = seated_status [OF assign.prems(2) assign.hyps(5,6)]
  have kept: "\<exists>r \<in> set ?rooms. rmr_room_id r = i \<and> rmr_capacity r = c \<and> rmr_status r = RoomCompleted"
    if "\<exists>r \<in> set (db_rooms db). rmr_room_id r = i \<and> rmr_capacity r = c \<and> rmr_status r = RoomCompleted" for i c
    using that apart unfolding bex_onRoom seatedRoom_sel by blast
  have "\<forall>r \<in> set ?rooms. rmr_status r = RoomCompleted \<longrightarrow> rmr_room_id r \<in> vr_room_id ` set (db_results db)"
    using assign.prems(1) assign.hyps(6) unfolding ball_onRoom seatedRoom_sel resultsInv_def by (auto split: if_splits dest: apart)
  moreover have "playsIn (db_sessions db @ [s]) p" if "playsIn (db_sessions db) p" for p using that by (auto simp: playsIn_def)
  ultimately show ?case using assign.prems(1) kept unfolding resultsInv_def by (simp add: eventParticipants_def)
qed (simp_all add: resultsInv_def eventParticipants_def)

lemma sessionsInv_lifecycle: "lifecycle db db' \<Longrightarrow> sessionsInv db \<Longrightarrow> roomsInv db \<Longrightarrow> sessionsInv db'"
proof (induction rule: lifecycle.induct)
  case (assign row db version t room filled roomVersion f d m s ev roomEv evs work)
  let ?rooms = "onRoom (rmr_room_id room) (seatedRoom filled roomVersion f d) (db_rooms db)"
  have old: "\<exists>r \<in> set ?rooms. rmr_room_id r = sn_room_id x \<and> sessionFits (rmr_status r) x" if x: "x \<in> set (db_sessions db)" for x
  proof -
    obtain r where r: "r \<in> set (db_rooms db)" "rmr_room_id r = sn_room_id x" "sessionFits (rmr_status r) x"
      using assign.prems(1) x unfolding sessionsInv_def by blast
    have "rmr_room_id r = rmr_room_id room \<longrightarrow> rmr_status r = RoomForming"
      using room_unique [OF assign.prems(2) r(1) assign.hyps(5)] assign.hyps(6) by auto
    then show ?thesis using r unfolding bex_onRoom seatedRoom_sel by (intro bexI [OF _ r(1)]) auto
  qed
  have new: "\<exists>r \<in> set ?rooms. rmr_room_id r = sn_room_id s \<and> sessionFits (rmr_status r) s"
    using assign.hyps(5,6,18,22) unfolding bex_onRoom seatedRoom_sel by (intro bexI [of _ room]) auto
  have "sn_session_id s \<notin> sn_session_id ` set (db_sessions db)" using assign.hyps(23) by (auto simp: sessionClash_def)
  then show ?case using assign.prems(1) old new unfolding sessionsInv_def by auto
qed (simp_all add: sessionsInv_def)

lemma ratingsInv_cong:
  assumes "db_ratings db' = db_ratings db" "db_rating_updates db' = db_rating_updates db" "db_results db' = db_results db" "db_participants db' = db_participants db"
  shows "ratingsInv db' = ratingsInv db"
  using assms by (simp add: ratingsInv_def ratedOnce_def eventUpdates_def eventParticipants_def)

lemma lifecycle_ratings:
  "lifecycle db db' \<Longrightarrow> db_ratings db' = db_ratings db \<and> db_rating_updates db' = db_rating_updates db \<and> db_results db' = db_results db \<and> db_participants db' = db_participants db"
  by (induction rule: lifecycle.induct) simp_all

lemma ratingsInv_lifecycle: "lifecycle db db' \<Longrightarrow> ratingsInv db \<Longrightarrow> ratingsInv db'"
  using lifecycle_ratings ratingsInv_cong by blast

section \<open>Terminal transitions of rooms\<close>

lemma completedRoom_sel [simp]:
  "rmr_room_id (completedRoom v t r) = rmr_room_id r" "rmr_capacity (completedRoom v t r) = rmr_capacity r" "rmr_status (completedRoom v t r) = RoomCompleted"
  "rmr_aggregate_version (completedRoom v t r) = v"
  by (simp_all add: completedRoom_def)

text \<open>
  Both transitions replace a collecting room by a settled one with the next version, keep who sits where, and announce that
  version. The invariants that say nothing about results need no more than that.
\<close>

definition settlesRoom :: "Database \<Rightarrow> Database \<Rightarrow> RoomRow \<Rightarrow> (RoomRow \<Rightarrow> RoomRow) \<Rightarrow> (SessionRow \<Rightarrow> SessionRow) \<Rightarrow> OutboxRow \<Rightarrow> bool" where
  "settlesRoom db db' room g f ev \<longleftrightarrow> room \<in> set (db_rooms db) \<and> rmr_status room = RoomCollecting \<and>
     (\<forall>r. rmr_room_id (g r) = rmr_room_id r \<and> rmr_capacity (g r) = rmr_capacity r) \<and> rmr_status (g room) \<in> {RoomCompleted, RoomExpired} \<and>
     roomChecks (g room) \<and> rmr_aggregate_version (g room) = rmr_aggregate_version room + 1 \<and> rmr_aggregate_version room + 1 < 2 ^ 63 \<and>
     (\<forall>s \<in> set (db_sessions db). sameSession s (f s)) \<and>
     announces ev outboxAggregateRoom (rmr_room_id room) (rmr_aggregate_version room + 1) \<and> fresh ev (db_outbox db) \<and>
     db_rooms db' = onRoom (rmr_room_id room) g (db_rooms db) \<and> db_sessions db' = map f (db_sessions db) \<and> db_outbox db' = db_outbox db @ [ev] \<and>
     db_tickets db' = db_tickets db \<and> db_memberships db' = db_memberships db \<and> db_ratings db' = db_ratings db \<and> db_rating_updates db' = db_rating_updates db \<and>
     (\<exists>vs ps. db_results db' = db_results db @ vs \<and> db_participants db' = db_participants db @ ps)"

lemma forfeitOpen_same: "sameSession s (if hit then forfeitOpen t s else s)"
  by (simp add: sameSession_def forfeitOpen_def)

lemma settle_settlesRoom:
  assumes "settle db db'" "roomsInv db"
  shows "\<exists>room g f ev. settlesRoom db db' room g f ev"
  using assms
proof (induction rule: settle.induct)
  case (complete room db version t v ps f ev work)
  have chk: "roomChecks (completedRoom version t room)" using complete.hyps(1,4) by blast
  have "version = rmr_aggregate_version room + 1" "version < 2 ^ 63"
    using room_version_step [OF complete.prems complete.hyps(1), of "completedRoom version t"] chk complete.hyps(3) by simp_all
  then show ?case using complete.hyps(1,2,13-15) chk
    by (intro exI [of _ room] exI [of _ "completedRoom version t"] exI [of _ f] exI [of _ ev]) (simp add: settlesRoom_def closesSessions_def)
next
  case (expire room db t ev)
  have chk: "roomChecks (expireRoom t room)" using expire.hyps(1,4) by blast
  show ?case using expire.hyps chk
    by (intro exI [of _ room] exI [of _ "expireRoom t"] exI [of _ "\<lambda>s. if sn_room_id s = rmr_room_id room \<and> unfinished s then forfeitOpen t s else s"] exI [of _ ev])
      (simp add: settlesRoom_def forfeitOpen_same)
qed

lemma roomsInv_settles:
  assumes "settlesRoom db db' room g f ev" "roomsInv db"
  shows "roomsInv db'"
proof -
  note st = assms(1) [unfolded settlesRoom_def]
  have members: "roomMembers db' i = roomMembers db i" for i by (rule roomMembers_cong) (use st in simp)
  have room: "wellFilled (length (roomMembers db (rmr_room_id room))) room" using assms(2) st by (simp add: roomsInv_def)
  have "\<forall>r \<in> set (db_rooms db'). wellFilled (length (roomMembers db (rmr_room_id r))) r"
  proof -
    have "wellFilled (length (roomMembers db (rmr_room_id (g r)))) (g r)" if "r \<in> set (db_rooms db)" "rmr_room_id r = rmr_room_id room" for r
    proof -
      have "r = room" using room_unique [OF assms(2) that(1)] st that(2) by blast
      then show ?thesis using st room unfolding wellFilled_def by auto
    qed
    then show ?thesis using assms(2) st by (auto simp: ball_onRoom roomsInv_def)
  qed
  moreover have "map rmr_room_id (db_rooms db') = map rmr_room_id (db_rooms db)" using st onRoom_map [of rmr_room_id g] by simp
  ultimately show ?thesis using assms(2) unfolding roomsInv_def members by simp
qed

lemma sessionKey_same: "sameSession s s' \<Longrightarrow> sessionKey s' = sessionKey s"
  by (simp add: sameSession_def sessionKey_def)

lemma room_exists_onRoom:
  assumes "\<And>r. rmr_room_id (g r) = rmr_room_id r" "\<And>r. rmr_capacity (g r) = rmr_capacity r"
  shows "(\<exists>x \<in> set (onRoom i g rows). rmr_room_id x = k \<and> rmr_capacity x = c) \<longleftrightarrow> (\<exists>x \<in> set rows. rmr_room_id x = k \<and> rmr_capacity x = c)"
  unfolding bex_onRoom assms by auto

lemma seatsInv_settles:
  assumes "settlesRoom db db' room g f ev" "seatsInv db"
  shows "seatsInv db'"
proof -
  note st = assms(1) [unfolded settlesRoom_def]
  have "map sessionKey (map f (db_sessions db)) = map sessionKey (db_sessions db)" using st by (auto intro: sessionKey_same)
  moreover have "(\<exists>x \<in> set (db_rooms db'). rmr_room_id x = k \<and> rmr_capacity x = c) \<longleftrightarrow> (\<exists>x \<in> set (db_rooms db). rmr_room_id x = k \<and> rmr_capacity x = c)" for k c
    using st room_exists_onRoom [of g] by simp
  ultimately show ?thesis using assms(2) st unfolding seatsInv_def by simp
qed

lemma eventsInv_settles:
  assumes "settlesRoom db db' room g f ev" "eventsInv db" "roomsInv db"
  shows "eventsInv db'"
proof -
  note st = assms(1) [unfolded settlesRoom_def]
  have ev: "announces ev outboxAggregateRoom (rmr_room_id room) (rmr_aggregate_version room + 1)" "fresh ev (db_outbox db)" using st by blast+
  have "knownEvent db' e" if "e \<in> set (db_outbox db)" for e
  proof (rule knownEvent_mono [OF eventsInv_known [OF assms(2) that]])
    show "\<exists>r' \<in> set (db_rooms db'). rmr_room_id r' = rmr_room_id r \<and> rmr_aggregate_version r \<le> rmr_aggregate_version r'" if "r \<in> set (db_rooms db)" for r
    proof -
      have "rmr_aggregate_version r \<le> rmr_aggregate_version (g r)" if "rmr_room_id r = rmr_room_id room"
        using room_unique [OF assms(3) \<open>r \<in> set (db_rooms db)\<close>] st that by force
      then show ?thesis using that st onRoom_later [of r "db_rooms db" g] by simp
    qed
  qed (use st in auto)
  moreover have "g room \<in> set (db_rooms db')" using st by (force simp: onRoom_def)
  then have "knownEvent db' ev" by (rule knownEvent_room [OF ev(1)]) (use st in simp_all)
  moreover have "ticketEvents (db_outbox db') i = ticketEvents (db_outbox db) i" for i
    using st ticketEvents_append ticketEvents_announced(2) [OF ev(1)] by simp
  ultimately show ?thesis using assms(2) st fresh_event_id [OF ev(2)] unfolding eventsInv_def by auto
qed

lemma orderInv_settles:
  assumes "settlesRoom db db' room g f ev" "orderInv collate db" "eventsInv db" "roomsInv db"
  shows "orderInv collate db'"
proof -
  note st = assms(1) [unfolded settlesRoom_def]
  have ev: "announces ev outboxAggregateRoom (rmr_room_id room) (rmr_aggregate_version room + 1)" using st by blast
  have "\<forall>e \<in> set (db_outbox db). \<not> outboxPrecedes collate ev e"
    by (rule room_event_last [OF assms(4) _ _ ev]) (use assms(3) st in \<open>auto simp: eventsInv_known\<close>)
  then show ?thesis using st by (intro orderInv_append [OF assms(2), of _ "[ev]"]) (auto simp: announces_def)
qed

lemma length_filter_map: "length (filter (\<lambda>x. f x = i) xs) = length (filter (\<lambda>k. k = i) (map f xs))"
  by (simp add: filter_map comp_def)

lemma room_sessions_members:
  assumes "seatsInv db"
  shows "length (roomSessions db i) = length (roomMembers db i)"
proof -
  have "map sessionKey (db_sessions db) = map membershipKey (db_memberships db)" using assms by (simp add: seatsInv_def)
  then have "map (fst \<circ> snd \<circ> sessionKey) (db_sessions db) = map (fst \<circ> snd \<circ> membershipKey) (db_memberships db)" by (metis map_map)
  then have "map sn_room_id (db_sessions db) = map mb_room_id (db_memberships db)" by (simp add: sessionKey_def membershipKey_def comp_def)
  then show ?thesis unfolding roomSessions_def roomMembers_def length_filter_map [of sn_room_id] length_filter_map [of mb_room_id] by simp
qed

text \<open>As many distinct sessions as the room has seats are all of its sessions.\<close>

lemma all_sessions:
  assumes "sessionsInv db" "seatsInv db" "\<forall>p \<in> set ps. playsIn (db_sessions db) p \<and> pt_room_id p = i"
    and "distinct (map pt_session_id ps)" "length ps = length (roomMembers db i)"
  shows "pt_session_id ` set ps = sn_session_id ` set (roomSessions db i)"
proof (rule card_subset_eq)
  show "pt_session_id ` set ps \<subseteq> sn_session_id ` set (roomSessions db i)"
    using assms(3) by (force simp: playsIn_def roomSessions_def)
  have "distinct (map sn_session_id (roomSessions db i))" using assms(1) by (simp add: sessionsInv_def roomSessions_def distinct_map_filter)
  then have "card (sn_session_id ` set (roomSessions db i)) = length (roomSessions db i)" using distinct_card by fastforce
  moreover have "card (pt_session_id ` set ps) = length ps" using assms(4) distinct_card by fastforce
  ultimately show "card (pt_session_id ` set ps) = card (sn_session_id ` set (roomSessions db i))"
    using room_sessions_members [OF assms(2)] assms(5) by simp
qed simp

lemma new_event_participants:
  assumes "resultsInv db" "\<forall>x \<in> set (db_results db). \<not> resultClash v x"
  shows "eventParticipants db (vr_event_id v) = []" "\<forall>p \<in> set (db_participants db). pt_event_id p \<noteq> vr_event_id v"
proof -
  show "\<forall>p \<in> set (db_participants db). pt_event_id p \<noteq> vr_event_id v"
    using assms unfolding resultsInv_def resultClash_def by metis
  then show "eventParticipants db (vr_event_id v) = []" by (simp add: eventParticipants_def filter_empty_conv)
qed

lemma collecting_apart:
  assumes "roomsInv db" "room \<in> set (db_rooms db)" "rmr_status room = RoomCollecting" "r \<in> set (db_rooms db)" "rmr_status r = RoomCompleted"
  shows "rmr_room_id r \<noteq> rmr_room_id room"
  using room_unique [OF assms(1,4,2)] assms(3,5) by auto

lemma sessionsInv_map:
  assumes "sessionsInv db" "db_sessions db' = map f (db_sessions db)" "\<And>s. s \<in> set (db_sessions db) \<Longrightarrow> sn_session_id (f s) = sn_session_id s"
    and "\<And>s. s \<in> set (db_sessions db) \<Longrightarrow> \<exists>r \<in> set (db_rooms db'). rmr_room_id r = sn_room_id (f s) \<and> sessionFits (rmr_status r) (f s)"
  shows "sessionsInv db'"
proof -
  have "map sn_session_id (db_sessions db') = map sn_session_id (db_sessions db)" by (simp add: assms(2,3))
  moreover have "\<forall>s \<in> set (db_sessions db'). \<exists>r \<in> set (db_rooms db'). rmr_room_id r = sn_room_id s \<and> sessionFits (rmr_status r) s"
    unfolding assms(2) set_map using assms(4) by blast
  ultimately show ?thesis using assms(1) by (simp add: sessionsInv_def)
qed

lemma sessionsInv_settle:
  assumes "settle db db'" "sessionsInv db" "seatsInv db" "roomsInv db" "resultsInv db"
  shows "sessionsInv db'"
  using assms
proof (induction rule: settle.induct)
  case (complete room db version t v ps f ev work)
  let ?rooms = "onRoom (rmr_room_id room) (completedRoom version t) (db_rooms db)"
  have "eventParticipants db (vr_event_id v) = []" by (rule new_event_participants [OF complete.prems(4) complete.hyps(7)])
  moreover have "filter (\<lambda>p. pt_event_id p = vr_event_id v) ps = ps" using complete.hyps(10) by (simp add: filter_id_conv)
  ultimately have "int (length ps) = rmr_capacity room" using complete.hyps(9,12) by (simp add: eventParticipants_def)
  moreover have "int (length (roomMembers db (rmr_room_id room))) = rmr_capacity room"
    using complete.prems(3) complete.hyps(1,2) by (auto simp: roomsInv_def wellFilled_def)
  ultimately have all: "pt_session_id ` set ps = sn_session_id ` set (roomSessions db (rmr_room_id room))"
    using complete.hyps(8,10,11) by (intro all_sessions [OF complete.prems(1,2)]) auto
  have "\<exists>r \<in> set ?rooms. rmr_room_id r = sn_room_id (f s) \<and> sessionFits (rmr_status r) (f s)" if s: "s \<in> set (db_sessions db)" for s
  proof -
    have same: "sn_room_id (f s) = sn_room_id s" and end': "if sn_session_id s \<in> pt_session_id ` set ps then finished (f s) else f s = s"
      using complete.hyps(13) s by (auto simp: closesSessions_def sameSession_def)
    show ?thesis
    proof (cases "sn_room_id s = rmr_room_id room")
      case True
      then have "finished (f s)" using s all end' by (auto simp: roomSessions_def)
      then show ?thesis using True same complete.hyps(1) unfolding bex_onRoom by (intro bexI [of _ room]) auto
    next
      case False
      have "sn_session_id s \<notin> pt_session_id ` set ps"
      proof
        assume "sn_session_id s \<in> pt_session_id ` set ps"
        then obtain x where "x \<in> set (db_sessions db)" "sn_room_id x = rmr_room_id room" "sn_session_id x = sn_session_id s"
          unfolding all by (auto simp: roomSessions_def)
        then show False using False s distinct_map_unique [of sn_session_id "db_sessions db" x s] complete.prems(1) by (auto simp: sessionsInv_def)
      qed
      then have "f s = s" using end' by simp
      moreover obtain r where "r \<in> set (db_rooms db)" "rmr_room_id r = sn_room_id s" "sessionFits (rmr_status r) s"
        using complete.prems(1) s unfolding sessionsInv_def by blast
      ultimately show ?thesis using False unfolding bex_onRoom by (intro bexI [of _ r]) auto
    qed
  qed
  then show ?case using complete.hyps(13)
    by (intro sessionsInv_map [OF complete.prems(1), of _ f]) (simp_all add: closesSessions_def sameSession_def)
next
  case (expire room db t ev)
  let ?rooms = "onRoom (rmr_room_id room) (expireRoom t) (db_rooms db)"
  let ?f = "\<lambda>s. if sn_room_id s = rmr_room_id room \<and> unfinished s then forfeitOpen t s else s"
  have "\<exists>r \<in> set ?rooms. rmr_room_id r = sn_room_id (?f s) \<and> sessionFits (rmr_status r) (?f s)" if s: "s \<in> set (db_sessions db)" for s
  proof -
    obtain r where r: "r \<in> set (db_rooms db)" "rmr_room_id r = sn_room_id s" "sessionFits (rmr_status r) s"
      using expire.prems(1) s unfolding sessionsInv_def by blast
    show ?thesis
    proof (cases "sn_room_id s = rmr_room_id room")
      case True
      then have "r = room" using room_unique [OF expire.prems(3) r(1) expire.hyps(1)] r(2) by simp
      then have "unfinished s" using r(3) expire.hyps(2) by (simp add: unfinished_def)
      then show ?thesis using True expire.hyps(1) unfolding bex_onRoom by (intro bexI [of _ room]) (auto simp: forfeitOpen_def)
    next
      case False
      then show ?thesis using r unfolding bex_onRoom by (intro bexI [of _ r]) auto
    qed
  qed
  then show ?case by (intro sessionsInv_map [OF expire.prems(1), of _ ?f]) (simp_all add: forfeitOpen_def)
qed

lemma closesSessions_same: "closesSessions ids f rows \<Longrightarrow> \<forall>s \<in> set rows. sameSession s (f s)"
  by (simp add: closesSessions_def)

lemma playsIn_same: "\<forall>s \<in> set rows. sameSession s (f s) \<Longrightarrow> playsIn (map f rows) p \<longleftrightarrow> playsIn rows p"
  by (auto simp: playsIn_def sameSession_def)

lemma eventParticipants_append:
  "db_participants db' = db_participants db @ ps \<Longrightarrow> eventParticipants db' i = eventParticipants db i @ filter (\<lambda>p. pt_event_id p = i) ps"
  by (simp add: eventParticipants_def)

lemma completed_kept:
  assumes "roomsInv db" "room \<in> set (db_rooms db)" "rmr_status room = RoomCollecting" "\<And>r. rmr_room_id (g r) = rmr_room_id r"
    and "\<exists>r \<in> set (db_rooms db). rmr_room_id r = i \<and> rmr_capacity r = c \<and> rmr_status r = RoomCompleted"
  shows "\<exists>r \<in> set (onRoom (rmr_room_id room) g (db_rooms db)). rmr_room_id r = i \<and> rmr_capacity r = c \<and> rmr_status r = RoomCompleted"
proof -
  obtain r where "r \<in> set (db_rooms db)" "rmr_room_id r = i" "rmr_capacity r = c" "rmr_status r = RoomCompleted" using assms(5) by blast
  then show ?thesis using collecting_apart [OF assms(1-3), of r] unfolding bex_onRoom by blast
qed

lemma resultsInv_complete:
  assumes inv: "resultsInv db" "roomsInv db" and room: "room \<in> set (db_rooms db)" "rmr_status room = RoomCollecting"
    and v: "resultChecks v" "\<forall>x \<in> set (db_results db). \<not> resultClash v x" "vr_room_id v = rmr_room_id room" "vr_room_capacity v = rmr_capacity room"
    and ps: "\<forall>p \<in> set ps. pt_event_id p = vr_event_id v \<and> pt_room_id p = vr_room_id v \<and> playsIn (db_sessions db) p \<and> pt_session_id p \<notin> pt_session_id ` set (db_participants db)"
      "distinct (map pt_session_id ps)" "int (length (filter (\<lambda>p. pt_event_id p = vr_event_id v) (db_participants db @ ps))) = vr_room_capacity v"
    and db': "db_results db' = db_results db @ [v]" "db_participants db' = db_participants db @ ps" "db_sessions db' = map f (db_sessions db)"
      "db_rooms db' = onRoom (rmr_room_id room) (completedRoom version t) (db_rooms db)"
    and f: "\<forall>s \<in> set (db_sessions db). sameSession s (f s)"
  shows "resultsInv db'"
  unfolding resultsInv_def
proof (intro conjI)
  show "distinct (map vr_event_id (db_results db'))" "distinct (map vr_room_id (db_results db'))"
    using inv(1) v(2) by (auto simp: db' resultsInv_def resultClash_def)
  have "pt_session_id ` set (db_participants db) \<inter> pt_session_id ` set ps = {}"
    unfolding disjoint_iff using ps(1) by (metis imageE)
  moreover have "distinct (map pt_session_id (db_participants db))" using inv(1) by (simp add: resultsInv_def)
  ultimately show "distinct (map pt_session_id (db_participants db'))" using ps(2) by (simp add: db')
  show "\<forall>x \<in> set (db_results db'). resultChecks x \<and>
      (\<exists>r \<in> set (db_rooms db'). rmr_room_id r = vr_room_id x \<and> rmr_capacity r = vr_room_capacity x \<and> rmr_status r = RoomCompleted) \<and>
      int (length (eventParticipants db' (vr_event_id x))) = vr_room_capacity x"
  proof
    fix x assume "x \<in> set (db_results db')"
    then consider "x = v" | "x \<in> set (db_results db)" by (auto simp: db')
    then show "resultChecks x \<and> (\<exists>r \<in> set (db_rooms db'). rmr_room_id r = vr_room_id x \<and> rmr_capacity r = vr_room_capacity x \<and> rmr_status r = RoomCompleted) \<and>
      int (length (eventParticipants db' (vr_event_id x))) = vr_room_capacity x"
    proof cases
      case 1
      have "\<exists>r \<in> set (db_rooms db'). rmr_room_id r = rmr_room_id room \<and> rmr_capacity r = rmr_capacity room \<and> rmr_status r = RoomCompleted"
        unfolding db'(4) bex_onRoom using room(1) by (intro bexI [of _ room]) auto
      then show ?thesis using 1 v ps(3) by (simp add: eventParticipants_def db'(2))
    next
      case 2
      have "filter (\<lambda>p. pt_event_id p = vr_event_id x) ps = []" using 2 ps(1) v(2) by (auto simp: filter_empty_conv resultClash_def)
      then show ?thesis using 2 inv(1) completed_kept [OF inv(2) room, of "completedRoom version t" "vr_room_id x" "vr_room_capacity x"]
        eventParticipants_append [OF db'(2)] unfolding db'(4) resultsInv_def by simp
    qed
  qed
  show "\<forall>r \<in> set (db_rooms db'). rmr_status r = RoomCompleted \<longrightarrow> rmr_room_id r \<in> vr_room_id ` set (db_results db')"
    using inv(1) v(3) unfolding db' ball_onRoom resultsInv_def by auto
  show "\<forall>p \<in> set (db_participants db'). (\<exists>x \<in> set (db_results db'). vr_event_id x = pt_event_id p \<and> vr_room_id x = pt_room_id p) \<and> playsIn (db_sessions db') p"
    using inv(1) ps(1) unfolding db'(1-3) playsIn_same [OF f] resultsInv_def by auto
qed

lemma resultsInv_settle:
  assumes "settle db db'" "resultsInv db" "roomsInv db"
  shows "resultsInv db'"
  using assms
proof (induction rule: settle.induct)
  case (complete room db version t v ps f ev work)
  show ?case
    by (rule resultsInv_complete [OF complete.prems complete.hyps(1,2,5,7,8,9), of ps _ f version t])
      (use complete.hyps(10-12) closesSessions_same [OF complete.hyps(13)] in auto)
next
  case (expire room db t ev)
  let ?f = "\<lambda>s. if sn_room_id s = rmr_room_id room \<and> unfinished s then forfeitOpen t s else s"
  let ?rooms = "onRoom (rmr_room_id room) (expireRoom t) (db_rooms db)"
  have "\<forall>s \<in> set (db_sessions db). sameSession s (?f s)" by (simp add: forfeitOpen_same)
  note plays = playsIn_same [OF this]
  have kept: "\<exists>r \<in> set ?rooms. rmr_room_id r = i \<and> rmr_capacity r = c \<and> rmr_status r = RoomCompleted"
    if "\<exists>r \<in> set (db_rooms db). rmr_room_id r = i \<and> rmr_capacity r = c \<and> rmr_status r = RoomCompleted" for i c
    using completed_kept [OF expire.prems(2) expire.hyps(1,2), of "expireRoom t"] that by simp
  have "\<forall>r \<in> set ?rooms. rmr_status r = RoomCompleted \<longrightarrow> rmr_room_id r \<in> vr_room_id ` set (db_results db)"
    using expire.prems(1) unfolding ball_onRoom resultsInv_def by simp
  then show ?case using expire.prems(1) kept unfolding resultsInv_def by (simp add: plays eventParticipants_def)
qed

lemma ratingsInv_settle:
  assumes "settle db db'" "ratingsInv db" "resultsInv db"
  shows "ratingsInv db'"
  using assms
proof (induction rule: settle.induct)
  case (complete room db version t v ps f ev work)
  let ?db = "db\<lparr>db_rooms := onRoom (rmr_room_id room) (completedRoom version t) (db_rooms db), db_sessions := map f (db_sessions db),
          db_outbox := db_outbox db @ [ev], db_shadow_work := work, db_results := db_results db @ [v], db_participants := db_participants db @ ps\<rparr>"
  have updates: "eventUpdates ?db i = eventUpdates db i" for i by (simp add: eventUpdates_def)
  have "vr_event_id v \<notin> vr_event_id ` set (db_results db)" using complete.hyps(7) by (auto simp: resultClash_def)
  then have none: "eventUpdates db (vr_event_id v) = []" using complete.prems(1) unfolding ratingsInv_def eventUpdates_def filter_empty_conv by metis
  have "ratedOnce ?db x" if x: "x \<in> set (db_results db)" for x
  proof -
    have "filter (\<lambda>p. pt_event_id p = vr_event_id x) ps = []" using x complete.hyps(7,10) by (auto simp: filter_empty_conv resultClash_def)
    then have "eventParticipants ?db (vr_event_id x) = eventParticipants db (vr_event_id x)" by (simp add: eventParticipants_def)
    then show ?thesis using complete.prems(1) x by (simp add: ratedOnce_def updates ratingsInv_def)
  qed
  moreover have "ratedOnce ?db v" using complete.hyps(6) by (simp add: ratedOnce_def updates none)
  ultimately show ?case using complete.prems(1) unfolding ratingsInv_def by auto
next
  case (expire room db t ev)
  show ?case by (rule ratingsInv_cong [THEN iffD2, OF _ _ _ _ expire.prems(1)]) simp_all
qed

end
