(* ===== verification/Rating_Invariants.thy ===== *)
theory Rating_Invariants
  imports Result_Invariants
begin

text \<open>
  The effect of the rating store on the invariants: one transaction rates every participant of one claimed result once and marks it
  processed, and claims and retries only move the lease columns of results.
\<close>

section \<open>Rating\<close>

text \<open>The join that loads the participants of a result loses nobody.\<close>

lemma ratedPlayers_all:
  assumes "resultsInv db" "seatsInv db"
  shows "set (ratedPlayers collate db i) = pt_player_id ` set (eventParticipants db i)"
proof -
  have "\<exists>m \<in> set (db_memberships db). \<exists>t \<in> set (db_tickets db). mb_room_id m = pt_room_id p \<and> mb_player_id m = pt_player_id p \<and> tkr_id t = mb_ticket_id m"
    if p: "p \<in> set (db_participants db)" for p
  proof -
    obtain s where s: "s \<in> set (db_sessions db)" "sn_room_id s = pt_room_id p" "sn_player_id s = pt_player_id p"
      using assms(1) p unfolding resultsInv_def playsIn_def by blast
    have keys: "map sessionKey (db_sessions db) = map membershipKey (db_memberships db)" using assms(2) unfolding seatsInv_def by blast
    have "sessionKey s \<in> set (map sessionKey (db_sessions db))" using s(1) by simp
    then have "sessionKey s \<in> set (map membershipKey (db_memberships db))" unfolding keys .
    then obtain m where m: "m \<in> set (db_memberships db)" "mb_room_id m = pt_room_id p" "mb_player_id m = pt_player_id p"
      using s(2,3) by (auto simp: sessionKey_def membershipKey_def)
    then show ?thesis using assms(2) unfolding seatsInv_def by metis
  qed
  note joined = this
  have "pt_player_id p \<in> set (ratedPlayers collate db i)" if p: "p \<in> set (db_participants db)" "pt_event_id p = i" for p
  proof -
    obtain m t where "(p, m, t) \<in> set (ratingParticipantRows collate db i)"
      using joined [OF p(1)] p by (auto simp: ratingParticipantRows_def)
    then have "(\<lambda>(p, _). pt_player_id p) (p, m, t) \<in> set (ratedPlayers collate db i)" unfolding ratedPlayers_def set_map by (rule imageI)
    then show ?thesis by simp
  qed
  moreover have "set (ratedPlayers collate db i) \<subseteq> pt_player_id ` set (eventParticipants db i)"
    by (auto simp: ratedPlayers_def ratingParticipantRows_def eventParticipants_def)
  ultimately show ?thesis by (auto simp: eventParticipants_def)
qed

lemma processedRow_sel [simp]:
  "vr_event_id (processedRow t v) = vr_event_id v" "vr_room_id (processedRow t v) = vr_room_id v" "vr_room_capacity (processedRow t v) = vr_room_capacity v"
  "vr_mode_id (processedRow t v) = vr_mode_id v" "vr_request_digest (processedRow t v) = vr_request_digest v" "vr_processed_at (processedRow t v) = Some t"
  by (simp_all add: processedRow_def)

text \<open>Results that keep their identities keep the invariant.\<close>

lemma resultsInv_map:
  assumes "resultsInv db" "db_results db' = map f (db_results db)" "\<And>v. v \<in> set (db_results db) \<Longrightarrow> resultChecks (f v)"
    and same: "\<And>v. v \<in> set (db_results db) \<Longrightarrow> vr_event_id (f v) = vr_event_id v \<and> vr_room_id (f v) = vr_room_id v \<and> vr_room_capacity (f v) = vr_room_capacity v"
    and "db_participants db' = db_participants db" "db_rooms db' = db_rooms db" "db_sessions db' = db_sessions db"
  shows "resultsInv db'"
proof -
  have ids: "map vr_event_id (db_results db') = map vr_event_id (db_results db)" "map vr_room_id (db_results db') = map vr_room_id (db_results db)"
    using same by (simp_all add: assms(2))
  then have "vr_room_id ` set (db_results db') = vr_room_id ` set (db_results db)" by (metis set_map)
  moreover have "eventParticipants db' = eventParticipants db" by (rule ext) (simp add: eventParticipants_def assms(5))
  moreover have "(\<exists>v \<in> set (db_results db'). vr_event_id v = k \<and> vr_room_id v = r) \<longleftrightarrow> (\<exists>v \<in> set (db_results db). vr_event_id v = k \<and> vr_room_id v = r)" for k r
    using same unfolding assms(2) by auto
  ultimately show ?thesis using assms(1) unfolding resultsInv_def ids assms(5-7) by (simp add: assms(2,3) same)
qed

lemma rate_unique: "\<lbrakk>resultsInv db; v \<in> set (db_results db); x \<in> set (db_results db); vr_event_id x = vr_event_id v\<rbrakk> \<Longrightarrow> x = v"
  using distinct_map_unique [of vr_event_id "db_results db"] unfolding resultsInv_def by blast

lemma storeInv_rate:
  assumes "rate collate db db'" "roomsInv db" "eventsInv db" "orderInv collate' db" "resultsInv db" "seatsInv db" "ratingsInv db"
  shows "eventsInv db'" "orderInv collate' db'" "resultsInv db'" "ratingsInv db'"
proof -
  obtain v claim t us model rs ev where v: "v \<in> set (db_results db)" "ratedBy claim v"
      "\<forall>x \<in> set (db_results db). ratedBy claim x \<longrightarrow> resultChecks (processedRow t x)"
    and us: "\<forall>u \<in> set us. rur_source_event_id u = vr_event_id v" "distinct (map rur_player_id us)" "set (map rur_player_id us) = set (ratedPlayers collate db (vr_event_id v))"
    and tables: "ratingTables rs (db_rating_updates db @ us)"
    and ev: "announces ev ''result'' (vr_event_id v) 1" "fresh ev (db_outbox db)"
    and db': "db' = db\<lparr>db_results := map (\<lambda>x. if ratedBy claim x then processedRow t x else x) (db_results db), db_outbox := db_outbox db @ [ev],
          db_ratings := rs, db_rating_updates := db_rating_updates db @ us\<rparr>"
    using assms(1) by (cases rule: rate.cases) blast
  let ?f = "\<lambda>x. if ratedBy claim x then processedRow t x else x"
  have one: "ratedBy claim x \<longleftrightarrow> x = v" if "x \<in> set (db_results db)" for x
    using rate_unique [OF assms(5) v(1) that] v(2) by (auto simp: ratedBy_def)
  have fv: "?f v \<in> set (db_results db')" using v(1) by (simp add: db')
  have none: "vr_processed_at v = None" using v(2) by (simp add: ratedBy_def)
  have checks: "\<forall>x \<in> set (db_results db). resultChecks x" using assms(5) unfolding resultsInv_def by blast
  show "resultsInv db'" by (rule resultsInv_map [OF assms(5), of _ ?f]) (use v(3) checks in \<open>simp_all add: db'\<close>)
  have known: "knownEvent db' e" if "e \<in> set (db_outbox db)" for e
  proof (rule knownEvent_mono [OF eventsInv_known [OF assms(3) that]])
    show "\<exists>x' \<in> set (db_results db'). vr_event_id x' = vr_event_id x \<and> vr_processed_at x' \<noteq> None" if "x \<in> set (db_results db)" "vr_processed_at x \<noteq> None" for x
      using that by (intro bexI [of _ "?f x"]) (auto simp: db')
  qed (auto simp: db')
  have rated: "vr_event_id (?f v) = vr_event_id v" "vr_processed_at (?f v) = Some t" using v(2) by simp_all
  then have "knownEvent db' ev" using fv ev(1) unfolding knownEvent_def announces_def by (intro disjI2) (simp, metis option.distinct(1))
  moreover have "ticketEvents (db_outbox db') i = ticketEvents (db_outbox db) i" for i
    using ev(1) aggregate_types by (simp add: db' ticketEvents_def announces_def)
  ultimately show "eventsInv db'" using assms(3) known fresh_event_id [OF ev(2)] unfolding eventsInv_def by (auto simp: db')
  have "\<not> outboxPrecedes collate' ev e" if e: "e \<in> set (db_outbox db)" for e
  proof
    assume "outboxPrecedes collate' ev e"
    then have "ox_aggregate_type e = ''result''" "ox_aggregate_id e = vr_event_id v" using ev(1) by (auto simp: outboxPrecedes_def announces_def)
    then obtain x where "x \<in> set (db_results db)" "vr_event_id x = vr_event_id v" "vr_processed_at x \<noteq> None"
      using eventsInv_known [OF assms(3) e] aggregate_types unfolding knownEvent_def by metis
    then show False using rate_unique [OF assms(5) v(1), of x] none by simp
  qed
  then show "orderInv collate' db'"
    by (intro orderInv_append [OF assms(4), of _ "[ev]"]) (use ev(1) in \<open>auto simp: db' announces_def\<close>)
  have parts: "eventParticipants db' i = eventParticipants db i" for i by (simp add: eventParticipants_def db')
  have upd: "eventUpdates db' i = eventUpdates db i @ (if i = vr_event_id v then us else [])" for i
    using us(1) by (auto simp: eventUpdates_def db' filter_id_conv filter_empty_conv)
  have "eventUpdates db (vr_event_id v) = []" using assms(7) v(1) none by (auto simp: ratingsInv_def ratedOnce_def)
  then have "ratedOnce db' (?f v)"
    using v(2) us(2,3) ratedPlayers_all [OF assms(5,6), of collate] by (simp add: ratedOnce_def upd parts)
  moreover have "ratedOnce db' x" if "x \<in> set (db_results db)" "x \<noteq> v" for x
    using that rate_unique [OF assms(5) v(1)] assms(7) by (auto simp: ratedOnce_def upd parts ratingsInv_def)
  ultimately have "\<forall>x \<in> set (db_results db'). ratedOnce db' x" using one by (auto simp: db')
  moreover have "vr_event_id ` set (db_results db') = vr_event_id ` set (db_results db)"
    unfolding db' by (simp add: image_image del: if_image_distrib cong: image_cong) (rule image_cong [OF refl], simp)
  ultimately show "ratingsInv db'" using assms(7) us(1) v(1) tables unfolding ratingsInv_def by (auto simp: db')
qed

lemma storeInv_resultsRescheduled:
  assumes "resultsRescheduled db db'" "eventsInv db" "resultsInv db" "ratingsInv db"
  shows "eventsInv db'" "resultsInv db'" "ratingsInv db'"
proof -
  obtain f where db': "db' = db\<lparr>db_results := map f (db_results db)\<rparr>"
      and f: "\<And>v. v \<in> set (db_results db) \<Longrightarrow> sameResult v (f v) \<and> vr_processed_at (f v) = vr_processed_at v \<and> (resultChecks v \<longrightarrow> resultChecks (f v))"
    using assms(1) unfolding resultsRescheduled_def by blast
  have checks: "\<forall>x \<in> set (db_results db). resultChecks x" using assms(3) unfolding resultsInv_def by blast
  show "resultsInv db'" by (rule resultsInv_map [OF assms(3), of _ f]) (use f checks in \<open>simp_all add: db' sameResult_def\<close>)
  have "knownEvent db' e" if "e \<in> set (db_outbox db)" for e
    by (rule knownEvent_mono [OF eventsInv_known [OF assms(2) that]]) (use f in \<open>auto simp: db' sameResult_def\<close>)
  then show "eventsInv db'" using assms(2) by (simp add: eventsInv_def db')
  have "ratedOnce db' (f v) = ratedOnce db v" if "v \<in> set (db_results db)" for v
    using f [OF that] by (simp add: ratedOnce_def eventUpdates_def eventParticipants_def sameResult_def db')
  moreover have "vr_event_id ` f ` set (db_results db) = vr_event_id ` set (db_results db)"
    unfolding image_image by (rule image_cong [OF refl]) (use f in \<open>simp add: sameResult_def\<close>)
  ultimately show "ratingsInv db'" using assms(4) by (simp add: ratingsInv_def db')
qed

end
