(* ===== verification/Store_Steps.thy ===== *)
theory Store_Steps
  imports Rating_Invariants
begin

text \<open>
  The operations of the store interleaved: one step is one operation of the ticket, matchmaking, outbox, result or rating store
  on any arguments and under any failures of the database, or the arrival of a new room or configuration. Every store that the
  steps reach from the empty one satisfies the invariants.
\<close>

section \<open>Steps\<close>

text \<open>
  Rooms, tournament configurations and policies are provisioned outside the program: a room appears as a new forming row
  that satisfies the constraints of its table.
\<close>

definition provisionedRoom :: "Database \<Rightarrow> RoomRow \<Rightarrow> bool" where
  "provisionedRoom db room \<longleftrightarrow> roomChecks room \<and> rmr_aggregate_version room < 2 ^ 63 \<and> rmr_status room = RoomForming \<and> rmr_room_id room \<notin> rmr_room_id ` set (db_rooms db)"

inductive storeStep :: "collation \<Rightarrow> Database \<Rightarrow> Database \<Rightarrow> bool" for collate where
  accepts: "AcceptTicket digest flt db a = (ra, db') \<Longrightarrow> storeStep collate db db'"
| cancels: "CancelTicket digest flt db c = (rc, db') \<Longrightarrow> storeStep collate db db'"
| expires: "ExpireTicket digest clock flt db x = (rx, db') \<Longrightarrow> storeStep collate db db'"
| assigns: "AssignTicket digest clock flt db g = (rg, db') \<Longrightarrow> storeStep collate db db'"
| claims: "ClaimMatchmakingTickets collate locked flt db request = (rl, db') \<Longrightarrow> storeStep collate db db'"
| retries: "ScheduleTicketRetry clock flt db i token t = (re, db') \<Longrightarrow> storeStep collate db db'"
| takes: "ClaimOutboxEvents collate locked jsonText flt db orequest = (ro, db') \<Longrightarrow> storeStep collate db db'"
| delivers: "MarkOutboxDelivered clock flt db i token t = (re, db') \<Longrightarrow> storeStep collate db db'"
| buries: "MarkOutboxDeadLettered clock flt db i token t why = (re, db') \<Longrightarrow> storeStep collate db db'"
| redrives: "RedriveOutboxDeadLetter flt db i t = (re, db') \<Longrightarrow> storeStep collate db db'"
| postpones: "ScheduleOutboxRetry clock flt db i token t why = (re, db') \<Longrightarrow> storeStep collate db db'"
| finalizes: "FinalizeResult collate digest hash flt db r = (rf, db') \<Longrightarrow> storeStep collate db db'"
| lapses: "ExpireResultRooms collate locked hash flt db batch = (rb, db') \<Longrightarrow> storeStep collate db db'"
| claimsResult: "ClaimNextRatingResult collate flt db crequest = (rq, db') \<Longrightarrow> storeStep collate db db'"
| rates: "\<lbrakk>driverFaults flt; ProcessRatingResult Exp collate hash clock flt db claim t = (rp, db')\<rbrakk> \<Longrightarrow> storeStep collate db db'"
| retriesResult: "ScheduleRatingRetry clock flt db i token t = (re, db') \<Longrightarrow> storeStep collate db db'"
| provisions: "provisionedRoom db room \<Longrightarrow> storeStep collate db (db\<lparr>db_rooms := db_rooms db @ [room]\<rparr>)"
| configures: "storeStep collate db (db\<lparr>db_models := db_models db @ ms, db_configs := db_configs db @ cs, db_policies := db_policies db @ ps\<rparr>)"

definition emptyStore :: Database where
  "emptyStore = \<lparr>db_models = [], db_policies = [], db_configs = [], db_tickets = [], db_commands = [], db_rooms = [], db_memberships = [], db_sessions = [],
     db_outbox = [], db_shadow_work = [], db_results = [], db_participants = [], db_ratings = [], db_rating_updates = []\<rparr>"

definition reachableStore :: "collation \<Rightarrow> Database \<Rightarrow> bool" where
  "reachableStore collate = (storeStep collate)\<^sup>*\<^sup>* emptyStore"


section \<open>Reachable stores\<close>

definition storeInv :: "collation \<Rightarrow> Database \<Rightarrow> bool" where
  "storeInv collate db \<longleftrightarrow> ticketsInv db \<and> roomsInv db \<and> seatsInv db \<and> eventsInv db \<and> orderInv collate db \<and>
     sessionsInv db \<and> resultsInv db \<and> ratingsInv db"

lemma sessionsInv_cong: "\<lbrakk>db_sessions db' = db_sessions db; db_rooms db' = db_rooms db\<rbrakk> \<Longrightarrow> sessionsInv db' = sessionsInv db"
  by (simp add: sessionsInv_def)

lemma resultsInv_cong:
  "\<lbrakk>db_results db' = db_results db; db_participants db' = db_participants db; db_sessions db' = db_sessions db; db_rooms db' = db_rooms db\<rbrakk>
   \<Longrightarrow> resultsInv db' = resultsInv db"
  by (simp add: resultsInv_def eventParticipants_def)

lemmas store_congs = sessionsInv_cong resultsInv_cong ratingsInv_cong

text \<open>Every operation leaves the store as it was, or moves it by one of a few kinds of transition.\<close>

lemma storeStep_cases:
  assumes "storeStep collate db db'" "storeInv collate db"
  obtains "db' = db" | "lifecycle db db'" | "outboxMoved collate db db'" | "ticketsRescheduled db db'"
    | "settle\<^sup>*\<^sup>* db db'" | "resultsRescheduled db db'" | "rate collate db db'"
    | room where "provisionedRoom db room" "db' = db\<lparr>db_rooms := db_rooms db @ [room]\<rparr>"
    | ms cs ps where "db' = db\<lparr>db_models := ms, db_configs := cs, db_policies := ps\<rparr>"
  using assms(1)
proof cases
  case (accepts digest flt a ra)
  then show ?thesis using AcceptTicket_lifecycle that(1,2) by blast
next
  case (cancels digest flt c rc)
  then show ?thesis using CancelTicket_lifecycle that(1,2) by blast
next
  case (expires digest clock flt x rx)
  then show ?thesis using ExpireTicket_lifecycle that(1,2) by blast
next
  case (assigns digest clock flt g rg)
  then show ?thesis using AssignTicket_lifecycle that(1,2) by blast
next
  case (claims locked flt request rl)
  then show ?thesis using ClaimMatchmakingTickets_rescheduled that(1,4) by blast
next
  case (retries clock flt i token t re)
  then show ?thesis using ScheduleTicketRetry_rescheduled that(1,4) by blast
next
  case (takes locked jsonText flt orequest ro)
  then show ?thesis using ClaimOutboxEvents_moved assms(2) that(1,3) unfolding storeInv_def eventsInv_def by blast
next
  case (delivers clock flt i token t re)
  have "outboxMoved collate db db'" if "db' \<noteq> db"
    using delivers that unfolding MarkOutboxDelivered_def
    by (auto split: if_splits elim!: execUpdate_moved intro!: fenced_moves simp: sameEvent_def)
  then show ?thesis using that(1,3) by blast
next
  case (buries clock flt i token t why re)
  have "outboxMoved collate db db'" if "db' \<noteq> db"
    using buries that unfolding MarkOutboxDeadLettered_def
    by (auto split: if_splits elim!: execUpdate_moved intro!: fenced_moves simp: sameEvent_def)
  then show ?thesis using that(1,3) by blast
next
  case (redrives flt i t re)
  have "outboxMoved collate db db'" if "db' \<noteq> db"
    using redrives that unfolding RedriveOutboxDeadLetter_def
    by (auto split: if_splits elim!: execUpdate_moved simp: sameEvent_def eventMove_def)
  then show ?thesis using that(1,3) by blast
next
  case (postpones clock flt i token t why re)
  have "outboxMoved collate db db'" if "db' \<noteq> db"
    using postpones that unfolding ScheduleOutboxRetry_def
    by (auto split: if_splits elim!: execUpdate_moved intro!: fenced_moves simp: sameEvent_def)
  then show ?thesis using that(1,3) by blast
next
  case (finalizes digest hash flt r rf)
  then show ?thesis using FinalizeResult_settle that(1,5) by blast
next
  case (lapses locked hash flt batch rb)
  then show ?thesis using ExpireResultRooms_settle assms(2) that(5) unfolding storeInv_def roomsInv_def by blast
next
  case (claimsResult flt crequest rq)
  then show ?thesis using ClaimNextRatingResult_rescheduled that(1,6) by blast
next
  case (rates flt Exp hash clock claim t rp)
  then show ?thesis using ProcessRatingResult_rate assms(2) that(1,7) unfolding storeInv_def ratingsInv_def by blast
next
  case (retriesResult clock flt i token t re)
  then show ?thesis using ScheduleRatingRetry_rescheduled that(1,6) by blast
next
  case (provisions room)
  then show ?thesis using that(8) by blast
next
  case (configures ms cs ps)
  then show ?thesis using that(9) by blast
qed

lemma storeInv_lifecycle: "\<lbrakk>lifecycle db db'; storeInv collate db\<rbrakk> \<Longrightarrow> storeInv collate db'"
  unfolding storeInv_def
  using ticketsInv_lifecycle roomsInv_lifecycle seatsInv_lifecycle eventsInv_lifecycle orderInv_lifecycle sessionsInv_lifecycle
    resultsInv_lifecycle ratingsInv_lifecycle by blast

lemma storeInv_moved:
  assumes "outboxMoved collate db db'" "storeInv collate db"
  shows "storeInv collate db'"
proof -
  obtain f where "db' = db\<lparr>db_outbox := map f (db_outbox db)\<rparr>" using assms(1) unfolding outboxMoved_def by blast
  then have "sessionsInv db' = sessionsInv db" "resultsInv db' = resultsInv db" "ratingsInv db' = ratingsInv db" by (simp_all cong: store_congs)
  then show ?thesis using assms invariants_moved orderInv_moved unfolding storeInv_def by blast
qed

lemma storeInv_settle:
  assumes "settle db db'" "storeInv collate db"
  shows "storeInv collate db'"
proof -
  note inv = assms(2) [unfolded storeInv_def]
  obtain room g f ev where st: "settlesRoom db db' room g f ev" using settle_settlesRoom assms(1) inv by blast
  have "db_tickets db' = db_tickets db" using st unfolding settlesRoom_def by blast
  then have "ticketsInv db'" using inv by (simp add: ticketsInv_def)
  then show ?thesis
    using inv roomsInv_settles [OF st] seatsInv_settles [OF st] eventsInv_settles [OF st] orderInv_settles [OF st]
      sessionsInv_settle [OF assms(1)] resultsInv_settle [OF assms(1)] ratingsInv_settle [OF assms(1)] unfolding storeInv_def by blast
qed

lemma storeInv_settled: "settle\<^sup>*\<^sup>* db db' \<Longrightarrow> storeInv collate db \<Longrightarrow> storeInv collate db'"
  by (induction rule: rtranclp_induct) (auto intro: storeInv_settle)

lemma rate_frame:
  "rate collate db db' \<Longrightarrow> db_tickets db' = db_tickets db \<and> db_rooms db' = db_rooms db \<and> db_memberships db' = db_memberships db \<and> db_sessions db' = db_sessions db"
  by (induction rule: rate.induct) simp

lemma resultsRescheduled_frame:
  "resultsRescheduled db db' \<Longrightarrow> db_tickets db' = db_tickets db \<and> db_rooms db' = db_rooms db \<and> db_memberships db' = db_memberships db \<and>
     db_sessions db' = db_sessions db \<and> db_outbox db' = db_outbox db"
  unfolding resultsRescheduled_def by auto

lemma frame_invs:
  assumes "db_tickets db' = db_tickets db \<and> db_rooms db' = db_rooms db \<and> db_memberships db' = db_memberships db \<and> db_sessions db' = db_sessions db"
  shows "ticketsInv db' = ticketsInv db" "roomsInv db' = roomsInv db" "seatsInv db' = seatsInv db" "sessionsInv db' = sessionsInv db"
  using assms by (simp_all add: ticketsInv_def roomsInv_def seatsInv_def sessionsInv_def roomMembers_def)

lemma storeInv_rated: "\<lbrakk>rate collate' db db'; storeInv collate db\<rbrakk> \<Longrightarrow> storeInv collate db'"
  using storeInv_rate [of collate' db db' collate] frame_invs [OF rate_frame, of collate' db db'] unfolding storeInv_def by blast

lemma storeInv_results: "\<lbrakk>resultsRescheduled db db'; storeInv collate db\<rbrakk> \<Longrightarrow> storeInv collate db'"
  using storeInv_resultsRescheduled [of db db'] frame_invs [of db' db] resultsRescheduled_frame [of db db'] orderInv_cong [of db' db collate]
  unfolding storeInv_def by blast

lemma storeInv_rescheduled:
  assumes "ticketsRescheduled db db'" "storeInv collate db"
  shows "storeInv collate db'"
proof -
  obtain f where f: "db' = db\<lparr>db_tickets := map f (db_tickets db)\<rparr>"
    "\<forall>r \<in> set (db_tickets db). tkr_ticket (f r) = tkr_ticket r \<and> (ticketChecks r \<longrightarrow> ticketChecks (f r))"
    using assms(1) unfolding ticketsRescheduled_def by blast
  have same: "map (g \<circ> tkr_ticket) (map f (db_tickets db)) = map (g \<circ> tkr_ticket) (db_tickets db)" for g :: "Ticket \<Rightarrow> string"
    using f(2) by simp
  have "distinct (map tkr_id (map f (db_tickets db)))" "distinct (map (tk_EntryID \<circ> tkr_ticket) (map f (db_tickets db)))"
    using same [of tk_ID] same [of tk_EntryID] assms(2) unfolding storeInv_def ticketsInv_def comp_def by metis+
  then have "ticketsInv db'" using f assms(2) by (simp add: storeInv_def ticketsInv_def)
  moreover have "seatsInv db'" using f assms(2) by (simp add: storeInv_def seatsInv_def)
  moreover have "tkr_id ` f ` set (db_tickets db) = tkr_id ` set (db_tickets db)" using f(2) by (force simp: image_iff)
  then have "knownEvent db' e" if "knownEvent db e" for e using that f(1) by (simp add: knownEvent_def)
  then have "eventsInv db'" using f assms(2) by (simp add: storeInv_def eventsInv_def)
  moreover have "roomsInv db'" using f(1) assms(2) by (simp add: storeInv_def roomsInv_def roomMembers_def)
  moreover have "sessionsInv db' = sessionsInv db" "resultsInv db' = resultsInv db" "ratingsInv db' = ratingsInv db" using f(1) by (simp_all cong: store_congs)
  moreover have "orderInv collate db'" using assms(2) orderInv_cong [of db' db] f(1) by (simp add: storeInv_def)
  ultimately show ?thesis using assms(2) by (simp add: storeInv_def)
qed

lemma storeInv_provisioned:
  assumes "provisionedRoom db room" "storeInv collate db" "db' = db\<lparr>db_rooms := db_rooms db @ [room]\<rparr>"
  shows "storeInv collate db'"
proof -
  have new: "rmr_room_id room \<notin> rmr_room_id ` set (db_rooms db)" "roomChecks room" "rmr_status room = RoomForming" "rmr_aggregate_version room < 2 ^ 63"
    using assms(1) by (auto simp: provisionedRoom_def)
  have "mb_room_id m \<noteq> rmr_room_id room" if "m \<in> set (db_memberships db)" for m
    using assms(2) that new(1) unfolding storeInv_def seatsInv_def by (metis imageI)
  then have "roomMembers db (rmr_room_id room) = []" by (auto simp: roomMembers_def filter_empty_conv)
  moreover have "0 < rmr_capacity room" using new(2) by (auto simp: roomChecks_def)
  moreover have "roomMembers db' i = roomMembers db i" for i by (simp add: roomMembers_def assms(3))
  ultimately have "roomsInv db'" using assms(2,3) new by (auto simp: storeInv_def roomsInv_def wellFilled_def)
  moreover have "ticketsInv db'" "seatsInv db'" using assms(2,3) by (auto simp: storeInv_def ticketsInv_def seatsInv_def)
  moreover have "knownEvent db' e" if "knownEvent db e" for e by (rule knownEvent_mono [OF that]) (auto simp: assms(3))
  then have "eventsInv db'" using assms(2,3) by (simp add: storeInv_def eventsInv_def)
  moreover have "sessionsInv db'" using assms(2,3) unfolding storeInv_def sessionsInv_def by auto
  moreover have "resultsInv db'" using assms(2) new(3) unfolding storeInv_def resultsInv_def assms(3) by (simp add: eventParticipants_def)
  moreover have "ratingsInv db'" using assms(2) ratingsInv_cong [of db' db] assms(3) by (simp add: storeInv_def)
  moreover have "orderInv collate db'" using assms(2) orderInv_cong [of db' db] assms(3) by (simp add: storeInv_def)
  ultimately show ?thesis by (simp add: storeInv_def)
qed

lemma storeInv_configured:
  assumes "storeInv collate db" "db' = db\<lparr>db_models := ms, db_configs := cs, db_policies := ps\<rparr>"
  shows "storeInv collate db'"
proof -
  have "eventsInv db' = eventsInv db" by (simp add: eventsInv_def knownEvent_def assms(2))
  moreover have "orderInv collate db' = orderInv collate db" by (rule orderInv_cong) (simp add: assms(2))
  moreover have "resultsInv db' = resultsInv db" "ratingsInv db' = ratingsInv db" by (simp_all add: assms(2) cong: store_congs)
  ultimately show ?thesis using assms frame_invs [of db' db] by (simp add: storeInv_def)
qed

lemma storeInv_step:
  assumes "storeInv collate db" "storeStep collate db db'"
  shows "storeInv collate db'"
  using assms(2,1)
proof (cases rule: storeStep_cases)
  case (8 room)
  then show ?thesis using storeInv_provisioned assms(1) by blast
next
  case (9 ms cs ps)
  then show ?thesis using storeInv_configured assms(1) by blast
qed (use assms(1) storeInv_lifecycle storeInv_moved storeInv_rescheduled storeInv_settled storeInv_results storeInv_rated in blast)+

interpretation store: stepped_store emptyStore "storeStep collate" "storeInv collate" for collate
proof
  show "storeInv collate emptyStore" for collate
    by (simp add: storeInv_def emptyStore_def ticketsInv_def roomsInv_def seatsInv_def eventsInv_def orderInv_def
        sessionsInv_def resultsInv_def ratingsInv_def ratingTables_def ratingHistory_def)
qed (rule storeInv_step)

lemma reachable_storeInv: "reachableStore collate db \<Longrightarrow> storeInv collate db"
  unfolding reachableStore_def by (rule store.reachable_inv)

end
