(* ===== verification/Ticket_Lifecycle.thy ===== *)
theory Ticket_Lifecycle
  imports Store_Steps
begin

text \<open>
  Tickets over all interleavings of the stores' operations: rooms are never overfilled, the outbox is complete and delivered in
  order, the lifecycle refines an abstract lobby, and accepting a ticket is idempotent for ever.
\<close>

section \<open>Rooms and events\<close>


text \<open>
  C11. The transactional outbox is complete: in every reachable store the ticket events of a stored ticket are exactly one for each of
  its versions, in order, and no event is recorded for an unknown ticket. A queued ticket has version one, any other version two.
\<close>

theorem outbox_complete:
  assumes "reachableStore collate db"
  shows "(\<forall>t \<in> set (db_tickets db). ticketEvents (db_outbox db) (tkr_id t) = (if tkr_status t = TicketQueued then [1] else [1, 2])) \<and>
    (\<forall>i. i \<notin> tkr_id ` set (db_tickets db) \<longrightarrow> ticketEvents (db_outbox db) i = [])"
proof -
  have inv: "ticketsInv db" "eventsInv db" using reachable_storeInv [OF assms] by (simp_all add: storeInv_def)
  have "[1..2 :: int] = [1, 2]" by (simp add: upto.simps)
  then show ?thesis using inv ticketEvents_unknown [OF inv(2)] by (auto simp: ticketsInv_def eventsInv_def)
qed

text \<open>
  C4. Events of one aggregate are delivered in the order of their versions: in every reachable store, whichever workers claim,
  acknowledge, postpone, bury or re-drive events and whatever their clocks say, an event is claimed or delivered only after
  every earlier event of its aggregate has been delivered.
\<close>

theorem delivery_in_order:
  assumes "reachableStore collate db" "e \<in> set (db_outbox db)" "p \<in> set (db_outbox db)" "outboxPrecedes collate p e"
    and "ox_delivered_at e \<noteq> None \<or> ox_claimed_by e \<noteq> None"
  shows "ox_delivered_at p \<noteq> None"
  using reachable_storeInv [OF assms(1)] assms(2-) unfolding storeInv_def orderInv_def by blast

section \<open>The lobby\<close>

text \<open>
  The abstract view of the lifecycle: which phase every known ticket is in. A ticket joins once, leaves the waiting phase at most
  once, and takes a seat nobody else has.
\<close>

datatype phase = Waiting | Seated string int | Withdrawn | TimedOut

inductive lobbyStep :: "(string \<rightharpoonup> phase) \<Rightarrow> (string \<rightharpoonup> phase) \<Rightarrow> bool" where
  join: "L i = None \<Longrightarrow> lobbyStep L (L(i \<mapsto> Waiting))"
| withdraw: "L i = Some Waiting \<Longrightarrow> lobbyStep L (L(i \<mapsto> Withdrawn))"
| timeOut: "L i = Some Waiting \<Longrightarrow> lobbyStep L (L(i \<mapsto> TimedOut))"
| takeSeat: "\<lbrakk>L i = Some Waiting; \<forall>j. L j \<noteq> Some (Seated room seat)\<rbrakk> \<Longrightarrow> lobbyStep L (L(i \<mapsto> Seated room seat))"

definition phaseOf :: "MembershipRow list \<Rightarrow> TicketRow \<Rightarrow> phase" where
  "phaseOf ms r =
     (case tkr_status r of
        TicketCancelled \<Rightarrow> Withdrawn
      | TicketExpired \<Rightarrow> TimedOut
      | TicketAssigned \<Rightarrow> (case List.find (\<lambda>m. mb_ticket_id m = tkr_id r) ms of Some m \<Rightarrow> Seated (mb_room_id m) (mb_seat m) | None \<Rightarrow> Waiting)
      | _ \<Rightarrow> Waiting)"

definition lobby :: "Database \<Rightarrow> string \<rightharpoonup> phase" where
  "lobby db i = map_option (phaseOf (db_memberships db)) (List.find (\<lambda>r. tkr_id r = i) (db_tickets db))"

lemma lobby_cong: "db_memberships db' = db_memberships db \<Longrightarrow> db_tickets db' = db_tickets db \<Longrightarrow> lobby db' = lobby db"
  by (rule ext) (simp add: lobby_def)

lemma lobby_queued:
  assumes "ticketsInv db" "row \<in> set (db_tickets db)" "tkr_status row = TicketQueued"
  shows "lobby db (tkr_id row) = Some Waiting"
  using assms find_unique [of tkr_id "db_tickets db" row] by (simp add: lobby_def ticketsInv_def phaseOf_def)

lemma find_onTicket:
  assumes "\<And>r. tkr_id (f r) = tkr_id r"
  shows "List.find (\<lambda>r. tkr_id r = k) (onTicket i f rows) = map_option (\<lambda>r. if tkr_id r = i then f r else r) (List.find (\<lambda>r. tkr_id r = k) rows)"
  unfolding onTicket_def by (rule find_map_key) (simp add: assms)

lemma lobby_leave:
  assumes "ticketsInv db" "row \<in> set (db_tickets db)" "change = markCancelled t \<or> change = markExpired t \<or> change = markAssigned t"
    and "db_tickets db' = onTicket (tkr_id row) (leaveQueue change v) (db_tickets db)"
    and "\<And>r. r \<in> set (db_tickets db) \<Longrightarrow> tkr_id r \<noteq> tkr_id row \<Longrightarrow> phaseOf (db_memberships db') r = phaseOf (db_memberships db) r"
  shows "lobby db' = (lobby db)(tkr_id row \<mapsto> phaseOf (db_memberships db') (leaveQueue change v row))"
proof
  fix k
  have find: "List.find (\<lambda>r. tkr_id r = k) (db_tickets db') = map_option (\<lambda>r. if tkr_id r = tkr_id row then leaveQueue change v r else r) (List.find (\<lambda>r. tkr_id r = k) (db_tickets db))"
    unfolding assms(4) by (rule find_onTicket) (rule leaveQueue_sel(1) [OF assms(3)])
  show "lobby db' k = ((lobby db)(tkr_id row \<mapsto> phaseOf (db_memberships db') (leaveQueue change v row))) k"
  proof (cases "List.find (\<lambda>r. tkr_id r = k) (db_tickets db)")
    case None
    then have "k \<noteq> tkr_id row" using assms(2) by (auto simp: find_None_iff)
    then show ?thesis using None find by (simp add: lobby_def)
  next
    case (Some r)
    then have r: "r \<in> set (db_tickets db)" "tkr_id r = k" using find_Some by fast+
    then show ?thesis
    proof (cases "k = tkr_id row")
      case True
      then have "r = row" using distinct_map_unique [of tkr_id "db_tickets db"] assms(1,2) r unfolding ticketsInv_def by blast
      then show ?thesis using True Some find by (simp add: lobby_def)
    next
      case False
      then show ?thesis using Some find r assms(5) by (simp add: lobby_def)
    qed
  qed
qed

lemma assigned_found:
  assumes "seatsInv db" "r \<in> set (db_tickets db)" "tkr_status r = TicketAssigned"
  obtains m where "List.find (\<lambda>m. mb_ticket_id m = tkr_id r) (db_memberships db) = Some m" "m \<in> set (db_memberships db)" "mb_ticket_id m = tkr_id r"
proof -
  have "tkr_id r \<in> mb_ticket_id ` set (db_memberships db)" using assms by (simp add: seatsInv_def)
  then obtain m where m: "m \<in> set (db_memberships db)" "mb_ticket_id m = tkr_id r" by auto
  then show ?thesis using that find_unique [of mb_ticket_id "db_memberships db" m] assms(1) by (auto simp: seatsInv_def)
qed

lemma lobby_lifecycle: "lifecycle db db' \<Longrightarrow> ticketsInv db \<Longrightarrow> seatsInv db \<Longrightarrow> lobby db' = lobby db \<or> lobbyStep (lobby db) (lobby db')"
proof (induction rule: lifecycle.induct)
  case (accept row db ev)
  have none: "List.find (\<lambda>r. tkr_id r = tkr_id row) (db_tickets db) = None"
    using accept.hyps(4) by (auto simp: find_None_iff ticketClash_def)
  have eq: "lobby (db\<lparr>db_tickets := db_tickets db @ [row], db_outbox := db_outbox db @ [ev]\<rparr>) = (lobby db)(tkr_id row \<mapsto> Waiting)"
    using none accept.hyps(2) by (intro ext) (auto simp: lobby_def find_append phaseOf_def split: option.splits)
  have "lobby db (tkr_id row) = None" using none by (simp add: lobby_def)
  then show ?case unfolding eq by (intro disjI2 join)
next
  case (leave row db version change t cm ev)
  have c: "change = markCancelled t \<or> change = markExpired t \<or> change = markAssigned t" using leave.hyps(4) by blast
  note waiting = lobby_queued [OF leave.prems(1) leave.hyps(1,2)]
  let ?db = "db\<lparr>db_tickets := onTicket (tkr_id row) (leaveQueue change version) (db_tickets db), db_commands := db_commands db @ [cm], db_outbox := db_outbox db @ [ev]\<rparr>"
  have eq: "lobby ?db = (lobby db)(tkr_id row \<mapsto> phaseOf (db_memberships ?db) (leaveQueue change version row))"
    by (rule lobby_leave [OF leave.prems(1) leave.hyps(1) c]) simp_all
  consider (w) "phaseOf (db_memberships ?db) (leaveQueue change version row) = Withdrawn" | (t) "phaseOf (db_memberships ?db) (leaveQueue change version row) = TimedOut"
    using leave.hyps(4) by (auto simp: phaseOf_def leaveQueue_def markCancelled_def markExpired_def)
  then show ?case
  proof cases
    case w
    show ?thesis unfolding eq w by (intro disjI2 withdraw waiting)
  next
    case t
    show ?thesis unfolding eq t by (intro disjI2 timeOut waiting)
  qed
next
  case (observe row db cm)
  have "lobby (db\<lparr>db_commands := db_commands db @ [cm]\<rparr>) = lobby db" by (rule lobby_cong) simp_all
  then show ?case by blast
next
  case (assign row db version t room filled roomVersion f d m s ev roomEv evs work)
  have c: "markAssigned t = markCancelled t \<or> markAssigned t = markExpired t \<or> markAssigned t = markAssigned t" by blast
  note waiting = lobby_queued [OF assign.prems(1) assign.hyps(1,2)]
  let ?db = "db\<lparr>db_tickets := onTicket (tkr_id row) (leaveQueue (markAssigned t) version) (db_tickets db),
      db_rooms := onRoom (rmr_room_id room) (seatedRoom filled roomVersion f d) (db_rooms db), db_memberships := db_memberships db @ [m],
      db_sessions := db_sessions db @ [s], db_outbox := db_outbox db @ evs, db_shadow_work := work\<rparr>"
  have same: "phaseOf (db_memberships ?db) r = phaseOf (db_memberships db) r" if r: "r \<in> set (db_tickets db)" for r
  proof (cases "tkr_status r = TicketAssigned")
    case True
    then obtain x where "List.find (\<lambda>m. mb_ticket_id m = tkr_id r) (db_memberships db) = Some x" by (rule assigned_found [OF assign.prems(2) r])
    then show ?thesis using True by (simp add: phaseOf_def find_append)
  qed (auto simp: phaseOf_def split: TicketStatus.splits)
  have eq: "lobby ?db = (lobby db)(tkr_id row \<mapsto> phaseOf (db_memberships ?db) (leaveQueue (markAssigned t) version row))"
    by (rule lobby_leave [OF assign.prems(1) assign.hyps(1) c]) (simp, rule same)
  have "tkr_id row \<notin> mb_ticket_id ` set (db_memberships db)" using assign.hyps(1,2) assign.prems(2) by (auto simp: seatsInv_def)
  then have "List.find (\<lambda>m. mb_ticket_id m = tkr_id row) (db_memberships db) = None" by (auto simp: find_None_iff image_iff)
  then have phase: "phaseOf (db_memberships ?db) (leaveQueue (markAssigned t) version row) = Seated (mb_room_id m) (mb_seat m)"
    using assign.hyps(13) leaveQueue_sel(1,7) [OF c, of version row] by (simp add: phaseOf_def find_append)
  have "lobby db j \<noteq> Some (Seated (mb_room_id m) (mb_seat m))" for j
  proof
    assume "lobby db j = Some (Seated (mb_room_id m) (mb_seat m))"
    then obtain r where r: "r \<in> set (db_tickets db)" "phaseOf (db_memberships db) r = Seated (mb_room_id m) (mb_seat m)"
      using find_Some by (fastforce simp: lobby_def)
    then have "tkr_status r = TicketAssigned" by (auto simp: phaseOf_def split: TicketStatus.splits)
    then obtain x where "x \<in> set (db_memberships db)" "List.find (\<lambda>m. mb_ticket_id m = tkr_id r) (db_memberships db) = Some x"
      by (rule assigned_found [OF assign.prems(2) r(1)])
    then show False using r(2) \<open>tkr_status r = TicketAssigned\<close> assign.hyps(16) by (auto simp: phaseOf_def membershipClash_def)
  qed
  then show ?case using takeSeat [of "lobby db", OF waiting] unfolding eq phase by blast
qed

lemma lobby_rescheduled:
  assumes "ticketsRescheduled db db'"
  shows "lobby db' = lobby db"
proof
  fix i
  obtain f where f: "db' = db\<lparr>db_tickets := map f (db_tickets db)\<rparr>" "\<forall>r \<in> set (db_tickets db). tkr_ticket (f r) = tkr_ticket r"
    using assms unfolding ticketsRescheduled_def by blast
  have find: "List.find (\<lambda>r. tkr_id r = i) (map f (db_tickets db)) = map_option f (List.find (\<lambda>r. tkr_id r = i) (db_tickets db))"
    by (rule find_map_key) (simp add: f(2))
  show "lobby db' i = lobby db i"
  proof (cases "List.find (\<lambda>r. tkr_id r = i) (db_tickets db)")
    case None
    then show ?thesis using find by (simp add: f(1) lobby_def)
  next
    case (Some r)
    then have "tkr_ticket (f r) = tkr_ticket r" using f(2) find_Some by fast
    then have "phaseOf ms (f r) = phaseOf ms r" for ms by (simp only: phaseOf_def)
    then show ?thesis using Some find by (simp add: f(1) lobby_def)
  qed
qed

lemma settled_frame: "settle\<^sup>*\<^sup>* db db' \<Longrightarrow> db_tickets db' = db_tickets db \<and> db_memberships db' = db_memberships db"
proof (induction rule: rtranclp_induct)
  case (step y z)
  have "db_tickets z = db_tickets y \<and> db_memberships z = db_memberships y" using step.hyps(2) by (induction rule: settle.induct) simp_all
  then show ?case using step.IH by simp
qed simp

text \<open>Besides the lifecycle and the claims of tickets, no step touches a ticket or a membership.\<close>

lemma storeStep_tickets:
  assumes "storeStep collate db db'" "storeInv collate db"
  obtains "lifecycle db db'" | "ticketsRescheduled db db'" | "db_tickets db' = db_tickets db" "db_memberships db' = db_memberships db"
  using assms
proof (cases rule: storeStep_cases)
  case 3
  then show ?thesis using that(3) unfolding outboxMoved_def by auto
qed (use that settled_frame rate_frame resultsRescheduled_frame in auto)

lemma lobby_step:
  assumes "storeInv collate db" "storeStep collate db db'"
  shows "lobby db' = lobby db \<or> lobbyStep (lobby db) (lobby db')"
  using assms(2,1)
proof (cases rule: storeStep_tickets)
  case 1
  then show ?thesis using lobby_lifecycle assms(1) by (simp add: storeInv_def)
next
  case 2
  then show ?thesis using lobby_rescheduled by blast
next
  case 3
  then show ?thesis using lobby_cong by blast
qed

text \<open>
  C3. The stores refine the lobby: each operation on a reachable store, whatever it answers and whatever fails, either leaves the
  lobby as it is or makes one step of it.
\<close>

theorem store_refines_lobby:
  assumes "reachableStore collate db" "storeStep collate db db'"
  shows "lobby db' = lobby db \<or> lobbyStep (lobby db) (lobby db')"
  by (rule lobby_step [OF reachable_storeInv [OF assms(1)] assms(2)])

lemma lobbyStep_settled: "lobbyStep L L' \<Longrightarrow> L i = Some ph \<Longrightarrow> ph \<noteq> Waiting \<Longrightarrow> L' i = Some ph"
  by (induction rule: lobbyStep.induct) auto

text \<open>
  A ticket that was assigned, cancelled or expired stays so for ever, in the same seat: no later sequence of operations changes
  a settled phase.
\<close>

theorem settled_for_ever:
  assumes "reachableStore collate db" "(storeStep collate)\<^sup>*\<^sup>* db db'" "lobby db i = Some ph" "ph \<noteq> Waiting"
  shows "lobby db' i = Some ph"
proof -
  let ?R = "\<lambda>x y. \<forall>i ph. lobby x i = Some ph \<longrightarrow> ph \<noteq> Waiting \<longrightarrow> lobby y i = Some ph"
  have "?R db db'"
  proof (rule store.steps_rel [OF assms(2) reachable_storeInv [OF assms(1)]])
    fix x y
    assume "storeInv collate x" "storeStep collate x y"
    then show "?R x y" using lobby_step lobbyStep_settled by metis
  qed auto
  then show ?thesis using assms(3,4) by blast
qed

section \<open>Replays\<close>

lemma newTicketRow_checks:
  assumes "AcceptTicketCommand_Validate c = None" "sha256Text dg"
  shows "ticketChecks (newTicketRow ((atc_Ticket c)\<lparr>tk_AggregateVersion := 1\<rparr>) dg)"
proof -
  note v = AcceptTicketCommand_Validate_None [OF assms(1)]
  have "dg \<noteq> ''''" using assms(2) by (auto simp: sha256Text_def)
  moreover have "pgTime (est_UpdatedAt (tk_RatingSnapshot (atc_Ticket c))) \<le> pgTime (tk_SnapshotAt (atc_Ticket c))"
      "pgTime (tk_SnapshotAt (atc_Ticket c)) \<le> pgTime (tk_RequestedAt (atc_Ticket c))" using v by (auto intro: pgTime_mono)
  ultimately show ?thesis using v assms(2)
    by (auto simp: ticketChecks_def newTicketRow_def pgEstimate_def Estimate_Validate_None claimPair_def Let_def split: option.splits)
qed

text \<open>An accepted entry is on record with its digest, and stays on record.\<close>

definition recorded :: "string \<Rightarrow> string \<Rightarrow> string \<Rightarrow> Database \<Rightarrow> bool" where
  "recorded i entry dg db \<longleftrightarrow> (\<exists>row \<in> set (db_tickets db). tkr_id row = i \<and> tk_EntryID (tkr_ticket row) = entry \<and> tkr_request_digest row = dg)"

lemma recorded_leave:
  assumes "change = markCancelled t \<or> change = markExpired t \<or> change = markAssigned t" "recorded i entry dg db"
    and "db_tickets db' = onTicket k (leaveQueue change v) (db_tickets db)"
  shows "recorded i entry dg db'"
  using assms(2) unfolding recorded_def assms(3) bex_onTicket leaveQueue_sel(1,2,5) [OF assms(1)] by blast

lemma recorded_lifecycle: "lifecycle db db' \<Longrightarrow> recorded i entry dg db \<Longrightarrow> recorded i entry dg db'"
proof (induction rule: lifecycle.induct)
  case (leave row db version change t cm ev)
  have c: "change = markCancelled t \<or> change = markExpired t \<or> change = markAssigned t" using leave.hyps(4) by blast
  show ?case by (rule recorded_leave [OF c leave.prems]) simp
next
  case (assign row db version t room filled roomVersion f d m s ev roomEv evs work)
  show ?case by (rule recorded_leave [OF _ assign.prems, of "markAssigned t" t]) simp_all
qed (auto simp: recorded_def)

lemma recorded_step:
  assumes "storeInv collate db" "storeStep collate db db'" "recorded i entry dg db"
  shows "recorded i entry dg db'"
  using assms(2,1)
proof (cases rule: storeStep_tickets)
  case 1
  then show ?thesis using recorded_lifecycle assms(3) by blast
next
  case 2
  then obtain f where "db' = db\<lparr>db_tickets := map f (db_tickets db)\<rparr>"
    "\<forall>r \<in> set (db_tickets db). tkr_ticket (f r) = tkr_ticket r \<and> tkr_request_digest (f r) = tkr_request_digest r"
    unfolding ticketsRescheduled_def by blast
  then show ?thesis using assms(3) unfolding recorded_def by auto
next
  case 3
  then show ?thesis using assms(3) by (simp add: recorded_def)
qed

lemma AcceptTicket_recorded:
  assumes "AcceptTicket digest flt db c = (Inr m, db')" "AcceptTicketCommand_RequestDigest digest c = Inr dg"
  shows "recorded (tk_ID (tm_Ticket m)) (tk_EntryID (atc_Ticket c)) dg db'"
proof -
  let ?row = "newTicketRow ((atc_Ticket c)\<lparr>tk_AggregateVersion := 1\<rparr>) dg"
  obtain inserted db1 where ins: "insertTicket db ?row = Inr (inserted, db1)"
    using assms by (auto simp: AcceptTicket_def tryTx_def Let_def split: sum.splits)
  show ?thesis
  proof (cases inserted)
    case True
    then have db1: "db1 = db\<lparr>db_tickets := db_tickets db @ [?row]\<rparr>" using ins by (simp add: insertTicket_inserted)
    have "tm_Ticket m = (atc_Ticket c)\<lparr>tk_AggregateVersion := 1\<rparr>" "db_tickets db' = db_tickets db1"
      using assms ins True by (auto simp: AcceptTicket_def tryTx_def commitTx_def Let_def insertOutbox_Inr split: sum.splits option.splits)
    then show ?thesis unfolding recorded_def db1 by (auto simp: newTicketRow_def)
  next
    case False
    then have db1: "db1 = db" using ins insertTicket_skipped by simp
    obtain stored where stored: "loadTicketByEntry db (tk_EntryID (atc_Ticket c)) = Inr stored" "st_requestDigest stored = dg" "tm_Ticket m = st_ticket stored" "db' = db"
      using assms ins False db1 by (auto simp: AcceptTicket_def tryTx_def commitTx_def Let_def split: sum.splits option.splits if_splits)
    then obtain row where "row \<in> set (db_tickets db)" "tk_EntryID (tkr_ticket row) = tk_EntryID (atc_Ticket c)" "stored = scanStoredTicket row"
      by (auto simp: loadTicketByEntry_def dest!: queryRow_Inr)
    then show ?thesis using stored by (auto simp: recorded_def scanStoredTicket_def)
  qed
qed

lemma accepted_again:
  assumes "reachableStore collate db" "AcceptTicket digest flt db c = (Inr m, db1)" "(storeStep collate)\<^sup>*\<^sup>* db1 db2"
    and "AcceptTicketCommand_RequestDigest digest c' = AcceptTicketCommand_RequestDigest digest c" "tk_EntryID (atc_Ticket c') = tk_EntryID (atc_Ticket c)"
  shows "\<exists>t. AcceptTicket digest noFaults db2 c' = (Inr \<lparr>tm_Ticket = t, tm_Changed = False, tm_Replay = True\<rparr>, db2) \<and> tk_ID t = tk_ID (tm_Ticket m)"
proof -
  obtain dg where dg: "AcceptTicketCommand_RequestDigest digest c = Inr dg"
    using assms(2) by (auto simp: AcceptTicket_def tryTx_def split: sum.splits)
  let ?entry = "tk_EntryID (atc_Ticket c)" and ?i = "tk_ID (tm_Ticket m)"
  have inv1: "storeInv collate db1" using storeInv_step [OF reachable_storeInv [OF assms(1)]] accepts [OF assms(2)] by blast
  have inv2: "storeInv collate db2" by (rule store.steps_inv [OF assms(3) inv1])
  have "recorded ?i ?entry dg db1 \<longrightarrow> recorded ?i ?entry dg db2"
    by (rule store.steps_rel [OF assms(3) inv1, where R = "\<lambda>x y. recorded ?i ?entry dg x \<longrightarrow> recorded ?i ?entry dg y"]) (use recorded_step in blast)+
  then obtain row where row: "row \<in> set (db_tickets db2)" "tkr_id row = ?i" "tk_EntryID (tkr_ticket row) = ?entry" "tkr_request_digest row = dg"
    using AcceptTicket_recorded [OF assms(2) dg] by (auto simp: recorded_def)
  have "sha256Text dg" using inv2 row(1,4) by (auto simp: storeInv_def ticketsInv_def ticketChecks_def Let_def)
  moreover have valid: "AcceptTicketCommand_Validate c' = None" using assms(4) dg by (simp add: AcceptTicketCommand_RequestDigest_def)
  ultimately have checks: "ticketChecks (newTicketRow ((atc_Ticket c')\<lparr>tk_AggregateVersion := 1\<rparr>) dg)" by (intro newTicketRow_checks)
  have "list_ex (ticketClash (newTicketRow ((atc_Ticket c')\<lparr>tk_AggregateVersion := 1\<rparr>) dg)) (db_tickets db2)"
    using row(1,3) assms(5) by (auto simp: list_ex_iff ticketClash_def newTicketRow_def intro!: bexI [of _ row])
  moreover have "bigint (est_Games (tk_RatingSnapshot (atc_Ticket c')))"
    using valid by (auto simp: AcceptTicketCommand_Validate_def bigint_def Let_def split: if_splits)
  ultimately have ins: "insertTicket db2 (newTicketRow ((atc_Ticket c')\<lparr>tk_AggregateVersion := 1\<rparr>) dg) = Inr (False, db2)"
    using checks by (simp add: insertTicket_def newTicketRow_def pgEstimate_def)
  have "queryRow (filter (\<lambda>r. tk_EntryID (tkr_ticket r) = ?entry) (db_tickets db2)) = Inr row"
    by (rule queryRow_unique [where key = "tk_EntryID \<circ> tkr_ticket"]) (use row inv2 in \<open>auto simp: storeInv_def ticketsInv_def\<close>)
  then have "AcceptTicket digest noFaults db2 c' = (Inr \<lparr>tm_Ticket = tkr_ticket row, tm_Changed = False, tm_Replay = True\<rparr>, db2)"
    using ins dg assms(4,5) row(4) by (simp add: AcceptTicket_def loadTicketByEntry_def scanStoredTicket_def Let_def)
  then show ?thesis using row(2) by blast
qed

text \<open>
  C9. Accepting is idempotent for ever: once an entry was accepted, repeating the request, with any generated ticket and event
  identities and after any further operations, answers with the ticket that was stored the first time, marked as a replay, and
  changes nothing.
\<close>

theorem accept_replays:
  assumes "reachableStore collate db" "AcceptTicket digest flt db c = (Inr m, db1)" "(storeStep collate)\<^sup>*\<^sup>* db1 db2"
    and "AcceptTicketCommand_RequestDigest digest c' = AcceptTicketCommand_RequestDigest digest c" "tk_EntryID (atc_Ticket c') = tk_EntryID (atc_Ticket c)"
  shows "\<exists>t. AcceptTicket digest noFaults db2 c' = (Inr \<lparr>tm_Ticket = t, tm_Changed = False, tm_Replay = True\<rparr>, db2) \<and> tk_ID t = tk_ID (tm_Ticket m)"
  using assms by (rule accepted_again)

section \<open>Witnesses\<close>

text \<open>A run: a tournament and a room are provisioned, a ticket is accepted and assigned.\<close>

definition sampleDigest :: "digestInput \<Rightarrow> string result" where "sampleDigest = (\<lambda>_. Inr (replicate 64 CHR ''a''))"

definition sampleConfigRow :: ConfigRow where
  "sampleConfigRow = \<lparr>cf_tournament_id = ''t'', cf_version = ''1'', cf_mode_id = ''solo'', cf_capacity = 5, cf_policy_version = ''p'',
     cf_rating_model_version = ''m1'', cf_result_timeout_ms = 60000\<rparr>"

definition sampleRoomRow :: RoomRow where
  "sampleRoomRow = \<lparr>rmr_room_id = ''r1'', rmr_tournament_id = ''t'', rmr_tournament_version = ''1'', rmr_mode_id = ''solo'', rmr_policy_version = ''p'',
     rmr_rating_model_version = ''m1'', rmr_scoring_rules_version = ''s1'', rmr_settlement_version = ''x1'', rmr_deck_id = ''d1'', rmr_capacity = 5,
     rmr_status = RoomForming, rmr_aggregate_version = 1, rmr_created_at = 1000, rmr_fill_deadline = 900000, rmr_filled_at = None,
     rmr_result_deadline = None, rmr_completed_at = None, rmr_expired_at = None, rmr_cancelled_at = None\<rparr>"

definition sampleTicket :: "string \<Rightarrow> Ticket" where
  "sampleTicket i = \<lparr>tk_ID = i, tk_EntryID = ''entry1'', tk_PlayerID = ''ann'', tk_TournamentID = ''t'', tk_TournamentVersion = ''1'',
     tk_Status = TicketQueued, tk_RequestedAt = 5000, tk_AssignedAt = None, tk_CancelledAt = None, tk_ExpiredAt = None, tk_SnapshotAt = 4000,
     tk_RatingSnapshot = \<lparr>est_Mean = 0, est_Uncertainty = 1, est_PerformanceDeviation = None, est_Games = 0, est_ModelVersion = ''m1'', est_UpdatedAt = 3000\<rparr>,
     tk_AggregateVersion = 1\<rparr>"

definition sampleAccept :: "string \<Rightarrow> string \<Rightarrow> AcceptTicketCommand" where
  "sampleAccept i e = \<lparr>atc_Ticket = sampleTicket i, atc_EventID = e\<rparr>"

definition sampleAssign :: AssignTicketCommand where
  "sampleAssign = \<lparr>gtc_AssignmentID = ''a1'', gtc_TicketID = ''tk1'', gtc_RoomID = ''r1'', gtc_ExpectedRoomVersion = 1, gtc_SessionID = ''s1'',
     gtc_TicketEventID = ''e2'', gtc_RoomFilledEventID = ''e3'', gtc_AssignedAt = 7000, gtc_ClaimToken = ''''\<rparr>"

definition sampleDb0 :: Database where
  "sampleDb0 = emptyStore\<lparr>db_configs := [sampleConfigRow], db_rooms := [sampleRoomRow]\<rparr>"

definition acceptedEvent :: outboxEvent where
  "acceptedEvent = \<lparr>ob_ID = ''e1'', ob_AggregateType = outboxAggregateTicket, ob_AggregateID = ''tk1'', ob_AggregateVersion = 1, ob_Type = outboxTicketAccepted,
     ob_Payload = AcceptedPayload ''tk1'' ''entry1'' ''ann'' ''t'' ''1'' TicketQueued 5000, ob_OccurredAt = 5000\<rparr>"

definition assignedEvent :: outboxEvent where
  "assignedEvent = \<lparr>ob_ID = ''e2'', ob_AggregateType = outboxAggregateTicket, ob_AggregateID = ''tk1'', ob_AggregateVersion = 2, ob_Type = outboxTicketAssigned,
     ob_Payload = AssignedPayload ''tk1'' ''r1'' ''s1'' ''ann'' 1 7000, ob_OccurredAt = 7000\<rparr>"

definition sampleDb1 :: Database where
  "sampleDb1 = sampleDb0\<lparr>db_tickets := [newTicketRow (sampleTicket ''tk1'') (replicate 64 CHR ''a'')], db_outbox := [outboxRow acceptedEvent]\<rparr>"

lemma sample_digests:
  "AcceptTicketCommand_RequestDigest sampleDigest (sampleAccept (''tk'' @ [a]) (''e'' @ [b])) = Inr (replicate 64 CHR ''a'')"
  "AssignTicketCommand_RequestDigest sampleDigest sampleAssign = Inr (replicate 64 CHR ''a'')"
  by (simp_all add: AcceptTicketCommand_RequestDigest_def AssignTicketCommand_RequestDigest_def sampleDigest_def sha256Digest_def digestLength_def
      AcceptTicketCommand_Validate_def AssignTicketCommand_Validate_def sampleAccept_def sampleAssign_def sampleTicket_def Estimate_Validate_None Let_def)

lemma sample_accepts:
  "AcceptTicket sampleDigest noFaults sampleDb0 (sampleAccept ''tk1'' ''e1'') = (Inr \<lparr>tm_Ticket = sampleTicket ''tk1'', tm_Changed = True, tm_Replay = False\<rparr>, sampleDb1)"
proof -
  have dg: "AcceptTicketCommand_RequestDigest sampleDigest (sampleAccept ''tk1'' ''e1'') = Inr (replicate 64 CHR ''a'')"
    using sample_digests(1) [of "CHR ''1''" "CHR ''1''"] by simp
  have "AcceptTicketCommand_Validate (sampleAccept ''tk1'' ''e1'') = None" using dg by (simp add: AcceptTicketCommand_RequestDigest_def)
  then have chk: "ticketChecks (newTicketRow (sampleTicket ''tk1'') (replicate 64 CHR ''a''))"
    using newTicketRow_checks [of "sampleAccept ''tk1'' ''e1''" "replicate 64 CHR ''a''"] by (simp add: sampleAccept_def sampleTicket_def sha256Text_def)
  have v: "(sampleTicket ''tk1'')\<lparr>tk_AggregateVersion := 1\<rparr> = sampleTicket ''tk1''" by (simp add: sampleTicket_def)
  have ins: "insertTicket sampleDb0 (newTicketRow (sampleTicket ''tk1'') (replicate 64 CHR ''a'')) =
      Inr (True, sampleDb0\<lparr>db_tickets := [newTicketRow (sampleTicket ''tk1'') (replicate 64 CHR ''a'')]\<rparr>)"
    using chk by (simp add: insertTicket_def bigint_def sampleDb0_def emptyStore_def configExists_def newTicketRow_def sampleTicket_def sampleConfigRow_def pgEstimate_def)
  have "insertOutbox (sampleDb0\<lparr>db_tickets := T\<rparr>) acceptedEvent = Inr (sampleDb0\<lparr>db_tickets := T, db_outbox := [outboxRow acceptedEvent]\<rparr>)" for T
    by (simp add: insertOutbox_def insertRow_def outboxChecks_def outboxRow_def acceptedEvent_def boundedText_def outbox_names sampleDb0_def emptyStore_def)
  then show ?thesis unfolding AcceptTicket_def dg using ins v
    by (simp add: sampleAccept_def sampleDb1_def Let_def) (simp add: acceptedEvent_def sampleTicket_def)
qed

lemma reachable_steps: "reachableStore collate db \<Longrightarrow> storeStep collate db db' \<Longrightarrow> reachableStore collate db'"
  unfolding reachableStore_def by (rule rtranclp.rtrancl_into_rtrancl)

lemma sampleDb0_reachable: "reachableStore collate sampleDb0"
proof -
  have "reachableStore collate emptyStore" by (simp add: reachableStore_def)
  moreover have "storeStep collate emptyStore (emptyStore\<lparr>db_configs := [sampleConfigRow]\<rparr>)"
    using configures [where db = emptyStore and ms = "[]" and cs = "[sampleConfigRow]" and ps = "[]"] by (simp add: emptyStore_def)
  moreover have "provisionedRoom (emptyStore\<lparr>db_configs := [sampleConfigRow]\<rparr>) sampleRoomRow"
    by (simp add: provisionedRoom_def roomChecks_def sampleRoomRow_def emptyStore_def)
  then have "storeStep collate (emptyStore\<lparr>db_configs := [sampleConfigRow]\<rparr>) sampleDb0"
    using provisions [of "emptyStore\<lparr>db_configs := [sampleConfigRow]\<rparr>" sampleRoomRow] by (simp add: sampleDb0_def emptyStore_def)
  ultimately show ?thesis using reachable_steps by blast
qed

lemma sampleDb1_reachable: "reachableStore collate sampleDb1"
  using reachable_steps [OF sampleDb0_reachable accepts [OF sample_accepts]] .

definition sampleDb2 :: Database where
  "sampleDb2 = snd (AssignTicket sampleDigest 0 noFaults sampleDb1 sampleAssign)"

lemma sampleDb2_reachable: "reachableStore collate sampleDb2"
  by (rule reachable_steps [OF sampleDb1_reachable]) (simp add: sampleDb2_def, rule assigns [OF prod.collapse [symmetric]])

lemma sampleDb2_eval:
  "map (\<lambda>m. (mb_ticket_id m, mb_room_id m, mb_seat m)) (db_memberships sampleDb2) = [(''tk1'', ''r1'', 1)]"
  "map (\<lambda>t. (tkr_id t, tkr_status t)) (db_tickets sampleDb2) = [(''tk1'', TicketAssigned)]"
  "db_outbox sampleDb2 = [outboxRow acceptedEvent, outboxRow assignedEvent]"
proof -
  let ?row = "newTicketRow (sampleTicket ''tk1'') (replicate 64 CHR ''a'')"
  have inv: "ticketsInv sampleDb1" using reachable_storeInv [OF sampleDb1_reachable] by (simp add: storeInv_def)
  then have chk: "ticketChecks ?row" by (simp add: ticketsInv_def sampleDb1_def)
  have leave: "ticketChecks (leaveQueue (markAssigned 7000) 2 ?row)"
    using chk by (simp add: ticketChecks_def leaveQueue_def markAssigned_def newTicketRow_def sampleTicket_def Let_def)
  have inc: "incInt64 1 = 2" by (rule incInt64_1)
  have seats: "[1..5 :: int] = [1, 2, 3, 4, 5]" by (simp add: upto.simps)
  have pg: "pgTime 7000 = 7000" by (simp add: pgTime_def)
  have room: "roomChecks (sampleRoomRow\<lparr>rmr_aggregate_version := 2\<rparr>)" by (simp add: roomChecks_def sampleRoomRow_def)
  show "map (\<lambda>m. (mb_ticket_id m, mb_room_id m, mb_seat m)) (db_memberships sampleDb2) = [(''tk1'', ''r1'', 1)]"
      "map (\<lambda>t. (tkr_id t, tkr_status t)) (db_tickets sampleDb2) = [(''tk1'', TicketAssigned)]"
      "db_outbox sampleDb2 = [outboxRow acceptedEvent, outboxRow assignedEvent]"
    using leave room
    by (simp_all add: sampleDb2_def AssignTicket_def sample_digests(2) [unfolded sampleAssign_def] loadAssignmentByIdentity_def assignmentRows_def loadTicketByID_def
        scanStoredTicket_def assignStored_def lockAssignmentRoom_def inspectMemberships_def assignSeat_def updateTicket_def updateRows_def
        advanceRoom_def insertMembership_def insertRow_def membershipChecks_def insertSession_def sessionChecks_def insertAssignmentEvents_def
        insertOutbox_def outboxChecks_def outboxRow_def outboxClash_def boundedText_def outbox_names acceptedEvent_def assignedEvent_def selectSeat_def seats inc pg sha256Text_def
        sampleDb1_def sampleDb0_def emptyStore_def sampleAssign_def sampleRoomRow_def newTicketRow_def sampleTicket_def roomMembers_def
        leaveQueue_def markAssigned_def pgEstimate_def pgTime_def Let_def)
qed


theorem outbox_complete_witness: "ticketEvents (db_outbox sampleDb2) ''tk1'' = [1, 2]"
proof -
  obtain t where "t \<in> set (db_tickets sampleDb2)" "tkr_id t = ''tk1''" "tkr_status t = TicketAssigned"
    using sampleDb2_eval(2) by (cases "db_tickets sampleDb2") auto
  then show ?thesis using outbox_complete [OF sampleDb2_reachable [of strCompare]] by force
qed

theorem store_refines_lobby_witness:
  "lobbyStep (lobby sampleDb1) (lobby sampleDb2)"
proof -
  have step: "storeStep strCompare sampleDb1 sampleDb2" unfolding sampleDb2_def by (rule assigns [OF prod.collapse [symmetric]])
  have queued: "lobby sampleDb1 ''tk1'' = Some Waiting"
    by (simp add: lobby_def sampleDb1_def newTicketRow_def sampleTicket_def phaseOf_def)
  have "lobby sampleDb2 ''tk1'' = Some (Seated ''r1'' 1)"
    using sampleDb2_eval(1,2) by (auto simp: lobby_def phaseOf_def)
  then show ?thesis using store_refines_lobby [OF sampleDb1_reachable step] queued by auto
qed

theorem settled_for_ever_witness: "\<forall>c. lobby (snd (CancelTicket sampleDigest noFaults sampleDb2 c)) ''tk1'' = Some (Seated ''r1'' 1)"
proof
  fix c
  have seated: "lobby sampleDb2 ''tk1'' = Some (Seated ''r1'' 1)" using sampleDb2_eval(1,2) by (auto simp: lobby_def phaseOf_def)
  have "storeStep strCompare sampleDb2 (snd (CancelTicket sampleDigest noFaults sampleDb2 c))" by (rule cancels [OF prod.collapse [symmetric]])
  then show "lobby (snd (CancelTicket sampleDigest noFaults sampleDb2 c)) ''tk1'' = Some (Seated ''r1'' 1)"
    by (intro settled_for_ever [OF sampleDb2_reachable [of strCompare] r_into_rtranclp seated]) simp_all
qed

theorem accept_replays_witness:
  "\<exists>t. AcceptTicket sampleDigest noFaults sampleDb2 (sampleAccept ''tk9'' ''e9'') = (Inr \<lparr>tm_Ticket = t, tm_Changed = False, tm_Replay = True\<rparr>, sampleDb2) \<and> tk_ID t = ''tk1''"
proof -
  have "(storeStep strCompare)\<^sup>*\<^sup>* sampleDb1 sampleDb2"
    unfolding sampleDb2_def by (rule r_into_rtranclp) (rule assigns [OF prod.collapse [symmetric]])
  then show ?thesis
    using accept_replays [OF sampleDb0_reachable [of strCompare] sample_accepts, of sampleDb2 "sampleAccept ''tk9'' ''e9''"]
      sample_digests(1) [of "CHR ''1''" "CHR ''1''"] sample_digests(1) [of "CHR ''9''" "CHR ''9''"]
    by (simp add: sampleAccept_def sampleTicket_def)
qed

text \<open>The first event is claimed, although both are due, and delivered; then the second one can be claimed.\<close>

definition sampleClaim :: OutboxClaimRequest where
  "sampleClaim = \<lparr>ocr_Token = ''w'', ocr_Limit = 8, ocr_ClaimedAt = 10000, ocr_LeaseUntil = 20000\<rparr>"

definition sampleDb3 :: Database where "sampleDb3 = snd (ClaimOutboxEvents strCompare [] (\<lambda>_. ''{}'') noFaults sampleDb2 sampleClaim)"
definition sampleDb4 :: Database where "sampleDb4 = snd (MarkOutboxDelivered 12000 noFaults sampleDb3 ''e1'' ''w'' 11000)"
definition sampleDb5 :: Database where "sampleDb5 = snd (ClaimOutboxEvents strCompare [] (\<lambda>_. ''{}'') noFaults sampleDb4 sampleClaim)"

lemmas outbox_eval = ClaimOutboxEvents_def OutboxClaimRequest_Validate_def MaxOutboxBatchSize_def claimStatement_def dueEvents_def outboxDue_def unclaimedAt_def
  outboxPrecedes_def compareDueEvents_def updateRows_def claimEvent_def outboxChecks_def boundedText_def outboxRow_def sampleClaim_def pgTime_def
  MarkOutboxDelivered_def execUpdate_def updateOutbox_def holdsLease_def strCompare_def outbox_names acceptedEvent_def assignedEvent_def Let_def

lemma sampleDb3_eval: "db_outbox sampleDb3 = [claimEvent sampleClaim (outboxRow acceptedEvent), outboxRow assignedEvent]"
  using sampleDb2_eval(3) by (simp add: sampleDb3_def outbox_eval)

lemma sampleDb4_eval:
  "db_outbox sampleDb4 = [(claimEvent sampleClaim (outboxRow acceptedEvent))\<lparr>ox_delivered_at := Some 11000, ox_claimed_by := None, ox_claimed_until := None\<rparr>, outboxRow assignedEvent]"
  using sampleDb3_eval by (simp add: sampleDb4_def outbox_eval)

lemma sampleDb5_eval:
  "db_outbox sampleDb5 = [(claimEvent sampleClaim (outboxRow acceptedEvent))\<lparr>ox_delivered_at := Some 11000, ox_claimed_by := None, ox_claimed_until := None\<rparr>,
     claimEvent sampleClaim (outboxRow assignedEvent)]"
  using sampleDb4_eval by (simp add: sampleDb5_def outbox_eval)

lemma sampleDb5_reachable: "reachableStore strCompare sampleDb5"
proof -
  have "reachableStore strCompare sampleDb3"
    by (rule reachable_steps [OF sampleDb2_reachable]) (unfold sampleDb3_def, rule takes [OF prod.collapse [symmetric]])
  then have "reachableStore strCompare sampleDb4"
    by (rule reachable_steps) (unfold sampleDb4_def, rule delivers [OF prod.collapse [symmetric]])
  then show ?thesis
    by (rule reachable_steps) (unfold sampleDb5_def, rule takes [OF prod.collapse [symmetric]])
qed

theorem delivery_in_order_witness:
  "ox_claimed_by (db_outbox sampleDb5 ! 1) = Some ''w'' \<and> ox_delivered_at (db_outbox sampleDb5 ! 0) \<noteq> None"
proof -
  have "outboxPrecedes strCompare (db_outbox sampleDb5 ! 0) (db_outbox sampleDb5 ! 1)" "ox_claimed_by (db_outbox sampleDb5 ! 1) = Some ''w''"
    by (simp_all add: sampleDb5_eval outbox_eval)
  moreover have "db_outbox sampleDb5 ! 0 \<in> set (db_outbox sampleDb5)" "db_outbox sampleDb5 ! 1 \<in> set (db_outbox sampleDb5)"
    by (simp_all add: sampleDb5_eval)
  ultimately show ?thesis using delivery_in_order [OF sampleDb5_reachable] by simp
qed

end
