(* ===== verification/Result_Lifecycle.thy ===== *)
theory Result_Lifecycle
  imports Ticket_Lifecycle
begin

text \<open>
  Results and ratings over all interleavings of the stores' operations: a room is settled once, a result is finalized once however
  often it is reported, and the rating history of every player is unbroken.
\<close>

section \<open>Settlement\<close>

text \<open>
  C5. In every reachable store a room is completed exactly when a verified result is recorded for it, and then there is only one;
  the participants of that result are exactly the sessions of the room, each once. The sessions of a room agree with its status:
  allocated while it forms or collects results, submitted or forfeited once it is completed, all forfeited when it has expired.
\<close>

theorem results_settle_rooms:
  assumes "reachableStore collate db" "r \<in> set (db_rooms db)"
  shows "(rmr_status r = RoomCompleted \<longleftrightarrow> (\<exists>v \<in> set (db_results db). vr_room_id v = rmr_room_id r)) \<and>
    (\<forall>v \<in> set (db_results db). vr_room_id v = rmr_room_id r \<longrightarrow>
       (\<forall>w \<in> set (db_results db). vr_room_id w = rmr_room_id r \<longrightarrow> w = v) \<and>
       distinct (map pt_session_id (eventParticipants db (vr_event_id v))) \<and>
       pt_session_id ` set (eventParticipants db (vr_event_id v)) = sn_session_id ` set (roomSessions db (rmr_room_id r))) \<and>
    (\<forall>s \<in> set (roomSessions db (rmr_room_id r)). sessionFits (rmr_status r) s)"
proof (intro conjI ballI impI)
  have inv: "roomsInv db" "seatsInv db" "sessionsInv db" "resultsInv db" using reachable_storeInv [OF assms(1)] by (simp_all add: storeInv_def)
  note res = inv(4) [unfolded resultsInv_def]
  have room: "\<exists>x \<in> set (db_rooms db). rmr_room_id x = vr_room_id v \<and> rmr_capacity x = vr_room_capacity v \<and> rmr_status x = RoomCompleted"
    and full: "int (length (eventParticipants db (vr_event_id v))) = vr_room_capacity v" if "v \<in> set (db_results db)" for v
    using res that by blast+
  show "(rmr_status r = RoomCompleted) = (\<exists>v \<in> set (db_results db). vr_room_id v = rmr_room_id r)"
  proof
    assume "rmr_status r = RoomCompleted"
    then have "rmr_room_id r \<in> vr_room_id ` set (db_results db)" using res assms(2) by blast
    then show "\<exists>v \<in> set (db_results db). vr_room_id v = rmr_room_id r" by auto
  next
    assume "\<exists>v \<in> set (db_results db). vr_room_id v = rmr_room_id r"
    then show "rmr_status r = RoomCompleted" using room room_unique [OF inv(1) _ assms(2)] by metis
  qed
  fix v assume v: "v \<in> set (db_results db)" "vr_room_id v = rmr_room_id r"
  show "w = v" if "w \<in> set (db_results db)" "vr_room_id w = rmr_room_id r" for w
    using distinct_map_unique [of vr_room_id "db_results db" w v] res v that by simp
  have "distinct (map pt_session_id (db_participants db))" using res by blast
  then show distinct: "distinct (map pt_session_id (eventParticipants db (vr_event_id v)))" by (simp add: eventParticipants_def distinct_map_filter)
  have r: "rmr_capacity r = vr_room_capacity v" "rmr_status r = RoomCompleted" using room [OF v(1)] v(2) room_unique [OF inv(1) _ assms(2)] by metis+
  then have "int (length (roomMembers db (rmr_room_id r))) = rmr_capacity r" using inv(1) assms(2) by (auto simp: roomsInv_def wellFilled_def)
  then have "length (eventParticipants db (vr_event_id v)) = length (roomMembers db (rmr_room_id r))" using full [OF v(1)] r(1) by simp
  moreover have "\<forall>p \<in> set (eventParticipants db (vr_event_id v)). playsIn (db_sessions db) p \<and> pt_room_id p = rmr_room_id r"
  proof
    fix p assume "p \<in> set (eventParticipants db (vr_event_id v))"
    then have p: "p \<in> set (db_participants db)" "pt_event_id p = vr_event_id v" by (auto simp: eventParticipants_def)
    then obtain w where "w \<in> set (db_results db)" "vr_event_id w = pt_event_id p" "vr_room_id w = pt_room_id p" "playsIn (db_sessions db) p" using res by blast
    then show "playsIn (db_sessions db) p \<and> pt_room_id p = rmr_room_id r" using rate_unique [OF inv(4) v(1), of w] p(2) v(2) by simp
  qed
  ultimately show "pt_session_id ` set (eventParticipants db (vr_event_id v)) = sn_session_id ` set (roomSessions db (rmr_room_id r))"
    using distinct by (intro all_sessions [OF inv(3,2)])
next
  have inv: "roomsInv db" "sessionsInv db" using reachable_storeInv [OF assms(1)] by (simp_all add: storeInv_def)
  fix s assume "s \<in> set (roomSessions db (rmr_room_id r))"
  then have s: "s \<in> set (db_sessions db)" "sn_room_id s = rmr_room_id r" by (auto simp: roomSessions_def)
  then obtain x where "x \<in> set (db_rooms db)" "rmr_room_id x = sn_room_id s" "sessionFits (rmr_status x) s" using inv(2) unfolding sessionsInv_def by blast
  then show "sessionFits (rmr_status r) s" using room_unique [OF inv(1) _ assms(2)] s(2) by metis
qed

section \<open>Ratings\<close>

text \<open>
  C6. In every reachable store the rating history of a player in a mode under a model is a chain, each update starting from the
  estimate the previous one ended with; there is a current rating exactly when the history is not empty, and it is the last
  estimate with the number of updates as its revision. Every processed result has updated each of its participants exactly once,
  a result that is not processed nobody, and every update comes from a recorded result.
\<close>

theorem ratings_follow_results:
  assumes "reachableStore collate db"
  shows "(\<forall>p m v. let h = ratingHistory (db_rating_updates db) p m v in chained h \<and>
      (case List.find (ratingKey p m v) (db_ratings db) of
         None \<Rightarrow> h = []
       | Some r \<Rightarrow> h \<noteq> [] \<and> plr_estimate r = rur_after (last h) \<and> plr_revision r = int (length h))) \<and>
    (\<forall>w \<in> set (db_results db). let us = filter (\<lambda>u. rur_source_event_id u = vr_event_id w) (db_rating_updates db) in
       distinct (map rur_player_id us) \<and>
       rur_player_id ` set us = (if vr_processed_at w = None then {} else pt_player_id ` set (eventParticipants db (vr_event_id w)))) \<and>
    (\<forall>u \<in> set (db_rating_updates db). \<exists>w \<in> set (db_results db). vr_event_id w = rur_source_event_id u)"
proof -
  have "ratingsInv db" using reachable_storeInv [OF assms] by (simp add: storeInv_def)
  then have tables: "ratingTables (db_ratings db) (db_rating_updates db)" and once: "\<forall>w \<in> set (db_results db). ratedOnce db w"
    and src: "\<forall>u \<in> set (db_rating_updates db). rur_source_event_id u \<in> vr_event_id ` set (db_results db)" unfolding ratingsInv_def by blast+
  have sums: "summarizes h x \<longleftrightarrow> (case x of None \<Rightarrow> h = [] | Some r \<Rightarrow> h \<noteq> [] \<and> plr_estimate r = rur_after (last h) \<and> plr_revision r = int (length h))" for h x
    by (cases x) simp_all
  show ?thesis unfolding Let_def
  proof (intro conjI)
    show "\<forall>p m v. chained (ratingHistory (db_rating_updates db) p m v) \<and>
        (case List.find (ratingKey p m v) (db_ratings db) of
           None \<Rightarrow> ratingHistory (db_rating_updates db) p m v = []
         | Some r \<Rightarrow> ratingHistory (db_rating_updates db) p m v \<noteq> [] \<and> plr_estimate r = rur_after (last (ratingHistory (db_rating_updates db) p m v)) \<and>
             plr_revision r = int (length (ratingHistory (db_rating_updates db) p m v)))"
      using tables unfolding ratingTables_def sums by blast
    show "\<forall>u \<in> set (db_rating_updates db). \<exists>w \<in> set (db_results db). vr_event_id w = rur_source_event_id u"
      using src by (simp add: image_iff) metis
  qed (use once in \<open>simp only: ratedOnce_def eventUpdates_def\<close>)
qed

section \<open>Replays of results\<close>

text \<open>A settled result stays on record with its digest, its participants and its room.\<close>

definition settledResult :: "string \<Rightarrow> string \<Rightarrow> ParticipantRow list \<Rightarrow> RoomRow \<Rightarrow> Database \<Rightarrow> bool" where
  "settledResult i dg ps r db \<longleftrightarrow> (\<exists>v \<in> set (db_results db). vr_event_id v = i \<and> vr_request_digest v = dg \<and> vr_room_id v = rmr_room_id r) \<and>
     eventParticipants db i = ps \<and> r \<in> set (db_rooms db) \<and> rmr_status r = RoomCompleted"

lemma onRoom_other: "r \<in> set rows \<Longrightarrow> rmr_room_id r \<noteq> i \<Longrightarrow> r \<in> set (onRoom i g rows)"
  by (auto simp: onRoom_def image_iff intro!: bexI [of _ r])

lemma settledResult_lifecycle: "lifecycle db db' \<Longrightarrow> roomsInv db \<Longrightarrow> settledResult i dg ps r db \<Longrightarrow> settledResult i dg ps r db'"
proof (induction rule: lifecycle.induct)
  case (assign row db version t room filled roomVersion f d m s ev roomEv evs work)
  have "rmr_room_id r \<noteq> rmr_room_id room" using seated_status [OF assign.prems(1) assign.hyps(5,6)] assign.prems(2) by (simp add: settledResult_def)
  then show ?case using assign.prems(2) by (simp add: settledResult_def eventParticipants_def onRoom_other)
qed (simp_all add: settledResult_def eventParticipants_def)

lemma settledResult_settle: "settle db db' \<Longrightarrow> roomsInv db \<Longrightarrow> settledResult i dg ps r db \<Longrightarrow> settledResult i dg ps r db'"
proof (induction rule: settle.induct)
  case (complete room db version t v qs f ev work)
  have "rmr_room_id r \<noteq> rmr_room_id room" using collecting_apart [OF complete.prems(1) complete.hyps(1,2)] complete.prems(2) by (simp add: settledResult_def)
  moreover have "vr_event_id v \<noteq> i" using complete.hyps(7) complete.prems(2) by (auto simp: settledResult_def resultClash_def)
  then have "filter (\<lambda>p. pt_event_id p = i) qs = []" using complete.hyps(10) by (auto simp: filter_empty_conv)
  ultimately show ?case using complete.prems(2) by (auto simp: settledResult_def eventParticipants_def onRoom_other)
next
  case (expire room db t ev)
  have "rmr_room_id r \<noteq> rmr_room_id room" using collecting_apart [OF expire.prems(1) expire.hyps(1,2)] expire.prems(2) by (simp add: settledResult_def)
  then show ?case using expire.prems(2) by (simp add: settledResult_def eventParticipants_def onRoom_other)
qed

lemma settledResult_settled:
  "settle\<^sup>*\<^sup>* db db' \<Longrightarrow> storeInv collate db \<Longrightarrow> settledResult i dg ps r db \<Longrightarrow> settledResult i dg ps r db'"
proof (induction rule: rtranclp_induct)
  case (step y z)
  have "roomsInv y" using storeInv_settled [OF step.hyps(1) step.prems(1)] by (simp add: storeInv_def)
  then show ?case using settledResult_settle step by blast
qed

lemma settledResult_map:
  assumes "settledResult i dg ps r db" "db_results db' = map f (db_results db)" "db_participants db' = db_participants db" "db_rooms db' = db_rooms db"
    and "\<And>v. v \<in> set (db_results db) \<Longrightarrow> vr_event_id (f v) = vr_event_id v \<and> vr_request_digest (f v) = vr_request_digest v \<and> vr_room_id (f v) = vr_room_id v"
  shows "settledResult i dg ps r db'"
  using assms unfolding settledResult_def eventParticipants_def by auto

lemma settledResult_step:
  assumes "storeInv collate db" "storeStep collate db db'" "settledResult i dg ps r db"
  shows "settledResult i dg ps r db'"
  using assms(2,1)
proof (cases rule: storeStep_cases)
  case 2
  then show ?thesis using settledResult_lifecycle assms(1,3) by (simp add: storeInv_def)
next
  case 5
  then show ?thesis using settledResult_settled assms(1,3) by blast
next
  case 6
  then obtain f where "db' = db\<lparr>db_results := map f (db_results db)\<rparr>" "\<And>v. v \<in> set (db_results db) \<Longrightarrow> sameResult v (f v)"
    unfolding resultsRescheduled_def by blast
  then show ?thesis by (intro settledResult_map [OF assms(3), of _ f]) (simp_all add: sameResult_def)
next
  case 7
  then show ?thesis using assms(3)
  proof (induction rule: rate.induct)
    case (rate v db claim t us model rs ev)
    show ?case by (rule settledResult_map [OF rate.prems, of _ "\<lambda>x. if ratedBy claim x then processedRow t x else x"]) simp_all
  qed
qed (use assms(3) in \<open>auto simp: settledResult_def eventParticipants_def outboxMoved_def ticketsRescheduled_def\<close>)

definition describes :: "string \<Rightarrow> ParticipantRow list \<Rightarrow> RoomRow \<Rightarrow> FinalizedResult \<Rightarrow> bool" where
  "describes i ps r m \<longleftrightarrow> mr_EventID (fr_Result m) = i \<and> mr_RoomID (fr_Result m) = rmr_room_id r \<and> fr_RoomVersion m = rmr_aggregate_version r \<and>
     mset (mr_Participants (fr_Result m)) = mset (map (\<lambda>p. \<lparr>pr_PlayerID = pt_player_id p, pr_Place = pt_place p, pr_Features = pt_features p\<rparr>) ps)"

lemma tryTx_Inr: "tryTx db r k = (Inr y, db') \<longleftrightarrow> (\<exists>x. r = Inr x \<and> k x = (Inr y, db'))"
  by (cases r) auto

lemma commitTx_Inr: "commitTx flt wrap x db db1 = (Inr y, db') \<Longrightarrow> y = x \<and> db' = db1"
  by (auto simp: commitTx_def split: option.splits)

lemma queryRow_only:
  assumes "x \<in> set rows" "p x" "\<And>y. y \<in> set rows \<Longrightarrow> p y \<Longrightarrow> y = x"
  shows "queryRow (filter p rows) = Inr x"
proof (cases "filter p rows")
  case Nil
  then show ?thesis using assms(1,2) by (simp add: filter_empty_conv)
next
  case (Cons y ys)
  then have "y \<in> set (filter p rows)" by simp
  then have "y = x" using assms(3) by auto
  then show ?thesis using Cons by simp
qed

lemma mset_scanned: "mset (resultParticipants collate db i) = mset (eventParticipants db i)"
  by (simp add: resultParticipants_def eventParticipants_def)

text \<open>What a lookup answers is what is on record.\<close>

lemma loadFinalizedResult_Inr:
  assumes "loadFinalizedResult collate flt db lookup identity = Inr (stored, dg)" "roomsInv db" "resultsInv db"
  shows "\<exists>r. settledResult (mr_EventID (fr_Result stored)) dg (eventParticipants db (mr_EventID (fr_Result stored))) r db \<and>
    describes (mr_EventID (fr_Result stored)) (eventParticipants db (mr_EventID (fr_Result stored))) r stored"
proof -
  obtain v r t where v: "v \<in> set (db_results db)" "r \<in> set (db_rooms db)" "rmr_room_id r = vr_room_id v"
      and stored: "stored = \<lparr>fr_Result = scanResult v (resultParticipants collate db (vr_event_id v)), fr_RoomVersion = rmr_aggregate_version r, fr_CompletedAt = t,
        fr_RatingPending = (vr_processed_at v = None), fr_Replay = False\<rparr>" "dg = vr_request_digest v"
    using assms(1) by (auto simp: loadFinalizedResult_def stmt_def split: if_splits option.splits dest!: queryRow_Inr)
  obtain x where "x \<in> set (db_rooms db)" "rmr_room_id x = vr_room_id v" "rmr_status x = RoomCompleted"
    using assms(3) v(1) unfolding resultsInv_def by blast
  then have "rmr_status r = RoomCompleted" using room_unique [OF assms(2) v(2)] v(3) by auto
  then show ?thesis using v stored
    by (intro exI [of _ r]) (auto simp: settledResult_def describes_def scanResult_def mset_scanned)
qed

lemma recordResult_settled:
  assumes "recordResult hash flt db command dg room = (Inr m, db')" "x \<in> set (db_rooms db)" "rsr_id room = rmr_room_id x" "frc_RoomID command = rmr_room_id x"
    "resultsInv db"
  shows "\<exists>ps r. settledResult (frc_EventID command) dg ps r db' \<and> describes (frc_EventID command) ps r m"
proof -
  let ?v = "newResultRow command dg (rsr_capacity room)" and ?ver = "incInt64 (rsr_version room)"
  let ?ps = "map (newParticipantRow command (rsr_capacity room)) (frc_Participants command)"
  let ?result = "\<lparr>fr_Result = FinalizeResultCommand_MatchResult command, fr_RoomVersion = ?ver, fr_CompletedAt = frc_AcceptedAt command,
      fr_RatingPending = True, fr_Replay = False\<rparr>"
  obtain db1 db2 db3 db4 where
    db1: "insertResult db ?v = Inr db1" and
    db2: "participantLoop flt command (rsr_capacity room) (frc_Participants command) db1 = Inr db2" and
    db3: "completeRoom db2 (rsr_id room) ?ver (frc_AcceptedAt command) = Inr db3" and
    db4: "insertRoomCompletedEvent hash flt db3 ?result = Inr db4" and
    w: "insertShadowWork db4 ''result'' (frc_EventID command) (frc_AvailableAt command) 1 = Inr db'" and m: "m = ?result"
    using assms(1) unfolding recordResult_def by (auto simp: tryTx_Inr Let_def split: if_splits dest!: commitTx_Inr)
  note v = insertResult_Inr [OF db1]
  obtain f where f: "db2 = db1\<lparr>db_sessions := map f (db_sessions db1), db_participants := db_participants db1 @ ?ps\<rparr>"
    using participantLoop_Inr [OF db2] by blast
  obtain ev where ev: "db4 = db3\<lparr>db_outbox := db_outbox db3 @ [ev]\<rparr>" using insertRoomCompletedEvent_Inr [OF db4] by blast
  let ?r = "completedRoom ?ver (pgTime (frc_AcceptedAt command)) x"
  have db': "db_results db' = db_results db @ [?v]" "db_participants db' = db_participants db @ ?ps"
      "db_rooms db' = onRoom (rmr_room_id x) (completedRoom ?ver (pgTime (frc_AcceptedAt command))) (db_rooms db)"
    by (subst insertShadowWork_Inr [OF w], use ev db3 f v assms(3) in \<open>simp add: completeRoom_Inr\<close>)+
  have "?r \<in> set (db_rooms db')" using assms(2) by (auto simp: db' onRoom_def image_iff intro!: bexI [of _ x])
  moreover have "eventParticipants db (frc_EventID command) = []" using new_event_participants(1) [OF assms(5), of ?v] v by (simp add: newResultRow_def)
  then have "eventParticipants db' (frc_EventID command) = ?ps"
    by (simp add: eventParticipants_def db' filter_id_conv newParticipantRow_def)
  ultimately have "settledResult (frc_EventID command) dg ?ps ?r db'" using assms(4) by (simp add: settledResult_def db' newResultRow_def)
  moreover have "describes (frc_EventID command) ?ps ?r m"
    using assms(4) by (simp add: describes_def m FinalizeResultCommand_MatchResult_def newParticipantRow_def comp_def)
  ultimately show ?thesis by blast
qed

lemma FinalizeResult_recorded:
  assumes "FinalizeResult collate digest hash flt db command = (Inr m, db')" "roomsInv db" "resultsInv db" "mr_EventID (fr_Result m) = frc_EventID command"
    and dg: "FinalizeResultCommand_RequestDigest digest command = Inr dg"
  shows "\<exists>ps r. settledResult (frc_EventID command) dg ps r db' \<and> describes (frc_EventID command) ps r m"
proof -
  have replay: ?thesis if "commitResultReplay flt db stored storedDigest dg = (Inr m, db')" "loadFinalizedResult collate flt db lookup identity = Inr (stored, storedDigest)"
    for stored storedDigest lookup identity
  proof -
    have "m = stored\<lparr>fr_Replay := True\<rparr>" "db' = db" "storedDigest = dg"
      using that(1) by (auto simp: commitResultReplay_def split: if_splits dest: commitTx_Inr)
    then show ?thesis using loadFinalizedResult_Inr [OF that(2) assms(2,3)] assms(4) by (auto simp: describes_def)
  qed
  show ?thesis
  proof (cases "loadFinalizedResult collate flt db ''event'' (frc_EventID command)")
    case (Inr stored)
    then show ?thesis using assms(1) dg replay by (cases stored) (auto simp: FinalizeResult_def tryTx_Inr)
  next
    case (Inl e)
    then obtain room where room: "lockResultRoom db (frc_RoomID command) = Inr room" "finalizeRoom collate hash flt db command dg room = (Inr m, db')"
      using assms(1) dg by (auto simp: FinalizeResult_def tryTx_Inr split: if_splits)
    then obtain x where x: "x \<in> set (db_rooms db)" "rmr_room_id x = frc_RoomID command" "rsr_id room = frc_RoomID command"
      using lockResultRoom_Inr by blast
    show ?thesis
    proof (cases "rsr_status room = RoomCollecting")
      case True
      then have "recordResult hash flt db command dg room = (Inr m, db')"
        using room(2) by (auto simp: finalizeRoom_def tryTx_Inr split: if_splits option.splits)
      then show ?thesis using recordResult_settled x assms(3) by metis
    next
      case False
      then show ?thesis using room(2) replay
        by (cases "loadFinalizedResult collate flt db ''room'' (frc_RoomID command)") (auto simp: finalizeRoom_def split: if_splits)
    qed
  qed
qed

text \<open>
  C10. Finalizing a result is idempotent for ever: once a result was finalized, reporting it again, after any further operations,
  answers with the same event, room, room version and placements, marked as a replay, and changes nothing.
\<close>

theorem finalize_replays:
  assumes "reachableStore collate db" "FinalizeResult collate digest hash flt db c = (Inr m, db1)" "mr_EventID (fr_Result m) = frc_EventID c"
    and "(storeStep collate)\<^sup>*\<^sup>* db1 db2"
    and "FinalizeResultCommand_RequestDigest digest c' = FinalizeResultCommand_RequestDigest digest c" "frc_EventID c' = frc_EventID c"
  shows "\<exists>m'. FinalizeResult collate digest hash noFaults db2 c' = (Inr m', db2) \<and> fr_Replay m' \<and>
    mr_EventID (fr_Result m') = frc_EventID c \<and> mr_RoomID (fr_Result m') = mr_RoomID (fr_Result m) \<and> fr_RoomVersion m' = fr_RoomVersion m \<and>
    mset (mr_Participants (fr_Result m')) = mset (mr_Participants (fr_Result m))"
proof -
  obtain dg where dg: "FinalizeResultCommand_RequestDigest digest c = Inr dg" using assms(2) by (auto simp: FinalizeResult_def tryTx_Inr)
  have inv: "storeInv collate db" by (rule reachable_storeInv [OF assms(1)])
  then obtain ps r where settled: "settledResult (frc_EventID c) dg ps r db1" and m: "describes (frc_EventID c) ps r m"
    using FinalizeResult_recorded [OF assms(2) _ _ assms(3) dg] by (auto simp: storeInv_def)
  have inv1: "storeInv collate db1" using storeInv_step [OF inv] finalizes [OF assms(2)] by blast
  then have inv2: "storeInv collate db2" by (rule store.steps_inv [OF assms(4)])
  have "settledResult (frc_EventID c) dg ps r db1 \<longrightarrow> settledResult (frc_EventID c) dg ps r db2"
    by (rule store.steps_rel [OF assms(4) inv1, where R = "\<lambda>x y. settledResult (frc_EventID c) dg ps r x \<longrightarrow> settledResult (frc_EventID c) dg ps r y"])
      (use settledResult_step in blast)+
  then obtain v where v: "v \<in> set (db_results db2)" "vr_event_id v = frc_EventID c" "vr_request_digest v = dg" "vr_room_id v = rmr_room_id r"
      and r: "r \<in> set (db_rooms db2)" "rmr_status r = RoomCompleted" and ps: "eventParticipants db2 (frc_EventID c) = ps"
    using settled unfolding settledResult_def by blast
  have "roomChecks r" using inv2 r(1) by (auto simp: storeInv_def roomsInv_def wellFilled_def)
  then obtain t where t: "rmr_completed_at r = Some t" using r(2) by (auto simp: roomChecks_def)
  have only: "y = (v, r)" if y: "y \<in> set (List.product (db_results db2) (db_rooms db2))" "rmr_room_id (snd y) = vr_room_id (fst y)" "vr_event_id (fst y) = frc_EventID c" for y
  proof -
    have in2: "fst y \<in> set (db_results db2)" "snd y \<in> set (db_rooms db2)" using y(1) by auto
    have "resultsInv db2" "roomsInv db2" using inv2 by (simp_all add: storeInv_def)
    then have "fst y = v" "fst y = v \<Longrightarrow> snd y = r"
      using rate_unique [of db2 v "fst y"] room_unique [of db2 "snd y" r] in2 y(2,3) v(1,2,4) r(1) by simp_all
    then show ?thesis by (metis prod.collapse)
  qed
  have "queryRow (filter (\<lambda>(v, r). rmr_room_id r = vr_room_id v \<and> (''event'' = ''event'' \<and> vr_event_id v = frc_EventID c \<or> ''event'' = ''room'' \<and> vr_room_id v = frc_EventID c))
      (List.product (db_results db2) (db_rooms db2))) = Inr (v, r)"
  proof (rule queryRow_only)
    show "y = (v, r)" if "y \<in> set (List.product (db_results db2) (db_rooms db2))"
        "case y of (v, r) \<Rightarrow> rmr_room_id r = vr_room_id v \<and> (''event'' = ''event'' \<and> vr_event_id v = frc_EventID c \<or> ''event'' = ''room'' \<and> vr_room_id v = frc_EventID c)" for y
      by (rule only [OF that(1)]) (use that(2) in \<open>simp_all add: case_prod_beta\<close>)
  qed (simp_all add: v r(1))
  then have load: "loadFinalizedResult collate noFaults db2 ''event'' (frc_EventID c) = Inr (\<lparr>fr_Result = scanResult v (resultParticipants collate db2 (frc_EventID c)),
      fr_RoomVersion = rmr_aggregate_version r, fr_CompletedAt = t, fr_RatingPending = (vr_processed_at v = None), fr_Replay = False\<rparr>, dg)"
    using v(2,3) t by (simp add: loadFinalizedResult_def)
  show ?thesis unfolding FinalizeResult_def assms(5,6) dg load using m v(2,4) ps
    by (simp add: commitResultReplay_def describes_def scanResult_def mset_scanned)
qed

section \<open>Witnesses\<close>

text \<open>A run: five tickets are accepted and seated in one room, its result is finalized, and a rating worker claims it.\<close>

definition acceptPlayer :: "string \<Rightarrow> Database \<Rightarrow> Database" where
  "acceptPlayer i db = snd (AcceptTicket sampleDigest noFaults db
     \<lparr>atc_Ticket = (sampleTicket (''tk'' @ i))\<lparr>tk_EntryID := ''entry'' @ i, tk_PlayerID := ''p'' @ i\<rparr>, atc_EventID = ''e'' @ i\<rparr>)"

definition assignPlayer :: "string \<times> int \<Rightarrow> Database \<Rightarrow> Database" where
  "assignPlayer = (\<lambda>(i, v) db. snd (AssignTicket sampleDigest 0 noFaults db
     \<lparr>gtc_AssignmentID = ''a'' @ i, gtc_TicketID = ''tk'' @ i, gtc_RoomID = ''r1'', gtc_ExpectedRoomVersion = v, gtc_SessionID = ''s'' @ i,
      gtc_TicketEventID = ''f'' @ i, gtc_RoomFilledEventID = ''g'' @ i, gtc_AssignedAt = 7000, gtc_ClaimToken = ''''\<rparr>))"

definition samplePlayers :: "(string \<times> int) list" where
  "samplePlayers = [(''1'', 1), (''2'', 2), (''3'', 3), (''4'', 4), (''5'', 5)]"

definition seatedDb :: Database where
  "seatedDb = fold assignPlayer samplePlayers (fold (acceptPlayer \<circ> fst) samplePlayers sampleDb0)"

text \<open>The store at that point, written out.\<close>

definition playerTicket :: "string \<Rightarrow> Ticket" where
  "playerTicket i = (sampleTicket (''tk'' @ i))\<lparr>tk_EntryID := ''entry'' @ i, tk_PlayerID := ''p'' @ i\<rparr>"

definition playerEvents :: "(string \<times> int) list \<Rightarrow> outboxEvent list" where
  "playerEvents ps =
     map (\<lambda>(i, _). \<lparr>ob_ID = ''e'' @ i, ob_AggregateType = outboxAggregateTicket, ob_AggregateID = ''tk'' @ i, ob_AggregateVersion = 1, ob_Type = outboxTicketAccepted,
       ob_Payload = AcceptedPayload (''tk'' @ i) (''entry'' @ i) (''p'' @ i) ''t'' ''1'' TicketQueued 5000, ob_OccurredAt = 5000\<rparr>) ps @
     map (\<lambda>(i, n). \<lparr>ob_ID = ''f'' @ i, ob_AggregateType = outboxAggregateTicket, ob_AggregateID = ''tk'' @ i, ob_AggregateVersion = 2, ob_Type = outboxTicketAssigned,
       ob_Payload = AssignedPayload (''tk'' @ i) ''r1'' (''s'' @ i) (''p'' @ i) n 7000, ob_OccurredAt = 7000\<rparr>) ps @
     [\<lparr>ob_ID = ''g5'', ob_AggregateType = outboxAggregateRoom, ob_AggregateID = ''r1'', ob_AggregateVersion = 6, ob_Type = outboxRoomFilled,
       ob_Payload = RoomFilledPayload ''r1'' 7000 60000007000, ob_OccurredAt = 7000\<rparr>]"

definition collectingDb :: Database where
  "collectingDb = sampleDb0\<lparr>
     db_tickets := map (\<lambda>(i, _). leaveQueue (markAssigned 7000) 2 (newTicketRow (playerTicket i) (replicate 64 CHR ''a''))) samplePlayers,
     db_rooms := [sampleRoomRow\<lparr>rmr_status := RoomCollecting, rmr_aggregate_version := 6, rmr_filled_at := Some 7000, rmr_result_deadline := Some 60000007000\<rparr>],
     db_memberships := map (\<lambda>(i, n). \<lparr>mb_room_id = ''r1'', mb_room_capacity = 5, mb_ticket_id = ''tk'' @ i, mb_player_id = ''p'' @ i, mb_seat = n,
       mb_assigned_at = 7000, mb_assignment_id = ''a'' @ i, mb_request_digest = replicate 64 CHR ''a'', mb_ticket_version = 2, mb_room_version = n + 1,
       mb_room_filled = (n = 5), mb_result_deadline = (if n = 5 then Some 60000007000 else None)\<rparr>) samplePlayers,
     db_sessions := map (\<lambda>(i, n). \<lparr>sn_session_id = ''s'' @ i, sn_ticket_id = ''tk'' @ i, sn_room_id = ''r1'', sn_player_id = ''p'' @ i, sn_seat = n,
       sn_status = SessionAllocated, sn_allocated_at = 7000, sn_started_at = None, sn_submitted_at = None, sn_forfeited_at = None\<rparr>) samplePlayers,
     db_outbox := map outboxRow (playerEvents samplePlayers),
     db_shadow_work := [\<lparr>sw_work_kind = ''room'', sw_source_id = ''r1'', sw_timeline_position = 7000, sw_ordering_priority = 0, sw_next_attempt_at = 7000,
       sw_claim_token = None, sw_claimed_until = None, sw_attempt_count = 0, sw_processed_at = None, sw_skip_reason = None\<rparr>]\<rparr>"

lemma seatedDb_eval: "seatedDb = collectingDb"
  by code_simp

definition sampleResult :: FinalizeResultCommand where
  "sampleResult = \<lparr>frc_EventID = ''res'', frc_RoomID = ''r1'', frc_ModeID = ''solo'', frc_DeckID = ''d1'', frc_ScoringRulesVersion = ''s1'',
     frc_FinishedAt = 8000, frc_AvailableAt = 9000, frc_AcceptedAt = 10000,
     frc_Participants = map (\<lambda>(i, n). \<lparr>vp_SessionID = ''s'' @ i, vp_PlayerID = ''p'' @ i, vp_Place = n, vp_Features =
       \<lparr>feat_Score = None, feat_ElapsedMillis = None, feat_Completed = None, feat_Moves = None, feat_UndoMoves = None, feat_RevealedCards = None\<rparr>\<rparr>) samplePlayers\<rparr>"

definition sampleFinal :: "FinalizedResult result \<times> Database" where
  "sampleFinal = FinalizeResult strCompare sampleDigest id noFaults collectingDb sampleResult"

definition claimedDb :: Database where
  "claimedDb = snd (ClaimNextRatingResult strCompare noFaults (snd sampleFinal) \<lparr>rcr_Token = ''w'', rcr_ClaimedAt = 11000, rcr_LeaseUntil = 20000\<rparr>)"

lemma collectingDb_reachable: "reachableStore strCompare collectingDb"
proof -
  have accept: "reachableStore strCompare (acceptPlayer i db)" if "reachableStore strCompare db" for i db
    using reachable_steps [OF that] accepts [OF prod.collapse [symmetric]] by (simp add: acceptPlayer_def)
  have assign: "reachableStore strCompare (assignPlayer x db)" if "reachableStore strCompare db" for x db
    using reachable_steps [OF that] assigns [OF prod.collapse [symmetric]] by (simp add: assignPlayer_def case_prod_beta)
  show ?thesis unfolding seatedDb_eval [symmetric] seatedDb_def samplePlayers_def using sampleDb0_reachable by (simp add: accept assign)
qed

lemma sampleFinal_step: "storeStep strCompare collectingDb (snd sampleFinal)"
  unfolding sampleFinal_def by (rule finalizes [OF prod.collapse [symmetric]])

lemma claimedDb_step: "storeStep strCompare (snd sampleFinal) claimedDb"
  unfolding claimedDb_def by (rule claimsResult [OF prod.collapse [symmetric]])

lemma claimedDb_reachable: "reachableStore strCompare claimedDb"
  using reachable_steps [OF reachable_steps [OF collectingDb_reachable sampleFinal_step] claimedDb_step] .

lemma sampleFinal_eval: "case fst sampleFinal of Inr m \<Rightarrow> mr_EventID (fr_Result m) = ''res'' \<and> mr_RoomID (fr_Result m) = ''r1'' \<and> fr_RoomVersion m = 7 | Inl _ \<Rightarrow> False"
  by code_simp

lemma claimedDb_eval:
  "map (\<lambda>r. (rmr_room_id r, rmr_status r)) (db_rooms claimedDb) = [(''r1'', RoomCompleted)] \<and>
   map (\<lambda>v. (vr_event_id v, vr_claim_token v, vr_processed_at v)) (db_results claimedDb) = [(''res'', Some ''w'', None)]"
  by code_simp

theorem results_settle_rooms_witness:
  "\<exists>v \<in> set (db_results claimedDb). vr_room_id v = ''r1'' \<and>
     pt_session_id ` set (eventParticipants claimedDb (vr_event_id v)) = sn_session_id ` set (roomSessions claimedDb ''r1'')"
proof -
  obtain r where "r \<in> set (db_rooms claimedDb)" "rmr_room_id r = ''r1''" "rmr_status r = RoomCompleted"
    using claimedDb_eval by (cases "db_rooms claimedDb") auto
  note settled = results_settle_rooms [OF claimedDb_reachable this(1), unfolded this(2)]
  obtain v where v: "v \<in> set (db_results claimedDb)" "vr_room_id v = ''r1''" using conjunct1 [OF settled] \<open>rmr_status r = RoomCompleted\<close> by blast
  then show ?thesis using bspec [OF conjunct1 [OF conjunct2 [OF settled]] v(1)] by blast
qed

theorem ratings_follow_results_witness:
  "map vr_event_id (db_results claimedDb) = [''res''] \<and> filter (\<lambda>u. rur_source_event_id u = ''res'') (db_rating_updates claimedDb) = []"
proof -
  obtain v where v: "v \<in> set (db_results claimedDb)" "vr_event_id v = ''res''" "vr_processed_at v = None"
    using claimedDb_eval by (cases "db_results claimedDb") auto
  have "rur_player_id ` set (filter (\<lambda>u. rur_source_event_id u = vr_event_id v) (db_rating_updates claimedDb)) = {}"
    using bspec [OF conjunct1 [OF conjunct2 [OF ratings_follow_results [OF claimedDb_reachable]]] v(1)] v(3) unfolding Let_def by presburger
  then have "filter (\<lambda>u. rur_source_event_id u = ''res'') (db_rating_updates claimedDb) = []" using v(2) by (simp only: image_is_empty set_empty)
  moreover have "map vr_event_id (db_results claimedDb) = [''res'']" using claimedDb_eval by (cases "db_results claimedDb") auto
  ultimately show ?thesis by blast
qed

theorem finalize_replays_witness:
  "\<exists>m. FinalizeResult strCompare sampleDigest id noFaults claimedDb sampleResult = (Inr m, claimedDb) \<and> fr_Replay m \<and> fr_RoomVersion m = 7"
proof -
  obtain m where m: "fst sampleFinal = Inr m" "mr_EventID (fr_Result m) = frc_EventID sampleResult" "fr_RoomVersion m = 7"
    using sampleFinal_eval by (cases "fst sampleFinal") (auto simp: sampleResult_def)
  then have "FinalizeResult strCompare sampleDigest id noFaults collectingDb sampleResult = (Inr m, snd sampleFinal)"
    by (metis prod.collapse sampleFinal_def)
  then show ?thesis
    using finalize_replays [OF collectingDb_reachable _ m(2) r_into_rtranclp [of "storeStep strCompare", OF claimedDb_step] refl refl, of sampleDigest id noFaults] m(3) by auto
qed

end
