(* ===== verification/Match_Worker.thy ===== *)
theory Match_Worker
  imports Matchmaking_Queue Rating_Queue Outbox_Queue
begin

text \<open>
  \<^verbatim>\<open>internal/worker\<close>: the processor of claimed tickets (processor.go) and the runners of the matchmaking, rating and
  result-deadline workers (runner.go, rating.go, result_deadlines.go). The repositories are records of operations on a store of
  any type. Several calls of one processor are separate transactions, so other transactions may run between them:
  \<open>meanwhile\<close> is what they make of the store. \<open>hash\<close> is the hexadecimal text of the first sixteen bytes of a SHA-256 sum,
  \<open>Exp\<close> is \<^verbatim>\<open>math.Exp\<close>. Timeouts of contexts show as failures of the repositories.
\<close>

section \<open>Processing one claim\<close>

record 's QueueRepository =
  qr_ClaimMatchmakingTickets :: "'s \<Rightarrow> ClaimRequest \<Rightarrow> TicketClaim list result \<times> 's"
  qr_ScheduleTicketRetry :: "'s \<Rightarrow> string \<Rightarrow> string \<Rightarrow> time \<Rightarrow> error \<times> 's"

type_synonym 's AttemptRepository = "'s \<Rightarrow> TicketClaim \<Rightarrow> time \<Rightarrow> MatchAttempt result"

record 's TicketLifecycle =
  tl_Assign :: "('s, AssignTicketCommand, Assignment) storeOp"
  tl_Expire :: "('s, ExpireTicketCommand, TicketMutation) storeOp"

record MatchObservation =
  mo_Outcome :: AttemptOutcome
  mo_ModeID :: string
  mo_Capacity :: int
  mo_PolicyVersion :: string
  mo_RatingModelVersion :: string
  mo_AssignmentLatency :: duration
  mo_RoomFilled :: bool
  mo_RoomFillDuration :: duration
  mo_FillTimeout :: duration
  mo_SkillGap :: f64
  mo_MaximumSkillGap :: f64
  mo_WinProbabilitySpread :: "f64 option"
  mo_MaximumProbabilitySpread :: f64

text \<open>\<^verbatim>\<open>MatchObservation{Outcome: outcome}\<close>.\<close>

definition outcomeObservation :: "AttemptOutcome \<Rightarrow> MatchObservation" where
  "outcomeObservation outcome =
     \<lparr>mo_Outcome = outcome, mo_ModeID = '''', mo_Capacity = 0, mo_PolicyVersion = '''', mo_RatingModelVersion = '''', mo_AssignmentLatency = 0,
      mo_RoomFilled = False, mo_RoomFillDuration = 0, mo_FillTimeout = 0, mo_SkillGap = 0, mo_MaximumSkillGap = 0,
      mo_WinProbabilitySpread = None, mo_MaximumProbabilitySpread = 0\<rparr>"

text \<open>What the observer is told is part of an operation's answer; \<open>None\<close> is the observer that ignores it.\<close>

record ('s, 'o) MatchProcessor =
  mp_attempts :: "'s AttemptRepository"
  mp_queue :: "'s QueueRepository"
  mp_tickets :: "'s TicketLifecycle"
  mp_observer :: "'o option"
  mp_staleRetryDelay :: duration

definition NewMatchProcessor ::
    "'s AttemptRepository option \<Rightarrow> 's QueueRepository option \<Rightarrow> 's TicketLifecycle option \<Rightarrow> duration \<Rightarrow> 'o option list \<Rightarrow> ('s, 'o) MatchProcessor result" where
  "NewMatchProcessor attempts queue tickets staleRetryDelay observers =
     (case (attempts, queue, tickets) of
        (Some a, Some q, Some t) \<Rightarrow>
          if staleRetryDelay \<le> 0 \<or> second < staleRetryDelay then Inl (ErrorsNew ''stale room retry delay must be positive and at most one second'')
          else if 1 < length observers then Inl (ErrorsNew ''match processor accepts at most one observer'')
          else Inr \<lparr>mp_attempts = a, mp_queue = q, mp_tickets = t, mp_observer = (case observers of [ob] \<Rightarrow> ob | _ \<Rightarrow> None),
                    mp_staleRetryDelay = staleRetryDelay\<rparr>
      | _ \<Rightarrow> Inl (ErrorsNew ''match processor repositories are required''))"

definition workIdentity :: "(string \<Rightarrow> string) \<Rightarrow> string \<Rightarrow> TicketClaim \<Rightarrow> string" where
  "workIdentity hash kind claim = kind @ ''-'' @ hash (kind @ [CHR 0x00] @ tk_ID (tc_Ticket claim) @ [CHR 0x00] @ formatInt (tc_Attempt claim))"

definition newMatchObservation :: "MatchAttempt \<Rightarrow> RoomSelection \<Rightarrow> TicketClaim \<Rightarrow> time \<Rightarrow> MatchObservation" where
  "newMatchObservation attempt selection claim evaluatedAt =
     (let observation =
        \<lparr>mo_Outcome = AttemptOutcomeMatched, mo_ModeID = '''', mo_Capacity = sel_Capacity selection, mo_PolicyVersion = pol_Version (ma_Policy attempt),
         mo_RatingModelVersion = pol_RatingModelVersion (ma_Policy attempt),
         mo_AssignmentLatency = time_Sub evaluatedAt (tk_RequestedAt (tc_Ticket claim)),
         mo_RoomFilled = (sel_MembersBefore selection + 1 = sel_Capacity selection), mo_RoomFillDuration = 0,
         mo_FillTimeout = pol_FillTimeout (ma_Policy attempt), mo_SkillGap = dec_SkillGap (sel_Decision selection),
         mo_MaximumSkillGap = pol_MaxSkillGap (ma_Policy attempt), mo_WinProbabilitySpread = dec_WinProbabilitySpread (sel_Decision selection),
         mo_MaximumProbabilitySpread = pol_MaxWinProbabilitySpread (ma_Policy attempt)\<rparr>
      in case List.find (\<lambda>room. rv_RoomID room = sel_RoomID selection) (ma_Rooms attempt) of
           None \<Rightarrow> observation
         | Some room \<Rightarrow> observation\<lparr>mo_ModeID := rv_ModeID room, mo_RoomFillDuration := time_Sub evaluatedAt (rv_CreatedAt room)\<rparr>)"

definition assignmentCommand :: "(string \<Rightarrow> string) \<Rightarrow> TicketClaim \<Rightarrow> RoomSelection \<Rightarrow> time \<Rightarrow> AssignTicketCommand" where
  "assignmentCommand hash claim selection assignedAt =
     (let identity = workIdentity hash ''assignment'' claim in
      \<lparr>gtc_AssignmentID = identity, gtc_TicketID = tk_ID (tc_Ticket claim), gtc_RoomID = sel_RoomID selection,
       gtc_ExpectedRoomVersion = sel_RoomVersion selection, gtc_SessionID = identity @ ''-session'', gtc_TicketEventID = identity @ ''-ticket-event'',
       gtc_RoomFilledEventID = identity @ ''-room-event'', gtc_AssignedAt = assignedAt, gtc_ClaimToken = tc_Token claim\<rparr>)"

definition assignSelected ::
    "(string \<Rightarrow> string) \<Rightarrow> ('s \<Rightarrow> 's) \<Rightarrow> ('s, 'o) MatchProcessor \<Rightarrow> TicketClaim \<Rightarrow> RoomSelection \<Rightarrow> time \<Rightarrow> 's \<Rightarrow> (bool \<times> error \<times> MatchObservation list) \<times> 's" where
  "assignSelected hash meanwhile processor claim selection assignedAt store =
     (case tl_Assign (mp_tickets processor) store (assignmentCommand hash claim selection assignedAt) of
        (Inr _, store) \<Rightarrow> ((True, None, []), store)
      | (Inl err, store) \<Rightarrow>
          if errors_Is err ErrRoomNotAvailable
          then (case qr_ScheduleTicketRetry (mp_queue processor) (meanwhile store) (tk_ID (tc_Ticket claim)) (tc_Token claim)
                       (time_Add assignedAt (mp_staleRetryDelay processor)) of
                  (Some retryErr, store) \<Rightarrow> ((False, Some retryErr, []), store)
                | (None, store) \<Rightarrow> ((False, None, [outcomeObservation AttemptOutcomeRetryScheduled]), store))
          else if errors_Is err ErrTicketClaimLost then ((False, None, []), store)
          else ((False, Some err, []), store))"

definition expireClaim ::
    "(string \<Rightarrow> string) \<Rightarrow> ('s, 'o) MatchProcessor \<Rightarrow> TicketClaim \<Rightarrow> time \<Rightarrow> time \<Rightarrow> 's \<Rightarrow> (error \<times> MatchObservation list) \<times> 's" where
  "expireClaim hash processor claim deadline evaluatedAt store =
     (let identity = workIdentity hash ''expiry'' claim in
      case tl_Expire (mp_tickets processor) store
        \<lparr>etc_TicketID = tk_ID (tc_Ticket claim), etc_CommandID = identity @ ''-command'', etc_EventID = identity @ ''-event'',
         etc_ClaimToken = tc_Token claim, etc_Deadline = deadline, etc_ExpiredAt = evaluatedAt\<rparr> of
        (Inr _, store) \<Rightarrow> ((None, [outcomeObservation AttemptOutcomeTimedOut]), store)
      | (Inl err, store) \<Rightarrow> if errors_Is err ErrTicketClaimLost then ((None, []), store) else ((Some err, []), store))"

text \<open>The decision of one attempt, before anything is written.\<close>

definition decideClaim :: "(f64 \<Rightarrow> f64) \<Rightarrow> 's AttemptRepository \<Rightarrow> TicketClaim \<Rightarrow> time \<Rightarrow> 's \<Rightarrow> (MatchAttempt \<times> MatchAttemptResult) result" where
  "decideClaim Exp attempts claim evaluatedAt store =
     guardE (TicketClaim_Validate claim)
     (if IsZero evaluatedAt \<or> \<not> Before evaluatedAt (tc_LeaseUntil claim) then Inl (ErrorsNew ''match processing time must be inside the claim lease'')
      else rbind (wrapR ''load match attempt: %w'' [] (attempts store claim evaluatedAt)) (\<lambda>attempt.
      rbind (wrapR ''build rating predictor: %w'' [] (NewBaseline (DefaultBaselineConfig (pol_RatingModelVersion (ma_Policy attempt))))) (\<lambda>model.
      rbind (wrapR ''build matcher: %w'' [] (NewEvaluator (Some (Baseline_Predict Exp model)))) (\<lambda>evaluator.
      rbind (wrapR ''evaluate match attempt: %w'' [] (AttemptMatch evaluator attempt)) (\<lambda>result. Inr (attempt, result))))))"

definition Handle ::
    "(f64 \<Rightarrow> f64) \<Rightarrow> (string \<Rightarrow> string) \<Rightarrow> ('s \<Rightarrow> 's) \<Rightarrow> ('s, 'o) MatchProcessor \<Rightarrow> TicketClaim \<Rightarrow> time \<Rightarrow> 's \<Rightarrow> (error \<times> MatchObservation list) \<times> 's" where
  "Handle Exp hash meanwhile processor claim evaluatedAt store =
     (case decideClaim Exp (mp_attempts processor) claim evaluatedAt store of
        Inl err \<Rightarrow> ((Some err, []), store)
      | Inr (attempt, result) \<Rightarrow>
          (case mar_Outcome result of
             AttemptOutcomeMatched \<Rightarrow>
               (let selection = the (mar_Selection result) in
                case assignSelected hash meanwhile processor claim selection evaluatedAt (meanwhile store) of
                  ((assigned, err, seen), store) \<Rightarrow>
                    ((err, if err = None \<and> assigned then seen @ [newMatchObservation attempt selection claim evaluatedAt] else seen), store))
           | AttemptOutcomeRetryScheduled \<Rightarrow>
               (case qr_ScheduleTicketRetry (mp_queue processor) (meanwhile store) (tk_ID (tc_Ticket claim)) (tc_Token claim) (the (mar_RetryAt result)) of
                  (Some err, store) \<Rightarrow> ((Some err, []), store)
                | (None, store) \<Rightarrow> ((None, [outcomeObservation AttemptOutcomeRetryScheduled]), store))
           | AttemptOutcomeTimedOut \<Rightarrow> expireClaim hash processor claim (mar_Deadline result) evaluatedAt (meanwhile store)))"

section \<open>The matchmaking runner\<close>

record RunnerOptions =
  ro_BatchSize :: int
  ro_Concurrency :: int
  ro_LeaseDuration :: duration
  ro_PollInterval :: duration
  ro_FailureBackoff :: duration

definition RunnerOptions_Validate :: "RunnerOptions \<Rightarrow> error" where
  "RunnerOptions_Validate options =
     (if ro_BatchSize options \<le> 0 \<or> MaxBatchSize < ro_BatchSize options
      then Some (ErrorsNew ''worker batch size is outside the supported range'')
      else if ro_Concurrency options \<le> 0 \<or> ro_BatchSize options < ro_Concurrency options
      then Some (ErrorsNew ''worker concurrency must fit inside the batch'')
      else if ro_LeaseDuration options \<le> 0 \<or> 5 * minute < ro_LeaseDuration options
      then Some (ErrorsNew ''worker lease duration must be positive and at most five minutes'')
      else if ro_PollInterval options \<le> 0 \<or> minute < ro_PollInterval options \<or> ro_FailureBackoff options \<le> 0 \<or> minute < ro_FailureBackoff options
      then Some (ErrorsNew ''worker polling and failure backoff must be positive'')
      else None)"

record RunResult =
  rnr_Claimed :: int
  rnr_Failed :: int

text \<open>A handler answers with an error and the store it leaves behind.\<close>

type_synonym 's Handler = "TicketClaim \<Rightarrow> time \<Rightarrow> 's \<Rightarrow> error \<times> 's"

definition NewRunner ::
    "'s QueueRepository option \<Rightarrow> 's Handler option \<Rightarrow> 'logger option \<Rightarrow> RunnerOptions \<Rightarrow> ('s QueueRepository \<times> 's Handler \<times> RunnerOptions) result" where
  "NewRunner queue handler logger options =
     (case (queue, handler, logger) of
        (Some q, Some h, Some l) \<Rightarrow> guardE (RunnerOptions_Validate options) (Inr (q, h, options))
      | _ \<Rightarrow> Inl (ErrorsNew ''worker queue, handler and logger are required''))"

text \<open>
  One goroutine: it handles its claim and schedules a retry when that fails, at the time \<open>failedAt\<close> plus the backoff. It sends
  an error or nothing.
\<close>

definition handleClaim ::
    "'s QueueRepository \<Rightarrow> 's Handler \<Rightarrow> RunnerOptions \<Rightarrow> time \<Rightarrow> time \<Rightarrow> TicketClaim \<Rightarrow> 's \<Rightarrow> error \<times> 's" where
  "handleClaim queue handler options now failedAt claim store =
     (case handler claim now store of
        (None, store) \<Rightarrow> (None, store)
      | (Some err, store) \<Rightarrow>
          (case qr_ScheduleTicketRetry queue store (tk_ID (tc_Ticket claim)) (tc_Token claim) (time_Add failedAt (ro_FailureBackoff options)) of
             (retryErr, store) \<Rightarrow>
               (let err = (case retryErr of None \<Rightarrow> err
                   | Some e \<Rightarrow> if errors_Is e ErrTicketClaimLost then err else ErrorsJoin err (Errorf ''schedule failed claim: %w'' [] (Some e)))
                in (Some (Errorf ''ticket %q: %w'' [ArgS (tk_ID (tc_Ticket claim))] (Some err)), store))))"

fun handleAll ::
    "'s QueueRepository \<Rightarrow> 's Handler \<Rightarrow> RunnerOptions \<Rightarrow> time \<Rightarrow> (TicketClaim \<Rightarrow> time) \<Rightarrow> TicketClaim list \<Rightarrow> 's \<Rightarrow> goerr list \<times> 's" where
  "handleAll queue handler options now failedAt [] store = ([], store)"
| "handleAll queue handler options now failedAt (claim # claims) store =
     (case handleClaim queue handler options now (failedAt claim) claim store of (err, store) \<Rightarrow>
      case handleAll queue handler options now failedAt claims store of (errs, store) \<Rightarrow> ((case err of None \<Rightarrow> errs | Some e \<Rightarrow> e # errs), store))"

definition countFailure :: "goerr \<Rightarrow> RunResult \<times> error \<Rightarrow> RunResult \<times> error" where
  "countFailure claimErr = (\<lambda>(result, combined).
     (result\<lparr>rnr_Failed := rnr_Failed result + 1\<rparr>, Some (case combined of None \<Rightarrow> claimErr | Some e \<Rightarrow> ErrorsJoin e claimErr)))"

text \<open>
  The environment of one cycle: the token and the clock readings, the number of claims started before the context was cancelled
  with the cause, and the order in which the concurrent goroutines take effect.
\<close>

record runEnv =
  re_token :: string
  re_now :: time
  re_cancelled :: "(nat \<times> goerr) option"
  re_order :: "TicketClaim list \<Rightarrow> TicketClaim list"
  re_failedAt :: "TicketClaim \<Rightarrow> time"

definition Runner_RunOnce :: "'s QueueRepository \<Rightarrow> 's Handler \<Rightarrow> RunnerOptions \<Rightarrow> runEnv \<Rightarrow> 's \<Rightarrow> (RunResult \<times> error) \<times> 's" where
  "Runner_RunOnce queue handler options env store =
     (case qr_ClaimMatchmakingTickets queue store
        \<lparr>clr_Token = re_token env, clr_Limit = ro_BatchSize options, clr_ClaimedAt = re_now env,
         clr_LeaseUntil = time_Add (re_now env) (ro_LeaseDuration options)\<rparr> of
        (Inl err, store) \<Rightarrow> ((\<lparr>rnr_Claimed = 0, rnr_Failed = 0\<rparr>, Some (Errorf ''claim matchmaking tickets: %w'' [] (Some err))), store)
      | (Inr claims, store) \<Rightarrow>
          let result = \<lparr>rnr_Claimed = int (length claims), rnr_Failed = 0\<rparr> in
          if claims = [] then ((result, None), store)
          else let (started, cause) = (case re_cancelled env of
                     None \<Rightarrow> (claims, []) | Some (n, e) \<Rightarrow> if n < length claims then (take n claims, [e]) else (claims, [])) in
               (case handleAll queue handler options (re_now env) (re_failedAt env) (re_order env started) store of
                  (errs, store) \<Rightarrow> (fold countFailure (cause @ errs) (result, None), store)))"

definition WorkerMatchmaking :: string where "WorkerMatchmaking = ''matchmaking''"
definition WorkerResultDeadline :: string where "WorkerResultDeadline = ''result_deadline''"
definition WorkerRating :: string where "WorkerRating = ''rating''"

definition matchmakingObservation :: "RunResult \<times> error \<Rightarrow> WorkerCycleObservation" where
  "matchmakingObservation = (\<lambda>(result, runErr).
     \<lparr>wco_Worker = WorkerMatchmaking, wco_Claimed = rnr_Claimed result, wco_Succeeded = rnr_Claimed result - rnr_Failed result,
      wco_DeadLettered = 0, wco_Failed = rnr_Failed result, wco_Errored = (runErr \<noteq> None)\<rparr>)"

section \<open>The rating runner\<close>

record RatingRunnerOptions =
  rro_LeaseDuration :: duration
  rro_PollInterval :: duration
  rro_FailureBackoff :: duration

definition RatingRunnerOptions_Validate :: "RatingRunnerOptions \<Rightarrow> error" where
  "RatingRunnerOptions_Validate options =
     (if rro_LeaseDuration options \<le> 0 \<or> 5 * minute < rro_LeaseDuration options
      then Some (ErrorsNew ''rating worker lease must be positive and at most five minutes'')
      else if rro_PollInterval options \<le> 0 \<or> minute < rro_PollInterval options \<or> rro_FailureBackoff options \<le> 0 \<or> minute < rro_FailureBackoff options
      then Some (ErrorsNew ''rating worker polling and failure backoff must be positive and at most one minute'')
      else None)"

record RatingRunResult =
  rrr_Claimed :: int
  rrr_Updated :: int
  rrr_Failed :: int

definition NewRatingRunner :: "'s RatingQueue option \<Rightarrow> 'logger option \<Rightarrow> RatingRunnerOptions \<Rightarrow> ('s RatingQueue \<times> RatingRunnerOptions) result" where
  "NewRatingRunner queue logger options =
     (case (queue, logger) of
        (Some q, Some l) \<Rightarrow> guardE (RatingRunnerOptions_Validate options) (Inr (q, options))
      | _ \<Rightarrow> Inl (ErrorsNew ''rating worker queue and logger are required''))"

definition Rating_RunOnce ::
    "'s RatingQueue \<Rightarrow> RatingRunnerOptions \<Rightarrow> ('s \<Rightarrow> 's) \<Rightarrow> string \<Rightarrow> time \<Rightarrow> time \<Rightarrow> 's \<Rightarrow> (RatingRunResult \<times> error) \<times> 's" where
  "Rating_RunOnce queue options meanwhile token now failedAt store =
     (case rq_ClaimNextRatingResult queue store
        \<lparr>rcr_Token = token, rcr_ClaimedAt = now, rcr_LeaseUntil = time_Add now (rro_LeaseDuration options)\<rparr> of
        (Inl err, store) \<Rightarrow>
          ((\<lparr>rrr_Claimed = 0, rrr_Updated = 0, rrr_Failed = 0\<rparr>, Some (Errorf ''claim next rating result: %w'' [] (Some err))), store)
      | (Inr None, store) \<Rightarrow> ((\<lparr>rrr_Claimed = 0, rrr_Updated = 0, rrr_Failed = 0\<rparr>, None), store)
      | (Inr (Some claim), store) \<Rightarrow>
          (case rq_ProcessRatingResult queue (meanwhile store) claim now of
             (Inr updated, store) \<Rightarrow> ((\<lparr>rrr_Claimed = 1, rrr_Updated = updated, rrr_Failed = 0\<rparr>, None), store)
           | (Inl err, store) \<Rightarrow>
               (case rq_ScheduleRatingRetry queue (meanwhile store) (rcl_EventID claim) (rcl_Token claim) (time_Add failedAt (rro_FailureBackoff options)) of
                  (retryErr, store) \<Rightarrow>
                    (let err = (case retryErr of None \<Rightarrow> err
                        | Some e \<Rightarrow> if errors_Is e ErrRatingClaimLost then err
                                    else ErrorsJoin err (Errorf ''schedule failed rating result: %w'' [] (Some e)))
                     in ((\<lparr>rrr_Claimed = 1, rrr_Updated = 0, rrr_Failed = 1\<rparr>, Some (Errorf ''result %q: %w'' [ArgS (rcl_EventID claim)] (Some err))), store)))))"

definition ratingObservation :: "RatingRunResult \<times> error \<Rightarrow> WorkerCycleObservation" where
  "ratingObservation = (\<lambda>(result, runErr).
     \<lparr>wco_Worker = WorkerRating, wco_Claimed = rrr_Claimed result, wco_Succeeded = rrr_Claimed result - rrr_Failed result,
      wco_DeadLettered = 0, wco_Failed = rrr_Failed result, wco_Errored = (runErr \<noteq> None)\<rparr>)"

section \<open>The result-deadline runner\<close>

record ResultDeadlineOptions =
  rdo_BatchSize :: int
  rdo_PollInterval :: duration

definition ResultDeadlineOptions_Validate :: "ResultDeadlineOptions \<Rightarrow> error" where
  "ResultDeadlineOptions_Validate options =
     (if rdo_BatchSize options \<le> 0 \<or> MaxResultDeadlineBatchSize < rdo_BatchSize options
      then Some (ErrorsNew ''result deadline batch size is outside the supported range'')
      else if rdo_PollInterval options \<le> 0 \<or> minute < rdo_PollInterval options
      then Some (ErrorsNew ''result deadline poll interval must be positive and at most one minute'')
      else None)"

definition NewResultDeadlineRunner ::
    "('s, ResultDeadlineBatch, ExpiredRoom list) storeOp option \<Rightarrow> 'logger option \<Rightarrow> ResultDeadlineOptions
       \<Rightarrow> (('s, ResultDeadlineBatch, ExpiredRoom list) storeOp \<times> ResultDeadlineOptions) result" where
  "NewResultDeadlineRunner service logger options =
     (case (service, logger) of
        (Some s, Some l) \<Rightarrow> guardE (ResultDeadlineOptions_Validate options) (Inr (s, options))
      | _ \<Rightarrow> Inl (ErrorsNew ''result deadline service and logger are required''))"

definition ResultDeadline_RunOnce ::
    "('s, ResultDeadlineBatch, ExpiredRoom list) storeOp \<Rightarrow> ResultDeadlineOptions \<Rightarrow> time \<Rightarrow> 's \<Rightarrow> (int \<times> error) \<times> 's" where
  "ResultDeadline_RunOnce expireDue options now store =
     (case expireDue store \<lparr>rdb_Limit = rdo_BatchSize options, rdb_ExpiredAt = now\<rparr> of
        (Inl err, store) \<Rightarrow> ((0, Some (Errorf ''expire overdue result rooms: %w'' [] (Some err))), store)
      | (Inr expired, store) \<Rightarrow> ((int (length expired), None), store))"

definition deadlineObservation :: "int \<times> error \<Rightarrow> WorkerCycleObservation" where
  "deadlineObservation = (\<lambda>(expiredCount, runErr).
     \<lparr>wco_Worker = WorkerResultDeadline, wco_Claimed = expiredCount, wco_Succeeded = expiredCount, wco_DeadLettered = 0,
      wco_Failed = (if runErr \<noteq> None then 1 else 0), wco_Errored = (runErr \<noteq> None)\<rparr>)"

section \<open>Accounting\<close>

lemma fold_countFailure:
  "rnr_Claimed (fst (fold countFailure errs (result, combined))) = rnr_Claimed result \<and>
   rnr_Failed (fst (fold countFailure errs (result, combined))) = rnr_Failed result + int (length errs) \<and>
   (snd (fold countFailure errs (result, combined)) = None \<longleftrightarrow> combined = None \<and> errs = [])"
  by (induction errs arbitrary: result combined) (auto simp: countFailure_def)

lemma handleAll_length: "length (fst (handleAll queue handler options now failedAt claims store)) \<le> length claims"
proof (induction claims arbitrary: store)
  case (Cons claim claims)
  obtain e s where h: "handleClaim queue handler options now (failedAt claim) claim store = (e, s)" by (cases "handleClaim queue handler options now (failedAt claim) claim store")
  obtain es s' where all: "handleAll queue handler options now failedAt claims s = (es, s')" by (cases "handleAll queue handler options now failedAt claims s")
  have "length es \<le> length claims" using Cons.IH [of s] all by simp
  then show ?case using h all by (simp split: option.splits)
qed simp

text \<open>
  A cycle that claims tickets and is cancelled before it starts to handle them reports all but one of them as succeeded to the
  observer: the store is as the claim left it, no handler ran.
\<close>

theorem cancelled_cycle_reports_success:
  assumes "qr_ClaimMatchmakingTickets queue store
      \<lparr>clr_Token = re_token env, clr_Limit = ro_BatchSize options, clr_ClaimedAt = re_now env, clr_LeaseUntil = time_Add (re_now env) (ro_LeaseDuration options)\<rparr> = (Inr claims, store1)"
    and "claims \<noteq> []" "re_cancelled env = Some (0, cause)" "re_order env [] = []"
  shows "wco_Succeeded (matchmakingObservation (fst (Runner_RunOnce queue handler options env store))) = int (length claims) - 1"
    and "snd (Runner_RunOnce queue handler options env store) = store1"
  using assms by (auto simp: Runner_RunOnce_def matchmakingObservation_def countFailure_def Let_def)

text \<open>Otherwise the counters add up: failures never exceed the claims, and a cycle errs exactly when it counts a failure.\<close>

lemma Runner_RunOnce_bounds:
  assumes "\<And>cs. length (re_order env cs) = length cs"
    and "Runner_RunOnce queue handler options env store = ((result, err), store')"
  shows "0 \<le> rnr_Failed result \<and> rnr_Failed result \<le> rnr_Claimed result"
proof -
  let ?r = "\<lparr>clr_Token = re_token env, clr_Limit = ro_BatchSize options, clr_ClaimedAt = re_now env, clr_LeaseUntil = time_Add (re_now env) (ro_LeaseDuration options)\<rparr>"
  obtain res store1 where q: "qr_ClaimMatchmakingTickets queue store ?r = (res, store1)" by (cases "qr_ClaimMatchmakingTickets queue store ?r")
  show ?thesis
  proof (cases "\<exists>claims. res = Inr claims \<and> claims \<noteq> []")
    case False
    then show ?thesis using assms(2) q by (cases res) (auto simp: Runner_RunOnce_def Let_def)
  next
    case True
    then obtain claims where claims: "res = Inr claims" "claims \<noteq> []" by blast
    let ?sc = "case re_cancelled env of None \<Rightarrow> (claims, []) | Some (n, e) \<Rightarrow> if n < length claims then (take n claims, [e]) else (claims, [])"
    obtain started cause where sc: "?sc = (started, cause)" by (cases ?sc)
    then have cut: "length started + length cause \<le> length claims" by (auto split: option.splits if_splits)
    obtain errs s where all: "handleAll queue handler options (re_now env) (re_failedAt env) (re_order env started) store1 = (errs, s)"
      by (cases "handleAll queue handler options (re_now env) (re_failedAt env) (re_order env started) store1")
    have res: "(result, err) = fold countFailure (cause @ errs) (\<lparr>rnr_Claimed = int (length claims), rnr_Failed = 0\<rparr>, None)"
      using assms(2) q claims all unfolding Runner_RunOnce_def by (simp add: sc Let_def)
    have "length errs \<le> length started" using handleAll_length [of queue handler options "re_now env" "re_failedAt env" "re_order env started" store1] all assms(1) by simp
    moreover have "result = fst (fold countFailure (cause @ errs) (\<lparr>rnr_Claimed = int (length claims), rnr_Failed = 0\<rparr>, None))" using res by (metis fst_conv)
    ultimately show ?thesis using cut fold_countFailure [of "cause @ errs" "\<lparr>rnr_Claimed = int (length claims), rnr_Failed = 0\<rparr>" None] by simp
  qed
qed

end
