(* ===== verification/Worker_Composition.thy ===== *)
theory Worker_Composition
  imports Result_Lifecycle Match_Worker
begin

text \<open>
  The workers running on the PostgreSQL stores: what a worker decides from an earlier view of the store is still true when it
  writes, and whole worker cycles are sequences of store operations.
\<close>

section \<open>Views of rooms\<close>

lemma attachMembers_Inr:
  "attachMembers ms rooms = Inr views \<Longrightarrow> views = map (\<lambda>room. room\<lparr>rv_Members := rv_Members room @
     map (\<lambda>(m, t). candidateFromTicket (tkr_ticket t)) (filter (\<lambda>(m, t). mb_room_id m = rv_RoomID room) ms)\<rparr>) rooms"
  by (induction ms rooms rule: attachMembers.induct) (auto split: if_splits)

definition memberIdentity :: "MembershipRow \<Rightarrow> string \<times> string" where
  "memberIdentity m = (mb_ticket_id m, mb_player_id m)"

definition candidateIdentity :: "Candidate \<Rightarrow> string \<times> string" where
  "candidateIdentity c = (cand_TicketID c, cand_PlayerID c)"

lemma filter_only:
  assumes "distinct (map key ts)" "t \<in> set ts" "key t = k"
  shows "filter (\<lambda>t. key t = k) ts = [t]"
  using assms
proof (induction ts)
  case (Cons x ts)
  show ?case
  proof (cases "x = t")
    case True
    then have "\<forall>y \<in> set ts. key y \<noteq> k" using Cons.prems(1,3) by (auto simp: image_iff)
    then show ?thesis using True Cons.prems(3) by (simp add: filter_empty_conv)
  next
    case False
    then have "t \<in> set ts" using Cons.prems(2) by simp
    then have "key x \<noteq> k" using Cons.prems(1,3) by (auto simp: image_iff)
    then show ?thesis using Cons.IH Cons.prems \<open>t \<in> set ts\<close> by simp
  qed
qed simp

text \<open>Joining the members of a room with their tickets loses nobody and repeats nobody.\<close>

lemma joined_members:
  assumes "distinct (map tkr_id ts)"
    and "\<forall>m \<in> set ms. \<exists>t \<in> set ts. tkr_id t = mb_ticket_id m \<and> tk_PlayerID (tkr_ticket t) = mb_player_id m"
  shows "map (\<lambda>(m, t). candidateIdentity (candidateFromTicket (tkr_ticket t))) (filter (\<lambda>(m, t). tkr_id t = mb_ticket_id m \<and> P m) (List.product ms ts)) =
    map memberIdentity (filter P ms)"
  using assms(2)
proof (induction ms)
  case (Cons m ms)
  obtain t where t: "t \<in> set ts" "tkr_id t = mb_ticket_id m" "tk_PlayerID (tkr_ticket t) = mb_player_id m" using Cons.prems by auto
  have "filter (\<lambda>x. tkr_id x = mb_ticket_id m) ts = [t]" by (rule filter_only [OF assms(1) t(1,2)])
  then have "map (\<lambda>(m, t). candidateIdentity (candidateFromTicket (tkr_ticket t))) (filter (\<lambda>(m, t). tkr_id t = mb_ticket_id m \<and> P m) (map (Pair m) ts)) =
      map memberIdentity (if P m then [m] else [])"
    using t(2,3) by (auto simp: filter_map comp_def candidateIdentity_def candidateFromTicket_def memberIdentity_def)
  then show ?case using Cons by (simp split: if_splits)
qed simp

lemma mset_map_filter_sort: "mset (map f (filter Q (sort_cmp c xs))) = mset (map f (filter Q xs))"
  by simp

lemma memberRows_room:
  assumes "seatsInv db" "ticketsInv db" "i \<in> set ids"
  shows "mset (map (\<lambda>(m, t). candidateIdentity (candidateFromTicket (tkr_ticket t))) (filter (\<lambda>(m, t). mb_room_id m = i) (memberRows collate db ids))) =
    mset (map memberIdentity (roomMembers db i))"
proof -
  have ex: "\<forall>m \<in> set (db_memberships db). \<exists>t \<in> set (db_tickets db). tkr_id t = mb_ticket_id m \<and> tk_PlayerID (tkr_ticket t) = mb_player_id m"
    using assms(1) unfolding seatsInv_def by blast
  have "distinct (map tkr_id (db_tickets db))" using assms(2) by (simp add: ticketsInv_def)
  note joined = joined_members [OF this ex, of "\<lambda>m. mb_room_id m = i"]
  have "filter (\<lambda>(m, t). mb_room_id m = i) (filter (\<lambda>(m, t). tkr_id t = mb_ticket_id m \<and> mb_room_id m \<in> set ids) (List.product (db_memberships db) (db_tickets db))) =
      filter (\<lambda>(m, t). tkr_id t = mb_ticket_id m \<and> mb_room_id m = i) (List.product (db_memberships db) (db_tickets db))"
    using assms(3) by (auto simp: filter_filter intro!: filter_cong)
  then show ?thesis using joined unfolding memberRows_def roomMembers_def mset_map_filter_sort by simp
qed

lemma LoadMatchAttempt_view:
  assumes "LoadMatchAttempt collate unmarshal flt db claim t = Inr attempt" "room \<in> set (ma_Rooms attempt)" "seatsInv db" "ticketsInv db"
  obtains r where "r \<in> set (db_rooms db)" "rmr_room_id r = rv_RoomID room" "rmr_aggregate_version r = rv_AggregateVersion room"
    "mset (map candidateIdentity (rv_Members room)) = mset (map memberIdentity (roomMembers db (rv_RoomID room)))"
proof -
  obtain mode capacity policy where load: "loadCompatibleRooms collate flt db (tc_Ticket claim) mode capacity policy t = Inr (ma_Rooms attempt)"
    using assms(1) by (auto simp: LoadMatchAttempt_def split: if_splits)
  define rows where "rows = take (nat (pol_RoomLimit policy)) (sort_cmp (compareRoomRows collate) (filter (compatibleRoom (tc_Ticket claim) mode capacity policy t) (db_rooms db)))"
  have sub: "set rows \<subseteq> set (db_rooms db)" unfolding rows_def by (auto dest: in_set_takeD)
  have views: "rows \<noteq> [] \<and> attachMembers (memberRows collate db (map rmr_room_id rows)) (map (roomViewOf mode capacity policy) rows) = Inr (ma_Rooms attempt)"
    using load assms(2) unfolding rows_def by (auto simp: loadCompatibleRooms_def stmt_def Let_def split: if_splits option.splits)
  then obtain r where r: "r \<in> set rows" "room = (roomViewOf mode capacity policy r)\<lparr>rv_Members :=
      map (\<lambda>(m, t). candidateFromTicket (tkr_ticket t)) (filter (\<lambda>(m, t). mb_room_id m = rmr_room_id r) (memberRows collate db (map rmr_room_id rows)))\<rparr>"
    using attachMembers_Inr assms(2) by (force simp: roomViewOf_def)
  have "map candidateIdentity (rv_Members room) = map (\<lambda>(m, t). candidateIdentity (candidateFromTicket (tkr_ticket t)))
      (filter (\<lambda>(m, t). mb_room_id m = rmr_room_id r) (memberRows collate db (map rmr_room_id rows)))"
    unfolding r(2) by (simp add: case_prod_beta)
  then have "mset (map candidateIdentity (rv_Members room)) = mset (map memberIdentity (roomMembers db (rmr_room_id r)))"
    using memberRows_room [OF assms(3,4), of "rmr_room_id r" "map rmr_room_id rows" collate] r(1) by simp
  moreover have "rv_RoomID room = rmr_room_id r" "rv_AggregateVersion room = rmr_aggregate_version r" unfolding r(2) by (simp_all add: roomViewOf_def)
  moreover have "r \<in> set (db_rooms db)" using r(1) sub by blast
  ultimately show ?thesis using that [of r] by simp
qed

section \<open>Optimistic concurrency\<close>

text \<open>A room keeps its members as long as it keeps its version.\<close>

definition membersByVersion :: "Database \<Rightarrow> Database \<Rightarrow> bool" where
  "membersByVersion db db' \<longleftrightarrow> (\<forall>r \<in> set (db_rooms db). \<exists>r' \<in> set (db_rooms db'). rmr_room_id r' = rmr_room_id r \<and>
     rmr_aggregate_version r \<le> rmr_aggregate_version r' \<and>
     (rmr_aggregate_version r' = rmr_aggregate_version r \<longrightarrow> roomMembers db' (rmr_room_id r) = roomMembers db (rmr_room_id r)))"

lemma membersByVersion_refl: "membersByVersion db db"
  unfolding membersByVersion_def by blast

lemma membersByVersion_trans:
  assumes "membersByVersion x y" "membersByVersion y z"
  shows "membersByVersion x z"
  unfolding membersByVersion_def
proof
  fix r assume "r \<in> set (db_rooms x)"
  then obtain r1 where r1: "r1 \<in> set (db_rooms y)" "rmr_room_id r1 = rmr_room_id r" "rmr_aggregate_version r \<le> rmr_aggregate_version r1"
      "rmr_aggregate_version r1 = rmr_aggregate_version r \<longrightarrow> roomMembers y (rmr_room_id r) = roomMembers x (rmr_room_id r)"
    using assms(1) unfolding membersByVersion_def by blast
  then obtain r2 where r2: "r2 \<in> set (db_rooms z)" "rmr_room_id r2 = rmr_room_id r1" "rmr_aggregate_version r1 \<le> rmr_aggregate_version r2"
      "rmr_aggregate_version r2 = rmr_aggregate_version r1 \<longrightarrow> roomMembers z (rmr_room_id r1) = roomMembers y (rmr_room_id r1)"
    using assms(2) unfolding membersByVersion_def by blast
  show "\<exists>r' \<in> set (db_rooms z). rmr_room_id r' = rmr_room_id r \<and> rmr_aggregate_version r \<le> rmr_aggregate_version r' \<and>
     (rmr_aggregate_version r' = rmr_aggregate_version r \<longrightarrow> roomMembers z (rmr_room_id r) = roomMembers x (rmr_room_id r))"
    using r1 r2 by (intro bexI [OF _ r2(1)]) auto
qed

lemma membersByVersion_same:
  "\<lbrakk>db_memberships db' = db_memberships db; set (db_rooms db) \<subseteq> set (db_rooms db')\<rbrakk> \<Longrightarrow> membersByVersion db db'"
  unfolding membersByVersion_def roomMembers_def by fastforce

lemma membersByVersion_onRoom:
  assumes "db_rooms db' = onRoom (rmr_room_id room) g (db_rooms db)" "room \<in> set (db_rooms db)" "roomsInv db"
    and "\<And>r. rmr_room_id (g r) = rmr_room_id r" "rmr_aggregate_version room < rmr_aggregate_version (g room)"
    and "\<And>i. i \<noteq> rmr_room_id room \<Longrightarrow> roomMembers db' i = roomMembers db i"
  shows "membersByVersion db db'"
  unfolding membersByVersion_def
proof
  fix r assume r: "r \<in> set (db_rooms db)"
  show "\<exists>r' \<in> set (db_rooms db'). rmr_room_id r' = rmr_room_id r \<and> rmr_aggregate_version r \<le> rmr_aggregate_version r' \<and>
     (rmr_aggregate_version r' = rmr_aggregate_version r \<longrightarrow> roomMembers db' (rmr_room_id r) = roomMembers db (rmr_room_id r))"
  proof (cases "rmr_room_id r = rmr_room_id room")
    case True
    then have "r = room" using room_unique [OF assms(3) r assms(2)] by simp
    then show ?thesis using assms(1,2,4,5) by (intro bexI [of _ "g room"]) (auto simp: onRoom_def)
  next
    case False
    then show ?thesis using onRoom_other [OF r False] assms(1,6) by auto
  qed
qed

lemma membersByVersion_lifecycle: "lifecycle db db' \<Longrightarrow> roomsInv db \<Longrightarrow> membersByVersion db db'"
proof (induction rule: lifecycle.induct)
  case (assign row db version t room filled roomVersion f d m s ev roomEv evs work)
  have "roomChecks (seatedRoom filled roomVersion f d room)" using assign.hyps(5,10) by blast
  then have "roomVersion = rmr_aggregate_version room + 1"
    using room_version_step [OF assign.prems assign.hyps(5), of "seatedRoom filled roomVersion f d"] assign.hyps(9) by (simp add: seatedRoom_sel)
  then show ?case using assign.hyps(11)
    by (intro membersByVersion_onRoom [OF _ assign.hyps(5) assign.prems, of _ "seatedRoom filled roomVersion f d"]) (simp_all add: roomMembers_def seatedRoom_sel)
qed (simp_all add: membersByVersion_same)

lemma membersByVersion_settle: "settle db db' \<Longrightarrow> roomsInv db \<Longrightarrow> membersByVersion db db'"
proof -
  assume "settle db db'" "roomsInv db"
  then obtain room g f ev where st: "settlesRoom db db' room g f ev" using settle_settlesRoom by blast
  note st' = st [unfolded settlesRoom_def]
  show ?thesis by (rule membersByVersion_onRoom [of _ room g]) (use st' \<open>roomsInv db\<close> in \<open>simp_all add: roomMembers_def\<close>)
qed

lemma membersByVersion_settled: "settle\<^sup>*\<^sup>* db db' \<Longrightarrow> storeInv collate db \<Longrightarrow> membersByVersion db db'"
proof (induction rule: rtranclp_induct)
  case (step y z)
  have "roomsInv y" using storeInv_settled [OF step.hyps(1) step.prems] by (simp add: storeInv_def)
  then show ?case using membersByVersion_settle [OF step.hyps(2)] membersByVersion_trans step by blast
qed (simp add: membersByVersion_refl)

lemma membersByVersion_step:
  assumes "storeInv collate db" "storeStep collate db db'"
  shows "membersByVersion db db'"
  using assms(2,1)
proof (cases rule: storeStep_cases)
  case 2
  then show ?thesis using membersByVersion_lifecycle assms(1) by (simp add: storeInv_def)
next
  case 5
  then show ?thesis using membersByVersion_settled assms(1) by blast
qed (use rate_frame resultsRescheduled_frame in \<open>auto simp: membersByVersion_refl outboxMoved_def ticketsRescheduled_def intro!: membersByVersion_same\<close>)

lemma membersByVersion_steps:
  assumes "(storeStep collate)\<^sup>*\<^sup>* db db'" "storeInv collate db"
  shows "membersByVersion db db'"
  by (rule store.steps_rel [OF assms, where R = membersByVersion])
    (use membersByVersion_refl membersByVersion_trans membersByVersion_step in blast)+

section \<open>A recorded assignment\<close>

lemma assignSeat_member:
  assumes "assignSeat flt db c dg ticket room members seat = (Inr a, db')"
  obtains m where "db_memberships db' = db_memberships db @ [m]" "mb_room_id m = ar_id room" "mb_ticket_id m = tk_ID ticket" "mb_player_id m = tk_PlayerID ticket"
proof -
  let ?v = "incInt64 (tk_AggregateVersion ticket)" and ?rv = "incInt64 (ar_version room)" and ?filled = "members + 1 = ar_capacity room"
  obtain db1 deadline db2 m db3 s db4 b db5 where
    u: "updateTicket db (tk_ID ticket) (leaveQueue (markAssigned (pgTime (gtc_AssignedAt c))) ?v) = Inr db1" and
    r: "(if ?filled then rbind (wrapR ''fill assigned room: %w'' [] (stmt flt ''update room'' (fillRoom db1 (ar_id room) ?rv (gtc_AssignedAt c)))) (\<lambda>(deadline, db2). Inr (Some deadline, db2))
       else rbind (wrapR ''advance room version: %w'' [] (stmt flt ''update room'' (advanceRoom db1 (ar_id room) ?rv))) (\<lambda>db2. Inr (None, db2))) = Inr (deadline, db2)" and
    m: "insertMembership db2 m = Inr db3" "mb_room_id m = ar_id room" "mb_ticket_id m = tk_ID ticket" "mb_player_id m = tk_PlayerID ticket" and
    s: "insertSession db3 s = Inr db4" and e: "insertAssignmentEvents flt db4 c b = Inr db5" and
    w: "db' = db5\<lparr>db_shadow_work := db_shadow_work db'\<rparr>"
    using assms insertShadowWork_Inr unfolding assignSeat_def Let_def
    by (simp add: tryTx_Inr split del: if_split) (elim exE conjE, auto split: if_splits dest!: commitTx_Inr)
  have "db_memberships db1 = db_memberships db" using u by (simp add: updateTicket_Inr)
  moreover have "db_memberships db2 = db_memberships db1" using seat_room_Inr [OF r] by auto
  moreover have "db_memberships db3 = db_memberships db2 @ [m]" using m(1) by (simp add: insertMembership_Inr)
  moreover have "db_memberships db4 = db_memberships db3" using s by (simp add: insertSession_Inr)
  moreover obtain evs where "db5 = db4\<lparr>db_outbox := db_outbox db4 @ evs\<rparr>" using insertAssignmentEvents_Inr [OF e] by metis
  moreover have "db_memberships db' = db_memberships db5" by (subst w) simp
  ultimately have "db_memberships db' = db_memberships db @ [m]" by simp
  then show ?thesis using that m by blast
qed

lemma assignStored_member:
  assumes "assignStored flt clock db c dg stored = (Inr a, db')"
  obtains r m where "r \<in> set (db_rooms db)" "rmr_room_id r = gtc_RoomID c" "rmr_aggregate_version r = gtc_ExpectedRoomVersion c"
    "db_memberships db' = db_memberships db @ [m]" "mb_room_id m = gtc_RoomID c" "mb_ticket_id m = tk_ID (st_ticket stored)"
proof -
  obtain room members seat where room: "lockAssignmentRoom db (gtc_RoomID c) = Inr room" "ar_version room = gtc_ExpectedRoomVersion c"
      and seat: "assignSeat flt db c dg (st_ticket stored) room members seat = (Inr a, db')"
    using assms unfolding assignStored_def Let_def
    by (auto simp: tryTx_Inr split: if_splits)
  obtain r where "r \<in> set (db_rooms db)" "rmr_room_id r = gtc_RoomID c" "ar_id room = gtc_RoomID c" "ar_version room = rmr_aggregate_version r"
    using lockAssignmentRoom_Inr [OF room(1)] by auto
  then show ?thesis using assignSeat_member [OF seat] room(2) that by metis
qed

lemma AssignTicket_member:
  assumes "AssignTicket digest clock flt db c = (Inr a, db')" "\<forall>m \<in> set (db_memberships db). mb_assignment_id m \<noteq> gtc_AssignmentID c"
  obtains r m where "r \<in> set (db_rooms db)" "rmr_room_id r = gtc_RoomID c" "rmr_aggregate_version r = gtc_ExpectedRoomVersion c"
    "db_memberships db' = db_memberships db @ [m]" "mb_room_id m = gtc_RoomID c" "mb_ticket_id m = gtc_TicketID c"
proof -
  have "filter (\<lambda>(rm, s). mb_assignment_id rm = gtc_AssignmentID c) (assignmentRows db) = []"
    using assms(2) by (auto simp: assignmentRows_def filter_empty_conv)
  then have "loadAssignmentByIdentity db (gtc_AssignmentID c) = Inl ErrNoRows" by (simp add: loadAssignmentByIdentity_def)
  then obtain e where e: "stmt flt ''read assignment'' (loadAssignmentByIdentity db (gtc_AssignmentID c)) = Inl e"
    by (cases "flt_stmt flt ''read assignment''") (auto simp: stmt_def)
  obtain dg stored where load: "loadTicketByID db (gtc_TicketID c) = Inr stored" and rest: "assignStored flt clock db c dg stored = (Inr a, db')"
    using assms(1) unfolding AssignTicket_def e by (auto simp: tryTx_Inr split: if_splits)
  have "tk_ID (st_ticket stored) = gtc_TicketID c" using loadTicketByID_Inr [OF load] by (auto simp: scanStoredTicket_def)
  then show ?thesis using assignStored_member [OF rest] that by metis
qed

section \<open>The processor on the stores\<close>

text \<open>Every call has its own failures and its own reading of the database clock, by the name of the call.\<close>

record storeEnv =
  se_faults :: "string \<Rightarrow> Faults"
  se_clock :: "string \<Rightarrow> time"

definition matchQueue :: "collation \<Rightarrow> string list \<Rightarrow> storeEnv \<Rightarrow> Database QueueRepository" where
  "matchQueue collate locked env =
     \<lparr>qr_ClaimMatchmakingTickets = ClaimMatchmakingTickets collate locked (se_faults env ''claim''),
      qr_ScheduleTicketRetry = ScheduleTicketRetry (se_clock env ''retry'') (se_faults env ''retry'')\<rparr>"

definition ticketLifecycle :: "(digestInput \<Rightarrow> string result) \<Rightarrow> storeEnv \<Rightarrow> Database TicketLifecycle" where
  "ticketLifecycle digest env =
     \<lparr>tl_Assign = TicketService_Assign (TicketStore digest (se_clock env ''assign'') (se_faults env ''assign'')),
      tl_Expire = TicketService_Expire (TicketStore digest (se_clock env ''expire'') (se_faults env ''expire''))\<rparr>"

definition postgresProcessor ::
    "collation \<Rightarrow> string list \<Rightarrow> (string \<Rightarrow> matchingPolicyDefinition result) \<Rightarrow> (digestInput \<Rightarrow> string result) \<Rightarrow> storeEnv \<Rightarrow> duration \<Rightarrow> (Database, unit) MatchProcessor" where
  "postgresProcessor collate locked unmarshal digest env staleRetryDelay =
     \<lparr>mp_attempts = LoadMatchAttempt collate unmarshal (se_faults env ''load''), mp_queue = matchQueue collate locked env,
      mp_tickets = ticketLifecycle digest env, mp_observer = Some (), mp_staleRetryDelay = staleRetryDelay\<rparr>"

lemma ScheduleTicketRetry_step: "storeStep collate db (snd (ScheduleTicketRetry clock flt db i token t))"
  by (rule retries [OF prod.collapse [symmetric]])

lemma TicketService_Assign_step: "(storeStep collate)\<^sup>*\<^sup>* db (snd (TicketService_Assign (TicketStore digest clock flt) db c))"
proof (cases "AssignTicketCommand_Validate c")
  case None
  have "storeStep collate db (snd (AssignTicket digest clock flt db c))" by (rule assigns [OF prod.collapse [symmetric]])
  then show ?thesis using None by (simp add: TicketService_Assign_def guardOp_def TicketStore_def)
qed (simp add: TicketService_Assign_def guardOp_def)

lemma TicketService_Expire_step: "(storeStep collate)\<^sup>*\<^sup>* db (snd (TicketService_Expire (TicketStore digest clock flt) db c))"
proof (cases "ExpireTicketCommand_Validate c")
  case None
  have "storeStep collate db (snd (ExpireTicket digest clock flt db c))" by (rule expires [OF prod.collapse [symmetric]])
  then show ?thesis using None by (simp add: TicketService_Expire_def guardOp_def TicketStore_def)
qed (simp add: TicketService_Expire_def guardOp_def)

lemma assignSelected_steps:
  assumes "\<And>s. (storeStep collate)\<^sup>*\<^sup>* s (meanwhile s)"
  shows "(storeStep collate)\<^sup>*\<^sup>* db (snd (assignSelected hash meanwhile (postgresProcessor collate locked unmarshal digest env delay) claim sel t db))"
proof -
  let ?p = "postgresProcessor collate locked unmarshal digest env delay"
  obtain res db1 where a: "tl_Assign (mp_tickets ?p) db (assignmentCommand hash claim sel t) = (res, db1)" by (cases "tl_Assign (mp_tickets ?p) db (assignmentCommand hash claim sel t)")
  have one: "(storeStep collate)\<^sup>*\<^sup>* db db1"
    using TicketService_Assign_step [of collate db digest _ _ "assignmentCommand hash claim sel t"] a unfolding postgresProcessor_def ticketLifecycle_def by (metis MatchProcessor.select_convs(3) TicketLifecycle.select_convs(1) snd_conv)
  obtain re db2 where r: "qr_ScheduleTicketRetry (mp_queue ?p) (meanwhile db1) (tk_ID (tc_Ticket claim)) (tc_Token claim) (time_Add t (mp_staleRetryDelay ?p)) = (re, db2)"
    by (cases "qr_ScheduleTicketRetry (mp_queue ?p) (meanwhile db1) (tk_ID (tc_Ticket claim)) (tc_Token claim) (time_Add t (mp_staleRetryDelay ?p))")
  have "storeStep collate (meanwhile db1) db2"
    using r ScheduleTicketRetry_step [of collate "meanwhile db1"] unfolding postgresProcessor_def matchQueue_def by (metis MatchProcessor.select_convs(2) QueueRepository.select_convs(2) snd_conv)
  then have "(storeStep collate)\<^sup>*\<^sup>* db db2" using one assms [of db1] by (meson rtranclp.rtrancl_into_rtrancl rtranclp_trans)
  then show ?thesis using one a r unfolding assignSelected_def by (cases res; cases re) simp_all
qed

lemma expireClaim_steps: "(storeStep collate)\<^sup>*\<^sup>* db (snd (expireClaim hash (postgresProcessor collate locked unmarshal digest env delay) claim deadline t db))"
  using TicketService_Expire_step
  by (simp add: expireClaim_def postgresProcessor_def ticketLifecycle_def Let_def split: prod.splits sum.splits) (metis snd_conv)

lemma Handle_steps:
  assumes "\<And>s. (storeStep collate)\<^sup>*\<^sup>* s (meanwhile s)"
  shows "(storeStep collate)\<^sup>*\<^sup>* db (snd (Handle Exp hash meanwhile (postgresProcessor collate locked unmarshal digest env delay) claim t db))"
proof -
  let ?p = "postgresProcessor collate locked unmarshal digest env delay"
  have after: "(storeStep collate)\<^sup>*\<^sup>* db db'" if "(storeStep collate)\<^sup>*\<^sup>* (meanwhile db) db'" for db' using assms [of db] that by (rule rtranclp_trans)
  have assigned: "(storeStep collate)\<^sup>*\<^sup>* db (snd (assignSelected hash meanwhile ?p claim sel t (meanwhile db)))" for sel
    by (rule after, rule assignSelected_steps) (rule assms)
  have expired: "(storeStep collate)\<^sup>*\<^sup>* db (snd (expireClaim hash ?p claim deadline t (meanwhile db)))" for deadline by (rule after, rule expireClaim_steps)
  have retried: "(storeStep collate)\<^sup>*\<^sup>* db (snd (qr_ScheduleTicketRetry (mp_queue ?p) (meanwhile db) i token u))" for i token u
    by (rule after) (simp add: postgresProcessor_def matchQueue_def r_into_rtranclp ScheduleTicketRetry_step)
  show ?thesis
  proof (cases "decideClaim Exp (mp_attempts ?p) claim t db")
    case (Inl e)
    then show ?thesis by (simp add: Handle_def)
  next
    case (Inr d)
    obtain attempt result where d: "d = (attempt, result)" by (cases d)
    show ?thesis
    proof (cases "mar_Outcome result")
      case AttemptOutcomeMatched
      then show ?thesis using Inr d assigned [of "the (mar_Selection result)"] by (simp add: Handle_def Let_def split: prod.splits) (metis snd_conv)
    next
      case AttemptOutcomeRetryScheduled
      then show ?thesis using Inr d retried [of "tk_ID (tc_Ticket claim)" "tc_Token claim" "the (mar_RetryAt result)"]
        by (simp add: Handle_def split: prod.splits option.splits) (metis snd_conv)
    next
      case AttemptOutcomeTimedOut
      then show ?thesis using Inr d expired by (simp add: Handle_def)
    qed
  qed
qed

lemma AttemptMatch_matched:
  assumes "AttemptMatch predictor attempt = Inr result" "mar_Outcome result = AttemptOutcomeMatched"
  obtains sel room d where "mar_Selection result = Some sel" "room \<in> set (ma_Rooms attempt)" "sel_RoomID sel = rv_RoomID room" "sel_RoomVersion sel = rv_AggregateVersion room"
    "eligibleFor predictor (ma_Candidate attempt) (ma_EvaluatedAt attempt) room d"
proof -
  obtain sel where sel: "mar_Selection result = Some sel" "SelectRoom predictor (ma_Rooms attempt) (ma_Candidate attempt) (ma_EvaluatedAt attempt) = Inr (Some sel)"
    using assms by (auto simp: AttemptMatch_def Let_def split: if_splits option.splits)
  then obtain opts op where op: "collectOptions predictor (ma_Candidate attempt) (ma_EvaluatedAt attempt) (indexed (ma_Rooms attempt)) = Inr opts"
      "op = hd (sort_cmp (compareOptions (ma_EvaluatedAt attempt)) opts)" "opts \<noteq> []" "sel_RoomID sel = rv_RoomID (opt_room op)" "sel_RoomVersion sel = rv_AggregateVersion (opt_room op)"
    by (elim SelectRoom_Some)
  have "sort_cmp (compareOptions (ma_EvaluatedAt attempt)) opts \<noteq> []" using op(3) by simp
  then have "op \<in> set (sort_cmp (compareOptions (ma_EvaluatedAt attempt)) opts)" unfolding op(2) by (rule hd_in_set)
  then have "op \<in> set opts" by simp
  then show ?thesis using collected(1) [OF op(1)] that sel(1) op(4,5) by blast
qed

lemma observed_match:
  assumes "Handle Exp hash meanwhile processor claim t db = ((err, seen), db')" "\<exists>ob \<in> set seen. mo_Outcome ob = AttemptOutcomeMatched"
  obtains attempt result sel as where "decideClaim Exp (mp_attempts processor) claim t db = Inr (attempt, result)" "mar_Outcome result = AttemptOutcomeMatched"
    "sel = the (mar_Selection result)" "tl_Assign (mp_tickets processor) (meanwhile db) (assignmentCommand hash claim sel t) = (Inr as, db')"
proof -
  obtain attempt result where d: "decideClaim Exp (mp_attempts processor) claim t db = Inr (attempt, result)"
    using assms by (auto simp: Handle_def split: sum.splits)
  have matched: "mar_Outcome result = AttemptOutcomeMatched"
    using assms d by (cases "mar_Outcome result") (auto simp: Handle_def expireClaim_def outcomeObservation_def Let_def split: prod.splits option.splits sum.splits if_splits)
  obtain assigned seen' where a: "assignSelected hash meanwhile processor claim (the (mar_Selection result)) t (meanwhile db) = ((assigned, err, seen'), db')"
      and seen: "seen = (if err = None \<and> assigned then seen' @ [newMatchObservation attempt (the (mar_Selection result)) claim t] else seen')"
    using assms(1) d matched by (auto simp: Handle_def Let_def split: prod.splits)
  show ?thesis
  proof (cases "tl_Assign (mp_tickets processor) (meanwhile db) (assignmentCommand hash claim (the (mar_Selection result)) t)")
    case (Pair res db1)
    show ?thesis
    proof (cases res)
      case (Inr as)
      then have "db1 = db'" using a Pair by (simp add: assignSelected_def)
      then show ?thesis using that [OF d matched refl, of as] Pair Inr by simp
    next
      case (Inl e)
      then have "\<not> assigned" "\<forall>ob \<in> set seen'. mo_Outcome ob = AttemptOutcomeRetryScheduled"
        using a Pair by (auto simp: assignSelected_def outcomeObservation_def split: prod.splits option.splits if_splits)
      then show ?thesis using seen assms(2) by auto
    qed
  qed
qed


section \<open>Whole cycles\<close>

lemma handleAll_steps:
  assumes "\<And>claim db. (storeStep collate)\<^sup>*\<^sup>* db (snd (handler claim now db))"
  shows "(storeStep collate)\<^sup>*\<^sup>* db (snd (handleAll (matchQueue collate locked env) handler options now failedAt claims db))"
proof (induction claims arbitrary: db)
  case (Cons claim claims)
  have "(storeStep collate)\<^sup>*\<^sup>* db (snd (handleClaim (matchQueue collate locked env) handler options now t claim db))" for t
  proof (cases "handler claim now db")
    case (Pair e db1)
    then have one: "(storeStep collate)\<^sup>*\<^sup>* db db1" using assms [of db claim] by simp
    then show ?thesis using Pair
      by (cases e) (auto simp: handleClaim_def matchQueue_def Let_def split: prod.splits intro: rtranclp.rtrancl_into_rtrancl [OF one] retries)
  qed
  then show ?case using Cons.IH by (auto split: prod.splits) (metis rtranclp_trans snd_conv)
qed simp

lemma Runner_RunOnce_steps:
  assumes "\<And>claim t db. (storeStep collate)\<^sup>*\<^sup>* db (snd (handler claim t db))"
  shows "(storeStep collate)\<^sup>*\<^sup>* db (snd (Runner_RunOnce (matchQueue collate locked env) handler options renv db))"
proof -
  let ?r = "\<lparr>clr_Token = re_token renv, clr_Limit = ro_BatchSize options, clr_ClaimedAt = re_now renv, clr_LeaseUntil = time_Add (re_now renv) (ro_LeaseDuration options)\<rparr>"
  obtain res db1 where c: "ClaimMatchmakingTickets collate locked (se_faults env ''claim'') db ?r = (res, db1)"
    by (cases "ClaimMatchmakingTickets collate locked (se_faults env ''claim'') db ?r")
  have one: "(storeStep collate)\<^sup>*\<^sup>* db db1" using claims [OF c] by blast
  moreover have "(storeStep collate)\<^sup>*\<^sup>* db1 (snd (handleAll (matchQueue collate locked env) handler options (re_now renv) (re_failedAt renv) cs db1))" for cs
    by (rule handleAll_steps) (rule assms)
  ultimately have all: "(storeStep collate)\<^sup>*\<^sup>* db (snd (handleAll (matchQueue collate locked env) handler options (re_now renv) (re_failedAt renv) cs db1))" for cs
    by (rule rtranclp_trans)
  have q: "qr_ClaimMatchmakingTickets (matchQueue collate locked env) db ?r = (res, db1)" using c by (simp add: matchQueue_def)
  show ?thesis
  proof (cases res)
    case (Inl e)
    then show ?thesis using q one by (simp add: Runner_RunOnce_def)
  next
    case (Inr cs)
    then show ?thesis using q one all by (auto simp: Runner_RunOnce_def Let_def split: prod.splits option.splits if_splits) (metis snd_conv)+
  qed
qed

text \<open>The rating and outbox queues with the failures and the clock of each call.\<close>

definition ratingQueue :: "(f64 \<Rightarrow> f64) \<Rightarrow> collation \<Rightarrow> (string \<Rightarrow> string) \<Rightarrow> storeEnv \<Rightarrow> Database RatingQueue" where
  "ratingQueue Exp collate hash env =
     \<lparr>rq_ClaimNextRatingResult = ClaimNextRatingResult collate (se_faults env ''claim''),
      rq_ProcessRatingResult = ProcessRatingResult Exp collate hash (se_clock env ''process'') (se_faults env ''process''),
      rq_ScheduleRatingRetry = ScheduleRatingRetry (se_clock env ''retry'') (se_faults env ''retry'')\<rparr>"

definition outboxQueue :: "collation \<Rightarrow> string list \<Rightarrow> (eventPayload \<Rightarrow> string) \<Rightarrow> storeEnv \<Rightarrow> Database OutboxQueue" where
  "outboxQueue collate locked jsonText env =
     \<lparr>oq_ClaimOutboxEvents = ClaimOutboxEvents collate locked jsonText (se_faults env ''claim''),
      oq_MarkOutboxDelivered = MarkOutboxDelivered (se_clock env ''deliver'') (se_faults env ''deliver''),
      oq_MarkOutboxDeadLettered = MarkOutboxDeadLettered (se_clock env ''bury'') (se_faults env ''bury''),
      oq_ScheduleOutboxRetry = ScheduleOutboxRetry (se_clock env ''retry'') (se_faults env ''retry'')\<rparr>"

lemma Rating_RunOnce_steps:
  assumes "\<And>s. (storeStep collate)\<^sup>*\<^sup>* s (meanwhile s)" "driverFaults (se_faults env ''process'')"
  shows "(storeStep collate)\<^sup>*\<^sup>* db (snd (Rating_RunOnce (ratingQueue Exp collate hash env) options meanwhile token now failedAt db))"
proof -
  let ?r = "\<lparr>rcr_Token = token, rcr_ClaimedAt = now, rcr_LeaseUntil = time_Add now (rro_LeaseDuration options)\<rparr>" and ?q = "ratingQueue Exp collate hash env"
  obtain res db1 where c: "rq_ClaimNextRatingResult ?q db ?r = (res, db1)" by (cases "rq_ClaimNextRatingResult ?q db ?r")
  then have one: "(storeStep collate)\<^sup>*\<^sup>* db db1" using claimsResult by (auto simp: ratingQueue_def)
  have two: "(storeStep collate)\<^sup>*\<^sup>* db db2" if "rq_ProcessRatingResult ?q (meanwhile db1) claim now = (x, db2)" for claim x db2
  proof -
    have "storeStep collate (meanwhile db1) db2" using that rates [OF assms(2)] by (simp add: ratingQueue_def)
    then show ?thesis using one assms(1) [of db1] by (meson rtranclp.rtrancl_into_rtrancl rtranclp_trans)
  qed
  have three: "(storeStep collate)\<^sup>*\<^sup>* db db3" if "rq_ProcessRatingResult ?q (meanwhile db1) claim now = (x, db2)" "rq_ScheduleRatingRetry ?q (meanwhile db2) i k t = (e, db3)"
    for claim x db2 i k t e db3
  proof -
    have "storeStep collate (meanwhile db2) db3" using that(2) retriesResult by (simp add: ratingQueue_def)
    then show ?thesis using two [OF that(1)] assms(1) [of db2] by (meson rtranclp.rtrancl_into_rtrancl rtranclp_trans)
  qed
  show ?thesis unfolding Rating_RunOnce_def c
    by (auto simp: Let_def one split: prod.splits sum.splits option.splits intro: two three)
qed

lemma deliverClaim_step: "storeStep collate db (snd (deliverClaim (outboxQueue collate locked jsonText env) options errorRunes denv claim db))"
  by (auto simp: deliverClaim_def outboxQueue_def Let_def split: prod.splits option.splits intro: delivers buries postpones)

lemma deliverAll_steps: "(storeStep collate)\<^sup>*\<^sup>* db (snd (deliverAll (outboxQueue collate locked jsonText env) options errorRunes denv claims db))"
proof (induction claims arbitrary: db)
  case (Cons claim claims)
  have "storeStep collate db (snd (deliverClaim (outboxQueue collate locked jsonText env) options errorRunes (denv claim) claim db))" by (rule deliverClaim_step)
  then show ?case using Cons.IH by (auto split: prod.splits) (metis converse_rtranclp_into_rtranclp snd_conv)
qed simp

lemma Outbox_RunOnce_steps: "(storeStep collate)\<^sup>*\<^sup>* db (snd (Outbox_RunOnce (outboxQueue collate locked jsonText env) options errorRunes cenv db))"
proof -
  let ?q = "outboxQueue collate locked jsonText env"
  let ?r = "\<lparr>ocr_Token = ce_token cenv, ocr_Limit = oro_BatchSize options, ocr_ClaimedAt = ce_claimedAt cenv, ocr_LeaseUntil = time_Add (ce_claimedAt cenv) (oro_LeaseDuration options)\<rparr>"
  obtain res db1 where c: "oq_ClaimOutboxEvents ?q db ?r = (res, db1)" by (cases "oq_ClaimOutboxEvents ?q db ?r")
  then have one: "(storeStep collate)\<^sup>*\<^sup>* db db1" using takes by (auto simp: outboxQueue_def)
  have all: "(storeStep collate)\<^sup>*\<^sup>* db (snd (deliverAll ?q options errorRunes (ce_delivery cenv) cs db1))" for cs
    by (rule rtranclp_trans [OF one deliverAll_steps])
  show ?thesis
  proof (cases res)
    case (Inl e)
    then show ?thesis using c one by (simp add: Outbox_RunOnce_def)
  next
    case (Inr cs)
    then show ?thesis using c one all by (auto simp: Outbox_RunOnce_def Let_def split: prod.splits option.splits if_splits) (metis snd_conv)+
  qed
qed

lemma ResultDeadline_RunOnce_steps:
  "(storeStep collate)\<^sup>*\<^sup>* db (snd (ResultDeadline_RunOnce (ResultService_ExpireDue (ResultStore collate locked digest hash flt)) options now db))"
  by (auto simp: ResultDeadline_RunOnce_def ResultService_ExpireDue_def guardOp_def ResultStore_def split: prod.splits sum.splits option.splits intro: lapses)


section \<open>Witnesses\<close>

text \<open>A run: a policy is configured, the queued ticket of the earlier run is claimed and processed.\<close>

definition samplePolicy :: matchingPolicyDefinition where
  "samplePolicy = \<lparr>mpd_InitialSkillGap = Fin 2, mpd_MaxSkillGap = Fin 2, mpd_MaxWinProbabilitySpread = Fin 1, mpd_ExpansionIntervalMS = 1000,
     mpd_FillTimeoutMS = 60000, mpd_AgePriorityAfterMS = 0, mpd_CandidateLimit = 10, mpd_RoomLimit = 10, mpd_PreferNearlyFull = True\<rparr>"

definition policyDb :: Database where
  "policyDb = sampleDb1\<lparr>db_policies := [\<lparr>po_policy_version = ''p'', po_rating_model_version = ''m1'', po_definition = ''{}''\<rparr>]\<rparr>"

definition queuedDb :: Database where
  "queuedDb = snd (ClaimMatchmakingTickets strCompare [] noFaults policyDb \<lparr>clr_Token = ''w'', clr_Limit = 8, clr_ClaimedAt = 6000, clr_LeaseUntil = 20000\<rparr>)"

definition sampleTicketClaim :: TicketClaim where
  "sampleTicketClaim = \<lparr>tc_Ticket = sampleTicket ''tk1'', tc_Token = ''w'', tc_Attempt = 1, tc_LeaseUntil = 20000\<rparr>"

definition sampleEnv :: storeEnv where "sampleEnv = \<lparr>se_faults = (\<lambda>_. noFaults), se_clock = (\<lambda>_. 7500)\<rparr>"

definition loadedAttempt :: MatchAttempt where
  "loadedAttempt = (case LoadMatchAttempt strCompare (\<lambda>_. Inr samplePolicy) noFaults queuedDb sampleTicketClaim 7000 of Inr a \<Rightarrow> a)"

lemma loadedAttempt_eval: "LoadMatchAttempt strCompare (\<lambda>_. Inr samplePolicy) noFaults queuedDb sampleTicketClaim 7000 = Inr loadedAttempt"
  by code_simp

lemma loadedAttempt_version: "pol_RatingModelVersion (ma_Policy loadedAttempt) = ''m1''"
  by code_simp

lemma sampleMatch_eval: "case AttemptMatch predictor loadedAttempt of Inr r \<Rightarrow> mar_Outcome r = AttemptOutcomeMatched \<and>
    map_option (\<lambda>s. (sel_RoomID s, sel_RoomVersion s)) (mar_Selection r) = Some (''r1'', 1) | Inl _ \<Rightarrow> False"
  by code_simp

definition sampleSelection :: "string \<Rightarrow> int \<Rightarrow> AssignTicketCommand" where
  "sampleSelection room version = \<lparr>gtc_AssignmentID = ''assignment-h'', gtc_TicketID = ''tk1'', gtc_RoomID = room, gtc_ExpectedRoomVersion = version,
     gtc_SessionID = ''assignment-h-session'', gtc_TicketEventID = ''assignment-h-ticket-event'', gtc_RoomFilledEventID = ''assignment-h-room-event'',
     gtc_AssignedAt = 7000, gtc_ClaimToken = ''w''\<rparr>"

lemma sampleSelection_eval: "isl (fst (TicketService_Assign (TicketStore sampleDigest 7500 noFaults) queuedDb (sampleSelection ''r1'' 1))) = False"
  by code_simp

lemma queuedDb_memberships: "db_memberships queuedDb = []"
  by code_simp

lemma queuedDb_reachable: "reachableStore strCompare queuedDb"
proof -
  have "storeStep strCompare sampleDb1 policyDb"
    using configures [where db = sampleDb1 and ms = "[]" and cs = "[]" and ps = "[\<lparr>po_policy_version = ''p'', po_rating_model_version = ''m1'', po_definition = ''{}''\<rparr>]"]
    by (simp add: policyDb_def sampleDb1_def sampleDb0_def emptyStore_def)
  moreover have "storeStep strCompare policyDb queuedDb" unfolding queuedDb_def by (rule claims [OF prod.collapse [symmetric]])
  ultimately show ?thesis using reachable_steps sampleDb1_reachable by blast
qed

definition sampleProcessor :: "(Database, unit) MatchProcessor" where
  "sampleProcessor = postgresProcessor strCompare [] (\<lambda>_. Inr samplePolicy) sampleDigest sampleEnv second"

lemma sampleDecision_eval:
  "\<exists>result. decideClaim Exp (mp_attempts sampleProcessor) sampleTicketClaim 7000 queuedDb = Inr (loadedAttempt, result) \<and> mar_Outcome result = AttemptOutcomeMatched \<and>
     sel_RoomID (the (mar_Selection result)) = ''r1'' \<and> sel_RoomVersion (the (mar_Selection result)) = 1"
proof -
  have valid: "NewBaseline (DefaultBaselineConfig ''m1'') = Inr (DefaultBaselineConfig ''m1'')"
    using f64_round_between [of 8 9 "25 / 3"] f64_round_between [of 4 5 "25 / 6"]
    by (auto simp: NewBaseline_def BaselineConfig_validate_def DefaultBaselineConfig_def positiveFinite_def zero_f64_def)
  have claim: "TicketClaim_Validate sampleTicketClaim = None" "tc_LeaseUntil sampleTicketClaim = 20000" by (simp_all add: sampleTicketClaim_def TicketClaim_Validate_def sampleTicket_def)
  obtain r where "AttemptMatch (Baseline_Predict Exp (DefaultBaselineConfig ''m1'')) loadedAttempt = Inr r" "mar_Outcome r = AttemptOutcomeMatched"
      "map_option (\<lambda>s. (sel_RoomID s, sel_RoomVersion s)) (mar_Selection r) = Some (''r1'', 1)"
    using sampleMatch_eval [of "Baseline_Predict Exp (DefaultBaselineConfig ''m1'')"] by (auto split: sum.splits)
  then show ?thesis using valid claim loadedAttempt_eval loadedAttempt_version
    by (auto simp: decideClaim_def sampleProcessor_def postgresProcessor_def sampleEnv_def NewEvaluator_def)
qed

lemma sampleHandle_eval:
  "\<exists>seen db'. Handle Exp (\<lambda>_. ''h'') id sampleProcessor sampleTicketClaim 7000 queuedDb = ((None, seen), db') \<and> (\<exists>ob \<in> set seen. mo_Outcome ob = AttemptOutcomeMatched)"
proof -
  obtain result where d: "decideClaim Exp (mp_attempts sampleProcessor) sampleTicketClaim 7000 queuedDb = Inr (loadedAttempt, result)"
      "mar_Outcome result = AttemptOutcomeMatched" "sel_RoomID (the (mar_Selection result)) = ''r1''" "sel_RoomVersion (the (mar_Selection result)) = 1"
    using sampleDecision_eval by blast
  let ?sel = "the (mar_Selection result)"
  have c: "assignmentCommand (\<lambda>_. ''h'') sampleTicketClaim ?sel 7000 = sampleSelection ''r1'' 1"
    using d(3,4) by (simp add: assignmentCommand_def sampleSelection_def workIdentity_def sampleTicketClaim_def sampleTicket_def Let_def)
  obtain as db' where a: "tl_Assign (mp_tickets sampleProcessor) queuedDb (sampleSelection ''r1'' 1) = (Inr as, db')"
    using sampleSelection_eval by (cases "TicketService_Assign (TicketStore sampleDigest 7500 noFaults) queuedDb (sampleSelection ''r1'' 1)", cases "fst (TicketService_Assign (TicketStore sampleDigest 7500 noFaults) queuedDb (sampleSelection ''r1'' 1))")
      (auto simp: sampleProcessor_def postgresProcessor_def ticketLifecycle_def sampleEnv_def)
  have "mo_Outcome (newMatchObservation loadedAttempt ?sel sampleTicketClaim 7000) = AttemptOutcomeMatched"
    by (simp add: newMatchObservation_def Let_def split: option.splits)
  then show ?thesis using d a c by (simp add: Handle_def assignSelected_def Let_def)
qed



end
