(* ===== verification/Shadow_Worker.thy ===== *)
theory Shadow_Worker
  imports Shadow_Queue Worker_Composition
begin

text \<open>
  The shadow worker of \<^verbatim>\<open>internal/worker/rating_shadow.go\<close> and the service with its shadow mode: one cycle of the runner, the steps of the
  store with the shadow tables, and what holds in every store they reach. The active tables never notice the shadow, and the shadow
  ratings follow the observations.
\<close>

section \<open>The shadow runner\<close>

definition WorkerRatingShadow :: string where "WorkerRatingShadow = ''rating_shadow''"

record 's RatingShadowQueue =
  sq_ClaimNextRatingShadowWork :: "'s \<Rightarrow> RatingClaimRequest \<Rightarrow> RatingShadowClaim option result \<times> 's"
  sq_ProcessRatingShadowWork :: "'s \<Rightarrow> RatingShadowClaim \<Rightarrow> time \<Rightarrow> int result \<times> 's"
  sq_ScheduleRatingShadowRetry :: "'s \<Rightarrow> RatingShadowClaim \<Rightarrow> time \<Rightarrow> error \<times> 's"

record RatingShadowRunnerOptions =
  rso_LeaseDuration :: duration
  rso_PollInterval :: duration
  rso_FailureBackoff :: duration

definition RatingShadowRunnerOptions_Validate :: "RatingShadowRunnerOptions \<Rightarrow> error" where
  "RatingShadowRunnerOptions_Validate options =
     RatingRunnerOptions_Validate \<lparr>rro_LeaseDuration = rso_LeaseDuration options, rro_PollInterval = rso_PollInterval options,
       rro_FailureBackoff = rso_FailureBackoff options\<rparr>"

record RatingShadowRunResult =
  rsr_Claimed :: int
  rsr_Persisted :: int
  rsr_Failed :: int

definition NewRatingShadowRunner ::
    "'s RatingShadowQueue option \<Rightarrow> 'logger option \<Rightarrow> RatingShadowRunnerOptions \<Rightarrow> ('s RatingShadowQueue \<times> RatingShadowRunnerOptions) result" where
  "NewRatingShadowRunner queue logger options =
     (case (queue, logger) of
        (Some q, Some l) \<Rightarrow> guardE (RatingShadowRunnerOptions_Validate options) (Inr (q, options))
      | _ \<Rightarrow> Inl (ErrorsNew ''rating shadow worker queue and logger are required''))"

text \<open>One cycle; \<open>meanwhile\<close> is what other transactions do to the store between the calls, \<open>failedAt\<close> the clock after a failure.\<close>

definition Shadow_RunOnce ::
    "'s RatingShadowQueue \<Rightarrow> RatingShadowRunnerOptions \<Rightarrow> ('s \<Rightarrow> 's) \<Rightarrow> string \<Rightarrow> time \<Rightarrow> time \<Rightarrow> 's \<Rightarrow> (RatingShadowRunResult \<times> error) \<times> 's" where
  "Shadow_RunOnce queue options meanwhile token now failedAt store =
     (case sq_ClaimNextRatingShadowWork queue store
        \<lparr>rcr_Token = token, rcr_ClaimedAt = now, rcr_LeaseUntil = time_Add now (rso_LeaseDuration options)\<rparr> of
        (Inl err, store) \<Rightarrow>
          ((\<lparr>rsr_Claimed = 0, rsr_Persisted = 0, rsr_Failed = 0\<rparr>, Some (Errorf ''claim next rating shadow work: %w'' [] (Some err))), store)
      | (Inr None, store) \<Rightarrow> ((\<lparr>rsr_Claimed = 0, rsr_Persisted = 0, rsr_Failed = 0\<rparr>, None), store)
      | (Inr (Some claim), store) \<Rightarrow>
          (case sq_ProcessRatingShadowWork queue (meanwhile store) claim now of
             (Inr persisted, store) \<Rightarrow> ((\<lparr>rsr_Claimed = 1, rsr_Persisted = persisted, rsr_Failed = 0\<rparr>, None), store)
           | (Inl err, store) \<Rightarrow>
               (case sq_ScheduleRatingShadowRetry queue (meanwhile store) claim (time_Add failedAt (rso_FailureBackoff options)) of
                  (retryErr, store) \<Rightarrow>
                    (let err = (case retryErr of None \<Rightarrow> err
                        | Some e \<Rightarrow> if errors_Is e ErrRatingShadowClaimLost then err
                                    else ErrorsJoin err (Errorf ''schedule failed rating shadow work: %w'' [] (Some e)))
                     in ((\<lparr>rsr_Claimed = 1, rsr_Persisted = 0, rsr_Failed = 1\<rparr>,
                          Some (Errorf ''%s %q: %w'' [ArgS (rsc_Kind claim), ArgS (rsc_SourceID claim)] (Some err))), store)))))"

definition shadowObservation :: "RatingShadowRunResult \<times> error \<Rightarrow> WorkerCycleObservation" where
  "shadowObservation = (\<lambda>(result, runErr).
     \<lparr>wco_Worker = WorkerRatingShadow, wco_Claimed = rsr_Claimed result, wco_Succeeded = rsr_Claimed result - rsr_Failed result,
      wco_DeadLettered = 0, wco_Failed = rsr_Failed result, wco_Errored = (runErr \<noteq> None)\<rparr>)"

section \<open>The service with its shadow mode\<close>

text \<open>
  The steps: the three operations of the shadow queue, every step of the active store, and operators who deploy candidates or describe decks
  and prices in any way.
\<close>

inductive shadowStep :: "collation \<Rightarrow> ShadowStore \<Rightarrow> ShadowStore \<Rightarrow> bool" for collate where
  claimsWork: "ClaimNextRatingShadowWork collate flt s request = (rc, s') \<Longrightarrow> shadowStep collate s s'"
| processesWork: "\<lbrakk>driverFaults flt; ProcessRatingShadowWork Exp Log decode collate clock flt s claim t = (rp, s')\<rbrakk> \<Longrightarrow> shadowStep collate s s'"
| retriesWork: "ScheduleRatingShadowRetry clock flt s claim t = (re, s') \<Longrightarrow> shadowStep collate s s'"
| serves: "storeStep collate (sh_db s) db' \<Longrightarrow> shadowStep collate s (s\<lparr>sh_db := db'\<rparr>)"
| deploys: "shadowStep collate s (s\<lparr>sh_deck_version := decks, sh_price := prices, sh_deployments := deployments\<rparr>)"

definition emptyShadow :: ShadowStore where
  "emptyShadow = \<lparr>sh_db = emptyStore, sh_deck_version = (\<lambda>_. None), sh_price = (\<lambda>_ _. (0, '''')), sh_deployments = [], sh_predictions = [],
     sh_states = [], sh_updates = [], sh_observations = []\<rparr>"

definition reachableShadow :: "collation \<Rightarrow> ShadowStore \<Rightarrow> bool" where
  "reachableShadow collate = (shadowStep collate)\<^sup>*\<^sup>* emptyShadow"

text \<open>
  The ledger of the shadow mode: at most one prediction for a room, every observation scores the prediction of its room and is the only one of its
  result and room under its candidate; the candidate has learned exactly from what was observed, and its states are the ends of unbroken chains.
\<close>

definition ledgerInv :: "ShadowStore \<Rightarrow> bool" where
  "ledgerInv s \<longleftrightarrow>
     distinct (map pd_room_id (sh_predictions s)) \<and>
     (\<forall>x \<in> set (sh_observations s). \<exists>p \<in> set (sh_predictions s). scores p x) \<and>
     distinct (map (\<lambda>x. (so_source_event_id x, so_candidate_version x)) (sh_observations s)) \<and>
     distinct (map (\<lambda>x. (so_room_id x, so_candidate_version x)) (sh_observations s)) \<and>
     (\<forall>u \<in> set (sh_updates s). \<exists>x \<in> set (sh_observations s). learnedFrom x u) \<and>
     (\<forall>x \<in> set (sh_observations s). \<exists>u \<in> set (sh_updates s). learnedFrom x u) \<and>
     shadowTables (sh_states s) (sh_updates s)"

definition shadowSystemInv :: "collation \<Rightarrow> ShadowStore \<Rightarrow> bool" where
  "shadowSystemInv collate s \<longleftrightarrow> storeInv collate (sh_db s) \<and> ledgerInv s"

lemma storeInv_work: "storeInv collate (db\<lparr>db_shadow_work := work\<rparr>) = storeInv collate db"
proof -
  let ?db = "db\<lparr>db_shadow_work := work\<rparr>"
  have members: "roomMembers ?db = roomMembers db" by (simp add: roomMembers_def fun_eq_iff)
  have "ticketsInv ?db = ticketsInv db" by (simp add: ticketsInv_def)
  moreover have "roomsInv ?db = roomsInv db" by (simp add: roomsInv_def members)
  moreover have "seatsInv ?db = seatsInv db" by (simp add: seatsInv_def)
  moreover have "eventsInv ?db = eventsInv db" by (simp add: eventsInv_def knownEvent_def)
  moreover have "orderInv collate ?db = orderInv collate db" by (simp add: orderInv_def)
  moreover have "sessionsInv ?db = sessionsInv db" "resultsInv ?db = resultsInv db" "ratingsInv ?db = ratingsInv db" by (rule store_congs; simp)+
  ultimately show ?thesis by (simp add: storeInv_def)
qed

lemma ledgerInv_work: "workOnly s s' \<Longrightarrow> ledgerInv s' = ledgerInv s"
  unfolding workOnly_def by (erule ssubst) (simp add: ledgerInv_def)

lemma storeInv_workOnly: "workOnly s s' \<Longrightarrow> storeInv collate (sh_db s') = storeInv collate (sh_db s)"
  unfolding workOnly_def by (erule ssubst) (simp add: storeInv_work)

text \<open>A processed item: the claim held its lease, the work was done, and every row of the claim was marked.\<close>

lemma ProcessRatingShadowWork_effect:
  assumes "ProcessRatingShadowWork Exp Log decode collate clock flt s claim t = (r, s')" "s' \<noteq> s"
  obtains n skip s1 where
    "processShadowRoom Exp decode collate flt s (rsc_SourceID claim) = Inr (n, skip, s1) \<or>
     processShadowResult Exp Log decode collate flt s (rsc_SourceID claim) t = Inr (n, skip, s1)"
    "workOnly s1 s'"
    "db_shadow_work (sh_db s') = map (\<lambda>w. if isWork (rsc_Kind claim) (rsc_SourceID claim) w \<and> sw_claim_token w = Some (rsc_Token claim) \<and> sw_processed_at w = None
       then w\<lparr>sw_processed_at := Some (pgTime t), sw_skip_reason := (if skip = '''' then None else Some skip), sw_claim_token := None, sw_claimed_until := None\<rparr> else w)
       (db_shadow_work (sh_db s1))"
proof -
  obtain n skip s1 k where work: "(if rsc_Kind claim = ''room'' then processShadowRoom Exp decode collate flt s (rsc_SourceID claim)
        else if rsc_Kind claim = ''result'' then processShadowResult Exp Log decode collate flt s (rsc_SourceID claim) t
        else Inl (ErrorsNew ''unsupported rating shadow work kind'')) = Inr (n, skip, s1)"
      and mark: "markWorkProcessed s1 claim t skip = Inr (k, s')"
    using assms by (auto simp: ProcessRatingShadowWork_def tx_effect split: option.splits if_splits)
  show ?thesis
    by (rule that [of n skip s1]) (use work mark in \<open>auto simp: markWorkProcessed_def updateWork_Inr workOnly_def split: if_splits\<close>)
qed

lemma ledgerInv_room:
  assumes "ledgerInv s" "\<forall>q \<in> set (sh_predictions s). pd_room_id q \<noteq> pd_room_id p"
  shows "ledgerInv (s\<lparr>sh_predictions := sh_predictions s @ [p]\<rparr>)"
  using assms by (fastforce simp: ledgerInv_def)

lemma ledgerInv_result:
  assumes "ledgerInv s" "shadowTables ss (sh_updates s @ us)" "us \<noteq> []" "p \<in> set (sh_predictions s)" "scores p x"
    and "\<forall>u \<in> set us. learnedFrom x u" "\<forall>y \<in> set (sh_observations s). \<not> observationClash x y"
  shows "ledgerInv (s\<lparr>sh_updates := sh_updates s @ us, sh_states := ss, sh_observations := sh_observations s @ [x]\<rparr>)"
proof -
  have "\<exists>u \<in> set us. learnedFrom x u" using assms(3,6) by (cases us) auto
  then show ?thesis
    using assms unfolding ledgerInv_def observationClash_def by (auto simp: image_iff)
qed

lemma ProcessRatingShadowWork_inv:
  assumes "ProcessRatingShadowWork Exp Log decode collate clock flt s claim t = (r, s')" "driverFaults flt" "shadowSystemInv collate s"
  shows "shadowSystemInv collate s'"
proof (cases "s' = s")
  case False
  have inv: "storeInv collate (sh_db s)" "ledgerInv s" using assms(3) by (simp_all add: shadowSystemInv_def)
  then have tables: "shadowTables (sh_states s) (sh_updates s)" by (simp add: ledgerInv_def)
  obtain n skip s1 where work: "processShadowRoom Exp decode collate flt s (rsc_SourceID claim) = Inr (n, skip, s1) \<or>
      processShadowResult Exp Log decode collate flt s (rsc_SourceID claim) t = Inr (n, skip, s1)" and only: "workOnly s1 s'"
    by (rule ProcessRatingShadowWork_effect [OF assms(1) False])
  from work have "sh_db s1 = sh_db s \<and> ledgerInv s1"
  proof
    assume "processShadowRoom Exp decode collate flt s (rsc_SourceID claim) = Inr (n, skip, s1)"
    from processShadowRoom_Inr [OF this] show ?thesis using inv(2) ledgerInv_room by auto
  next
    assume "processShadowResult Exp Log decode collate flt s (rsc_SourceID claim) t = Inr (n, skip, s1)"
    from processShadowResult_Inr [OF this assms(2) tables] show ?thesis
    proof (elim disjE conjE exE)
      fix us p x
      assume a: "shadowTables (sh_states s1) (sh_updates s1)" "us \<noteq> []" "p \<in> set (sh_predictions s)" "scores p x" "\<forall>u \<in> set us. learnedFrom x u"
        "\<forall>y \<in> set (sh_observations s). \<not> observationClash x y"
        and s1: "s1 = s\<lparr>sh_updates := sh_updates s @ us, sh_states := sh_states s1, sh_observations := sh_observations s @ [x]\<rparr>"
      have "sh_updates s1 = sh_updates s @ us" "sh_db s1 = sh_db s" by (subst s1, simp)+
      then show ?thesis using ledgerInv_result [OF inv(2) _ a(2-6), of "sh_states s1"] a(1) s1 by metis
    qed (use inv(2) in simp)
  qed
  then show ?thesis using inv(1) storeInv_workOnly [OF only] ledgerInv_work [OF only] by (simp add: shadowSystemInv_def)
qed (use assms(3) in simp)

lemma shadowStep_inv:
  assumes "shadowSystemInv collate s" "shadowStep collate s s'"
  shows "shadowSystemInv collate s'"
  using assms(2)
proof cases
  case (claimsWork flt request rc)
  then show ?thesis using assms(1) ClaimNextRatingShadowWork_workOnly storeInv_workOnly ledgerInv_work unfolding shadowSystemInv_def by blast
next
  case (processesWork flt Exp Log decode clock claim t rp)
  then show ?thesis using assms(1) ProcessRatingShadowWork_inv by blast
next
  case (retriesWork clock flt claim t re)
  then show ?thesis using assms(1) ScheduleRatingShadowRetry_workOnly storeInv_workOnly ledgerInv_work unfolding shadowSystemInv_def by blast
next
  case (serves db')
  then show ?thesis using assms(1) storeInv_step [of collate "sh_db s" db'] by (simp add: shadowSystemInv_def ledgerInv_def)
next
  case (deploys decks prices deployments)
  then show ?thesis using assms(1) by (simp add: shadowSystemInv_def ledgerInv_def)
qed

interpretation shadow: stepped_store emptyShadow "shadowStep collate" "shadowSystemInv collate" for collate
proof
  show "shadowSystemInv collate emptyShadow" for collate
    using store.init_inv [of collate] by (simp add: shadowSystemInv_def emptyShadow_def ledgerInv_def shadowTables_def shadowHistory_def)
qed (rule shadowStep_inv)

text \<open>
  C15. Evaluating a candidate model in production disturbs nothing and forgets nothing: in every store that the service, its operators and the shadow worker reach together,
  all invariants of the active store hold; a room has at most one prediction; every observation scores the stored prediction of its own room under
  the same candidate, baseline and segment, once; the candidate has learned from a result exactly when that result was observed; and the updates of a
  player under a candidate form an unbroken chain in the order of the timeline whose last entry is the current state, with one revision for each.
\<close>

theorem shadow_ledger:
  assumes "reachableShadow collate s"
  shows "storeInv collate (sh_db s) \<and> ledgerInv s \<and>
    (\<forall>p m v. sorted (map (\<lambda>u. est_UpdatedAt (storedAfter u)) (shadowHistory (sh_updates s) p m v)))"
proof -
  have inv: "storeInv collate (sh_db s)" "ledgerInv s"
    using shadow.reachable_inv [of collate s] assms by (simp_all add: reachableShadow_def shadowSystemInv_def)
  have "sorted (map (\<lambda>u. est_UpdatedAt (storedAfter u)) us)" if "successively follows us" for us
  proof -
    have trunc: "pgTime a \<le> pgTime b" if "pgTime a \<le> b" for a b
      using zdiv_mono1 [OF that, of 1000] by (simp add: pgTime_def)
    have order: "est_UpdatedAt (storedAfter u) \<le> est_UpdatedAt (storedAfter w)" if "follows u w" for u w
      using that trunc by (simp add: follows_def storedAfter_def pgEstimate_def)
    have "successively (\<lambda>u w. est_UpdatedAt (storedAfter u) \<le> est_UpdatedAt (storedAfter w)) us"
      by (rule successively_mono [OF that]) (rule order)
    moreover have "transp (\<lambda>u w. est_UpdatedAt (storedAfter u) \<le> est_UpdatedAt (storedAfter w))" by (rule transpI) simp
    ultimately show ?thesis by (simp only: sorted_map successively_conv_sorted_wrt)
  qed
  moreover have "successively follows (shadowHistory (sh_updates s) p m v)" for p m v
    using inv(2) by (simp add: ledgerInv_def shadowTables_def)
  ultimately show ?thesis using inv by blast
qed

lemma ProcessRatingShadowWork_Inr:
  assumes "ProcessRatingShadowWork Exp Log decode collate clock noFaults s claim t = (Inr n, s')"
  obtains skip s1 w where "RatingShadowClaim_Validate claim = None" "w \<in> set (db_shadow_work (sh_db s))" "holdsShadowLease clock claim w"
    "processShadowRoom Exp decode collate noFaults s (rsc_SourceID claim) = Inr (n, skip, s1) \<or>
     processShadowResult Exp Log decode collate noFaults s (rsc_SourceID claim) t = Inr (n, skip, s1)"
    "markWorkProcessed s1 claim t skip = Inr (1, s')"
proof -
  have v: "RatingShadowClaim_Validate claim = None" "t \<noteq> 0" using assms by (auto simp: ProcessRatingShadowWork_def split: option.splits if_splits)
  obtain skip s1 where lock: "lockRatingShadowClaim clock noFaults s claim = None"
      and work: "processShadowRoom Exp decode collate noFaults s (rsc_SourceID claim) = Inr (n, skip, s1) \<or>
        processShadowResult Exp Log decode collate noFaults s (rsc_SourceID claim) t = Inr (n, skip, s1)"
      and mark: "markWorkProcessed s1 claim t skip = Inr (1, s')"
    using assms v by (auto simp: ProcessRatingShadowWork_def tryTx_def split: option.splits if_splits sum.splits prod.splits)
  obtain w where w: "queryRow (filter (holdsShadowLease clock claim) (db_shadow_work (sh_db s))) = Inr w"
    using lock by (auto simp: lockRatingShadowClaim_def split: sum.splits if_splits)
  show ?thesis by (rule that [OF v(1) _ _ work mark, of w]) (use queryRow_Inr [OF w] in auto)
qed

lemma marked_no_lease:
  assumes "markWorkProcessed s claim t skip = Inr (n, s')" "w \<in> set (db_shadow_work (sh_db s'))"
  shows "\<not> holdsShadowLease clock claim w"
  using assms by (auto simp: markWorkProcessed_def updateWork_Inr holdsShadowLease_def isWork_def)

lemma processed_frame:
  assumes "processShadowRoom Exp decode collate noFaults s i = Inr (n, skip, s1) \<or> processShadowResult Exp Log decode collate noFaults s i t = Inr (n, skip, s1)"
    and "shadowTables (sh_states s) (sh_updates s)"
  shows "sh_db s1 = sh_db s \<and> sh_deployments s1 = sh_deployments s"
proof -
  have noDriver: "driverFaults noFaults" by (simp add: driverFaults_def noFaults_def)
  have frame: "sh_db s1 = sh_db s \<and> sh_deployments s1 = sh_deployments s"
    if "s1 = s\<lparr>sh_updates := us, sh_states := ss, sh_observations := xs\<rparr>" for us xs ss unfolding that by simp
  from assms(1) show ?thesis
  proof
    assume "processShadowRoom Exp decode collate noFaults s i = Inr (n, skip, s1)"
    from processShadowRoom_Inr [OF this] show ?thesis by auto
  next
    assume "processShadowResult Exp Log decode collate noFaults s i t = Inr (n, skip, s1)"
    from processShadowResult_Inr [OF this noDriver assms(2)] show ?thesis using frame by blast
  qed
qed

text \<open>
  C37. An item of shadow work is done at most once for a claim, and only while its lease runs: when processing answers with success, the claim held an unexpired lease on
  unprocessed work, no active table and no deployment was changed, and afterwards both processing the same claim again and postponing it, at any time, answer
  that the claim is lost and change nothing.
\<close>

theorem shadow_work_once:
  assumes "reachableShadow collate s" "ProcessRatingShadowWork Exp Log decode collate clock noFaults s claim t = (Inr n, s')" "t' \<noteq> 0"
  shows "(\<exists>w \<in> set (db_shadow_work (sh_db s)). holdsShadowLease clock claim w) \<and>
    sh_db s' = (sh_db s)\<lparr>db_shadow_work := db_shadow_work (sh_db s')\<rparr> \<and> sh_deployments s' = sh_deployments s \<and>
    ProcessRatingShadowWork Exp Log decode collate clock' noFaults s' claim t' = (Inl ErrRatingShadowClaimLost, s') \<and>
    ScheduleRatingShadowRetry clock' noFaults s' claim t' = (Some ErrRatingShadowClaimLost, s')"
proof -
  obtain skip s1 w where v: "RatingShadowClaim_Validate claim = None" and w: "w \<in> set (db_shadow_work (sh_db s))" "holdsShadowLease clock claim w"
      and work: "processShadowRoom Exp decode collate noFaults s (rsc_SourceID claim) = Inr (n, skip, s1) \<or>
        processShadowResult Exp Log decode collate noFaults s (rsc_SourceID claim) t = Inr (n, skip, s1)"
      and mark: "markWorkProcessed s1 claim t skip = Inr (1, s')"
    by (rule ProcessRatingShadowWork_Inr [OF assms(2)])
  have "shadowSystemInv collate s" using shadow.reachable_inv [of collate s] assms(1) by (simp add: reachableShadow_def)
  then have "shadowTables (sh_states s) (sh_updates s)" by (simp add: shadowSystemInv_def ledgerInv_def)
  from processed_frame [OF work this] have frame: "sh_db s1 = sh_db s" "sh_deployments s1 = sh_deployments s" by auto
  have "s' = s1\<lparr>sh_db := (sh_db s1)\<lparr>db_shadow_work := db_shadow_work (sh_db s')\<rparr>\<rparr>"
    using mark by (auto simp: markWorkProcessed_def updateWork_Inr)
  then have active: "sh_db s' = (sh_db s)\<lparr>db_shadow_work := db_shadow_work (sh_db s')\<rparr>" "sh_deployments s' = sh_deployments s"
    using frame by (metis ShadowStore.select_convs(1) ShadowStore.surjective ShadowStore.update_convs(1), metis ShadowStore.select_convs(4) ShadowStore.surjective ShadowStore.update_convs(1))
  have none: "filter (holdsShadowLease clock' claim) (db_shadow_work (sh_db s')) = []"
    using marked_no_lease [OF mark] by (simp add: filter_empty_conv)
  have "ProcessRatingShadowWork Exp Log decode collate clock' noFaults s' claim t' = (Inl ErrRatingShadowClaimLost, s')"
    using v none assms(3) by (simp add: ProcessRatingShadowWork_def lockRatingShadowClaim_def)
  moreover have "updateWork s' (holdsShadowLease clock' claim) change = Inr (0, s')" for change
  proof -
    have "map (\<lambda>w. if holdsShadowLease clock' claim w then change w else w) (db_shadow_work (sh_db s')) = db_shadow_work (sh_db s')"
      using none by (auto simp: filter_empty_conv intro: map_idI)
    then show ?thesis using none by (auto simp: updateWork_Inr filter_empty_conv)
  qed
  then have "ScheduleRatingShadowRetry clock' noFaults s' claim t' = (Some ErrRatingShadowClaimLost, s')"
    using v assms(3) by (simp add: ScheduleRatingShadowRetry_def)
  ultimately show ?thesis using w active by blast
qed

section \<open>A run\<close>

definition shadowSample :: ShadowStore where "shadowSample = emptyShadow\<lparr>sh_db := collectingDb\<rparr>"

definition shadowSampleClaimed :: "RatingShadowClaim option result \<times> ShadowStore" where
  "shadowSampleClaimed = ClaimNextRatingShadowWork strCompare noFaults shadowSample \<lparr>rcr_Token = ''w'', rcr_ClaimedAt = 8000, rcr_LeaseUntil = 20000\<rparr>"

definition shadowSampleClaim :: RatingShadowClaim where
  "shadowSampleClaim = \<lparr>rsc_Kind = ''room'', rsc_SourceID = ''r1'', rsc_Token = ''w'', rsc_Attempt = 1, rsc_LeaseUntil = 20000\<rparr>"

lemma serve_steps: "(storeStep collate)\<^sup>*\<^sup>* db db' \<Longrightarrow> (shadowStep collate)\<^sup>*\<^sup>* (s\<lparr>sh_db := db\<rparr>) (s\<lparr>sh_db := db'\<rparr>)"
proof (induction rule: rtranclp_induct)
  case (step y z)
  then have "shadowStep collate (s\<lparr>sh_db := y\<rparr>) (s\<lparr>sh_db := z\<rparr>)" using serves [of collate "s\<lparr>sh_db := y\<rparr>" z] by simp
  then show ?case using step.IH by (rule rtranclp.rtrancl_into_rtrancl [rotated])
qed simp

lemma shadowSample_reachable: "reachableShadow strCompare (snd shadowSampleClaimed)"
proof -
  have "emptyShadow = emptyShadow\<lparr>sh_db := emptyStore\<rparr>" by (simp add: emptyShadow_def)
  then have "(shadowStep strCompare)\<^sup>*\<^sup>* emptyShadow shadowSample"
    using serve_steps [of strCompare emptyStore collectingDb emptyShadow] collectingDb_reachable by (simp add: reachableStore_def shadowSample_def)
  moreover have "shadowStep strCompare shadowSample (snd shadowSampleClaimed)"
    unfolding shadowSampleClaimed_def by (rule claimsWork [OF prod.collapse [symmetric]])
  ultimately show ?thesis unfolding reachableShadow_def by (rule rtranclp.rtrancl_into_rtrancl)
qed

lemma shadowSample_eval:
  "queryRow (map (rmr_room_id \<circ> fst) (shadowRoomRow (snd shadowSampleClaimed) ''r1'')) = Inr ''r1''"
  "sh_deck_version (snd shadowSampleClaimed) ''r1'' = None"
  "lockRatingShadowClaim 9000 noFaults (snd shadowSampleClaimed) shadowSampleClaim = None"
  "fst shadowSampleClaimed = Inr (Some shadowSampleClaim)"
  "map_sum id fst (markWorkProcessed (snd shadowSampleClaimed) shadowSampleClaim 9000 ''deck_version_unavailable'') = Inr 1"
  by code_simp+

lemma shadowSample_process:
  "\<exists>s'. ProcessRatingShadowWork Exp Log decode strCompare 9000 noFaults (snd shadowSampleClaimed) shadowSampleClaim 9000 = (Inr 0, s')"
proof -
  obtain room config where "queryRow (shadowRoomRow (snd shadowSampleClaimed) ''r1'') = Inr (room, config)"
    using shadowSample_eval(1) by (cases "shadowRoomRow (snd shadowSampleClaimed) ''r1''") auto
  then have "processShadowRoom Exp decode strCompare noFaults (snd shadowSampleClaimed) ''r1'' = Inr (0, ''deck_version_unavailable'', snd shadowSampleClaimed)"
    using shadowSample_eval(2) by (simp add: processShadowRoom_def)
  moreover obtain s' where "markWorkProcessed (snd shadowSampleClaimed) shadowSampleClaim 9000 ''deck_version_unavailable'' = Inr (1, s')"
    using shadowSample_eval(5) by (cases "markWorkProcessed (snd shadowSampleClaimed) shadowSampleClaim 9000 ''deck_version_unavailable''") auto
  moreover have "RatingShadowClaim_Validate shadowSampleClaim = None" by (simp add: RatingShadowClaim_Validate_def shadowSampleClaim_def)
  ultimately show ?thesis
    using shadowSample_eval(3) by (auto simp: ProcessRatingShadowWork_def shadowSampleClaim_def)
qed

theorem shadow_ledger_witness: "storeInv strCompare (sh_db (snd shadowSampleClaimed)) \<and> ledgerInv (snd shadowSampleClaimed)"
  using shadow_ledger [OF shadowSample_reachable] by simp

theorem shadow_work_once_witness:
  "\<exists>s'. ProcessRatingShadowWork id id (\<lambda>_. Inl ErrNoRows) strCompare 9000 noFaults (snd shadowSampleClaimed) shadowSampleClaim 9000 = (Inr 0, s') \<and>
     ScheduleRatingShadowRetry 9500 noFaults s' shadowSampleClaim 12000 = (Some ErrRatingShadowClaimLost, s')"
  using shadowSample_process [of id id "\<lambda>_. Inl ErrNoRows"] shadow_work_once [OF shadowSample_reachable, of id id "\<lambda>_. Inl ErrNoRows" 9000 shadowSampleClaim 9000 0 _ 12000 9500]
  by auto

end
