(* ===== verification/Query_Store.thy ===== *)
theory Query_Store
  imports Worker_Composition
begin

text \<open>
  \<^verbatim>\<open>internal/postgres/queries.go\<close> with the views of \<^verbatim>\<open>internal/tournament/queries.go\<close>: the read-only queries for a room with its
  members and for the current rating of a player. The lemmas show that in every reachable store a room is answered with its members in the order of
  their seats, each with its own session, and that the rating is the most recent one.
\<close>

definition ErrRoomNotFound :: goerr where "ErrRoomNotFound = ErrorsNew ''room not found''"
definition ErrRatingNotFound :: goerr where "ErrRatingNotFound = ErrorsNew ''player rating not found''"

record RoomMember =
  rmm_TicketID :: string
  rmm_PlayerID :: string
  rmm_SessionID :: string
  rmm_Seat :: int
  rmm_Status :: SessionStatus
  rmm_AssignedAt :: time
  rmm_StartedAt :: "time option"
  rmm_SubmittedAt :: "time option"
  rmm_ForfeitedAt :: "time option"

record RoomState =
  rms_RoomID :: string
  rms_TournamentID :: string
  rms_TournamentVersion :: string
  rms_ModeID :: string
  rms_PolicyVersion :: string
  rms_RatingModelVersion :: string
  rms_ScoringRulesVersion :: string
  rms_SettlementVersion :: string
  rms_DeckID :: string
  rms_Capacity :: int
  rms_Status :: RoomStatus
  rms_AggregateVersion :: int
  rms_CreatedAt :: time
  rms_FillDeadline :: time
  rms_FilledAt :: "time option"
  rms_ResultDeadline :: "time option"
  rms_CompletedAt :: "time option"
  rms_ExpiredAt :: "time option"
  rms_CancelledAt :: "time option"
  rms_Members :: "RoomMember list"

record PlayerRating =
  pra_PlayerID :: string
  pra_ModeID :: string
  pra_Estimate :: Estimate
  pra_Revision :: int

text \<open>The two left joins, in the order of the seats; a room without members is one row of NULLs.\<close>

type_synonym roomRow = "RoomRow \<times> MembershipRow option \<times> SessionRow option"

definition joinSessions :: "Database \<Rightarrow> RoomRow \<Rightarrow> MembershipRow \<Rightarrow> roomRow list" where
  "joinSessions db r m =
     (case filter (\<lambda>s. sn_ticket_id s = mb_ticket_id m) (db_sessions db) of
        [] \<Rightarrow> [(r, Some m, None)] | ss \<Rightarrow> map (\<lambda>s. (r, Some m, Some s)) ss)"

definition joinMembers :: "Database \<Rightarrow> RoomRow \<Rightarrow> roomRow list" where
  "joinMembers db r =
     (case roomMembers db (rmr_room_id r) of [] \<Rightarrow> [(r, None, None)] | ms \<Rightarrow> concat (map (joinSessions db r) ms))"

definition rowSeat :: "roomRow \<Rightarrow> int" where
  "rowSeat = (\<lambda>(r, m, s). case m of None \<Rightarrow> 0 | Some m \<Rightarrow> mb_seat m)"

definition roomRows :: "Database \<Rightarrow> string \<Rightarrow> roomRow list" where
  "roomRows db roomID = sort_cmp (\<lambda>a b. rowSeat a - rowSeat b) (concat (map (joinMembers db) (filter (\<lambda>r. rmr_room_id r = roomID) (db_rooms db))))"

definition scanRoom :: "RoomRow \<Rightarrow> RoomMember list \<Rightarrow> RoomState" where
  "scanRoom r members =
     \<lparr>rms_RoomID = rmr_room_id r, rms_TournamentID = rmr_tournament_id r, rms_TournamentVersion = rmr_tournament_version r, rms_ModeID = rmr_mode_id r,
      rms_PolicyVersion = rmr_policy_version r, rms_RatingModelVersion = rmr_rating_model_version r,
      rms_ScoringRulesVersion = rmr_scoring_rules_version r, rms_SettlementVersion = rmr_settlement_version r, rms_DeckID = rmr_deck_id r,
      rms_Capacity = rmr_capacity r, rms_Status = rmr_status r, rms_AggregateVersion = rmr_aggregate_version r, rms_CreatedAt = rmr_created_at r,
      rms_FillDeadline = rmr_fill_deadline r, rms_FilledAt = rmr_filled_at r, rms_ResultDeadline = rmr_result_deadline r,
      rms_CompletedAt = rmr_completed_at r, rms_ExpiredAt = rmr_expired_at r, rms_CancelledAt = rmr_cancelled_at r, rms_Members = members\<rparr>"

definition scanMember :: "MembershipRow \<Rightarrow> SessionRow \<Rightarrow> RoomMember" where
  "scanMember m s =
     \<lparr>rmm_TicketID = mb_ticket_id m, rmm_PlayerID = mb_player_id m, rmm_SessionID = sn_session_id s, rmm_Seat = mb_seat m, rmm_Status = sn_status s,
      rmm_AssignedAt = mb_assigned_at m, rmm_StartedAt = sn_started_at s, rmm_SubmittedAt = sn_submitted_at s, rmm_ForfeitedAt = sn_forfeited_at s\<rparr>"

text \<open>The loop over the rows: the room columns overwrite the state, the members are appended. \<open>None\<close> is the state before \<^verbatim>\<open>found\<close>.\<close>

fun roomLoop :: "Faults \<Rightarrow> roomRow list \<Rightarrow> RoomState option \<Rightarrow> RoomState option result" where
  "roomLoop flt [] state = Inr state"
| "roomLoop flt ((r, m, s) # rows) state =
     rbind (wrapR ''scan room: %w'' [] (stmt flt ''scan room'' (Inr ()))) (\<lambda>_.
     let members = (case state of None \<Rightarrow> [] | Some x \<Rightarrow> rms_Members x) in
     case m of None \<Rightarrow> roomLoop flt rows (Some (scanRoom r members))
     | Some m \<Rightarrow> (case s of None \<Rightarrow> Inl (ErrorsNew ''room membership is missing its session'')
         | Some s \<Rightarrow> roomLoop flt rows (Some (scanRoom r (members @ [scanMember m s])))))"

definition GetRoom :: "Faults \<Rightarrow> Database \<Rightarrow> string \<Rightarrow> RoomState result" where
  "GetRoom flt db roomID =
     (if roomID = '''' then Inl (ErrorsNew ''room identity is required'')
      else rbind (wrapR ''read room: %w'' [] (stmt flt ''query room'' (Inr (roomRows db roomID)))) (\<lambda>rows.
        rbind (roomLoop flt rows None) (\<lambda>state.
        rbind (wrapR ''read room: %w'' [] (stmt flt ''read room'' (Inr ()))) (\<lambda>_.
        case state of None \<Rightarrow> Inl ErrRoomNotFound | Some state \<Rightarrow> Inr state))))"

definition compareRatingRows :: "collation \<Rightarrow> PlayerRatingRow \<Rightarrow> PlayerRatingRow \<Rightarrow> int" where
  "compareRatingRows collate a b =
     (if time_Compare (est_UpdatedAt (plr_estimate b)) (est_UpdatedAt (plr_estimate a)) \<noteq> 0
      then time_Compare (est_UpdatedAt (plr_estimate b)) (est_UpdatedAt (plr_estimate a))
      else if plr_revision b \<noteq> plr_revision a then plr_revision b - plr_revision a
      else collate (plr_model_version b) (plr_model_version a))"

definition GetRating :: "collation \<Rightarrow> Faults \<Rightarrow> Database \<Rightarrow> string \<Rightarrow> string \<Rightarrow> PlayerRating result" where
  "GetRating collate flt db playerID modeID =
     (if playerID = '''' \<or> modeID = '''' then Inl (ErrorsNew ''player and mode identities are required'')
      else case stmt flt ''query rating'' (queryRow (sort_cmp (compareRatingRows collate)
             (filter (\<lambda>r. plr_player_id r = playerID \<and> plr_mode_id r = modeID) (db_ratings db)))) of
          Inl err \<Rightarrow> if errors_Is err ErrNoRows then Inl ErrRatingNotFound else Inl (Errorf ''read player rating: %w'' [] (Some err))
        | Inr r \<Rightarrow> Inr \<lparr>pra_PlayerID = playerID, pra_ModeID = modeID, pra_Estimate = plr_estimate r, pra_Revision = plr_revision r\<rparr>)"

section \<open>What a query answers\<close>

lemma sort_cmp_keyed: "sort_cmp cmp (map g xs) = map g (sort_cmp (\<lambda>a b. cmp (g a) (g b)) xs)"
proof (induction xs)
  case (Cons x xs)
  have "insert_cmp cmp (g x) (map g ys) = map g (insert_cmp (\<lambda>a b. cmp (g a) (g b)) x ys)" for ys by (induction ys) auto
  then show ?case using Cons by simp
qed simp

definition sessionOf :: "Database \<Rightarrow> MembershipRow \<Rightarrow> SessionRow" where
  "sessionOf db m = hd (filter (\<lambda>s. sn_ticket_id s = mb_ticket_id m) (db_sessions db))"

lemma own_session:
  assumes "seatsInv db" "m \<in> set (db_memberships db)"
  shows "filter (\<lambda>s. sn_ticket_id s = mb_ticket_id m) (db_sessions db) = [sessionOf db m]"
proof -
  have keys: "map sessionKey (db_sessions db) = map membershipKey (db_memberships db)" "distinct (map mb_ticket_id (db_memberships db))"
    using assms(1) by (simp_all add: seatsInv_def)
  have "map (fst \<circ> sessionKey) (db_sessions db) = map (fst \<circ> membershipKey) (db_memberships db)" using keys(1) by (metis map_map)
  then have tickets: "map sn_ticket_id (db_sessions db) = map mb_ticket_id (db_memberships db)"
    by (simp add: sessionKey_def membershipKey_def comp_def)
  then have "mb_ticket_id m \<in> set (map sn_ticket_id (db_sessions db))" using assms(2) by simp
  then obtain s where "s \<in> set (db_sessions db)" "sn_ticket_id s = mb_ticket_id m" by auto
  then have "filter (\<lambda>s. sn_ticket_id s = mb_ticket_id m) (db_sessions db) = [s]"
    using filter_only [of sn_ticket_id "db_sessions db"] tickets keys(2) by simp
  then show ?thesis by (simp add: sessionOf_def)
qed

lemma concat_map_single: "(\<And>x. x \<in> set xs \<Longrightarrow> f x = [g x]) \<Longrightarrow> concat (map f xs) = map g xs"
  by (induction xs) auto

lemma joinMembers_sessions:
  assumes "seatsInv db" "roomMembers db (rmr_room_id r) \<noteq> []"
  shows "joinMembers db r = map (\<lambda>m. (r, Some m, Some (sessionOf db m))) (roomMembers db (rmr_room_id r))"
proof -
  have "joinSessions db r m = [(r, Some m, Some (sessionOf db m))]" if "m \<in> set (roomMembers db (rmr_room_id r))" for m
    using own_session [OF assms(1), of m] that by (simp add: joinSessions_def roomMembers_def)
  then have "concat (map (joinSessions db r) (roomMembers db (rmr_room_id r))) = map (\<lambda>m. (r, Some m, Some (sessionOf db m))) (roomMembers db (rmr_room_id r))"
    by (rule concat_map_single)
  then show ?thesis using assms(2) by (cases "roomMembers db (rmr_room_id r)") (simp_all add: joinMembers_def)
qed

lemma roomLoop_members:
  "ms \<noteq> [] \<Longrightarrow> roomLoop noFaults (map (\<lambda>m. (r, Some m, Some (f m))) ms) state =
     Inr (Some (scanRoom r ((case state of None \<Rightarrow> [] | Some x \<Rightarrow> rms_Members x) @ map (\<lambda>m. scanMember m (f m)) ms)))"
proof (induction ms arbitrary: state)
  case (Cons m ms)
  show ?case using Cons.IH by (cases "ms = []") (auto simp: scanRoom_def split: option.splits)
qed simp

definition seatOrder :: "MembershipRow list \<Rightarrow> MembershipRow list" where
  "seatOrder ms = sort_cmp (\<lambda>a b. mb_seat a - mb_seat b) ms"

lemma seatOrder_sorted: "sorted (map mb_seat (seatOrder ms))"
proof -
  have "go_compare (\<lambda>a b. mb_seat a - mb_seat b) UNIV" by unfold_locales auto
  from go_compare.sorted_sort_cmp [OF this, of ms] show ?thesis by (simp add: seatOrder_def sorted_map)
qed

lemma roomRows_single:
  assumes "roomsInv db" "r \<in> set (db_rooms db)"
  shows "roomRows db (rmr_room_id r) = sort_cmp (\<lambda>a b. rowSeat a - rowSeat b) (joinMembers db r)"
proof -
  have "filter (\<lambda>x. rmr_room_id x = rmr_room_id r) (db_rooms db) = [r]"
    by (rule filter_only) (use assms in \<open>auto simp: roomsInv_def\<close>)
  then show ?thesis by (simp add: roomRows_def)
qed

lemma GetRoom_found:
  assumes "roomsInv db" "seatsInv db" "r \<in> set (db_rooms db)"
  shows "GetRoom noFaults db (rmr_room_id r) =
    Inr (scanRoom r (map (\<lambda>m. scanMember m (sessionOf db m)) (seatOrder (roomMembers db (rmr_room_id r)))))"
proof -
  have "rmr_room_id r \<noteq> ''''" using assms(1,3) by (auto simp: roomsInv_def wellFilled_def roomChecks_def)
  moreover have "roomLoop noFaults (sort_cmp (\<lambda>a b. rowSeat a - rowSeat b) (joinMembers db r)) None =
      Inr (Some (scanRoom r (map (\<lambda>m. scanMember m (sessionOf db m)) (seatOrder (roomMembers db (rmr_room_id r))))))"
  proof (cases "roomMembers db (rmr_room_id r) = []")
    case True
    then show ?thesis by (simp add: joinMembers_def seatOrder_def)
  next
    case False
    then have "sort_cmp (\<lambda>a b. rowSeat a - rowSeat b) (joinMembers db r) =
        map (\<lambda>m. (r, Some m, Some (sessionOf db m))) (seatOrder (roomMembers db (rmr_room_id r)))"
      using joinMembers_sessions [OF assms(2)] by (simp add: sort_cmp_keyed rowSeat_def seatOrder_def)
    moreover have "seatOrder (roomMembers db (rmr_room_id r)) \<noteq> []" using False by (simp add: seatOrder_def)
    ultimately show ?thesis using roomLoop_members by simp
  qed
  ultimately show ?thesis by (simp add: GetRoom_def roomRows_single [OF assms(1,3)])
qed

text \<open>
  C36. In every reachable store a stored room is answered with its own columns and with all of its members, one for each membership with the
  session of that ticket, in the strict order of their seats; the answer is never that a member lacks its session. A room has fewer members than
  its capacity exactly while it is forming. Any other identity is answered with the not-found error.
\<close>

theorem GetRoom_complete:
  assumes "reachableStore collate db" "roomID \<noteq> ''''"
  shows "case GetRoom noFaults db roomID of
      Inl err \<Rightarrow> err = ErrRoomNotFound \<and> roomID \<notin> rmr_room_id ` set (db_rooms db)
    | Inr state \<Rightarrow> \<exists>r \<in> set (db_rooms db). rmr_room_id r = roomID \<and> state = scanRoom r (rms_Members state) \<and>
        sorted_wrt (<) (map rmm_Seat (rms_Members state)) \<and>
        (rms_Status state = RoomForming \<longleftrightarrow> int (length (rms_Members state)) < rms_Capacity state) \<and>
        set (rms_Members state) = {scanMember m s |m s. m \<in> set (db_memberships db) \<and> mb_room_id m = roomID \<and>
           s \<in> set (db_sessions db) \<and> sn_ticket_id s = mb_ticket_id m}"
proof (cases "roomID \<in> rmr_room_id ` set (db_rooms db)")
  case True
  then obtain r where r: "r \<in> set (db_rooms db)" "rmr_room_id r = roomID" by auto
  have inv: "roomsInv db" "seatsInv db" using reachable_storeInv [OF assms(1)] by (simp_all add: storeInv_def)
  let ?ms = "roomMembers db roomID"
  have answer: "GetRoom noFaults db roomID = Inr (scanRoom r (map (\<lambda>m. scanMember m (sessionOf db m)) (seatOrder ?ms)))"
    using GetRoom_found [OF inv r(1)] r(2) by simp
  have "distinct (map (\<lambda>m. (mb_room_id m, mb_seat m)) (db_memberships db))" using inv(2) by (simp add: seatsInv_def)
  then have "distinct (map mb_seat ?ms)" by (auto simp: roomMembers_def distinct_map inj_on_def)
  then have seats: "sorted_wrt (<) (map mb_seat (seatOrder ?ms))"
    using seatOrder_sorted [of ?ms] by (simp add: strict_sorted_iff seatOrder_def distinct_map_sort_cmp)
  have filled: "rmr_status r = RoomForming \<longleftrightarrow> int (length ?ms) < rmr_capacity r"
    using inv(1) r by (auto simp: roomsInv_def wellFilled_def)
  have own: "s \<in> set (db_sessions db) \<and> sn_ticket_id s = mb_ticket_id m \<longleftrightarrow> s = sessionOf db m" if "m \<in> set (db_memberships db)" for m s
    using arg_cong [OF own_session [OF inv(2) that], of "\<lambda>xs. s \<in> set xs"] by simp
  have joined: "set (map (\<lambda>m. scanMember m (sessionOf db m)) (seatOrder ?ms)) = {scanMember m s |m s. m \<in> set (db_memberships db) \<and> mb_room_id m = roomID \<and>
      s \<in> set (db_sessions db) \<and> sn_ticket_id s = mb_ticket_id m}"
  proof (intro set_eqI iffI)
    fix x
    assume "x \<in> set (map (\<lambda>m. scanMember m (sessionOf db m)) (seatOrder ?ms))"
    then obtain m where m: "m \<in> set (db_memberships db)" "mb_room_id m = roomID" "x = scanMember m (sessionOf db m)"
      by (auto simp: seatOrder_def roomMembers_def)
    then show "x \<in> {scanMember m s |m s. m \<in> set (db_memberships db) \<and> mb_room_id m = roomID \<and>
      s \<in> set (db_sessions db) \<and> sn_ticket_id s = mb_ticket_id m}" using own [OF m(1), of "sessionOf db m"] by blast
  next
    fix x
    assume "x \<in> {scanMember m s |m s. m \<in> set (db_memberships db) \<and> mb_room_id m = roomID \<and>
      s \<in> set (db_sessions db) \<and> sn_ticket_id s = mb_ticket_id m}"
    then obtain m s where m: "m \<in> set (db_memberships db)" "mb_room_id m = roomID" "x = scanMember m s"
      "s \<in> set (db_sessions db)" "sn_ticket_id s = mb_ticket_id m" by blast
    then have "s = sessionOf db m" using own [OF m(1), of s] by blast
    then show "x \<in> set (map (\<lambda>m. scanMember m (sessionOf db m)) (seatOrder ?ms))" using m by (simp add: seatOrder_def roomMembers_def)
  qed
  let ?members = "map (\<lambda>m. scanMember m (sessionOf db m)) (seatOrder ?ms)"
  have scanned: "rms_Members (scanRoom r ?members) = ?members" "rms_Status (scanRoom r ?members) = rmr_status r" "rms_Capacity (scanRoom r ?members) = rmr_capacity r"
    by (simp_all add: scanRoom_def)
  have "map rmm_Seat ?members = map mb_seat (seatOrder ?ms)" by (simp add: scanMember_def comp_def)
  moreover have "length ?members = length ?ms" by (simp add: seatOrder_def)
  ultimately show ?thesis unfolding answer sum.case scanned using r seats filled joined by (intro bexI [of _ r] conjI) (simp_all only:)
next
  case False
  then have "roomRows db roomID = []" by (auto simp: roomRows_def filter_empty_conv)
  then show ?thesis using False assms(2) by (simp add: GetRoom_def)
qed

theorem GetRoom_complete_witness:
  "\<exists>state. GetRoom noFaults collectingDb ''r1'' = Inr state \<and> sorted_wrt (<) (map rmm_Seat (rms_Members state)) \<and>
     map rmm_Seat (rms_Members state) = [1, 2, 3, 4, 5] \<and> rms_Status state \<noteq> RoomForming"
proof -
  have "map_sum id (\<lambda>s. (map rmm_Seat (rms_Members s), rms_Status s)) (GetRoom noFaults collectingDb ''r1'') = Inr ([1, 2, 3, 4, 5], RoomCollecting)"
    by code_simp
  then obtain state where "GetRoom noFaults collectingDb ''r1'' = Inr state" "map rmm_Seat (rms_Members state) = [1, 2, 3, 4, 5]" "rms_Status state = RoomCollecting"
    by (cases "GetRoom noFaults collectingDb ''r1''") auto
  then show ?thesis using GetRoom_complete [OF collectingDb_reachable, of "''r1''"] by auto
qed

text \<open>The rating is the latest of the player and mode: no row was updated later, and of those updated at the same time none has a higher revision.\<close>

lemma compareRatingRows_compare:
  assumes "go_compare collate UNIV"
  shows "go_compare (compareRatingRows collate) UNIV"
proof
  note anti = go_compare.cmp_antisym [OF assms, simplified] and trans = go_compare.cmp_trans [OF assms, simplified]
  show "(compareRatingRows collate x y \<le> 0) = (0 \<le> compareRatingRows collate y x)" for x y
    using anti [of "plr_model_version y" "plr_model_version x"] by (auto simp: compareRatingRows_def time_Compare_def)
  show "compareRatingRows collate x z \<le> 0" if "compareRatingRows collate x y \<le> 0" "compareRatingRows collate y z \<le> 0" for x y z
    using that trans [of "plr_model_version z" "plr_model_version y" "plr_model_version x"]
    by (auto simp: compareRatingRows_def time_Compare_def split: if_splits)
qed

lemma GetRating_latest:
  assumes "go_compare collate UNIV" "GetRating collate noFaults db playerID modeID = Inr current"
    and "r \<in> set (db_ratings db)" "plr_player_id r = playerID" "plr_mode_id r = modeID"
  shows "est_UpdatedAt (plr_estimate r) < est_UpdatedAt (pra_Estimate current) \<or>
    est_UpdatedAt (plr_estimate r) = est_UpdatedAt (pra_Estimate current) \<and> plr_revision r \<le> pra_Revision current"
proof -
  let ?rows = "filter (\<lambda>r. plr_player_id r = playerID \<and> plr_mode_id r = modeID) (db_ratings db)"
  have r: "r \<in> set ?rows" using assms(3-5) by simp
  then obtain x xs where x: "sort_cmp (compareRatingRows collate) ?rows = x # xs"
    by (metis empty_iff empty_set neq_Nil_conv sort_cmp_Nil_iff)
  have "compareRatingRows collate (hd (sort_cmp (compareRatingRows collate) ?rows)) r \<le> 0"
    by (rule go_compare.hd_sort_cmp_least [OF compareRatingRows_compare [OF assms(1)]]) (use r in \<open>auto simp: filter_empty_conv\<close>)
  moreover have "pra_Estimate current = plr_estimate x" "pra_Revision current = plr_revision x"
    using assms(2) by (auto simp: GetRating_def x split: if_splits)
  ultimately show ?thesis by (auto simp: x compareRatingRows_def time_Compare_def split: if_splits)
qed

end
