(* ===== verification/Http_Api.thy ===== *)
theory Http_Api
  imports Query_Store
begin

text \<open>
  The HTTP interface of \<^verbatim>\<open>internal/httpapi\<close>: the routes of the server with their bearer authorization, decoding, validation, calls of the services and the
  mapping of errors to statuses. A request is a method, the segments of its clean path (an unclean path is redirected before any handler runs),
  the headers the code reads, the values of the query parameter \<^verbatim>\<open>mode_id\<close> and a body. \<open>sha256\<close> is \<^verbatim>\<open>sha256.Sum256\<close>; \<open>decodeTicket\<close> and
  \<open>decodeResult\<close> are \<^verbatim>\<open>encoding/json\<close> with unknown fields disallowed on a body that is exactly one value. The random identities, the clock and the
  answer of the database ping are the environment of a request. The lemmas show who may change the store, and that a repeated request is
  answered as a replay.
\<close>

section \<open>Requests and responses\<close>

record request =
  rq_Method :: string
  rq_Path :: "string list"
  rq_Authorization :: string
  rq_IdempotencyKey :: string
  rq_ModeIDs :: "string list"
  rq_Body :: string

record acceptTicketRequest =
  atr_EntryID :: string
  atr_PlayerID :: string
  atr_TournamentID :: string
  atr_TournamentVersion :: string
  atr_RequestedAt :: time
  atr_SnapshotAt :: time
  atr_RatingSnapshot :: Estimate

record ticketResponse =
  tkp_TicketID :: string
  tkp_EntryID :: string
  tkp_PlayerID :: string
  tkp_TournamentID :: string
  tkp_TournamentVersion :: string
  tkp_Status :: TicketStatus
  tkp_RequestedAt :: time
  tkp_AssignedAt :: "time option"
  tkp_CancelledAt :: "time option"
  tkp_ExpiredAt :: "time option"
  tkp_SnapshotAt :: time
  tkp_RatingSnapshot :: Estimate
  tkp_AggregateVersion :: int

record ticketMutationResponse =
  tmp_Ticket :: ticketResponse
  tmp_Changed :: bool
  tmp_Replay :: bool

record assignmentResponse =
  asp_AssignmentID :: string
  asp_RoomID :: string
  asp_SessionID :: string
  asp_Seat :: int
  asp_AssignedAt :: time
  asp_TicketVersion :: int
  asp_RoomVersion :: int
  asp_RoomFilled :: bool
  asp_ResultDeadline :: "time option"

record ticketStateResponse =
  tsp_Ticket :: ticketResponse
  tsp_Assignment :: "assignmentResponse option"

text \<open>A room and a rating are written with the fields of \<open>RoomState\<close>, \<open>RoomMember\<close> and \<open>PlayerRating\<close> under their JSON names.\<close>

record roomMemberResponse =
  mbp_TicketID :: string
  mbp_PlayerID :: string
  mbp_SessionID :: string
  mbp_Seat :: int
  mbp_Status :: SessionStatus
  mbp_AssignedAt :: time
  mbp_StartedAt :: "time option"
  mbp_SubmittedAt :: "time option"
  mbp_ForfeitedAt :: "time option"

record roomResponse =
  rmp_RoomID :: string
  rmp_TournamentID :: string
  rmp_TournamentVersion :: string
  rmp_ModeID :: string
  rmp_PolicyVersion :: string
  rmp_RatingModelVersion :: string
  rmp_ScoringRulesVersion :: string
  rmp_SettlementVersion :: string
  rmp_DeckID :: string
  rmp_Capacity :: int
  rmp_Status :: RoomStatus
  rmp_AggregateVersion :: int
  rmp_CreatedAt :: time
  rmp_FillDeadline :: time
  rmp_FilledAt :: "time option"
  rmp_ResultDeadline :: "time option"
  rmp_CompletedAt :: "time option"
  rmp_ExpiredAt :: "time option"
  rmp_CancelledAt :: "time option"
  rmp_Members :: "roomMemberResponse list"

record ratingResponse =
  rtp_PlayerID :: string
  rtp_ModeID :: string
  rtp_Rating :: Estimate
  rtp_Revision :: int

datatype responseBody =
    ErrorBody string
  | StatusBody string
  | CapabilitiesBody
  | MetricsBody
  | MutationBody ticketMutationResponse
  | StateBody ticketStateResponse
  | ResultBody FinalizedResult
  | RoomBody roomResponse
  | RatingBody ratingResponse
  | TextBody string

type_synonym response = "int \<times> responseBody"

definition newTicketResponse :: "Ticket \<Rightarrow> ticketResponse" where
  "newTicketResponse ticket =
     \<lparr>tkp_TicketID = tk_ID ticket, tkp_EntryID = tk_EntryID ticket, tkp_PlayerID = tk_PlayerID ticket, tkp_TournamentID = tk_TournamentID ticket,
      tkp_TournamentVersion = tk_TournamentVersion ticket, tkp_Status = tk_Status ticket, tkp_RequestedAt = tk_RequestedAt ticket,
      tkp_AssignedAt = tk_AssignedAt ticket, tkp_CancelledAt = tk_CancelledAt ticket, tkp_ExpiredAt = tk_ExpiredAt ticket,
      tkp_SnapshotAt = tk_SnapshotAt ticket, tkp_RatingSnapshot = tk_RatingSnapshot ticket, tkp_AggregateVersion = tk_AggregateVersion ticket\<rparr>"

definition newTicketMutationResponse :: "TicketMutation \<Rightarrow> ticketMutationResponse" where
  "newTicketMutationResponse mutation =
     \<lparr>tmp_Ticket = newTicketResponse (tm_Ticket mutation), tmp_Changed = tm_Changed mutation, tmp_Replay = tm_Replay mutation\<rparr>"

definition newTicketStateResponse :: "TicketState \<Rightarrow> ticketStateResponse" where
  "newTicketStateResponse state =
     \<lparr>tsp_Ticket = newTicketResponse (ts_Ticket state),
      tsp_Assignment = map_option (\<lambda>a. \<lparr>asp_AssignmentID = as_AssignmentID a, asp_RoomID = as_RoomID a, asp_SessionID = as_SessionID a, asp_Seat = as_Seat a,
         asp_AssignedAt = as_AssignedAt a, asp_TicketVersion = as_TicketVersion a, asp_RoomVersion = as_RoomVersion a, asp_RoomFilled = as_RoomFilled a,
         asp_ResultDeadline = as_ResultDeadline a\<rparr>) (ts_Assignment state)\<rparr>"

definition newRoomResponse :: "RoomState \<Rightarrow> roomResponse" where
  "newRoomResponse state =
     \<lparr>rmp_RoomID = rms_RoomID state, rmp_TournamentID = rms_TournamentID state, rmp_TournamentVersion = rms_TournamentVersion state,
      rmp_ModeID = rms_ModeID state, rmp_PolicyVersion = rms_PolicyVersion state, rmp_RatingModelVersion = rms_RatingModelVersion state,
      rmp_ScoringRulesVersion = rms_ScoringRulesVersion state, rmp_SettlementVersion = rms_SettlementVersion state, rmp_DeckID = rms_DeckID state,
      rmp_Capacity = rms_Capacity state, rmp_Status = rms_Status state, rmp_AggregateVersion = rms_AggregateVersion state,
      rmp_CreatedAt = rms_CreatedAt state, rmp_FillDeadline = rms_FillDeadline state, rmp_FilledAt = rms_FilledAt state,
      rmp_ResultDeadline = rms_ResultDeadline state, rmp_CompletedAt = rms_CompletedAt state, rmp_ExpiredAt = rms_ExpiredAt state,
      rmp_CancelledAt = rms_CancelledAt state,
      rmp_Members = map (\<lambda>m. \<lparr>mbp_TicketID = rmm_TicketID m, mbp_PlayerID = rmm_PlayerID m, mbp_SessionID = rmm_SessionID m, mbp_Seat = rmm_Seat m,
         mbp_Status = rmm_Status m, mbp_AssignedAt = rmm_AssignedAt m, mbp_StartedAt = rmm_StartedAt m, mbp_SubmittedAt = rmm_SubmittedAt m,
         mbp_ForfeitedAt = rmm_ForfeitedAt m\<rparr>) (rms_Members state)\<rparr>"

section \<open>The server\<close>

record 's TicketManager =
  tmg_Accept :: "('s, AcceptTicketCommand, TicketMutation) storeOp"
  tmg_Cancel :: "('s, CancelTicketCommand, TicketMutation) storeOp"
  tmg_Get :: "('s, string, TicketState) storeOp"

record 's QueryReader =
  qrd_GetRoom :: "'s \<Rightarrow> string \<Rightarrow> RoomState result"
  qrd_GetRating :: "'s \<Rightarrow> string \<Rightarrow> string \<Rightarrow> PlayerRating result"

record Options =
  op_APIToken :: string
  op_ReadinessTimeout :: duration
  op_ShutdownTimeout :: duration

record 's Server =
  srv_tickets :: "'s TicketManager"
  srv_finalize :: "('s, FinalizeResultCommand, FinalizedResult) storeOp"
  srv_queries :: "'s QueryReader"
  srv_options :: Options

text \<open>The constructor; \<open>metricsHandler\<close> tells whether the metrics and their handler are present.\<close>

definition NewServer ::
    "'check option \<Rightarrow> 's TicketManager option \<Rightarrow> ('s, FinalizeResultCommand, FinalizedResult) storeOp option \<Rightarrow> 's QueryReader option \<Rightarrow> 'logger option
       \<Rightarrow> bool \<Rightarrow> Options \<Rightarrow> 's Server result" where
  "NewServer check tickets results queries logger metricsHandler opts =
     (case (check, tickets, results, queries, logger) of
        (Some c, Some t, Some r, Some q, Some l) \<Rightarrow>
          if length (op_APIToken opts) < 32 \<or> op_ReadinessTimeout opts \<le> 0 \<or> 5 * second < op_ReadinessTimeout opts \<or> op_ShutdownTimeout opts \<le> 0 \<or> \<not> metricsHandler
          then Inl (ErrorsNew ''invalid HTTP server options'')
          else Inr \<lparr>srv_tickets = t, srv_finalize = r, srv_queries = q, srv_options = opts\<rparr>
      | _ \<Rightarrow> Inl (ErrorsNew ''readiness checker, ticket manager, result finalizer, query reader and logger are required''))"

text \<open>What a request meets: random identities, the clock, the ping of the database, whether the server drains, the status of the metrics handler, and the decoders.\<close>

record httpEnv =
  he_ticketID :: string
  he_eventID :: string
  he_now :: time
  he_ping :: error
  he_draining :: bool
  he_metricsStatus :: int
  he_sha256 :: "string \<Rightarrow> string"
  he_decodeTicket :: "string \<Rightarrow> acceptTicketRequest option"
  he_decodeResult :: "string \<Rightarrow> FinalizeResultCommand option"

definition bearer :: string where "bearer = ''Bearer ''"

definition TrimPrefix :: "string \<Rightarrow> string \<Rightarrow> string" where
  "TrimPrefix s p = (if take (length p) s = p then drop (length p) s else s)"

definition authorize :: "httpEnv \<Rightarrow> Options \<Rightarrow> request \<Rightarrow> bool" where
  "authorize env opts r \<longleftrightarrow>
     take (length bearer) (rq_Authorization r) = bearer \<and>
     he_sha256 env (TrimPrefix (rq_Authorization r) bearer) = he_sha256 env (op_APIToken opts)"

definition unauthorized :: response where "unauthorized = (401, ErrorBody ''unauthorized'')"

definition maxTicketBodyBytes :: nat where "maxTicketBodyBytes = 2 ^ 20"
definition maxResultBodyBytes :: nat where "maxResultBodyBytes = 2 ^ 20"

text \<open>A body beyond the limit never ends in \<^verbatim>\<open>io.EOF\<close>.\<close>

definition decodeTicketRequest :: "httpEnv \<Rightarrow> request \<Rightarrow> acceptTicketRequest option" where
  "decodeTicketRequest env r = (if maxTicketBodyBytes < length (rq_Body r) then None else he_decodeTicket env (rq_Body r))"

definition respondTicketError :: "goerr \<Rightarrow> response" where
  "respondTicketError err =
     (if errors_Is err ErrTournamentNotFound then (404, ErrorBody ''tournament_not_found'')
      else if errors_Is err ErrTicketNotFound then (404, ErrorBody ''ticket_not_found'')
      else if errors_Is err ErrIdempotencyConflict then (409, ErrorBody ''idempotency_conflict'')
      else if errors_Is err ErrTicketNotQueued then (409, ErrorBody ''ticket_not_queued'')
      else (500, ErrorBody ''internal_error''))"

definition respondResultError :: "goerr \<Rightarrow> response" where
  "respondResultError err =
     (if errors_Is err ErrResultRoomNotFound then (404, ErrorBody ''room_not_found'')
      else if errors_Is err ErrResultConflict then (409, ErrorBody ''result_conflict'')
      else if errors_Is err ErrResultRoomNotCollecting then (409, ErrorBody ''room_not_collecting'')
      else if errors_Is err ErrResultDeadlinePassed then (409, ErrorBody ''result_deadline_passed'')
      else if errors_Is err ErrResultParticipantsMismatch then (409, ErrorBody ''participants_mismatch'')
      else (500, ErrorBody ''internal_error''))"

definition respondQueryError :: "goerr \<Rightarrow> response" where
  "respondQueryError err =
     (if errors_Is err ErrRoomNotFound then (404, ErrorBody ''room_not_found'')
      else if errors_Is err ErrRatingNotFound then (404, ErrorBody ''rating_not_found'')
      else (500, ErrorBody ''internal_error''))"

section \<open>Handlers\<close>

definition acceptCommand :: "httpEnv \<Rightarrow> acceptTicketRequest \<Rightarrow> AcceptTicketCommand" where
  "acceptCommand env request =
     \<lparr>atc_Ticket = \<lparr>tk_ID = he_ticketID env, tk_EntryID = atr_EntryID request, tk_PlayerID = atr_PlayerID request, tk_TournamentID = atr_TournamentID request,
        tk_TournamentVersion = atr_TournamentVersion request, tk_Status = TicketQueued, tk_RequestedAt = atr_RequestedAt request, tk_AssignedAt = None,
        tk_CancelledAt = None, tk_ExpiredAt = None, tk_SnapshotAt = atr_SnapshotAt request, tk_RatingSnapshot = atr_RatingSnapshot request,
        tk_AggregateVersion = 0\<rparr>, atc_EventID = he_eventID env\<rparr>"

definition postTicket :: "'s Server \<Rightarrow> httpEnv \<Rightarrow> request \<Rightarrow> 's \<Rightarrow> response \<times> 's" where
  "postTicket server env r store =
     (if \<not> authorize env (srv_options server) r then (unauthorized, store)
      else case decodeTicketRequest env r of None \<Rightarrow> ((400, ErrorBody ''invalid_ticket''), store)
        | Some request \<Rightarrow>
            (case AcceptTicketCommand_Validate (acceptCommand env request) of
               Some e \<Rightarrow> ((400, ErrorBody ''invalid_ticket''), store)
             | None \<Rightarrow>
                 (case tmg_Accept (srv_tickets server) store (acceptCommand env request) of
                    (Inl err, store) \<Rightarrow> (respondTicketError err, store)
                  | (Inr mutation, store) \<Rightarrow> ((if tm_Replay mutation then 200 else 201, MutationBody (newTicketMutationResponse mutation)), store))))"

definition getTicket :: "'s Server \<Rightarrow> httpEnv \<Rightarrow> request \<Rightarrow> string \<Rightarrow> 's \<Rightarrow> response \<times> 's" where
  "getTicket server env r ticketID store =
     (if \<not> authorize env (srv_options server) r then (unauthorized, store)
      else case tmg_Get (srv_tickets server) store ticketID of
          (Inl err, store) \<Rightarrow> (respondTicketError err, store)
        | (Inr state, store) \<Rightarrow> ((200, StateBody (newTicketStateResponse state)), store))"

definition deleteTicket :: "'s Server \<Rightarrow> httpEnv \<Rightarrow> request \<Rightarrow> string \<Rightarrow> 's \<Rightarrow> response \<times> 's" where
  "deleteTicket server env r ticketID store =
     (if \<not> authorize env (srv_options server) r then (unauthorized, store)
      else let command = \<lparr>ctc_TicketID = ticketID, ctc_CommandID = rq_IdempotencyKey r, ctc_EventID = he_eventID env, ctc_CancelledAt = he_now env\<rparr> in
        (case CancelTicketCommand_Validate command of
           Some e \<Rightarrow> ((400, ErrorBody ''invalid_cancellation''), store)
         | None \<Rightarrow>
             (case tmg_Cancel (srv_tickets server) store command of
                (Inl err, store) \<Rightarrow> (respondTicketError err, store)
              | (Inr mutation, store) \<Rightarrow> ((200, MutationBody (newTicketMutationResponse mutation)), store))))"

definition postResult :: "'s Server \<Rightarrow> httpEnv \<Rightarrow> request \<Rightarrow> 's \<Rightarrow> response \<times> 's" where
  "postResult server env r store =
     (if \<not> authorize env (srv_options server) r then (unauthorized, store)
      else case (if maxResultBodyBytes < length (rq_Body r) then None else he_decodeResult env (rq_Body r)) of
          None \<Rightarrow> ((400, ErrorBody ''invalid_result''), store)
        | Some decoded \<Rightarrow>
            let command = decoded\<lparr>frc_AcceptedAt := he_now env\<rparr> in
            (case FinalizeResultCommand_Validate command of
               Some e \<Rightarrow> ((400, ErrorBody ''invalid_result''), store)
             | None \<Rightarrow>
                 (case srv_finalize server store command of
                    (Inl err, store) \<Rightarrow> (respondResultError err, store)
                  | (Inr result, store) \<Rightarrow> ((if fr_Replay result then 200 else 201, ResultBody result), store))))"

definition getRoom :: "'s Server \<Rightarrow> httpEnv \<Rightarrow> request \<Rightarrow> string \<Rightarrow> 's \<Rightarrow> response" where
  "getRoom server env r roomID store =
     (if \<not> authorize env (srv_options server) r then unauthorized
      else case qrd_GetRoom (srv_queries server) store roomID of
          Inl err \<Rightarrow> respondQueryError err
        | Inr state \<Rightarrow> (200, RoomBody (newRoomResponse state)))"

definition getRating :: "'s Server \<Rightarrow> httpEnv \<Rightarrow> request \<Rightarrow> string \<Rightarrow> 's \<Rightarrow> response" where
  "getRating server env r playerID store =
     (if \<not> authorize env (srv_options server) r then unauthorized
      else case rq_ModeIDs r of
          [modeID] \<Rightarrow>
            if modeID = '''' then (400, ErrorBody ''invalid_rating_query'')
            else (case qrd_GetRating (srv_queries server) store playerID modeID of
                Inl err \<Rightarrow> respondQueryError err
              | Inr current \<Rightarrow> (200, RatingBody \<lparr>rtp_PlayerID = pra_PlayerID current, rtp_ModeID = pra_ModeID current,
                    rtp_Rating = pra_Estimate current, rtp_Revision = pra_Revision current\<rparr>))
        | _ \<Rightarrow> (400, ErrorBody ''invalid_rating_query''))"

definition getReady :: "httpEnv \<Rightarrow> response" where
  "getReady env =
     (if he_draining env then (503, StatusBody ''not_ready'')
      else if he_ping env \<noteq> None then (503, StatusBody ''not_ready'')
      else (200, StatusBody ''ready''))"

definition getProtected :: "httpEnv \<Rightarrow> Options \<Rightarrow> request \<Rightarrow> response \<Rightarrow> response" where
  "getProtected env opts r answer = (if authorize env opts r then answer else unauthorized)"

text \<open>
  The patterns registered with the mux; a pattern for GET also serves HEAD, and a wildcard stands for one segment that is not empty. A path that only other
  methods match is answered with 405, an unknown one with 404.
\<close>

datatype route =
    HealthRoute | ReadyRoute | CapabilitiesRoute | MetricsRoute | PostTicketRoute | GetTicketRoute string | DeleteTicketRoute string
  | PostResultRoute | GetRoomRoute string | GetRatingRoute string | MethodNotAllowed | Unmatched

fun itemRoutes :: "string list \<Rightarrow> (string \<times> route) list" where
  "itemRoutes [v, kind, i] =
     (if v \<noteq> ''v1'' \<or> i = '''' then []
      else if kind = ''tickets'' then [(''GET'', GetTicketRoute i), (''DELETE'', DeleteTicketRoute i)]
      else if kind = ''rooms'' then [(''GET'', GetRoomRoute i)]
      else if kind = ''ratings'' then [(''GET'', GetRatingRoute i)]
      else [])"
| "itemRoutes path = []"

definition pathRoutes :: "string list \<Rightarrow> (string \<times> route) list" where
  "pathRoutes path =
     (if path = [''healthz''] then [(''GET'', HealthRoute)]
      else if path = [''readyz''] then [(''GET'', ReadyRoute)]
      else if path = [''metrics''] then [(''GET'', MetricsRoute)]
      else if path = [''v1'', ''capabilities''] then [(''GET'', CapabilitiesRoute)]
      else if path = [''v1'', ''tickets''] then [(''POST'', PostTicketRoute)]
      else if path = [''v1'', ''results''] then [(''POST'', PostResultRoute)]
      else itemRoutes path)"

definition muxRoute :: "request \<Rightarrow> route" where
  "muxRoute r =
     (let routes = pathRoutes (rq_Path r); verb = (if rq_Method r = ''HEAD'' then ''GET'' else rq_Method r) in
      if routes = [] then Unmatched
      else case map_of routes verb of None \<Rightarrow> MethodNotAllowed | Some route \<Rightarrow> route)"

fun dispatch :: "'s Server \<Rightarrow> httpEnv \<Rightarrow> request \<Rightarrow> route \<Rightarrow> 's \<Rightarrow> response \<times> 's" where
  "dispatch server env r HealthRoute store = ((200, StatusBody ''ok''), store)"
| "dispatch server env r ReadyRoute store = (getReady env, store)"
| "dispatch server env r CapabilitiesRoute store = (getProtected env (srv_options server) r (200, CapabilitiesBody), store)"
| "dispatch server env r MetricsRoute store = (getProtected env (srv_options server) r (he_metricsStatus env, MetricsBody), store)"
| "dispatch server env r PostTicketRoute store = postTicket server env r store"
| "dispatch server env r (GetTicketRoute i) store = getTicket server env r i store"
| "dispatch server env r (DeleteTicketRoute i) store = deleteTicket server env r i store"
| "dispatch server env r PostResultRoute store = postResult server env r store"
| "dispatch server env r (GetRoomRoute i) store = (getRoom server env r i store, store)"
| "dispatch server env r (GetRatingRoute i) store = (getRating server env r i store, store)"
| "dispatch server env r MethodNotAllowed store = ((405, TextBody ''Method Not Allowed''), store)"
| "dispatch server env r Unmatched store = ((404, TextBody ''404 page not found''), store)"

text \<open>The pattern a request is counted under: its path with the wildcards, never an identity of a player.\<close>

fun routePattern :: "route \<Rightarrow> string" where
  "routePattern HealthRoute = ''/healthz''"
| "routePattern ReadyRoute = ''/readyz''"
| "routePattern CapabilitiesRoute = ''/v1/capabilities''"
| "routePattern MetricsRoute = ''/metrics''"
| "routePattern PostTicketRoute = ''/v1/tickets''"
| "routePattern (GetTicketRoute i) = ''/v1/tickets/{ticket_id}''"
| "routePattern (DeleteTicketRoute i) = ''/v1/tickets/{ticket_id}''"
| "routePattern PostResultRoute = ''/v1/results''"
| "routePattern (GetRoomRoute i) = ''/v1/rooms/{room_id}''"
| "routePattern (GetRatingRoute i) = ''/v1/ratings/{player_id}''"
| "routePattern MethodNotAllowed = ''unmatched''"
| "routePattern Unmatched = ''unmatched''"

record httpObservation =
  hob_Method :: string
  hob_Route :: string
  hob_Status :: int

definition serveRequest :: "'s Server \<Rightarrow> httpEnv \<Rightarrow> request \<Rightarrow> 's \<Rightarrow> (response \<times> httpObservation) \<times> 's" where
  "serveRequest server env r store =
     (case dispatch server env r (muxRoute r) store of (answer, store) \<Rightarrow>
        ((answer, \<lparr>hob_Method = rq_Method r, hob_Route = routePattern (muxRoute r), hob_Status = fst answer\<rparr>), store))"

section \<open>The server on the PostgreSQL stores\<close>

definition postgresServer ::
    "collation \<Rightarrow> string list \<Rightarrow> (digestInput \<Rightarrow> string result) \<Rightarrow> (string \<Rightarrow> string) \<Rightarrow> storeEnv \<Rightarrow> Options \<Rightarrow> Database Server" where
  "postgresServer collate locked digest hash env opts =
     \<lparr>srv_tickets = \<lparr>tmg_Accept = TicketService_Accept (TicketStore digest (se_clock env ''accept'') (se_faults env ''accept'')),
        tmg_Cancel = TicketService_Cancel (TicketStore digest (se_clock env ''cancel'') (se_faults env ''cancel'')),
        tmg_Get = TicketService_Get (TicketStore digest (se_clock env ''get'') (se_faults env ''get''))\<rparr>,
      srv_finalize = ResultService_Finalize (ResultStore collate locked digest hash (se_faults env ''finalize'')),
      srv_queries = \<lparr>qrd_GetRoom = GetRoom (se_faults env ''room''), qrd_GetRating = GetRating collate (se_faults env ''rating'')\<rparr>,
      srv_options = opts\<rparr>"

lemma GetTicket_same: "snd (GetTicket flt db i) = db"
  by (auto simp: GetTicket_def tryTx_def split: sum.splits)

lemma guardOp_cases: "guardOp validate operation db c = operation db c \<or> snd (guardOp validate operation db c) = db"
  by (auto simp: guardOp_def split: option.splits)

text \<open>A request is at most one step of the store, and only an authorized one on a writing route takes a step.\<close>

definition writingRoute :: "route \<Rightarrow> bool" where
  "writingRoute route \<longleftrightarrow> route = PostTicketRoute \<or> route = PostResultRoute \<or> (\<exists>i. route = DeleteTicketRoute i)"

text \<open>Each writing handler leaves the store as the service it calls leaves it, or unchanged.\<close>

definition passes :: "bool \<Rightarrow> ('s, 'c, 'r) storeOp \<Rightarrow> 's \<Rightarrow> 's \<Rightarrow> bool" where
  "passes allowed operation store store' \<longleftrightarrow> store' = store \<or> allowed \<and> (\<exists>c. store' = snd (operation store c))"

lemma passes_case:
  assumes "\<And>err s. snd (f (Inl err, s)) = s" "\<And>x s. snd (f (Inr x, s)) = s" allowed
  shows "passes allowed operation store (snd (f (operation store c)))"
proof -
  have "snd (f (operation store c)) = snd (operation store c)" by (cases "operation store c"; cases "fst (operation store c)") (simp_all add: assms(1,2))
  then show ?thesis using assms(3) by (auto simp: passes_def)
qed

lemma passes_same [simp]: "passes allowed operation store store" by (simp add: passes_def)

lemma postTicket_passes: "passes (authorize env (srv_options server) r) (tmg_Accept (srv_tickets server)) store (snd (postTicket server env r store))"
  by (auto simp: postTicket_def split: option.splits intro!: passes_case)

lemma deleteTicket_passes: "passes (authorize env (srv_options server) r) (tmg_Cancel (srv_tickets server)) store (snd (deleteTicket server env r i store))"
  by (auto simp: deleteTicket_def Let_def split: option.splits intro!: passes_case)

lemma postResult_passes: "passes (authorize env (srv_options server) r) (srv_finalize server) store (snd (postResult server env r store))"
  by (auto simp: postResult_def Let_def split: option.splits intro!: passes_case)

lemma getTicket_passes: "passes True (tmg_Get (srv_tickets server)) store (snd (getTicket server env r i store))"
  by (auto simp: getTicket_def intro!: passes_case)

text \<open>What a registered route says of the method and the path.\<close>

definition routeOf :: "string \<Rightarrow> string list \<Rightarrow> route \<Rightarrow> bool" where
  "routeOf verb path route \<longleftrightarrow>
     (route = PostTicketRoute \<longrightarrow> verb = ''POST'' \<and> path = [''v1'', ''tickets'']) \<and> (route = PostResultRoute \<longrightarrow> verb = ''POST'' \<and> path = [''v1'', ''results'']) \<and>
     (\<forall>i. route = DeleteTicketRoute i \<longrightarrow> verb = ''DELETE'' \<and> i \<noteq> '''' \<and> path = [''v1'', ''tickets'', i]) \<and>
     (route = HealthRoute \<longrightarrow> hd path = ''healthz'') \<and> (route = ReadyRoute \<longrightarrow> hd path = ''readyz'')"

lemma itemRoutes_elem: "(verb, route) \<in> set (itemRoutes path) \<Longrightarrow> routeOf verb path route"
  by (induction path rule: itemRoutes.induct) (auto simp: routeOf_def split: if_splits)

lemma pathRoutes_elem:
  assumes "(verb, route) \<in> set (pathRoutes path)"
  shows "routeOf verb path route"
proof (cases "path \<in> {[''healthz''], [''readyz''], [''metrics''], [''v1'', ''capabilities''], [''v1'', ''tickets''], [''v1'', ''results'']}")
  case True
  then show ?thesis using assms unfolding insert_iff empty_iff by (elim disjE) (simp_all add: pathRoutes_def routeOf_def)
next
  case False
  then have "pathRoutes path = itemRoutes path" unfolding insert_iff de_Morgan_disj pathRoutes_def by (simp only: if_False)
  then show ?thesis using assms itemRoutes_elem by metis
qed

lemma muxRoute_elem:
  assumes "muxRoute r = route" "route \<noteq> MethodNotAllowed" "route \<noteq> Unmatched"
  shows "(if rq_Method r = ''HEAD'' then ''GET'' else rq_Method r, route) \<in> set (pathRoutes (rq_Path r))"
  using assms unfolding muxRoute_def Let_def by (cases "pathRoutes (rq_Path r) = []") (auto dest: map_of_SomeD simp del: char.simps split: option.splits)

lemma serve_effect:
  assumes "serveRequest (postgresServer collate locked digest hash env opts) henv r db = (answer, db')" "db' \<noteq> db"
  shows "authorize henv opts r \<and> writingRoute (muxRoute r) \<and> storeStep collate db db'"
proof -
  let ?server = "postgresServer collate locked digest hash env opts"
  have d: "snd (dispatch ?server henv r (muxRoute r) db) = db'" using assms(1) by (auto simp: serveRequest_def split: prod.splits)
  have stepA: "storeStep collate db (snd (AcceptTicket digest flt db c))" for flt c by (rule accepts [OF prod.collapse [symmetric]])
  have stepC: "storeStep collate db (snd (CancelTicket digest flt db c))" for flt c by (rule cancels [OF prod.collapse [symmetric]])
  have stepF: "storeStep collate db (snd (FinalizeResult collate digest hash flt db c))" for flt c by (rule finalizes [OF prod.collapse [symmetric]])
  have ticket: "storeStep collate db (snd (TicketService_Accept (TicketStore digest t flt) db c))" if "snd (TicketService_Accept (TicketStore digest t flt) db c) \<noteq> db" for t flt c
    using that stepA [of flt c] guardOp_cases [of AcceptTicketCommand_Validate "AcceptTicket digest flt" db c]
    by (auto simp: TicketService_Accept_def TicketStore_def)
  have cancel: "storeStep collate db (snd (TicketService_Cancel (TicketStore digest t flt) db c))" if "snd (TicketService_Cancel (TicketStore digest t flt) db c) \<noteq> db" for t flt c
    using that stepC [of flt c] guardOp_cases [of CancelTicketCommand_Validate "CancelTicket digest flt" db c]
    by (auto simp: TicketService_Cancel_def TicketStore_def)
  have result: "storeStep collate db (snd (ResultService_Finalize (ResultStore collate locked digest hash flt) db c))"
    if "snd (ResultService_Finalize (ResultStore collate locked digest hash flt) db c) \<noteq> db" for flt c
    using that stepF [of flt c] guardOp_cases [of FinalizeResultCommand_Validate "FinalizeResult collate digest hash flt" db c]
    by (auto simp: ResultService_Finalize_def ResultStore_def)
  have get: "snd (TicketService_Get (TicketStore digest t flt) db i) = db" for t flt i
    by (auto simp: TicketService_Get_def TicketStore_def GetTicket_same guardOp_def split: option.splits)
  show ?thesis
  proof (cases "muxRoute r")
    case PostTicketRoute
    then show ?thesis using d assms(2) ticket postTicket_passes [of henv ?server r db]
      by (auto simp: passes_def postgresServer_def writingRoute_def)
  next
    case (DeleteTicketRoute i)
    then show ?thesis using d assms(2) cancel deleteTicket_passes [of henv ?server r db i]
      by (auto simp: passes_def postgresServer_def writingRoute_def)
  next
    case PostResultRoute
    then show ?thesis using d assms(2) result postResult_passes [of henv ?server r db]
      by (auto simp: passes_def postgresServer_def writingRoute_def)
  next
    case (GetTicketRoute i)
    then show ?thesis using d assms(2) get getTicket_passes [of ?server db henv r i]
      by (auto simp: passes_def postgresServer_def)
  qed (use d assms(2) in simp_all)
qed


text \<open>The command of a repeated body differs only in the fresh identities, which neither the validation nor the digest looks at.\<close>

lemma acceptCommand_digest:
  assumes "he_ticketID henv \<noteq> ''''" "he_eventID henv \<noteq> ''''" "he_ticketID henv' \<noteq> ''''" "he_eventID henv' \<noteq> ''''"
  shows "AcceptTicketCommand_RequestDigest digest (acceptCommand henv' q) = AcceptTicketCommand_RequestDigest digest (acceptCommand henv q)"
    and "AcceptTicketCommand_Validate (acceptCommand henv' q) = AcceptTicketCommand_Validate (acceptCommand henv q)"
proof -
  show valid: "AcceptTicketCommand_Validate (acceptCommand henv' q) = AcceptTicketCommand_Validate (acceptCommand henv q)"
    using assms by (simp add: AcceptTicketCommand_Validate_def acceptCommand_def Let_def)
  show "AcceptTicketCommand_RequestDigest digest (acceptCommand henv' q) = AcceptTicketCommand_RequestDigest digest (acceptCommand henv q)"
    unfolding AcceptTicketCommand_RequestDigest_def valid by (simp add: acceptCommand_def)
qed

lemma muxRoute_postTicket: "rq_Method r = ''POST'' \<Longrightarrow> rq_Path r = [''v1'', ''tickets''] \<Longrightarrow> muxRoute r = PostTicketRoute"
  by (simp add: muxRoute_def pathRoutes_def)

text \<open>A ticket is answered only when the request was authorized, decoded, validated and accepted by the store.\<close>

lemma postTicket_answered:
  assumes "postTicket (postgresServer collate locked digest hash env opts) henv r db = ((status, MutationBody body), db1)"
  obtains q m where "authorize henv opts r" "decodeTicketRequest henv r = Some q" "AcceptTicketCommand_Validate (acceptCommand henv q) = None"
    "AcceptTicket digest (se_faults env ''accept'') db (acceptCommand henv q) = (Inr m, db1)" "body = newTicketMutationResponse m"
proof -
  let ?server = "postgresServer collate locked digest hash env opts"
  have authorized: "authorize henv opts r" using assms by (auto simp: postTicket_def postgresServer_def unauthorized_def split: if_splits)
  moreover obtain q where q: "decodeTicketRequest henv r = Some q" using assms authorized by (auto simp: postTicket_def postgresServer_def split: option.splits)
  moreover have valid: "AcceptTicketCommand_Validate (acceptCommand henv q) = None"
    using assms authorized q by (auto simp: postTicket_def postgresServer_def split: option.splits)
  moreover have "(case AcceptTicket digest (se_faults env ''accept'') db (acceptCommand henv q) of
      (Inl err, s) \<Rightarrow> (respondTicketError err, s) | (Inr m, s) \<Rightarrow> ((if tm_Replay m then 200 else 201, MutationBody (newTicketMutationResponse m)), s))
      = ((status, MutationBody body), db1)"
    using assms authorized q valid by (simp add: postTicket_def postgresServer_def TicketService_Accept_def TicketStore_def guardOp_def)
  then obtain m where "AcceptTicket digest (se_faults env ''accept'') db (acceptCommand henv q) = (Inr m, db1)" "body = newTicketMutationResponse m"
    by (auto simp: respondTicketError_def split: prod.splits sum.splits if_splits)
  ultimately show ?thesis using that by blast
qed

text \<open>
  C16. A client that repeats the POST of a ticket gets the same ticket: once the server has answered such a request with a ticket, then, whatever the service has
  done in between, the same request with other random identities is answered with 200 and the identity of the first ticket, marked as a replay, and
  changes nothing. The second request must reach a database that answers; the first may have met any failure that still let it answer.
\<close>

theorem post_ticket_replayed:
  assumes "reachableStore collate db" "rq_Method r = ''POST''" "rq_Path r = [''v1'', ''tickets'']"
    and first: "serveRequest (postgresServer collate locked digest hash env opts) henv r db = (((status, MutationBody body), seen), db1)"
    and "(storeStep collate)\<^sup>*\<^sup>* db1 db2" "se_faults env' ''accept'' = noFaults"
    and same: "he_sha256 henv' = he_sha256 henv" "he_decodeTicket henv' = he_decodeTicket henv"
    and fresh: "he_ticketID henv \<noteq> ''''" "he_eventID henv \<noteq> ''''" "he_ticketID henv' \<noteq> ''''" "he_eventID henv' \<noteq> ''''"
  shows "\<exists>again. serveRequest (postgresServer collate locked' digest hash env' opts) henv' r db2 =
      (((200, MutationBody again), \<lparr>hob_Method = ''POST'', hob_Route = ''/v1/tickets'', hob_Status = 200\<rparr>), db2) \<and>
    tkp_TicketID (tmp_Ticket again) = tkp_TicketID (tmp_Ticket body) \<and> tmp_Replay again \<and> \<not> tmp_Changed again"
proof -
  note route = muxRoute_postTicket [OF assms(2,3)]
  have "postTicket (postgresServer collate locked digest hash env opts) henv r db = ((status, MutationBody body), db1)"
    using first by (auto simp: serveRequest_def route split: prod.splits)
  then obtain q m where q: "authorize henv opts r" "decodeTicketRequest henv r = Some q" "AcceptTicketCommand_Validate (acceptCommand henv q) = None"
    and m: "AcceptTicket digest (se_faults env ''accept'') db (acceptCommand henv q) = (Inr m, db1)" "body = newTicketMutationResponse m"
    by (rule postTicket_answered)
  obtain t where t: "AcceptTicket digest noFaults db2 (acceptCommand henv' q) = (Inr \<lparr>tm_Ticket = t, tm_Changed = False, tm_Replay = True\<rparr>, db2)"
      "tk_ID t = tk_ID (tm_Ticket m)"
    using accepted_again [OF assms(1) m(1) assms(5) acceptCommand_digest(1) [OF fresh]] by (auto simp: acceptCommand_def)
  have "authorize henv' opts r" "decodeTicketRequest henv' r = Some q" "AcceptTicketCommand_Validate (acceptCommand henv' q) = None"
    using q same acceptCommand_digest(2) [OF fresh] by (simp_all add: authorize_def decodeTicketRequest_def split: if_splits)
  then have "postTicket (postgresServer collate locked' digest hash env' opts) henv' r db2 =
      ((200, MutationBody (newTicketMutationResponse \<lparr>tm_Ticket = t, tm_Changed = False, tm_Replay = True\<rparr>)), db2)"
    using t(1) assms(6) by (simp add: postTicket_def postgresServer_def TicketService_Accept_def TicketStore_def guardOp_def)
  then show ?thesis
    using m(2) t(2) by (simp add: serveRequest_def route assms(2) newTicketMutationResponse_def newTicketResponse_def)
qed

section \<open>Witnesses\<close>

definition sampleOptions :: Options where
  "sampleOptions = \<lparr>op_APIToken = replicate 32 CHR ''k'', op_ReadinessTimeout = second, op_ShutdownTimeout = second\<rparr>"

definition sampleAcceptRequest :: acceptTicketRequest where
  "sampleAcceptRequest = \<lparr>atr_EntryID = ''entry1'', atr_PlayerID = ''ann'', atr_TournamentID = ''t'', atr_TournamentVersion = ''1'', atr_RequestedAt = 5000,
     atr_SnapshotAt = 4000, atr_RatingSnapshot = tk_RatingSnapshot (sampleTicket ''tk1'')\<rparr>"

definition sampleHttp :: "string \<Rightarrow> string \<Rightarrow> httpEnv" where
  "sampleHttp ticketID eventID = \<lparr>he_ticketID = ticketID, he_eventID = eventID, he_now = 6000, he_ping = None, he_draining = False, he_metricsStatus = 200,
     he_sha256 = (\<lambda>s. s), he_decodeTicket = (\<lambda>s. if s = ''{entry1}'' then Some sampleAcceptRequest else None), he_decodeResult = (\<lambda>_. None)\<rparr>"

definition samplePost :: request where
  "samplePost = \<lparr>rq_Method = ''POST'', rq_Path = [''v1'', ''tickets''], rq_Authorization = ''Bearer '' @ replicate 32 CHR ''k'', rq_IdempotencyKey = '''',
     rq_ModeIDs = [], rq_Body = ''{entry1}''\<rparr>"

definition quietStores :: storeEnv where "quietStores = \<lparr>se_faults = (\<lambda>_. noFaults), se_clock = (\<lambda>_. 0)\<rparr>"

definition sampleServer :: "Database Server" where
  "sampleServer = postgresServer strCompare [] sampleDigest (\<lambda>_. '''') quietStores sampleOptions"

definition postedDb :: Database where "postedDb = snd (serveRequest sampleServer (sampleHttp ''tk1'' ''e1'') samplePost sampleDb0)"

lemma samplePost_accepted:
  obtains body seen where "serveRequest sampleServer (sampleHttp ''tk1'' ''e1'') samplePost sampleDb0 = (((201, MutationBody body), seen), postedDb)"
    "tkp_TicketID (tmp_Ticket body) = ''tk1''" "map tkr_id (db_tickets postedDb) = [''tk1'']"
proof -
  let ?env = "sampleHttp ''tk1'' ''e1''"
  have "map_prod (map_sum id (\<lambda>m. (tk_ID (tm_Ticket m), tm_Replay m))) (\<lambda>d. map tkr_id (db_tickets d))
      (AcceptTicket sampleDigest noFaults sampleDb0 (acceptCommand ?env sampleAcceptRequest)) = (Inr (''tk1'', False), [''tk1''])"
    by code_simp
  then obtain m d where m: "AcceptTicket sampleDigest noFaults sampleDb0 (acceptCommand ?env sampleAcceptRequest) = (Inr m, d)"
      "tk_ID (tm_Ticket m) = ''tk1''" "\<not> tm_Replay m" "map tkr_id (db_tickets d) = [''tk1'']"
    by (cases "AcceptTicket sampleDigest noFaults sampleDb0 (acceptCommand ?env sampleAcceptRequest)") (auto simp: map_sum_def split: sum.splits)
  have "authorize ?env sampleOptions samplePost" "decodeTicketRequest ?env samplePost = Some sampleAcceptRequest"
    by (simp_all add: authorize_def decodeTicketRequest_def maxTicketBodyBytes_def TrimPrefix_def bearer_def sampleHttp_def samplePost_def sampleOptions_def)
  moreover have "AcceptTicketCommand_Validate (acceptCommand ?env sampleAcceptRequest) = None"
    by (simp add: AcceptTicketCommand_Validate_def acceptCommand_def sampleAcceptRequest_def sampleHttp_def sampleTicket_def Estimate_Validate_None Let_def)
  moreover have "muxRoute samplePost = PostTicketRoute" by (rule muxRoute_postTicket) (simp_all add: samplePost_def)
  ultimately have "serveRequest sampleServer ?env samplePost sampleDb0 = (((201, MutationBody (newTicketMutationResponse m)),
      \<lparr>hob_Method = rq_Method samplePost, hob_Route = ''/v1/tickets'', hob_Status = 201\<rparr>), d)"
    using m by (simp add: serveRequest_def sampleServer_def postTicket_def postgresServer_def quietStores_def TicketService_Accept_def TicketStore_def guardOp_def)
  then show ?thesis using that m by (simp add: postedDb_def newTicketMutationResponse_def newTicketResponse_def)
qed


theorem post_ticket_replayed_witness:
  "\<exists>again. serveRequest sampleServer (sampleHttp ''tk9'' ''e9'') samplePost postedDb =
     (((200, MutationBody again), \<lparr>hob_Method = ''POST'', hob_Route = ''/v1/tickets'', hob_Status = 200\<rparr>), postedDb) \<and>
   tkp_TicketID (tmp_Ticket again) = ''tk1''"
proof -
  obtain body seen where posted: "serveRequest sampleServer (sampleHttp ''tk1'' ''e1'') samplePost sampleDb0 = (((201, MutationBody body), seen), postedDb)"
    and body: "tkp_TicketID (tmp_Ticket body) = ''tk1''" by (rule samplePost_accepted)
  show ?thesis
    using post_ticket_replayed [OF sampleDb0_reachable _ _ posted [unfolded sampleServer_def] rtranclp.rtrancl_refl, of quietStores "sampleHttp ''tk9'' ''e9''"] body
    by (auto simp: samplePost_def sampleHttp_def quietStores_def sampleServer_def)
qed

end
