(* ===== verification/Application.thy ===== *)
theory Application
  imports Service_Config Shadow_Worker Http_Api
begin

text \<open>
  The start of the process: \<^verbatim>\<open>internal/postgres/pool.go\<close>, the constructors of the stores, and \<^verbatim>\<open>internal/application/run.go\<close> up to the moment the workers
  run and the server listens, below \<^verbatim>\<open>cmd/server/main.go\<close>. The options of the server and of the five workers are built from
  the process configuration the way \<^verbatim>\<open>Run\<close> builds them, and every constructor checks them again. What is not of this repository is a field of
  \<open>processEnv\<close>: the driver's parser of connection strings, its pool and ping, the metrics registry, the URL parser and the listener. The main
  lemma compares the two levels of checks: no constructor ever refuses an option of a configuration that \<open>Load\<close> returned.
\<close>

section \<open>The database pool and the stores\<close>

definition StatementTimeout :: duration where "StatementTimeout = 1500 * millisecond"
definition LockTimeout :: duration where "LockTimeout = 500 * millisecond"

record poolConfig =
  plc_MaxConns :: int
  plc_MinConns :: int
  plc_MaxConnLifetime :: duration
  plc_MaxConnIdleTime :: duration
  plc_ConnectTimeout :: duration
  plc_RuntimeParams :: "string \<rightharpoonup> string"

text \<open>The stores of the process, on whatever state the database has.\<close>

record 's Stores =
  sto_tickets :: "'s TicketLifecycleRepository"
  sto_results :: "'s ResultRepository"
  sto_queries :: "'s QueryReader"
  sto_ratings :: "'s RatingQueue"
  sto_shadow :: "'s RatingShadowQueue"
  sto_attempts :: "'s AttemptRepository"
  sto_matching :: "'s QueueRepository"
  sto_outbox :: "'s OutboxQueue"

record 's processEnv =
  pe_parse :: "string \<Rightarrow> poolConfig option"
  pe_newPool :: "poolConfig \<Rightarrow> error"
  pe_ping :: "poolConfig \<Rightarrow> error"
  pe_stores :: "poolConfig \<Rightarrow> 's Stores"
  pe_metrics :: error
  pe_registerPool :: error
  pe_handler :: "('s, unit) MatchProcessor \<Rightarrow> 's Handler"
  pe_parseURI :: "string \<Rightarrow> parsedURL option"
  pe_equalFold :: "string \<Rightarrow> string \<Rightarrow> bool"
  pe_loopbackIP :: "string \<Rightarrow> bool"
  pe_listen :: "string \<Rightarrow> error"

definition poolSettings :: "int \<Rightarrow> poolConfig \<Rightarrow> poolConfig" where
  "poolSettings maxConns cfg =
     cfg\<lparr>plc_MaxConns := maxConns, plc_MinConns := 0, plc_MaxConnLifetime := 30 * minute, plc_MaxConnIdleTime := 5 * minute,
         plc_ConnectTimeout := 5 * second, plc_RuntimeParams := (plc_RuntimeParams cfg)(''statement_timeout'' \<mapsto> ''1.5s'', ''lock_timeout'' \<mapsto> ''500ms'')\<rparr>"

definition Open :: "'s processEnv \<Rightarrow> string \<Rightarrow> int \<Rightarrow> poolConfig result" where
  "Open env dsn maxConns =
     (if maxConns \<le> 0 then Inl (ErrorsNew ''database connection limit must be positive'')
      else case pe_parse env dsn of
          None \<Rightarrow> Inl (ErrorsNew ''cannot parse DATABASE_URL'')
        | Some cfg \<Rightarrow>
            let cfg = poolSettings maxConns cfg in
            if pe_newPool env cfg \<noteq> None then Inl (ErrorsNew ''cannot initialize PostgreSQL pool'')
            else if pe_ping env cfg \<noteq> None then Inl (ErrorsNew ''PostgreSQL connectivity check failed'')
            else Inr cfg)"

text \<open>The constructors of the stores refuse a missing pool only.\<close>

definition requirePool :: "poolConfig option \<Rightarrow> (poolConfig \<Rightarrow> 'a) \<Rightarrow> 'a result" where
  "requirePool pool store = (case pool of None \<Rightarrow> Inl (ErrorsNew ''PostgreSQL pool is required'') | Some p \<Rightarrow> Inr (store p))"

definition NewTicketStore :: "'s processEnv \<Rightarrow> poolConfig option \<Rightarrow> 's TicketLifecycleRepository result" where
  "NewTicketStore env pool = requirePool pool (sto_tickets \<circ> pe_stores env)"

definition NewResultStore :: "'s processEnv \<Rightarrow> poolConfig option \<Rightarrow> 's ResultRepository result" where
  "NewResultStore env pool = requirePool pool (sto_results \<circ> pe_stores env)"

definition NewQueryStore :: "'s processEnv \<Rightarrow> poolConfig option \<Rightarrow> 's QueryReader result" where
  "NewQueryStore env pool = requirePool pool (sto_queries \<circ> pe_stores env)"

definition NewRatingQueue :: "'s processEnv \<Rightarrow> poolConfig option \<Rightarrow> 's RatingQueue result" where
  "NewRatingQueue env pool = requirePool pool (sto_ratings \<circ> pe_stores env)"

definition NewRatingShadowQueue :: "'s processEnv \<Rightarrow> poolConfig option \<Rightarrow> 's RatingShadowQueue result" where
  "NewRatingShadowQueue env pool = requirePool pool (sto_shadow \<circ> pe_stores env)"

definition NewMatchmakingQueue :: "'s processEnv \<Rightarrow> poolConfig option \<Rightarrow> ('s AttemptRepository \<times> 's QueueRepository) result" where
  "NewMatchmakingQueue env pool = requirePool pool (\<lambda>p. (sto_attempts (pe_stores env p), sto_matching (pe_stores env p)))"

definition NewOutboxQueue :: "'s processEnv \<Rightarrow> poolConfig option \<Rightarrow> 's OutboxQueue result" where
  "NewOutboxQueue env pool = requirePool pool (sto_outbox \<circ> pe_stores env)"

section \<open>Building the process\<close>

definition serverOptions :: "ProcessConfig \<Rightarrow> Options" where
  "serverOptions cfg =
     \<lparr>op_APIToken = pc_APIToken cfg, op_ReadinessTimeout = pc_ReadinessTimeout cfg, op_ShutdownTimeout = pc_ShutdownTimeout cfg\<rparr>"

definition deadlineOptions :: "ProcessConfig \<Rightarrow> ResultDeadlineOptions" where
  "deadlineOptions cfg = \<lparr>rdo_BatchSize = pc_ResultDeadlineBatch cfg, rdo_PollInterval = pc_ResultDeadlinePoll cfg\<rparr>"

definition ratingOptions :: "ProcessConfig \<Rightarrow> RatingRunnerOptions" where
  "ratingOptions cfg =
     \<lparr>rro_LeaseDuration = pc_RatingLease cfg, rro_PollInterval = pc_RatingPollInterval cfg, rro_FailureBackoff = pc_RatingFailureBackoff cfg\<rparr>"

definition shadowOptions :: "ProcessConfig \<Rightarrow> RatingShadowRunnerOptions" where
  "shadowOptions cfg =
     \<lparr>rso_LeaseDuration = pc_RatingLease cfg, rso_PollInterval = pc_RatingPollInterval cfg, rso_FailureBackoff = pc_RatingFailureBackoff cfg\<rparr>"

definition matchOptions :: "ProcessConfig \<Rightarrow> RunnerOptions" where
  "matchOptions cfg =
     \<lparr>ro_BatchSize = pc_MatchBatchSize cfg, ro_Concurrency = pc_MatchConcurrency cfg, ro_LeaseDuration = pc_MatchLease cfg,
      ro_PollInterval = pc_MatchPollInterval cfg, ro_FailureBackoff = pc_MatchFailureBackoff cfg\<rparr>"

definition outboxOptions :: "ProcessConfig \<Rightarrow> OutboxRunnerOptions" where
  "outboxOptions cfg =
     \<lparr>oro_BatchSize = pc_OutboxBatchSize cfg, oro_Concurrency = pc_OutboxConcurrency cfg, oro_LeaseDuration = pc_OutboxLease cfg,
      oro_PollInterval = pc_OutboxPollInterval cfg, oro_RetryBaseDelay = pc_OutboxRetryBaseDelay cfg, oro_RetryMaxDelay = pc_OutboxRetryMaxDelay cfg\<rparr>"

record 's process =
  pr_server :: "'s Server"
  pr_deadline :: "('s, ResultDeadlineBatch, ExpiredRoom list) storeOp \<times> ResultDeadlineOptions"
  pr_rating :: "'s RatingQueue \<times> RatingRunnerOptions"
  pr_shadow :: "'s RatingShadowQueue \<times> RatingShadowRunnerOptions"
  pr_match :: "'s QueueRepository \<times> 's Handler \<times> RunnerOptions"
  pr_outbox :: "'s OutboxQueue \<times> HTTPPublisher \<times> OutboxRunnerOptions"

definition ticketManager :: "'s TicketLifecycleRepository \<Rightarrow> 's TicketManager" where
  "ticketManager service = \<lparr>tmg_Accept = TicketService_Accept service, tmg_Cancel = TicketService_Cancel service, tmg_Get = TicketService_Get service\<rparr>"

definition matchLifecycle :: "'s TicketLifecycleRepository \<Rightarrow> 's TicketLifecycle" where
  "matchLifecycle service = \<lparr>tl_Assign = TicketService_Assign service, tl_Expire = TicketService_Expire service\<rparr>"

text \<open>
  \<^verbatim>\<open>Run\<close> up to the start of the workers, with its early returns; the logger exists and the metrics exist once they are made.
\<close>

definition Run :: "'s processEnv \<Rightarrow> ProcessConfig \<Rightarrow> 's process result" where
  "Run env cfg =
     rbind (Open env (pc_DatabaseURL cfg) (pc_DBMaxConns cfg)) (\<lambda>pool.
     rbind (NewTicketStore env (Some pool)) (\<lambda>ticketStore.
     rbind (NewResultStore env (Some pool)) (\<lambda>resultStore.
     rbind (NewResultService (Some resultStore)) (\<lambda>resultService.
     rbind (NewTicketService (Some ticketStore)) (\<lambda>ticketService.
     rbind (NewQueryStore env (Some pool)) (\<lambda>queryStore.
     guardE (pe_metrics env) (
     guardE (pe_registerPool env) (
     rbind (NewServer (Some ()) (Some (ticketManager ticketService)) (Some (ResultService_Finalize resultService)) (Some queryStore) (Some ()) True
       (serverOptions cfg)) (\<lambda>server.
     rbind (NewResultDeadlineRunner (Some (ResultService_ExpireDue resultService)) (Some ()) (deadlineOptions cfg)) (\<lambda>deadlineRunner.
     rbind (NewRatingQueue env (Some pool)) (\<lambda>ratingQueue.
     rbind (NewRatingRunner (Some ratingQueue) (Some ()) (ratingOptions cfg)) (\<lambda>ratingRunner.
     rbind (NewRatingShadowQueue env (Some pool)) (\<lambda>shadowQueue.
     rbind (NewRatingShadowRunner (Some shadowQueue) (Some ()) (shadowOptions cfg)) (\<lambda>shadowRunner.
     rbind (NewMatchmakingQueue env (Some pool)) (\<lambda>(attempts, matchQueue).
     rbind (NewMatchProcessor (Some attempts) (Some matchQueue) (Some (matchLifecycle ticketService)) (pc_MatchStaleRetryDelay cfg) [Some ()]) (\<lambda>processor.
     rbind (NewRunner (Some matchQueue) (Some (pe_handler env processor)) (Some ()) (matchOptions cfg)) (\<lambda>runner.
     rbind (NewOutboxQueue env (Some pool)) (\<lambda>outboxQueue.
     rbind (NewHTTPPublisher (pe_parseURI env) (pe_equalFold env) (pe_loopbackIP env) (pc_OutboxDeliveryURL cfg) (pc_OutboxDeliveryToken cfg)
       (pc_OutboxRequestTimeout cfg)) (\<lambda>outboxPublisher.
     rbind (NewOutboxRunner (Some outboxQueue) (Some outboxPublisher) (Some ()) (outboxOptions cfg)) (\<lambda>outboxRunner.
     guardE (wrapE ''listen HTTP: %w'' [] (pe_listen env (pc_HTTPAddr cfg)))
       (Inr \<lparr>pr_server = server, pr_deadline = deadlineRunner, pr_rating = ratingRunner, pr_shadow = shadowRunner, pr_match = runner,
             pr_outbox = outboxRunner\<rparr>)))))))))))))))))))))"

text \<open>The command \<^verbatim>\<open>cmd/server\<close>.\<close>

definition runServer :: "'s processEnv \<Rightarrow> (string \<Rightarrow> string) \<Rightarrow> 's process result" where
  "runServer env getenv = rbind (Load getenv) (Run env)"

section \<open>A loaded configuration starts\<close>

text \<open>The process of a configuration and its stores, with every option accepted.\<close>

definition processOf :: "'s processEnv \<Rightarrow> ProcessConfig \<Rightarrow> 's Stores \<Rightarrow> 's process" where
  "processOf env cfg stores =
     \<lparr>pr_server = \<lparr>srv_tickets = ticketManager (sto_tickets stores), srv_finalize = ResultService_Finalize (sto_results stores),
        srv_queries = sto_queries stores, srv_options = serverOptions cfg\<rparr>,
      pr_deadline = (ResultService_ExpireDue (sto_results stores), deadlineOptions cfg),
      pr_rating = (sto_ratings stores, ratingOptions cfg),
      pr_shadow = (sto_shadow stores, shadowOptions cfg),
      pr_match = (sto_matching stores, pe_handler env \<lparr>mp_attempts = sto_attempts stores, mp_queue = sto_matching stores,
        mp_tickets = matchLifecycle (sto_tickets stores), mp_observer = Some (), mp_staleRetryDelay = pc_MatchStaleRetryDelay cfg\<rparr>, matchOptions cfg),
      pr_outbox = (sto_outbox stores, \<lparr>hp_endpoint = pc_OutboxDeliveryURL cfg, hp_token = pc_OutboxDeliveryToken cfg,
        hp_timeout = pc_OutboxRequestTimeout cfg\<rparr>, outboxOptions cfg)\<rparr>"

lemma requirePool_Some [simp]: "requirePool (Some pool) store = Inr (store pool)"
  by (simp add: requirePool_def)

lemmas store_constructors = NewTicketStore_def NewResultStore_def NewQueryStore_def NewRatingQueue_def NewRatingShadowQueue_def NewMatchmakingQueue_def
  NewOutboxQueue_def NewTicketService_def NewResultService_def

text \<open>Every check of a constructor follows from the checks of \<open>Load\<close>.\<close>

lemma options_accepted:
  assumes "inRanges cfg" "checkRelations cfg = None"
  shows "ResultDeadlineOptions_Validate (deadlineOptions cfg) = None"
    and "RatingRunnerOptions_Validate (ratingOptions cfg) = None"
    and "RatingShadowRunnerOptions_Validate (shadowOptions cfg) = None"
    and "RunnerOptions_Validate (matchOptions cfg) = None"
    and "OutboxRunnerOptions_Validate (outboxOptions cfg) = None"
    and "\<not> pc_MatchStaleRetryDelay cfg \<le> 0" "\<not> second < pc_MatchStaleRetryDelay cfg"
  using assms
  by (simp_all add: inRanges_def countsOf_def durationsOf_def checkRelations_def deadlineOptions_def ratingOptions_def shadowOptions_def matchOptions_def
      outboxOptions_def ResultDeadlineOptions_Validate_def RatingRunnerOptions_Validate_def RatingShadowRunnerOptions_Validate_def
      RunnerOptions_Validate_def OutboxRunnerOptions_Validate_def MaxResultDeadlineBatchSize_def MaxBatchSize_def MaxOutboxBatchSize_def
      duration_units split: if_splits)

lemma server_accepted:
  assumes "inRanges cfg" "checkRelations cfg = None" "checkSecrets cfg = None"
  shows "NewServer (Some ()) (Some t) (Some r) (Some q) (Some ()) True (serverOptions cfg) =
      Inr \<lparr>srv_tickets = t, srv_finalize = r, srv_queries = q, srv_options = serverOptions cfg\<rparr>"
  using assms by (simp add: NewServer_def serverOptions_def inRanges_def durationsOf_def checkRelations_def checkSecrets_def weakToken_def split: if_splits)

lemma publisher_accepted:
  assumes "inRanges cfg" "checkSecrets cfg = None"
  shows "NewHTTPPublisher parseURI equalFold loopbackIP endpoint (pc_OutboxDeliveryToken cfg) (pc_OutboxRequestTimeout cfg) =
      guardE (validateEndpoint parseURI equalFold loopbackIP endpoint)
        (Inr \<lparr>hp_endpoint = endpoint, hp_token = pc_OutboxDeliveryToken cfg, hp_timeout = pc_OutboxRequestTimeout cfg\<rparr>)"
  using assms by (simp add: NewHTTPPublisher_def inRanges_def durationsOf_def checkSecrets_def weakToken_def split: if_splits)

text \<open>
  C18. A configuration that loads starts the process: when \<open>Load\<close> has returned a configuration, the server and the five workers are built from it unless
  the database cannot be opened, the metrics cannot be registered, the delivery endpoint is not acceptable or the address cannot be listened on,
  and the answer is the error of the first of these in that order. No constructor refuses a batch size, lease, delay or token that \<open>Load\<close> let through.
  Every lease the workers then take outlasts the statement timeout the pool gives its connections, and a delivery ends before the lease of its event.
\<close>

theorem loaded_config_starts:
  assumes "Load getenv = Inr cfg"
  shows "runServer env getenv =
      (case Open env (pc_DatabaseURL cfg) (pc_DBMaxConns cfg) of Inl e \<Rightarrow> Inl e
       | Inr pool \<Rightarrow>
           if pe_metrics env \<noteq> None then Inl (the (pe_metrics env))
           else if pe_registerPool env \<noteq> None then Inl (the (pe_registerPool env))
           else (case validateEndpoint (pe_parseURI env) (pe_equalFold env) (pe_loopbackIP env) (pc_OutboxDeliveryURL cfg) of
               Some e \<Rightarrow> Inl e
             | None \<Rightarrow>
                 (case pe_listen env (pc_HTTPAddr cfg) of
                    Some e \<Rightarrow> Inl (Errorf ''listen HTTP: %w'' [] (Some e))
                  | None \<Rightarrow> Inr (processOf env cfg (pe_stores env pool)))))
    \<and> 0 < pc_DBMaxConns cfg \<and> StatementTimeout < pc_MatchLease cfg \<and> StatementTimeout < pc_RatingLease cfg \<and> StatementTimeout < pc_OutboxLease cfg
    \<and> pc_OutboxRequestTimeout cfg < pc_OutboxLease cfg \<and> pc_APIToken cfg \<noteq> pc_OutboxDeliveryToken cfg"
proof -
  have ok: "inRanges cfg" "checkRelations cfg = None" "checkSecrets cfg = None" using Load_checked [OF assms] by auto
  note accepted = options_accepted [OF ok(1,2)] server_accepted [OF ok] publisher_accepted [OF ok(1,3)]
  have "Run env cfg = (case Open env (pc_DatabaseURL cfg) (pc_DBMaxConns cfg) of Inl e \<Rightarrow> Inl e
       | Inr pool \<Rightarrow>
           if pe_metrics env \<noteq> None then Inl (the (pe_metrics env))
           else if pe_registerPool env \<noteq> None then Inl (the (pe_registerPool env))
           else (case validateEndpoint (pe_parseURI env) (pe_equalFold env) (pe_loopbackIP env) (pc_OutboxDeliveryURL cfg) of
               Some e \<Rightarrow> Inl e
             | None \<Rightarrow>
                 (case pe_listen env (pc_HTTPAddr cfg) of
                    Some e \<Rightarrow> Inl (Errorf ''listen HTTP: %w'' [] (Some e))
                  | None \<Rightarrow> Inr (processOf env cfg (pe_stores env pool)))))"
    by (cases "Open env (pc_DatabaseURL cfg) (pc_DBMaxConns cfg)"; cases "pe_metrics env"; cases "pe_registerPool env";
        cases "validateEndpoint (pe_parseURI env) (pe_equalFold env) (pe_loopbackIP env) (pc_OutboxDeliveryURL cfg)"; cases "pe_listen env (pc_HTTPAddr cfg)")
      (simp_all add: accepted Run_def store_constructors NewResultDeadlineRunner_def NewRatingRunner_def NewRatingShadowRunner_def NewMatchProcessor_def NewRunner_def
        NewOutboxRunner_def processOf_def)
  moreover have "0 < pc_DBMaxConns cfg" using Load_connections [OF assms] by simp
  ultimately show ?thesis
    using ok(2,3) assms by (auto simp: runServer_def checkRelations_def checkSecrets_def databaseStatementTimeout_def StatementTimeout_def split: if_splits)
qed

section \<open>Witness\<close>

definition sampleGetenv :: "string \<Rightarrow> string" where
  "sampleGetenv key =
     (case map_of [(''DATABASE_URL'', ''postgres://db''), (''API_TOKEN'', replicate 32 CHR ''a''), (''OUTBOX_DELIVERY_URL'', ''https://hub''),
        (''OUTBOX_DELIVERY_TOKEN'', replicate 32 CHR ''b''), (''MATCH_WORKER_BATCH_SIZE'', ''64''), (''OUTBOX_WORKER_LEASE'', ''12s''),
        (''HTTP_ADDR'', ''[::1]:9000'')] key of
        None \<Rightarrow> '''' | Some v \<Rightarrow> v)"

definition sampleProcessConfig :: ProcessConfig where
  "sampleProcessConfig = (defaultConfig sampleGetenv)\<lparr>pc_HTTPAddr := ''[::1]:9000'', pc_MatchBatchSize := 64, pc_OutboxLease := 12 * second\<rparr>"

lemma sampleGetenv_loads: "Load sampleGetenv = Inr sampleProcessConfig"
  by code_simp

definition sampleProcessEnv :: "'s Stores \<Rightarrow> 's processEnv" where
  "sampleProcessEnv stores =
     \<lparr>pe_parse = (\<lambda>dsn. Some \<lparr>plc_MaxConns = 4, plc_MinConns = 0, plc_MaxConnLifetime = hour, plc_MaxConnIdleTime = hour, plc_ConnectTimeout = 0,
        plc_RuntimeParams = Map.empty\<rparr>),
      pe_newPool = (\<lambda>_. None), pe_ping = (\<lambda>_. None), pe_stores = (\<lambda>_. stores), pe_metrics = None, pe_registerPool = None,
      pe_handler = (\<lambda>_ _ _ store. (None, store)),
      pe_parseURI = (\<lambda>u. if u = ''https://hub'' then Some \<lparr>url_IsAbs = True, url_Hostname = ''hub'', url_User = False, url_Fragment = '''', url_Scheme = ''https''\<rparr> else None),
      pe_equalFold = (=), pe_loopbackIP = (\<lambda>_. False), pe_listen = (\<lambda>_. None)\<rparr>"

theorem loaded_config_starts_witness:
  "\<forall>stores :: Database Stores. runServer (sampleProcessEnv stores) sampleGetenv = Inr (processOf (sampleProcessEnv stores) sampleProcessConfig stores)"
proof
  fix stores :: "Database Stores"
  have "pc_DBMaxConns sampleProcessConfig = 10" "pc_OutboxDeliveryURL sampleProcessConfig = ''https://hub''"
    by (simp_all add: sampleProcessConfig_def defaultConfig_def sampleGetenv_def)
  then show "runServer (sampleProcessEnv stores) sampleGetenv = Inr (processOf (sampleProcessEnv stores) sampleProcessConfig stores)"
    using loaded_config_starts [OF sampleGetenv_loads, of "sampleProcessEnv stores"]
    by (simp add: Open_def sampleProcessEnv_def validateEndpoint_def)
qed

end
