(* ===== verification/Sim_Generator.thy ===== *)
theory Sim_Generator
  imports Result_Store Rating_Comparison
begin

text \<open>
  \<^verbatim>\<open>internal/simulator/generator.go\<close>: deterministic workloads and outcomes. The random source is the 64-bit generator of the file on words, with its
  rejection loop as a partial function: \<open>None\<close> is a loop that never returns or a division by a zero limit. \<open>simMath\<close> holds the functions of package
  \<^verbatim>\<open>math\<close> that have no exact definition, and the conversion of a float to \<^verbatim>\<open>int64\<close>, which the language leaves to the platform outside
  the range. Products and sums of floats are rounded separately. The lemmas show that the bounded draws return and are unbiased, that partitions get exactly their share, that the
  arrivals of a workload are ordered and distinct, that one seed has no workload, and that an outcome does not depend on the order of its participants.
\<close>

unbundle bit_operations_syntax

section \<open>Configuration\<close>

definition maxTicketCount :: int where "maxTicketCount = 1000000"

record TournamentPartition =
  tpn_ID :: string
  tpn_ModeID :: string
  tpn_Capacity :: int
  tpn_EntryFeeMinor :: int
  tpn_Currency :: string
  tpn_Region :: string
  tpn_TrafficWeight :: "64 word"

record SimConfig =
  scf_Seed :: "64 word"
  scf_StartedAt :: time
  scf_TicketCount :: int
  scf_ArrivalRatePerSecond :: f64
  scf_SkillMean :: f64
  scf_SkillDeviation :: f64
  scf_RatingUncertainty :: f64
  scf_PerformanceDeviation :: f64
  scf_RatingModelVersion :: string
  scf_TournamentPartitions :: "TournamentPartition list"

definition SimDefaultConfig :: "time \<Rightarrow> 64 word \<Rightarrow> SimConfig" where
  "SimDefaultConfig startedAt seed =
     \<lparr>scf_Seed = seed, scf_StartedAt = startedAt, scf_TicketCount = 300, scf_ArrivalRatePerSecond = Fin 5, scf_SkillMean = Fin 25,
      scf_SkillDeviation = f64_round (25 / 3), scf_RatingUncertainty = Fin 5, scf_PerformanceDeviation = f64_round (25 / 6),
      scf_RatingModelVersion = ''rating-v1'',
      scf_TournamentPartitions =
        [\<lparr>tpn_ID = ''classic-5-free-eu'', tpn_ModeID = ''classic'', tpn_Capacity = 5, tpn_EntryFeeMinor = 0, tpn_Currency = ''EUR'', tpn_Region = ''eu'', tpn_TrafficWeight = 50\<rparr>,
         \<lparr>tpn_ID = ''classic-6-paid-eu'', tpn_ModeID = ''classic'', tpn_Capacity = 6, tpn_EntryFeeMinor = 100, tpn_Currency = ''EUR'', tpn_Region = ''eu'', tpn_TrafficWeight = 30\<rparr>,
         \<lparr>tpn_ID = ''draw-three-7-paid-eu'', tpn_ModeID = ''draw-three'', tpn_Capacity = 7, tpn_EntryFeeMinor = 500, tpn_Currency = ''EUR'', tpn_Region = ''eu'', tpn_TrafficWeight = 20\<rparr>]\<rparr>"

definition sim_positiveFinite :: "f64 \<Rightarrow> bool" where "sim_positiveFinite v \<longleftrightarrow> 0 < v \<and> f64_finite v"
definition sim_nonNegativeFinite :: "f64 \<Rightarrow> bool" where "sim_nonNegativeFinite v \<longleftrightarrow> 0 \<le> v \<and> f64_finite v"

fun partitionLoop :: "int \<Rightarrow> string list \<Rightarrow> 64 word \<Rightarrow> TournamentPartition list \<Rightarrow> error" where
  "partitionLoop index seen totalWeight [] = None"
| "partitionLoop index seen totalWeight (part # partitions) =
     (if tpn_ID part = '''' \<or> tpn_ModeID part = '''' \<or> tpn_Currency part = '''' \<or> tpn_Region part = ''''
      then Some (Errorf ''tournament partition %d requires identity, mode, currency and region'' [ArgI index] None)
      else if tpn_Capacity part < int MinRoomSize \<or> int MaxRoomSize < tpn_Capacity part
      then Some (Errorf ''tournament partition %q has unsupported capacity'' [ArgS (tpn_ID part)] None)
      else if tpn_EntryFeeMinor part < 0 \<or> tpn_TrafficWeight part = 0
      then Some (Errorf ''tournament partition %q has invalid fee or traffic weight'' [ArgS (tpn_ID part)] None)
      else if tpn_ID part \<in> set seen
      then Some (Errorf ''duplicate tournament partition %q'' [ArgS (tpn_ID part)] None)
      else if MaxUint64 - totalWeight < tpn_TrafficWeight part
      then Some (ErrorsNew ''tournament partition traffic weights overflow'')
      else partitionLoop (index + 1) (tpn_ID part # seen) (totalWeight + tpn_TrafficWeight part) partitions)"

definition SimConfig_Validate :: "SimConfig \<Rightarrow> error" where
  "SimConfig_Validate c =
     (if IsZero (scf_StartedAt c) then Some (ErrorsNew ''simulation start time is required'')
      else if scf_TicketCount c \<le> 0 \<or> maxTicketCount < scf_TicketCount c
      then Some (Errorf ''ticket count must be between one and %d'' [ArgI maxTicketCount] None)
      else if \<not> sim_positiveFinite (scf_ArrivalRatePerSecond c) then Some (ErrorsNew ''arrival rate must be positive and finite'')
      else if \<not> f64_finite (scf_SkillMean c) \<or> \<not> sim_nonNegativeFinite (scf_SkillDeviation c)
      then Some (ErrorsNew ''skill distribution must be finite with non-negative deviation'')
      else if \<not> sim_positiveFinite (scf_RatingUncertainty c) \<or> \<not> sim_nonNegativeFinite (scf_PerformanceDeviation c)
      then Some (ErrorsNew ''rating uncertainty must be positive and performance deviation non-negative'')
      else if scf_RatingModelVersion c = '''' then Some (ErrorsNew ''rating model version is required'')
      else if scf_TournamentPartitions c = [] then Some (ErrorsNew ''at least one tournament partition is required'')
      else partitionLoop 0 [] 0 (scf_TournamentPartitions c))"

record Arrival =
  arv_TicketID :: string
  arv_PlayerID :: string
  arv_PartitionID :: string
  arv_ArrivedAt :: time
  arv_SnapshotAt :: time
  arv_LatentSkill :: f64
  arv_RatingSnapshot :: Estimate

record Workload =
  wl_Config :: SimConfig
  wl_Arrivals :: "Arrival list"

record OutcomeParticipant =
  ocp_PlayerID :: string
  ocp_LatentSkill :: f64

record OutcomeRequest =
  orq_EventID :: string
  orq_RoomID :: string
  orq_PartitionID :: string
  orq_DeckID :: string
  orq_ScoringRulesVersion :: string
  orq_FinishedAt :: time
  orq_AvailableAt :: time
  orq_Participants :: "OutcomeParticipant list"

definition NewGenerator :: "SimConfig \<Rightarrow> SimConfig result" where
  "NewGenerator config = guardE (SimConfig_Validate config) (Inr config)"

section \<open>The random source\<close>

text \<open>The source is its state; every draw returns a value and the next state.\<close>

type_synonym randomSource = "64 word"

record simMath =
  sm_Log :: "f64 \<Rightarrow> f64"
  sm_Log1p :: "f64 \<Rightarrow> f64"
  sm_Cos :: "f64 \<Rightarrow> f64"
  sm_int64 :: "f64 \<Rightarrow> int"

definition mixState :: "64 word \<Rightarrow> 64 word" where
  "mixState state =
     (let value = state;
          value = (value XOR drop_bit 30 value) * 0xbf58476d1ce4e5b9;
          value = (value XOR drop_bit 27 value) * 0x94d049bb133111eb in
      value XOR drop_bit 31 value)"

definition randomNext :: "randomSource \<Rightarrow> 64 word \<times> randomSource" where
  "randomNext r = (let state = r + 0x9e3779b97f4a7c15 in (mixState state, state))"

definition uniformOf :: "64 word \<Rightarrow> f64" where
  "uniformOf value = (f64_of_int (uint (drop_bit 11 value)) + Fin (1 / 2)) / Fin (2 ^ 53)"

definition uniform :: "randomSource \<Rightarrow> f64 \<times> randomSource" where
  "uniform r = (case randomNext r of (value, r) \<Rightarrow> (uniformOf value, r))"

partial_function (option) boundedLoop :: "64 word \<Rightarrow> 64 word \<Rightarrow> randomSource \<Rightarrow> (64 word \<times> randomSource) option" where
  "boundedLoop threshold limit r =
     (case randomNext r of (value, r) \<Rightarrow> if threshold \<le> value then Some (value mod limit, r) else boundedLoop threshold limit r)"

declare boundedLoop.simps [code]

definition bounded :: "64 word \<Rightarrow> randomSource \<Rightarrow> (64 word \<times> randomSource) option" where
  "bounded limit r = (if limit = 0 then None else boundedLoop (- limit mod limit) limit r)"

text \<open>\<^verbatim>\<open>2 * math.Pi\<close> is a constant that is rounded once.\<close>

definition twoPi :: f64 where "twoPi = Fin (884279719003555 / 2 ^ 47)"

definition normal :: "simMath \<Rightarrow> randomSource \<Rightarrow> f64 \<times> randomSource" where
  "normal mth r =
     (case uniform r of (u, r) \<Rightarrow> let radius = math_Sqrt (Fin (-2) * sm_Log mth u) in
      case uniform r of (v, r) \<Rightarrow> let angle = twoPi * v in (radius * sm_Cos mth angle, r))"

definition fnvStep :: "64 word \<Rightarrow> 64 word \<Rightarrow> 64 word" where
  "fnvStep hash byte = (hash XOR byte) * 1099511628211"

definition derivedSeed :: "64 word \<Rightarrow> string list \<Rightarrow> 64 word" where
  "derivedSeed seed values =
     fold (\<lambda>value hash. fnvStep (fold (\<lambda>c hash. fnvStep hash (of_char c)) value hash) 0xff) values
       (fold (\<lambda>shift hash. fnvStep hash (drop_bit shift seed AND 0xff)) [0, 8, 16, 24, 32, 40, 48, 56] 14695981039346656037)"

section \<open>Workloads\<close>

text \<open>\<^verbatim>\<open>math.Round\<close>: half away from zero.\<close>

fun math_Round :: "f64 \<Rightarrow> f64" where
  "math_Round (Fin a) = Fin (of_int (if 0 \<le> a then \<lfloor>a + 1 / 2\<rfloor> else - \<lfloor>- a + 1 / 2\<rfloor>))"
| "math_Round x = x"

definition arrivalDelay :: "simMath \<Rightarrow> f64 \<Rightarrow> f64 \<Rightarrow> duration result" where
  "arrivalDelay mth u rate =
     (let seconds = - sm_Log1p mth (- u) / rate;
          nanoseconds = seconds * f64_of_int second in
      if \<not> f64_finite nanoseconds \<or> f64_of_int max_duration < nanoseconds
      then Inl (ErrorsNew ''arrival delay exceeds time duration bounds'')
      else let delay = sm_int64 mth (math_Round nanoseconds) in
        if delay < nanosecond then Inr nanosecond else Inr delay)"

fun choosePartition :: "TournamentPartition list \<Rightarrow> 64 word \<Rightarrow> TournamentPartition" where
  "choosePartition [part] target = part"
| "choosePartition (part # partitions) target =
     (if target < tpn_TrafficWeight part then part else choosePartition partitions (target - tpn_TrafficWeight part))"

definition partitionWeight :: "TournamentPartition list \<Rightarrow> 64 word" where
  "partitionWeight partitions = foldl (\<lambda>total part. total + tpn_TrafficWeight part) 0 partitions"

definition findPartition :: "TournamentPartition list \<Rightarrow> string \<Rightarrow> TournamentPartition option" where
  "findPartition partitions partitionID = find (\<lambda>part. tpn_ID part = partitionID) partitions"

text \<open>The verb \<^verbatim>\<open>%06d\<close> on a non-negative number.\<close>

definition sixDigits :: "nat \<Rightarrow> string" where
  "sixDigits n = replicate (6 - length (decimal n)) CHR ''0'' @ decimal n"

definition newArrival :: "SimConfig \<Rightarrow> nat \<Rightarrow> time \<Rightarrow> TournamentPartition \<Rightarrow> f64 \<Rightarrow> f64 \<Rightarrow> Arrival" where
  "newArrival c index arrivedAt part latentSkill ratingMean =
     \<lparr>arv_TicketID = ''ticket-'' @ sixDigits (index + 1), arv_PlayerID = ''player-'' @ sixDigits (index + 1), arv_PartitionID = tpn_ID part,
      arv_ArrivedAt = arrivedAt, arv_SnapshotAt = arrivedAt, arv_LatentSkill = latentSkill,
      arv_RatingSnapshot = \<lparr>est_Mean = ratingMean, est_Uncertainty = scf_RatingUncertainty c, est_PerformanceDeviation = Some (scf_PerformanceDeviation c),
        est_Games = 0, est_ModelVersion = scf_RatingModelVersion c, est_UpdatedAt = arrivedAt\<rparr>\<rparr>"

text \<open>The loop over the arrivals: the number still to come, the index, the time of the previous arrival and the random source.\<close>

fun arrivalLoop :: "simMath \<Rightarrow> SimConfig \<Rightarrow> 64 word \<Rightarrow> nat \<Rightarrow> nat \<Rightarrow> time \<Rightarrow> randomSource \<Rightarrow> Arrival list result option" where
  "arrivalLoop mth c totalWeight 0 index arrivedAt r = Some (Inr [])"
| "arrivalLoop mth c totalWeight (Suc n) index arrivedAt r =
     (case uniform r of (u, r) \<Rightarrow>
      case arrivalDelay mth u (scf_ArrivalRatePerSecond c) of
        Inl err \<Rightarrow> Some (Inl (Errorf ''generate arrival %d: %w'' [ArgI (int index + 1)] (Some err)))
      | Inr delay \<Rightarrow>
          let arrivedAt = time_Add arrivedAt delay in
          (case bounded totalWeight r of
             None \<Rightarrow> None
           | Some (target, r) \<Rightarrow>
               let part = choosePartition (scf_TournamentPartitions c) target in
               case normal mth r of (z, r) \<Rightarrow>
               let latentSkill = scf_SkillMean c + scf_SkillDeviation c * z in
               case normal mth r of (z, r) \<Rightarrow>
               let ratingMean = latentSkill + scf_RatingUncertainty c * z in
               if \<not> f64_finite latentSkill \<or> \<not> f64_finite ratingMean
               then Some (Inl (Errorf ''generate arrival %d: skill sample is not finite'' [ArgI (int index + 1)] None))
               else map_option (\<lambda>rest. rbind rest (\<lambda>arrivals. Inr (newArrival c index arrivedAt part latentSkill ratingMean # arrivals)))
                 (arrivalLoop mth c totalWeight n (index + 1) arrivedAt r)))"

definition GenerateWorkload :: "simMath \<Rightarrow> SimConfig \<Rightarrow> Workload result option" where
  "GenerateWorkload mth g =
     map_option (\<lambda>res. rbind res (\<lambda>arrivals. Inr \<lparr>wl_Config = g, wl_Arrivals = arrivals\<rparr>))
       (arrivalLoop mth g (partitionWeight (scf_TournamentPartitions g)) (nat (scf_TicketCount g)) 0 (scf_StartedAt g) (scf_Seed g))"

section \<open>Outcomes\<close>

record rankedParticipant =
  rkp_playerID :: string
  rkp_performance :: f64

definition outcomePerformance :: "simMath \<Rightarrow> SimConfig \<Rightarrow> OutcomeRequest \<Rightarrow> OutcomeParticipant \<Rightarrow> f64" where
  "outcomePerformance mth g request participant =
     (let random = derivedSeed (scf_Seed g) [orq_RoomID request, orq_DeckID request, ocp_PlayerID participant] in
      ocp_LatentSkill participant + scf_PerformanceDeviation g * fst (normal mth random))"

fun performanceLoop :: "simMath \<Rightarrow> SimConfig \<Rightarrow> OutcomeRequest \<Rightarrow> int \<Rightarrow> string list \<Rightarrow> OutcomeParticipant list \<Rightarrow> rankedParticipant list result" where
  "performanceLoop mth g request index seen [] = Inr []"
| "performanceLoop mth g request index seen (participant # participants) =
     (if ocp_PlayerID participant = '''' \<or> \<not> f64_finite (ocp_LatentSkill participant)
      then Inl (Errorf ''outcome participant %d requires a player and finite latent skill'' [ArgI index] None)
      else if ocp_PlayerID participant \<in> set seen
      then Inl (Errorf ''duplicate outcome player %q'' [ArgS (ocp_PlayerID participant)] None)
      else let performance = outcomePerformance mth g request participant in
        if \<not> f64_finite performance
        then Inl (Errorf ''outcome performance for player %q is not finite'' [ArgS (ocp_PlayerID participant)] None)
        else rbind (performanceLoop mth g request (index + 1) (ocp_PlayerID participant # seen) participants) (\<lambda>ranked.
          Inr (\<lparr>rkp_playerID = ocp_PlayerID participant, rkp_performance = performance\<rparr> # ranked)))"

definition compareRanked :: "rankedParticipant \<Rightarrow> rankedParticipant \<Rightarrow> int" where
  "compareRanked left right =
     (if rkp_performance right < rkp_performance left then -1
      else if rkp_performance left < rkp_performance right then 1
      else if rkp_playerID left < rkp_playerID right then -1
      else if rkp_playerID right < rkp_playerID left then 1
      else 0)"

definition noFeatures :: Features where
  "noFeatures = \<lparr>feat_Score = None, feat_ElapsedMillis = None, feat_Completed = None, feat_Moves = None, feat_UndoMoves = None, feat_RevealedCards = None\<rparr>"

definition GenerateOutcome :: "simMath \<Rightarrow> SimConfig \<Rightarrow> OutcomeRequest \<Rightarrow> MatchResult result" where
  "GenerateOutcome mth g request =
     (case findPartition (scf_TournamentPartitions g) (orq_PartitionID request) of
        None \<Rightarrow> Inl (Errorf ''unknown tournament partition %q'' [ArgS (orq_PartitionID request)] None)
      | Some part \<Rightarrow>
          if int (length (orq_Participants request)) \<noteq> tpn_Capacity part
          then Inl (Errorf ''outcome for partition %q requires %d participants'' [ArgS (tpn_ID part), ArgI (tpn_Capacity part)] None)
          else rbind (performanceLoop mth g request 0 [] (orq_Participants request)) (\<lambda>ranked.
            let ranked = sort_cmp compareRanked ranked;
                result = \<lparr>mr_EventID = orq_EventID request, mr_RoomID = orq_RoomID request, mr_ModeID = tpn_ModeID part, mr_DeckID = orq_DeckID request,
                  mr_ScoringRulesVersion = orq_ScoringRulesVersion request, mr_FinishedAt = orq_FinishedAt request, mr_AvailableAt = orq_AvailableAt request,
                  mr_Participants = map (\<lambda>(index, participant). \<lparr>pr_PlayerID = rkp_playerID participant, pr_Place = int index + 1, pr_Features = noFeatures\<rparr>) (indexed ranked)\<rparr> in
            guardE (wrapE ''generated outcome: %w'' [] (MatchResult_Validate result)) (Inr result)))"

section \<open>Draws return and are unbiased\<close>

lemma uint_drop_bit: "uint (drop_bit n w) = uint w div 2 ^ n" for w :: "64 word"
proof -
  have "uint (drop_bit n w) = drop_bit n (uint w)" using uint_lt2p [of w] uint_ge_0 [of w]
    by (simp add: unsigned_drop_bit_eq take_bit_int_eq_self)
  also have "\<dots> = uint w div 2 ^ n" by (rule drop_bit_eq_div)
  finally show ?thesis .
qed

lemma xorshift_inj:
  assumes "0 < n"
  shows "inj (\<lambda>v :: 64 word. v XOR drop_bit n v)"
proof (rule injI)
  fix v u :: "64 word"
  assume eq: "v XOR drop_bit n v = u XOR drop_bit n u"
  let ?d = "v XOR u"
  have "drop_bit n v XOR drop_bit n u = v XOR u"
    using eq unfolding bit_eq_iff bit_xor_iff by blast
  then have "drop_bit n ?d = ?d" by simp
  then have "uint ?d div 2 ^ n = uint ?d" using uint_drop_bit [of n ?d] by metis
  moreover have "uint ?d div 2 ^ n < uint ?d" if "uint ?d \<noteq> 0"
  proof (rule int_div_less_self)
    show "0 < uint ?d" using that uint_ge_0 [of ?d] by linarith
    show "(1 :: int) < 2 ^ n" using assms by (simp add: one_less_power)
  qed
  ultimately have "uint ?d = 0" by fastforce
  then have "?d = 0" by (simp add: uint_0_iff)
  moreover have "v = ?d XOR u" by (simp add: xor.assoc)
  ultimately show "v = u" by simp
qed

lemma word_mult_inj: "c * d = 1 \<Longrightarrow> inj (\<lambda>v :: 64 word. v * c)"
  by (rule inj_on_inverseI [where g = "\<lambda>v. v * d"]) (simp add: mult.assoc)

text \<open>The mixing function is a permutation of the states, and so every value is drawn from exactly one state.\<close>

lemma mixState_bij: "bij mixState"
proof -
  have c: "(0xbf58476d1ce4e5b9 :: 64 word) * 0x96de1b173f119089 = 1" "(0x94d049bb133111eb :: 64 word) * 0x319642b2d24d8ec3 = 1" by simp_all
  have eq: "mixState = (\<lambda>v. v XOR drop_bit 31 v) \<circ> (\<lambda>v. v * 0x94d049bb133111eb) \<circ> (\<lambda>v. v XOR drop_bit 27 v) \<circ> (\<lambda>v. v * 0xbf58476d1ce4e5b9) \<circ> (\<lambda>v. v XOR drop_bit 30 v)"
    by (simp add: fun_eq_iff mixState_def Let_def)
  have "inj mixState" unfolding eq
    by (intro inj_compose xorshift_inj word_mult_inj [OF c(1)] word_mult_inj [OF c(2)]) simp_all
  then show ?thesis by (simp add: bij_def finite_UNIV_inj_surj)
qed

lemma drawn_bij: "bij (\<lambda>r. fst (randomNext r))"
proof -
  have "(\<lambda>r. fst (randomNext r)) = mixState \<circ> (\<lambda>r. r + 0x9e3779b97f4a7c15)" by (simp add: fun_eq_iff randomNext_def Let_def)
  moreover have "bij (\<lambda>r :: 64 word. r + 0x9e3779b97f4a7c15)" by (rule o_bij [of "\<lambda>r. r - 0x9e3779b97f4a7c15"]) (simp_all add: fun_eq_iff)
  ultimately show ?thesis using mixState_bij by (simp add: bij_comp)
qed

text \<open>The states run through all words, because their step is odd; one of them is mixed to the greatest value, which no threshold rejects.\<close>

lemma boundedLoop_reaches:
  "threshold \<le> mixState (r + of_nat (Suc k) * 0x9e3779b97f4a7c15) \<Longrightarrow> \<exists>v r'. boundedLoop threshold limit r = Some (v mod limit, r')"
proof (induction k arbitrary: r)
  case 0
  then show ?case by (subst boundedLoop.simps) (auto simp: randomNext_def Let_def)
next
  case (Suc k)
  have "r + of_nat (Suc (Suc k)) * 0x9e3779b97f4a7c15 = (r + 0x9e3779b97f4a7c15) + of_nat (Suc k) * 0x9e3779b97f4a7c15" by (simp add: algebra_simps)
  then have rest: "\<exists>v r'. boundedLoop threshold limit (r + 0x9e3779b97f4a7c15) = Some (v mod limit, r')" using Suc.IH Suc.prems by metis
  then show ?case by (subst boundedLoop.simps) (auto simp: randomNext_def Let_def)
qed

lemma state_reached: "\<exists>k. r + of_nat (Suc k) * (0x9e3779b97f4a7c15 :: 64 word) = target"
proof -
  let ?w = "(target - r) * 0xf1de83e19937733d"
  have "(0xf1de83e19937733d :: 64 word) * 0x9e3779b97f4a7c15 = 1" by simp
  then have w: "?w * 0x9e3779b97f4a7c15 = target - r" by (simp only: mult.assoc mult_1_right)
  obtain k where "of_nat (Suc k) = ?w"
  proof (cases "?w = 0")
    case True
    have "of_nat (Suc (2 ^ 64 - 1)) = (0 :: 64 word)" by simp
    then show ?thesis using that True by metis
  next
    case False
    then have "Suc (unat ?w - 1) = unat ?w" by (metis Suc_pred' unat_gt_0)
    then show ?thesis using that [of "unat ?w - 1"] by simp
  qed
  then have "r + of_nat (Suc k) * 0x9e3779b97f4a7c15 = target" using w by simp
  then show ?thesis by blast
qed

lemma bounded_returns:
  assumes "limit \<noteq> 0"
  shows "\<exists>value r'. bounded limit r = Some (value, r') \<and> value < limit"
proof -
  have top: "mixState 0xcf9a04affa6badc0 = 0xffffffffffffffff" by (simp add: mixState_def)
  have "(- limit mod limit) \<le> (0xffffffffffffffff :: 64 word)" proof -
    have "(0xffffffffffffffff :: 64 word) = - 1" by simp
    then show ?thesis by (simp only: word_order.extremum)
  qed
  then obtain v r' where "boundedLoop (- limit mod limit) limit r = Some (v mod limit, r')"
    using boundedLoop_reaches state_reached [of r "0xcf9a04affa6badc0"] top by metis
  then show ?thesis using assms by (auto simp: bounded_def word_mod_less_divisor word_neq_0_conv)
qed

lemma inj_unat: "inj_on (unat :: 64 word \<Rightarrow> nat) A"
  by (simp add: inj_on_def word_unat_eq_iff)

lemma card_bij_Collect: "bij f \<Longrightarrow> card {x. P (f x)} = card {y. P y}"
  using card_vimage_inj [of f "{y. P y}"] by (simp add: bij_def vimage_def)

lemma one_in_block:
  assumes "r < (L :: nat)"
  shows "\<exists>!n. a \<le> n \<and> n < a + L \<and> n mod L = r"
proof (rule ex_ex1I)
  let ?n = "a + (r + L - a mod L) mod L"
  have L: "0 < L" using assms by simp
  have "?n mod L = (a mod L + (r + L - a mod L)) mod L" by presburger
  also have "\<dots> = (r + L) mod L" using mod_less_divisor [OF L, of a] by simp
  finally have "?n mod L = r" using assms by simp
  moreover have "?n < a + L" using L by simp
  ultimately show "\<exists>n. a \<le> n \<and> n < a + L \<and> n mod L = r" by (intro exI [of _ ?n]) simp
next
  fix m n
  assume m: "a \<le> m \<and> m < a + L \<and> m mod L = r" and n: "a \<le> n \<and> n < a + L \<and> n mod L = r"
  have step: "x = y" if "x \<le> y" "x mod L = y mod L" "y < x + L" for x y :: nat
  proof -
    have "L dvd y - x" using that(1,2) by (metis mod_eq_dvd_iff_nat)
    then show ?thesis using that by (metis add_diff_inverse_nat add_less_cancel_left dvd_imp_le gr_zeroI le_antisym not_less diff_is_0_eq)
  qed
  show "m = n" using step [of m n] step [of n m] m n by linarith
qed

lemma residues_in_blocks:
  assumes "r < (L :: nat)"
  shows "card {n. t \<le> n \<and> n < t + q * L \<and> n mod L = r} = q"
proof (induction q)
  case (Suc q)
  obtain n where n: "t + q * L \<le> n" "n < t + q * L + L" "n mod L = r" and only: "\<And>m. t + q * L \<le> m \<Longrightarrow> m < t + q * L + L \<Longrightarrow> m mod L = r \<Longrightarrow> m = n"
    using one_in_block [OF assms, of "t + q * L"] by blast
  have "{n. t \<le> n \<and> n < t + Suc q * L \<and> n mod L = r} = insert n {n. t \<le> n \<and> n < t + q * L \<and> n mod L = r}"
  proof (intro set_eqI iffI)
    fix m assume m: "m \<in> {n. t \<le> n \<and> n < t + Suc q * L \<and> n mod L = r}"
    then show "m \<in> insert n {n. t \<le> n \<and> n < t + q * L \<and> n mod L = r}"
      using only [of m] by (cases "m < t + q * L") auto
  next
    fix m assume "m \<in> insert n {n. t \<le> n \<and> n < t + q * L \<and> n mod L = r}"
    then show "m \<in> {n. t \<le> n \<and> n < t + Suc q * L \<and> n mod L = r}" using n by auto
  qed
  moreover have "n \<notin> {n. t \<le> n \<and> n < t + q * L \<and> n mod L = r}" using n(1) by simp
  ultimately show ?case using Suc by simp
qed simp

lemma accepted_residues:
  assumes "rem < (limit :: 64 word)"
  shows "card {v. - limit mod limit \<le> v \<and> v mod limit = rem} = 2 ^ 64 div unat limit"
proof -
  let ?L = "unat limit" and ?S = "{v. - limit mod limit \<le> v \<and> v mod limit = rem}"
  have L: "0 < ?L" "unat rem < ?L" using assms by (auto simp: word_less_nat_alt)
  then have nz: "limit \<noteq> 0" by auto
  have "unat (- limit) = 2 ^ 64 - ?L" proof -
    have "uint (- limit) = 2 ^ 64 - uint limit"
      using nz uint_lt2p [of limit] uint_ge_0 [of limit] by (simp add: uint_word_ariths zmod_zminus1_eq_if uint_0_iff)
    then have "int (unat (- limit) + ?L) = int (2 ^ 64)" by simp
    then have "unat (- limit) + ?L = 2 ^ 64" by (simp only: of_nat_eq_iff)
    then show ?thesis by linarith
  qed
  moreover have "?L \<le> 2 ^ 64" using unsigned_less [where ?'a = nat, of limit] by simp
  ultimately have t: "unat (- limit mod limit) = 2 ^ 64 mod ?L" by (simp only: unat_mod le_mod_geq [of ?L "2 ^ 64"])
  have "unat ` ?S = {n. 2 ^ 64 mod ?L \<le> n \<and> n < 2 ^ 64 \<and> n mod ?L = unat rem}"
  proof (intro set_eqI iffI)
    fix n assume "n \<in> unat ` ?S"
    then obtain v where v: "n = unat v" "- limit mod limit \<le> v" "v mod limit = rem" by auto
    then show "n \<in> {n. 2 ^ 64 mod ?L \<le> n \<and> n < 2 ^ 64 \<and> n mod ?L = unat rem}"
      using unsigned_less [where ?'a = nat, of v] t by (auto simp: word_le_nat_alt unat_mod [symmetric])
  next
    fix n assume n: "n \<in> {n. 2 ^ 64 mod ?L \<le> n \<and> n < 2 ^ 64 \<and> n mod ?L = unat rem}"
    then have bk: "unat (of_nat n :: 64 word) = n" by (simp add: unat_of_nat)
    have "unat (of_nat n mod limit) = unat rem" using n bk by (simp only: unat_mod mem_Collect_eq)
    then have "of_nat n mod limit = rem" by (simp only: word_unat_eq_iff)
    moreover have "- limit mod limit \<le> of_nat n" using n bk t by (simp only: word_le_nat_alt mem_Collect_eq)
    ultimately show "n \<in> unat ` ?S" using bk by (intro image_eqI [of _ _ "of_nat n"]) (simp_all only: mem_Collect_eq)
  qed
  moreover have "(2 :: nat) ^ 64 = 2 ^ 64 mod ?L + (2 ^ 64 div ?L) * ?L" by simp
  ultimately have "card (unat ` ?S) = 2 ^ 64 div ?L" using residues_in_blocks [OF L(2), of "2 ^ 64 mod ?L" "2 ^ 64 div ?L"] by simp
  then show ?thesis by (simp only: card_image [OF inj_unat])
qed

section \<open>Shares of traffic\<close>

lemma partitionLoop_None:
  "partitionLoop index seen totalWeight ps = None \<Longrightarrow>
     distinct (map tpn_ID ps) \<and> set (map tpn_ID ps) \<inter> set seen = {} \<and>
     (\<forall>p \<in> set ps. tpn_ID p \<noteq> '''' \<and> tpn_ModeID p \<noteq> '''' \<and> 5 \<le> tpn_Capacity p \<and> tpn_Capacity p \<le> 7 \<and> tpn_TrafficWeight p \<noteq> 0) \<and>
     unat totalWeight + (\<Sum>p \<leftarrow> ps. unat (tpn_TrafficWeight p)) < 2 ^ 64"
proof (induction ps arbitrary: index seen totalWeight)
  case Nil
  then show ?case using unsigned_less [where ?'a = nat, of totalWeight] by simp
next
  case (Cons p ps)
  have p: "tpn_ID p \<noteq> ''''" "tpn_ModeID p \<noteq> ''''" "5 \<le> tpn_Capacity p" "tpn_Capacity p \<le> 7" "tpn_TrafficWeight p \<noteq> 0" "tpn_ID p \<notin> set seen"
    and le: "\<not> - 1 - totalWeight < tpn_TrafficWeight p"
    and rest: "partitionLoop (index + 1) (tpn_ID p # seen) (totalWeight + tpn_TrafficWeight p) ps = None"
    using Cons.prems by (simp_all add: MaxUint64_def room_size_defs split: if_splits)
  have "(- 1 :: 64 word) = 0xffffffffffffffff" by simp
  then have top: "unat (- 1 :: 64 word) = 2 ^ 64 - 1" by (simp only: unat_numeral) simp
  have "unat (- 1 - totalWeight) = unat (- 1 :: 64 word) - unat totalWeight" by (rule unat_sub) simp
  then have "unat (tpn_TrafficWeight p) + unat totalWeight < 2 ^ 64"
    using le unsigned_less [where ?'a = nat, of totalWeight] by (simp add: word_less_nat_alt top)
  then have "unat (totalWeight + tpn_TrafficWeight p) = unat totalWeight + unat (tpn_TrafficWeight p)"
    by (simp add: unat_plus_if')
  then show ?case using Cons.IH [OF rest] p by auto
qed

lemma SimConfig_Validate_None:
  assumes "SimConfig_Validate c = None"
  shows "scf_StartedAt c \<noteq> 0" "0 < scf_TicketCount c" "scf_TicketCount c \<le> maxTicketCount" "0 < scf_ArrivalRatePerSecond c" "f64_finite (scf_ArrivalRatePerSecond c)"
    "f64_finite (scf_SkillMean c)" "0 < scf_RatingUncertainty c" "f64_finite (scf_RatingUncertainty c)" "0 \<le> scf_PerformanceDeviation c"
    "f64_finite (scf_PerformanceDeviation c)" "scf_RatingModelVersion c \<noteq> ''''" "scf_TournamentPartitions c \<noteq> []"
    "partitionLoop 0 [] 0 (scf_TournamentPartitions c) = None"
  using assms by (auto simp: SimConfig_Validate_def sim_positiveFinite_def sim_nonNegativeFinite_def split: if_splits)

lemma partitionWeight_sum:
  assumes "(\<Sum>p \<leftarrow> ps. unat (tpn_TrafficWeight p)) < 2 ^ 64"
  shows "unat (partitionWeight ps) = (\<Sum>p \<leftarrow> ps. unat (tpn_TrafficWeight p))"
proof -
  have "unat acc + (\<Sum>p \<leftarrow> ps. unat (tpn_TrafficWeight p)) < 2 ^ 64 \<Longrightarrow>
      unat (foldl (\<lambda>total p. total + tpn_TrafficWeight p) acc ps) = unat acc + (\<Sum>p \<leftarrow> ps. unat (tpn_TrafficWeight p))" for acc
  proof (induction ps arbitrary: acc)
    case (Cons p ps)
    then have "unat (acc + tpn_TrafficWeight p) = unat acc + unat (tpn_TrafficWeight p)" by (simp add: unat_plus_if')
    then show ?case using Cons by simp
  qed simp
  from this [of 0] show ?thesis using assms by (simp add: partitionWeight_def)
qed

lemma choosePartition_mem: "ps \<noteq> [] \<Longrightarrow> choosePartition ps t \<in> set ps"
  by (induction ps t rule: choosePartition.induct) auto

lemma card_words_below: "card {t :: 64 word. t < w} = unat w"
proof -
  have "unat ` {t :: 64 word. t < w} = {..< unat w}"
  proof (intro set_eqI iffI)
    fix n assume n: "n \<in> {..< unat w}"
    then have "unat (of_nat n :: 64 word) = n" using unsigned_less [where ?'a = nat, of w] by (simp add: unat_of_nat)
    then show "n \<in> unat ` {t :: 64 word. t < w}" using n by (intro image_eqI [of _ _ "of_nat n"]) (simp_all add: word_less_nat_alt)
  qed (auto simp: word_less_nat_alt)
  then show ?thesis using card_image [OF inj_unat, of "{t. t < w}"] by simp
qed

text \<open>Of the targets below the total weight, a partition is chosen by as many as it has weight.\<close>

lemma chosen_targets:
  assumes "distinct ps" "p \<in> set ps" "(\<Sum>p \<leftarrow> ps. unat (tpn_TrafficWeight p)) < 2 ^ 64"
  shows "card {t. unat t < (\<Sum>p \<leftarrow> ps. unat (tpn_TrafficWeight p)) \<and> choosePartition ps t = p} = unat (tpn_TrafficWeight p)"
  using assms
proof (induction ps)
  case (Cons h ps)
  let ?w = "tpn_TrafficWeight h" and ?W = "\<Sum>p \<leftarrow> ps. unat (tpn_TrafficWeight p)"
  show ?case
  proof (cases "ps = []")
    case True
    then show ?thesis using Cons.prems card_words_below [of ?w] by (simp add: word_less_nat_alt)
  next
    case False
    have choose: "choosePartition (h # ps) t = (if t < ?w then h else choosePartition ps (t - ?w))" for t using False by (cases ps) auto
    show ?thesis
    proof (cases "p = h")
      case True
      have "choosePartition ps t \<noteq> h" for t using choosePartition_mem [OF False, of t] Cons.prems(1) by auto
      then have "{t. unat t < (\<Sum>p \<leftarrow> h # ps. unat (tpn_TrafficWeight p)) \<and> choosePartition (h # ps) t = p} = {t. t < ?w}"
        using True by (auto simp: choose word_less_nat_alt)
      then show ?thesis using True card_words_below by simp
    next
      case other: False
      let ?T = "{t. unat t < ?W \<and> choosePartition ps t = p}"
      have plus: "unat (t + ?w) = unat t + unat ?w" if "unat t < ?W" for t using that Cons.prems(3) by (simp add: unat_plus_if')
      have "{t. unat t < (\<Sum>p \<leftarrow> h # ps. unat (tpn_TrafficWeight p)) \<and> choosePartition (h # ps) t = p} = (\<lambda>t. t + ?w) ` ?T"
      proof (intro set_eqI iffI)
        fix t assume t: "t \<in> {t. unat t < (\<Sum>p \<leftarrow> h # ps. unat (tpn_TrafficWeight p)) \<and> choosePartition (h # ps) t = p}"
        then have ge: "\<not> t < ?w" "choosePartition ps (t - ?w) = p" using other by (auto simp: choose split: if_splits)
        then have "unat (t - ?w) = unat t - unat ?w" by (intro unat_sub) simp
        then have "t - ?w \<in> ?T" using t ge by (simp add: word_less_nat_alt) linarith
        then show "t \<in> (\<lambda>t. t + ?w) ` ?T" by (intro image_eqI [of _ _ "t - ?w"]) simp_all
      next
        fix t assume "t \<in> (\<lambda>t. t + ?w) ` ?T"
        then obtain u where u: "t = u + ?w" "u \<in> ?T" by auto
        then have "\<not> t < ?w" "unat t < unat ?w + ?W" using plus [of u] by (simp_all add: word_less_nat_alt)
        then show "t \<in> {t. unat t < (\<Sum>p \<leftarrow> h # ps. unat (tpn_TrafficWeight p)) \<and> choosePartition (h # ps) t = p}" using u by (simp add: choose)
      qed
      then show ?thesis using Cons other by (simp add: card_image inj_on_def)
    qed
  qed
qed simp


section \<open>Uniform draws\<close>

text \<open>The 53 bits of a draw and their middle point lie below \<open>2 ^ 53\<close>, but the sum is rounded to even, and so the greatest draw is one.\<close>

lemma f64_half_bits: "f64_round (2 ^ 53 - 1 / 2) = Fin (2 ^ 53)"
proof -
  have e: "expo (2 ^ 53 - 1 / 2) = 52" by (rule expo_eqI) simp_all
  have "\<lfloor>(2 ^ 53 - 1 / 2 :: real)\<rfloor> = 2 ^ 53 - 1" by (rule floor_unique) simp_all
  then have "rne (2 ^ 53 - 1 / 2) = 2 ^ 53" by (simp add: rne_def Let_def)
  then have "round_mag (2 ^ 53 - 1 / 2) = 2 ^ 53" using e by (simp add: round_mag_def)
  moreover have "(2 ^ 53 - 1 / 2 :: real) < f64_threshold" by (simp add: f64_threshold_def)
  ultimately show ?thesis by (simp add: f64_round_def)
qed

lemma is_f64_scaled:
  assumes "\<bar>m\<bar> \<le> 2 ^ 53" "-1074 \<le> k" "k \<le> 0"
  shows "is_f64 (Fin (of_int m * 2 powi k))"
proof -
  have "(2 :: real) powi k \<le> 1" using assms(3) powi2_le_iff [of k 0] by simp
  moreover have "\<bar>real_of_int m\<bar> \<le> of_int (2 ^ 53)" using assms(1) by (simp only: of_int_abs [symmetric] of_int_le_iff)
  ultimately have "\<bar>real_of_int m\<bar> * 2 powi k \<le> 2 ^ 53 * 1" by (intro mult_mono) simp_all
  then have "\<bar>of_int m * (2 :: real) powi k\<bar> \<le> 2 ^ 53" by (simp add: abs_mult)
  also have "\<dots> < f64_threshold" by (simp add: f64_threshold_def)
  finally have "f64_round (of_int m * 2 powi k) = Fin (of_int m * 2 powi k)" using assms by (intro f64_round_exact [of _ m k]) simp_all
  then show ?thesis by simp
qed

lemma uniformOf_range:
  "\<exists>u. uniformOf v = Fin u \<and> 0 < u \<and> u \<le> 1 \<and> (u = 1 \<longleftrightarrow> uint (drop_bit 11 v) = 2 ^ 53 - 1)"
proof -
  define k where "k = uint (drop_bit 11 v)"
  have k: "0 \<le> k" "k < 2 ^ 53" using uint_lt2p [of v] by (simp_all add: k_def uint_drop_bit div_less_iff_less_mult pos_imp_zdiv_nonneg_iff)
  then have "f64_of_int k = Fin (of_int k)" by (simp add: f64_of_int_def f64_round_of_int)
  moreover have half: "is_f64 (Fin (1 / 2))" and top: "is_f64 (Fin (2 ^ 53))" and below: "is_f64 (Fin (2 ^ 53 - 1))"
    and least: "is_f64 (Fin (1 / 2 ^ 54))" and last: "is_f64 (Fin ((2 ^ 53 - 1) / 2 ^ 53))" and one: "is_f64 (Fin 1)"
    using is_f64_scaled [of 1 "-1"] is_f64_scaled [of "2 ^ 53" 0] is_f64_scaled [of "2 ^ 53 - 1" 0] is_f64_scaled [of 1 "-54"]
      is_f64_scaled [of "2 ^ 53 - 1" "-53"] by (simp_all add: power_int_def power_one_over)
  moreover have sum: "real_of_int k + 1 / 2 \<le> 2 ^ 53"
  proof -
    have "real_of_int k \<le> of_int (2 ^ 53 - 1)" unfolding of_int_le_iff using k by linarith
    then show ?thesis by simp
  qed
  ultimately obtain s where s: "f64_of_int k + Fin (1 / 2) = Fin s" "1 / 2 \<le> s" "s \<le> 2 ^ 53" "f64_round (of_int k + 1 / 2) = Fin s"
    using f64_round_between [OF half top _ sum] k by auto
  have lower: "real_of_int k + 1 / 2 \<le> 2 ^ 53 - 1" if "k \<noteq> 2 ^ 53 - 1"
  proof -
    have "real_of_int k \<le> of_int (2 ^ 53 - 2)" unfolding of_int_le_iff using k that by linarith
    then show ?thesis by simp
  qed
  have hit: "s = 2 ^ 53 \<longleftrightarrow> k = 2 ^ 53 - 1"
  proof
    assume eq: "s = 2 ^ 53"
    show "k = 2 ^ 53 - 1"
    proof (rule ccontr)
      assume "k \<noteq> 2 ^ 53 - 1"
      then have "real_of_int k + 1 / 2 \<le> 2 ^ 53 - 1" by (rule lower)
      from f64_round_le [OF below this] show False using s(4) eq by simp
    qed
  next
    assume "k = 2 ^ 53 - 1"
    then have "real_of_int k + 1 / 2 = 2 ^ 53 - 1 / 2" by simp
    then show "s = 2 ^ 53" using s(4) f64_half_bits by simp
  qed
  have drawn: "uniformOf v = f64_round (s / 2 ^ 53)" using s(1) by (simp add: uniformOf_def k_def)
  show ?thesis
  proof (cases "s = 2 ^ 53")
    case True
    then show ?thesis using drawn hit k_def by simp
  next
    case False
    then have "k \<noteq> 2 ^ 53 - 1" using hit by simp
    then have "real_of_int k + 1 / 2 \<le> 2 ^ 53 - 1" by (rule lower)
    then have "s \<le> 2 ^ 53 - 1" using f64_round_le [OF below] s(4) by fastforce
    then have "1 / 2 ^ 54 \<le> s / 2 ^ 53" "s / 2 ^ 53 \<le> (2 ^ 53 - 1) / 2 ^ 53" using s(2) by simp_all
    from f64_round_between [OF least last this] obtain u where "uniformOf v = Fin u" "1 / 2 ^ 54 \<le> u" "u \<le> (2 ^ 53 - 1) / 2 ^ 53" using drawn by auto
    then show ?thesis using hit False k_def by (intro exI [of _ u]) auto
  qed
qed

section \<open>What a workload holds\<close>

lemma arrivalDelay_positive: "arrivalDelay mth u rate = Inr delay \<Longrightarrow> 0 < delay"
  by (auto simp: arrivalDelay_def Let_def nanosecond_def split: if_splits)

lemma decimal_digits: "set (decimal n) \<subseteq> {c. 48 \<le> (of_char c :: nat) \<and> (of_char c :: nat) \<le> 57}"
  by (induction n rule: decimal.induct) (subst decimal.simps, auto simp del: decimal.simps)

fun digitsValue :: "string \<Rightarrow> nat" where
  "digitsValue s = foldl (\<lambda>n c. n * 10 + (of_char c - 48)) 0 s"

lemma digitsValue_decimal: "digitsValue (decimal n) = n"
proof (induction n rule: decimal.induct)
  case (1 n)
  then show ?case by (subst decimal.simps) (auto simp del: decimal.simps)
qed

lemma digitsValue_zeros: "digitsValue (replicate k CHR ''0'' @ s) = digitsValue s"
  by (induction k) auto

lemma sixDigits_inj: "sixDigits m = sixDigits n \<longleftrightarrow> m = n"
  by (metis sixDigits_def digitsValue_zeros digitsValue_decimal)

text \<open>What the loop has made of the arrivals.\<close>

lemma arrivalLoop_Inr:
  assumes "arrivalLoop mth c weight n index t r = Some (Inr arrivals)" "scf_TournamentPartitions c \<noteq> []"
  shows "length arrivals = n \<and> sorted_wrt (<) (t # map arv_ArrivedAt arrivals) \<and>
    (\<forall>i < n. \<exists>p skill mean. arrivals ! i = newArrival c (index + i) (arv_ArrivedAt (arrivals ! i)) p skill mean \<and>
       p \<in> set (scf_TournamentPartitions c) \<and> f64_finite skill \<and> f64_finite mean)"
  using assms(1)
proof (induction n arbitrary: index t r arrivals)
  case 0
  then show ?case by simp
next
  case (Suc n)
  obtain delay target r' skill mean r'' rest where d: "0 < delay" and fin: "f64_finite skill" "f64_finite mean"
    and loop: "arrivalLoop mth c weight n (index + 1) (t + delay) r'' = Some (Inr rest)"
    and arr: "arrivals = newArrival c index (t + delay) (choosePartition (scf_TournamentPartitions c) target) skill mean # rest"
    using Suc.prems
    by (auto simp: Let_def split: prod.splits sum.splits option.splits if_splits dest: arrivalDelay_positive)
  note IH = Suc.IH [OF loop]
  have "sorted_wrt (<) (t # map arv_ArrivedAt arrivals)" using IH d by (auto simp: arr newArrival_def)
  moreover have "\<exists>p skill mean. arrivals ! i = newArrival c (index + i) (arv_ArrivedAt (arrivals ! i)) p skill mean \<and>
      p \<in> set (scf_TournamentPartitions c) \<and> f64_finite skill \<and> f64_finite mean" if "i < Suc n" for i
  proof (cases i)
    case 0
    then show ?thesis using fin choosePartition_mem [OF assms(2)] by (auto simp: arr newArrival_def)
  next
    case (Suc j)
    then show ?thesis using IH that by (auto simp: arr)
  qed
  ultimately show ?case using IH arr by simp
qed

lemma arrivalLoop_returns:
  assumes "weight \<noteq> 0"
  shows "arrivalLoop mth c weight n index t r \<noteq> None"
proof (induction n arbitrary: index t r)
  case (Suc n)
  then show ?case using bounded_returns [OF assms]
    by (simp add: Let_def split: prod.splits sum.splits option.splits) (metis option.distinct(1))
qed simp

section \<open>Outcomes are independent of the order of the participants\<close>

definition rankedOf :: "simMath \<Rightarrow> SimConfig \<Rightarrow> OutcomeRequest \<Rightarrow> OutcomeParticipant \<Rightarrow> rankedParticipant" where
  "rankedOf mth g request participant = \<lparr>rkp_playerID = ocp_PlayerID participant, rkp_performance = outcomePerformance mth g request participant\<rparr>"

definition performed :: "simMath \<Rightarrow> SimConfig \<Rightarrow> OutcomeRequest \<Rightarrow> OutcomeParticipant \<Rightarrow> bool" where
  "performed mth g request participant \<longleftrightarrow>
     ocp_PlayerID participant \<noteq> '''' \<and> f64_finite (ocp_LatentSkill participant) \<and> f64_finite (outcomePerformance mth g request participant)"

lemma performanceLoop_Inr:
  "performanceLoop mth g request index seen ps = Inr ranked \<longleftrightarrow>
     (\<forall>p \<in> set ps. performed mth g request p) \<and> distinct (map ocp_PlayerID ps) \<and> set (map ocp_PlayerID ps) \<inter> set seen = {} \<and>
     ranked = map (rankedOf mth g request) ps"
proof (induction ps arbitrary: index seen ranked)
  case (Cons p ps)
  show ?case
  proof (cases "performed mth g request p \<and> ocp_PlayerID p \<notin> set seen")
    case True
    then have "performanceLoop mth g request index seen (p # ps) =
        rbind (performanceLoop mth g request (index + 1) (ocp_PlayerID p # seen) ps) (\<lambda>ranked. Inr (rankedOf mth g request p # ranked))"
      by (simp add: performed_def rankedOf_def)
    then show ?thesis using True Cons.IH by auto
  next
    case False
    then show ?thesis by (auto simp: performed_def Let_def split: if_splits)
  qed
qed auto

definition finiteRanked :: "rankedParticipant set" where "finiteRanked = {p. f64_finite (rkp_performance p)}"

lemma compareRanked_cases:
  assumes "x \<in> finiteRanked" "y \<in> finiteRanked" "rkp_performance x = Fin a" "rkp_performance y = Fin b"
  shows "compareRanked x y \<le> 0 \<longleftrightarrow> b < a \<or> a = b \<and> rkp_playerID x \<le> rkp_playerID y"
    and "0 \<le> compareRanked x y \<longleftrightarrow> a < b \<or> a = b \<and> rkp_playerID y \<le> rkp_playerID x"
  using assms(3,4) by (auto simp: compareRanked_def)

interpretation outcome_order: go_compare compareRanked finiteRanked
proof
  fix x y assume xy: "x \<in> finiteRanked" "y \<in> finiteRanked"
  then obtain a b where "rkp_performance x = Fin a" "rkp_performance y = Fin b" by (auto simp: finiteRanked_def f64_finite_iff)
  then show "compareRanked x y \<le> 0 \<longleftrightarrow> 0 \<le> compareRanked y x" using compareRanked_cases xy by metis
next
  fix x y z assume xyz: "x \<in> finiteRanked" "y \<in> finiteRanked" "z \<in> finiteRanked" and le: "compareRanked x y \<le> 0" "compareRanked y z \<le> 0"
  then obtain a b c where "rkp_performance x = Fin a" "rkp_performance y = Fin b" "rkp_performance z = Fin c" by (auto simp: finiteRanked_def f64_finite_iff)
  then show "compareRanked x z \<le> 0" using le xyz by (auto simp: compareRanked_cases)
qed

lemma ranked_perm:
  assumes "mset xs = mset ys" "set xs \<subseteq> finiteRanked" "distinct (map rkp_playerID xs)"
  shows "sort_cmp compareRanked xs = sort_cmp compareRanked ys"
proof (rule sorted_wrt_unique)
  have "set ys \<subseteq> finiteRanked" using assms(1,2) by (metis set_mset_mset)
  then show "sorted_wrt (\<lambda>a b. compareRanked a b \<le> 0) (sort_cmp compareRanked ys)" by (rule outcome_order.sorted_sort_cmp)
  show "sorted_wrt (\<lambda>a b. compareRanked a b \<le> 0) (sort_cmp compareRanked xs)" by (rule outcome_order.sorted_sort_cmp [OF assms(2)])
  fix x y assume x: "x \<in> set (sort_cmp compareRanked xs)" and y: "y \<in> set (sort_cmp compareRanked xs)" and le: "compareRanked x y \<le> 0" "compareRanked y x \<le> 0"
  have mem: "x \<in> finiteRanked" "y \<in> finiteRanked" using x y assms(2) by auto
  then obtain a b where "rkp_performance x = Fin a" "rkp_performance y = Fin b" by (auto simp: finiteRanked_def f64_finite_iff)
  then have "rkp_playerID x = rkp_playerID y" using le mem by (auto simp: compareRanked_cases)
  then show "x = y" using assms(3) x y by (auto simp: distinct_map dest: inj_onD)
qed (use assms(1) in simp)

lemma map_indexed_fst: "map (\<lambda>p. f (fst p)) (indexed xs) = map f [0..<length xs]"
proof -
  have "map fst (indexed xs) = [0..<length xs]" by (simp add: indexed_def)
  then have "map f (map fst (indexed xs)) = map f [0..<length xs]" by (rule arg_cong)
  then show ?thesis by (simp add: comp_def)
qed

lemma upto_map_upt: "map (\<lambda>i. int i + 1) [0..<n] = [1..int n]"
  by (induction n) (simp_all add: upto_rec2)

text \<open>
  C39. A generated outcome ranks the room by performance, whatever the order in which its participants are listed: when an outcome is generated, it is a complete result,
  its places are one to the size of the room without a gap, a better place never has a worse performance, and every other order
  of the same participants gives the same result.
\<close>

theorem outcome_ranks:
  assumes "GenerateOutcome mth g request = Inr result" "mset ps = mset (orq_Participants request)"
  shows "GenerateOutcome mth g (request\<lparr>orq_Participants := ps\<rparr>) = Inr result \<and> completeResult result \<and>
    map pr_Place (mr_Participants result) = [1..int (length ps)] \<and>
    (\<exists>order. mset order = mset ps \<and> map pr_PlayerID (mr_Participants result) = map ocp_PlayerID order \<and>
       sorted_wrt (\<lambda>a b. outcomePerformance mth g request b \<le> outcomePerformance mth g request a) order)"
proof -
  let ?rank = "rankedOf mth g request" and ?qs = "orq_Participants request"
  obtain part where part: "findPartition (scf_TournamentPartitions g) (orq_PartitionID request) = Some part" "int (length ?qs) = tpn_Capacity part"
    using assms(1) by (auto simp: GenerateOutcome_def split: option.splits if_splits)
  obtain ranked where ranked: "performanceLoop mth g request 0 [] ?qs = Inr ranked"
    using assms(1) part by (auto simp: GenerateOutcome_def)
  then have all: "\<forall>p \<in> set ?qs. performed mth g request p" "distinct (map ocp_PlayerID ?qs)" "ranked = map ?rank ?qs"
    by (simp_all add: performanceLoop_Inr)
  have same: "performed mth g (request\<lparr>orq_Participants := ps\<rparr>) = performed mth g request" "rankedOf mth g (request\<lparr>orq_Participants := ps\<rparr>) = ?rank"
    by (simp_all add: fun_eq_iff performed_def rankedOf_def outcomePerformance_def)
  have perm: "set ps = set ?qs" "length ps = length ?qs" "distinct (map ocp_PlayerID ps)"
    using assms(2) all(2) by (metis set_mset_mset, metis size_mset, metis distinct_map mset_eq_imp_distinct_iff mset_map set_mset_mset)
  have other: "performanceLoop mth g (request\<lparr>orq_Participants := ps\<rparr>) 0 [] ps = Inr (map ?rank ps)"
    using all(1) perm by (simp add: performanceLoop_Inr same)
  have fin: "set (map ?rank ?qs) \<subseteq> finiteRanked" "distinct (map rkp_playerID (map ?rank ?qs))"
    using all by (auto simp: finiteRanked_def rankedOf_def performed_def comp_def)
  have sort: "sort_cmp compareRanked (map ?rank ps) = sort_cmp compareRanked (map ?rank ?qs)"
    by (rule ranked_perm [symmetric]) (use fin assms(2) in simp_all)
  have again: "GenerateOutcome mth g (request\<lparr>orq_Participants := ps\<rparr>) = GenerateOutcome mth g request"
    using part ranked all(3) perm(2) other sort by (simp add: GenerateOutcome_def)
  let ?sorted = "sort_cmp compareRanked (map ?rank ?qs)"
  have res: "MatchResult_Validate result = None"
      "mr_Participants result = map (\<lambda>(index, p). \<lparr>pr_PlayerID = rkp_playerID p, pr_Place = int index + 1, pr_Features = noFeatures\<rparr>) (indexed ?sorted)"
    using assms(1) part ranked all(3) by (auto simp: GenerateOutcome_def Let_def)
  let ?order = "sort_cmp (\<lambda>a b. compareRanked (?rank a) (?rank b)) ?qs"
  have order: "?sorted = map ?rank ?order" by (rule sort_cmp_map) simp
  have "map pr_Place (mr_Participants result) = [1..int (length ps)]"
    using perm(2) by (simp add: res(2) map_indexed_fst [of "\<lambda>i. int i + 1"] comp_def case_prod_unfold upto_map_upt)
  moreover have "map pr_PlayerID (mr_Participants result) = map ocp_PlayerID ?order"
  proof -
    have "map pr_PlayerID (mr_Participants result) = map rkp_playerID (map snd (indexed ?sorted))"
      unfolding res(2) map_map by (simp add: comp_def case_prod_unfold)
    also have "\<dots> = map ocp_PlayerID ?order" unfolding snd_indexed order by (simp add: rankedOf_def comp_def)
    finally show ?thesis .
  qed
  moreover have "sorted_wrt (\<lambda>a b. outcomePerformance mth g request b \<le> outcomePerformance mth g request a) ?order"
  proof -
    have "sorted_wrt (\<lambda>a b. compareRanked (?rank a) (?rank b) \<le> 0) ?order"
      using outcome_order.sorted_sort_cmp [OF fin(1)] unfolding order sorted_wrt_map .
    then show ?thesis
    proof (rule sorted_wrt_mono_rel [rotated])
      fix a b assume ab: "a \<in> set ?order" "b \<in> set ?order" "compareRanked (?rank a) (?rank b) \<le> 0"
      then have "f64_finite (outcomePerformance mth g request a)" "f64_finite (outcomePerformance mth g request b)" using all(1) by (auto simp: performed_def)
      then show "outcomePerformance mth g request b \<le> outcomePerformance mth g request a"
        using ab(3) by (auto simp: compareRanked_def rankedOf_def f64_finite_iff split: if_splits)
    qed
  qed
  ultimately show ?thesis using again assms res(1) by (intro conjI exI [of _ ?order]) (simp_all add: MatchResult_Validate_complete)
qed

section \<open>Instances\<close>

lemma SimDefaultConfig_valid:
  assumes "t \<noteq> 0"
  shows "SimConfig_Validate (SimDefaultConfig t seed) = None"
proof -
  have "sim_nonNegativeFinite (f64_round (25 / 3))" "sim_nonNegativeFinite (f64_round (25 / 6))"
    using f64_round_between [of 0 "2 ^ 53" "25 / 3"] f64_round_between [of 0 "2 ^ 53" "25 / 6"] is_f64_scaled [of "2 ^ 53" 0]
    by (auto simp: sim_nonNegativeFinite_def)
  then show ?thesis
    using assms by (simp add: SimConfig_Validate_def SimDefaultConfig_def sim_positiveFinite_def maxTicketCount_def MaxUint64_def room_size_defs)
qed

lemma default_weight: "partitionWeight (scf_TournamentPartitions (SimDefaultConfig t seed)) = 100"
  by (simp add: partitionWeight_def SimDefaultConfig_def)


text \<open>
  C40. One seed has no workload: the draws of \<open>uniform\<close> lie above zero and not above one, but the greatest is one itself, since the sum of 53 set bits and a half is
  rounded up. For the seed below the first draw is that one, the delay is infinite by the documented value of the logarithm at zero, and the default
  configuration, which is valid, is refused with an error at its first arrival.
\<close>

theorem unlucky_seed:
  assumes "sm_Log1p mth (Fin (- 1)) = NInf" "startedAt \<noteq> 0"
  shows "(\<forall>r. \<exists>u. fst (uniform r) = Fin u \<and> 0 < u \<and> u \<le> 1) \<and> fst (uniform 0x31628af67b2131ab) = Fin 1 \<and>
    SimConfig_Validate (SimDefaultConfig startedAt 0x31628af67b2131ab) = None \<and>
    GenerateWorkload mth (SimDefaultConfig startedAt 0x31628af67b2131ab) =
      Some (Inl (Errorf ''generate arrival %d: %w'' [ArgI 1] (Some (ErrorsNew ''arrival delay exceeds time duration bounds''))))"
proof -
  have draw: "fst (uniform r) = uniformOf (fst (randomNext r))" for r by (simp add: uniform_def split: prod.splits)
  have "fst (randomNext 0x31628af67b2131ab) = 0xffffffffffffffff"
    by (simp add: randomNext_def mixState_def Let_def)
  moreover have "uint (drop_bit 11 (0xffffffffffffffff :: 64 word)) = 2 ^ 53 - 1" by (simp add: uint_drop_bit)
  ultimately have one: "fst (uniform 0x31628af67b2131ab) = Fin 1"
    using uniformOf_range [of "0xffffffffffffffff"] by (auto simp: draw)
  then obtain r where first: "uniform 0x31628af67b2131ab = (Fin 1, r)" by (metis prod.collapse)
  have "f64_of_int second = Fin 1000000000" using f64_round_of_int [of 1000000000] by (simp add: f64_of_int_def second_def)
  then have infinite: "PInf / Fin 5 * f64_of_int second = PInf" by (simp add: divide_f64_def times_f64_def signed_inf_def)
  have "arrivalDelay mth (Fin 1) (Fin 5) = Inl (ErrorsNew ''arrival delay exceeds time duration bounds'')"
    using assms(1) by (simp add: arrivalDelay_def Let_def infinite)
  then have "GenerateWorkload mth (SimDefaultConfig startedAt 0x31628af67b2131ab) =
      Some (Inl (Errorf ''generate arrival %d: %w'' [ArgI 1] (Some (ErrorsNew ''arrival delay exceeds time duration bounds''))))"
    using first by (simp add: GenerateWorkload_def SimDefaultConfig_def numeral_eq_Suc)
  moreover have "\<exists>u. fst (uniform r) = Fin u \<and> 0 < u \<and> u \<le> 1" for r using uniformOf_range [of "fst (randomNext r)"] by (auto simp: draw)
  ultimately show ?thesis using one SimDefaultConfig_valid [OF assms(2)] by simp
qed

theorem unlucky_seed_witness:
  "GenerateWorkload \<lparr>sm_Log = \<lambda>x. x, sm_Log1p = \<lambda>x. if x = Fin (- 1) then NInf else x, sm_Cos = \<lambda>x. x, sm_int64 = \<lambda>x. 0\<rparr> (SimDefaultConfig 1 0x31628af67b2131ab) =
     Some (Inl (Errorf ''generate arrival %d: %w'' [ArgI 1] (Some (ErrorsNew ''arrival delay exceeds time duration bounds''))))"
  using unlucky_seed [of "\<lparr>sm_Log = \<lambda>x. x, sm_Log1p = \<lambda>x. if x = Fin (- 1) then NInf else x, sm_Cos = \<lambda>x. x, sm_int64 = \<lambda>x. 0\<rparr>" 1] by simp

text \<open>A room of five whose noise is nil: the places follow the skills.\<close>

definition flatMath :: simMath where
  "flatMath = \<lparr>sm_Log = \<lambda>x. Fin 0, sm_Log1p = \<lambda>x. x, sm_Cos = \<lambda>x. Fin 1, sm_int64 = \<lambda>x. 0\<rparr>"

definition outcomeConfig :: SimConfig where
  "outcomeConfig = (SimDefaultConfig 1 7)\<lparr>scf_PerformanceDeviation := Fin 4\<rparr>"

definition outcomeRequest :: OutcomeRequest where
  "outcomeRequest = \<lparr>orq_EventID = ''e'', orq_RoomID = ''room'', orq_PartitionID = ''classic-5-free-eu'', orq_DeckID = ''deck'', orq_ScoringRulesVersion = ''s'',
     orq_FinishedAt = 2, orq_AvailableAt = 3,
     orq_Participants = map (\<lambda>(player, skill). \<lparr>ocp_PlayerID = player, ocp_LatentSkill = Fin skill\<rparr>) [(''a'', 9), (''b'', 5), (''c'', 7), (''d'', 5), (''e'', 1)]\<rparr>"

lemma flat_normal: "fst (normal flatMath r) = Fin 0"
  by (simp add: normal_def flatMath_def Let_def split: prod.splits)

lemma flat_outcome:
  "\<exists>result. GenerateOutcome flatMath outcomeConfig outcomeRequest = Inr result \<and>
     map (\<lambda>p. (pr_PlayerID p, pr_Place p)) (mr_Participants result) = [(''a'', 1), (''c'', 2), (''b'', 3), (''d'', 4), (''e'', 5)]"
proof -
  have perf: "outcomePerformance flatMath outcomeConfig request p = ocp_LatentSkill p + Fin 0" for request p
    by (simp add: outcomePerformance_def outcomeConfig_def flat_normal)
  have ints: "Fin (of_int n) + Fin 0 = Fin (of_int n)" if "\<bar>n\<bar> \<le> 10" for n using that by (simp add: f64_round_of_int)
  have skills: "Fin 9 + Fin 0 = Fin 9" "Fin 5 + Fin 0 = Fin 5" "Fin 7 + Fin 0 = Fin 7" "Fin 1 + Fin 0 = Fin 1"
    using ints [of 9] ints [of 5] ints [of 7] ints [of 1] by simp_all
  have "performanceLoop flatMath outcomeConfig outcomeRequest 0 [] (orq_Participants outcomeRequest) =
      Inr (map (\<lambda>(player, skill). \<lparr>rkp_playerID = player, rkp_performance = Fin skill\<rparr>) [(''a'', 9), (''b'', 5), (''c'', 7), (''d'', 5), (''e'', 1)])"
    by (simp add: performanceLoop_Inr performed_def rankedOf_def perf skills outcomeRequest_def Let_def del: f64_add_Fin)
  then show ?thesis
    by (simp add: GenerateOutcome_def findPartition_def outcomeConfig_def SimDefaultConfig_def outcomeRequest_def compareRanked_def indexed_def
        MatchResult_Validate_def room_size_defs noFeatures_def Features_Validate_def Let_def)
qed

theorem outcome_ranks_witness:
  "\<exists>result. GenerateOutcome flatMath outcomeConfig outcomeRequest = Inr result \<and>
     GenerateOutcome flatMath outcomeConfig (outcomeRequest\<lparr>orq_Participants := rev (orq_Participants outcomeRequest)\<rparr>) = Inr result \<and>
     map pr_Place (mr_Participants result) = [1, 2, 3, 4, 5]"
proof -
  obtain result where result: "GenerateOutcome flatMath outcomeConfig outcomeRequest = Inr result" using flat_outcome by auto
  have "[1..int (length (orq_Participants outcomeRequest))] = [1, 2, 3, 4, 5]" by (simp add: outcomeRequest_def upto_rec1)
  then show ?thesis using outcome_ranks [OF result, of "rev (orq_Participants outcomeRequest)"] result by auto
qed

end
