(* ===== verification/Spec2Isabelle.thy ===== *)
theory Spec2Isabelle
  imports Rating_Lifecycle Application Sim_Generator
begin

text \<open>
  A verification library of the Solitaire matchmaking and rating service, a Go program that queues players of an asynchronous
  solitaire tournament, forms rooms of five to seven of similar skill, collects their verified results and rates them.

  \<^bold>\<open>The program.\<close> A game backend sends tickets and results to the HTTP interface (\<^verbatim>\<open>internal/httpapi\<close>). The services of
  \<^verbatim>\<open>internal/tournament\<close> validate the commands and hand them to the PostgreSQL stores of \<^verbatim>\<open>internal/postgres\<close>, which record tickets, rooms,
  seats, sessions, results, ratings and, in the same transaction, events in an outbox. Five workers (\<^verbatim>\<open>internal/worker\<close>) run beside the server:
  the matchmaking worker claims queued tickets under a lease, loads the waiting rooms, decides with the pure packages \<^verbatim>\<open>pkg/matchmaking\<close> and
  \<^verbatim>\<open>pkg/rating\<close> and seats the ticket, schedules a retry or expires it; the rating worker turns each verified result into ratings; the
  result-deadline worker expires rooms whose results are overdue; the outbox worker delivers events over HTTP (\<^verbatim>\<open>internal/eventdelivery\<close>);
  the shadow worker evaluates a candidate rating model beside the active one. \<^verbatim>\<open>internal/application/run.go\<close> composes them from the
  environment variables \<^verbatim>\<open>internal/config\<close> reads.

  \<^bold>\<open>Theories and sources.\<close>
  \<^item> \<open>Go_Prelude\<close>, \<open>Go_Float\<close>: what the model uses of the language and its library: errors with wrapping and \<^verbatim>\<open>errors.Is\<close>, results as
    \<open>goerr + 'a\<close>, times and durations in nanoseconds, comparison functions and sorting, 64-bit arithmetic, IEEE doubles with rounding (\<open>f64\<close>).
  \<^item> \<open>Rating_Types\<close>, \<open>Rating_Baseline\<close>, \<open>Rating_Prediction\<close>, \<open>Rating_Calibration\<close>, \<open>Rating_Comparison\<close>, \<open>Rating_Lifecycle\<close>, \<open>Rating_Features\<close>,
    \<open>Rating_Dataset\<close>, \<open>Rating_Extended\<close>: the files of the same names in \<^verbatim>\<open>pkg/rating\<close>.
  \<^item> \<open>Match_Policy\<close>, \<open>Match_Eligibility\<close>, \<open>Match_Selection\<close>: \<^verbatim>\<open>policy.go\<close>, \<^verbatim>\<open>validation.go\<close>, \<^verbatim>\<open>priority.go\<close>, \<^verbatim>\<open>eligibility.go\<close>, \<^verbatim>\<open>selector.go\<close> and
    \<^verbatim>\<open>orchestration.go\<close> of \<^verbatim>\<open>pkg/matchmaking\<close>.
  \<^item> \<open>Tournament_Model\<close>: the types, commands, digests and services of \<^verbatim>\<open>internal/tournament\<close>.
  \<^item> \<open>Database\<close>: the tables and constraints of \<^verbatim>\<open>migrations\<close>, and statements, transactions and failures of the driver.
  \<^item> \<open>Ticket_Store\<close>, \<open>Outbox_Queue\<close>, \<open>Matchmaking_Queue\<close>, \<open>Result_Store\<close>, \<open>Rating_Queue\<close>, \<open>Query_Store\<close>, \<open>Shadow_Queue\<close>: the files of \<^verbatim>\<open>internal/postgres\<close>,
    one definition for each operation and one for each of its statements.
  \<^item> \<open>Store_Invariants\<close>, \<open>Result_Invariants\<close>, \<open>Rating_Invariants\<close>, \<open>Store_Steps\<close>, \<open>Ticket_Lifecycle\<close>, \<open>Result_Lifecycle\<close>: the invariants of the tables, the step
    relation of all store operations, and the properties of every reachable store.
  \<^item> \<open>Outbox_Worker\<close>, \<open>Match_Worker\<close>, \<open>Worker_Composition\<close>, \<open>Shadow_Worker\<close>: the cycles of the workers, and the workers on the stores.
  \<^item> \<open>Service_Config\<close>, \<open>Http_Api\<close>, \<open>Application\<close>: \<^verbatim>\<open>internal/config\<close>, \<^verbatim>\<open>internal/httpapi\<close>, \<^verbatim>\<open>internal/postgres/pool.go\<close>, \<^verbatim>\<open>internal/application\<close> and
    \<^verbatim>\<open>cmd/server\<close>.
  \<^item> \<open>Sim_Generator\<close>: \<^verbatim>\<open>internal/simulator/generator.go\<close>, the random source on 64-bit words, synthetic workloads and outcomes.

  \<^bold>\<open>State and operations.\<close> A Go struct is a record with the same fields under a short prefix, an enumeration a datatype. The database is the record
  \<open>Database\<close> with a list of rows for each table, in insertion order; \<open>ShadowStore\<close> adds the tables of the shadow mode. A store operation takes the
  failures it meets, the state and a command and returns a result with the state after it, which is the state before it unless its transaction
  committed. Failures (\<open>Faults\<close>) give every statement of the operation an error of its own by name, and tell whether a commit that reports an error took
  effect. CHECK, UNIQUE and foreign key constraints are tested on every write and give the error codes that the code maps. A worker cycle is a
  function of the queue it is given, its clock readings, its token and what other transactions do between its calls (\<open>meanwhile\<close>).

  \<^bold>\<open>What is shown.\<close> Arithmetic of the models: valid posteriors of every update, monotone in the place and independent of the order of the players; coherent
  placement probabilities; calibration and comparison reports that account for every observation; features and datasets without leakage from the
  future; audited activation and rollback of models. Matchmaking: the skill window, the order of waiting rooms, fairness of every room that can
  form, the best room selected, retries strictly in the future. Stores: in every state the operations reach, rooms, seats, sessions, tickets, results and ratings
  agree; the outbox has exactly one event for each version of an aggregate and delivers in order; repeated commands are answered as replays;
  the store refines an abstract lobby in which a ticket waits and is then seated, cancelled or expired for ever. Workers: no match on a stale view of a room, complete
  accounting of cycles, bounded backoff, reachability of everything they leave behind. Shadow mode: a ledger that agrees with itself and leaves the
  active tables alone. Interface and process: only the token of the configuration writes, queries answer complete rooms, and a configuration that loads starts.
  Simulation: draws that return and split the traffic exactly by weight, outcomes that do not depend on the order of the room, and one seed without a workload.

  \<^bold>\<open>Interfaces.\<close> \<open>go_compare\<close> and \<open>go_key_compare\<close> are the contract of the comparison functions that are handed to \<^verbatim>\<open>slices.SortFunc\<close> and of the orders of
  queries (sorted, a permutation, independent of the input order when the key decides); \<open>go_exp\<close> and \<open>go_exp_pos\<close> are what the models need of
  \<^verbatim>\<open>math.Exp\<close>, interpreted by the correctly rounded function; \<open>revision_fence\<close> is optimistic concurrency by revision, interpreted by the model deployment; \<open>stepped_store\<close> carries an invariant
  kept by every step to every reachable state and a relation kept by steps along runs, interpreted by the step relations of the stores and of
  the shadow mode.

  \<^bold>\<open>Parameters.\<close> Code that is not of the repository is an argument: \<open>Exp\<close> and \<open>Log\<close> (\<^verbatim>\<open>math.Exp\<close>, \<^verbatim>\<open>math.Log\<close>), \<open>digest\<close> and \<open>hash\<close> (SHA-256 of an encoded command or of
  a text), \<open>jsonText\<close>, \<open>unmarshal\<close> and \<open>decode\<close> (the JSON codec on the payloads that are read back), \<open>collate\<close> (the order of text in the database),
  \<open>locked\<close> (rows other transactions hold, which SKIP LOCKED passes over), the clock, random tokens, the URL parser, the driver's pool and the HTTP client, and for the simulation \<open>simMath\<close>. What a theorem
  needs of one of them is a named assumption with a witness.

  \<^bold>\<open>Bounds and fuel.\<close> Loops are structural recursion or have a termination proof, and the rejection loop of the simulation, a partial function, is
  shown to return from every state because its source runs through all 64-bit values; the retry delay is also compared with the same loop under a fuel
  of 43 steps, which suffices because the delay doubles from at least a nanosecond to at most an hour. Integers that can overflow are kept at their width by \<open>wrap64\<close>, by the range
  checks of the columns or as words.

  \<^bold>\<open>Not modelled.\<close> Transactions are atomic: row locks, isolation levels and deadlocks are not modelled beyond \<open>locked\<close> and \<open>meanwhile\<close>. The endless polling loops
  of the workers, contexts, signals and draining of the server are left out, and so are logging, the Prometheus registry, the JSON text of answers,
  the migration runner, the report over the shadow tables, the runner and the report of the simulation, the redrive command and the sample client.
\<close>

end
